(* ===== verification/Prelude.thy ===== *)
theory Prelude
  imports Complex_Main "HOL-Library.Multiset" "HOL-Library.List_Lexorder" "HOL-Library.Char_ord"
    "HOL-Library.Product_Lexorder" "HOL-Library.Code_Target_Nat"
begin

text \<open>
  Shared vocabulary of the development. It fixes how the Rust standard library values that the
  sources use are read: \<open>u64\<close>/\<open>usize\<close> as naturals with the saturating and checked operations
  written out, \<open>f64\<close> as a rational or one of the three non-finite values (only comparisons are
  needed), \<open>String\<close> as the list of its UTF-8 bytes, \<open>BTreeMap\<close> as an association list kept in key
  order, \<open>Vec::swap_remove\<close> and the \<open>while len > cap { pop_front }\<close> ring. It then declares the two
  interfaces the components share: a transition system with an invariant, and a bounded log.
\<close>

section \<open>Collections of rules\<close>

named_theorems rust_simps \<open>characteristic equations of the Rust library operations\<close>
named_theorems inv_intros \<open>operation preserves invariant\<close>

section \<open>Unsigned 64-bit integers\<close>

type_synonym u64 = nat
type_synonym usize = nat
type_synonym u32 = nat

definition u64_max :: u64 where
  "u64_max = 18446744073709551615"

definition u32_max :: u32 where
  "u32_max = 4294967295"

text \<open>\<open>u64::saturating_add\<close>; \<open>saturating_sub\<close> is the truncating subtraction of \<open>nat\<close>.\<close>

definition sadd :: "u64 \<Rightarrow> u64 \<Rightarrow> u64" where
  "sadd a b = min (a + b) u64_max"

definition smul :: "u64 \<Rightarrow> u64 \<Rightarrow> u64" where
  "smul a b = min (a * b) u64_max"

text \<open>\<open>u64::checked_add\<close>.\<close>

definition cadd :: "u64 \<Rightarrow> u64 \<Rightarrow> u64 option" where
  "cadd a b = (if a + b \<le> u64_max then Some (a + b) else None)"

lemma sadd_le_max [simp]: "sadd a b \<le> u64_max"
  by (simp add: sadd_def)

lemma sadd_ge_left: "a \<le> u64_max \<Longrightarrow> a \<le> sadd a b"
  by (simp add: sadd_def)

lemma sadd_le_sum: "sadd a b \<le> a + b"
  by (simp add: sadd_def)

lemma sadd_0_right [simp]: "a \<le> u64_max \<Longrightarrow> sadd a 0 = a"
  by (simp add: sadd_def)

lemma sadd_mono: "a \<le> c \<Longrightarrow> b \<le> d \<Longrightarrow> sadd a b \<le> sadd c d"
  by (auto simp: sadd_def min_def)

lemma sadd_exact: "a + b \<le> u64_max \<Longrightarrow> sadd a b = a + b"
  by (simp add: sadd_def)

lemma cadd_eq_Some [rust_simps]: "cadd a b = Some c \<longleftrightarrow> c = a + b \<and> a + b \<le> u64_max"
  by (auto simp: cadd_def)

lemma cadd_eq_None [rust_simps]: "cadd a b = None \<longleftrightarrow> u64_max < a + b"
  by (auto simp: cadd_def)

section \<open>Double-precision numbers, as far as they are compared\<close>

text \<open>
  Every finite \<open>f64\<close> is a rational number. The sources modelled here only compare \<open>f64\<close> values; a
  comparison with \<open>NaN\<close> is false.
\<close>

datatype f64 = Fin rat | PosInf | NegInf | NaN

fun f64_le :: "f64 \<Rightarrow> f64 \<Rightarrow> bool" where
  "f64_le NaN _ = False"
| "f64_le _ NaN = False"
| "f64_le NegInf _ = True"
| "f64_le _ PosInf = True"
| "f64_le (Fin a) (Fin b) = (a \<le> b)"
| "f64_le _ _ = False"

fun f64_lt :: "f64 \<Rightarrow> f64 \<Rightarrow> bool" where
  "f64_lt NaN _ = False"
| "f64_lt _ NaN = False"
| "f64_lt (Fin a) (Fin b) = (a < b)"
| "f64_lt NegInf b = (b \<noteq> NegInf)"
| "f64_lt a PosInf = (a \<noteq> PosInf)"
| "f64_lt _ _ = False"

fun f64_is_finite :: "f64 \<Rightarrow> bool" where
  "f64_is_finite (Fin _) = True"
| "f64_is_finite _ = False"

text \<open>\<open>(0.0..=1.0).contains(&value)\<close>\<close>

definition f64_unit_interval :: "f64 \<Rightarrow> bool" where
  "f64_unit_interval v \<longleftrightarrow> f64_le (Fin 0) v \<and> f64_le v (Fin 1)"

lemma f64_unit_interval_iff: "f64_unit_interval v \<longleftrightarrow> (\<exists>q. v = Fin q \<and> 0 \<le> q \<and> q \<le> 1)"
  by (cases v) (auto simp: f64_unit_interval_def)

section \<open>Strings as UTF-8 bytes\<close>

text \<open>
  \<open>str::trim\<close> strips code points with the Unicode property White_Space. The UTF-8 encodings of
  those are the ASCII bytes 9 to 13 and 32, and the multi-byte sequences listed here.
  \<open>trim_is_empty s\<close> is \<open>s.trim().is_empty()\<close>: the whole string consists of such code points.
\<close>

fun trim_codes_empty :: "nat list \<Rightarrow> bool" where
  "trim_codes_empty [] = True"
| "trim_codes_empty (a # r) =
     (if (9 \<le> a \<and> a \<le> 13) \<or> a = 32 then trim_codes_empty r
      else case r of
        [] \<Rightarrow> False
      | b # r' \<Rightarrow>
          if a = 0xC2 \<and> (b = 0x85 \<or> b = 0xA0) then trim_codes_empty r'
          else case r' of
            [] \<Rightarrow> False
          | c # r'' \<Rightarrow>
              if (a = 0xE1 \<and> b = 0x9A \<and> c = 0x80)
               \<or> (a = 0xE2 \<and> b = 0x80 \<and> (0x80 \<le> c \<and> c \<le> 0x8A \<or> c = 0xA8 \<or> c = 0xA9 \<or> c = 0xAF))
               \<or> (a = 0xE2 \<and> b = 0x81 \<and> c = 0x9F)
               \<or> (a = 0xE3 \<and> b = 0x80 \<and> c = 0x80)
              then trim_codes_empty r'' else False)"

definition trim_is_empty :: "string \<Rightarrow> bool" where
  "trim_is_empty s = trim_codes_empty (map of_char s)"

lemma trim_is_empty_Nil [simp]: "trim_is_empty []"
  by (simp add: trim_is_empty_def)

lemma trim_is_empty_alpha: "of_char c > (32::nat) \<Longrightarrow> of_char c < (128::nat) \<Longrightarrow> \<not> trim_is_empty (c # s)"
  by (auto simp: trim_is_empty_def split: list.splits)

section \<open>\<open>BTreeMap\<close> as a key-ordered association list\<close>

type_synonym ('k, 'v) bmap = "('k \<times> 'v) list"

definition bm_get :: "('k, 'v) bmap \<Rightarrow> 'k \<Rightarrow> 'v option" where
  "bm_get m k = map_of m k"

fun bm_insert :: "'k::linorder \<Rightarrow> 'v \<Rightarrow> ('k, 'v) bmap \<Rightarrow> ('k, 'v) bmap" where
  "bm_insert k v [] = [(k, v)]"
| "bm_insert k v ((k', v') # m) =
     (if k = k' then (k, v) # m
      else if k < k' then (k, v) # (k', v') # m
      else (k', v') # bm_insert k v m)"

definition bm_remove :: "'k \<Rightarrow> ('k, 'v) bmap \<Rightarrow> ('k, 'v) bmap" where
  "bm_remove k m = filter (\<lambda>(k', _). k' \<noteq> k) m"

definition bm_retain :: "('k \<Rightarrow> 'v \<Rightarrow> bool) \<Rightarrow> ('k, 'v) bmap \<Rightarrow> ('k, 'v) bmap" where
  "bm_retain P m = filter (\<lambda>(k, v). P k v) m"

definition bm_keys :: "('k, 'v) bmap \<Rightarrow> 'k list" where
  "bm_keys m = map fst m"

text \<open>The representation invariant: strictly ascending keys.\<close>

definition bm_ok :: "('k::linorder, 'v) bmap \<Rightarrow> bool" where
  "bm_ok m \<longleftrightarrow> sorted_wrt (<) (map fst m)"

lemma bm_get_Nil [simp]: "bm_get [] k = None"
  by (simp add: bm_get_def)

lemma bm_get_insert [simp]: "bm_get (bm_insert k v m) k' = (if k' = k then Some v else bm_get m k')"
  by (induction k v m rule: bm_insert.induct) (auto simp: bm_get_def)

lemma bm_get_remove [simp]: "bm_get (bm_remove k m) k' = (if k' = k then None else bm_get m k')"
  by (induction m) (auto simp: bm_get_def bm_remove_def)

lemma set_bm_insert: "set (bm_insert k v m) \<subseteq> insert (k, v) (set m)"
  by (induction k v m rule: bm_insert.induct) auto

lemma keys_bm_insert [simp]: "fst ` set (bm_insert k v m) = insert k (fst ` set m)"
  by (induction k v m rule: bm_insert.induct) (auto simp: image_iff)

lemma bm_ok_Nil [simp, intro]: "bm_ok []"
  by (simp add: bm_ok_def)

lemma bm_ok_Cons: "bm_ok ((k, v) # m) \<longleftrightarrow> (\<forall>k'\<in>fst ` set m. k < k') \<and> bm_ok m"
  by (auto simp: bm_ok_def)

lemma bm_ok_insert [intro, inv_intros]: "bm_ok m \<Longrightarrow> bm_ok (bm_insert k v m)"
  by (induction k v m rule: bm_insert.induct) (auto simp: bm_ok_Cons)

lemma bm_ok_filter: "bm_ok m \<Longrightarrow> bm_ok (filter P m)"
  by (auto simp: bm_ok_def sorted_wrt_map intro: sorted_wrt_filter)

lemma bm_ok_remove [intro, inv_intros]: "bm_ok m \<Longrightarrow> bm_ok (bm_remove k m)"
  by (simp add: bm_remove_def bm_ok_filter)

lemma bm_ok_retain [intro, inv_intros]: "bm_ok m \<Longrightarrow> bm_ok (bm_retain P m)"
  by (simp add: bm_retain_def bm_ok_filter)

lemma bm_ok_distinct: "bm_ok m \<Longrightarrow> distinct (map fst m)"
  by (simp add: bm_ok_def strict_sorted_iff)

lemma bm_get_eq_Some: "bm_ok m \<Longrightarrow> bm_get m k = Some v \<longleftrightarrow> (k, v) \<in> set m"
  by (simp add: bm_get_def bm_ok_distinct)

lemma bm_get_eq_None: "bm_get m k = None \<longleftrightarrow> k \<notin> fst ` set m"
  by (simp add: bm_get_def map_of_eq_None_iff)

lemma bm_get_retain:
  "bm_ok m \<Longrightarrow> bm_get (bm_retain P m) k =
     (case bm_get m k of None \<Rightarrow> None | Some v \<Rightarrow> if P k v then Some v else None)"
proof (induction m)
  case (Cons kv m)
  obtain k' v' where [simp]: "kv = (k', v')" by (cases kv)
  show ?case
  proof (cases "k = k'")
    case True
    with Cons.prems have "k \<notin> fst ` set m" by (auto simp: bm_ok_Cons)
    then have "bm_get (bm_retain P m) k = None"
      by (auto simp: bm_get_eq_None bm_retain_def)
    with True show ?thesis by (auto simp: bm_get_def bm_retain_def)
  next
    case False
    with Cons show ?thesis
      by (auto simp: bm_get_def bm_retain_def bm_ok_Cons)
  qed
qed (simp add: bm_retain_def)

lemma bm_insert_fresh_length: "bm_get m k = None \<Longrightarrow> length (bm_insert k v m) = Suc (length m)"
  by (induction k v m rule: bm_insert.induct) (auto simp: bm_get_def split: if_splits)

lemma bm_insert_length_le: "length (bm_insert k v m) \<le> Suc (length m)"
  by (induction k v m rule: bm_insert.induct) auto

lemma bm_insert_old_length: "bm_ok m \<Longrightarrow> bm_get m k = Some v' \<Longrightarrow> length (bm_insert k v m) = length m"
  by (induction k v m rule: bm_insert.induct)
    (force simp: bm_get_def bm_ok_Cons split: if_splits dest!: map_of_SomeD)+

lemma bm_remove_length_le: "length (bm_remove k m) \<le> length m"
  by (simp add: bm_remove_def)

lemma bm_remove_length_less: "bm_get m k = Some v \<Longrightarrow> length (bm_remove k m) < length m"
  unfolding bm_get_def bm_remove_def
  by (drule map_of_SomeD, rule length_filter_less [of "(k, v)"]) auto

section \<open>\<open>Vec::swap_remove\<close>\<close>

definition swap_remove :: "'a list \<Rightarrow> nat \<Rightarrow> 'a list" where
  "swap_remove xs i = butlast (xs[i := last xs])"

lemma length_swap_remove [simp]: "length (swap_remove xs i) = length xs - 1"
  by (simp add: swap_remove_def)

lemma nth_swap_remove:
  "i < length xs \<Longrightarrow> j < length xs - 1 \<Longrightarrow>
     swap_remove xs i ! j = (if j = i then xs ! (length xs - 1) else xs ! j)"
  using last_conv_nth [of xs] by (cases "xs = []") (auto simp: swap_remove_def nth_butlast)

lemma swap_remove_update [simp]: "i < length xs \<Longrightarrow> swap_remove (xs[i := y]) i = swap_remove xs i"
  by (rule nth_equalityI) (auto simp: nth_swap_remove nth_list_update)

lemma take_swap_remove: "i < length xs \<Longrightarrow> take i (swap_remove xs i) = take i xs"
  by (rule nth_equalityI) (auto simp: nth_swap_remove)

lemma mset_drop_swap_remove:
  assumes "i < length xs"
  shows "mset (drop i (swap_remove xs i)) = mset (drop (Suc i) xs)"
proof (cases "drop (Suc i) xs" rule: rev_cases)
  case Nil
  with assms have "Suc i = length xs" by simp
  then show ?thesis by (simp add: Nil)
next
  case (snoc ys y)
  from assms have xs: "xs = take i xs @ xs ! i # ys @ [y]"
    by (metis snoc id_take_nth_drop)
  then have "swap_remove xs i = take i xs @ y # ys"
    by (metis assms butlast.simps(2) butlast_append butlast_snoc id_take_nth_drop last_appendR
        last_snoc list.distinct(1) swap_remove_def upd_conv_take_nth_drop snoc append_is_Nil_conv last.simps)
  with snoc assms show ?thesis by simp
qed

lemma mset_swap_remove:
  assumes "i < length xs"
  shows "mset xs = add_mset (xs ! i) (mset (swap_remove xs i))"
proof -
  have "mset xs = mset (take i xs) + add_mset (xs ! i) (mset (drop (Suc i) xs))"
    by (subst id_take_nth_drop [OF assms]) simp
  also have "\<dots> = add_mset (xs ! i) (mset (take i (swap_remove xs i)) + mset (drop i (swap_remove xs i)))"
    by (simp add: take_swap_remove assms mset_drop_swap_remove)
  also have "mset (take i (swap_remove xs i)) + mset (drop i (swap_remove xs i)) = mset (swap_remove xs i)"
    by (metis append_take_drop_id mset_append)
  finally show ?thesis .
qed

lemma set_swap_remove: "i < length xs \<Longrightarrow> set (swap_remove xs i) \<subseteq> set xs"
  by (metis mset_swap_remove set_mset_add_mset_insert set_mset_mset subset_insertI)

section \<open>The pop-front ring\<close>

text \<open>\<open>while q.len() > cap { q.pop_front(); n = n.saturating_add(1) }\<close>\<close>

fun trim_ring :: "nat \<Rightarrow> 'a list \<Rightarrow> nat \<Rightarrow> 'a list \<times> nat" where
  "trim_ring cap [] n = ([], n)"
| "trim_ring cap (x # xs) n =
     (if cap < length (x # xs) then trim_ring cap xs (sadd n 1) else (x # xs, n))"

lemma fst_trim_ring: "fst (trim_ring cap xs n) = drop (length xs - cap) xs"
  by (induction cap xs n rule: trim_ring.induct) (auto simp: Suc_diff_le)

lemma snd_trim_ring:
  "n \<le> u64_max \<Longrightarrow> snd (trim_ring cap xs n) = sadd n (length xs - cap)"
  by (induction cap xs n rule: trim_ring.induct) (auto simp: sadd_def min_def)

lemma trim_ring_simp [rust_simps]:
  "n \<le> u64_max \<Longrightarrow> trim_ring cap xs n = (drop (length xs - cap) xs, sadd n (length xs - cap))"
  by (metis fst_trim_ring snd_trim_ring surjective_pairing)

section \<open>Interface: a transition system with an invariant\<close>

inductive reach :: "('s \<Rightarrow> bool) \<Rightarrow> ('s \<Rightarrow> 's \<Rightarrow> bool) \<Rightarrow> 's \<Rightarrow> bool"
  for init :: "'s \<Rightarrow> bool" and step :: "'s \<Rightarrow> 's \<Rightarrow> bool" where
  reach_init: "init s \<Longrightarrow> reach init step s"
| reach_step: "reach init step s \<Longrightarrow> step s t \<Longrightarrow> reach init step t"

locale step_invariant =
  fixes init :: "'s \<Rightarrow> bool"
    and step :: "'s \<Rightarrow> 's \<Rightarrow> bool"
    and inv :: "'s \<Rightarrow> bool"
  assumes inv_init: "init s \<Longrightarrow> inv s"
    and inv_step: "inv s \<Longrightarrow> step s t \<Longrightarrow> inv t"
begin

lemma reach_inv: "reach init step s \<Longrightarrow> inv s"
  by (induction rule: reach.induct) (auto intro: inv_init inv_step)

lemma rtranclp_inv: "step\<^sup>*\<^sup>* s t \<Longrightarrow> inv s \<Longrightarrow> inv t"
  by (induction rule: rtranclp.induct) (auto intro: inv_step)

end

text \<open>A system whose steps never decrease a clock.\<close>

locale clocked_system = step_invariant +
  fixes clock :: "'a \<Rightarrow> nat"
  assumes clock_step: "inv s \<Longrightarrow> step s t \<Longrightarrow> clock s \<le> clock t"
begin

lemma clock_mono: "step\<^sup>*\<^sup>* s t \<Longrightarrow> inv s \<Longrightarrow> clock s \<le> clock t"
proof (induction rule: rtranclp.induct)
  case (rtrancl_into_rtrancl a b c)
  then show ?case using rtranclp_inv clock_step le_trans by metis
qed simp

end

section \<open>Interface: a bounded log\<close>

text \<open>
  The retention contract every bounded record of the program promises: pushing appends at the back
  and then drops from the front whatever exceeds the capacity, which a push does not change.
\<close>

definition keep_last :: "nat \<Rightarrow> 'a list \<Rightarrow> 'a list" where
  "keep_last n xs = drop (length xs - n) xs"

lemma length_keep_last [simp]: "length (keep_last n xs) = min n (length xs)"
  by (auto simp: keep_last_def)

lemma keep_last_small: "length xs \<le> n \<Longrightarrow> keep_last n xs = xs"
  by (simp add: keep_last_def)

lemma keep_last_append: "keep_last n (keep_last n xs @ ys) = keep_last n (xs @ ys)"
  by (cases "length xs \<le> n") (simp_all add: keep_last_def, intro arg_cong2 [of _ _ _ _ drop] refl, arith)

lemma set_keep_last: "set (keep_last n xs) \<subseteq> set xs"
  by (simp add: keep_last_def set_drop_subset)

lemma keep_last_snoc: "0 < n \<Longrightarrow> x \<in> set (keep_last n (xs @ [x]))"
  by (auto simp: keep_last_def)

text \<open>The capacity \<open>None\<close> is a log that keeps everything.\<close>

fun keep_cap :: "nat option \<Rightarrow> 'a list \<Rightarrow> 'a list" where
  "keep_cap None xs = xs"
| "keep_cap (Some n) xs = keep_last n xs"

fun within_cap :: "nat option \<Rightarrow> 'a list \<Rightarrow> bool" where
  "within_cap None xs = True"
| "within_cap (Some n) xs = (length xs \<le> n)"

lemma keep_cap_append: "keep_cap c (keep_cap c xs @ ys) = keep_cap c (xs @ ys)"
  by (cases c) (simp_all add: keep_last_append)

lemma keep_cap_small: "within_cap c xs \<Longrightarrow> keep_cap c xs = xs"
  by (cases c) (simp_all add: keep_last_small)

lemma within_keep_cap [simp]: "within_cap c (keep_cap c xs)"
  by (cases c) simp_all

lemma set_keep_cap: "set (keep_cap c xs) \<subseteq> set xs"
  by (cases c) (simp_all add: set_keep_last)

locale bounded_log =
  fixes push :: "'a \<Rightarrow> 's \<Rightarrow> 's"
    and entries :: "'s \<Rightarrow> 'a list"
    and capacity :: "'s \<Rightarrow> nat option"
  assumes entries_push: "entries (push x s) = keep_cap (capacity s) (entries s @ [x])"
    and capacity_push: "capacity (push x s) = capacity s"
begin

lemma capacity_pushes: "capacity (fold push xs s) = capacity s"
  by (induction xs arbitrary: s) (simp_all add: capacity_push)

lemma bounded_push: "within_cap (capacity s) (entries (push x s))"
  by (simp add: entries_push)

lemma set_push: "set (entries (push x s)) \<subseteq> insert x (set (entries s))"
  using set_keep_cap [of "capacity s" "entries s @ [x]"] by (auto simp: entries_push)

lemma pushes_keep_cap:
  "within_cap (capacity s) (entries s) \<Longrightarrow> entries (fold push xs s) = keep_cap (capacity s) (entries s @ xs)"
proof (induction xs arbitrary: s)
  case Nil
  then show ?case by (simp add: keep_cap_small)
next
  case (Cons x xs)
  have "entries (fold push (x # xs) s) = keep_cap (capacity s) (entries (push x s) @ xs)"
    using Cons.IH [of "push x s"] bounded_push [of s x] by (simp add: capacity_push)
  also have "\<dots> = keep_cap (capacity s) (entries s @ x # xs)"
    by (simp add: entries_push keep_cap_append)
  finally show ?case .
qed

lemma newest_kept: "capacity s \<noteq> Some 0 \<Longrightarrow> x \<in> set (entries (push x s))"
  by (cases "capacity s") (auto simp: entries_push keep_last_snoc)

end

section \<open>Results\<close>

text \<open>
  \<open>Result<T, E>\<close> is \<open>'e + 't\<close>, with \<open>Inl\<close> for \<open>Err\<close>. \<open>rbind\<close> is the \<open>?\<close> operator and \<open>ensure\<close> is
  \<open>if !cond { return Err(..) }\<close>.
\<close>

definition rbind :: "'e + 'a \<Rightarrow> ('a \<Rightarrow> 'e + 'b) \<Rightarrow> 'e + 'b" where
  "rbind r f = (case r of Inl e \<Rightarrow> Inl e | Inr x \<Rightarrow> f x)"

definition ensure :: "bool \<Rightarrow> 'e \<Rightarrow> 'e + unit" where
  "ensure b e = (if b then Inr () else Inl e)"

lemma rbind_simps [simp]: "rbind (Inl e) f = Inl e" "rbind (Inr x) f = f x"
  by (simp_all add: rbind_def)

lemma rbind_eq_Inr [rust_simps]: "rbind r f = Inr y \<longleftrightarrow> (\<exists>x. r = Inr x \<and> f x = Inr y)"
  by (cases r) simp_all

lemma rbind_eq_Inl [rust_simps]: "rbind r f = Inl e \<longleftrightarrow> r = Inl e \<or> (\<exists>x. r = Inr x \<and> f x = Inl e)"
  by (cases r) simp_all

lemma ensure_eq_Inr [rust_simps]: "ensure b e = Inr u \<longleftrightarrow> b"
  by (simp add: ensure_def)

lemma ensure_eq_Inl [rust_simps]: "ensure b e = Inl e' \<longleftrightarrow> \<not> b \<and> e' = e"
  by (auto simp: ensure_def)

lemma ensure_True [simp]: "ensure True e = Inr ()"
  by (simp add: ensure_def)

lemma ensure_False [simp]: "ensure False e = Inl e"
  by (simp add: ensure_def)

section \<open>Lists\<close>

lemma set_update_subset: "i < length xs \<Longrightarrow> set (xs[i := y]) \<subseteq> insert y (set xs)"
  by (rule set_update_subset_insert)

lemma mset_update_same: "i < length xs \<Longrightarrow> mset (xs[i := y]) = add_mset y (mset xs - {#xs ! i#})"
  by (simp add: mset_update)

lemma find_SomeD: "List.find P xs = Some x \<Longrightarrow> x \<in> set xs \<and> P x"
  by (induction xs) (auto split: if_splits)

lemma mset_map_filter:
  "mset (List.map_filter f xs) = image_mset (the \<circ> f) (filter_mset (\<lambda>x. f x \<noteq> None) (mset xs))"
  by (induction xs) (auto simp: map_filter_simps split: option.splits)

lemma mset_map_filter_cong:
  "mset xs = mset ys \<Longrightarrow> mset (List.map_filter f xs) = mset (List.map_filter f ys)"
  by (simp add: mset_map_filter)

lemma set_map_filter_iff: "y \<in> set (List.map_filter f xs) \<longleftrightarrow> (\<exists>x\<in>set xs. f x = Some y)"
  by (induction xs) (auto simp: map_filter_simps split: option.splits)

lemma map_update_same: "f y = f (xs ! i) \<Longrightarrow> map f (xs[i := y]) = map f xs"
  by (cases "i < length xs") (auto simp: map_update list_update_same_conv list_update_beyond)

lemma length_filter_update:
  assumes "i < length xs"
  shows "length (filter P (xs[i := y])) + (if P (xs ! i) then 1 else 0) = length (filter P xs) + (if P y then 1 else 0)"
proof -
  have "filter P xs = filter P (take i xs) @ filter P [xs ! i] @ filter P (drop (Suc i) xs)"
    by (subst (1) id_take_nth_drop [OF assms]) simp
  moreover have "filter P (xs[i := y]) = filter P (take i xs) @ filter P [y] @ filter P (drop (Suc i) xs)"
    by (simp add: upd_conv_take_nth_drop [OF assms])
  ultimately show ?thesis by simp
qed

end
