(* ===== verification/Domain_Event.thy ===== *)
theory Domain_Event
  imports Prelude
begin

text \<open>
  The event envelope of \<open>crates/domain/src/event.rs\<close> and its validation: source class, security
  plane and trust level of every event kind, the authorization rule that only operator commands
  carry a claim, and the RFC 3339 date-time check on the raw bytes. The payload values are
  \<open>serde_json::Value\<close>, a third-party type, so they are a type parameter \<open>'v\<close>.
\<close>

section \<open>Data\<close>

datatype source_class =
  SC_PublicChat | SC_Donation | SC_Speech | SC_Game | SC_Stream | SC_Timer | SC_Operator | SC_System

datatype security_plane = Plane_Content | Plane_Control | Plane_System

datatype trust_level = Untrusted | SemiTrusted | Trusted

datatype event_kind =
  ChatMessage | ChatDonation | SpeechInput | GameEvent | StreamEvent | TimerTick
| OperatorCommand | SystemHealth

datatype capability =
  PerformerMute | PerformerStop | ObsControl | AvatarControl | MemoryAdmin | ToolGrant

datatype authorization_method = OperatorUi | OperatorHotkey | SignedLocalApi

record authorization_context =
  ac_principal :: string
  ac_method :: authorization_method
  ac_capabilities :: "capability set"

record 'v event_envelope =
  ev_schema_version :: string
  ev_event_id :: string
  ev_correlation_id :: string
  ev_sequence :: u64
  ev_observed_at :: string
  ev_source :: string
  ev_source_class :: source_class
  ev_plane :: security_plane
  ev_trust_level :: trust_level
  ev_kind :: event_kind
  ev_actor_id :: "string option"
  ev_priority_hint :: "f64 option"
  ev_authorization :: "authorization_context option"
  ev_payload :: "(string, 'v) bmap"

text \<open>\<open>DomainValidationError\<close> of \<open>error.rs\<close>.\<close>

record domain_error =
  de_field :: string
  de_message :: string

definition domain_error_new :: "string \<Rightarrow> string \<Rightarrow> domain_error" where
  "domain_error_new field message = \<lparr>de_field = field, de_message = message\<rparr>"

definition domain_error_display :: "domain_error \<Rightarrow> string" where
  "domain_error_display e = de_field e @ '': '' @ de_message e"

definition EVENT_SCHEMA_VERSION :: string where
  "EVENT_SCHEMA_VERSION = ''0.2.0''"

text \<open>\<open>{:?}\<close> of an event kind.\<close>

fun event_kind_debug :: "event_kind \<Rightarrow> string" where
  "event_kind_debug ChatMessage = ''ChatMessage''"
| "event_kind_debug ChatDonation = ''ChatDonation''"
| "event_kind_debug SpeechInput = ''SpeechInput''"
| "event_kind_debug GameEvent = ''GameEvent''"
| "event_kind_debug StreamEvent = ''StreamEvent''"
| "event_kind_debug TimerTick = ''TimerTick''"
| "event_kind_debug OperatorCommand = ''OperatorCommand''"
| "event_kind_debug SystemHealth = ''SystemHealth''"

section \<open>Date-times\<close>

definition byte_get :: "nat list \<Rightarrow> nat \<Rightarrow> nat option" where
  "byte_get bs i = (if i < length bs then Some (bs ! i) else None)"

definition is_ascii_digit :: "nat \<Rightarrow> bool" where
  "is_ascii_digit b \<longleftrightarrow> 48 \<le> b \<and> b \<le> 57"

text \<open>The fold of \<open>parse_digits\<close>: \<open>checked_mul(10)?.checked_add(digit)\<close> on \<open>u32\<close>.\<close>

fun fold_digits :: "nat \<Rightarrow> nat list \<Rightarrow> nat option" where
  "fold_digits v [] = Some v"
| "fold_digits v (d # ds) =
     (if v * 10 \<le> u32_max \<and> v * 10 + (d - 48) \<le> u32_max then fold_digits (v * 10 + (d - 48)) ds else None)"

definition parse_digits :: "nat list \<Rightarrow> nat \<Rightarrow> nat \<Rightarrow> nat option" where
  "parse_digits bs start len =
     (if start + len \<le> length bs
      then let slice = take len (drop start bs)
           in if list_all is_ascii_digit slice then fold_digits 0 slice else None
      else None)"

definition is_leap_year :: "nat \<Rightarrow> bool" where
  "is_leap_year y \<longleftrightarrow> y mod 4 = 0 \<and> (y mod 100 \<noteq> 0 \<or> y mod 400 = 0)"

definition days_in_month :: "nat \<Rightarrow> nat \<Rightarrow> nat" where
  "days_in_month y m =
     (if m \<in> {1, 3, 5, 7, 8, 10, 12} then 31
      else if m \<in> {4, 6, 9, 11} then 30
      else if m = 2 then (if is_leap_year y then 29 else 28)
      else 0)"

text \<open>The \<open>while\<close> loop over the fractional digits; it returns the index after the last one.\<close>

function scan_digits :: "nat list \<Rightarrow> nat \<Rightarrow> nat" where
  "scan_digits bs i = (if i < length bs \<and> is_ascii_digit (bs ! i) then scan_digits bs (Suc i) else i)"
  by pat_completeness auto
termination
  by (relation "measure (\<lambda>(bs, i). length bs - i)") auto

declare scan_digits.simps [simp del]

text \<open>The final \<open>match\<close> on the offset at \<open>index\<close>.\<close>

definition offset_ok :: "nat list \<Rightarrow> nat \<Rightarrow> bool" where
  "offset_ok bs i =
     (case byte_get bs i of
        None \<Rightarrow> False
      | Some b \<Rightarrow>
          if b = 90 \<or> b = 122 then i + 1 = length bs
          else if b = 43 \<or> b = 45 then
            (if i + 6 \<noteq> length bs \<or> byte_get bs (i + 3) \<noteq> Some 58 then False
             else case parse_digits bs (i + 1) 2 of
                 None \<Rightarrow> False
               | Some oh \<Rightarrow> (case parse_digits bs (i + 4) 2 of
                     None \<Rightarrow> False
                   | Some om \<Rightarrow> oh \<le> 23 \<and> om \<le> 59))
          else False)"

definition fraction_end :: "nat list \<Rightarrow> nat option" where
  "fraction_end bs =
     (if byte_get bs 19 = Some 46
      then let i = scan_digits bs 20 in if i = 20 then None else Some i
      else Some 19)"

definition is_json_schema_date_time :: "nat list \<Rightarrow> bool" where
  "is_json_schema_date_time bs =
     (if length bs < 20 \<or> byte_get bs 4 \<noteq> Some 45 \<or> byte_get bs 7 \<noteq> Some 45
         \<or> (byte_get bs 10 \<noteq> Some 84 \<and> byte_get bs 10 \<noteq> Some 116)
         \<or> byte_get bs 13 \<noteq> Some 58 \<or> byte_get bs 16 \<noteq> Some 58
      then False
      else case (parse_digits bs 0 4, parse_digits bs 5 2, parse_digits bs 8 2,
                 parse_digits bs 11 2, parse_digits bs 14 2, parse_digits bs 17 2) of
        (Some year, Some month, Some day, Some hour, Some minute, Some second) \<Rightarrow>
          if \<not> (1 \<le> month \<and> month \<le> 12) \<or> day = 0 \<or> days_in_month year month < day
             \<or> 23 < hour \<or> 59 < minute \<or> 59 < second
          then False
          else (case fraction_end bs of None \<Rightarrow> False | Some i \<Rightarrow> offset_ok bs i)
      | _ \<Rightarrow> False)"

section \<open>Field checks\<close>

definition require_non_empty :: "string \<Rightarrow> string \<Rightarrow> domain_error + unit" where
  "require_non_empty field v = ensure (v \<noteq> '''') (domain_error_new field ''must not be empty'')"

definition validate_date_time :: "string \<Rightarrow> string \<Rightarrow> domain_error + unit" where
  "validate_date_time field v =
     ensure (is_json_schema_date_time (map of_char v))
       (domain_error_new field ''must be an RFC 3339 date-time'')"

definition validate_unit_interval :: "string \<Rightarrow> f64 \<Rightarrow> domain_error + unit" where
  "validate_unit_interval field v =
     ensure (f64_is_finite v \<and> f64_unit_interval v)
       (domain_error_new field ''must be a finite value in 0..=1'')"

section \<open>Envelope validation\<close>

definition validate_unprivileged ::
  "source_class \<Rightarrow> security_plane \<Rightarrow> trust_level list \<Rightarrow> 'v event_envelope \<Rightarrow> domain_error + unit" where
  "validate_unprivileged sc pl trust e =
     (if ev_source_class e \<noteq> sc then
        Inl (domain_error_new ''source_class'' (''invalid source class for '' @ event_kind_debug (ev_kind e)))
      else if ev_plane e \<noteq> pl then
        Inl (domain_error_new ''plane'' (''invalid security plane for '' @ event_kind_debug (ev_kind e)))
      else if \<not> List.member trust (ev_trust_level e) then
        Inl (domain_error_new ''trust_level'' (''invalid trust level for '' @ event_kind_debug (ev_kind e)))
      else if ev_authorization e \<noteq> None then
        Inl (domain_error_new ''authorization'' ''authorization is forbidden outside operator.command'')
      else Inr ())"

definition validate_operator_command :: "'v event_envelope \<Rightarrow> domain_error + unit" where
  "validate_operator_command e =
     (if ev_source_class e \<noteq> SC_Operator then
        Inl (domain_error_new ''source_class'' ''operator.command requires source_class=operator'')
      else if ev_plane e \<noteq> Plane_Control then
        Inl (domain_error_new ''plane'' ''operator.command requires plane=control'')
      else if ev_trust_level e \<noteq> Trusted then
        Inl (domain_error_new ''trust_level'' ''operator.command requires trust_level=trusted'')
      else case ev_authorization e of
          None \<Rightarrow> Inl (domain_error_new ''authorization'' ''operator.command requires authorization'')
        | Some a \<Rightarrow>
            rbind (require_non_empty ''authorization.principal'' (ac_principal a))
              (\<lambda>_. ensure (ac_capabilities a \<noteq> {})
                 (domain_error_new ''authorization.capabilities'' ''at least one capability is required'')))"

definition validate_event :: "'v event_envelope \<Rightarrow> domain_error + unit" where
  "validate_event e =
     (if ev_schema_version e \<noteq> EVENT_SCHEMA_VERSION then
        Inl (domain_error_new ''schema_version'' (''expected '' @ EVENT_SCHEMA_VERSION))
      else
        rbind (require_non_empty ''event_id'' (ev_event_id e)) (\<lambda>_.
        rbind (require_non_empty ''correlation_id'' (ev_correlation_id e)) (\<lambda>_.
        rbind (validate_date_time ''observed_at'' (ev_observed_at e)) (\<lambda>_.
        rbind (require_non_empty ''source'' (ev_source e)) (\<lambda>_.
        rbind (case ev_priority_hint e of
                 None \<Rightarrow> Inr ()
               | Some p \<Rightarrow> validate_unit_interval ''priority_hint'' p) (\<lambda>_.
        case ev_kind e of
          ChatMessage \<Rightarrow> validate_unprivileged SC_PublicChat Plane_Content [Untrusted, SemiTrusted] e
        | ChatDonation \<Rightarrow> validate_unprivileged SC_Donation Plane_Content [Untrusted, SemiTrusted] e
        | SpeechInput \<Rightarrow> validate_unprivileged SC_Speech Plane_Content [Untrusted, SemiTrusted] e
        | GameEvent \<Rightarrow> validate_unprivileged SC_Game Plane_Content [SemiTrusted] e
        | StreamEvent \<Rightarrow> validate_unprivileged SC_Stream Plane_System [SemiTrusted, Trusted] e
        | TimerTick \<Rightarrow> validate_unprivileged SC_Timer Plane_System [Trusted] e
        | SystemHealth \<Rightarrow> validate_unprivileged SC_System Plane_System [Trusted] e
        | OperatorCommand \<Rightarrow> validate_operator_command e))))))"

section \<open>Deserialization guards\<close>

text \<open>The loop of \<open>deserialize_unique_capabilities\<close>: a repeated capability is an error.\<close>

fun unique_capabilities :: "capability set \<Rightarrow> capability list \<Rightarrow> string + capability set" where
  "unique_capabilities seen [] = Inr seen"
| "unique_capabilities seen (c # cs) =
     (if c \<in> seen then Inl ''authorization capabilities must be unique''
      else unique_capabilities (insert c seen) cs)"

definition deserialize_unique_capabilities :: "capability list \<Rightarrow> string + capability set" where
  "deserialize_unique_capabilities cs = unique_capabilities {} cs"

text \<open>The field is present; \<open>None\<close> is an explicit JSON \<open>null\<close>.\<close>

definition deserialize_present_authorization ::
  "authorization_context option \<Rightarrow> string + authorization_context option" where
  "deserialize_present_authorization v =
     (case v of None \<Rightarrow> Inl ''authorization must be an object when present'' | Some a \<Rightarrow> Inr (Some a))"

section \<open>What validation accepts\<close>

text \<open>The trust table of the domain contract, stated apart from the code's control flow.\<close>

fun trust_table :: "event_kind \<Rightarrow> source_class \<times> security_plane \<times> trust_level set" where
  "trust_table ChatMessage = (SC_PublicChat, Plane_Content, {Untrusted, SemiTrusted})"
| "trust_table ChatDonation = (SC_Donation, Plane_Content, {Untrusted, SemiTrusted})"
| "trust_table SpeechInput = (SC_Speech, Plane_Content, {Untrusted, SemiTrusted})"
| "trust_table GameEvent = (SC_Game, Plane_Content, {SemiTrusted})"
| "trust_table StreamEvent = (SC_Stream, Plane_System, {SemiTrusted, Trusted})"
| "trust_table TimerTick = (SC_Timer, Plane_System, {Trusted})"
| "trust_table SystemHealth = (SC_System, Plane_System, {Trusted})"
| "trust_table OperatorCommand = (SC_Operator, Plane_Control, {Trusted})"

definition event_header_ok :: "'v event_envelope \<Rightarrow> bool" where
  "event_header_ok e \<longleftrightarrow>
     ev_schema_version e = ''0.2.0'' \<and> ev_event_id e \<noteq> '''' \<and> ev_correlation_id e \<noteq> '''' \<and>
     ev_source e \<noteq> '''' \<and> is_json_schema_date_time (map of_char (ev_observed_at e)) \<and>
     (\<forall>p. ev_priority_hint e = Some p \<longrightarrow> (\<exists>q. p = Fin q \<and> 0 \<le> q \<and> q \<le> 1))"

definition event_authorization_ok :: "'v event_envelope \<Rightarrow> bool" where
  "event_authorization_ok e \<longleftrightarrow>
     (case ev_authorization e of
        None \<Rightarrow> ev_kind e \<noteq> OperatorCommand
      | Some a \<Rightarrow> ev_kind e = OperatorCommand \<and> ac_principal a \<noteq> '''' \<and> ac_capabilities a \<noteq> {})"

definition event_trust_ok :: "'v event_envelope \<Rightarrow> bool" where
  "event_trust_ok e \<longleftrightarrow>
     (case trust_table (ev_kind e) of (sc, pl, trust) \<Rightarrow>
        ev_source_class e = sc \<and> ev_plane e = pl \<and> ev_trust_level e \<in> trust)"

lemma validate_unprivileged_ok:
  "validate_unprivileged sc pl trust e = Inr () \<longleftrightarrow>
     ev_source_class e = sc \<and> ev_plane e = pl \<and> ev_trust_level e \<in> set trust \<and> ev_authorization e = None"
  by (simp add: validate_unprivileged_def)

lemma validate_operator_command_ok:
  "validate_operator_command e = Inr () \<longleftrightarrow>
     ev_source_class e = SC_Operator \<and> ev_plane e = Plane_Control \<and> ev_trust_level e = Trusted \<and>
     (\<exists>a. ev_authorization e = Some a \<and> ac_principal a \<noteq> '''' \<and> ac_capabilities a \<noteq> {})"
  by (auto simp: validate_operator_command_def require_non_empty_def rust_simps split: option.splits)

lemma event_header_ok_iff:
  "event_header_ok e \<longleftrightarrow>
     ev_schema_version e = EVENT_SCHEMA_VERSION \<and>
     require_non_empty ''event_id'' (ev_event_id e) = Inr () \<and>
     require_non_empty ''correlation_id'' (ev_correlation_id e) = Inr () \<and>
     validate_date_time ''observed_at'' (ev_observed_at e) = Inr () \<and>
     require_non_empty ''source'' (ev_source e) = Inr () \<and>
     (case ev_priority_hint e of
        None \<Rightarrow> Inr () | Some p \<Rightarrow> validate_unit_interval ''priority_hint'' p) = Inr ()"
  by (auto simp: event_header_ok_def EVENT_SCHEMA_VERSION_def require_non_empty_def
      validate_date_time_def validate_unit_interval_def f64_unit_interval_iff rust_simps
      split: option.splits)

lemma validate_event_split:
  "validate_event e = Inr () \<longleftrightarrow> event_header_ok e \<and> event_trust_ok e \<and> event_authorization_ok e"
  unfolding event_header_ok_iff validate_event_def
  by (cases "ev_kind e"; cases "ev_authorization e")
    (auto simp: rust_simps validate_unprivileged_ok validate_operator_command_ok event_trust_ok_def
      event_authorization_ok_def)

lemma validated_content_unprivileged:
  "validate_event e = Inr () \<Longrightarrow> ev_plane e \<noteq> Plane_Control \<Longrightarrow>
     ev_kind e \<noteq> OperatorCommand \<and> ev_authorization e = None"
  by (cases "ev_kind e")
    (auto simp: validate_event_split event_trust_ok_def event_authorization_ok_def split: option.splits)

lemma unique_capabilities_iff:
  "unique_capabilities seen cs =
     (if distinct cs \<and> set cs \<inter> seen = {} then Inr (seen \<union> set cs)
      else Inl ''authorization capabilities must be unique'')"
  by (induction seen cs rule: unique_capabilities.induct) auto

text \<open>
  Validation decides the trust contract: an envelope is accepted exactly when its header is well
  formed (version, non-empty identifiers, an RFC 3339 time, a priority hint in the unit interval), its
  source class, plane and trust level are those the table allows for its kind, and it carries an
  authorization exactly if it is an operator command, with a principal and a capability in it.
\<close>

theorem event_validation_is_exact:
  "validate_event e = Inr () \<longleftrightarrow> event_header_ok e \<and> event_trust_ok e \<and> event_authorization_ok e"
  by (rule validate_event_split)

end
