(* ===== verification/Scheduler_Model.thy ===== *)
theory Scheduler_Model
  imports Domain_Event
begin

text \<open>
  The deterministic performance scheduler of \<open>crates/scheduler/src/lib.rs\<close>, definition by
  definition: the plan, the live item, the bounded terminal history and the scheduler state, then
  logical time (\<open>advance_to\<close>), arbitration and reservation (\<open>schedule_at\<close>), and the stop paths.
  The two liveness indexes and the cooldown table are \<open>BTreeMap\<close>s, hence \<open>bmap\<close>s. A Rust index
  out of range is a panic; where that is not excluded by the loop condition just read (the loop that
  cancels superseded reservations) the model returns \<open>None\<close> for it.
\<close>

section \<open>Data\<close>

datatype priority =
  P_Background | P_Commentary | P_Conversation | P_StrongReaction | P_HighPriorityInteraction
| P_Operator

fun priority_rank :: "priority \<Rightarrow> nat" where
  "priority_rank P_Background = 5"
| "priority_rank P_Commentary = 4"
| "priority_rank P_Conversation = 3"
| "priority_rank P_StrongReaction = 2"
| "priority_rank P_HighPriorityInteraction = 1"
| "priority_rank P_Operator = 0"

fun priority_for_event :: "event_kind \<Rightarrow> priority" where
  "priority_for_event OperatorCommand = P_Operator"
| "priority_for_event ChatDonation = P_HighPriorityInteraction"
| "priority_for_event GameEvent = P_StrongReaction"
| "priority_for_event ChatMessage = P_Conversation"
| "priority_for_event SpeechInput = P_Conversation"
| "priority_for_event StreamEvent = P_Commentary"
| "priority_for_event TimerTick = P_Background"
| "priority_for_event SystemHealth = P_Background"

datatype blend_channel = Ch_Audio | Ch_Face | Ch_Body | Ch_Gaze | Ch_Overlay

record planned_performance =
  pp_event_id :: string
  pp_asset_id :: string
  pp_priority :: priority
  pp_interruptible :: bool
  pp_interrupt_points_ms :: "u64 list"
  pp_start_at_ms :: u64
  pp_duration_ms :: u64
  pp_generation :: u64
  pp_exclusive :: bool
  pp_channels :: "blend_channel set"

definition end_at_ms :: "planned_performance \<Rightarrow> u64" where
  "end_at_ms p = sadd (pp_start_at_ms p) (pp_duration_ms p)"

datatype item_status = Queued | Playing | Completed | Cancelled

record scheduled_item =
  si_plan :: planned_performance
  si_status :: item_status
  si_cancel_at_ms :: "u64 option"

definition effective_end_ms :: "scheduled_item \<Rightarrow> u64" where
  "effective_end_ms it =
     min (case si_cancel_at_ms it of Some c \<Rightarrow> c | None \<Rightarrow> end_at_ms (si_plan it)) (end_at_ms (si_plan it))"

definition occupies_timeline :: "scheduled_item \<Rightarrow> bool" where
  "occupies_timeline it \<longleftrightarrow> si_status it = Queued \<or> si_status it = Playing"

datatype rejection = Rej_Cooldown | Rej_Priority | Rej_DuplicateEvent

datatype history_policy = Ring | RetainAll

record history_entry =
  he_terminal_at_ms :: u64
  he_scheduled_at_ms :: u64
  he_item :: scheduled_item

record scheduler_metrics =
  sm_queued :: usize
  sm_playing :: usize
  sm_active :: usize
  sm_terminal_retained :: usize
  sm_terminal_evicted :: usize
  sm_cooldowns :: usize
  sm_cooldowns_high_water :: usize
  sm_cooldowns_expired :: u64

record scheduler_config =
  sc_min_reaction_spacing_ms :: u64
  sc_history_capacity :: usize
  sc_history_policy :: history_policy

definition default_config :: scheduler_config where
  "default_config = \<lparr>sc_min_reaction_spacing_ms = 1500, sc_history_capacity = 1024, sc_history_policy = Ring\<rparr>"

definition replay_config :: scheduler_config where
  "replay_config = default_config\<lparr>sc_history_capacity := u64_max, sc_history_policy := RetainAll\<rparr>"

record scheduler =
  sch_items :: "scheduled_item list"
  sch_live_by_generation :: "(u64, nat) bmap"
  sch_live_by_event :: "(string, nat) bmap"
  sch_history :: "history_entry list"
  sch_cooldowns :: "(string, u64) bmap"
  sch_cooldowns_high_water :: usize
  sch_cooldowns_expired :: u64
  sch_generation :: u64
  sch_config :: scheduler_config
  sch_last_rejection :: "rejection option"
  sch_now_ms :: u64
  sch_last_terminal_at :: "u64 option"
  sch_terminal_evicted :: usize

definition scheduler_new :: "scheduler_config \<Rightarrow> scheduler" where
  "scheduler_new cfg =
     \<lparr>sch_items = [], sch_live_by_generation = [], sch_live_by_event = [], sch_history = [],
      sch_cooldowns = [], sch_cooldowns_high_water = 0, sch_cooldowns_expired = 0,
      sch_generation = 0, sch_config = cfg, sch_last_rejection = None, sch_now_ms = 0,
      sch_last_terminal_at = None, sch_terminal_evicted = 0\<rparr>"

section \<open>Views\<close>

definition drain_history :: "scheduler \<Rightarrow> history_entry list \<times> scheduler" where
  "drain_history s = (sch_history s, s\<lparr>sch_history := []\<rparr>)"

definition scheduler_metrics_of :: "scheduler \<Rightarrow> scheduler_metrics" where
  "scheduler_metrics_of s =
     (let queued = length (filter (\<lambda>it. si_status it = Queued) (sch_items s));
          playing = length (filter (\<lambda>it. si_status it = Playing) (sch_items s))
      in \<lparr>sm_queued = queued, sm_playing = playing, sm_active = queued + playing,
          sm_terminal_retained = length (sch_history s),
          sm_terminal_evicted = sch_terminal_evicted s,
          sm_cooldowns = length (sch_cooldowns s),
          sm_cooldowns_high_water = sch_cooldowns_high_water s,
          sm_cooldowns_expired = sch_cooldowns_expired s\<rparr>)"

definition is_generation_live :: "u64 \<Rightarrow> scheduler \<Rightarrow> bool" where
  "is_generation_live g s \<longleftrightarrow> bm_get (sch_live_by_generation s) g \<noteq> None"

text \<open>\<open>Vec::get\<close>: \<open>None\<close> when out of range.\<close>

definition vec_get :: "'a list \<Rightarrow> nat \<Rightarrow> 'a option" where
  "vec_get xs i = (if i < length xs then Some (xs ! i) else None)"

definition live_item_by_generation :: "u64 \<Rightarrow> scheduler \<Rightarrow> scheduled_item option" where
  "live_item_by_generation g s =
     (case bm_get (sch_live_by_generation s) g of None \<Rightarrow> None | Some i \<Rightarrow> vec_get (sch_items s) i)"

definition live_item_by_event :: "string \<Rightarrow> scheduler \<Rightarrow> scheduled_item option" where
  "live_item_by_event e s =
     (case bm_get (sch_live_by_event s) e of None \<Rightarrow> None | Some i \<Rightarrow> vec_get (sch_items s) i)"

definition playing_item :: "scheduler \<Rightarrow> scheduled_item option" where
  "playing_item s = List.find (\<lambda>it. si_status it = Playing) (sch_items s)"

definition playing_items :: "scheduler \<Rightarrow> scheduled_item list" where
  "playing_items s = filter (\<lambda>it. si_status it = Playing) (sch_items s)"

section \<open>Retirement\<close>

definition trim_history :: "scheduler \<Rightarrow> scheduler" where
  "trim_history s =
     (if sc_history_policy (sch_config s) = RetainAll then s
      else let (h, n) = trim_ring (sc_history_capacity (sch_config s)) (sch_history s) (sch_terminal_evicted s)
           in s\<lparr>sch_history := h, sch_terminal_evicted := n\<rparr>)"

text \<open>Every caller reads \<open>items[index]\<close> first, so \<open>index\<close> is in range here.\<close>

definition retire :: "nat \<Rightarrow> u64 \<Rightarrow> scheduler \<Rightarrow> scheduler" where
  "retire i at_ms s =
     (let it = sch_items s ! i;
          s1 = s\<lparr>sch_items := swap_remove (sch_items s) i,
                 sch_live_by_generation := bm_remove (pp_generation (si_plan it)) (sch_live_by_generation s),
                 sch_live_by_event := bm_remove (pp_event_id (si_plan it)) (sch_live_by_event s),
                 sch_history := sch_history s @
                   [\<lparr>he_terminal_at_ms = at_ms, he_scheduled_at_ms = pp_start_at_ms (si_plan it), he_item = it\<rparr>]\<rparr>;
          s2 = trim_history s1
      in case vec_get (sch_items s2) i of
           None \<Rightarrow> s2
         | Some moved \<Rightarrow>
             s2\<lparr>sch_live_by_generation := bm_insert (pp_generation (si_plan moved)) i (sch_live_by_generation s2),
                sch_live_by_event := bm_insert (pp_event_id (si_plan moved)) i (sch_live_by_event s2)\<rparr>)"

definition set_item :: "nat \<Rightarrow> scheduled_item \<Rightarrow> scheduler \<Rightarrow> scheduler" where
  "set_item i it s = s\<lparr>sch_items := (sch_items s)[i := it]\<rparr>"

definition note_terminal :: "u64 \<Rightarrow> scheduler \<Rightarrow> scheduler" where
  "note_terminal at_ms s =
     s\<lparr>sch_last_terminal_at := Some (case sch_last_terminal_at s of None \<Rightarrow> at_ms | Some p \<Rightarrow> max p at_ms)\<rparr>"

section \<open>Logical time\<close>

text \<open>The terminal transition that both the \<open>Playing\<close> and the \<open>Queued\<close> arm of the loop perform.\<close>

definition finish_item :: "nat \<Rightarrow> scheduler \<Rightarrow> scheduler" where
  "finish_item i s =
     (let it = sch_items s ! i;
          natural_end = end_at_ms (si_plan it);
          effective_end = effective_end_ms it;
          cancelled = (case si_cancel_at_ms it of None \<Rightarrow> False | Some c \<Rightarrow> c < natural_end);
          s1 = set_item i (it\<lparr>si_status := (if cancelled then Cancelled else Completed)\<rparr>) s;
          s2 = note_terminal effective_end s1
      in retire i effective_end s2)"

text \<open>\<open>retire\<close> and \<open>finish_item\<close> drop one item; the loop's measure needs that.\<close>

lemma trim_history_items [simp]: "sch_items (trim_history s) = sch_items s"
  by (simp add: trim_history_def split: prod.splits)

lemma retire_items [simp]: "sch_items (retire i at_ms s) = swap_remove (sch_items s) i"
  by (simp add: retire_def Let_def split: option.splits)

lemma set_item_items [simp]: "sch_items (set_item i it s) = (sch_items s)[i := it]"
  by (simp add: set_item_def)

lemma note_terminal_items [simp]: "sch_items (note_terminal at_ms s) = sch_items s"
  by (simp add: note_terminal_def)

lemma length_finish_item [simp]: "length (sch_items (finish_item i s)) = length (sch_items s) - 1"
  by (simp add: finish_item_def Let_def)

function advance_loop :: "u64 \<Rightarrow> nat \<Rightarrow> scheduler \<Rightarrow> scheduler" where
  "advance_loop target i s =
     (if i < length (sch_items s) then
        let it = sch_items s ! i; effective_end = effective_end_ms it in
        case si_status it of
          Playing \<Rightarrow>
            if effective_end \<le> target then advance_loop target i (finish_item i s)
            else advance_loop target (Suc i) s
        | Queued \<Rightarrow>
            if (case si_cancel_at_ms it of None \<Rightarrow> False
                | Some c \<Rightarrow> c < pp_start_at_ms (si_plan it) \<and> c \<le> target)
            then advance_loop target i (retire i target s)
            else if pp_start_at_ms (si_plan it) \<le> target then
              (if effective_end \<le> target then advance_loop target i (finish_item i s)
               else advance_loop target (Suc i) (set_item i (it\<lparr>si_status := Playing\<rparr>) s))
            else advance_loop target (Suc i) s
        | Completed \<Rightarrow> advance_loop target (Suc i) s
        | Cancelled \<Rightarrow> advance_loop target (Suc i) s
      else s)"
  by pat_completeness auto
termination
  by (relation "measure (\<lambda>(t, i, s). length (sch_items s) - i)") auto

declare advance_loop.simps [simp del]

definition expire_cooldowns :: "u64 \<Rightarrow> scheduler \<Rightarrow> scheduler" where
  "expire_cooldowns target s =
     (let kept = bm_retain (\<lambda>_ until. target < until) (sch_cooldowns s)
      in s\<lparr>sch_cooldowns := kept,
           sch_cooldowns_expired :=
             sadd (sch_cooldowns_expired s) (length (sch_cooldowns s) - length kept)\<rparr>)"

definition advance_to :: "u64 \<Rightarrow> scheduler \<Rightarrow> scheduler" where
  "advance_to at_ms s =
     (let target = max at_ms (sch_now_ms s)
      in (advance_loop target 0 (expire_cooldowns target s))\<lparr>sch_now_ms := target\<rparr>)"

section \<open>Arbitration helpers\<close>

definition plans_conflict :: "planned_performance \<Rightarrow> planned_performance \<Rightarrow> bool" where
  "plans_conflict a b \<longleftrightarrow> pp_exclusive a \<or> pp_exclusive b \<or> pp_channels a \<inter> pp_channels b \<noteq> {}"

definition intervals_overlap :: "u64 \<Rightarrow> u64 \<Rightarrow> u64 \<Rightarrow> u64 \<Rightarrow> bool" where
  "intervals_overlap a_start a_end b_start b_end \<longleftrightarrow> a_start < b_end \<and> b_start < a_end"

definition next_safe_boundary :: "planned_performance \<Rightarrow> u64 \<Rightarrow> u64" where
  "next_safe_boundary p request =
     (let natural_end = end_at_ms p; elapsed = request - pp_start_at_ms p
      in case List.find (\<lambda>b. request \<le> b \<and> b < natural_end)
                (map (\<lambda>off. sadd (pp_start_at_ms p) off)
                  (filter (\<lambda>off. elapsed \<le> off) (pp_interrupt_points_ms p))) of
           Some b \<Rightarrow> b
         | None \<Rightarrow> natural_end)"

text \<open>\<open>retain\<close>, \<open>sort_unstable\<close>, \<open>dedup\<close>.\<close>

definition normalize_interrupt_points :: "planned_performance \<Rightarrow> planned_performance" where
  "normalize_interrupt_points p =
     p\<lparr>pp_interrupt_points_ms :=
        remdups_adj (sort (filter (\<lambda>off. off \<le> pp_duration_ms p) (pp_interrupt_points_ms p)))\<rparr>"

text \<open>
  The loop over the conflicting playing items. It carries \<open>candidate_start\<close>,
  \<open>handoff_terminal\<close> and \<open>pending_cancellations\<close>; \<open>None\<close> is the early return with
  \<open>Rejection::Priority\<close>.
\<close>

fun arbitrate_playing ::
  "u64 \<Rightarrow> nat \<Rightarrow> scheduled_item list \<Rightarrow> nat list \<Rightarrow> u64 \<Rightarrow> u64 option \<Rightarrow> (nat \<times> u64) list
    \<Rightarrow> (u64 \<times> u64 option \<times> (nat \<times> u64) list) option" where
  "arbitrate_playing request rank items [] cand term pending = Some (cand, term, pending)"
| "arbitrate_playing request rank items (i # is) cand term pending =
     (let p = si_plan (items ! i) in
      if priority_rank (pp_priority p) < rank then None
      else
        let natural_end = end_at_ms p;
            boundary = (if pp_interruptible p then next_safe_boundary p request else natural_end);
            pending' = (if boundary < natural_end then pending @ [(i, boundary)] else pending)
        in arbitrate_playing request rank items is (max cand boundary)
             (Some (case term of None \<Rightarrow> boundary | Some v \<Rightarrow> max v boundary)) pending')"

definition active_indices :: "planned_performance \<Rightarrow> scheduled_item list \<Rightarrow> nat list" where
  "active_indices plan items =
     filter (\<lambda>i. si_status (items ! i) = Playing \<and> plans_conflict (si_plan (items ! i)) plan)
       [0..<length items]"

text \<open>One pending safe-point cancellation, then all of them in order.\<close>

definition cancel_at_boundary :: "u64 \<Rightarrow> scheduled_item \<Rightarrow> scheduled_item" where
  "cancel_at_boundary b it =
     it\<lparr>si_cancel_at_ms := Some (case si_cancel_at_ms it of None \<Rightarrow> b | Some v \<Rightarrow> min v b)\<rparr>"

fun apply_cancellations :: "(nat \<times> u64) list \<Rightarrow> scheduled_item list \<Rightarrow> scheduled_item list" where
  "apply_cancellations [] items = items"
| "apply_cancellations ((i, b) # ps) items =
     apply_cancellations ps (items[i := cancel_at_boundary b (items ! i)])"

definition spaced_start :: "priority \<Rightarrow> u64 \<Rightarrow> u64 \<Rightarrow> u64 option \<Rightarrow> u64 option \<Rightarrow> u64" where
  "spaced_start prio spacing cand handoff last_terminal =
     (if prio = P_Operator then cand
      else case handoff of
          Some t \<Rightarrow> max cand (sadd t spacing)
        | None \<Rightarrow> (case last_terminal of
              Some t \<Rightarrow> max cand (sadd t spacing)
            | None \<Rightarrow> cand))"

section \<open>Reservations\<close>

definition cancel_queued :: "nat \<Rightarrow> u64 \<Rightarrow> scheduler \<Rightarrow> scheduler" where
  "cancel_queued i at_ms s =
     (let it = sch_items s ! i;
          planned_cooldown = sadd (end_at_ms (si_plan it)) (sc_min_reaction_spacing_ms (sch_config s));
          asset = pp_asset_id (si_plan it);
          s1 = set_item i (it\<lparr>si_status := Cancelled, si_cancel_at_ms := Some at_ms\<rparr>) s;
          s2 = (if bm_get (sch_cooldowns s1) asset = Some planned_cooldown
                then s1\<lparr>sch_cooldowns := bm_remove asset (sch_cooldowns s1)\<rparr> else s1)
      in retire i at_ms s2)"

lemma cancel_queued_items: "sch_items (cancel_queued i at_ms s) =
    swap_remove ((sch_items s)[i := (sch_items s ! i)\<lparr>si_status := Cancelled, si_cancel_at_ms := Some at_ms\<rparr>]) i"
  by (simp add: cancel_queued_def Let_def)

definition overlapping_queued :: "planned_performance \<Rightarrow> scheduled_item list \<Rightarrow> nat list" where
  "overlapping_queued plan items =
     filter (\<lambda>i. si_status (items ! i) = Queued \<and> plans_conflict (si_plan (items ! i)) plan \<and>
                intervals_overlap (pp_start_at_ms plan) (end_at_ms plan)
                  (pp_start_at_ms (si_plan (items ! i))) (effective_end_ms (items ! i)))
       [0..<length items]"

text \<open>Where a reservation that is not superseded pushes the incoming start.\<close>

definition pushed_start :: "priority \<Rightarrow> u64 \<Rightarrow> u64 \<Rightarrow> u64 \<Rightarrow> u64" where
  "pushed_start prio spacing start queued_end =
     (let st = max start queued_end in if prio \<noteq> P_Operator then sadd st spacing else st)"

text \<open>
  The \<open>for\<close> loop over the overlapping reservations, in descending index order. A read of
  \<open>items[index]\<close> out of range is the panic \<open>None\<close>.
\<close>

fun resolve_round ::
  "u64 \<Rightarrow> nat list \<Rightarrow> planned_performance \<Rightarrow> scheduler \<Rightarrow> (planned_performance \<times> scheduler) option" where
  "resolve_round request [] plan s = Some (plan, s)"
| "resolve_round request (i # is) plan s =
     (if i < length (sch_items s) then
        let it = sch_items s ! i in
        if priority_rank (pp_priority plan) < priority_rank (pp_priority (si_plan it)) then
          resolve_round request is plan (cancel_queued i request s)
        else
          resolve_round request is
            (plan\<lparr>pp_start_at_ms := pushed_start (pp_priority plan) (sc_min_reaction_spacing_ms (sch_config s))
                                     (pp_start_at_ms plan) (effective_end_ms it)\<rparr>) s
      else None)"

lemma end_at_le_max [simp]: "end_at_ms p \<le> u64_max"
  by (simp add: end_at_ms_def)

lemma effective_end_le_end: "effective_end_ms it \<le> end_at_ms (si_plan it)"
  by (simp add: effective_end_ms_def)

lemma effective_end_le_max [simp]: "effective_end_ms it \<le> u64_max"
  using effective_end_le_end end_at_le_max by (rule le_trans)

lemma pushed_start_bounds:
  "start \<le> u64_max \<Longrightarrow> e \<le> u64_max \<Longrightarrow>
     start \<le> pushed_start prio sp start e \<and> e \<le> pushed_start prio sp start e \<and>
     pushed_start prio sp start e \<le> u64_max"
  using sadd_ge_left [of "max start e" sp] by (auto simp: pushed_start_def Let_def)

text \<open>One round never grows the live collection and never moves the start back.\<close>

lemma resolve_round_progress:
  assumes "resolve_round request is plan s = Some (plan', s')" "pp_start_at_ms plan \<le> u64_max"
  shows "length (sch_items s') \<le> length (sch_items s) \<and> pp_start_at_ms plan \<le> pp_start_at_ms plan' \<and>
         pp_start_at_ms plan' \<le> u64_max"
  using assms
proof (induction request "is" plan s rule: resolve_round.induct)
  case (2 request i "is" plan s)
  let ?it = "sch_items s ! i"
  from "2.prems"(1) have i: "i < length (sch_items s)" by (simp split: if_splits)
  note st = pushed_start_bounds [OF "2.prems"(2) effective_end_le_max [of ?it],
      of "pp_priority plan" "sc_min_reaction_spacing_ms (sch_config s)"]
  show ?case
  proof (cases "priority_rank (pp_priority plan) < priority_rank (pp_priority (si_plan ?it))")
    case True
    with "2.IH"(1) [OF i refl True] "2.prems" i show ?thesis
      by (auto simp: cancel_queued_items)
  next
    case False
    with "2.IH"(2) [OF i refl False] "2.prems" i st show ?thesis
      by (auto simp: Let_def intro: le_trans)
  qed
qed simp

text \<open>A round over a non-empty list of overlapping reservations makes progress.\<close>

lemma resolve_round_decreases:
  assumes "overlapping_queued plan (sch_items s) = i # is"
    and r: "resolve_round request (rev (i # is)) plan s = Some (plan', s')"
  shows "length (sch_items s') + (u64_max - pp_start_at_ms plan')
       < length (sch_items s) + (u64_max - pp_start_at_ms plan)"
proof -
  obtain j js where js: "rev (i # is) = j # js" by (cases "rev (i # is)") auto
  then have "j \<in> set (overlapping_queued plan (sch_items s))"
    using assms(1) by (metis list.set_intros(1) set_rev)
  then have j: "j < length (sch_items s)"
    and lt: "pp_start_at_ms plan < effective_end_ms (sch_items s ! j)"
    by (auto simp: overlapping_queued_def intervals_overlap_def)
  have eff: "effective_end_ms (sch_items s ! j) \<le> u64_max" by simp
  let ?it = "sch_items s ! j"
  let ?st = "pushed_start (pp_priority plan) (sc_min_reaction_spacing_ms (sch_config s))
               (pp_start_at_ms plan) (effective_end_ms ?it)"
  show ?thesis
  proof (cases "priority_rank (pp_priority plan) < priority_rank (pp_priority (si_plan ?it))")
    case True
    with r js j have "resolve_round request js plan (cancel_queued j request s) = Some (plan', s')"
      by simp
    from resolve_round_progress [OF this] lt eff j show ?thesis
      by (auto simp: cancel_queued_items)
  next
    case False
    with r js j have "resolve_round request js (plan\<lparr>pp_start_at_ms := ?st\<rparr>) s = Some (plan', s')"
      by (simp add: Let_def)
    moreover from lt eff have "pp_start_at_ms plan \<le> u64_max" by linarith
    then have "effective_end_ms ?it \<le> ?st" "?st \<le> u64_max"
      using pushed_start_bounds eff by blast+
    ultimately have "?st \<le> pp_start_at_ms plan'" "length (sch_items s') \<le> length (sch_items s)"
      "pp_start_at_ms plan' \<le> u64_max"
      using resolve_round_progress by force+
    with lt eff \<open>effective_end_ms ?it \<le> ?st\<close> show ?thesis by auto
  qed
qed

text \<open>
  The outer \<open>loop\<close>: recompute the overlapping reservations until there are none. Every branch of
  the round sets \<open>changed\<close>, so the \<open>if !changed { break }\<close> of the source never fires.
\<close>

function resolve_reservations ::
  "u64 \<Rightarrow> planned_performance \<Rightarrow> scheduler \<Rightarrow> (planned_performance \<times> scheduler) option" where
  "resolve_reservations request plan s =
     (case overlapping_queued plan (sch_items s) of
        [] \<Rightarrow> Some (plan, s)
      | i # is \<Rightarrow>
          (case resolve_round request (rev (i # is)) plan s of
             None \<Rightarrow> None
           | Some (plan', s') \<Rightarrow> resolve_reservations request plan' s'))"
  by pat_completeness auto
termination
  by (relation "measure (\<lambda>(r, plan, s). length (sch_items s) + (u64_max - pp_start_at_ms plan))")
    (auto dest!: resolve_round_decreases)

declare resolve_reservations.simps [simp del]

section \<open>Scheduling\<close>

definition reject :: "rejection \<Rightarrow> scheduler \<Rightarrow> (rejection + planned_performance) \<times> scheduler" where
  "reject r s = (Inl r, s\<lparr>sch_last_rejection := Some r\<rparr>)"

text \<open>The tail of \<open>schedule_at\<close>: generation, status, cooldown, indexes, push.\<close>

definition commit_plan ::
  "planned_performance \<Rightarrow> scheduler \<Rightarrow> (rejection + planned_performance) \<times> scheduler" where
  "commit_plan plan0 s =
     (let g = sadd (sch_generation s) 1;
          plan = plan0\<lparr>pp_generation := g\<rparr>;
          status = (if pp_start_at_ms plan \<le> sch_now_ms s then Playing else Queued);
          until = sadd (end_at_ms plan) (sc_min_reaction_spacing_ms (sch_config s));
          cds = bm_insert (pp_asset_id plan) until (sch_cooldowns s);
          index = length (sch_items s)
      in (Inr plan,
          s\<lparr>sch_generation := g,
            sch_cooldowns := cds,
            sch_cooldowns_high_water := max (sch_cooldowns_high_water s) (length cds),
            sch_live_by_generation := bm_insert g index (sch_live_by_generation s),
            sch_live_by_event := bm_insert (pp_event_id plan) index (sch_live_by_event s),
            sch_items := sch_items s @ [\<lparr>si_plan = plan, si_status = status, si_cancel_at_ms = None\<rparr>]\<rparr>))"

definition schedule_at ::
  "u64 \<Rightarrow> planned_performance \<Rightarrow> scheduler \<Rightarrow> ((rejection + planned_performance) \<times> scheduler) option" where
  "schedule_at request plan0 s0 =
     (let s = advance_to request (s0\<lparr>sch_last_rejection := None\<rparr>) in
      if \<exists>it\<in>set (sch_items s). pp_event_id (si_plan it) = pp_event_id plan0
      then Some (reject Rej_DuplicateEvent s)
      else
        let plan1 = normalize_interrupt_points
              (plan0\<lparr>pp_start_at_ms := max (max (pp_start_at_ms plan0) request) (sch_now_ms s)\<rparr>);
            cooldown_until = (case bm_get (sch_cooldowns s) (pp_asset_id plan1) of None \<Rightarrow> 0 | Some u \<Rightarrow> u)
        in
        if pp_start_at_ms plan1 < cooldown_until then Some (reject Rej_Cooldown s)
        else
          case arbitrate_playing request (priority_rank (pp_priority plan1)) (sch_items s)
                 (active_indices plan1 (sch_items s)) (pp_start_at_ms plan1) None [] of
            None \<Rightarrow> Some (reject Rej_Priority s)
          | Some (cand, handoff, pending) \<Rightarrow>
              let s1 = s\<lparr>sch_items := apply_cancellations pending (sch_items s)\<rparr>;
                  start = spaced_start (pp_priority plan1) (sc_min_reaction_spacing_ms (sch_config s1))
                            cand handoff (sch_last_terminal_at s1)
              in (case resolve_reservations request (plan1\<lparr>pp_start_at_ms := start\<rparr>) s1 of
                    None \<Rightarrow> None
                  | Some (plan2, s2) \<Rightarrow> Some (commit_plan plan2 s2)))"

definition schedule :: "planned_performance \<Rightarrow> scheduler \<Rightarrow> ((rejection + planned_performance) \<times> scheduler) option" where
  "schedule plan s = schedule_at (pp_start_at_ms plan) plan s"

section \<open>Stop paths\<close>

function stop_loop ::
  "u64 \<Rightarrow> nat \<Rightarrow> planned_performance list \<Rightarrow> scheduler \<Rightarrow> planned_performance list \<times> scheduler" where
  "stop_loop at_ms i stopped s =
     (if i < length (sch_items s) then
        let it = sch_items s ! i in
        case si_status it of
          Playing \<Rightarrow>
            stop_loop at_ms i (stopped @ [si_plan it])
              (retire i at_ms (note_terminal at_ms
                (set_item i (it\<lparr>si_status := Cancelled, si_cancel_at_ms := Some at_ms\<rparr>) s)))
        | Queued \<Rightarrow> stop_loop at_ms i (stopped @ [si_plan it]) (cancel_queued i at_ms s)
        | Completed \<Rightarrow> stop_loop at_ms (Suc i) stopped s
        | Cancelled \<Rightarrow> stop_loop at_ms (Suc i) stopped s
      else (stopped, s))"
  by pat_completeness auto
termination
  by (relation "measure (\<lambda>(t, i, st, s). length (sch_items s) - i)") (auto simp: cancel_queued_items)

declare stop_loop.simps [simp del]

definition stop_all :: "u64 \<Rightarrow> scheduler \<Rightarrow> planned_performance list \<times> scheduler" where
  "stop_all at_ms s = stop_loop at_ms 0 [] (advance_to at_ms s)"

text \<open>\<open>iter().position(..)\<close>\<close>

fun position_from :: "('a \<Rightarrow> bool) \<Rightarrow> nat \<Rightarrow> 'a list \<Rightarrow> nat option" where
  "position_from P i [] = None"
| "position_from P i (x # xs) = (if P x then Some i else position_from P (Suc i) xs)"

definition stop_current :: "u64 \<Rightarrow> scheduler \<Rightarrow> planned_performance option \<times> scheduler" where
  "stop_current at_ms s0 =
     (let s = advance_to at_ms s0 in
      case position_from (\<lambda>it. si_status it = Playing) 0 (sch_items s) of
        None \<Rightarrow> (None, s)
      | Some i \<Rightarrow>
          let it = sch_items s ! i in
          (Some (si_plan it),
           retire i at_ms (note_terminal at_ms
             (set_item i (it\<lparr>si_status := Cancelled, si_cancel_at_ms := Some at_ms\<rparr>) s))))"

definition complete_all :: "scheduler \<Rightarrow> scheduler" where
  "complete_all s =
     (let ends = map effective_end_ms (filter occupies_timeline (sch_items s))
      in advance_to (if ends = [] then sch_now_ms s else Max (set ends)) s)"

end
