(* ===== verification/Scheduler_Inv.thy ===== *)
theory Scheduler_Inv
  imports Scheduler_Model
begin

text \<open>
  The scheduler's invariant and its preservation by every operation. The lemmas go from the
  bookkeeping (the two liveness indexes under \<open>swap_remove\<close>) through the item-wise meaning of
  \<open>advance_to\<close> to the arbitration of \<open>schedule_at\<close>; the last section makes them one transition
  system.
\<close>

section \<open>Liveness indexes\<close>

abbreviation item_event :: "scheduled_item \<Rightarrow> string" where
  "item_event it \<equiv> pp_event_id (si_plan it)"

abbreviation item_gen :: "scheduled_item \<Rightarrow> u64" where
  "item_gen it \<equiv> pp_generation (si_plan it)"

text \<open>\<open>m\<close> maps exactly the keys of the live items to their positions.\<close>

definition ix_ok :: "('a \<Rightarrow> 'k::linorder) \<Rightarrow> 'a list \<Rightarrow> ('k, nat) bmap \<Rightarrow> bool" where
  "ix_ok key xs m \<longleftrightarrow> (\<forall>k i. bm_get m k = Some i \<longleftrightarrow> i < length xs \<and> key (xs ! i) = k)"

lemma ix_okD: "ix_ok key xs m \<Longrightarrow> i < length xs \<Longrightarrow> bm_get m (key (xs ! i)) = Some i"
  by (simp add: ix_ok_def)

lemma ix_ok_inj: "ix_ok key xs m \<Longrightarrow> i < length xs \<Longrightarrow> j < length xs \<Longrightarrow> key (xs ! i) = key (xs ! j) \<Longrightarrow> i = j"
  by (metis ix_okD option.inject)

lemma ix_ok_distinct: "ix_ok key xs m \<Longrightarrow> distinct (map key xs)"
  by (auto simp: distinct_conv_nth dest: ix_ok_inj)

lemma ix_ok_Nil [simp]: "ix_ok key [] []"
  by (simp add: ix_ok_def)

lemma ix_okI:
  assumes "distinct (map key xs)"
    and "\<And>i. i < length xs \<Longrightarrow> bm_get m (key (xs ! i)) = Some i"
    and "\<And>k. k \<notin> key ` set xs \<Longrightarrow> bm_get m k = None"
  shows "ix_ok key xs m"
  unfolding ix_ok_def
proof (intro allI iffI)
  fix k i assume get: "bm_get m k = Some i"
  with assms(3) [of k] obtain j where "j < length xs" "key (xs ! j) = k"
    by (fastforce simp: in_set_conv_nth)
  with assms(2) [of j] get show "i < length xs \<and> key (xs ! i) = k" by simp
qed (use assms(2) in auto)

lemma ix_ok_get_None: "ix_ok key xs m \<Longrightarrow> k \<notin> key ` set xs \<Longrightarrow> bm_get m k = None"
  by (cases "bm_get m k") (auto simp: ix_ok_def)

lemma ix_ok_update:
  assumes "ix_ok key xs m" "key y = key (xs ! i)"
  shows "ix_ok key (xs[i := y]) m"
proof -
  have "key (xs[i := y] ! j) = key (xs ! j)" if "j < length xs" for j
    using that assms(2) by (cases "j = i") auto
  with assms(1) show ?thesis by (auto simp: ix_ok_def)
qed

lemma ix_ok_push:
  assumes "ix_ok key xs m" "key x \<notin> key ` set xs"
  shows "ix_ok key (xs @ [x]) (bm_insert (key x) (length xs) m)"
proof (rule ix_okI)
  show "distinct (map key (xs @ [x]))"
    using ix_ok_distinct [OF assms(1)] assms(2) by auto
  show "bm_get (bm_insert (key x) (length xs) m) (key ((xs @ [x]) ! i)) = Some i"
    if "i < length (xs @ [x])" for i
  proof (cases "i < length xs")
    case True
    with assms(2) have "key (xs ! i) \<noteq> key x" by (metis image_eqI nth_mem)
    with True show ?thesis using ix_okD [OF assms(1)] by (simp add: nth_append)
  qed (use that in \<open>simp add: nth_append less_Suc_eq\<close>)
  show "bm_get (bm_insert (key x) (length xs) m) k = None" if "k \<notin> key ` set (xs @ [x])" for k
    using that ix_ok_get_None [OF assms(1)] by auto
qed

definition ix_retire :: "('a \<Rightarrow> 'k::linorder) \<Rightarrow> 'a list \<Rightarrow> nat \<Rightarrow> ('k, nat) bmap \<Rightarrow> ('k, nat) bmap" where
  "ix_retire key xs i m =
     (case vec_get (swap_remove xs i) i of
        None \<Rightarrow> bm_remove (key (xs ! i)) m
      | Some moved \<Rightarrow> bm_insert (key moved) i (bm_remove (key (xs ! i)) m))"

lemma ix_ok_retire:
  assumes ok: "ix_ok key xs m" and i: "i < length xs"
  shows "ix_ok key (swap_remove xs i) (ix_retire key xs i m)"
proof (rule ix_okI)
  let ?n = "length xs - 1"
  have ms: "mset (map key xs) = add_mset (key (xs ! i)) (mset (map key (swap_remove xs i)))"
    using mset_swap_remove [OF i] by (metis image_mset_add_mset mset_map)
  then have "mset (map key xs) = mset (key (xs ! i) # map key (swap_remove xs i))" by simp
  then have "distinct (key (xs ! i) # map key (swap_remove xs i))"
    using ix_ok_distinct [OF ok] mset_eq_imp_distinct_iff by blast
  then have dist: "distinct (map key (swap_remove xs i))" and gone: "key (xs ! i) \<notin> key ` set (swap_remove xs i)"
    by auto
  show "distinct (map key (swap_remove xs i))" by fact
  show "bm_get (ix_retire key xs i m) (key (swap_remove xs i ! j)) = Some j"
    if j: "j < length (swap_remove xs i)" for j
  proof -
    have ne: "key (swap_remove xs i ! j) \<noteq> key (xs ! i)" using gone j by (metis image_eqI nth_mem)
    show ?thesis
    proof (cases "j = i")
      case True
      with j show ?thesis by (simp add: ix_retire_def vec_get_def)
    next
      case False
      then have "swap_remove xs i ! j = xs ! j" using j i by (simp add: nth_swap_remove)
      moreover have "key (swap_remove xs i ! j) \<noteq> key (swap_remove xs i ! i)" if "i < length (swap_remove xs i)"
        using dist j that False by (metis length_map nth_eq_iff_index_eq nth_map)
      ultimately show ?thesis
        using ne j ix_okD [OF ok, of j] by (auto simp: ix_retire_def vec_get_def)
    qed
  qed
  show "bm_get (ix_retire key xs i m) k = None" if k: "k \<notin> key ` set (swap_remove xs i)" for k
  proof (cases "k = key (xs ! i)")
    case True
    with gone show ?thesis by (auto simp: ix_retire_def vec_get_def)
  next
    case False
    with k ms have "k \<notin> key ` set xs"
      by (metis list.set_map set_mset_add_mset_insert set_mset_mset insert_iff)
    with ok k show ?thesis by (auto simp: ix_retire_def vec_get_def ix_ok_get_None)
  qed
qed

section \<open>What the primitive steps keep\<close>

lemma trim_history_fields [simp]:
  "sch_live_by_generation (trim_history s) = sch_live_by_generation s"
  "sch_live_by_event (trim_history s) = sch_live_by_event s"
  "sch_cooldowns (trim_history s) = sch_cooldowns s"
  "sch_generation (trim_history s) = sch_generation s"
  "sch_config (trim_history s) = sch_config s"
  "sch_now_ms (trim_history s) = sch_now_ms s"
  "sch_last_terminal_at (trim_history s) = sch_last_terminal_at s"
  "sch_last_rejection (trim_history s) = sch_last_rejection s"
  by (simp_all add: trim_history_def split: prod.splits)

lemma retire_fields [simp]:
  "sch_cooldowns (retire i t s) = sch_cooldowns s"
  "sch_generation (retire i t s) = sch_generation s"
  "sch_config (retire i t s) = sch_config s"
  "sch_now_ms (retire i t s) = sch_now_ms s"
  "sch_last_terminal_at (retire i t s) = sch_last_terminal_at s"
  "sch_last_rejection (retire i t s) = sch_last_rejection s"
  by (simp_all add: retire_def Let_def split: option.splits)

lemma set_item_fields [simp]:
  "sch_live_by_generation (set_item i it s) = sch_live_by_generation s"
  "sch_live_by_event (set_item i it s) = sch_live_by_event s"
  "sch_cooldowns (set_item i it s) = sch_cooldowns s"
  "sch_generation (set_item i it s) = sch_generation s"
  "sch_config (set_item i it s) = sch_config s"
  "sch_now_ms (set_item i it s) = sch_now_ms s"
  "sch_history (set_item i it s) = sch_history s"
  "sch_terminal_evicted (set_item i it s) = sch_terminal_evicted s"
  "sch_last_rejection (set_item i it s) = sch_last_rejection s"
  by (simp_all add: set_item_def)

lemma note_terminal_fields [simp]:
  "sch_live_by_generation (note_terminal t s) = sch_live_by_generation s"
  "sch_live_by_event (note_terminal t s) = sch_live_by_event s"
  "sch_cooldowns (note_terminal t s) = sch_cooldowns s"
  "sch_generation (note_terminal t s) = sch_generation s"
  "sch_config (note_terminal t s) = sch_config s"
  "sch_now_ms (note_terminal t s) = sch_now_ms s"
  "sch_history (note_terminal t s) = sch_history s"
  "sch_terminal_evicted (note_terminal t s) = sch_terminal_evicted s"
  "sch_last_rejection (note_terminal t s) = sch_last_rejection s"
  by (simp_all add: note_terminal_def)

lemma retire_indexes:
  "sch_live_by_event (retire i t s) = ix_retire item_event (sch_items s) i (sch_live_by_event s)"
  "sch_live_by_generation (retire i t s) = ix_retire item_gen (sch_items s) i (sch_live_by_generation s)"
  by (simp_all add: retire_def ix_retire_def Let_def split: option.splits)

text \<open>The terminal history as a bounded log; \<open>RetainAll\<close> is the log without a capacity.\<close>

definition config_cap :: "scheduler_config \<Rightarrow> nat option" where
  "config_cap cfg =
     (case sc_history_policy cfg of RetainAll \<Rightarrow> None | Ring \<Rightarrow> Some (sc_history_capacity cfg))"

abbreviation history_cap :: "scheduler \<Rightarrow> nat option" where
  "history_cap s \<equiv> config_cap (sch_config s)"

definition push_history :: "history_entry \<Rightarrow> scheduler \<Rightarrow> scheduler" where
  "push_history e s = trim_history (s\<lparr>sch_history := sch_history s @ [e]\<rparr>)"

lemma sch_history_trim: "sch_history (trim_history s) = keep_cap (history_cap s) (sch_history s)"
proof (cases "sc_history_policy (sch_config s)")
  case Ring
  then show ?thesis
    using fst_trim_ring [of "sc_history_capacity (sch_config s)" "sch_history s" "sch_terminal_evicted s"]
    by (auto simp: trim_history_def config_cap_def keep_last_def split: prod.splits)
qed (simp add: trim_history_def config_cap_def)

interpretation history_log: bounded_log push_history sch_history history_cap
  by unfold_locales (simp_all add: push_history_def sch_history_trim)

definition history_entry_of :: "nat \<Rightarrow> u64 \<Rightarrow> scheduler \<Rightarrow> history_entry" where
  "history_entry_of i t s =
     \<lparr>he_terminal_at_ms = t, he_scheduled_at_ms = pp_start_at_ms (si_plan (sch_items s ! i)),
      he_item = sch_items s ! i\<rparr>"

lemma retire_history:
  "sch_history (retire i t s) = sch_history (push_history (history_entry_of i t s) s)"
  by (simp add: retire_def push_history_def history_entry_of_def sch_history_trim
      Let_def split: option.splits)

section \<open>The invariant\<close>

text \<open>
  A cancellation boundary lies at a declared interrupt point of an interruptible plan, before its
  natural end.
\<close>

definition cancel_ok :: "scheduled_item \<Rightarrow> bool" where
  "cancel_ok it \<longleftrightarrow>
     (case si_cancel_at_ms it of
        None \<Rightarrow> True
      | Some c \<Rightarrow> pp_interruptible (si_plan it) \<and> c < end_at_ms (si_plan it) \<and>
          (\<exists>off\<in>set (pp_interrupt_points_ms (si_plan it)). c = sadd (pp_start_at_ms (si_plan it)) off))"

lemma cancel_ok_cong:
  "si_plan x = si_plan y \<Longrightarrow> si_cancel_at_ms x = si_cancel_at_ms y \<Longrightarrow> cancel_ok x = cancel_ok y"
  by (simp add: cancel_ok_def split: option.split)

lemma cancel_ok_status [simp]: "cancel_ok (it\<lparr>si_status := x\<rparr>) = cancel_ok it"
  by (simp add: cancel_ok_def split: option.split)

lemma effective_end_status [simp]: "effective_end_ms (it\<lparr>si_status := x\<rparr>) = effective_end_ms it"
  by (simp add: effective_end_ms_def split: option.split)

text \<open>A live item: queued strictly in the future and uncancelled, or playing since its start.\<close>

definition item_ok :: "u64 \<Rightarrow> scheduled_item \<Rightarrow> bool" where
  "item_ok now it \<longleftrightarrow>
     pp_start_at_ms (si_plan it) \<le> u64_max \<and> cancel_ok it \<and>
     (si_status it = Queued \<and> si_cancel_at_ms it = None \<and> now < pp_start_at_ms (si_plan it)
      \<or> si_status it = Playing \<and> pp_start_at_ms (si_plan it) \<le> now)"

definition items_disjoint :: "scheduled_item \<Rightarrow> scheduled_item \<Rightarrow> bool" where
  "items_disjoint a b \<longleftrightarrow>
     \<not> intervals_overlap (pp_start_at_ms (si_plan a)) (effective_end_ms a)
         (pp_start_at_ms (si_plan b)) (effective_end_ms b)"

text \<open>Two live items that conflict over a channel or exclusivity never overlap in time.\<close>

definition no_double_booking :: "scheduled_item set \<Rightarrow> bool" where
  "no_double_booking A \<longleftrightarrow>
     (\<forall>a\<in>A. \<forall>b\<in>A. item_event a \<noteq> item_event b \<longrightarrow> plans_conflict (si_plan a) (si_plan b) \<longrightarrow>
        items_disjoint a b)"

text \<open>
  A terminal record: completed at its natural end, or cancelled at the recorded instant.
\<close>

definition entry_ok :: "history_entry \<Rightarrow> bool" where
  "entry_ok h \<longleftrightarrow>
     he_scheduled_at_ms h = pp_start_at_ms (si_plan (he_item h)) \<and>
     (si_status (he_item h) = Completed \<and> he_terminal_at_ms h = end_at_ms (si_plan (he_item h))
      \<or> si_status (he_item h) = Cancelled \<and> si_cancel_at_ms (he_item h) = Some (he_terminal_at_ms h))"

text \<open>
  Until the generation counter saturates, generations are unique and the generation index is exact.
\<close>

definition generations_ok :: "scheduler \<Rightarrow> bool" where
  "generations_ok s \<longleftrightarrow>
     (sch_generation s < u64_max \<longrightarrow>
        ix_ok item_gen (sch_items s) (sch_live_by_generation s) \<and>
        (\<forall>it\<in>set (sch_items s). item_gen it \<le> sch_generation s))"

definition books_ok :: "scheduler \<Rightarrow> bool" where
  "books_ok s \<longleftrightarrow>
     ix_ok item_event (sch_items s) (sch_live_by_event s) \<and> generations_ok s \<and>
     (\<forall>h\<in>set (sch_history s). entry_ok h) \<and> within_cap (history_cap s) (sch_history s) \<and>
     bm_ok (sch_cooldowns s)"

definition sched_inv :: "scheduler \<Rightarrow> bool" where
  "sched_inv s \<longleftrightarrow>
     books_ok s \<and> sch_now_ms s \<le> u64_max \<and>
     (\<forall>it\<in>set (sch_items s). item_ok (sch_now_ms s) it) \<and>
     no_double_booking (set (sch_items s))"

section \<open>Bookkeeping\<close>

lemma generations_ok_retire: "i < length (sch_items s) \<Longrightarrow> generations_ok s \<Longrightarrow> generations_ok (retire i t s)"
  using set_swap_remove [of i "sch_items s"]
  by (auto simp: generations_ok_def retire_indexes intro: ix_ok_retire)

lemma generations_ok_set_item:
  "i < length (sch_items s) \<Longrightarrow> si_plan it = si_plan (sch_items s ! i) \<Longrightarrow> generations_ok s \<Longrightarrow>
     generations_ok (set_item i it s)"
  using set_update_subset [of i "sch_items s" it]
  by (auto simp: generations_ok_def intro: ix_ok_update)

lemma books_ok_retire:
  assumes "books_ok s" "i < length (sch_items s)" "entry_ok (history_entry_of i t s)"
  shows "books_ok (retire i t s)"
proof -
  have "set (sch_history (retire i t s)) \<subseteq> insert (history_entry_of i t s) (set (sch_history s))"
    by (simp add: retire_history history_log.set_push)
  moreover have "within_cap (history_cap s) (sch_history (retire i t s))"
    by (simp add: retire_history history_log.bounded_push)
  ultimately show ?thesis
    using assms generations_ok_retire
    by (auto simp: books_ok_def retire_indexes intro: ix_ok_retire)
qed

lemma books_ok_set_item:
  "books_ok s \<Longrightarrow> i < length (sch_items s) \<Longrightarrow> si_plan it = si_plan (sch_items s ! i) \<Longrightarrow>
     books_ok (set_item i it s)"
  by (auto simp: books_ok_def intro: ix_ok_update generations_ok_set_item)

lemma books_ok_note_terminal [simp]: "books_ok (note_terminal t s) = books_ok s"
  by (simp add: books_ok_def generations_ok_def)

lemma books_ok_cong:
  "sch_items s' = sch_items s \<Longrightarrow> sch_live_by_event s' = sch_live_by_event s \<Longrightarrow>
   sch_live_by_generation s' = sch_live_by_generation s \<Longrightarrow> sch_generation s' = sch_generation s \<Longrightarrow>
   sch_history s' = sch_history s \<Longrightarrow> sch_config s' = sch_config s \<Longrightarrow>
   bm_ok (sch_cooldowns s') = bm_ok (sch_cooldowns s) \<Longrightarrow> books_ok s' = books_ok s"
  by (simp add: books_ok_def generations_ok_def)

text \<open>Retiring an item that has just been given its terminal status.\<close>

lemma books_ok_cancel_retire:
  assumes "books_ok s" "i < length (sch_items s)"
  shows "books_ok (retire i t (note_terminal u
           (set_item i ((sch_items s ! i)\<lparr>si_status := Cancelled, si_cancel_at_ms := Some t\<rparr>) s)))"
  using assms by (intro books_ok_retire) (auto simp: books_ok_set_item history_entry_of_def entry_ok_def)

lemma books_ok_cancel_queued:
  assumes "books_ok s" "i < length (sch_items s)"
  shows "books_ok (cancel_queued i t s)"
proof -
  let ?it = "(sch_items s ! i)\<lparr>si_status := Cancelled, si_cancel_at_ms := Some t\<rparr>"
  let ?s1 = "set_item i ?it s"
  have s1: "books_ok ?s1" using assms by (intro books_ok_set_item) auto
  have "bm_ok (sch_cooldowns ?s1)" using s1 by (simp add: books_ok_def)
  then have "books_ok (if c then ?s1\<lparr>sch_cooldowns := bm_remove a (sch_cooldowns ?s1)\<rparr> else ?s1)" for c a
    using s1 books_ok_cong [of "?s1\<lparr>sch_cooldowns := bm_remove a (sch_cooldowns ?s1)\<rparr>" ?s1]
    by (auto intro: bm_ok_remove)
  then show ?thesis
    using assms unfolding cancel_queued_def Let_def
    by (intro books_ok_retire) (auto simp: history_entry_of_def entry_ok_def)
qed

lemma books_ok_finish_item:
  assumes "books_ok s" "i < length (sch_items s)" "cancel_ok (sch_items s ! i)"
  shows "books_ok (finish_item i s)"
  using assms unfolding finish_item_def Let_def
  by (intro books_ok_retire)
    (auto simp: books_ok_set_item history_entry_of_def entry_ok_def effective_end_ms_def cancel_ok_def
      split: option.splits)

section \<open>Logical time, item by item\<close>

text \<open>What \<open>advance_to target\<close> does to one live item: \<open>None\<close> when it is retired.\<close>

definition advance_item :: "u64 \<Rightarrow> scheduled_item \<Rightarrow> scheduled_item option" where
  "advance_item target it =
     (case si_status it of
        Playing \<Rightarrow> if effective_end_ms it \<le> target then None else Some it
      | Queued \<Rightarrow>
          if (case si_cancel_at_ms it of None \<Rightarrow> False
              | Some c \<Rightarrow> c < pp_start_at_ms (si_plan it) \<and> c \<le> target) then None
          else if pp_start_at_ms (si_plan it) \<le> target then
            (if effective_end_ms it \<le> target then None else Some (it\<lparr>si_status := Playing\<rparr>))
          else Some it
      | _ \<Rightarrow> Some it)"

lemma finish_item_items [simp]:
  "i < length (sch_items s) \<Longrightarrow> sch_items (finish_item i s) = swap_remove (sch_items s) i"
  by (simp add: finish_item_def Let_def)

lemma finish_item_fields [simp]:
  "sch_cooldowns (finish_item i s) = sch_cooldowns s"
  "sch_generation (finish_item i s) = sch_generation s"
  "sch_config (finish_item i s) = sch_config s"
  "sch_now_ms (finish_item i s) = sch_now_ms s"
  "sch_last_rejection (finish_item i s) = sch_last_rejection s"
  by (simp_all add: finish_item_def Let_def)

text \<open>
  The proof rule for the loop: a property survives it when it survives the three state changes the
  loop makes, each under the condition it is made in.
\<close>

lemma advance_loop_preserves:
  assumes finish: "\<And>s i. P s \<Longrightarrow> i < length (sch_items s) \<Longrightarrow> advance_item target (sch_items s ! i) = None \<Longrightarrow>
      P (finish_item i s)"
    and early: "\<And>s i c. P s \<Longrightarrow> i < length (sch_items s) \<Longrightarrow> si_status (sch_items s ! i) = Queued \<Longrightarrow>
      si_cancel_at_ms (sch_items s ! i) = Some c \<Longrightarrow> P (retire i target s)"
    and start: "\<And>s i. P s \<Longrightarrow> i < length (sch_items s) \<Longrightarrow>
      advance_item target (sch_items s ! i) = Some ((sch_items s ! i)\<lparr>si_status := Playing\<rparr>) \<Longrightarrow>
      P (set_item i ((sch_items s ! i)\<lparr>si_status := Playing\<rparr>) s)"
    and P: "P s"
  shows "P (advance_loop target i s)"
  using P
proof (induction "length (sch_items s) - i" arbitrary: i s rule: less_induct)
  case less
  let ?it = "sch_items s ! i"
  show ?case
  proof (cases "i < length (sch_items s)")
    case i: True
    then have le: "length (sch_items s) - Suc i < length (sch_items s) - i" by simp
    have skip: "P s' \<Longrightarrow> length (sch_items s') = length (sch_items s) \<Longrightarrow> P (advance_loop target (Suc i) s')" for s'
      using less.hyps [of s' "Suc i"] le by simp
    have again: "P s' \<Longrightarrow> length (sch_items s') = length (sch_items s) - 1 \<Longrightarrow> P (advance_loop target i s')" for s'
      using less.hyps [of s' i] i by simp
    show ?thesis
      using i less.prems finish [of s i] early [of s i] start [of s i]
      by (subst advance_loop.simps; cases "si_status ?it")
        (auto simp: Let_def advance_item_def intro: skip again split: option.splits)
  qed (use less.prems in \<open>subst advance_loop.simps; simp\<close>)
qed

lemma mset_advance_loop:
  "mset (sch_items (advance_loop target i s)) =
     mset (take i (sch_items s)) + mset (List.map_filter (advance_item target) (drop i (sch_items s)))"
proof (induction "length (sch_items s) - i" arbitrary: i s rule: less_induct)
  case less
  let ?it = "sch_items s ! i" and ?F = "\<lambda>xs. mset (List.map_filter (advance_item target) xs)"
  show ?case
  proof (cases "i < length (sch_items s)")
    case i: True
    then have le: "length (sch_items s) - Suc i < length (sch_items s) - i" by simp
    have drop: "drop i (sch_items s) = ?it # drop (Suc i) (sch_items s)"
      using i by (simp add: Cons_nth_drop_Suc)
    have skip: "mset (sch_items (advance_loop target (Suc i) (s\<lparr>sch_items := (sch_items s)[i := y]\<rparr>))) =
        add_mset y (mset (take i (sch_items s)) + ?F (drop (Suc i) (sch_items s)))" for y
      using less.hyps [of "s\<lparr>sch_items := (sch_items s)[i := y]\<rparr>" "Suc i"] le i
      by (simp add: take_Suc_conv_app_nth)
    have skip': "mset (sch_items (advance_loop target (Suc i) s)) =
        add_mset ?it (mset (take i (sch_items s)) + ?F (drop (Suc i) (sch_items s)))"
      using skip [of ?it] by simp
    have again: "mset (sch_items (advance_loop target i s')) =
        mset (take i (sch_items s)) + ?F (drop (Suc i) (sch_items s))"
      if "sch_items s' = swap_remove (sch_items s) i" for s'
      using less.hyps [of s' i] i that
        mset_map_filter_cong [OF mset_drop_swap_remove [OF i], of "advance_item target"]
      by (simp add: take_swap_remove)
    show ?thesis
      using i again [of "finish_item i s"] again [of "retire i target s"] skip' skip [of "?it\<lparr>si_status := Playing\<rparr>"]
      by (subst advance_loop.simps; cases "si_status ?it")
        (auto simp: Let_def advance_item_def drop map_filter_simps set_item_def split: option.splits)
  qed (subst advance_loop.simps; simp)
qed

section \<open>\<open>advance_to\<close> keeps the invariant\<close>

lemma advance_item_SomeD:
  assumes "advance_item target it = Some y"
  shows "si_plan y = si_plan it \<and> si_cancel_at_ms y = si_cancel_at_ms it \<and> effective_end_ms y = effective_end_ms it"
  using assms by (auto simp: advance_item_def effective_end_ms_def split: item_status.splits if_splits option.splits)

lemma advance_item_ok:
  "item_ok now it \<Longrightarrow> now \<le> target \<Longrightarrow> advance_item target it = Some y \<Longrightarrow> item_ok target y"
  by (auto simp: item_ok_def advance_item_def cancel_ok_def split: item_status.splits if_splits option.splits)

lemma expire_cooldowns_fields [simp]:
  "sch_items (expire_cooldowns t s) = sch_items s"
  "sch_live_by_generation (expire_cooldowns t s) = sch_live_by_generation s"
  "sch_live_by_event (expire_cooldowns t s) = sch_live_by_event s"
  "sch_generation (expire_cooldowns t s) = sch_generation s"
  "sch_config (expire_cooldowns t s) = sch_config s"
  "sch_now_ms (expire_cooldowns t s) = sch_now_ms s"
  "sch_history (expire_cooldowns t s) = sch_history s"
  "sch_last_rejection (expire_cooldowns t s) = sch_last_rejection s"
  "sch_last_terminal_at (expire_cooldowns t s) = sch_last_terminal_at s"
  "sch_cooldowns (expire_cooldowns t s) = bm_retain (\<lambda>_ until. t < until) (sch_cooldowns s)"
  by (simp_all add: expire_cooldowns_def Let_def)

lemma advance_loop_fields [simp]:
  "sch_cooldowns (advance_loop t i s) = sch_cooldowns s"
  "sch_generation (advance_loop t i s) = sch_generation s"
  "sch_config (advance_loop t i s) = sch_config s"
  "sch_last_rejection (advance_loop t i s) = sch_last_rejection s"
  by (rule advance_loop_preserves [of "\<lambda>s'. _ s' = _ s"]; simp)+

lemma advance_to_fields [simp]:
  "sch_now_ms (advance_to t s) = max t (sch_now_ms s)"
  "sch_generation (advance_to t s) = sch_generation s"
  "sch_config (advance_to t s) = sch_config s"
  "sch_last_rejection (advance_to t s) = sch_last_rejection s"
  "sch_cooldowns (advance_to t s) = bm_retain (\<lambda>_ until. max t (sch_now_ms s) < until) (sch_cooldowns s)"
  by (simp_all add: advance_to_def Let_def)

lemma mset_advance_to:
  "mset (sch_items (advance_to t s)) =
     mset (List.map_filter (advance_item (max t (sch_now_ms s))) (sch_items s))"
  by (simp add: advance_to_def Let_def mset_advance_loop)

lemma set_advance_to:
  "y \<in> set (sch_items (advance_to t s)) \<longleftrightarrow>
     (\<exists>it\<in>set (sch_items s). advance_item (max t (sch_now_ms s)) it = Some y)"
  by (metis mset_advance_to set_mset_mset set_map_filter_iff)

text \<open>What the loop itself needs: the books and the shape of the live items.\<close>

definition item_shape :: "scheduled_item \<Rightarrow> bool" where
  "item_shape it \<longleftrightarrow> cancel_ok it \<and> occupies_timeline it \<and> (si_status it = Queued \<longrightarrow> si_cancel_at_ms it = None)"

lemma item_ok_shape: "item_ok now it \<Longrightarrow> item_shape it"
  by (auto simp: item_ok_def item_shape_def occupies_timeline_def)

lemma advance_loop_books:
  assumes "books_ok s" "\<forall>it\<in>set (sch_items s). item_shape it"
  shows "books_ok (advance_loop t i s)"
proof -
  let ?P = "\<lambda>s. books_ok s \<and> (\<forall>it\<in>set (sch_items s). item_shape it)"
  have "?P (advance_loop t i s)"
  proof (rule advance_loop_preserves [where P = ?P])
    fix s i assume P: "?P s" and i: "i < length (sch_items s)"
    have sub: "set (swap_remove (sch_items s) i) \<subseteq> set (sch_items s)" by (rule set_swap_remove [OF i])
    show "?P (finish_item i s)"
      using P i sub by (auto simp: item_shape_def intro!: books_ok_finish_item)
  next
    fix s i c assume P: "?P s" and i: "i < length (sch_items s)"
      and "si_status (sch_items s ! i) = Queued" "si_cancel_at_ms (sch_items s ! i) = Some c"
    moreover have "item_shape (sch_items s ! i)" using P i by simp
    ultimately show "?P (retire i t s)" by (simp add: item_shape_def)
  next
    fix s i assume P: "?P s" and i: "i < length (sch_items s)"
      and "advance_item t (sch_items s ! i) = Some ((sch_items s ! i)\<lparr>si_status := Playing\<rparr>)"
    moreover have "item_shape (sch_items s ! i)" using P i by simp
    then have "item_shape ((sch_items s ! i)\<lparr>si_status := Playing\<rparr>)"
      by (auto simp: item_shape_def occupies_timeline_def advance_item_def split: if_splits)
    ultimately show "?P (set_item i ((sch_items s ! i)\<lparr>si_status := Playing\<rparr>) s)"
      using set_update_subset [OF i] by (fastforce intro: books_ok_set_item)
  qed (use assms in simp)
  then show ?thesis ..
qed

lemma books_ok_expire: "books_ok s \<Longrightarrow> books_ok (expire_cooldowns t s)"
  by (auto simp: books_ok_def generations_ok_def intro: bm_ok_retain)

lemma books_ok_advance_to:
  assumes "books_ok s" "\<forall>it\<in>set (sch_items s). item_shape it"
  shows "books_ok (advance_to t s)"
proof -
  have "books_ok (advance_loop (max t (sch_now_ms s)) 0 (expire_cooldowns (max t (sch_now_ms s)) s))"
    using assms by (intro advance_loop_books) (simp_all add: books_ok_expire)
  then show ?thesis by (simp add: advance_to_def Let_def books_ok_def generations_ok_def)
qed

lemma no_double_booking_advance:
  assumes "no_double_booking A" "\<And>y. y \<in> B \<Longrightarrow> \<exists>it\<in>A. si_plan y = si_plan it \<and> effective_end_ms y \<le> effective_end_ms it"
  shows "no_double_booking B"
  unfolding no_double_booking_def
proof (intro ballI impI)
  fix a b assume ab: "a \<in> B" "b \<in> B" "item_event a \<noteq> item_event b" "plans_conflict (si_plan a) (si_plan b)"
  from assms(2) [OF ab(1)] assms(2) [OF ab(2)] obtain a' b' where
    "a' \<in> A" "si_plan a = si_plan a'" "effective_end_ms a \<le> effective_end_ms a'"
    "b' \<in> A" "si_plan b = si_plan b'" "effective_end_ms b \<le> effective_end_ms b'" by auto
  with assms(1) ab(3,4) show "items_disjoint a b"
    by (fastforce simp: no_double_booking_def items_disjoint_def intervals_overlap_def)
qed

lemma sched_inv_advance_to [inv_intros]:
  assumes inv: "sched_inv s" and t: "t \<le> u64_max"
  shows "sched_inv (advance_to t s)"
proof -
  have shapes: "\<forall>it\<in>set (sch_items s). item_shape it" and books: "books_ok s"
    using inv item_ok_shape by (auto simp: sched_inv_def)
  have items: "item_ok (max t (sch_now_ms s)) y" if y: "y \<in> set (sch_items (advance_to t s))" for y
  proof -
    from y obtain it where it: "it \<in> set (sch_items s)" "advance_item (max t (sch_now_ms s)) it = Some y"
      by (auto simp only: set_advance_to)
    with inv have "item_ok (sch_now_ms s) it" by (simp add: sched_inv_def)
    then show ?thesis using advance_item_ok [OF _ max.cobounded2 it(2)] by simp
  qed
  have "no_double_booking (set (sch_items (advance_to t s)))"
  proof (rule no_double_booking_advance)
    show "no_double_booking (set (sch_items s))" using inv by (simp add: sched_inv_def)
    fix y assume "y \<in> set (sch_items (advance_to t s))"
    then obtain it where "it \<in> set (sch_items s)" "advance_item (max t (sch_now_ms s)) it = Some y"
      by (auto simp only: set_advance_to)
    then show "\<exists>it\<in>set (sch_items s). si_plan y = si_plan it \<and> effective_end_ms y \<le> effective_end_ms it"
      using advance_item_SomeD by (intro bexI [of _ it]) simp_all
  qed
  then show ?thesis
    using inv t items books_ok_advance_to [OF books shapes] by (simp add: sched_inv_def)
qed

section \<open>The stop paths keep the invariant\<close>

lemma cancel_queued_fields [simp]:
  "sch_generation (cancel_queued i t s) = sch_generation s"
  "sch_config (cancel_queued i t s) = sch_config s"
  "sch_now_ms (cancel_queued i t s) = sch_now_ms s"
  "sch_last_terminal_at (cancel_queued i t s) = sch_last_terminal_at s"
  "sch_last_rejection (cancel_queued i t s) = sch_last_rejection s"
  by (simp_all add: cancel_queued_def Let_def set_item_def)

lemma cancel_queued_swap [simp]:
  "i < length (sch_items s) \<Longrightarrow> sch_items (cancel_queued i t s) = swap_remove (sch_items s) i"
  by (simp add: cancel_queued_items)

text \<open>Removing items by any means that keeps the books keeps the invariant.\<close>

lemma sched_inv_subset:
  "sched_inv s \<Longrightarrow> books_ok s' \<Longrightarrow> sch_now_ms s' = sch_now_ms s \<Longrightarrow> set (sch_items s') \<subseteq> set (sch_items s) \<Longrightarrow>
     sched_inv s'"
  by (auto simp: sched_inv_def no_double_booking_def)

definition stop_item :: "nat \<Rightarrow> u64 \<Rightarrow> scheduler \<Rightarrow> scheduler" where
  "stop_item i t s =
     retire i t (note_terminal t
       (set_item i ((sch_items s ! i)\<lparr>si_status := Cancelled, si_cancel_at_ms := Some t\<rparr>) s))"

lemma stop_item_items [simp]:
  "i < length (sch_items s) \<Longrightarrow> sch_items (stop_item i t s) = swap_remove (sch_items s) i"
  by (simp add: stop_item_def)

lemma stop_item_fields [simp]:
  "sch_generation (stop_item i t s) = sch_generation s"
  "sch_config (stop_item i t s) = sch_config s"
  "sch_now_ms (stop_item i t s) = sch_now_ms s"
  "sch_last_rejection (stop_item i t s) = sch_last_rejection s"
  by (simp_all add: stop_item_def)

lemma sched_inv_stop_item:
  "sched_inv s \<Longrightarrow> i < length (sch_items s) \<Longrightarrow> sched_inv (stop_item i t s)"
  using set_swap_remove [of i "sch_items s"]
  by (intro sched_inv_subset [of s "stop_item i t s"])
    (auto simp: sched_inv_def stop_item_def intro: books_ok_cancel_retire)

lemma sched_inv_cancel_queued:
  "sched_inv s \<Longrightarrow> i < length (sch_items s) \<Longrightarrow> sched_inv (cancel_queued i t s)"
  using set_swap_remove [of i "sch_items s"]
  by (intro sched_inv_subset [of s "cancel_queued i t s"])
    (auto simp: sched_inv_def intro: books_ok_cancel_queued)

text \<open>
  When every slot holds a live item, the stop loop retires them all and returns each plan once.
\<close>

lemma stop_loop_all:
  assumes "sched_inv s"
  shows "\<exists>stopped' s'. stop_loop t 0 stopped s = (stopped', s') \<and> sched_inv s' \<and> sch_items s' = [] \<and>
           mset stopped' = mset stopped + mset (map si_plan (sch_items s)) \<and>
           sch_now_ms s' = sch_now_ms s \<and> sch_config s' = sch_config s \<and> sch_generation s' = sch_generation s"
  using assms
proof (induction "length (sch_items s)" arbitrary: s stopped)
  case 0
  then show ?case by (subst stop_loop.simps) simp
next
  case (Suc n)
  let ?it = "sch_items s ! 0"
  from Suc.hyps(2) have i: "0 < length (sch_items s)" by linarith
  have live: "si_status ?it = Playing \<or> si_status ?it = Queued"
    using Suc.prems i by (fastforce simp: sched_inv_def item_ok_def)
  have ms: "mset (map si_plan (sch_items s)) = add_mset (si_plan ?it) (mset (map si_plan (swap_remove (sch_items s) 0)))"
    using mset_swap_remove [OF i] by (metis image_mset_add_mset mset_map)
  define s1 where "s1 = (if si_status ?it = Playing then stop_item 0 t s else cancel_queued 0 t s)"
  have s1: "sched_inv s1" "sch_items s1 = swap_remove (sch_items s) 0" "sch_now_ms s1 = sch_now_ms s"
    "sch_config s1 = sch_config s" "sch_generation s1 = sch_generation s"
    using Suc.prems i by (auto simp: s1_def sched_inv_stop_item sched_inv_cancel_queued)
  have "stop_loop t 0 stopped s = stop_loop t 0 (stopped @ [si_plan ?it]) s1"
    using i live by (subst stop_loop.simps) (auto simp: s1_def stop_item_def Let_def)
  moreover have "n = length (sch_items s1)" using Suc.hyps s1 by simp
  ultimately show ?case
    using Suc.hyps(1) [of s1 "stopped @ [si_plan ?it]"] s1 ms by (auto simp: ac_simps)
qed

lemma stop_all_props:
  assumes "sched_inv s" "t \<le> u64_max"
  obtains stopped s' where "stop_all t s = (stopped, s')" "sched_inv s'" "sch_items s' = []"
    "mset stopped = mset (map si_plan (sch_items (advance_to t s)))"
    "sch_now_ms s' = max t (sch_now_ms s)" "sch_config s' = sch_config s" "sch_generation s' = sch_generation s"
  using stop_loop_all [OF sched_inv_advance_to [OF assms], of t "[]"] by (auto simp: stop_all_def)

lemma position_from_SomeD:
  "position_from P k xs = Some i \<Longrightarrow> k \<le> i \<and> i - k < length xs \<and> P (xs ! (i - k))"
  by (induction P k xs rule: position_from.induct) (force simp: nth_Cons' split: if_splits)+

lemma position_from_None: "position_from P k xs = None \<longleftrightarrow> (\<forall>x\<in>set xs. \<not> P x)"
  by (induction P k xs rule: position_from.induct) auto

lemma sched_inv_stop_current:
  assumes "sched_inv s" "t \<le> u64_max"
  shows "sched_inv (snd (stop_current t s))"
proof (cases "position_from (\<lambda>it. si_status it = Playing) 0 (sch_items (advance_to t s))")
  case (Some i)
  from position_from_SomeD [OF this] have "i < length (sch_items (advance_to t s))" by simp
  then have "sched_inv (stop_item i t (advance_to t s))"
    by (intro sched_inv_stop_item sched_inv_advance_to assms)
  with Some show ?thesis by (simp add: stop_current_def Let_def stop_item_def)
qed (simp add: stop_current_def Let_def sched_inv_advance_to assms)

lemma complete_all_target:
  "sched_inv s \<Longrightarrow> (if xs = [] then sch_now_ms s else Max (set (map effective_end_ms xs))) \<le> u64_max"
  by (auto simp: sched_inv_def)

lemma sched_inv_complete_all: "sched_inv s \<Longrightarrow> sched_inv (complete_all s)"
  using complete_all_target [of s "filter occupies_timeline (sch_items s)"]
  by (auto simp: complete_all_def Let_def intro!: sched_inv_advance_to)

lemma sched_inv_drain: "sched_inv s \<Longrightarrow> sched_inv (snd (drain_history s))"
  by (cases "history_cap s") (auto simp: drain_history_def sched_inv_def books_ok_def generations_ok_def)

end
