(* ===== verification/Scheduler_Schedule.thy ===== *)
theory Scheduler_Schedule
  imports Scheduler_Inv
begin

text \<open>
  \<open>schedule_at\<close> step by step: the safe-point boundary, the arbitration against playing items and the
  pending cancellations, the resolution of future reservations (total: no index is ever out of
  range), the commit, and the scheduler as a transition system over all its operations.
\<close>

section \<open>Safe boundaries and arbitration\<close>

definition boundary_of :: "u64 \<Rightarrow> planned_performance \<Rightarrow> u64" where
  "boundary_of request p = (if pp_interruptible p then next_safe_boundary p request else end_at_ms p)"

lemma next_safe_boundary_cases:
  obtains "next_safe_boundary p r = end_at_ms p"
  | off where "off \<in> set (pp_interrupt_points_ms p)" "next_safe_boundary p r = sadd (pp_start_at_ms p) off"
      "r \<le> next_safe_boundary p r" "next_safe_boundary p r < end_at_ms p"
proof (cases "List.find (\<lambda>b. r \<le> b \<and> b < end_at_ms p) (map (\<lambda>off. sadd (pp_start_at_ms p) off)
    (filter (\<lambda>off. r - pp_start_at_ms p \<le> off) (pp_interrupt_points_ms p)))")
  case None
  then show ?thesis using that(1) by (simp add: next_safe_boundary_def Let_def)
next
  case (Some b)
  from find_SomeD [OF Some] obtain off where "off \<in> set (pp_interrupt_points_ms p)"
    "b = sadd (pp_start_at_ms p) off" "r \<le> b" "b < end_at_ms p" by auto
  with Some show ?thesis using that(2) by (simp add: next_safe_boundary_def Let_def)
qed

lemma boundary_of_le_end: "boundary_of r p \<le> end_at_ms p"
  by (rule next_safe_boundary_cases [of p r]) (auto simp: boundary_of_def)

lemma boundary_of_le_max [simp]: "boundary_of r p \<le> u64_max"
  using boundary_of_le_end end_at_le_max by (rule le_trans)

lemma boundary_of_early:
  assumes "boundary_of r p < end_at_ms p"
  shows "pp_interruptible p \<and> r \<le> boundary_of r p \<and>
         (\<exists>off\<in>set (pp_interrupt_points_ms p). boundary_of r p = sadd (pp_start_at_ms p) off)"
  using assms by (rule_tac next_safe_boundary_cases [of p r]) (auto simp: boundary_of_def split: if_splits)

lemma arbitrate_playing_None:
  "arbitrate_playing r rank items is cand term pending = None \<longleftrightarrow>
     (\<exists>i\<in>set is. priority_rank (pp_priority (si_plan (items ! i))) < rank)"
  by (induction r rank items "is" cand "term" pending rule: arbitrate_playing.induct) (auto simp: Let_def)

definition early_boundaries :: "u64 \<Rightarrow> scheduled_item list \<Rightarrow> nat list \<Rightarrow> (nat \<times> u64) list" where
  "early_boundaries r items is =
     map (\<lambda>i. (i, boundary_of r (si_plan (items ! i))))
       (filter (\<lambda>i. boundary_of r (si_plan (items ! i)) < end_at_ms (si_plan (items ! i))) is)"

lemma arbitrate_playing_Some:
  "arbitrate_playing r rank items is cand term pending = Some (c, t, p) \<Longrightarrow>
     cand \<le> c \<and> (cand \<le> u64_max \<longrightarrow> c \<le> u64_max) \<and>
     (\<forall>i\<in>set is. boundary_of r (si_plan (items ! i)) \<le> c) \<and>
     p = pending @ early_boundaries r items is"
proof (induction r rank items "is" cand "term" pending rule: arbitrate_playing.induct)
  case (2 r rank items i "is" cand "term" pending)
  let ?p = "si_plan (items ! i)"
  from "2.prems" have rank: "\<not> priority_rank (pp_priority ?p) < rank"
    by (auto simp: Let_def split: if_splits)
  from "2.IH" [OF refl rank refl refl refl] "2.prems" rank boundary_of_le_max [of r ?p]
  show ?case
    by (auto simp: Let_def boundary_of_def [symmetric] early_boundaries_def)
qed (simp add: early_boundaries_def)

lemma set_early_boundaries:
  "(i, b) \<in> set (early_boundaries r items is) \<longleftrightarrow>
     i \<in> set is \<and> b = boundary_of r (si_plan (items ! i)) \<and> b < end_at_ms (si_plan (items ! i))"
  by (auto simp: early_boundaries_def)

section \<open>Pending cancellations\<close>

lemma cancel_at_boundary_simps [simp]:
  "si_plan (cancel_at_boundary b it) = si_plan it"
  "si_status (cancel_at_boundary b it) = si_status it"
  by (simp_all add: cancel_at_boundary_def)

lemma effective_end_cancel_at_boundary:
  "effective_end_ms (cancel_at_boundary b it) = min b (effective_end_ms it)"
  by (auto simp: effective_end_ms_def cancel_at_boundary_def split: option.splits)

lemma apply_cancellations_nth:
  "j < length items \<Longrightarrow>
     length (apply_cancellations ps items) = length items \<and>
     si_plan (apply_cancellations ps items ! j) = si_plan (items ! j) \<and>
     si_status (apply_cancellations ps items ! j) = si_status (items ! j) \<and>
     effective_end_ms (apply_cancellations ps items ! j) \<le> effective_end_ms (items ! j) \<and>
     (\<forall>b. (j, b) \<in> set ps \<longrightarrow> effective_end_ms (apply_cancellations ps items ! j) \<le> b) \<and>
     (si_cancel_at_ms (apply_cancellations ps items ! j) = si_cancel_at_ms (items ! j) \<or>
      (\<exists>b. (j, b) \<in> set ps \<and> si_cancel_at_ms (apply_cancellations ps items ! j) = Some b))"
proof (induction ps items rule: apply_cancellations.induct)
  case (2 i b ps items)
  let ?items = "items[i := cancel_at_boundary b (items ! i)]"
  from "2.prems" have j: "j < length ?items" by simp
  note IH = "2.IH" [OF j]
  show ?case
  proof (cases "i = j")
    case True
    with "2.prems" have nth: "?items ! j = cancel_at_boundary b (items ! j)" by simp
    have "si_cancel_at_ms (?items ! j) = si_cancel_at_ms (items ! j) \<or> si_cancel_at_ms (?items ! j) = Some b"
      unfolding nth by (auto simp: cancel_at_boundary_def min_def split: option.splits)
    then show ?thesis
      using IH True unfolding nth by (auto simp: effective_end_cancel_at_boundary)
  next
    case False
    then show ?thesis using IH by auto
  qed
qed simp

lemma length_apply_cancellations [simp]: "length (apply_cancellations ps items) = length items"
  by (induction ps items rule: apply_cancellations.induct) auto

text \<open>The state after the pending cancellations keeps the invariant.\<close>

lemma sched_inv_cancellations:
  assumes inv: "sched_inv s"
    and ps: "\<And>i b. (i, b) \<in> set ps \<Longrightarrow> i < length (sch_items s) \<Longrightarrow>
        si_status (sch_items s ! i) = Playing \<and> b = boundary_of r (si_plan (sch_items s ! i)) \<and>
        b < end_at_ms (si_plan (sch_items s ! i))"
  shows "sched_inv (s\<lparr>sch_items := apply_cancellations ps (sch_items s)\<rparr>)"
    (is "sched_inv ?s'")
proof -
  let ?xs = "sch_items s" and ?ys = "apply_cancellations ps (sch_items s)"
  have plans: "map si_plan ?ys = map si_plan ?xs"
    by (rule nth_equalityI) (simp_all add: apply_cancellations_nth)
  have keys: "map item_event ?ys = map item_event ?xs" "map item_gen ?ys = map item_gen ?xs"
    using arg_cong [OF plans, of "map pp_event_id"] arg_cong [OF plans, of "map pp_generation"]
    by (simp_all only: map_map comp_def)
  have len: "length ?ys = length ?xs" by simp
  have ix: "ix_ok key ?ys m = ix_ok key ?xs m" if "map key ?ys = map key ?xs"
    for key :: "scheduled_item \<Rightarrow> 'k::linorder" and m
  proof -
    have "key (?ys ! i) = key (?xs ! i)" if "i < length ?xs" for i
      using that \<open>map key ?ys = map key ?xs\<close> len by (metis nth_map)
    then show ?thesis by (auto simp: ix_ok_def)
  qed
  have "item_gen ` set ?ys = item_gen ` set ?xs"
    using arg_cong [OF keys(2), of set] by simp
  then have "(\<forall>x\<in>item_gen ` set ?ys. x \<le> g) = (\<forall>x\<in>item_gen ` set ?xs. x \<le> g)" for g
    by (simp only:)
  then have gens: "(\<forall>it\<in>set ?ys. item_gen it \<le> g) = (\<forall>it\<in>set ?xs. item_gen it \<le> g)" for g
    by simp
  have item: "item_ok (sch_now_ms s) (?ys ! j)" if j: "j < length ?xs" for j
  proof -
    note n = apply_cancellations_nth [OF j, of ps]
    from inv j have old: "item_ok (sch_now_ms s) (?xs ! j)" by (simp add: sched_inv_def)
    show ?thesis
    proof (cases "si_cancel_at_ms (?ys ! j) = si_cancel_at_ms (?xs ! j)")
      case True
      with n have "cancel_ok (?ys ! j) = cancel_ok (?xs ! j)" by (intro cancel_ok_cong) simp_all
      with n old True show ?thesis by (simp add: item_ok_def)
    next
      case False
      with n obtain b where b: "(j, b) \<in> set ps" "si_cancel_at_ms (?ys ! j) = Some b" by auto
      from ps [OF b(1) j] have "si_status (?xs ! j) = Playing" "cancel_ok (?ys ! j)"
        using boundary_of_early [of r "si_plan (?xs ! j)"] b(2) n by (auto simp: cancel_ok_def)
      with n old show ?thesis by (simp add: item_ok_def)
    qed
  qed
  have "no_double_booking (set ?ys)"
  proof (rule no_double_booking_advance)
    show "no_double_booking (set ?xs)" using inv by (simp add: sched_inv_def)
    fix y assume "y \<in> set ?ys"
    then obtain j where "j < length ?xs" "y = ?ys ! j" by (auto simp: in_set_conv_nth)
    then show "\<exists>it\<in>set ?xs. si_plan y = si_plan it \<and> effective_end_ms y \<le> effective_end_ms it"
      using apply_cancellations_nth [of j ?xs ps] by (intro bexI [of _ "?xs ! j"]) auto
  qed
  moreover have "\<forall>it\<in>set ?ys. item_ok (sch_now_ms s) it"
    using item by (auto simp: in_set_conv_nth)
  ultimately show ?thesis
    using inv by (simp add: sched_inv_def books_ok_def generations_ok_def ix keys gens)
qed

section \<open>Reservations\<close>

lemma overlapping_queued_iff:
  "i \<in> set (overlapping_queued plan items) \<longleftrightarrow>
     i < length items \<and> si_status (items ! i) = Queued \<and> plans_conflict (si_plan (items ! i)) plan \<and>
     intervals_overlap (pp_start_at_ms plan) (end_at_ms plan)
       (pp_start_at_ms (si_plan (items ! i))) (effective_end_ms (items ! i))"
  by (auto simp: overlapping_queued_def)

lemma sorted_overlapping_queued: "sorted_wrt (>) (rev (overlapping_queued plan items))"
  by (simp add: overlapping_queued_def sorted_wrt_rev sorted_wrt_filter)

text \<open>
  The relation between the scheduler before and after resolving: nothing but queued items of strictly
  lower priority is removed, and nothing else changes but the books.
\<close>

definition superseded_only :: "planned_performance \<Rightarrow> scheduler \<Rightarrow> scheduler \<Rightarrow> bool" where
  "superseded_only plan s s' \<longleftrightarrow>
     set (sch_items s') \<subseteq> set (sch_items s) \<and>
     (\<forall>it\<in>set (sch_items s) - set (sch_items s').
        si_status it = Queued \<and> priority_rank (pp_priority plan) < priority_rank (pp_priority (si_plan it))) \<and>
     sch_generation s' = sch_generation s \<and> sch_config s' = sch_config s \<and> sch_now_ms s' = sch_now_ms s \<and>
     sch_last_rejection s' = sch_last_rejection s"

lemma superseded_only_refl [simp]: "superseded_only plan s s"
  by (simp add: superseded_only_def)

lemma superseded_only_trans:
  "superseded_only plan s s1 \<Longrightarrow> superseded_only plan' s1 s2 \<Longrightarrow> pp_priority plan' = pp_priority plan \<Longrightarrow>
     superseded_only plan s s2"
  by (auto simp: superseded_only_def)

lemma superseded_only_cancel:
  assumes "i < length (sch_items s)" "si_status (sch_items s ! i) = Queued"
    and "priority_rank (pp_priority plan) < priority_rank (pp_priority (si_plan (sch_items s ! i)))"
  shows "superseded_only plan s (cancel_queued i t s)"
proof -
  have "set (sch_items s) = insert (sch_items s ! i) (set (swap_remove (sch_items s) i))"
    using mset_swap_remove [OF assms(1)] by (metis set_mset_add_mset_insert set_mset_mset)
  with assms show ?thesis by (auto simp: superseded_only_def)
qed

lemma resolve_round_total:
  assumes "sorted_wrt (>) is" "\<And>i. i \<in> set is \<Longrightarrow> i < length (sch_items s) \<and> si_status (sch_items s ! i) = Queued"
    and "sched_inv s"
  shows "\<exists>plan' s'. resolve_round r is plan s = Some (plan', s') \<and> sched_inv s' \<and> superseded_only plan s s' \<and>
           plan' = plan\<lparr>pp_start_at_ms := pp_start_at_ms plan'\<rparr>"
  using assms
proof (induction r "is" plan s rule: resolve_round.induct)
  case (2 r i "is" plan s)
  let ?it = "sch_items s ! i"
  from "2.prems"(2) have i: "i < length (sch_items s)" and q: "si_status ?it = Queued" by auto
  have rest: "sorted_wrt (>) is" "\<And>j. j \<in> set is \<Longrightarrow> j < i" using "2.prems"(1) by auto
  show ?case
  proof (cases "priority_rank (pp_priority plan) < priority_rank (pp_priority (si_plan ?it))")
    case True
    let ?s1 = "cancel_queued i r s"
    have keep: "j < length (sch_items ?s1) \<and> si_status (sch_items ?s1 ! j) = Queued" if "j \<in> set is" for j
      using that rest(2) [OF that] "2.prems"(2) [of j] i by (simp add: nth_swap_remove)
    from "2.IH"(1) [OF i refl True rest(1) keep sched_inv_cancel_queued [OF "2.prems"(3) i]] obtain plan' s' where
      "resolve_round r is plan ?s1 = Some (plan', s')" "sched_inv s'" "superseded_only plan ?s1 s'"
      "plan' = plan\<lparr>pp_start_at_ms := pp_start_at_ms plan'\<rparr>" by blast
    moreover from this(3) have "superseded_only plan s s'"
      by (rule superseded_only_trans [OF superseded_only_cancel [OF i q True]]) simp
    ultimately show ?thesis using i True by auto
  next
    case False
    with "2.IH"(2) [OF i refl False rest(1)] "2.prems"(2,3) i show ?thesis
      by (auto simp: Let_def superseded_only_def)
  qed
qed simp

lemma resolve_reservations_total:
  assumes "sched_inv s" "pp_start_at_ms plan \<le> u64_max"
  shows "\<exists>plan' s'. resolve_reservations r plan s = Some (plan', s') \<and> sched_inv s' \<and> superseded_only plan s s' \<and>
           overlapping_queued plan' (sch_items s') = [] \<and>
           pp_start_at_ms plan \<le> pp_start_at_ms plan' \<and> pp_start_at_ms plan' \<le> u64_max \<and>
           plan' = plan\<lparr>pp_start_at_ms := pp_start_at_ms plan'\<rparr>"
  using assms
proof (induction r plan s rule: resolve_reservations.induct)
  case (1 r plan s)
  show ?case
  proof (cases "overlapping_queued plan (sch_items s)")
    case Nil
    with "1.prems" show ?thesis by (subst resolve_reservations.simps) simp
  next
    case (Cons i "is")
    have "\<And>j. j \<in> set (rev (i # is)) \<Longrightarrow> j < length (sch_items s) \<and> si_status (sch_items s ! j) = Queued"
      using overlapping_queued_iff [of _ plan "sch_items s"] Cons by auto
    from resolve_round_total [OF sorted_overlapping_queued [of plan "sch_items s", unfolded Cons] this "1.prems"(1)]
    obtain plan1 s1 where r1: "resolve_round r (rev (i # is)) plan s = Some (plan1, s1)" "sched_inv s1"
      "superseded_only plan s s1" "plan1 = plan\<lparr>pp_start_at_ms := pp_start_at_ms plan1\<rparr>" by blast
    from resolve_round_progress [OF r1(1) "1.prems"(2)]
    have st: "pp_start_at_ms plan \<le> pp_start_at_ms plan1" "pp_start_at_ms plan1 \<le> u64_max" by auto
    from "1.IH" [OF Cons r1(1) refl r1(2) st(2)] obtain plan2 s2 where
      r2: "resolve_reservations r plan1 s1 = Some (plan2, s2)" "sched_inv s2" "superseded_only plan1 s1 s2"
        "overlapping_queued plan2 (sch_items s2) = []" "pp_start_at_ms plan1 \<le> pp_start_at_ms plan2"
        "pp_start_at_ms plan2 \<le> u64_max" "plan2 = plan1\<lparr>pp_start_at_ms := pp_start_at_ms plan2\<rparr>" by blast
    have "pp_priority plan1 = pp_priority plan" by (subst r1(4)) simp
    then have "superseded_only plan s s2" using superseded_only_trans [OF r1(3) r2(3)] by simp
    moreover have "plan2 = plan\<lparr>pp_start_at_ms := pp_start_at_ms plan2\<rparr>"
      by (subst r2(7), subst r1(4)) simp
    ultimately show ?thesis
      using Cons r1(1) r2 st by (subst resolve_reservations.simps) auto
  qed
qed

section \<open>Committing a plan\<close>

lemma plans_conflict_sym: "plans_conflict a b \<longleftrightarrow> plans_conflict b a"
  by (auto simp: plans_conflict_def)

lemma items_disjoint_sym: "items_disjoint a b \<longleftrightarrow> items_disjoint b a"
  by (auto simp: items_disjoint_def intervals_overlap_def)

lemma no_double_booking_insert:
  assumes "no_double_booking A"
    and "\<And>it. it \<in> A \<Longrightarrow> plans_conflict (si_plan it) (si_plan x) \<Longrightarrow> items_disjoint x it"
  shows "no_double_booking (insert x A)"
  unfolding no_double_booking_def
proof (intro ballI impI)
  fix a b assume ab: "a \<in> insert x A" "b \<in> insert x A" "item_event a \<noteq> item_event b"
    "plans_conflict (si_plan a) (si_plan b)"
  then consider "a \<in> A" "b \<in> A" | "a = x" "b \<in> A" | "b = x" "a \<in> A" by auto
  then show "items_disjoint a b"
  proof cases
    case 1
    with assms(1) ab(3,4) show ?thesis by (simp add: no_double_booking_def)
  next
    case 2
    with assms(2) [of b] ab(4) show ?thesis by (simp add: plans_conflict_sym)
  next
    case 3
    with assms(2) [of a] ab(4) show ?thesis by (simp add: items_disjoint_sym)
  qed
qed

lemma sched_inv_commit:
  assumes inv: "sched_inv s" and fresh: "\<forall>it\<in>set (sch_items s). item_event it \<noteq> pp_event_id plan"
    and start: "pp_start_at_ms plan \<le> u64_max"
    and free: "\<And>it. it \<in> set (sch_items s) \<Longrightarrow> plans_conflict (si_plan it) plan \<Longrightarrow>
        \<not> intervals_overlap (pp_start_at_ms plan) (end_at_ms plan)
            (pp_start_at_ms (si_plan it)) (effective_end_ms it)"
  shows "sched_inv (snd (commit_plan plan s))"
proof -
  let ?g = "sadd (sch_generation s) 1"
  let ?st = "if pp_start_at_ms plan \<le> sch_now_ms s then Playing else Queued"
  let ?it = "\<lparr>si_plan = plan\<lparr>pp_generation := ?g\<rparr>, si_status = ?st, si_cancel_at_ms = None\<rparr>"
  let ?s' = "snd (commit_plan plan s)"
  have items: "sch_items ?s' = sch_items s @ [?it]" by (simp add: commit_plan_def Let_def)
  have eff: "effective_end_ms ?it = end_at_ms plan" by (simp add: effective_end_ms_def end_at_ms_def)
  have conf: "plans_conflict (si_plan ?it) p = plans_conflict p plan"
    "plans_conflict p (si_plan ?it) = plans_conflict p plan" for p
    by (auto simp: plans_conflict_def)
  have fresh': "item_event ?it \<notin> item_event ` set (sch_items s)" using fresh by auto
  have old: "ix_ok item_event (sch_items s) (sch_live_by_event s)"
    using inv by (simp add: sched_inv_def books_ok_def)
  have "sch_live_by_event ?s' = bm_insert (item_event ?it) (length (sch_items s)) (sch_live_by_event s)"
    by (simp add: commit_plan_def Let_def)
  then have "ix_ok item_event (sch_items ?s') (sch_live_by_event ?s')"
    using ix_ok_push [OF old fresh'] by (simp only: items)
  moreover have "generations_ok ?s'"
  proof (cases "?g < u64_max")
    case True
    then have g: "?g = Suc (sch_generation s)" "sch_generation s < u64_max"
      by (auto simp: sadd_def min_def split: if_splits)
    with inv have old: "ix_ok item_gen (sch_items s) (sch_live_by_generation s)"
      "\<forall>it\<in>set (sch_items s). item_gen it \<le> sch_generation s"
      by (auto simp: sched_inv_def books_ok_def generations_ok_def)
    then have "item_gen ?it \<notin> item_gen ` set (sch_items s)" using g by fastforce
    from ix_ok_push [OF old(1) this]
    have "ix_ok item_gen (sch_items ?s') (sch_live_by_generation ?s')"
      unfolding items by (simp add: commit_plan_def Let_def)
    moreover have "\<forall>it\<in>set (sch_items ?s'). item_gen it \<le> sch_generation ?s'"
      unfolding items using old(2) g by (auto simp: commit_plan_def Let_def intro: le_SucI)
    ultimately show ?thesis by (simp add: generations_ok_def)
  qed (simp add: generations_ok_def commit_plan_def Let_def)
  moreover have "sch_history ?s' = sch_history s" "sch_config ?s' = sch_config s" "bm_ok (sch_cooldowns ?s')"
    using inv by (auto simp: sched_inv_def books_ok_def commit_plan_def Let_def)
  ultimately have "books_ok ?s'"
    using inv by (simp add: sched_inv_def books_ok_def)
  moreover have "item_ok (sch_now_ms s) ?it"
    using start by (simp add: item_ok_def cancel_ok_def)
  moreover have "no_double_booking (set (sch_items ?s'))"
  proof -
    have "items_disjoint ?it it" if "it \<in> set (sch_items s)" "plans_conflict (si_plan it) (si_plan ?it)" for it
      using free [OF that(1)] that(2) unfolding conf items_disjoint_def eff by simp
    then have "no_double_booking (insert ?it (set (sch_items s)))"
      using inv by (intro no_double_booking_insert) (simp_all add: sched_inv_def)
    then show ?thesis unfolding items by simp
  qed
  moreover have "sch_now_ms ?s' = sch_now_ms s" by (simp add: commit_plan_def Let_def)
  ultimately show ?thesis using inv items by (simp add: sched_inv_def)
qed

section \<open>\<open>schedule_at\<close>\<close>

lemma spaced_start_bounds:
  "cand \<le> u64_max \<Longrightarrow> cand \<le> spaced_start prio sp cand h t \<and> spaced_start prio sp cand h t \<le> u64_max"
  by (auto simp: spaced_start_def split: option.splits)

lemma normalize_interrupt_points_simps [simp]:
  "pp_event_id (normalize_interrupt_points p) = pp_event_id p"
  "pp_asset_id (normalize_interrupt_points p) = pp_asset_id p"
  "pp_priority (normalize_interrupt_points p) = pp_priority p"
  "pp_start_at_ms (normalize_interrupt_points p) = pp_start_at_ms p"
  "pp_duration_ms (normalize_interrupt_points p) = pp_duration_ms p"
  by (simp_all add: normalize_interrupt_points_def)

text \<open>The plan after the clamp to the request and the current time.\<close>

definition clamped_plan :: "u64 \<Rightarrow> planned_performance \<Rightarrow> scheduler \<Rightarrow> planned_performance" where
  "clamped_plan request plan s =
     normalize_interrupt_points (plan\<lparr>pp_start_at_ms := max (max (pp_start_at_ms plan) request) (sch_now_ms s)\<rparr>)"

definition cooldown_of :: "planned_performance \<Rightarrow> scheduler \<Rightarrow> u64" where
  "cooldown_of plan s = (case bm_get (sch_cooldowns s) (pp_asset_id plan) of None \<Rightarrow> 0 | Some u \<Rightarrow> u)"

definition is_live_event :: "string \<Rightarrow> scheduler \<Rightarrow> bool" where
  "is_live_event e s \<longleftrightarrow> (\<exists>it\<in>set (sch_items s). item_event it = e)"

definition outranked :: "planned_performance \<Rightarrow> scheduler \<Rightarrow> bool" where
  "outranked plan s \<longleftrightarrow>
     (\<exists>it\<in>set (sch_items s). si_status it = Playing \<and> plans_conflict (si_plan it) plan \<and>
        priority_rank (pp_priority (si_plan it)) < priority_rank (pp_priority plan))"

lemma outranked_iff:
  "arbitrate_playing r (priority_rank (pp_priority plan)) (sch_items s)
     (active_indices plan (sch_items s)) c h p = None \<longleftrightarrow> outranked plan s"
proof -
  have "(\<exists>i\<in>set (active_indices plan (sch_items s)). Q (sch_items s ! i)) \<longleftrightarrow>
      (\<exists>it\<in>set (sch_items s). si_status it = Playing \<and> plans_conflict (si_plan it) plan \<and> Q it)" for Q
    by (fastforce simp: active_indices_def in_set_conv_nth)
  then show ?thesis by (simp add: arbitrate_playing_None outranked_def)
qed

text \<open>
  The successful path: from the state \<open>s\<close> at the request time, the committed plan and the final
  state, with everything the callers rely on.
\<close>

lemma schedule_accept:
  assumes inv: "sched_inv s" and req: "request \<le> u64_max" "pp_start_at_ms plan0 \<le> u64_max"
    and fresh: "\<not> is_live_event (pp_event_id plan0) s"
    and arb: "arbitrate_playing request (priority_rank (pp_priority plan1)) (sch_items s)
        (active_indices plan1 (sch_items s)) (pp_start_at_ms plan1) None [] = Some (cand, handoff, pending)"
    and plan1: "plan1 = clamped_plan request plan0 s"
    and s1: "s1 = s\<lparr>sch_items := apply_cancellations pending (sch_items s)\<rparr>"
    and start: "start = spaced_start (pp_priority plan1) (sc_min_reaction_spacing_ms (sch_config s1)) cand handoff
        (sch_last_terminal_at s1)"
  shows "\<exists>plan2 s2. resolve_reservations request (plan1\<lparr>pp_start_at_ms := start\<rparr>) s1 = Some (plan2, s2) \<and>
           plan2 = plan1\<lparr>pp_start_at_ms := pp_start_at_ms plan2\<rparr> \<and>
           pp_start_at_ms plan1 \<le> pp_start_at_ms plan2 \<and> sched_inv s2 \<and> superseded_only plan1 s1 s2 \<and>
           sched_inv (snd (commit_plan plan2 s2))"
proof -
  let ?act = "active_indices plan1 (sch_items s)"
  have act: "i \<in> set ?act \<longleftrightarrow> i < length (sch_items s) \<and> si_status (sch_items s ! i) = Playing \<and>
      plans_conflict (si_plan (sch_items s ! i)) plan1" for i
    by (auto simp: active_indices_def)
  note ap = arbitrate_playing_Some [OF arb]
  have pending: "pending = early_boundaries request (sch_items s) ?act" using ap by simp
  have st1: "pp_start_at_ms plan1 \<le> u64_max"
    using inv req by (simp add: plan1 clamped_plan_def sched_inv_def)
  have inv1: "sched_inv s1"
    unfolding s1 by (rule sched_inv_cancellations [OF inv, where r = request])
      (use act in \<open>auto simp: pending set_early_boundaries\<close>)
  have cand: "pp_start_at_ms plan1 \<le> cand" "cand \<le> u64_max" using ap st1 by auto
  then have start_b: "cand \<le> start" "start \<le> u64_max"
    using spaced_start_bounds unfolding start by blast+
  from resolve_reservations_total [OF inv1, of "plan1\<lparr>pp_start_at_ms := start\<rparr>" request] start_b
  obtain plan2 s2 where r: "resolve_reservations request (plan1\<lparr>pp_start_at_ms := start\<rparr>) s1 = Some (plan2, s2)"
    "sched_inv s2" "superseded_only (plan1\<lparr>pp_start_at_ms := start\<rparr>) s1 s2"
    "overlapping_queued plan2 (sch_items s2) = []" "start \<le> pp_start_at_ms plan2"
    "pp_start_at_ms plan2 \<le> u64_max"
    "plan2 = plan1\<lparr>pp_start_at_ms := start\<rparr>\<lparr>pp_start_at_ms := pp_start_at_ms plan2\<rparr>" by auto
  have plan2: "plan2 = plan1\<lparr>pp_start_at_ms := pp_start_at_ms plan2\<rparr>" by (subst r(7)) simp
  have conf: "plans_conflict p plan2 = plans_conflict p plan1" for p
    by (subst plan2) (simp add: plans_conflict_def)
  have only: "superseded_only plan1 s1 s2" using r(3) by (simp add: superseded_only_def)
  have origin: "\<exists>j < length (sch_items s). it = apply_cancellations pending (sch_items s) ! j"
    if "it \<in> set (sch_items s2)" for it
  proof -
    from that only have "it \<in> set (sch_items s1)" by (auto simp: superseded_only_def)
    then show ?thesis by (auto simp: s1 in_set_conv_nth)
  qed
  have "sched_inv (snd (commit_plan plan2 s2))"
  proof (rule sched_inv_commit [OF r(2) _ r(6)])
    have "pp_event_id plan2 = pp_event_id plan0" by (subst plan2) (simp add: plan1 clamped_plan_def)
    moreover have "item_event it \<noteq> pp_event_id plan0" if it: "it \<in> set (sch_items s2)" for it
      using origin [OF it] fresh apply_cancellations_nth [of _ "sch_items s" pending]
      by (auto simp: is_live_event_def)
    ultimately show "\<forall>it\<in>set (sch_items s2). item_event it \<noteq> pp_event_id plan2" by simp
  next
    fix it assume it: "it \<in> set (sch_items s2)" and c: "plans_conflict (si_plan it) plan2"
    from r(2) it have ok: "item_ok (sch_now_ms s2) it" by (simp add: sched_inv_def)
    show "\<not> intervals_overlap (pp_start_at_ms plan2) (end_at_ms plan2) (pp_start_at_ms (si_plan it)) (effective_end_ms it)"
    proof (cases "si_status it = Queued")
      case True
      from it obtain i where "i < length (sch_items s2)" "sch_items s2 ! i = it" by (auto simp: in_set_conv_nth)
      with True c r(4) overlapping_queued_iff [of i plan2 "sch_items s2"] show ?thesis by auto
    next
      case False
      with ok have playing: "si_status it = Playing" by (simp add: item_ok_def)
      from origin [OF it] obtain j where j: "j < length (sch_items s)"
        "it = apply_cancellations pending (sch_items s) ! j" by blast
      note n = apply_cancellations_nth [OF j(1), of pending]
      with playing c j conf have ja: "j \<in> set ?act" by (simp add: act)
      let ?b = "boundary_of request (si_plan (sch_items s ! j))"
      have "effective_end_ms it \<le> ?b"
      proof (cases "?b < end_at_ms (si_plan (sch_items s ! j))")
        case True
        with ja have "(j, ?b) \<in> set pending" by (simp add: pending set_early_boundaries)
        with n j show ?thesis by auto
      next
        case False
        then show ?thesis using n j effective_end_le_end [of it] by auto
      qed
      also have "?b \<le> cand" using ap ja by blast
      finally show ?thesis using start_b r(5) by (simp add: intervals_overlap_def)
    qed
  qed
  moreover have "pp_start_at_ms plan1 \<le> pp_start_at_ms plan2" using cand start_b r(5) by linarith
  ultimately show ?thesis using r(1,2) plan2 only by blast
qed

end
