(* ===== verification/Scheduler_Props.thy ===== *)
theory Scheduler_Props
  imports Scheduler_Schedule
begin

text \<open>
  The scheduler as a transition system over its public operations, and the properties of it: no
  double booking, panic freedom, the outcome of every request, what an accepted plan may disturb,
  the stop paths, the history and the meaning of \<open>advance_to\<close> on the set of live items.
\<close>

section \<open>The outcome of a request\<close>

text \<open>The state in which a request is judged: logical time has advanced to its arrival.\<close>

definition request_state :: "u64 \<Rightarrow> scheduler \<Rightarrow> scheduler" where
  "request_state request s = advance_to request (s\<lparr>sch_last_rejection := None\<rparr>)"

lemma clamped_plan_simps [simp]:
  "pp_priority (clamped_plan request plan s) = pp_priority plan"
  "pp_asset_id (clamped_plan request plan s) = pp_asset_id plan"
  "pp_event_id (clamped_plan request plan s) = pp_event_id plan"
  "pp_duration_ms (clamped_plan request plan s) = pp_duration_ms plan"
  "pp_start_at_ms (clamped_plan request plan s) = max (max (pp_start_at_ms plan) request) (sch_now_ms s)"
  by (simp_all add: clamped_plan_def)

definition arbitration ::
  "u64 \<Rightarrow> planned_performance \<Rightarrow> scheduler \<Rightarrow> (u64 \<times> u64 option \<times> (nat \<times> u64) list) option" where
  "arbitration request plan1 s =
     arbitrate_playing request (priority_rank (pp_priority plan1)) (sch_items s)
       (active_indices plan1 (sch_items s)) (pp_start_at_ms plan1) None []"

lemma arbitration_None: "arbitration request plan1 s = None \<longleftrightarrow> outranked plan1 s"
  unfolding arbitration_def by (rule outranked_iff)

lemma schedule_at_eq:
  "schedule_at request plan0 s0 =
     (let s = request_state request s0; plan1 = clamped_plan request plan0 s in
      if is_live_event (pp_event_id plan0) s then Some (reject Rej_DuplicateEvent s)
      else if pp_start_at_ms plan1 < cooldown_of plan0 s then Some (reject Rej_Cooldown s)
      else case arbitration request plan1 s of
          None \<Rightarrow> Some (reject Rej_Priority s)
        | Some (cand, handoff, pending) \<Rightarrow>
            let s1 = s\<lparr>sch_items := apply_cancellations pending (sch_items s)\<rparr>;
                start = spaced_start (pp_priority plan1) (sc_min_reaction_spacing_ms (sch_config s1))
                          cand handoff (sch_last_terminal_at s1)
            in (case resolve_reservations request (plan1\<lparr>pp_start_at_ms := start\<rparr>) s1 of
                  None \<Rightarrow> None
                | Some (plan2, s2) \<Rightarrow> Some (commit_plan plan2 s2)))"
  unfolding schedule_at_def request_state_def [symmetric] Let_def clamped_plan_def [symmetric]
  by (simp add: is_live_event_def cooldown_of_def arbitration_def)

lemma sched_inv_request_state:
  "sched_inv s0 \<Longrightarrow> request \<le> u64_max \<Longrightarrow> sched_inv (request_state request s0)"
  unfolding request_state_def
  by (rule sched_inv_advance_to) (simp_all add: sched_inv_def books_ok_def generations_ok_def)

lemma request_state_fields [simp]:
  "sch_now_ms (request_state request s) = max request (sch_now_ms s)"
  "sch_generation (request_state request s) = sch_generation s"
  "sch_config (request_state request s) = sch_config s"
  by (simp_all add: request_state_def)

lemma schedule_at_accept:
  assumes inv: "sched_inv s0" and req: "request \<le> u64_max" "pp_start_at_ms plan0 \<le> u64_max"
    and s: "s = request_state request s0" and p1: "plan1 = clamped_plan request plan0 s"
    and fresh: "\<not> is_live_event (pp_event_id plan0) s"
    and cool: "cooldown_of plan0 s \<le> pp_start_at_ms plan1"
    and ok: "\<not> outranked plan1 s"
  obtains cand handoff pending plan2 s2 where
    "schedule_at request plan0 s0 = Some (commit_plan plan2 s2)"
    "arbitration request plan1 s = Some (cand, handoff, pending)"
    "plan2 = plan1\<lparr>pp_start_at_ms := pp_start_at_ms plan2\<rparr>"
    "pp_start_at_ms plan1 \<le> pp_start_at_ms plan2" "sched_inv s2"
    "superseded_only plan1 (s\<lparr>sch_items := apply_cancellations pending (sch_items s)\<rparr>) s2"
    "sched_inv (snd (commit_plan plan2 s2))"
proof -
  from ok arbitration_None [of request plan1 s] obtain cand handoff pending where
    arb: "arbitration request plan1 s = Some (cand, handoff, pending)" by (cases "arbitration request plan1 s") auto
  have inv_s: "sched_inv s" using inv req s sched_inv_request_state by simp
  let ?s1 = "s\<lparr>sch_items := apply_cancellations pending (sch_items s)\<rparr>"
  let ?start = "spaced_start (pp_priority plan1) (sc_min_reaction_spacing_ms (sch_config ?s1)) cand handoff
      (sch_last_terminal_at ?s1)"
  from schedule_accept [OF inv_s req fresh arb [unfolded arbitration_def] p1 refl refl] obtain plan2 s2 where
    r: "resolve_reservations request (plan1\<lparr>pp_start_at_ms := ?start\<rparr>) ?s1 = Some (plan2, s2)"
      "plan2 = plan1\<lparr>pp_start_at_ms := pp_start_at_ms plan2\<rparr>"
      "pp_start_at_ms plan1 \<le> pp_start_at_ms plan2" "sched_inv s2" "superseded_only plan1 ?s1 s2"
      "sched_inv (snd (commit_plan plan2 s2))" by blast
  have "schedule_at request plan0 s0 = Some (commit_plan plan2 s2)"
    unfolding schedule_at_eq Let_def s [symmetric] p1 [symmetric]
    using fresh cool arb r(1) by simp
  then show thesis using arb r by (intro that)
qed

text \<open>Every request has an outcome, and the outcome keeps the invariant.\<close>

lemma schedule_at_total:
  assumes inv: "sched_inv s0" and req: "request \<le> u64_max" "pp_start_at_ms plan0 \<le> u64_max"
  shows "\<exists>r s'. schedule_at request plan0 s0 = Some (r, s') \<and> sched_inv s' \<and>
           sch_now_ms s' = max request (sch_now_ms s0)"
proof -
  let ?s = "request_state request s0"
  let ?p = "clamped_plan request plan0 ?s"
  have inv_s: "sched_inv ?s" using inv req by (simp add: sched_inv_request_state)
  then have rej: "sched_inv (?s\<lparr>sch_last_rejection := x\<rparr>)" for x
    by (simp add: sched_inv_def books_ok_def generations_ok_def)
  show ?thesis
  proof (cases "is_live_event (pp_event_id plan0) ?s \<or> pp_start_at_ms ?p < cooldown_of plan0 ?s \<or> outranked ?p ?s")
    case True
    then show ?thesis
      using rej arbitration_None [of request ?p ?s]
      by (auto simp: schedule_at_eq Let_def reject_def)
  next
    case False
    then obtain plan2 s2 pending where
      "schedule_at request plan0 s0 = Some (commit_plan plan2 s2)" "sched_inv (snd (commit_plan plan2 s2))"
      "superseded_only ?p (?s\<lparr>sch_items := apply_cancellations pending (sch_items ?s)\<rparr>) s2"
      using schedule_at_accept [OF inv req refl refl] by (metis not_le)
    then show ?thesis by (auto simp: commit_plan_def Let_def superseded_only_def)
  qed
qed

section \<open>The transition system\<close>

datatype sched_op =
  Op_AdvanceTo u64
| Op_ScheduleAt u64 planned_performance
| Op_StopAll u64
| Op_StopCurrent u64
| Op_CompleteAll
| Op_DrainHistory

fun sched_exec :: "sched_op \<Rightarrow> scheduler \<Rightarrow> scheduler option" where
  "sched_exec (Op_AdvanceTo t) s = Some (advance_to t s)"
| "sched_exec (Op_ScheduleAt r p) s = map_option snd (schedule_at r p s)"
| "sched_exec (Op_StopAll t) s = Some (snd (stop_all t s))"
| "sched_exec (Op_StopCurrent t) s = Some (snd (stop_current t s))"
| "sched_exec Op_CompleteAll s = Some (complete_all s)"
| "sched_exec Op_DrainHistory s = Some (snd (drain_history s))"

text \<open>The arguments are \<open>u64\<close> values.\<close>

fun op_in_range :: "sched_op \<Rightarrow> bool" where
  "op_in_range (Op_AdvanceTo t) = (t \<le> u64_max)"
| "op_in_range (Op_ScheduleAt r p) = (r \<le> u64_max \<and> pp_start_at_ms p \<le> u64_max)"
| "op_in_range (Op_StopAll t) = (t \<le> u64_max)"
| "op_in_range (Op_StopCurrent t) = (t \<le> u64_max)"
| "op_in_range _ = True"

definition sched_init :: "scheduler \<Rightarrow> bool" where
  "sched_init s \<longleftrightarrow> (\<exists>cfg. s = scheduler_new cfg)"

inductive sched_step :: "scheduler \<Rightarrow> scheduler \<Rightarrow> bool" where
  "op_in_range op \<Longrightarrow> sched_exec op s = Some t \<Longrightarrow> sched_step s t"

inductive_simps sched_step_iff: "sched_step s t"

abbreviation sched_reach :: "scheduler \<Rightarrow> bool" where
  "sched_reach \<equiv> reach sched_init sched_step"

lemma sched_inv_init: "sched_init s \<Longrightarrow> sched_inv s"
  by (cases "config_cap (sch_config s)")
    (auto simp: sched_init_def scheduler_new_def sched_inv_def books_ok_def generations_ok_def no_double_booking_def)

lemma sched_exec_inv:
  assumes "sched_inv s" "op_in_range op" "sched_exec op s = Some t"
  shows "sched_inv t"
proof (cases op)
  case (Op_ScheduleAt r p)
  with assms schedule_at_total [of s r p] show ?thesis by auto
next
  case (Op_StopAll u)
  then have "u \<le> u64_max" using assms by simp
  with assms(1) obtain stopped s' where "stop_all u s = (stopped, s')" "sched_inv s'"
    "sch_now_ms s' = max u (sch_now_ms s)" by (rule stop_all_props)
  with Op_StopAll assms(3) show ?thesis by simp
qed (use assms in \<open>auto simp: sched_inv_advance_to sched_inv_stop_current sched_inv_complete_all sched_inv_drain\<close>)

lemma now_stop_current: "sch_now_ms (snd (stop_current t s)) = max t (sch_now_ms s)"
  by (simp add: stop_current_def Let_def split: option.splits)

lemma sched_exec_clock:
  assumes "sched_inv s" "op_in_range op" "sched_exec op s = Some t"
  shows "sch_now_ms s \<le> sch_now_ms t"
proof (cases op)
  case (Op_ScheduleAt r p)
  with assms schedule_at_total [of s r p] show ?thesis by auto
next
  case (Op_StopAll u)
  then have "u \<le> u64_max" using assms by simp
  with assms(1) obtain stopped s' where "stop_all u s = (stopped, s')" "sched_inv s'"
    "sch_now_ms s' = max u (sch_now_ms s)" by (rule stop_all_props)
  with Op_StopAll assms(3) show ?thesis by simp
qed (use assms in \<open>auto simp: now_stop_current complete_all_def Let_def drain_history_def\<close>)

interpretation sched_sys: clocked_system sched_init sched_step sched_inv sch_now_ms
  by unfold_locales (auto simp: sched_inv_init sched_step_iff intro: sched_exec_inv sched_exec_clock)

lemmas reach_sched_inv = sched_sys.reach_inv

lemma sched_exec_total:
  assumes "sched_inv s" "op_in_range op"
  shows "sched_exec op s \<noteq> None"
  using assms schedule_at_total [of s] by (cases op) fastforce+

lemma sched_reach_exec:
  assumes "sched_reach s" "op_in_range op"
  shows "sched_reach (the (sched_exec op s))"
proof (rule reach.reach_step [OF assms(1)])
  have "sched_exec op s = Some (the (sched_exec op s))"
    using sched_exec_total [OF reach_sched_inv [OF assms(1)] assms(2)] by auto
  with assms(2) show "sched_step s (the (sched_exec op s))" by (rule sched_step.intros)
qed

lemma sched_reach_new: "sched_reach (scheduler_new cfg)"
  by (rule reach.reach_init) (auto simp: sched_init_def)

section \<open>The ledger of plans\<close>

text \<open>Every plan the scheduler still knows: live, or retained in the terminal history.\<close>

definition plan_ledger :: "scheduler \<Rightarrow> planned_performance multiset" where
  "plan_ledger s = mset (map si_plan (sch_items s)) + mset (map (\<lambda>h. si_plan (he_item h)) (sch_history s))"

definition retains_all :: "scheduler \<Rightarrow> bool" where
  "retains_all s \<longleftrightarrow> sc_history_policy (sch_config s) = RetainAll"

lemma plan_ledger_retire:
  assumes "i < length (sch_items s)" "retains_all s"
  shows "plan_ledger (retire i t s) = plan_ledger s"
proof -
  have "mset (map si_plan (sch_items s)) =
      add_mset (si_plan (sch_items s ! i)) (mset (map si_plan (swap_remove (sch_items s) i)))"
    using mset_swap_remove [OF assms(1)] by (metis image_mset_add_mset mset_map)
  moreover have "config_cap (sch_config s) = None" using assms(2) by (simp add: retains_all_def config_cap_def)
  ultimately show ?thesis
    by (simp add: plan_ledger_def retire_history history_log.entries_push history_entry_of_def)
qed

lemma plan_ledger_set_item:
  "i < length (sch_items s) \<Longrightarrow> si_plan it = si_plan (sch_items s ! i) \<Longrightarrow> plan_ledger (set_item i it s) = plan_ledger s"
  by (simp add: plan_ledger_def map_update_same)

lemma plan_ledger_note_terminal [simp]: "plan_ledger (note_terminal t s) = plan_ledger s"
  by (simp add: plan_ledger_def)

lemma retains_all_simps [simp]:
  "retains_all (retire i t s) = retains_all s" "retains_all (set_item i it s) = retains_all s"
  "retains_all (note_terminal t s) = retains_all s" "retains_all (finish_item i s) = retains_all s"
  "retains_all (cancel_queued i t s) = retains_all s" "retains_all (advance_to t s) = retains_all s"
  "retains_all (stop_item i t s) = retains_all s" "retains_all (expire_cooldowns t s) = retains_all s"
  by (simp_all add: retains_all_def)

lemma plan_ledger_finish:
  "i < length (sch_items s) \<Longrightarrow> retains_all s \<Longrightarrow> plan_ledger (finish_item i s) = plan_ledger s"
  by (simp add: finish_item_def Let_def plan_ledger_retire plan_ledger_set_item)

lemma plan_ledger_stop_item:
  "i < length (sch_items s) \<Longrightarrow> retains_all s \<Longrightarrow> plan_ledger (stop_item i t s) = plan_ledger s"
  by (simp add: stop_item_def plan_ledger_retire plan_ledger_set_item)

lemma plan_ledger_cancel_queued:
  assumes "i < length (sch_items s)" "retains_all s"
  shows "plan_ledger (cancel_queued i t s) = plan_ledger s"
proof -
  have "plan_ledger (s\<lparr>sch_cooldowns := c\<rparr>) = plan_ledger s" "retains_all (s\<lparr>sch_cooldowns := c\<rparr>) = retains_all s" for s c
    by (simp_all add: plan_ledger_def retains_all_def)
  then show ?thesis
    using assms by (simp add: cancel_queued_def Let_def plan_ledger_retire plan_ledger_set_item)
qed

lemma plan_ledger_advance_to:
  assumes "retains_all s"
  shows "plan_ledger (advance_to t s) = plan_ledger s"
proof -
  let ?P = "\<lambda>s'. plan_ledger s' = plan_ledger s \<and> retains_all s'"
  have "?P (advance_loop u 0 (expire_cooldowns u s))" for u
    by (rule advance_loop_preserves [where P = ?P])
      (use assms in \<open>auto simp: plan_ledger_finish plan_ledger_retire plan_ledger_set_item\<close>,
       simp_all add: plan_ledger_def)
  then show ?thesis by (simp add: advance_to_def Let_def plan_ledger_def)
qed

lemma plan_ledger_resolve_round:
  "resolve_round r is plan s = Some (plan', s') \<Longrightarrow> retains_all s \<Longrightarrow> plan_ledger s' = plan_ledger s \<and> retains_all s'"
  by (induction r "is" plan s rule: resolve_round.induct)
    (auto simp: Let_def plan_ledger_cancel_queued split: if_splits)

lemma plan_ledger_resolve:
  "resolve_reservations r plan s = Some (plan', s') \<Longrightarrow> retains_all s \<Longrightarrow> plan_ledger s' = plan_ledger s \<and> retains_all s'"
proof (induction r plan s rule: resolve_reservations.induct)
  case (1 r plan s)
  show ?case
  proof (cases "overlapping_queued plan (sch_items s)")
    case Nil
    with "1.prems" show ?thesis by (subst (asm) resolve_reservations.simps) simp
  next
    case (Cons i "is")
    with "1.prems"(1) obtain p1 s1 where r1: "resolve_round r (rev (i # is)) plan s = Some (p1, s1)"
      "resolve_reservations r p1 s1 = Some (plan', s')"
      by (subst (asm) resolve_reservations.simps) (auto split: option.splits)
    from plan_ledger_resolve_round [OF r1(1) "1.prems"(2)] "1.IH" [OF Cons r1(1) refl r1(2)] show ?thesis by simp
  qed
qed

lemma plan_ledger_stop_loop:
  "retains_all s \<Longrightarrow> plan_ledger (snd (stop_loop t i stopped s)) = plan_ledger s"
proof (induction "length (sch_items s) - i" arbitrary: i stopped s rule: less_induct)
  case less
  show ?case
  proof (cases "i < length (sch_items s)")
    case i: True
    have again: "plan_ledger (snd (stop_loop t i st s')) = plan_ledger s"
      if "sch_items s' = swap_remove (sch_items s) i" "plan_ledger s' = plan_ledger s" "retains_all s'" for st s'
      using less.hyps [of s' i st] i that by simp
    have "plan_ledger (snd (stop_loop t (Suc i) stopped s)) = plan_ledger s"
      using less.hyps [of s "Suc i"] i less.prems by simp
    with i less.prems again [of "stop_item i t s"] again [of "cancel_queued i t s"] show ?thesis
      by (subst stop_loop.simps; cases "si_status (sch_items s ! i)")
        (simp_all add: Let_def stop_item_def [symmetric] plan_ledger_stop_item plan_ledger_cancel_queued)
  qed (subst stop_loop.simps; simp)
qed

lemma plan_ledger_reject [simp]: "plan_ledger (s\<lparr>sch_last_rejection := x\<rparr>) = plan_ledger s"
  by (simp add: plan_ledger_def)

lemma plan_ledger_commit:
  assumes "commit_plan p s = (r, s')"
  obtains q where "r = Inr q" "plan_ledger s' = add_mset q (plan_ledger s)" "retains_all s' = retains_all s"
  using assms by (fastforce simp: commit_plan_def Let_def plan_ledger_def retains_all_def)

lemma plan_ledger_schedule_at:
  assumes r: "schedule_at request plan s0 = Some (r, s')" and all: "retains_all s0"
  shows "plan_ledger s' = (case r of Inl _ \<Rightarrow> plan_ledger s0 | Inr p \<Rightarrow> add_mset p (plan_ledger s0)) \<and> retains_all s'"
proof -
  let ?s = "request_state request s0" and ?p = "clamped_plan request plan (request_state request s0)"
  have s: "plan_ledger ?s = plan_ledger s0" "retains_all ?s"
    using all plan_ledger_advance_to [of "s0\<lparr>sch_last_rejection := None\<rparr>" request]
    by (simp_all add: request_state_def retains_all_def)
  have canc: "plan_ledger (?s\<lparr>sch_items := apply_cancellations ps (sch_items ?s)\<rparr>) = plan_ledger ?s" for ps
  proof -
    have "map si_plan (apply_cancellations ps (sch_items ?s)) = map si_plan (sch_items ?s)"
      by (rule nth_equalityI) (simp_all add: apply_cancellations_nth)
    then show ?thesis unfolding plan_ledger_def by (simp flip: mset_map)
  qed
  consider (rej) e where "r = Inl e" "s' = ?s\<lparr>sch_last_rejection := Some e\<rparr>"
    | (acc) ps p1 p2 s2 where "commit_plan p2 s2 = (r, s')"
        "resolve_reservations request p1 (?s\<lparr>sch_items := apply_cancellations ps (sch_items ?s)\<rparr>) = Some (p2, s2)"
    using r by (auto simp: schedule_at_eq Let_def reject_def split: if_splits option.splits)
  then show ?thesis
  proof cases
    case rej
    with s show ?thesis by (simp add: retains_all_def)
  next
    case acc
    from plan_ledger_resolve [OF acc(2)] s canc have "plan_ledger s2 = plan_ledger s0" "retains_all s2"
      by (simp_all add: retains_all_def)
    then show ?thesis by (auto intro: plan_ledger_commit [OF acc(1)])
  qed
qed

end
