(* ===== verification/Scheduler_Claims.thy ===== *)
theory Scheduler_Claims
  imports Scheduler_Props
begin

text \<open>
  The properties of the scheduler, each followed by a witness that applies it to a concrete run.
\<close>

section \<open>Concrete runs\<close>

definition demo_plan :: "string \<Rightarrow> priority \<Rightarrow> u64 \<Rightarrow> u64 \<Rightarrow> planned_performance" where
  "demo_plan e prio start dur =
     \<lparr>pp_event_id = e, pp_asset_id = e, pp_priority = prio, pp_interruptible = True,
      pp_interrupt_points_ms = [400, 100], pp_start_at_ms = start, pp_duration_ms = dur,
      pp_generation = 0, pp_exclusive = False, pp_channels = {Ch_Audio, Ch_Face}\<rparr>"

text \<open>One item playing from 0, cut short at its interrupt point 100 by a second reserved behind it.\<close>

definition demo_ops :: "sched_op list" where
  "demo_ops = [Op_ScheduleAt 0 (demo_plan ''a'' P_Commentary 0 5000),
               Op_ScheduleAt 0 (demo_plan ''b'' P_Commentary 9000 1000)]"

fun run_ops :: "sched_op list \<Rightarrow> scheduler \<Rightarrow> scheduler" where
  "run_ops [] s = s"
| "run_ops (op # ops) s = run_ops ops (the (sched_exec op s))"

definition demo_state :: scheduler where
  "demo_state = run_ops demo_ops (scheduler_new default_config)"

lemma sched_reach_run_ops:
  "sched_reach s \<Longrightarrow> (\<forall>op\<in>set ops. op_in_range op) \<Longrightarrow> sched_reach (run_ops ops s)"
  by (induction ops arbitrary: s) (auto intro: sched_reach_exec)

lemma sched_reach_demo: "sched_reach demo_state"
  unfolding demo_state_def
  by (rule sched_reach_run_ops [OF sched_reach_new])
    (simp add: demo_ops_def demo_plan_def u64_max_def)

section \<open>Mutual exclusion on the timeline\<close>

text \<open>
  C1. In every reachable state two different live items that conflict (over a channel, or because one
  is exclusive) never overlap in time, where an item ends at its safe-point cancellation if it has one.
\<close>

theorem reachable_no_double_booking:
  assumes "sched_reach s" "i < length (sch_items s)" "j < length (sch_items s)" "i \<noteq> j"
    and "plans_conflict (si_plan (sch_items s ! i)) (si_plan (sch_items s ! j))"
  shows "\<not> intervals_overlap
           (pp_start_at_ms (si_plan (sch_items s ! i))) (effective_end_ms (sch_items s ! i))
           (pp_start_at_ms (si_plan (sch_items s ! j))) (effective_end_ms (sch_items s ! j))"
proof -
  from reach_sched_inv [OF assms(1)]
  have "ix_ok item_event (sch_items s) (sch_live_by_event s)" and nd: "no_double_booking (set (sch_items s))"
    by (simp_all add: sched_inv_def books_ok_def)
  with assms have "item_event (sch_items s ! i) \<noteq> item_event (sch_items s ! j)"
    by (auto dest: ix_ok_inj)
  with nd assms have "items_disjoint (sch_items s ! i) (sch_items s ! j)"
    by (simp add: no_double_booking_def)
  then show ?thesis by (simp add: items_disjoint_def)
qed

lemma demo_state_items:
  "map (\<lambda>it. (pp_event_id (si_plan it), pp_start_at_ms (si_plan it), effective_end_ms it)) (sch_items demo_state)
     = [(''a'', 0, 100), (''b'', 9000, 10000)]"
  by code_simp

lemma demo_state_conflict:
  "0 < length (sch_items demo_state)" "1 < length (sch_items demo_state)"
  "plans_conflict (si_plan (sch_items demo_state ! 0)) (si_plan (sch_items demo_state ! 1))"
  by code_simp+

lemma reachable_no_double_booking_witness:
  "\<not> intervals_overlap
      (pp_start_at_ms (si_plan (sch_items demo_state ! 0))) (effective_end_ms (sch_items demo_state ! 0))
      (pp_start_at_ms (si_plan (sch_items demo_state ! 1))) (effective_end_ms (sch_items demo_state ! 1))"
  by (rule reachable_no_double_booking [OF sched_reach_demo demo_state_conflict(1,2) _ demo_state_conflict(3)]) simp

section \<open>The liveness indexes\<close>

lemma find_by_index:
  assumes "ix_ok key xs m"
  shows "(case bm_get m k of None \<Rightarrow> None | Some i \<Rightarrow> vec_get xs i) = List.find (\<lambda>x. key x = k) xs"
proof (cases "bm_get m k")
  case None
  with assms have "k \<notin> key ` set xs" using ix_okD [OF assms] by (fastforce simp: in_set_conv_nth)
  then have "List.find (\<lambda>x. key x = k) xs = None" by (auto simp: find_None_iff)
  with None show ?thesis by simp
next
  case (Some i)
  with assms have i: "i < length xs" "key (xs ! i) = k" by (auto simp: ix_ok_def)
  have "\<not> key (xs ! j) = k" if "j < i" for j
    using ix_ok_inj [OF assms, of j i] that i by auto
  with i have "List.find (\<lambda>x. key x = k) xs = Some (xs ! i)"
    unfolding find_Some_iff by blast
  with Some i show ?thesis by (simp add: vec_get_def)
qed

text \<open>
  In every reachable state the event index answers exactly what a search of the live items would,
  there is at most one live item per event, and the same holds for the generation index as long as
  the generation counter has not saturated.
\<close>

theorem liveness_indexes_exact:
  assumes "sched_reach s"
  shows "live_item_by_event e s = List.find (\<lambda>it. pp_event_id (si_plan it) = e) (sch_items s)
       \<and> distinct (map (\<lambda>it. pp_event_id (si_plan it)) (sch_items s))
       \<and> (sch_generation s < u64_max \<longrightarrow>
            live_item_by_generation g s = List.find (\<lambda>it. pp_generation (si_plan it) = g) (sch_items s)
          \<and> is_generation_live g s = (\<exists>it\<in>set (sch_items s). pp_generation (si_plan it) = g))"
proof -
  from reach_sched_inv [OF assms] have ev: "ix_ok item_event (sch_items s) (sch_live_by_event s)"
    and gen: "sch_generation s < u64_max \<Longrightarrow> ix_ok item_gen (sch_items s) (sch_live_by_generation s)"
    by (simp_all add: sched_inv_def books_ok_def generations_ok_def)
  have "is_generation_live g s = (\<exists>it\<in>set (sch_items s). item_gen it = g)"
    if "ix_ok item_gen (sch_items s) (sch_live_by_generation s)"
    using that unfolding is_generation_live_def ix_ok_def by (metis in_set_conv_nth not_None_eq)
  then show ?thesis
    using find_by_index [OF ev, of e] find_by_index [OF gen, of g] ix_ok_distinct [OF ev] gen
    by (simp add: live_item_by_event_def live_item_by_generation_def)
qed

lemma liveness_indexes_exact_witness:
  "live_item_by_event ''b'' demo_state = List.find (\<lambda>it. pp_event_id (si_plan it) = ''b'') (sch_items demo_state)
   \<and> is_generation_live 2 demo_state = (\<exists>it\<in>set (sch_items demo_state). pp_generation (si_plan it) = 2)"
proof -
  have "sch_generation demo_state < u64_max" by code_simp
  then show ?thesis using liveness_indexes_exact [OF sched_reach_demo] by blast
qed

section \<open>Requests\<close>

text \<open>
  C2. Every request made in a reachable state returns (no index panic), and its outcome is decided by
  the state at the request time alone: a live item for the same event is a duplicate; otherwise a start
  inside the asset's cooldown is refused; otherwise a conflicting playing item of strictly higher
  priority wins; otherwise the plan is accepted. A refusal changes nothing but the recorded reason.
\<close>

theorem schedule_at_outcome:
  assumes "sched_reach s0" "request \<le> u64_max" "pp_start_at_ms plan \<le> u64_max"
    and "s = request_state request s0" "p = clamped_plan request plan s"
  shows "\<exists>r s'. schedule_at request plan s0 = Some (r, s')
     \<and> (r = Inl Rej_DuplicateEvent \<longleftrightarrow> is_live_event (pp_event_id plan) s)
     \<and> (r = Inl Rej_Cooldown \<longleftrightarrow>
          \<not> is_live_event (pp_event_id plan) s \<and> pp_start_at_ms p < cooldown_of plan s)
     \<and> (r = Inl Rej_Priority \<longleftrightarrow>
          \<not> is_live_event (pp_event_id plan) s \<and> cooldown_of plan s \<le> pp_start_at_ms p \<and> outranked p s)
     \<and> (\<forall>e. r = Inl e \<longrightarrow> s' = s\<lparr>sch_last_rejection := Some e\<rparr>)"
proof (cases "is_live_event (pp_event_id plan) s \<or> pp_start_at_ms p < cooldown_of plan s \<or> outranked p s")
  case True
  then show ?thesis
    using arbitration_None [of request p s]
    unfolding schedule_at_eq Let_def assms(4,5)
    by (auto simp: reject_def)
next
  case False
  with schedule_at_accept [OF reach_sched_inv [OF assms(1)] assms(2-5)] obtain plan2 s2 where
    "schedule_at request plan s0 = Some (commit_plan plan2 s2)" by (metis not_le)
  with False show ?thesis by (auto simp: commit_plan_def Let_def)
qed

lemma schedule_at_outcome_witness:
  "\<exists>r s'. schedule_at 50 (demo_plan ''c'' P_Background 0 500) demo_state = Some (r, s') \<and> r = Inl Rej_Priority"
proof -
  let ?s = "request_state 50 demo_state" and ?p = "demo_plan ''c'' P_Background 0 500"
  have r: "(50::nat) \<le> u64_max" "pp_start_at_ms ?p \<le> u64_max" by (simp_all add: u64_max_def demo_plan_def)
  have "\<not> is_live_event (pp_event_id ?p) ?s" "cooldown_of ?p ?s \<le> pp_start_at_ms (clamped_plan 50 ?p ?s)"
    "outranked (clamped_plan 50 ?p ?s) ?s" by code_simp+
  with schedule_at_outcome [OF sched_reach_demo r refl refl] show ?thesis by blast
qed

text \<open>The accepted branch with everything it produces spelled out.\<close>

lemma schedule_at_accepted:
  assumes inv: "sched_inv s0" and req: "request \<le> u64_max" "pp_start_at_ms plan \<le> u64_max"
    and s: "s = request_state request s0" and acc: "schedule_at request plan s0 = Some (Inr q, s')"
  obtains cand handoff pending plan2 s2 where
    "arbitration request (clamped_plan request plan s) s = Some (cand, handoff, pending)"
    "commit_plan plan2 s2 = (Inr q, s')"
    "plan2 = (clamped_plan request plan s)\<lparr>pp_start_at_ms := pp_start_at_ms plan2\<rparr>"
    "pp_start_at_ms (clamped_plan request plan s) \<le> pp_start_at_ms plan2" "sched_inv s2"
    "superseded_only (clamped_plan request plan s) (s\<lparr>sch_items := apply_cancellations pending (sch_items s)\<rparr>) s2"
    "\<not> is_live_event (pp_event_id plan) s" "cooldown_of plan s \<le> pp_start_at_ms (clamped_plan request plan s)"
    "sched_inv s'"
proof -
  let ?p = "clamped_plan request plan s"
  have ok: "\<not> is_live_event (pp_event_id plan) s" "cooldown_of plan s \<le> pp_start_at_ms ?p" "\<not> outranked ?p s"
    using acc arbitration_None [of request ?p s]
    by (auto simp: schedule_at_eq Let_def s [symmetric] reject_def split: if_splits option.splits)
  show thesis
    by (rule schedule_at_accept [OF inv req s refl ok]) (use acc ok that in \<open>auto simp: prod_eq_iff\<close>)
qed

section \<open>Reaction spacing\<close>

lemma arbitrate_handoff:
  "arbitrate_playing r rank items is cand term pending = Some (c, t, p) \<Longrightarrow>
     (is = [] \<longrightarrow> t = term) \<and>
     (is \<noteq> [] \<or> term \<noteq> None \<longrightarrow>
        (\<exists>v. t = Some v \<and> (\<forall>i\<in>set is. boundary_of r (si_plan (items ! i)) \<le> v) \<and>
             (\<forall>w. term = Some w \<longrightarrow> w \<le> v)))"
proof (induction r rank items "is" cand "term" pending rule: arbitrate_playing.induct)
  case (2 r rank items i "is" cand "term" pending)
  let ?p = "si_plan (items ! i)"
  from "2.prems" have rank: "\<not> priority_rank (pp_priority ?p) < rank"
    by (auto simp: Let_def split: if_splits)
  from "2.IH" [OF refl rank refl refl refl] "2.prems" rank show ?case
    by (auto simp: Let_def boundary_of_def [symmetric] split: option.splits)
qed auto

lemma resolve_reservations_later:
  "resolve_reservations r plan s = Some (plan', s') \<Longrightarrow> pp_start_at_ms plan \<le> u64_max \<Longrightarrow>
     pp_start_at_ms plan \<le> pp_start_at_ms plan'"
proof (induction r plan s rule: resolve_reservations.induct)
  case (1 r plan s)
  show ?case
  proof (cases "overlapping_queued plan (sch_items s)")
    case Nil
    with "1.prems" show ?thesis by (subst (asm) resolve_reservations.simps) simp
  next
    case (Cons i "is")
    with "1.prems"(1) obtain p1 s1 where r1: "resolve_round r (rev (i # is)) plan s = Some (p1, s1)"
      "resolve_reservations r p1 s1 = Some (plan', s')"
      by (subst (asm) resolve_reservations.simps) (auto split: option.splits)
    from resolve_round_progress [OF r1(1) "1.prems"(2)] "1.IH" [OF Cons r1(1) refl r1(2)] show ?thesis by simp
  qed
qed

text \<open>
  An accepted plan waits: it starts no earlier than the boundary at which each conflicting playing item
  hands over. Below operator priority it keeps the reaction spacing too: from that boundary, or, if no
  playing item conflicts with it, from the last terminal instant.
\<close>

lemma accepted_plan_waits:
  assumes "sched_reach s0" "request \<le> u64_max" "pp_start_at_ms plan \<le> u64_max"
    and "schedule_at request plan s0 = Some (Inr q, s')" "s = request_state request s0"
  shows "(\<forall>it\<in>set (sch_items s). si_status it = Playing \<longrightarrow> plans_conflict (si_plan it) plan \<longrightarrow>
            boundary_of request (si_plan it) \<le> pp_start_at_ms q \<and>
            (pp_priority plan \<noteq> P_Operator \<longrightarrow>
               sadd (boundary_of request (si_plan it)) (sc_min_reaction_spacing_ms (sch_config s0)) \<le> pp_start_at_ms q))
       \<and> (pp_priority plan \<noteq> P_Operator \<longrightarrow>
            (\<forall>it\<in>set (sch_items s). si_status it = Playing \<longrightarrow> \<not> plans_conflict (si_plan it) plan) \<longrightarrow>
            (\<forall>t. sch_last_terminal_at s = Some t \<longrightarrow>
               sadd t (sc_min_reaction_spacing_ms (sch_config s0)) \<le> pp_start_at_ms q))"
proof -
  let ?p = "clamped_plan request plan s" and ?sp = "sc_min_reaction_spacing_ms (sch_config s0)"
  let ?act = "active_indices plan (sch_items s)"
  have inv: "sched_inv s"
    using assms reach_sched_inv [OF assms(1)] sched_inv_request_state by simp
  then have st: "pp_start_at_ms ?p \<le> u64_max" using assms(2,3) by (simp add: sched_inv_def)
  have act: "active_indices ?p (sch_items s) = ?act"
    by (simp add: active_indices_def plans_conflict_def clamped_plan_def normalize_interrupt_points_def)
  obtain cand handoff pending plan2 s1 s2 where
    arb: "arbitration request ?p s = Some (cand, handoff, pending)" and
    res: "resolve_reservations request (?p\<lparr>pp_start_at_ms :=
        spaced_start (pp_priority plan) ?sp cand handoff (sch_last_terminal_at s)\<rparr>) s1 = Some (plan2, s2)" and
    com: "commit_plan plan2 s2 = (Inr q, s')"
    using assms(4) by (auto simp: schedule_at_eq Let_def assms(5) [symmetric] reject_def split: if_splits option.splits)
      (auto simp: assms(5))
  have q: "pp_start_at_ms q = pp_start_at_ms plan2" using com by (auto simp: commit_plan_def Let_def)
  note ap = arbitrate_playing_Some [OF arb [unfolded arbitration_def act]]
  have cand_max: "cand \<le> u64_max" using ap st by simp
  have start: "spaced_start (pp_priority plan) ?sp cand handoff (sch_last_terminal_at s) \<le> pp_start_at_ms q"
    using resolve_reservations_later [OF res] spaced_start_bounds [OF cand_max] q by simp
  then have cand: "cand \<le> pp_start_at_ms q" using spaced_start_bounds [OF cand_max] le_trans by blast
  note h = arbitrate_handoff [OF arb [unfolded arbitration_def act]]
  have hand: "sadd b ?sp \<le> pp_start_at_ms q" if "handoff = Some v" "b \<le> v" "pp_priority plan \<noteq> P_Operator" for b v
  proof -
    have "sadd v ?sp \<le> pp_start_at_ms q" using start that by (simp add: spaced_start_def)
    with sadd_mono [OF that(2) order_refl] show ?thesis by (rule order_trans)
  qed
  have conflicting: "boundary_of request (si_plan it) \<le> pp_start_at_ms q \<and>
      (pp_priority plan \<noteq> P_Operator \<longrightarrow> sadd (boundary_of request (si_plan it)) ?sp \<le> pp_start_at_ms q)"
    if it: "it \<in> set (sch_items s)" "si_status it = Playing" "plans_conflict (si_plan it) plan" for it
  proof -
    from it obtain i where i: "i \<in> set ?act" "it = sch_items s ! i"
      by (auto simp: active_indices_def in_set_conv_nth)
    then have ne: "?act \<noteq> []" by auto
    with h obtain v where "handoff = Some v" "\<forall>i\<in>set ?act. boundary_of request (si_plan (sch_items s ! i)) \<le> v" by auto
    with hand i show ?thesis using ap cand by fastforce
  qed
  have free: "sadd t ?sp \<le> pp_start_at_ms q"
    if "\<forall>it\<in>set (sch_items s). si_status it = Playing \<longrightarrow> \<not> plans_conflict (si_plan it) plan"
      "pp_priority plan \<noteq> P_Operator" "sch_last_terminal_at s = Some t" for t
  proof -
    from that(1) have "?act = []" by (auto simp: active_indices_def)
    with h start that(2,3) show ?thesis by (simp add: spaced_start_def)
  qed
  show ?thesis using conflicting free by blast
qed

text \<open>
  C3. An accepted plan is the requested one with its start, its interrupt points and its generation
  filled in. It starts no earlier than asked, than the request, than the current time, than the asset's
  cooldown, and than the boundary at which each conflicting playing item hands over; below operator
  priority the reaction spacing is kept from that boundary or, without a conflict, from the last terminal
  instant. Its generation is the next one; it is the live item of its event, playing exactly
  if its start is due; and its asset is cooling down until its end plus the reaction spacing.
\<close>

theorem schedule_at_accepts:
  assumes "sched_reach s0" "request \<le> u64_max" "pp_start_at_ms plan \<le> u64_max"
    and "schedule_at request plan s0 = Some (Inr q, s')" "s = request_state request s0"
  shows "q = (normalize_interrupt_points plan)\<lparr>pp_start_at_ms := pp_start_at_ms q,
               pp_generation := sadd (sch_generation s0) 1\<rparr>
     \<and> pp_start_at_ms plan \<le> pp_start_at_ms q \<and> request \<le> pp_start_at_ms q
     \<and> sch_now_ms s0 \<le> pp_start_at_ms q \<and> cooldown_of plan s \<le> pp_start_at_ms q
     \<and> (\<forall>it\<in>set (sch_items s). si_status it = Playing \<longrightarrow> plans_conflict (si_plan it) plan \<longrightarrow>
          boundary_of request (si_plan it) \<le> pp_start_at_ms q \<and>
          (pp_priority plan \<noteq> P_Operator \<longrightarrow>
             sadd (boundary_of request (si_plan it)) (sc_min_reaction_spacing_ms (sch_config s0)) \<le> pp_start_at_ms q))
     \<and> (pp_priority plan \<noteq> P_Operator \<longrightarrow>
          (\<forall>it\<in>set (sch_items s). si_status it = Playing \<longrightarrow> \<not> plans_conflict (si_plan it) plan) \<longrightarrow>
          (\<forall>t. sch_last_terminal_at s = Some t \<longrightarrow>
             sadd t (sc_min_reaction_spacing_ms (sch_config s0)) \<le> pp_start_at_ms q))
     \<and> sch_generation s' = pp_generation q
     \<and> live_item_by_event (pp_event_id plan) s' =
          Some \<lparr>si_plan = q, si_status = (if pp_start_at_ms q \<le> sch_now_ms s' then Playing else Queued),
                si_cancel_at_ms = None\<rparr>
     \<and> bm_get (sch_cooldowns s') (pp_asset_id plan) =
          Some (sadd (end_at_ms q) (sc_min_reaction_spacing_ms (sch_config s0)))"
proof -
  let ?p = "clamped_plan request plan s"
  obtain cand handoff pending plan2 s2 where r:
    "commit_plan plan2 s2 = (Inr q, s')" "plan2 = ?p\<lparr>pp_start_at_ms := pp_start_at_ms plan2\<rparr>"
    "pp_start_at_ms ?p \<le> pp_start_at_ms plan2" "sched_inv s2" "cooldown_of plan s \<le> pp_start_at_ms ?p"
    "superseded_only ?p (s\<lparr>sch_items := apply_cancellations pending (sch_items s)\<rparr>) s2"
    by (rule schedule_at_accepted [OF reach_sched_inv [OF assms(1)] assms(2,3,5,4)])
  have same: "sch_generation s2 = sch_generation s0" "sch_config s2 = sch_config s0"
    using r(6) assms(5) by (simp_all add: superseded_only_def)
  have q: "q = plan2\<lparr>pp_generation := sadd (sch_generation s0) 1\<rparr>" using r(1) same
    by (simp add: commit_plan_def Let_def)
  have ev: "pp_event_id plan2 = pp_event_id plan" "pp_asset_id plan2 = pp_asset_id plan"
    by (subst r(2), simp)+
  have "live_item_by_event (pp_event_id plan) s' =
      Some \<lparr>si_plan = q, si_status = (if pp_start_at_ms q \<le> sch_now_ms s' then Playing else Queued),
            si_cancel_at_ms = None\<rparr>"
    using r(1) ev q by (auto simp: commit_plan_def Let_def live_item_by_event_def vec_get_def same)
  moreover have "bm_get (sch_cooldowns s') (pp_asset_id plan) =
      Some (sadd (end_at_ms q) (sc_min_reaction_spacing_ms (sch_config s0)))"
    using r(1) ev q by (auto simp: commit_plan_def Let_def same end_at_ms_def)
  moreover have "q = (normalize_interrupt_points plan)\<lparr>pp_start_at_ms := pp_start_at_ms q,
      pp_generation := sadd (sch_generation s0) 1\<rparr>"
    by (subst q, subst r(2)) (simp add: q clamped_plan_def normalize_interrupt_points_def)
  moreover have "sch_generation s' = pp_generation q" using r(1) q by (auto simp: commit_plan_def Let_def same)
  moreover have "pp_start_at_ms plan \<le> pp_start_at_ms q \<and> request \<le> pp_start_at_ms q \<and> sch_now_ms s0 \<le> pp_start_at_ms q
      \<and> cooldown_of plan s \<le> pp_start_at_ms q" using r(3,5) q assms(5) by auto
  moreover note accepted_plan_waits [OF assms]
  ultimately show ?thesis by (intro conjI) blast+
qed

text \<open>An operator request that supersedes the reservation of the demo state.\<close>

definition demo_urgent :: planned_performance where
  "demo_urgent = demo_plan ''c'' P_Operator 0 9500"

lemma demo_urgent_accepted:
  obtains q s' where "schedule_at 50 demo_urgent demo_state = Some (Inr q, s')"
    "(50::nat) \<le> u64_max" "pp_start_at_ms demo_urgent \<le> u64_max"
proof -
  have "case schedule_at 50 demo_urgent demo_state of Some (Inr _, _) \<Rightarrow> True | _ \<Rightarrow> False" by code_simp
  moreover have "(50::nat) \<le> u64_max" "pp_start_at_ms demo_urgent \<le> u64_max" by code_simp+
  ultimately show thesis using that by (auto split: option.splits sum.splits)
qed

text \<open>And a comment, which waits for the reaction spacing after the last terminal instant.\<close>

theorem schedule_at_accepts_witness:
  "(\<exists>q s'. schedule_at 50 demo_urgent demo_state = Some (Inr q, s') \<and> 50 \<le> pp_start_at_ms q \<and> pp_generation q = 3) \<and>
   (\<exists>q s'. schedule_at 200 (demo_plan ''c'' P_Commentary 0 500) demo_state = Some (Inr q, s') \<and> 1600 \<le> pp_start_at_ms q)"
proof
  obtain q s' where r: "schedule_at 50 demo_urgent demo_state = Some (Inr q, s')"
    "(50::nat) \<le> u64_max" "pp_start_at_ms demo_urgent \<le> u64_max" by (rule demo_urgent_accepted)
  note p = schedule_at_accepts [OF sched_reach_demo r(2,3,1) refl]
  have "sadd (sch_generation demo_state) 1 = 3" by code_simp
  moreover from p have "pp_generation q = sadd (sch_generation demo_state) 1"
    by (metis planned_performance.select_convs(8) planned_performance.surjective planned_performance.update_convs(8))
  ultimately show "\<exists>q s'. schedule_at 50 demo_urgent demo_state = Some (Inr q, s') \<and> 50 \<le> pp_start_at_ms q \<and> pp_generation q = 3"
    using r(1) p by (intro exI conjI) simp_all
next
  let ?p = "demo_plan ''c'' P_Commentary 0 500" and ?s = "request_state 200 demo_state"
  have "case schedule_at 200 ?p demo_state of Some (Inr _, _) \<Rightarrow> True | _ \<Rightarrow> False" by code_simp
  then obtain q s' where r: "schedule_at 200 ?p demo_state = Some (Inr q, s')"
    by (auto split: option.splits sum.splits)
  have b: "(200::nat) \<le> u64_max" "pp_start_at_ms ?p \<le> u64_max" by code_simp+
  have "active_indices ?p (sch_items ?s) = []" "sch_last_terminal_at ?s = Some 100"
    "sadd 100 (sc_min_reaction_spacing_ms (sch_config demo_state)) = 1600" "pp_priority ?p \<noteq> P_Operator" by code_simp+
  moreover then have "\<forall>it\<in>set (sch_items ?s). si_status it = Playing \<longrightarrow> \<not> plans_conflict (si_plan it) ?p"
    by (auto simp: active_indices_def filter_empty_conv in_set_conv_nth)
  ultimately show "\<exists>q s'. schedule_at 200 ?p demo_state = Some (Inr q, s') \<and> 1600 \<le> pp_start_at_ms q"
    using schedule_at_accepts [OF sched_reach_demo b r refl] r by auto
qed

section \<open>Preemption\<close>

text \<open>
  C4. What an accepted request may do to the items already there. A playing item stays, with its plan;
  its end moves only if the item conflicts with the new plan, does not outrank it, is interruptible,
  and then to one of its declared interrupt points, not before the request. A queued item stays as it
  is unless the new plan has strictly higher priority.
\<close>

theorem preemption_is_bounded:
  assumes "sched_reach s0" "request \<le> u64_max" "pp_start_at_ms plan \<le> u64_max"
    and "schedule_at request plan s0 = Some (Inr q, s')" "s = request_state request s0"
    and "it \<in> set (sch_items s)"
  shows "(si_status it = Playing \<and>
           (\<exists>it'\<in>set (sch_items s'). si_plan it' = si_plan it \<and> si_status it' = Playing \<and>
              (si_cancel_at_ms it' = si_cancel_at_ms it \<or>
               plans_conflict (si_plan it) q \<and> pp_interruptible (si_plan it) \<and>
               priority_rank (pp_priority q) \<le> priority_rank (pp_priority (si_plan it)) \<and>
               (\<exists>off\<in>set (pp_interrupt_points_ms (si_plan it)).
                  si_cancel_at_ms it' = Some (sadd (pp_start_at_ms (si_plan it)) off) \<and>
                  request \<le> sadd (pp_start_at_ms (si_plan it)) off))))
       \<or> (si_status it = Queued \<and>
           (it \<in> set (sch_items s') \<or>
            priority_rank (pp_priority q) < priority_rank (pp_priority (si_plan it))))"
proof -
  let ?p = "clamped_plan request plan s"
  obtain cand handoff pending plan2 s2 where
    arb: "arbitration request ?p s = Some (cand, handoff, pending)" and r:
    "commit_plan plan2 s2 = (Inr q, s')" "plan2 = ?p\<lparr>pp_start_at_ms := pp_start_at_ms plan2\<rparr>"
    "superseded_only ?p (s\<lparr>sch_items := apply_cancellations pending (sch_items s)\<rparr>) s2"
    by (rule schedule_at_accepted [OF reach_sched_inv [OF assms(1)] assms(2,3,5,4)])
  have q: "plans_conflict x q = plans_conflict x ?p" "pp_priority q = pp_priority ?p" for x
  proof -
    have "q = ?p\<lparr>pp_start_at_ms := pp_start_at_ms plan2, pp_generation := pp_generation q\<rparr>"
      using r(1) by (subst (asm) r(2)) (auto simp: commit_plan_def Let_def)
    then obtain a b where "q = ?p\<lparr>pp_start_at_ms := a, pp_generation := b\<rparr>" by blast
    then show "plans_conflict x q = plans_conflict x ?p" "pp_priority q = pp_priority ?p"
      by (simp_all add: plans_conflict_def)
  qed
  have sub: "set (sch_items s2) \<subseteq> set (sch_items s')" using r(1) by (auto simp: commit_plan_def Let_def)
  have lost: "si_status y = Queued \<and> priority_rank (pp_priority ?p) < priority_rank (pp_priority (si_plan y))"
    if "y \<in> set (apply_cancellations pending (sch_items s))" "y \<notin> set (sch_items s')" for y
    using r(3) that sub by (auto simp: superseded_only_def)
  obtain j where j: "j < length (sch_items s)" "it = sch_items s ! j" using assms(6) by (auto simp: in_set_conv_nth)
  define y where "y = apply_cancellations pending (sch_items s) ! j"
  have y: "y \<in> set (apply_cancellations pending (sch_items s))" using j by (simp add: y_def)
  note n = apply_cancellations_nth [OF j(1), of pending, folded y_def j(2)]
  let ?act = "active_indices ?p (sch_items s)"
  from arbitrate_playing_Some [OF arb [unfolded arbitration_def]]
  have pend: "pending = early_boundaries request (sch_items s) ?act" by simp
  have early: "si_status it = Playing \<and> plans_conflict (si_plan it) ?p \<and> b = boundary_of request (si_plan it) \<and>
      b < end_at_ms (si_plan it)" if "(j, b) \<in> set pending" for b
    using that j by (auto simp: pend set_early_boundaries active_indices_def)
  have inv: "item_ok (sch_now_ms s) it"
    using assms reach_sched_inv [OF assms(1)] sched_inv_request_state by (auto simp: sched_inv_def)
  then consider (playing) "si_status it = Playing" | (queued) "si_status it = Queued" by (auto simp: item_ok_def)
  then show ?thesis
  proof cases
    case playing
    with n lost [OF y] have mem: "y \<in> set (sch_items s')" by auto
    show ?thesis
    proof (cases "si_cancel_at_ms y = si_cancel_at_ms it")
      case True
      with playing mem n show ?thesis by (intro disjI1 conjI bexI [of _ y]) simp_all
    next
      case False
      with n obtain b where b: "(j, b) \<in> set pending" "si_cancel_at_ms y = Some b" by blast
      note e = early [OF b(1)]
      have "\<not> outranked ?p s" using arb arbitration_None [of request ?p s] by auto
      with e assms(6) have "priority_rank (pp_priority ?p) \<le> priority_rank (pp_priority (si_plan it))"
        by (auto simp: outranked_def)
      with boundary_of_early [of request "si_plan it"] e b
      have "plans_conflict (si_plan it) q \<and> pp_interruptible (si_plan it) \<and>
          priority_rank (pp_priority q) \<le> priority_rank (pp_priority (si_plan it)) \<and>
          (\<exists>off\<in>set (pp_interrupt_points_ms (si_plan it)).
             si_cancel_at_ms y = Some (sadd (pp_start_at_ms (si_plan it)) off) \<and>
             request \<le> sadd (pp_start_at_ms (si_plan it)) off)"
        unfolding q by auto
      with mem n playing show ?thesis by (rule_tac disjI1, intro conjI bexI [of _ y]) simp_all
    qed
  next
    case queued
    with n early have "si_cancel_at_ms y = si_cancel_at_ms it" by (metis item_status.distinct(1))
    with n have "y = it" by simp
    with queued lost [OF y] show ?thesis unfolding q by auto
  qed
qed

lemma preemption_is_bounded_witness:
  "\<exists>q s' it'. schedule_at 50 demo_urgent demo_state = Some (Inr q, s') \<and> it' \<in> set (sch_items s') \<and>
      pp_event_id (si_plan it') = ''a'' \<and> si_status it' = Playing"
proof -
  obtain q s' where r: "schedule_at 50 demo_urgent demo_state = Some (Inr q, s')"
    "(50::nat) \<le> u64_max" "pp_start_at_ms demo_urgent \<le> u64_max" by (rule demo_urgent_accepted)
  let ?it = "sch_items (request_state 50 demo_state) ! 0"
  have it: "si_status ?it = Playing" "pp_event_id (si_plan ?it) = ''a''" by code_simp+
  have "0 < length (sch_items (request_state 50 demo_state))" by code_simp
  then have "?it \<in> set (sch_items (request_state 50 demo_state))" by simp
  from preemption_is_bounded [OF sched_reach_demo r(2,3,1) refl this] it r(1) show ?thesis by auto
qed


section \<open>Logical time\<close>

text \<open>On a well-formed item, \<open>advance_item\<close> is a function of its start and its effective end.\<close>

definition settle :: "u64 \<Rightarrow> scheduled_item \<Rightarrow> scheduled_item" where
  "settle t it = it\<lparr>si_status := (if pp_start_at_ms (si_plan it) \<le> t then Playing else Queued)\<rparr>"

lemma advance_item_settle:
  assumes "item_ok now it" "now \<le> t"
  shows "advance_item t it = (if t < effective_end_ms it then Some (settle t it) else None)"
proof -
  have le: "pp_start_at_ms (si_plan it) \<le> end_at_ms (si_plan it)"
    using assms by (simp add: item_ok_def end_at_ms_def sadd_ge_left)
  have same: "it\<lparr>si_status := st\<rparr> = it" if "si_status it = st" for st
    using that by (cases it) simp
  from assms(1) consider "si_status it = Queued" "si_cancel_at_ms it = None" | "si_status it = Playing"
    "pp_start_at_ms (si_plan it) \<le> now" by (auto simp: item_ok_def)
  then show ?thesis
  proof cases
    case 1
    then have "effective_end_ms it = end_at_ms (si_plan it)" by (simp add: effective_end_ms_def)
    with 1 le show ?thesis by (auto simp: advance_item_def settle_def same)
  next
    case 2
    with assms(2) show ?thesis by (auto simp: advance_item_def settle_def same)
  qed
qed

lemma map_filter_if:
  "(\<And>x. x \<in> set xs \<Longrightarrow> f x = (if P x then Some (g x) else None)) \<Longrightarrow>
     List.map_filter f xs = map g (filter P xs)"
  by (induction xs) (auto simp: map_filter_simps)

lemma mset_advance_settle:
  assumes "sched_inv s" "T = max t (sch_now_ms s)"
  shows "mset (sch_items (advance_to t s)) =
     mset (map (settle T) (filter (\<lambda>it. T < effective_end_ms it) (sch_items s)))"
  unfolding mset_advance_to assms(2)
  using assms(1) advance_item_settle
  by (subst map_filter_if [where P = "\<lambda>it. max t (sch_now_ms s) < effective_end_ms it" and g = "settle (max t (sch_now_ms s))"])
    (auto simp: sched_inv_def)

text \<open>The history entry of an item that reached its effective end: cancelled if that cut it short.\<close>

definition ended :: "scheduled_item \<Rightarrow> history_entry" where
  "ended it =
     \<lparr>he_terminal_at_ms = effective_end_ms it, he_scheduled_at_ms = pp_start_at_ms (si_plan it),
      he_item = it\<lparr>si_status := (if effective_end_ms it < end_at_ms (si_plan it) then Cancelled else Completed)\<rparr>\<rparr>"

lemma ended_status [simp]: "ended (it\<lparr>si_status := st\<rparr>) = ended it"
  by (simp add: ended_def)

definition latest_terminal :: "u64 option \<Rightarrow> history_entry list \<Rightarrow> u64 option" where
  "latest_terminal l0 hs =
     fold (\<lambda>h l. Some (case l of None \<Rightarrow> he_terminal_at_ms h | Some p \<Rightarrow> max p (he_terminal_at_ms h))) hs l0"

lemma finish_item_history:
  assumes "i < length (sch_items s)"
  shows "sch_history (finish_item i s) = keep_cap (history_cap s) (sch_history s @ [ended (sch_items s ! i)])"
    and "sch_last_terminal_at (finish_item i s) = latest_terminal (sch_last_terminal_at s) [ended (sch_items s ! i)]"
proof -
  let ?it = "sch_items s ! i"
  have "(case si_cancel_at_ms ?it of None \<Rightarrow> False | Some c \<Rightarrow> c < end_at_ms (si_plan ?it)) \<longleftrightarrow>
      effective_end_ms ?it < end_at_ms (si_plan ?it)"
    by (auto simp: effective_end_ms_def split: option.split)
  then show "sch_history (finish_item i s) = keep_cap (history_cap s) (sch_history s @ [ended ?it])"
    using assms by (simp add: finish_item_def Let_def retire_history history_log.entries_push history_entry_of_def ended_def)
  show "sch_last_terminal_at (finish_item i s) = latest_terminal (sch_last_terminal_at s) [ended ?it]"
    by (simp add: finish_item_def Let_def note_terminal_def set_item_def latest_terminal_def ended_def split: option.split)
qed

text \<open>The items due by \<open>t\<close>, as the entries they end as; the loop moves them to the history.\<close>

definition due_entries :: "u64 \<Rightarrow> scheduled_item list \<Rightarrow> history_entry multiset" where
  "due_entries t its = image_mset ended (filter_mset (\<lambda>it. effective_end_ms it \<le> t) (mset its))"

lemma due_entries_remove:
  "i < length its \<Longrightarrow> effective_end_ms (its ! i) \<le> t \<Longrightarrow>
     due_entries t its = add_mset (ended (its ! i)) (due_entries t (swap_remove its i))"
  by (simp add: due_entries_def mset_swap_remove)

lemma due_entries_status:
  assumes "i < length its"
  shows "due_entries t (its[i := (its ! i)\<lparr>si_status := st\<rparr>]) = due_entries t its"
proof -
  have "its ! i \<in># mset its" using assms by simp
  then obtain M where "mset its = add_mset (its ! i) M" by (rule mset_add)
  with assms show ?thesis by (simp add: due_entries_def mset_update)
qed

definition ended_so_far :: "u64 \<Rightarrow> scheduler \<Rightarrow> scheduler \<Rightarrow> bool" where
  "ended_so_far t s s' \<longleftrightarrow>
     sch_config s' = sch_config s \<and> list_all item_shape (sch_items s') \<and>
     (\<exists>hs. sch_history s' = keep_cap (history_cap s) (sch_history s @ hs) \<and>
        sch_last_terminal_at s' = latest_terminal (sch_last_terminal_at s) hs \<and>
        mset hs + due_entries t (sch_items s') = due_entries t (sch_items s))"

lemma ended_so_far_finish:
  assumes "ended_so_far t s s'" "i < length (sch_items s')" "advance_item t (sch_items s' ! i) = None"
  shows "ended_so_far t s (finish_item i s')"
proof -
  obtain hs where hs: "sch_history s' = keep_cap (history_cap s) (sch_history s @ hs)"
    "sch_last_terminal_at s' = latest_terminal (sch_last_terminal_at s) hs"
    "mset hs + due_entries t (sch_items s') = due_entries t (sch_items s)"
    and c: "sch_config s' = sch_config s" and shape: "list_all item_shape (sch_items s')"
    using assms(1) by (auto simp: ended_so_far_def)
  let ?it = "sch_items s' ! i"
  have "item_shape ?it" using shape assms(2) by (simp add: list_all_length)
  then have "effective_end_ms ?it \<le> t"
    using assms(3) by (auto simp: advance_item_def item_shape_def split: item_status.splits if_splits)
  then have "mset (hs @ [ended ?it]) + due_entries t (swap_remove (sch_items s') i) = due_entries t (sch_items s)"
    using hs(3) due_entries_remove [OF assms(2)] by simp
  moreover have "sch_history (finish_item i s') = keep_cap (history_cap s) (sch_history s @ (hs @ [ended ?it]))"
    using finish_item_history(1) [OF assms(2)] hs(1) c by (simp add: keep_cap_append flip: append_assoc)
  moreover have "sch_last_terminal_at (finish_item i s') = latest_terminal (sch_last_terminal_at s) (hs @ [ended ?it])"
    using finish_item_history(2) [OF assms(2)] hs(2) by (simp add: latest_terminal_def)
  moreover have "list_all item_shape (swap_remove (sch_items s') i)"
    using shape set_swap_remove [OF assms(2)] by (auto simp: list_all_iff)
  ultimately show ?thesis using c assms(2) unfolding ended_so_far_def by auto
qed

lemma ended_so_far_advance:
  assumes "sched_inv s"
  shows "ended_so_far (max t (sch_now_ms s)) s (advance_to t s)"
proof -
  let ?T = "max t (sch_now_ms s)"
  have "list_all item_shape (sch_items s)"
    using assms item_ok_shape by (auto simp: sched_inv_def list_all_iff)
  moreover have "within_cap (history_cap s) (sch_history s)" using assms by (simp add: sched_inv_def books_ok_def)
  ultimately have init: "ended_so_far ?T s (expire_cooldowns ?T s)"
    by (simp add: ended_so_far_def keep_cap_small latest_terminal_def exI [of _ "[]"])
  have "ended_so_far ?T s (advance_loop ?T 0 (expire_cooldowns ?T s))"
  proof (rule advance_loop_preserves [of "ended_so_far ?T s"])
    fix s' i assume s': "ended_so_far ?T s s'" "i < length (sch_items s')"
    then have shape: "item_shape (sch_items s' ! i)" by (simp add: ended_so_far_def list_all_length)
    then show "ended_so_far ?T s (retire i ?T s')"
      if "si_status (sch_items s' ! i) = Queued" "si_cancel_at_ms (sch_items s' ! i) = Some c" for c
      using that by (simp add: item_shape_def)
    assume "advance_item ?T (sch_items s' ! i) = Some ((sch_items s' ! i)\<lparr>si_status := Playing\<rparr>)"
    have "item_shape ((sch_items s' ! i)\<lparr>si_status := Playing\<rparr>)"
      using shape by (simp add: item_shape_def occupies_timeline_def)
    then have "list_all item_shape ((sch_items s')[i := (sch_items s' ! i)\<lparr>si_status := Playing\<rparr>])"
      using s' set_update_subset_insert by (fastforce simp: ended_so_far_def list_all_iff)
    then show "ended_so_far ?T s (set_item i ((sch_items s' ! i)\<lparr>si_status := Playing\<rparr>) s')"
      using s' by (auto simp: ended_so_far_def due_entries_status set_item_def)
  qed (use init ended_so_far_finish in auto)
  then show ?thesis by (simp add: advance_to_def Let_def ended_so_far_def)
qed

lemma cooldowns_expired_advance:
  "sch_cooldowns_expired (advance_to t s) =
     sadd (sch_cooldowns_expired s)
       (length (filter (\<lambda>(_, until). until \<le> max t (sch_now_ms s)) (sch_cooldowns s)))"
proof -
  have trim: "sch_cooldowns_expired (trim_history s) = sch_cooldowns_expired s" for s
    by (simp add: trim_history_def split: prod.split)
  have retire: "sch_cooldowns_expired (retire i u s) = sch_cooldowns_expired s" for i u s
    by (simp add: retire_def Let_def trim split: option.split)
  have loop: "sch_cooldowns_expired (advance_loop u i s) = sch_cooldowns_expired s" for u i s
    by (rule advance_loop_preserves [of "\<lambda>s'. sch_cooldowns_expired s' = sch_cooldowns_expired s"])
      (simp_all add: finish_item_def Let_def retire note_terminal_def set_item_def)
  have len: "length m - length (filter (\<lambda>(_, until). u < until) m) = length (filter (\<lambda>(_, until). until \<le> u) m)"
    for u and m :: "(string \<times> u64) list"
    by (induction m) (auto simp: Suc_diff_le not_less)
  show ?thesis by (simp add: advance_to_def Let_def loop expire_cooldowns_def bm_retain_def len)
qed

text \<open>
  C39. Advancing a reachable scheduler to a time \<open>T\<close> retires exactly the items whose effective end is
  not after \<open>T\<close>, and leaves each other item playing if its start is due and queued otherwise. The retired
  items are appended to the history, each once, with its effective end as the terminal instant and marked
  cancelled exactly if that cut it short; the history keeps its capacity, dropping the oldest, and the last
  terminal instant is the latest seen. Exactly the cooldowns that end by \<open>T\<close> are removed, and counted. The
  clock never runs backwards.
\<close>

theorem advance_to_meets_spec:
  assumes "sched_reach s" "T = max t (sch_now_ms s)"
  shows "mset (sch_items (advance_to t s)) =
           {# it\<lparr>si_status := (if pp_start_at_ms (si_plan it) \<le> T then Playing else Queued)\<rparr>.
              it \<in># filter_mset (\<lambda>it. T < effective_end_ms it) (mset (sch_items s)) #}
       \<and> (\<exists>hs. mset hs = image_mset ended (filter_mset (\<lambda>it. effective_end_ms it \<le> T) (mset (sch_items s)))
            \<and> sch_history (advance_to t s) = keep_cap (config_cap (sch_config s)) (sch_history s @ hs)
            \<and> sch_last_terminal_at (advance_to t s) = latest_terminal (sch_last_terminal_at s) hs)
       \<and> sch_cooldowns (advance_to t s) = filter (\<lambda>(_, until). T < until) (sch_cooldowns s)
       \<and> sch_cooldowns_expired (advance_to t s) =
           sadd (sch_cooldowns_expired s) (length (filter (\<lambda>(_, until). until \<le> T) (sch_cooldowns s)))
       \<and> sch_now_ms (advance_to t s) = T"
proof -
  have inv: "sched_inv s" by (rule reach_sched_inv [OF assms(1)])
  note live = mset_advance_settle [OF inv assms(2)]
  have "due_entries T (sch_items (advance_to t s)) = {#}"
    unfolding due_entries_def live by (simp add: settle_def filter_mset_image_mset filter_filter_mset)
  then obtain hs where "mset hs = due_entries T (sch_items s)"
    "sch_history (advance_to t s) = keep_cap (history_cap s) (sch_history s @ hs)"
    "sch_last_terminal_at (advance_to t s) = latest_terminal (sch_last_terminal_at s) hs"
    using ended_so_far_advance [OF inv, of t] by (auto simp: ended_so_far_def assms(2))
  moreover have "sch_cooldowns (advance_to t s) = filter (\<lambda>(_, until). T < until) (sch_cooldowns s)"
    by (simp add: assms(2) bm_retain_def)
  ultimately show ?thesis
    using live cooldowns_expired_advance [of t s] assms(2) by (auto simp: settle_def [abs_def] due_entries_def)
qed

theorem advance_to_meets_spec_witness:
  "mset (map (\<lambda>it. (pp_event_id (si_plan it), si_status it)) (sch_items (advance_to 9500 demo_state)))
     = {# (''b'', Playing) #} \<and>
   sch_cooldowns (advance_to 9500 demo_state) = filter (\<lambda>(_, until). 9500 < until) (sch_cooldowns demo_state)"
proof -
  have "sch_now_ms demo_state \<le> 9500" by code_simp
  then have T: "9500 = max 9500 (sch_now_ms demo_state)" by simp
  have live: "map (\<lambda>it. (pp_event_id (si_plan it), if pp_start_at_ms (si_plan it) \<le> 9500 then Playing else Queued))
      (filter (\<lambda>it. 9500 < effective_end_ms it) (sch_items demo_state)) = [(''b'', Playing)]" by code_simp
  note spec = advance_to_meets_spec [OF sched_reach_demo T]
  from arg_cong [OF live, of mset] conjunct1 [OF spec]
  have "mset (map (\<lambda>it. (pp_event_id (si_plan it), si_status it)) (sch_items (advance_to 9500 demo_state))) = {# (''b'', Playing) #}"
    by (simp add: multiset.map_comp comp_def)
  with spec show ?thesis by blast
qed

lemma settle_settle:
  "u \<le> t \<Longrightarrow> settle t (settle u it) = settle t it"
  by (simp add: settle_def)

lemma effective_end_settle [simp]: "effective_end_ms (settle t it) = effective_end_ms it"
  by (simp add: settle_def)

text \<open>
  Time may be advanced in any number of steps: two advances reach the same live items, clock and
  cooldowns as one advance to the later time.
\<close>

theorem advance_to_compose:
  assumes "sched_reach s" "u \<le> u64_max"
  shows "mset (sch_items (advance_to t (advance_to u s))) = mset (sch_items (advance_to (max u t) s))
       \<and> sch_now_ms (advance_to t (advance_to u s)) = sch_now_ms (advance_to (max u t) s)
       \<and> sch_cooldowns (advance_to t (advance_to u s)) = sch_cooldowns (advance_to (max u t) s)"
proof -
  let ?U = "max u (sch_now_ms s)" and ?T = "max t (max u (sch_now_ms s))"
  have inv: "sched_inv s" using assms reach_sched_inv by simp
  let ?live = "\<lambda>T. filter_mset (\<lambda>it. T < effective_end_ms it)"
  have "mset (sch_items (advance_to t (advance_to u s))) =
      image_mset (settle ?T) (?live ?T (mset (sch_items (advance_to u s))))"
    using mset_advance_settle [OF sched_inv_advance_to [OF inv assms(2)], of ?T t] by simp
  also have "mset (sch_items (advance_to u s)) = image_mset (settle ?U) (?live ?U (mset (sch_items s)))"
    using mset_advance_settle [OF inv, of ?U u] by simp
  also have "image_mset (settle ?T) (?live ?T (image_mset (settle ?U) (?live ?U M))) = image_mset (settle ?T) (?live ?T M)" for M
  proof (induction M)
    case (add x M)
    then show ?case by (auto simp: settle_settle)
  qed simp
  also have "image_mset (settle ?T) (?live ?T (mset (sch_items s))) = mset (sch_items (advance_to (max u t) s))"
    using mset_advance_settle [OF inv, of ?T "max u t"] by (simp add: max.assoc max.left_commute max.commute)
  finally have "mset (sch_items (advance_to t (advance_to u s))) = mset (sch_items (advance_to (max u t) s))" .
  moreover have "sch_cooldowns (advance_to t (advance_to u s)) = sch_cooldowns (advance_to (max u t) s)"
    by (auto simp: bm_retain_def intro!: filter_cong)
  ultimately show ?thesis by (simp add: max.assoc max.left_commute max.commute)
qed

lemma advance_to_compose_witness:
  "sch_now_ms (advance_to 9500 (advance_to 300 demo_state)) = sch_now_ms (advance_to (max 300 9500) demo_state)"
proof -
  have "(300::nat) \<le> u64_max" by code_simp
  from advance_to_compose [OF sched_reach_demo this] show ?thesis by blast
qed

section \<open>Stopping and completing\<close>

text \<open>
  The emergency stop takes back everything: in a reachable state \<open>stop_all\<close> leaves no live item and
  no liveness entry, and returns the plan of every item that was live at the stop time, each once.
\<close>

theorem stop_all_takes_everything:
  assumes "sched_reach s" "t \<le> u64_max" "stop_all t s = (stopped, s')"
  shows "sch_items s' = [] \<and> (\<forall>e. bm_get (sch_live_by_event s') e = None)
       \<and> (sch_generation s < u64_max \<longrightarrow> (\<forall>g. \<not> is_generation_live g s'))
       \<and> mset stopped = mset (map si_plan (sch_items (advance_to t s)))
       \<and> sch_now_ms s' = max t (sch_now_ms s)"
proof -
  from stop_all_props [OF reach_sched_inv [OF assms(1)] assms(2)] assms(3)
  have r: "sched_inv s'" "sch_items s' = []" "mset stopped = mset (map si_plan (sch_items (advance_to t s)))"
    "sch_now_ms s' = max t (sch_now_ms s)" "sch_generation s' = sch_generation s"
    by (metis prod.inject)+
  then have "ix_ok item_event [] (sch_live_by_event s')"
    "sch_generation s < u64_max \<Longrightarrow> ix_ok item_gen [] (sch_live_by_generation s')"
    by (simp_all add: sched_inv_def books_ok_def generations_ok_def)
  then have "bm_get (sch_live_by_event s') e = None"
    "sch_generation s < u64_max \<Longrightarrow> \<not> is_generation_live g s'" for e g
    by (simp_all add: ix_ok_get_None is_generation_live_def)
  with r show ?thesis by blast
qed

lemma stop_all_takes_everything_witness:
  "\<exists>stopped s'. stop_all 50 demo_state = (stopped, s') \<and> sch_items s' = [] \<and> length stopped = 2"
proof -
  obtain stopped s' where r: "stop_all 50 demo_state = (stopped, s')" by fastforce
  have t: "(50::nat) \<le> u64_max" "length (sch_items (advance_to 50 demo_state)) = 2" by code_simp+
  have p: "sch_items s' = [] \<and> mset stopped = mset (map si_plan (sch_items (advance_to 50 demo_state)))"
    using stop_all_takes_everything [OF sched_reach_demo t(1) r] by blast
  then have "length stopped = 2" using t(2) by (metis length_map mset_eq_length)
  with r p show ?thesis by blast
qed

text \<open>
  \<open>complete_all\<close> drains a reachable scheduler: afterwards nothing is live, and the clock stands at
  the last effective end (or where it was).
\<close>

theorem complete_all_drains:
  assumes "sched_reach s"
  shows "sch_items (complete_all s) = [] \<and> sch_now_ms s \<le> sch_now_ms (complete_all s)
       \<and> (\<forall>it\<in>set (sch_items s). effective_end_ms it \<le> sch_now_ms (complete_all s))"
proof -
  have inv: "sched_inv s" using assms by (rule reach_sched_inv)
  then have occ: "filter occupies_timeline (sch_items s) = sch_items s"
    by (auto simp: sched_inv_def item_ok_def occupies_timeline_def intro!: filter_True)
  let ?t = "if sch_items s = [] then sch_now_ms s else Max (effective_end_ms ` set (sch_items s))"
  have c: "complete_all s = advance_to ?t s" by (simp add: complete_all_def Let_def occ)
  have ends: "effective_end_ms it \<le> ?t" if "it \<in> set (sch_items s)" for it
    using that by auto
  then have "filter (\<lambda>it. max ?t (sch_now_ms s) < effective_end_ms it) (sch_items s) = []"
    by (force simp: filter_empty_conv)
  then have "mset (sch_items (advance_to ?t s)) = {#}"
    using mset_advance_settle [OF inv refl, of ?t] by simp
  with ends c show ?thesis by (fastforce simp: le_max_iff_disj)
qed

lemma complete_all_drains_witness: "sch_items (complete_all demo_state) = []"
  using complete_all_drains [OF sched_reach_demo] by blast

section \<open>History and conservation\<close>

text \<open>
  Every record of the terminal history of a reachable scheduler is a completion at the natural end
  of its plan or a cancellation at the instant recorded with it, filed with the plan's start; under the
  ring policy there are never more than the configured capacity.
\<close>

theorem terminal_history_sound:
  assumes "sched_reach s"
  shows "list_all (\<lambda>h. he_scheduled_at_ms h = pp_start_at_ms (si_plan (he_item h)) \<and>
             (case si_status (he_item h) of
                Completed \<Rightarrow> he_terminal_at_ms h = end_at_ms (si_plan (he_item h))
              | Cancelled \<Rightarrow> si_cancel_at_ms (he_item h) = Some (he_terminal_at_ms h)
              | _ \<Rightarrow> False)) (sch_history s)
       \<and> (case sc_history_policy (sch_config s) of
            Ring \<Rightarrow> length (sch_history s) \<le> sc_history_capacity (sch_config s) | RetainAll \<Rightarrow> True)"
proof -
  from reach_sched_inv [OF assms] have "\<forall>h\<in>set (sch_history s). entry_ok h"
    "within_cap (history_cap s) (sch_history s)" by (simp_all add: sched_inv_def books_ok_def)
  then show ?thesis
    by (auto simp: list_all_iff entry_ok_def config_cap_def split: history_policy.split item_status.split)
qed

lemma terminal_history_sound_witness:
  "list_all (\<lambda>h. si_status (he_item h) = Completed \<or> si_status (he_item h) = Cancelled)
     (sch_history (run_ops [Op_AdvanceTo 20000] demo_state))"
proof -
  have "sched_reach (run_ops [Op_AdvanceTo 20000] demo_state)"
    by (rule sched_reach_run_ops [OF sched_reach_demo]) (simp add: u64_max_def)
  from conjunct1 [OF terminal_history_sound [OF this]] show ?thesis
    by (auto simp: list_all_iff split: item_status.splits) (metis item_status.exhaust)
qed

text \<open>The plans accepted along a run.\<close>

fun accepted_plans :: "sched_op list \<Rightarrow> scheduler \<Rightarrow> planned_performance list" where
  "accepted_plans [] s = []"
| "accepted_plans (op # ops) s =
     (case op of
        Op_ScheduleAt r p \<Rightarrow> (case schedule_at r p s of Some (Inr q, _) \<Rightarrow> [q] | _ \<Rightarrow> [])
      | _ \<Rightarrow> []) @ accepted_plans ops (the (sched_exec op s))"

lemma plan_ledger_stop_current:
  assumes "retains_all s"
  shows "plan_ledger (snd (stop_current t s)) = plan_ledger s \<and> retains_all (snd (stop_current t s))"
proof (cases "position_from (\<lambda>it. si_status it = Playing) 0 (sch_items (advance_to t s))")
  case (Some i)
  from position_from_SomeD [OF this] have "i < length (sch_items (advance_to t s))" by simp
  with Some assms show ?thesis
    by (simp add: stop_current_def Let_def stop_item_def [symmetric] plan_ledger_stop_item plan_ledger_advance_to)
qed (use assms in \<open>simp add: stop_current_def Let_def plan_ledger_advance_to\<close>)

lemma plan_ledger_exec:
  assumes "retains_all s" "op \<noteq> Op_DrainHistory" "sched_exec op s = Some s'" "sched_inv s" "op_in_range op"
  shows "plan_ledger s' = plan_ledger s + mset (accepted_plans [op] s) \<and> retains_all s'"
proof (cases op)
  case (Op_ScheduleAt r p)
  with assms(3) obtain x where x: "schedule_at r p s = Some (x, s')" by auto
  from plan_ledger_schedule_at [OF this assms(1)] Op_ScheduleAt x show ?thesis by (cases x) auto
next
  case (Op_StopAll t)
  have "plan_ledger (snd (stop_all t s)) = plan_ledger s"
    using assms(1) plan_ledger_stop_loop [of "advance_to t s" t 0 "[]"]
    by (simp add: stop_all_def plan_ledger_advance_to)
  moreover have "retains_all (snd (stop_all t s))"
    using assms Op_StopAll stop_all_props [OF assms(4), of t]
    by (metis op_in_range.simps(3) retains_all_def snd_conv)
  ultimately show ?thesis using Op_StopAll assms(3) by auto
next
  case (Op_StopCurrent t)
  with assms plan_ledger_stop_current show ?thesis by auto
qed (use assms in \<open>auto simp: plan_ledger_advance_to complete_all_def Let_def\<close>)

lemma plan_ledger_run:
  assumes "sched_reach s" "retains_all s" "\<forall>op\<in>set ops. op_in_range op \<and> op \<noteq> Op_DrainHistory"
  shows "plan_ledger (run_ops ops s) = plan_ledger s + mset (accepted_plans ops s)"
  using assms
proof (induction ops arbitrary: s)
  case (Cons op ops)
  let ?t = "the (sched_exec op s)"
  have op: "op_in_range op" "op \<noteq> Op_DrainHistory" using Cons.prems by auto
  note inv = reach_sched_inv [OF Cons.prems(1)]
  have e: "sched_exec op s = Some ?t" using sched_exec_total [OF inv op(1)] by auto
  note st = plan_ledger_exec [OF Cons.prems(2) op(2) e inv op(1)]
  have "accepted_plans (op # ops) s = accepted_plans [op] s @ accepted_plans ops ?t" by simp
  moreover have "plan_ledger (run_ops ops ?t) = plan_ledger ?t + mset (accepted_plans ops ?t)"
    using Cons st sched_reach_exec [OF Cons.prems(1) op(1)] by simp
  ultimately show ?case using st by (simp only: run_ops.simps mset_append add.assoc)
qed simp

text \<open>
  Conservation: a scheduler that retains its history and is never drained accounts for every plan.
  After any sequence of operations, the live plans together with the terminal records are exactly the
  accepted plans, each as often as it was accepted.
\<close>

theorem plans_conserved:
  assumes "sc_history_policy cfg = RetainAll" "\<forall>op\<in>set ops. op_in_range op \<and> op \<noteq> Op_DrainHistory"
    and "s = run_ops ops (scheduler_new cfg)"
  shows "mset (map si_plan (sch_items s)) + mset (map (\<lambda>h. si_plan (he_item h)) (sch_history s)) =
           mset (accepted_plans ops (scheduler_new cfg))"
proof -
  have "retains_all (scheduler_new cfg)" using assms(1) by (simp add: retains_all_def scheduler_new_def)
  from plan_ledger_run [OF sched_reach_new this assms(2)] show ?thesis
    by (simp add: assms(3) plan_ledger_def scheduler_new_def)
qed

lemma plans_conserved_witness:
  "\<exists>s. s = run_ops (demo_ops @ [Op_ScheduleAt 50 demo_urgent, Op_StopAll 60]) (scheduler_new replay_config) \<and>
     length (sch_items s) + length (sch_history s) = 3"
proof -
  let ?ops = "demo_ops @ [Op_ScheduleAt 50 demo_urgent, Op_StopAll 60]"
  let ?s = "run_ops ?ops (scheduler_new replay_config)"
  have "sc_history_policy replay_config = RetainAll" by (simp add: replay_config_def)
  moreover have "\<forall>op\<in>set ?ops. op_in_range op \<and> op \<noteq> Op_DrainHistory"
    by (simp add: demo_ops_def demo_urgent_def demo_plan_def u64_max_def)
  ultimately have "size (mset (map si_plan (sch_items ?s)) + mset (map (\<lambda>h. si_plan (he_item h)) (sch_history ?s))) =
      size (mset (accepted_plans ?ops (scheduler_new replay_config)))"
    using plans_conserved by metis
  moreover have "length (accepted_plans ?ops (scheduler_new replay_config)) = 3" by code_simp
  ultimately show ?thesis by simp
qed

end
