(* ===== verification/Domain_Tool.thy ===== *)
theory Domain_Tool
  imports Prelude
begin

text \<open>
  Tool results and their verification (\<open>crates/domain/src/interfaces.rs\<close>): the result class, the bounded
  result record with its constructor, the commit fence and \<open>verify_tool_result\<close>. The JSON content is a
  third-party value of type \<open>'v\<close>; \<open>serde_json::to_vec\<close> and \<open>Value::pointer\<close> are parameters.
\<close>

datatype engine_error_kind =
  EEK_Timeout | EEK_Unavailable | EEK_RateLimited | EEK_Overloaded | EEK_Authentication
| EEK_Unauthorized | EEK_InvalidRequest | EEK_Backend

record engine_error =
  ee_kind :: engine_error_kind
  ee_message :: string

definition engine_error_new :: "engine_error_kind \<Rightarrow> string \<Rightarrow> engine_error" where
  "engine_error_new kind message = \<lparr>ee_kind = kind, ee_message = message\<rparr>"

datatype tool_result_class = TRC_Success | TRC_ToolError | TRC_Malformed

record 'v tool_execution_result =
  ter_server :: string
  ter_tool :: string
  ter_operation :: string
  ter_class :: tool_result_class
  ter_content :: "'v option"
  ter_schema_fingerprint :: "string option"
  ter_latency_ms :: u64

definition MAX_TOOL_OBSERVATION_BYTES :: nat where
  "MAX_TOOL_OBSERVATION_BYTES = 32 * 1024"

text \<open>\<open>to_vec\<close> gives the error text or the serialized bytes.\<close>

definition tool_execution_result_new ::
  "('v tool_execution_result \<Rightarrow> string + string) \<Rightarrow> string \<Rightarrow> string \<Rightarrow> string \<Rightarrow> tool_result_class \<Rightarrow>
     'v option \<Rightarrow> string option \<Rightarrow> u64 \<Rightarrow> engine_error + 'v tool_execution_result" where
  "tool_execution_result_new to_vec server tool operation class content fingerprint latency =
     (if server = [] \<or> tool = [] \<or> operation = []
      then Inl (engine_error_new EEK_InvalidRequest ''tool observation identity must be non-empty'')
      else
        let r = \<lparr>ter_server = server, ter_tool = tool, ter_operation = operation, ter_class = class,
                 ter_content = content, ter_schema_fingerprint = fingerprint, ter_latency_ms = latency\<rparr>
        in case to_vec r of
             Inl e \<Rightarrow> Inl (engine_error_new EEK_InvalidRequest (''tool observation is not serializable: '' @ e))
           | Inr bytes \<Rightarrow>
               if MAX_TOOL_OBSERVATION_BYTES < length bytes
               then Inl (engine_error_new EEK_InvalidRequest ''tool observation exceeds the bounded result limit'')
               else Inr r)"

datatype tool_verification_outcome = TVO_Verified | TVO_Failed | TVO_NotProven | TVO_Cancelled | TVO_Stale

definition tvo_is_verified :: "tool_verification_outcome \<Rightarrow> bool" where
  "tvo_is_verified v \<longleftrightarrow> v = TVO_Verified"

record tool_commit_fence =
  tcf_expected_generation :: u64
  tcf_observed_generation :: u64
  tcf_cancelled :: bool

datatype 'v tool_verification_rule = JsonEquals string 'v

definition verify_tool_result ::
  "('v \<Rightarrow> string \<Rightarrow> 'v option) \<Rightarrow> 'v tool_execution_result \<Rightarrow> string \<Rightarrow> string \<Rightarrow> tool_commit_fence \<Rightarrow>
     'v tool_verification_rule \<Rightarrow> tool_verification_outcome" where
  "verify_tool_result pointer_of r expected_tool expected_operation fence rule =
     (if tcf_cancelled fence then TVO_Cancelled
      else if tcf_expected_generation fence \<noteq> tcf_observed_generation fence then TVO_Stale
      else if ter_tool r \<noteq> expected_tool \<or> ter_operation r \<noteq> expected_operation then TVO_Failed
      else if ter_class r \<noteq> TRC_Success then TVO_Failed
      else case ter_content r of
             None \<Rightarrow> TVO_NotProven
           | Some content \<Rightarrow>
               (case rule of JsonEquals pointer expected \<Rightarrow>
                  if pointer_of content pointer = Some expected then TVO_Verified else TVO_NotProven))"

lemma verify_tool_result_verified:
  "verify_tool_result p r t op fence (JsonEquals ptr v) = TVO_Verified \<longleftrightarrow>
     \<not> tcf_cancelled fence \<and> tcf_expected_generation fence = tcf_observed_generation fence \<and>
     ter_tool r = t \<and> ter_operation r = op \<and> ter_class r = TRC_Success \<and>
     (\<exists>c. ter_content r = Some c \<and> p c ptr = Some v)"
  by (auto simp: verify_tool_result_def split: option.split)

end
