(* ===== verification/Domain_Task.thy ===== *)
theory Domain_Task
  imports Domain_Tool
begin

text \<open>
  The agent task of \<open>crates/domain/src/task.rs\<close>: its state machine with steps, observations,
  bounds and generation fence. Every operation takes the task and returns the result together with the
  task, which an error may leave changed; the two operations that index \<open>steps\<close> directly return an
  option, with \<open>None\<close> for the index panic.
\<close>

section \<open>Data\<close>

datatype task_id = TaskId string

fun task_id_as_str :: "task_id \<Rightarrow> string" where
  "task_id_as_str (TaskId s) = s"

text \<open>The derived order compares the strings.\<close>

instantiation task_id :: linorder
begin

definition less_eq_task_id :: "task_id \<Rightarrow> task_id \<Rightarrow> bool" where
  "less_eq_task_id a b \<longleftrightarrow> task_id_as_str a \<le> task_id_as_str b"

definition less_task_id :: "task_id \<Rightarrow> task_id \<Rightarrow> bool" where
  "less_task_id a b \<longleftrightarrow> task_id_as_str a < task_id_as_str b"

instance
proof
  fix x y :: task_id
  show "x \<le> y \<Longrightarrow> y \<le> x \<Longrightarrow> x = y"
    by (cases x; cases y) (simp add: less_eq_task_id_def)
qed (auto simp: less_eq_task_id_def less_task_id_def)

end

definition MAX_TASK_ID_BYTES :: nat where "MAX_TASK_ID_BYTES = 128"
definition MAX_TASK_REQUEST_BYTES :: nat where "MAX_TASK_REQUEST_BYTES = 4 * 1024"
definition MAX_TASK_STEP_BYTES :: nat where "MAX_TASK_STEP_BYTES = 1024"
definition MAX_TASK_REASON_BYTES :: nat where "MAX_TASK_REASON_BYTES = 1024"
definition MAX_TASK_STEPS_HARD :: nat where "MAX_TASK_STEPS_HARD = 64"
definition MAX_TASK_OBSERVATIONS_HARD :: nat where "MAX_TASK_OBSERVATIONS_HARD = 64"
definition MAX_TASK_RETRIES_HARD :: nat where "MAX_TASK_RETRIES_HARD = 16"
definition MAX_TASK_REPLANS_HARD :: nat where "MAX_TASK_REPLANS_HARD = 16"
definition MAX_TASK_LIFETIME_MS_HARD :: nat where "MAX_TASK_LIFETIME_MS_HARD = 24 * 60 * 60 * 1000"
definition MAX_TASK_PENDING_TTL_MS_HARD :: nat where "MAX_TASK_PENDING_TTL_MS_HARD = 60 * 60 * 1000"

record task_limits =
  tl_max_steps :: usize
  tl_max_observations :: usize
  tl_max_retries :: u32
  tl_max_replans :: u32
  tl_max_lifetime_ms :: u64
  tl_max_pending_ttl_ms :: u64

definition default_task_limits :: task_limits where
  "default_task_limits =
     \<lparr>tl_max_steps = 16, tl_max_observations = 8, tl_max_retries = 2, tl_max_replans = 2,
      tl_max_lifetime_ms = 15 * 60 * 1000, tl_max_pending_ttl_ms = 5 * 60 * 1000\<rparr>"

datatype task_step_state = Step_Pending | Step_Executing | Step_Executed

record task_step =
  tst_index :: usize
  tst_description :: string
  tst_state :: task_step_state

datatype pending_commitment_kind = Approval | Dependency

record pending_commitment =
  pc_kind :: pending_commitment_kind
  pc_summary :: string
  pc_expires_at_ms :: u64

datatype task_verification_outcome = VO_Verified | VO_Failed | VO_NotVerified | VO_Cancelled | VO_Stale

record verification_result =
  vr_outcome :: task_verification_outcome
  vr_reason :: "string option"

datatype task_outcome =
  TO_Completed | TO_Failed string | TO_Cancelled string | TO_NotVerified string | TO_Expired

datatype task_state =
  TS_Accepted | TS_Planning | TS_Ready | TS_Waiting pending_commitment
| TS_Executing usize u64 | TS_Verifying u64
| TS_Completed | TS_Failed | TS_Cancelled | TS_NotVerified | TS_Expired

datatype task_state_kind =
  TK_Accepted | TK_Planning | TK_Ready | TK_WaitingApproval | TK_WaitingDependency | TK_Executing
| TK_Verifying | TK_Completed | TK_Failed | TK_Cancelled | TK_NotVerified | TK_Expired

fun state_kind :: "task_state \<Rightarrow> task_state_kind" where
  "state_kind TS_Accepted = TK_Accepted"
| "state_kind TS_Planning = TK_Planning"
| "state_kind TS_Ready = TK_Ready"
| "state_kind (TS_Waiting c) =
     (case pc_kind c of Approval \<Rightarrow> TK_WaitingApproval | Dependency \<Rightarrow> TK_WaitingDependency)"
| "state_kind (TS_Executing _ _) = TK_Executing"
| "state_kind (TS_Verifying _) = TK_Verifying"
| "state_kind TS_Completed = TK_Completed"
| "state_kind TS_Failed = TK_Failed"
| "state_kind TS_Cancelled = TK_Cancelled"
| "state_kind TS_NotVerified = TK_NotVerified"
| "state_kind TS_Expired = TK_Expired"

definition kind_is_terminal :: "task_state_kind \<Rightarrow> bool" where
  "kind_is_terminal k \<longleftrightarrow>
     k = TK_Completed \<or> k = TK_Failed \<or> k = TK_Cancelled \<or> k = TK_NotVerified \<or> k = TK_Expired"

datatype task_transition_reason =
  TR_PlanningStarted | TR_PlanReady | TR_ApprovalPending | TR_DependencyPending
| TR_CommitmentSatisfied | TR_StepStarted | TR_StepFinished | TR_RetryScheduled | TR_ReplanStarted
| TR_VerificationPassed | TR_VerificationFailed | TR_VerificationNotProven
| TR_VerificationCancelled | TR_VerificationStale | TR_Cancelled | TR_TaskExpired
| TR_CommitmentExpired

record task_transition =
  tt_task_id :: task_id
  tt_from :: task_state_kind
  tt_to :: task_state_kind
  tt_reason :: task_transition_reason
  tt_at_ms :: u64
  tt_generation :: u64
  tt_retries :: u32
  tt_replans :: u32

record 'v task_observation =
  tob_step_index :: usize
  tob_generation :: u64
  tob_result :: "'v tool_execution_result"
  tob_verification :: tool_verification_outcome

record 'v agent_task =
  at_id :: task_id
  at_requested_outcome :: string
  at_state :: task_state
  at_steps :: "task_step list"
  at_observations :: "'v task_observation list"
  at_limits :: task_limits
  at_created_at_ms :: u64
  at_updated_at_ms :: u64
  at_expires_at_ms :: u64
  at_generation :: u64
  at_retries :: u32
  at_replans :: u32
  at_outcome :: "task_outcome option"

datatype task_error =
  TE_InvalidConfiguration string
| TE_InvalidText string nat
| TE_InvalidTransition task_state_kind string
| TE_PlanHasNoSteps
| TE_StepLimitExceeded
| TE_StepOutOfRange usize
| TE_StepNotPending usize
| TE_RetryLimitExceeded
| TE_ReplanLimitExceeded
| TE_InvalidPendingTtl
| TE_StaleGeneration u64 u64
| TE_GenerationExhausted
| TE_NonMonotonicTime u64 u64

type_synonym ('v, 'a) task_result = "(task_error + 'a) \<times> 'v agent_task"

section \<open>Constructors and checks\<close>

definition validate_text :: "string \<Rightarrow> string \<Rightarrow> nat \<Rightarrow> task_error + unit" where
  "validate_text field v max_bytes =
     (if trim_is_empty v \<or> max_bytes < length v then Inl (TE_InvalidText field max_bytes) else Inr ())"

definition task_id_new :: "string \<Rightarrow> task_error + task_id" where
  "task_id_new v = rbind (validate_text ''task_id'' v MAX_TASK_ID_BYTES) (\<lambda>_. Inr (TaskId v))"

definition task_limits_validate :: "task_limits \<Rightarrow> task_error + task_limits" where
  "task_limits_validate l =
     (if tl_max_steps l = 0 \<or> MAX_TASK_STEPS_HARD < tl_max_steps l
      then Inl (TE_InvalidConfiguration ''max_steps'')
      else if tl_max_observations l = 0 \<or> MAX_TASK_OBSERVATIONS_HARD < tl_max_observations l
      then Inl (TE_InvalidConfiguration ''max_observations'')
      else if MAX_TASK_RETRIES_HARD < tl_max_retries l then Inl (TE_InvalidConfiguration ''max_retries'')
      else if MAX_TASK_REPLANS_HARD < tl_max_replans l then Inl (TE_InvalidConfiguration ''max_replans'')
      else if tl_max_lifetime_ms l = 0 \<or> MAX_TASK_LIFETIME_MS_HARD < tl_max_lifetime_ms l
      then Inl (TE_InvalidConfiguration ''max_lifetime_ms'')
      else if tl_max_pending_ttl_ms l = 0 \<or> MAX_TASK_PENDING_TTL_MS_HARD < tl_max_pending_ttl_ms l
            \<or> tl_max_lifetime_ms l < tl_max_pending_ttl_ms l
      then Inl (TE_InvalidConfiguration ''max_pending_ttl_ms'')
      else Inr l)"

definition with_reason :: "task_verification_outcome \<Rightarrow> string \<Rightarrow> task_error + verification_result" where
  "with_reason outcome reason =
     rbind (validate_text ''verification_reason'' reason MAX_TASK_REASON_BYTES)
       (\<lambda>_. Inr \<lparr>vr_outcome = outcome, vr_reason = Some reason\<rparr>)"

definition vr_verified :: verification_result where
  "vr_verified = \<lparr>vr_outcome = VO_Verified, vr_reason = None\<rparr>"

definition agent_task_new :: "task_id \<Rightarrow> string \<Rightarrow> u64 \<Rightarrow> task_limits \<Rightarrow> task_error + 'v agent_task" where
  "agent_task_new tid requested created limits0 =
     rbind (task_limits_validate limits0) (\<lambda>limits.
     rbind (validate_text ''requested_outcome'' requested MAX_TASK_REQUEST_BYTES) (\<lambda>_.
       Inr \<lparr>at_id = tid, at_requested_outcome = requested, at_state = TS_Accepted, at_steps = [],
            at_observations = [], at_limits = limits, at_created_at_ms = created,
            at_updated_at_ms = created,
            at_expires_at_ms = sadd created (tl_max_lifetime_ms limits),
            at_generation = 0, at_retries = 0, at_replans = 0, at_outcome = None\<rparr>))"

definition task_is_terminal :: "'v agent_task \<Rightarrow> bool" where
  "task_is_terminal t \<longleftrightarrow> kind_is_terminal (state_kind (at_state t))"

definition last_verified_observation :: "'v agent_task \<Rightarrow> 'v task_observation option" where
  "last_verified_observation t =
     List.find (\<lambda>ob. tob_verification ob = TVO_Verified) (rev (at_observations t))"

definition ensure_monotonic_time :: "u64 \<Rightarrow> 'v agent_task \<Rightarrow> task_error + unit" where
  "ensure_monotonic_time now t =
     (if now < at_updated_at_ms t then Inl (TE_NonMonotonicTime (at_updated_at_ms t) now) else Inr ())"

definition invalid_transition :: "string \<Rightarrow> 'v agent_task \<Rightarrow> task_error" where
  "invalid_transition action t = TE_InvalidTransition (state_kind (at_state t)) action"

definition require_state :: "task_state_kind \<Rightarrow> string \<Rightarrow> 'v agent_task \<Rightarrow> task_error + unit" where
  "require_state expected action t =
     (if state_kind (at_state t) = expected then Inr () else Inl (invalid_transition action t))"

text \<open>An early return with an error leaves the task as it is at that point.\<close>

definition guard :: "(task_error + unit) \<Rightarrow> 'v agent_task \<Rightarrow> ('v, 'a) task_result \<Rightarrow> ('v, 'a) task_result" where
  "guard c t k = (case c of Inl e \<Rightarrow> (Inl e, t) | Inr _ \<Rightarrow> k)"

definition transition_to ::
  "task_state \<Rightarrow> task_transition_reason \<Rightarrow> u64 \<Rightarrow> 'v agent_task \<Rightarrow> ('v, task_transition) task_result" where
  "transition_to next reason now t =
     (if now < at_updated_at_ms t then (Inl (TE_NonMonotonicTime (at_updated_at_ms t) now), t)
      else
        (Inr \<lparr>tt_task_id = at_id t, tt_from = state_kind (at_state t), tt_to = state_kind next,
              tt_reason = reason, tt_at_ms = now, tt_generation = at_generation t,
              tt_retries = at_retries t, tt_replans = at_replans t\<rparr>,
         t\<lparr>at_state := next, at_updated_at_ms := now\<rparr>))"

text \<open>\<open>self.generation = self.generation.checked_add(1).ok_or(GenerationExhausted)?\<close>\<close>

definition bump_generation ::
  "'v agent_task \<Rightarrow> ('v agent_task \<Rightarrow> ('v, 'a) task_result) \<Rightarrow> ('v, 'a) task_result" where
  "bump_generation t k =
     (case cadd (at_generation t) 1 of
        None \<Rightarrow> (Inl TE_GenerationExhausted, t)
      | Some g \<Rightarrow> k (t\<lparr>at_generation := g\<rparr>))"

section \<open>Operations\<close>

definition begin_planning :: "u64 \<Rightarrow> 'v agent_task \<Rightarrow> ('v, task_transition) task_result" where
  "begin_planning now t =
     guard (require_state TK_Accepted ''begin_planning'' t) t
       (transition_to TS_Planning TR_PlanningStarted now t)"

definition add_step :: "string \<Rightarrow> 'v agent_task \<Rightarrow> ('v, usize) task_result" where
  "add_step description t =
     guard (require_state TK_Planning ''add_step'' t) t
       (if tl_max_steps (at_limits t) \<le> length (at_steps t) then (Inl TE_StepLimitExceeded, t)
        else guard (validate_text ''step_description'' description MAX_TASK_STEP_BYTES) t
          (let index = length (at_steps t)
           in (Inr index,
               t\<lparr>at_steps := at_steps t @
                   [\<lparr>tst_index = index, tst_description = description, tst_state = Step_Pending\<rparr>]\<rparr>)))"

definition mark_ready :: "u64 \<Rightarrow> 'v agent_task \<Rightarrow> ('v, task_transition) task_result" where
  "mark_ready now t =
     guard (require_state TK_Planning ''mark_ready'' t) t
       (if at_steps t = [] then (Inl TE_PlanHasNoSteps, t)
        else transition_to TS_Ready TR_PlanReady now t)"

definition wait_for ::
  "pending_commitment_kind \<Rightarrow> string \<Rightarrow> u64 \<Rightarrow> u64 \<Rightarrow> 'v agent_task \<Rightarrow> ('v, task_transition) task_result" where
  "wait_for kind summary ttl now t =
     guard (require_state TK_Ready ''wait_for'' t) t
       (if ttl = 0 \<or> tl_max_pending_ttl_ms (at_limits t) < ttl then (Inl TE_InvalidPendingTtl, t)
        else guard (validate_text ''pending_summary'' summary MAX_TASK_REASON_BYTES) t
          (let expires = min (sadd now ttl) (at_expires_at_ms t);
               reason = (case kind of Approval \<Rightarrow> TR_ApprovalPending | Dependency \<Rightarrow> TR_DependencyPending)
           in transition_to
                (TS_Waiting \<lparr>pc_kind = kind, pc_summary = summary, pc_expires_at_ms = expires\<rparr>) reason now t))"

definition expire_if_needed :: "u64 \<Rightarrow> 'v agent_task \<Rightarrow> ('v, task_transition option) task_result" where
  "expire_if_needed now t =
     (if task_is_terminal t then (Inr None, t)
      else guard (ensure_monotonic_time now t) t
        (if at_expires_at_ms t \<le> now then
           bump_generation t (\<lambda>t1.
             let t2 = t1\<lparr>at_outcome := Some TO_Expired\<rparr>;
                 (r, t3) = transition_to TS_Expired TR_TaskExpired now t2
             in (map_sum id Some r, t3))
         else
           case (case at_state t of
                   TS_Waiting c \<Rightarrow> if pc_expires_at_ms c \<le> now then Some (pc_kind c) else None
                 | _ \<Rightarrow> None) of
             None \<Rightarrow> (Inr None, t)
           | Some kind \<Rightarrow>
               bump_generation t (\<lambda>t1.
                 let reason = (case kind of Approval \<Rightarrow> ''pending approval expired''
                               | Dependency \<Rightarrow> ''pending dependency expired'');
                     t2 = t1\<lparr>at_outcome := Some (TO_NotVerified reason)\<rparr>;
                     (r, t3) = transition_to TS_NotVerified TR_CommitmentExpired now t2
                 in (map_sum id Some r, t3))))"

definition resume :: "u64 \<Rightarrow> 'v agent_task \<Rightarrow> ('v, task_transition) task_result" where
  "resume now t =
     (case at_state t of
        TS_Waiting _ \<Rightarrow>
          (case expire_if_needed now t of
             (Inl e, t1) \<Rightarrow> (Inl e, t1)
           | (Inr (Some tr), t1) \<Rightarrow> (Inr tr, t1)
           | (Inr None, t1) \<Rightarrow> transition_to TS_Ready TR_CommitmentSatisfied now t1)
      | _ \<Rightarrow> (Inl (invalid_transition ''resume'' t), t))"

definition set_step_state :: "usize \<Rightarrow> task_step_state \<Rightarrow> 'v agent_task \<Rightarrow> 'v agent_task" where
  "set_step_state i st t = t\<lparr>at_steps := (at_steps t)[i := (at_steps t ! i)\<lparr>tst_state := st\<rparr>]\<rparr>"

definition begin_execution :: "usize \<Rightarrow> u64 \<Rightarrow> 'v agent_task \<Rightarrow> ('v, task_transition) task_result" where
  "begin_execution i now t =
     guard (require_state TK_Ready ''begin_execution'' t) t
       (guard (ensure_monotonic_time now t) t
         (if length (at_steps t) \<le> i then (Inl (TE_StepOutOfRange i), t)
          else if tst_state (at_steps t ! i) \<noteq> Step_Pending then (Inl (TE_StepNotPending i), t)
          else bump_generation t (\<lambda>t1.
                 let t2 = set_step_state i Step_Executing t1
                 in transition_to (TS_Executing i (at_generation t2)) TR_StepStarted now t2)))"

definition record_observation ::
  "u64 \<Rightarrow> 'v tool_execution_result \<Rightarrow> tool_verification_outcome \<Rightarrow> 'v agent_task \<Rightarrow> ('v, unit) task_result" where
  "record_observation observed result verification t =
     (case at_state t of
        TS_Executing i expected \<Rightarrow>
          if observed \<noteq> expected then (Inl (TE_StaleGeneration expected observed), t)
          else
            let kept = (if length (at_observations t) = tl_max_observations (at_limits t)
                        then tl (at_observations t) else at_observations t)
            in (Inr (), t\<lparr>at_observations := kept @
                 [\<lparr>tob_step_index = i, tob_generation = observed, tob_result = result,
                   tob_verification = verification\<rparr>]\<rparr>)
      | _ \<Rightarrow> (Inl (invalid_transition ''record_observation'' t), t))"

definition finish_step :: "u64 \<Rightarrow> 'v agent_task \<Rightarrow> ('v, task_transition) task_result option" where
  "finish_step now t =
     (case at_state t of
        TS_Executing i g \<Rightarrow>
          (case ensure_monotonic_time now t of
             Inl e \<Rightarrow> Some (Inl e, t)
           | Inr _ \<Rightarrow>
               if i < length (at_steps t) then
                 let t1 = set_step_state i Step_Executed t
                 in if list_all (\<lambda>st. tst_state st = Step_Executed) (at_steps t1)
                    then Some (transition_to (TS_Verifying g) TR_StepFinished now t1)
                    else Some (transition_to TS_Ready TR_StepFinished now t1)
               else None)
      | _ \<Rightarrow> Some (Inl (invalid_transition ''finish_step'' t), t))"

definition retry_current_step :: "u64 \<Rightarrow> 'v agent_task \<Rightarrow> ('v, task_transition) task_result option" where
  "retry_current_step now t =
     (case at_state t of
        TS_Executing i g \<Rightarrow>
          if tl_max_retries (at_limits t) \<le> at_retries t then Some (Inl TE_RetryLimitExceeded, t)
          else (case ensure_monotonic_time now t of
             Inl e \<Rightarrow> Some (Inl e, t)
           | Inr _ \<Rightarrow>
               let t1 = t\<lparr>at_retries := at_retries t + 1\<rparr>
               in case cadd (at_generation t1) 1 of
                    None \<Rightarrow> Some (Inl TE_GenerationExhausted, t1)
                  | Some g' \<Rightarrow>
                      let t2 = t1\<lparr>at_generation := g'\<rparr>
                      in if i < length (at_steps t2)
                         then Some (transition_to TS_Ready TR_RetryScheduled now (set_step_state i Step_Pending t2))
                         else None)
      | _ \<Rightarrow> Some (Inl (invalid_transition ''retry_current_step'' t), t))"

definition replan :: "u64 \<Rightarrow> 'v agent_task \<Rightarrow> ('v, task_transition) task_result" where
  "replan now t =
     (if state_kind (at_state t) \<noteq> TK_Ready \<and> state_kind (at_state t) \<noteq> TK_Verifying
      then (Inl (invalid_transition ''replan'' t), t)
      else if tl_max_replans (at_limits t) \<le> at_replans t then (Inl TE_ReplanLimitExceeded, t)
      else guard (ensure_monotonic_time now t) t
        (bump_generation (t\<lparr>at_replans := at_replans t + 1\<rparr>) (\<lambda>t1.
           transition_to TS_Planning TR_ReplanStarted now (t1\<lparr>at_steps := [], at_observations := []\<rparr>))))"

definition fallback_reason :: string where
  "fallback_reason = ''task verification did not establish completion''"

definition verify_task :: "u64 \<Rightarrow> verification_result \<Rightarrow> u64 \<Rightarrow> 'v agent_task \<Rightarrow> ('v, task_transition) task_result" where
  "verify_task observed result now t =
     (case at_state t of
        TS_Verifying expected \<Rightarrow>
          if observed \<noteq> expected then (Inl (TE_StaleGeneration expected observed), t)
          else guard (ensure_monotonic_time now t) t
            (let why = (case vr_reason result of None \<Rightarrow> fallback_reason | Some r \<Rightarrow> r)
             in case vr_outcome result of
                  VO_Verified \<Rightarrow>
                    transition_to TS_Completed TR_VerificationPassed now (t\<lparr>at_outcome := Some TO_Completed\<rparr>)
                | VO_Failed \<Rightarrow>
                    transition_to TS_Failed TR_VerificationFailed now (t\<lparr>at_outcome := Some (TO_Failed why)\<rparr>)
                | VO_NotVerified \<Rightarrow>
                    transition_to TS_NotVerified TR_VerificationNotProven now
                      (t\<lparr>at_outcome := Some (TO_NotVerified why)\<rparr>)
                | VO_Cancelled \<Rightarrow>
                    transition_to TS_Cancelled TR_VerificationCancelled now
                      (t\<lparr>at_outcome := Some (TO_Cancelled why)\<rparr>)
                | VO_Stale \<Rightarrow>
                    transition_to TS_NotVerified TR_VerificationStale now
                      (t\<lparr>at_outcome := Some (TO_NotVerified why)\<rparr>))
      | _ \<Rightarrow> (Inl (invalid_transition ''verify'' t), t))"

definition cancel_task :: "string \<Rightarrow> u64 \<Rightarrow> 'v agent_task \<Rightarrow> ('v, task_transition) task_result" where
  "cancel_task reason now t =
     (if task_is_terminal t then (Inl (invalid_transition ''cancel'' t), t)
      else guard (validate_text ''cancel_reason'' reason MAX_TASK_REASON_BYTES) t
        (guard (ensure_monotonic_time now t) t
          (bump_generation t (\<lambda>t1.
             transition_to TS_Cancelled TR_Cancelled now (t1\<lparr>at_outcome := Some (TO_Cancelled reason)\<rparr>)))))"

end
