(* ===== verification/Task_Inv.thy ===== *)
theory Task_Inv
  imports Domain_Task
begin

text \<open>
  The invariant of an agent task, its preservation by every operation, and the task as a transition
  system. The generation bound makes the generation counter's overflow unreachable.
\<close>

section \<open>Operations as one step function\<close>

datatype 'v task_op =
  TOp_BeginPlanning u64
| TOp_AddStep string
| TOp_MarkReady u64
| TOp_WaitFor pending_commitment_kind string u64 u64
| TOp_Resume u64
| TOp_BeginExecution usize u64
| TOp_RecordObservation u64 "'v tool_execution_result" tool_verification_outcome
| TOp_FinishStep u64
| TOp_RetryCurrentStep u64
| TOp_Replan u64
| TOp_Verify u64 verification_result u64
| TOp_Cancel string u64
| TOp_ExpireIfNeeded u64

text \<open>The outcome of a call: the error, or the transition it reports, if it reports one.\<close>

abbreviation reported :: "(task_error + task_transition) \<times> 'v agent_task \<Rightarrow> (task_error + task_transition option) \<times> 'v agent_task"
  where "reported x \<equiv> (map_sum id Some (fst x), snd x)"

abbreviation silent :: "(task_error + 'a) \<times> 'v agent_task \<Rightarrow> (task_error + task_transition option) \<times> 'v agent_task"
  where "silent x \<equiv> (map_sum id (\<lambda>_. None) (fst x), snd x)"

fun task_exec :: "'v task_op \<Rightarrow> 'v agent_task \<Rightarrow> ((task_error + task_transition option) \<times> 'v agent_task) option" where
  "task_exec (TOp_BeginPlanning now) t = Some (reported (begin_planning now t))"
| "task_exec (TOp_AddStep d) t = Some (silent (add_step d t))"
| "task_exec (TOp_MarkReady now) t = Some (reported (mark_ready now t))"
| "task_exec (TOp_WaitFor k s ttl now) t = Some (reported (wait_for k s ttl now t))"
| "task_exec (TOp_Resume now) t = Some (reported (resume now t))"
| "task_exec (TOp_BeginExecution i now) t = Some (reported (begin_execution i now t))"
| "task_exec (TOp_RecordObservation g r v) t = Some (silent (record_observation g r v t))"
| "task_exec (TOp_FinishStep now) t = map_option reported (finish_step now t)"
| "task_exec (TOp_RetryCurrentStep now) t = map_option reported (retry_current_step now t)"
| "task_exec (TOp_Replan now) t = Some (reported (replan now t))"
| "task_exec (TOp_Verify g r now) t = Some (reported (verify_task g r now t))"
| "task_exec (TOp_Cancel why now) t = Some (reported (cancel_task why now t))"
| "task_exec (TOp_ExpireIfNeeded now) t = Some (expire_if_needed now t)"

section \<open>Invariant\<close>

definition limits_ok :: "task_limits \<Rightarrow> bool" where
  "limits_ok l \<longleftrightarrow>
     0 < tl_max_steps l \<and> tl_max_steps l \<le> 64 \<and> 0 < tl_max_observations l \<and> tl_max_observations l \<le> 64 \<and>
     tl_max_retries l \<le> 16 \<and> tl_max_replans l \<le> 16 \<and>
     0 < tl_max_lifetime_ms l \<and> tl_max_lifetime_ms l \<le> 86400000 \<and>
     0 < tl_max_pending_ttl_ms l \<and> tl_max_pending_ttl_ms l \<le> 3600000 \<and>
     tl_max_pending_ttl_ms l \<le> tl_max_lifetime_ms l"

lemma task_limits_validate_iff: "task_limits_validate l = Inr l' \<longleftrightarrow> l' = l \<and> limits_ok l"
  by (auto simp: task_limits_validate_def limits_ok_def MAX_TASK_STEPS_HARD_def MAX_TASK_OBSERVATIONS_HARD_def
      MAX_TASK_RETRIES_HARD_def MAX_TASK_REPLANS_HARD_def MAX_TASK_LIFETIME_MS_HARD_def
      MAX_TASK_PENDING_TTL_MS_HARD_def)

definition started :: "task_step list \<Rightarrow> nat" where
  "started steps = length (filter (\<lambda>st. tst_state st \<noteq> Step_Pending) steps)"

definition all_executed :: "task_step list \<Rightarrow> bool" where
  "all_executed steps \<longleftrightarrow> list_all (\<lambda>st. tst_state st = Step_Executed) steps"

definition idle_plan :: "task_step list \<Rightarrow> bool" where
  "idle_plan steps \<longleftrightarrow>
     (\<exists>st\<in>set steps. tst_state st = Step_Pending) \<and> (\<forall>st\<in>set steps. tst_state st \<noteq> Step_Executing)"

fun plan_fits :: "task_state \<Rightarrow> u64 \<Rightarrow> task_step list \<Rightarrow> bool" where
  "plan_fits TS_Accepted g steps = (steps = [])"
| "plan_fits TS_Planning g steps = (started steps = 0)"
| "plan_fits TS_Ready g steps = idle_plan steps"
| "plan_fits (TS_Waiting _) g steps = idle_plan steps"
| "plan_fits (TS_Executing i g') g steps =
     (g' = g \<and> i < length steps \<and> (\<forall>j<length steps. tst_state (steps ! j) = Step_Executing \<longleftrightarrow> j = i))"
| "plan_fits (TS_Verifying g') g steps = (g' = g \<and> steps \<noteq> [] \<and> all_executed steps)"
| "plan_fits TS_Completed g steps = (steps \<noteq> [] \<and> all_executed steps)"
| "plan_fits _ g steps = True"

fun outcome_fits :: "task_state \<Rightarrow> task_outcome option \<Rightarrow> bool" where
  "outcome_fits TS_Completed oc = (oc = Some TO_Completed)"
| "outcome_fits TS_Failed oc = (\<exists>r. oc = Some (TO_Failed r))"
| "outcome_fits TS_Cancelled oc = (\<exists>r. oc = Some (TO_Cancelled r))"
| "outcome_fits TS_NotVerified oc = (\<exists>r. oc = Some (TO_NotVerified r))"
| "outcome_fits TS_Expired oc = (oc = Some TO_Expired)"
| "outcome_fits _ oc = (oc = None)"

definition observations_ok :: "'v agent_task \<Rightarrow> bool" where
  "observations_ok t \<longleftrightarrow>
     length (at_observations t) \<le> tl_max_observations (at_limits t) \<and>
     (\<forall>ob\<in>set (at_observations t). tob_step_index ob < length (at_steps t) \<and> tob_generation ob \<le> at_generation t)"

text \<open>Every generation is paid for by a started step, a replan, a retry or the terminal transition.\<close>

definition generation_paid :: "'v agent_task \<Rightarrow> bool" where
  "generation_paid t \<longleftrightarrow>
     at_generation t \<le> started (at_steps t) + (tl_max_steps (at_limits t) + 1) * at_replans t
        + 2 * at_retries t + (if task_is_terminal t then 1 else 0)"

definition counters_ok :: "'v agent_task \<Rightarrow> bool" where
  "counters_ok t \<longleftrightarrow>
     limits_ok (at_limits t) \<and> length (at_steps t) \<le> tl_max_steps (at_limits t) \<and>
     map tst_index (at_steps t) = [0..<length (at_steps t)] \<and>
     at_retries t \<le> tl_max_retries (at_limits t) \<and> at_replans t \<le> tl_max_replans (at_limits t) \<and>
     at_created_at_ms t \<le> at_updated_at_ms t \<and>
     at_expires_at_ms t = sadd (at_created_at_ms t) (tl_max_lifetime_ms (at_limits t))"

definition task_inv :: "'v agent_task \<Rightarrow> bool" where
  "task_inv t \<longleftrightarrow>
     counters_ok t \<and> plan_fits (at_state t) (at_generation t) (at_steps t) \<and>
     outcome_fits (at_state t) (at_outcome t) \<and> observations_ok t \<and> generation_paid t"

section \<open>Facts about steps\<close>

lemma started_Nil [simp]: "started [] = 0"
  by (simp add: started_def)

lemma started_append [simp]: "started (xs @ ys) = started xs + started ys"
  by (simp add: started_def)

lemma started_pending [simp]: "tst_state st = Step_Pending \<Longrightarrow> started [st] = 0"
  by (simp add: started_def)

lemma started_le: "started steps \<le> length steps"
  by (simp add: started_def)

lemma started_start:
  "i < length steps \<Longrightarrow> tst_state (steps ! i) = Step_Pending \<Longrightarrow> tst_state y \<noteq> Step_Pending \<Longrightarrow>
     started (steps[i := y]) = Suc (started steps)"
  using length_filter_update [of i steps "\<lambda>st. tst_state st \<noteq> Step_Pending" y] by (simp add: started_def)

lemma started_finish:
  "i < length steps \<Longrightarrow> tst_state (steps ! i) = Step_Executing \<Longrightarrow> tst_state y = Step_Executed \<Longrightarrow>
     started (steps[i := y]) = started steps"
  using length_filter_update [of i steps "\<lambda>st. tst_state st \<noteq> Step_Pending" y] by (simp add: started_def)

lemma started_retry:
  "i < length steps \<Longrightarrow> tst_state (steps ! i) = Step_Executing \<Longrightarrow> tst_state y = Step_Pending \<Longrightarrow>
     Suc (started (steps[i := y])) = started steps"
  using length_filter_update [of i steps "\<lambda>st. tst_state st \<noteq> Step_Pending" y] by (simp add: started_def)

lemma started_0: "started steps = 0 \<longleftrightarrow> (\<forall>st\<in>set steps. tst_state st = Step_Pending)"
  by (auto simp: started_def filter_empty_conv)

lemma terminal_states [simp]:
  "kind_is_terminal (state_kind st) \<longleftrightarrow>
     st = TS_Completed \<or> st = TS_Failed \<or> st = TS_Cancelled \<or> st = TS_NotVerified \<or> st = TS_Expired"
  by (cases st) (auto simp: kind_is_terminal_def split: pending_commitment_kind.splits)

lemma kind_is_terminal_simps [simp]:
  "\<not> kind_is_terminal TK_Accepted" "\<not> kind_is_terminal TK_Planning" "\<not> kind_is_terminal TK_Ready"
  "\<not> kind_is_terminal TK_WaitingApproval" "\<not> kind_is_terminal TK_WaitingDependency"
  "\<not> kind_is_terminal TK_Executing" "\<not> kind_is_terminal TK_Verifying" "kind_is_terminal TK_Completed"
  "kind_is_terminal TK_Failed" "kind_is_terminal TK_Cancelled" "kind_is_terminal TK_NotVerified"
  "kind_is_terminal TK_Expired"
  by (simp_all add: kind_is_terminal_def)

lemma kind_eq_iff:
  "state_kind st = TK_Accepted \<longleftrightarrow> st = TS_Accepted"
  "state_kind st = TK_Planning \<longleftrightarrow> st = TS_Planning"
  "state_kind st = TK_Ready \<longleftrightarrow> st = TS_Ready"
  "state_kind st = TK_Verifying \<longleftrightarrow> (\<exists>g. st = TS_Verifying g)"
  by (cases st; simp split: pending_commitment_kind.splits)+

text \<open>A task that is not terminal still has a generation to spend.\<close>

lemma generation_room:
  assumes "task_inv t"
  shows "at_generation t \<le> 1137 \<and> (\<not> task_is_terminal t \<longrightarrow> at_generation t \<le> 1136)"
proof -
  from assms have c: "tl_max_steps (at_limits t) \<le> 64" "at_replans t \<le> 16" "at_retries t \<le> 16"
    "length (at_steps t) \<le> 64"
    by (auto simp: task_inv_def counters_ok_def limits_ok_def)
  have "(tl_max_steps (at_limits t) + 1) * at_replans t \<le> 65 * 16"
    using c by (intro mult_le_mono) auto
  with assms c started_le [of "at_steps t"] show ?thesis
    by (auto simp: task_inv_def generation_paid_def split: if_splits)
qed

lemma cadd_generation:
  "task_inv t \<Longrightarrow> cadd (at_generation t) 1 = Some (Suc (at_generation t))"
  using generation_room [of t] by (simp add: cadd_def u64_max_def)

lemma bump_generation_ok:
  "task_inv t \<Longrightarrow> bump_generation t k = k (t\<lparr>at_generation := Suc (at_generation t)\<rparr>)"
  unfolding bump_generation_def by (subst cadd_generation) simp_all

section \<open>The transition graph\<close>

text \<open>Which state kinds each reason leads from and to, and which reasons issue a new generation.\<close>

definition waiting_kind :: "task_state_kind \<Rightarrow> bool" where
  "waiting_kind k \<longleftrightarrow> k = TK_WaitingApproval \<or> k = TK_WaitingDependency"

fun legal_edge :: "task_transition_reason \<Rightarrow> task_state_kind \<Rightarrow> task_state_kind \<Rightarrow> bool" where
  "legal_edge TR_PlanningStarted a b = (a = TK_Accepted \<and> b = TK_Planning)"
| "legal_edge TR_PlanReady a b = (a = TK_Planning \<and> b = TK_Ready)"
| "legal_edge TR_ApprovalPending a b = (a = TK_Ready \<and> b = TK_WaitingApproval)"
| "legal_edge TR_DependencyPending a b = (a = TK_Ready \<and> b = TK_WaitingDependency)"
| "legal_edge TR_CommitmentSatisfied a b = (waiting_kind a \<and> b = TK_Ready)"
| "legal_edge TR_StepStarted a b = (a = TK_Ready \<and> b = TK_Executing)"
| "legal_edge TR_StepFinished a b = (a = TK_Executing \<and> (b = TK_Ready \<or> b = TK_Verifying))"
| "legal_edge TR_RetryScheduled a b = (a = TK_Executing \<and> b = TK_Ready)"
| "legal_edge TR_ReplanStarted a b = ((a = TK_Ready \<or> a = TK_Verifying) \<and> b = TK_Planning)"
| "legal_edge TR_VerificationPassed a b = (a = TK_Verifying \<and> b = TK_Completed)"
| "legal_edge TR_VerificationFailed a b = (a = TK_Verifying \<and> b = TK_Failed)"
| "legal_edge TR_VerificationNotProven a b = (a = TK_Verifying \<and> b = TK_NotVerified)"
| "legal_edge TR_VerificationCancelled a b = (a = TK_Verifying \<and> b = TK_Cancelled)"
| "legal_edge TR_VerificationStale a b = (a = TK_Verifying \<and> b = TK_NotVerified)"
| "legal_edge TR_Cancelled a b = (\<not> kind_is_terminal a \<and> b = TK_Cancelled)"
| "legal_edge TR_TaskExpired a b = (\<not> kind_is_terminal a \<and> b = TK_Expired)"
| "legal_edge TR_CommitmentExpired a b = (waiting_kind a \<and> b = TK_NotVerified)"

definition new_generation :: "task_transition_reason \<Rightarrow> bool" where
  "new_generation r \<longleftrightarrow>
     r = TR_StepStarted \<or> r = TR_RetryScheduled \<or> r = TR_ReplanStarted \<or> r = TR_Cancelled \<or>
     r = TR_TaskExpired \<or> r = TR_CommitmentExpired"

text \<open>
  The contract of one call: an error changes nothing, a call that reports no transition keeps the
  state and the counters, and a transition follows the graph, moves time forward and counts.
\<close>

definition reports :: "'v agent_task \<Rightarrow> 'v agent_task \<Rightarrow> task_transition \<Rightarrow> bool" where
  "reports t t' tr \<longleftrightarrow>
     legal_edge (tt_reason tr) (state_kind (at_state t)) (state_kind (at_state t')) \<and>
     tr = \<lparr>tt_task_id = at_id t, tt_from = state_kind (at_state t), tt_to = state_kind (at_state t'),
           tt_reason = tt_reason tr, tt_at_ms = at_updated_at_ms t',
           tt_generation = at_generation t', tt_retries = at_retries t', tt_replans = at_replans t'\<rparr> \<and>
     at_updated_at_ms t \<le> at_updated_at_ms t' \<and>
     at_generation t' = at_generation t + (if new_generation (tt_reason tr) then 1 else 0) \<and>
     at_retries t' = at_retries t + (if tt_reason tr = TR_RetryScheduled then 1 else 0) \<and>
     at_replans t' = at_replans t + (if tt_reason tr = TR_ReplanStarted then 1 else 0)"

definition same_identity :: "'v agent_task \<Rightarrow> 'v agent_task \<Rightarrow> bool" where
  "same_identity t t' \<longleftrightarrow>
     at_id t' = at_id t \<and> at_requested_outcome t' = at_requested_outcome t \<and> at_limits t' = at_limits t \<and>
     at_created_at_ms t' = at_created_at_ms t \<and> at_expires_at_ms t' = at_expires_at_ms t"

definition good_call ::
  "'v agent_task \<Rightarrow> (task_error + task_transition option) \<times> 'v agent_task \<Rightarrow> bool" where
  "good_call t x \<longleftrightarrow>
     task_inv (snd x) \<and> same_identity t (snd x) \<and>
     (case fst x of
        Inl e \<Rightarrow> snd x = t \<and> e \<noteq> TE_GenerationExhausted
      | Inr None \<Rightarrow> at_state (snd x) = at_state t \<and> at_generation (snd x) = at_generation t \<and>
          at_retries (snd x) = at_retries t \<and> at_replans (snd x) = at_replans t \<and>
          at_updated_at_ms (snd x) = at_updated_at_ms t
      | Inr (Some tr) \<Rightarrow> reports t (snd x) tr)"

lemma good_call_error: "task_inv t \<Longrightarrow> e \<noteq> TE_GenerationExhausted \<Longrightarrow> good_call t (Inl e, t)"
  by (simp add: good_call_def same_identity_def)

lemma good_call_None: "task_inv t \<Longrightarrow> good_call t (Inr None, t)"
  by (simp add: good_call_def same_identity_def)

lemma good_call_guard:
  assumes "task_inv t" "\<And>e. c = Inl e \<Longrightarrow> e \<noteq> TE_GenerationExhausted"
    and "c = Inr () \<Longrightarrow> good_call t (map_sum id f (fst k), snd k)"
  shows "good_call t (map_sum id f (fst (guard c t k)), snd (guard c t k))"
  using assms by (cases c) (auto simp: guard_def good_call_error)

lemma good_call_guard':
  assumes "task_inv t" "\<And>e. c = Inl e \<Longrightarrow> e \<noteq> TE_GenerationExhausted" and "c = Inr () \<Longrightarrow> good_call t k"
  shows "good_call t (guard c t k)"
  using assms by (cases c) (auto simp: guard_def good_call_error)

lemma good_call_transition:
  assumes "task_inv t" "at_updated_at_ms t1 = at_updated_at_ms t" "at_updated_at_ms t \<le> now"
    and "task_inv (t1\<lparr>at_state := next, at_updated_at_ms := now\<rparr>)" "same_identity t t1"
    and "at_state t1 = at_state t" "legal_edge reason (state_kind (at_state t)) (state_kind next)"
    and "at_generation t1 = at_generation t + (if new_generation reason then 1 else 0)"
    and "at_retries t1 = at_retries t + (if reason = TR_RetryScheduled then 1 else 0)"
    and "at_replans t1 = at_replans t + (if reason = TR_ReplanStarted then 1 else 0)"
  shows "good_call t (reported (transition_to next reason now t1))"
  using assms by (auto simp: good_call_def transition_to_def reports_def same_identity_def)

text \<open>The variant for a transition that changes nothing else; it checks the time itself.\<close>

lemma good_call_move:
  assumes "task_inv t" "at_updated_at_ms t \<le> now \<Longrightarrow> task_inv (t\<lparr>at_state := next, at_updated_at_ms := now\<rparr>)"
    and "legal_edge reason (state_kind (at_state t)) (state_kind next)"
    and "\<not> new_generation reason"
  shows "good_call t (reported (transition_to next reason now t))"
proof (cases "at_updated_at_ms t \<le> now")
  case True
  with assms show ?thesis
    by (intro good_call_transition) (auto simp: same_identity_def new_generation_def)
qed (use assms in \<open>simp add: transition_to_def good_call_error\<close>)

lemmas task_inv_defs = task_inv_def counters_ok_def observations_ok_def generation_paid_def task_is_terminal_def

lemma require_state_simps:
  "require_state k a t = Inr () \<longleftrightarrow> state_kind (at_state t) = k"
  "require_state k a t = Inl e \<longleftrightarrow> state_kind (at_state t) \<noteq> k \<and> e = invalid_transition a t"
  by (auto simp: require_state_def)

lemma other_errors:
  "require_state k a t = Inl e \<Longrightarrow> e \<noteq> TE_GenerationExhausted"
  "validate_text f s n = Inl e \<Longrightarrow> e \<noteq> TE_GenerationExhausted"
  "ensure_monotonic_time now t = Inl e \<Longrightarrow> e \<noteq> TE_GenerationExhausted"
  by (auto simp: require_state_def invalid_transition_def validate_text_def ensure_monotonic_time_def split: if_splits)

lemma monotonic_iff: "ensure_monotonic_time now t = Inr () \<longleftrightarrow> at_updated_at_ms t \<le> now"
  by (auto simp: ensure_monotonic_time_def)

section \<open>Every operation meets the contract\<close>

lemma good_call_begin_planning:
  assumes "task_inv t"
  shows "good_call t (reported (begin_planning now t))"
  unfolding begin_planning_def
proof (rule good_call_guard [OF assms other_errors(1)])
  assume "require_state TK_Accepted ''begin_planning'' t = Inr ()"
  then have "at_state t = TS_Accepted" by (simp add: require_state_simps kind_eq_iff)
  with assms show "good_call t (reported (transition_to TS_Planning TR_PlanningStarted now t))"
    by (intro good_call_move) (auto simp: task_inv_defs new_generation_def)
qed

lemma good_call_add_step:
  assumes "task_inv t"
  shows "good_call t (silent (add_step d t))"
  unfolding add_step_def
proof (rule good_call_guard [OF assms other_errors(1)])
  assume "require_state TK_Planning ''add_step'' t = Inr ()"
  then have "at_state t = TS_Planning" by (simp add: require_state_simps kind_eq_iff)
  with assms show "good_call t (silent
      (if tl_max_steps (at_limits t) \<le> length (at_steps t) then (Inl TE_StepLimitExceeded, t)
       else guard (validate_text ''step_description'' d MAX_TASK_STEP_BYTES) t
         (let index = length (at_steps t)
          in (Inr index, t\<lparr>at_steps := at_steps t @
                [\<lparr>tst_index = index, tst_description = d, tst_state = Step_Pending\<rparr>]\<rparr>))))"
    by (auto simp: good_call_error Let_def intro!: good_call_guard other_errors(2))
      (auto simp: good_call_def same_identity_def task_inv_defs less_SucI)
qed

lemma good_call_mark_ready:
  assumes "task_inv t"
  shows "good_call t (reported (mark_ready now t))"
  unfolding mark_ready_def
proof (rule good_call_guard [OF assms other_errors(1)])
  assume "require_state TK_Planning ''mark_ready'' t = Inr ()"
  then have st: "at_state t = TS_Planning" by (simp add: require_state_simps kind_eq_iff)
  show "good_call t (reported (if at_steps t = [] then (Inl TE_PlanHasNoSteps, t)
      else transition_to TS_Ready TR_PlanReady now t))"
  proof (cases "at_steps t = []")
    case False
    with assms st have "idle_plan (at_steps t)"
      by (auto simp: task_inv_def started_0 idle_plan_def neq_Nil_conv)
    with False assms st have "good_call t (reported (transition_to TS_Ready TR_PlanReady now t))"
      by (intro good_call_move) (auto simp: task_inv_defs new_generation_def)
    with False show ?thesis by simp
  qed (simp add: good_call_error assms)
qed

lemma good_call_wait_for:
  assumes "task_inv t"
  shows "good_call t (reported (wait_for k s ttl now t))"
  unfolding wait_for_def
proof (rule good_call_guard [OF assms other_errors(1)])
  assume "require_state TK_Ready ''wait_for'' t = Inr ()"
  then have st: "at_state t = TS_Ready" by (simp add: require_state_simps kind_eq_iff)
  let ?c = "\<lparr>pc_kind = k, pc_summary = s, pc_expires_at_ms = min (sadd now ttl) (at_expires_at_ms t)\<rparr>"
  have "good_call t (reported (transition_to (TS_Waiting ?c)
      (case k of Approval \<Rightarrow> TR_ApprovalPending | Dependency \<Rightarrow> TR_DependencyPending) now t))"
    using assms st
    by (intro good_call_move; cases k) (auto simp: task_inv_defs new_generation_def)
  then have "good_call t (reported (guard (validate_text ''pending_summary'' s MAX_TASK_REASON_BYTES) t
      (transition_to (TS_Waiting ?c)
        (case k of Approval \<Rightarrow> TR_ApprovalPending | Dependency \<Rightarrow> TR_DependencyPending) now t)))"
    by (intro good_call_guard assms other_errors(2))
  then show "good_call t (reported (if ttl = 0 \<or> tl_max_pending_ttl_ms (at_limits t) < ttl then (Inl TE_InvalidPendingTtl, t)
      else guard (validate_text ''pending_summary'' s MAX_TASK_REASON_BYTES) t
          (let expires = min (sadd now ttl) (at_expires_at_ms t);
               reason = (case k of Approval \<Rightarrow> TR_ApprovalPending | Dependency \<Rightarrow> TR_DependencyPending)
           in transition_to
                (TS_Waiting \<lparr>pc_kind = k, pc_summary = s, pc_expires_at_ms = expires\<rparr>) reason now t)))"
    by (simp add: good_call_error assms Let_def)
qed

text \<open>Ending a task that is still running: the generation moves on and the outcome is set.\<close>

lemma good_call_end:
  assumes "task_inv t" "\<not> task_is_terminal t" "at_updated_at_ms t \<le> now"
    and "legal_edge reason (state_kind (at_state t)) (state_kind next)" "new_generation reason"
    and "reason \<noteq> TR_RetryScheduled" "reason \<noteq> TR_ReplanStarted"
    and "kind_is_terminal (state_kind next)" "next \<noteq> TS_Completed" "outcome_fits next oc"
    and "t1 = t\<lparr>at_generation := Suc (at_generation t), at_outcome := oc\<rparr>"
  shows "good_call t (reported (transition_to next reason now t1))"
proof (rule good_call_transition [OF assms(1)])
  have "plan_fits next g steps" for g steps using assms(8,9) by auto
  with assms show "task_inv (t1\<lparr>at_state := next, at_updated_at_ms := now\<rparr>)"
    by (auto simp: task_inv_def counters_ok_def observations_ok_def generation_paid_def task_is_terminal_def le_SucI)
qed (use assms in \<open>auto simp: same_identity_def\<close>)

lemma good_call_expire:
  assumes "task_inv t"
  shows "good_call t (expire_if_needed now t)"
proof (cases "task_is_terminal t \<or> now < at_updated_at_ms t")
  case True
  then show ?thesis
    using assms by (auto simp: expire_if_needed_def guard_def ensure_monotonic_time_def good_call_error good_call_None)
next
  case False
  then have run: "\<not> task_is_terminal t" "at_updated_at_ms t \<le> now" "\<not> kind_is_terminal (state_kind (at_state t))"
    by (auto simp: task_is_terminal_def)
  let ?t1 = "\<lambda>oc. t\<lparr>at_generation := Suc (at_generation t), at_outcome := oc\<rparr>"
  have a: "good_call t (reported (transition_to TS_Expired TR_TaskExpired now (?t1 (Some TO_Expired))))"
    using run(3) by (intro good_call_end [OF assms run(1,2)]) (auto simp: new_generation_def)
  have b: "good_call t (reported (transition_to TS_NotVerified TR_CommitmentExpired now (?t1 (Some (TO_NotVerified r)))))"
    if "at_state t = TS_Waiting c" for c r
    using that
    by (intro good_call_end [OF assms run(1,2)])
      (auto simp: new_generation_def waiting_kind_def split: pending_commitment_kind.split)
  show ?thesis
  proof (cases "at_expires_at_ms t \<le> now")
    case True
    with run a assms show ?thesis
      by (simp add: expire_if_needed_def guard_def ensure_monotonic_time_def bump_generation_ok
          Let_def split_beta)
  next
    case False
    show ?thesis
    proof (cases "\<exists>c. at_state t = TS_Waiting c \<and> pc_expires_at_ms c \<le> now")
      case True
      then obtain c where c: "at_state t = TS_Waiting c" "pc_expires_at_ms c \<le> now" by blast
      show ?thesis
        using run b [OF c(1)] c False assms
        by (simp add: expire_if_needed_def guard_def ensure_monotonic_time_def bump_generation_ok
            Let_def split_beta)
    next
      case no: False
      with run False have "expire_if_needed now t = (Inr None, t)"
        by (cases "at_state t") (auto simp: expire_if_needed_def guard_def ensure_monotonic_time_def)
      then show ?thesis by (simp add: good_call_None assms)
    qed
  qed
qed

lemma expire_None_same: "expire_if_needed now t = (Inr None, t1) \<Longrightarrow> t1 = t"
  by (auto simp: expire_if_needed_def guard_def bump_generation_def transition_to_def Let_def
      split: if_splits sum.splits option.splits prod.splits task_state.splits)

lemma good_call_resume:
  assumes "task_inv t"
  shows "good_call t (reported (resume now t))"
proof (cases "\<exists>c. at_state t = TS_Waiting c")
  case True
  then obtain c where c: "at_state t = TS_Waiting c" by blast
  note e = good_call_expire [OF assms, of now]
  obtain r t1 where r: "expire_if_needed now t = (r, t1)" by fastforce
  consider (err) e where "r = Inl e" | (some) tr where "r = Inr (Some tr)" | (none) "r = Inr None"
    by (cases r) auto
  then show ?thesis
  proof cases
    case none
    then have "t1 = t" using r expire_None_same by simp
    with r none c have "resume now t = transition_to TS_Ready TR_CommitmentSatisfied now t" by (simp add: resume_def)
    moreover have "good_call t (reported (transition_to TS_Ready TR_CommitmentSatisfied now t))"
      using assms c
      by (intro good_call_move)
        (auto simp: task_inv_defs new_generation_def waiting_kind_def split: pending_commitment_kind.splits)
    ultimately show ?thesis by simp
  qed (use e r c in \<open>auto simp: resume_def\<close>)
next
  case False
  then have "resume now t = (Inl (invalid_transition ''resume'' t), t)"
    by (auto simp: resume_def split: task_state.split)
  then show ?thesis by (simp add: good_call_error assms invalid_transition_def)
qed

lemma map_index_update [simp]:
  "map tst_index (steps[i := (steps ! i)\<lparr>tst_state := x\<rparr>]) = map tst_index steps"
  by (rule map_update_same) simp

lemma good_call_begin_execution:
  assumes "task_inv t"
  shows "good_call t (reported (begin_execution i now t))"
  unfolding begin_execution_def
proof (rule good_call_guard [OF assms other_errors(1)])
  assume "require_state TK_Ready ''begin_execution'' t = Inr ()"
  then have st: "at_state t = TS_Ready" by (simp add: require_state_simps kind_eq_iff)
  let ?t2 = "set_step_state i Step_Executing (t\<lparr>at_generation := Suc (at_generation t)\<rparr>)"
  let ?k = "if length (at_steps t) \<le> i then (Inl (TE_StepOutOfRange i), t)
       else if tst_state (at_steps t ! i) \<noteq> Step_Pending then (Inl (TE_StepNotPending i), t)
       else bump_generation t (\<lambda>t1. let t2 = set_step_state i Step_Executing t1
              in transition_to (TS_Executing i (at_generation t2)) TR_StepStarted now t2)"
  show "good_call t (reported (guard (ensure_monotonic_time now t) t ?k))"
  proof (rule good_call_guard [OF assms other_errors(3)])
    assume "ensure_monotonic_time now t = Inr ()"
    then have mono: "at_updated_at_ms t \<le> now" by (simp add: monotonic_iff)
    have "good_call t (reported (transition_to (TS_Executing i (at_generation ?t2)) TR_StepStarted now ?t2))"
      if i: "i < length (at_steps t)" "tst_state (at_steps t ! i) = Step_Pending"
    proof (rule good_call_transition [OF assms])
      have idle: "tst_state (at_steps t ! j) \<noteq> Step_Executing" if "j < length (at_steps t)" for j
        using assms st that by (auto simp: task_inv_def idle_plan_def)
      show "task_inv (?t2\<lparr>at_state := TS_Executing i (at_generation ?t2), at_updated_at_ms := now\<rparr>)"
        using assms st mono i idle
        by (auto simp: task_inv_defs set_step_state_def started_start nth_list_update le_SucI)
    qed (use st mono in \<open>auto simp: set_step_state_def same_identity_def new_generation_def\<close>)
    with assms show "good_call t (reported ?k)"
      by (simp add: good_call_error bump_generation_ok Let_def)
  qed
qed

lemma good_call_record_observation:
  assumes "task_inv t"
  shows "good_call t (silent (record_observation g r v t))"
proof (cases "\<exists>i. at_state t = TS_Executing i g")
  case True
  then obtain i where st: "at_state t = TS_Executing i g" by blast
  let ?keep = "if length (at_observations t) = tl_max_observations (at_limits t)
               then tl (at_observations t) else at_observations t"
  have "length ?keep < tl_max_observations (at_limits t)" "set ?keep \<subseteq> set (at_observations t)"
    using assms by (auto simp: task_inv_defs limits_ok_def dest: list.set_sel(2) [rotated])
  with assms st show ?thesis
    by (auto simp: record_observation_def good_call_def same_identity_def Let_def task_inv_defs)
next
  case False
  with assms show ?thesis
    by (auto simp: record_observation_def good_call_error invalid_transition_def split: task_state.split)
qed

text \<open>The direct indexing of \<open>steps\<close> stays in range.\<close>

lemma executing_step:
  assumes "task_inv t" "at_state t = TS_Executing i g"
  shows "g = at_generation t \<and> i < length (at_steps t) \<and> tst_state (at_steps t ! i) = Step_Executing \<and>
    (\<forall>j<length (at_steps t). j \<noteq> i \<longrightarrow> tst_state (at_steps t ! j) \<noteq> Step_Executing)"
  using assms by (auto simp: task_inv_def)

lemma good_call_finish_step:
  assumes "task_inv t"
  shows "\<exists>x. finish_step now t = Some x \<and> good_call t (reported x)"
proof (cases "(\<exists>i g. at_state t = TS_Executing i g) \<and> at_updated_at_ms t \<le> now")
  case True
  then obtain i g where st: "at_state t = TS_Executing i g" and now: "at_updated_at_ms t \<le> now" by blast
  note ex = executing_step [OF assms st]
  let ?steps = "(at_steps t)[i := (at_steps t ! i)\<lparr>tst_state := Step_Executed\<rparr>]"
  let ?t1 = "set_step_state i Step_Executed t"
  have fin: "started ?steps = started (at_steps t)" using ex by (intro started_finish) auto
  have "tst_state (?steps ! j) \<noteq> Step_Executing" if "j < length ?steps" for j
    using that ex by (cases "j = i") auto
  then have idle: "tst_state st \<noteq> Step_Executing" if "st \<in> set ?steps" for st
    using that by (metis in_set_conv_nth)
  have move: "good_call t (reported (transition_to next TR_StepFinished now ?t1))"
    if "next = TS_Ready \<and> idle_plan ?steps \<or> next = TS_Verifying (at_generation t) \<and> all_executed ?steps" for "next"
  proof (rule good_call_transition [OF assms])
    show "task_inv (?t1\<lparr>at_state := next, at_updated_at_ms := now\<rparr>)"
      using assms st ex now fin that by (auto simp: task_inv_defs set_step_state_def)
  qed (use that st now in \<open>auto simp: set_step_state_def same_identity_def new_generation_def\<close>)
  show ?thesis
  proof (cases "all_executed ?steps")
    case True
    with st ex now move [of "TS_Verifying g"] show ?thesis
      by (auto simp: finish_step_def ensure_monotonic_time_def Let_def set_step_state_def all_executed_def)
  next
    case False
    then obtain st' where "st' \<in> set ?steps" "tst_state st' \<noteq> Step_Executed" by (auto simp: all_executed_def list_all_iff)
    with idle have "idle_plan ?steps" unfolding idle_plan_def by (metis task_step_state.exhaust)
    with False st ex now move [of TS_Ready] show ?thesis
      by (auto simp: finish_step_def ensure_monotonic_time_def Let_def set_step_state_def all_executed_def)
  qed
next
  case False
  with assms show ?thesis
    by (auto simp: finish_step_def ensure_monotonic_time_def good_call_error invalid_transition_def
        split: task_state.split)
qed

lemma good_call_retry:
  assumes "task_inv t"
  shows "\<exists>x. retry_current_step now t = Some x \<and> good_call t (reported x)"
proof (cases "(\<exists>i g. at_state t = TS_Executing i g) \<and> at_retries t < tl_max_retries (at_limits t) \<and>
    at_updated_at_ms t \<le> now")
  case True
  then obtain i g where st: "at_state t = TS_Executing i g" and now: "at_updated_at_ms t \<le> now"
    and room: "at_retries t < tl_max_retries (at_limits t)" by blast
  note ex = executing_step [OF assms st]
  let ?steps = "(at_steps t)[i := (at_steps t ! i)\<lparr>tst_state := Step_Pending\<rparr>]"
  let ?t1 = "set_step_state i Step_Pending (t\<lparr>at_retries := Suc (at_retries t), at_generation := Suc (at_generation t)\<rparr>)"
  have started: "Suc (started ?steps) = started (at_steps t)" using ex by (intro started_retry) auto
  have other: "tst_state (?steps ! j) \<noteq> Step_Executing" if "j < length ?steps" for j
    using that ex by (cases "j = i") auto
  have "idle_plan ?steps" unfolding idle_plan_def
  proof (intro conjI ballI)
    show "\<exists>st\<in>set ?steps. tst_state st = Step_Pending"
      using ex by (intro bexI [of _ "?steps ! i"] nth_mem) simp_all
    show "tst_state st \<noteq> Step_Executing" if "st \<in> set ?steps" for st
      using that other by (metis in_set_conv_nth)
  qed
  then have "good_call t (reported (transition_to TS_Ready TR_RetryScheduled now ?t1))"
    using assms st ex now room started
    by (intro good_call_transition) (auto simp: task_inv_defs set_step_state_def same_identity_def new_generation_def)
  with st ex now room cadd_generation [OF assms] show ?thesis
    by (simp add: retry_current_step_def ensure_monotonic_time_def Let_def)
next
  case False
  with assms show ?thesis
    by (auto simp: retry_current_step_def ensure_monotonic_time_def good_call_error invalid_transition_def
        split: task_state.split)
qed

lemma good_call_replan:
  assumes "task_inv t"
  shows "good_call t (reported (replan now t))"
proof (cases "(state_kind (at_state t) = TK_Ready \<or> state_kind (at_state t) = TK_Verifying) \<and>
    at_replans t < tl_max_replans (at_limits t) \<and> at_updated_at_ms t \<le> now")
  case True
  let ?t1 = "t\<lparr>at_replans := Suc (at_replans t), at_generation := Suc (at_generation t), at_steps := [], at_observations := []\<rparr>"
  have "started (at_steps t) \<le> tl_max_steps (at_limits t)"
    using assms started_le [of "at_steps t"] by (simp add: task_inv_def counters_ok_def)
  with True assms have "good_call t (reported (transition_to TS_Planning TR_ReplanStarted now ?t1))"
    by (intro good_call_transition)
      (auto simp: task_inv_defs same_identity_def new_generation_def kind_eq_iff)
  moreover have "replan now t = transition_to TS_Planning TR_ReplanStarted now ?t1"
    using True cadd_generation [OF assms]
    by (auto simp: replan_def guard_def ensure_monotonic_time_def bump_generation_def)
  ultimately show ?thesis by simp
next
  case False
  with assms show ?thesis
    by (auto simp: replan_def good_call_error guard_def ensure_monotonic_time_def invalid_transition_def)
qed

lemma good_call_verify:
  assumes "task_inv t"
  shows "good_call t (reported (verify_task g r now t))"
proof (cases "at_state t = TS_Verifying g \<and> at_updated_at_ms t \<le> now")
  case True
  have move: "good_call t (reported (transition_to next reason now (t\<lparr>at_outcome := oc\<rparr>)))"
    if "legal_edge reason TK_Verifying (state_kind next)" "outcome_fits next oc" "kind_is_terminal (state_kind next)"
      "\<not> new_generation reason" for "next" reason oc
  proof (rule good_call_transition [OF assms])
    show "task_inv (t\<lparr>at_outcome := oc, at_state := next, at_updated_at_ms := now\<rparr>)"
      using that True assms by (auto simp: task_inv_defs)
  qed (use that True in \<open>auto simp: same_identity_def new_generation_def\<close>)
  show ?thesis
    using True
    by (cases "vr_outcome r")
      (auto simp: verify_task_def guard_def ensure_monotonic_time_def Let_def new_generation_def intro!: move)
next
  case False
  with assms show ?thesis
    by (auto simp: verify_task_def good_call_error guard_def ensure_monotonic_time_def invalid_transition_def
        split: task_state.split)
qed

lemma good_call_cancel:
  assumes "task_inv t"
  shows "good_call t (reported (cancel_task why now t))"
proof (cases "task_is_terminal t")
  case False
  let ?t1 = "t\<lparr>at_generation := Suc (at_generation t), at_outcome := Some (TO_Cancelled why)\<rparr>"
  have "good_call t (reported (transition_to TS_Cancelled TR_Cancelled now ?t1))" if "at_updated_at_ms t \<le> now"
    using False that by (intro good_call_end [OF assms]) (auto simp: new_generation_def task_is_terminal_def)
  then have "good_call t (reported (guard (ensure_monotonic_time now t) t
      (bump_generation t (\<lambda>t1. transition_to TS_Cancelled TR_Cancelled now (t1\<lparr>at_outcome := Some (TO_Cancelled why)\<rparr>)))))"
    using assms by (intro good_call_guard other_errors(3)) (simp_all add: monotonic_iff bump_generation_ok)
  then show ?thesis
    using False assms unfolding cancel_task_def by (auto intro!: good_call_guard other_errors(2))
qed (simp add: cancel_task_def good_call_error assms invalid_transition_def)

section \<open>The transition system\<close>

lemma task_exec_good:
  assumes "task_inv t"
  shows "\<exists>x. task_exec op t = Some x \<and> good_call t x"
proof (cases op)
  case (TOp_FinishStep now)
  with good_call_finish_step [OF assms, of now] show ?thesis by auto
next
  case (TOp_RetryCurrentStep now)
  with good_call_retry [OF assms, of now] show ?thesis by auto
qed (simp_all add: assms good_call_begin_planning good_call_add_step good_call_mark_ready good_call_wait_for
  good_call_resume good_call_begin_execution good_call_record_observation good_call_replan good_call_verify
  good_call_cancel good_call_expire)

definition task_init :: "'v agent_task \<Rightarrow> bool" where
  "task_init t \<longleftrightarrow> (\<exists>tid requested created limits. agent_task_new tid requested created limits = Inr t)"

inductive task_step_rel :: "'v agent_task \<Rightarrow> 'v agent_task \<Rightarrow> bool" where
  "task_exec op t = Some (r, t') \<Longrightarrow> task_step_rel t t'"

inductive_simps task_step_rel_iff: "task_step_rel t t'"

abbreviation task_reach :: "'v agent_task \<Rightarrow> bool" where
  "task_reach \<equiv> reach task_init task_step_rel"

lemma task_inv_init: "task_init t \<Longrightarrow> task_inv t"
  by (auto simp: task_init_def agent_task_new_def rust_simps task_limits_validate_iff task_inv_defs)

lemma task_step_good:
  "task_inv t \<Longrightarrow> task_exec op t = Some x \<Longrightarrow> good_call t x"
  using task_exec_good [of t op] by auto

lemma good_call_generation: "good_call t x \<Longrightarrow> at_generation t \<le> at_generation (snd x)"
  by (auto simp: good_call_def reports_def split: sum.splits option.splits)

lemma good_call_inv: "good_call t x \<Longrightarrow> task_inv (snd x)"
  by (simp add: good_call_def)

interpretation task_sys: clocked_system task_init task_step_rel task_inv at_generation
proof unfold_locales
  fix s t :: "'v agent_task"
  show "task_init s \<Longrightarrow> task_inv s" by (rule task_inv_init)
  assume "task_inv s" "task_step_rel s t"
  then obtain r where "good_call s (r, t)" unfolding task_step_rel_iff by (blast dest: task_step_good)
  then show "task_inv t" "at_generation s \<le> at_generation t"
    using good_call_inv good_call_generation by force+
qed

lemmas reach_task_inv = task_sys.reach_inv

end
