(* ===== verification/Task_Claims.thy ===== *)
theory Task_Claims
  imports Task_Inv
begin

text \<open>The properties of the agent task, with a concrete run for the witnesses.\<close>

section \<open>A concrete run\<close>

definition demo_task :: "nat agent_task" where
  "demo_task = (case agent_task_new (TaskId ''task-1'') ''verify the artifact'' 10 default_task_limits of
     Inr t \<Rightarrow> t | Inl _ \<Rightarrow> undefined)"

fun task_run :: "'v task_op list \<Rightarrow> 'v agent_task \<Rightarrow> 'v agent_task" where
  "task_run [] t = t"
| "task_run (op # ops) t = task_run ops (snd (the (task_exec op t)))"

lemma task_init_demo: "task_init demo_task"
proof -
  have "agent_task_new (TaskId ''task-1'') ''verify the artifact'' 10 default_task_limits = Inr demo_task"
    by code_simp
  then show ?thesis unfolding task_init_def by blast
qed

lemma task_steps_run: "task_inv t \<Longrightarrow> task_step_rel\<^sup>*\<^sup>* t (task_run ops t)"
proof (induction ops arbitrary: t)
  case (Cons op ops)
  from task_exec_good [OF Cons.prems, of op] obtain r t' where x: "task_exec op t = Some (r, t')" "task_inv t'"
    using good_call_inv by fastforce
  then have "task_step_rel t t'" by (auto simp: task_step_rel_iff)
  with Cons.IH [OF x(2)] x(1) show ?case by (simp add: converse_rtranclp_into_rtranclp)
qed simp

lemma reach_steps: "task_step_rel\<^sup>*\<^sup>* t t' \<Longrightarrow> task_reach t \<Longrightarrow> task_reach t'"
  by (induction rule: rtranclp.induct) (auto intro: reach.reach_step)

lemma task_reach_demo: "task_reach (task_run ops demo_task)"
proof (rule reach_steps)
  show "task_reach demo_task" by (rule reach.reach_init) (rule task_init_demo)
  show "task_step_rel\<^sup>*\<^sup>* demo_task (task_run ops demo_task)"
    by (rule task_steps_run [OF task_inv_init [OF task_init_demo]])
qed

definition demo_executing :: "nat agent_task" where
  "demo_executing = task_run [TOp_BeginPlanning 11, TOp_AddStep ''read'', TOp_MarkReady 12, TOp_BeginExecution 0 13] demo_task"

definition demo_verifying :: "nat agent_task" where
  "demo_verifying = task_run [TOp_FinishStep 14] demo_executing"

lemma task_run_append: "task_run (xs @ ys) t = task_run ys (task_run xs t)"
  by (induction xs arbitrary: t) simp_all

lemma task_reach_executing: "task_reach demo_executing"
  unfolding demo_executing_def by (rule task_reach_demo)

lemma task_reach_verifying: "task_reach demo_verifying"
  unfolding demo_verifying_def demo_executing_def task_run_append [symmetric] by (rule task_reach_demo)

section \<open>Properties\<close>

text \<open>
  Every call on a reachable task returns: \<open>finish_step\<close> and \<open>retry_current_step\<close> never index past
  the plan, and the checked increment of the generation never fails. A call that returns an error
  leaves the whole task as it was.
\<close>

theorem task_calls_total_and_atomic:
  assumes "task_reach t"
  shows "\<exists>r t'. task_exec op t = Some (r, t') \<and> r \<noteq> Inl TE_GenerationExhausted \<and> (\<forall>e. r = Inl e \<longrightarrow> t' = t)"
proof -
  from task_exec_good [OF reach_task_inv [OF assms], of op] obtain x where
    "task_exec op t = Some x" "good_call t x" by blast
  then show ?thesis by (cases x) (auto simp: good_call_def)
qed

lemma task_calls_total_and_atomic_witness:
  "\<exists>r t'. task_exec (TOp_FinishStep 5) demo_executing = Some (r, t') \<and> (\<forall>e. r = Inl e \<longrightarrow> t' = demo_executing)"
  using task_calls_total_and_atomic [OF task_reach_executing, of "TOp_FinishStep 5"] by blast

text \<open>
  A call either reports a transition that is an edge of the task graph for its reason, with the state
  kinds before and after, a time that does not go back, the counters after the call, and a generation
  that is new exactly for starts, retries, replans, cancellations and expiries; or it leaves the state
  and the counters alone. The identity, limits and deadline of the task never change.
\<close>

theorem task_transitions_follow_graph:
  assumes "task_reach t" "task_exec op t = Some (Inr rep, t')"
  shows "at_id t' = at_id t \<and> at_limits t' = at_limits t \<and> at_expires_at_ms t' = at_expires_at_ms t
     \<and> (case rep of
          Some tr \<Rightarrow>
            legal_edge (tt_reason tr) (tt_from tr) (tt_to tr)
          \<and> tt_from tr = state_kind (at_state t) \<and> tt_to tr = state_kind (at_state t')
          \<and> at_updated_at_ms t \<le> tt_at_ms tr \<and> tt_at_ms tr = at_updated_at_ms t'
          \<and> tt_generation tr = at_generation t + (if new_generation (tt_reason tr) then 1 else 0)
          \<and> tt_generation tr = at_generation t'
        | None \<Rightarrow> at_state t' = at_state t \<and> at_generation t' = at_generation t
          \<and> at_retries t' = at_retries t \<and> at_replans t' = at_replans t)"
proof -
  from task_exec_good [OF reach_task_inv [OF assms(1)], of op] assms(2)
  have "good_call t (Inr rep, t')" by simp
  then show ?thesis
    by (cases rep)
      (auto simp: good_call_def same_identity_def reports_def,
       (metis task_transition.select_convs)+)
qed

lemma task_transitions_follow_graph_witness:
  "\<exists>tr t'. task_exec (TOp_FinishStep 14) demo_executing = Some (Inr (Some tr), t') \<and>
     legal_edge (tt_reason tr) TK_Executing TK_Verifying"
proof -
  have "case task_exec (TOp_FinishStep 14) demo_executing of
      Some (Inr (Some tr), t') \<Rightarrow> tt_from tr = TK_Executing \<and> tt_to tr = TK_Verifying | _ \<Rightarrow> False" by code_simp
  then obtain tr t' where r: "task_exec (TOp_FinishStep 14) demo_executing = Some (Inr (Some tr), t')"
    "tt_from tr = TK_Executing" "tt_to tr = TK_Verifying"
    by (auto split: option.splits sum.splits)
  from task_transitions_follow_graph [OF task_reach_executing r(1)] r show ?thesis by auto
qed

lemma silent_None: "map_sum id (\<lambda>_. None) x \<noteq> Inr (Some tr)"
  by (cases x) simp_all

text \<open>
  C5. No observation and no finished step completes a task: a task becomes \<open>Completed\<close> only by a
  \<open>verify\<close> call carrying the current generation and the outcome \<open>Verified\<close>, made while the task is
  verifying a non-empty plan all of whose steps have been executed.
\<close>

theorem completion_needs_verification:
  assumes "task_reach t" "task_exec op t = Some (r, t')"
    and "at_state t \<noteq> TS_Completed" "at_state t' = TS_Completed"
  shows "(\<exists>result now. op = TOp_Verify (at_generation t) result now \<and> vr_outcome result = VO_Verified)
     \<and> at_state t = TS_Verifying (at_generation t)
     \<and> at_steps t \<noteq> [] \<and> list_all (\<lambda>st. tst_state st = Step_Executed) (at_steps t)
     \<and> at_outcome t' = Some TO_Completed"
proof -
  have inv: "task_inv t" using assms(1) by (rule reach_task_inv)
  from task_step_good [OF inv assms(2)] have good: "good_call t (r, t')" .
  with assms(3,4) obtain tr where r: "r = Inr (Some tr)" "reports t t' tr"
    by (auto simp: good_call_def split: sum.splits option.splits)
  then have edge: "legal_edge (tt_reason tr) (state_kind (at_state t)) TK_Completed"
    using assms(4) by (simp add: reports_def)
  then have "state_kind (at_state t) = TK_Verifying" "tt_reason tr = TR_VerificationPassed"
    by (cases "tt_reason tr"; simp)+
  then obtain g where st: "at_state t = TS_Verifying g" by (auto simp: kind_eq_iff)
  with inv have plan: "g = at_generation t" "at_steps t \<noteq> []" "all_executed (at_steps t)"
    by (auto simp: task_inv_def)
  have "\<exists>result now. op = TOp_Verify g result now \<and> vr_outcome result = VO_Verified"
    using assms(2) r(1) \<open>tt_reason tr = TR_VerificationPassed\<close> st
    by (cases op)
      (auto simp: silent_None begin_planning_def mark_ready_def wait_for_def resume_def begin_execution_def finish_step_def
        retry_current_step_def replan_def verify_task_def cancel_task_def expire_if_needed_def guard_def
        bump_generation_def transition_to_def require_state_def ensure_monotonic_time_def Let_def
        split: sum.splits if_splits option.splits task_verification_outcome.splits)
  moreover have "at_outcome t' = Some TO_Completed"
    using good assms(4) by (auto simp: good_call_def task_inv_def)
  ultimately show ?thesis using st plan by (simp add: all_executed_def)
qed

lemma completion_needs_verification_witness:
  "\<exists>r t'. task_exec (TOp_Verify 1 vr_verified 15) demo_verifying = Some (r, t') \<and> at_state t' = TS_Completed \<and>
     at_state demo_verifying = TS_Verifying (at_generation demo_verifying)"
proof -
  have "case task_exec (TOp_Verify 1 vr_verified 15) demo_verifying of
      Some (r, t') \<Rightarrow> at_state t' = TS_Completed | _ \<Rightarrow> False" by code_simp
  then obtain r t' where r: "task_exec (TOp_Verify 1 vr_verified 15) demo_verifying = Some (r, t')"
    "at_state t' = TS_Completed" by (auto split: option.splits)
  have "at_state demo_verifying \<noteq> TS_Completed" by code_simp
  from completion_needs_verification [OF task_reach_verifying r(1) this r(2)] r show ?thesis by blast
qed

lemma no_edge_from_terminal: "legal_edge r a b \<Longrightarrow> \<not> kind_is_terminal a"
  by (cases r) (auto simp: waiting_kind_def)

lemma terminal_calls:
  assumes "task_is_terminal t" "task_exec op t = Some (r, t')"
  shows "t' = t"
proof -
  from assms(1) have st: "at_state t = TS_Completed \<or> at_state t = TS_Failed \<or> at_state t = TS_Cancelled \<or>
      at_state t = TS_NotVerified \<or> at_state t = TS_Expired" by (simp add: task_is_terminal_def)
  show ?thesis
    using assms st
    by (cases op)
      (auto simp: begin_planning_def add_step_def mark_ready_def wait_for_def resume_def begin_execution_def
        record_observation_def finish_step_def retry_current_step_def replan_def verify_task_def
        cancel_task_def expire_if_needed_def guard_def require_state_def)
qed

text \<open>
  A terminal state is final: whatever is called on a completed, failed, cancelled, unverified or
  expired task, the task stays exactly as it is, and no transition is reported.
\<close>

theorem terminal_tasks_are_final:
  assumes "task_reach t" "task_is_terminal t"
  shows "\<exists>r. task_exec op t = Some (r, t) \<and> (\<forall>tr. r \<noteq> Inr (Some tr))"
proof -
  from task_exec_good [OF reach_task_inv [OF assms(1)], of op] obtain r t' where
    x: "task_exec op t = Some (r, t')" "good_call t (r, t')" by fastforce
  with terminal_calls [OF assms(2)] have "t' = t" by simp
  moreover have "r \<noteq> Inr (Some tr)" for tr
    using x(2) no_edge_from_terminal [of "tt_reason tr" "state_kind (at_state t)"] assms(2)
    unfolding good_call_def reports_def task_is_terminal_def by auto
  ultimately show ?thesis using x(1) by blast
qed

lemma terminal_tasks_are_final_witness:
  "\<exists>r. task_exec (TOp_Verify 2 vr_verified 30) (task_run [TOp_Cancel ''stop'' 20] demo_verifying) =
     Some (r, task_run [TOp_Cancel ''stop'' 20] demo_verifying)"
proof -
  have "task_reach (task_run [TOp_Cancel ''stop'' 20] demo_verifying)"
    unfolding demo_verifying_def demo_executing_def task_run_append [symmetric] by (rule task_reach_demo)
  moreover have "task_is_terminal (task_run [TOp_Cancel ''stop'' 20] demo_verifying)" by code_simp
  ultimately show ?thesis using terminal_tasks_are_final by blast
qed

text \<open>
  C6. The generation fence: once the generation of a task has moved past \<open>g\<close>, through any further
  calls, the two calls that carry a generation, a late observation and a late verification, are refused
  for \<open>g\<close> and leave the task exactly as it is. In the state that would take such work the error
  is \<open>StaleGeneration\<close> with the current generation and \<open>g\<close>; in every other state it is the invalid
  transition that names the state and the call.
\<close>

theorem stale_work_is_fenced:
  assumes "task_reach t" "task_step_rel\<^sup>*\<^sup>* t t'" "g \<le> at_generation t" "at_generation t < at_generation t'"
  shows "record_observation g result verification t' =
      (Inl (if state_kind (at_state t') = TK_Executing then TE_StaleGeneration (at_generation t') g
            else TE_InvalidTransition (state_kind (at_state t')) ''record_observation''), t')
    \<and> verify_task g vresult now t' =
      (Inl (if state_kind (at_state t') = TK_Verifying then TE_StaleGeneration (at_generation t') g
            else TE_InvalidTransition (state_kind (at_state t')) ''verify''), t')"
proof -
  have inv: "task_inv t'" using reach_steps [OF assms(2,1)] by (rule reach_task_inv)
  have "g \<noteq> at_generation t'" using assms(3,4) by simp
  moreover have "state_kind (TS_Waiting c) \<noteq> TK_Executing" "state_kind (TS_Waiting c) \<noteq> TK_Verifying" for c
    by (simp_all split: pending_commitment_kind.split)
  ultimately show ?thesis using inv
    by (cases "at_state t'") (simp_all add: record_observation_def verify_task_def invalid_transition_def task_inv_def)
qed

text \<open>A verification that arrives after a replan, and an observation that arrives after a retry.\<close>

theorem stale_work_is_fenced_witness:
  "fst (verify_task 1 vr_verified 30 (task_run [TOp_Replan 20] demo_verifying)) =
     Inl (TE_InvalidTransition TK_Planning ''verify'') \<and>
   (\<forall>r v. fst (record_observation 1 r v (task_run [TOp_RetryCurrentStep 20, TOp_BeginExecution 0 21] demo_executing)) =
     Inl (TE_StaleGeneration 3 1))"
proof (intro conjI allI)
  have "task_step_rel\<^sup>*\<^sup>* demo_verifying (task_run [TOp_Replan 20] demo_verifying)"
    by (rule task_steps_run [OF reach_task_inv [OF task_reach_verifying]])
  moreover have "1 \<le> at_generation demo_verifying"
    "at_generation demo_verifying < at_generation (task_run [TOp_Replan 20] demo_verifying)"
    "state_kind (at_state (task_run [TOp_Replan 20] demo_verifying)) = TK_Planning" by code_simp+
  ultimately show "fst (verify_task 1 vr_verified 30 (task_run [TOp_Replan 20] demo_verifying)) =
      Inl (TE_InvalidTransition TK_Planning ''verify'')"
    using stale_work_is_fenced [OF task_reach_verifying] by (simp add: prod_eq_iff)
next
  fix r v
  let ?ops = "[TOp_RetryCurrentStep 20, TOp_BeginExecution 0 21]"
  have "task_step_rel\<^sup>*\<^sup>* demo_executing (task_run ?ops demo_executing)"
    by (rule task_steps_run [OF reach_task_inv [OF task_reach_executing]])
  moreover have "1 \<le> at_generation demo_executing" "at_generation demo_executing < at_generation (task_run ?ops demo_executing)"
    "state_kind (at_state (task_run ?ops demo_executing)) = TK_Executing" "at_generation (task_run ?ops demo_executing) = 3"
    by code_simp+
  ultimately show "fst (record_observation 1 r v (task_run ?ops demo_executing)) = Inl (TE_StaleGeneration 3 1)"
    using stale_work_is_fenced [OF task_reach_executing] by (simp add: prod_eq_iff)
qed

text \<open>
  The bounds every reachable task keeps: at most 64 steps and the configured numbers of steps,
  observations, retries and replans; generations are bounded by the work the limits allow, so at most
  1137; exactly the executing step is marked so, and it carries the current generation; every kept
  observation belongs to a step of the current plan and to no later generation.
\<close>

theorem task_work_is_bounded:
  assumes "task_reach t"
  shows "length (at_steps t) \<le> tl_max_steps (at_limits t) \<and> tl_max_steps (at_limits t) \<le> 64
     \<and> length (at_observations t) \<le> tl_max_observations (at_limits t)
     \<and> at_retries t \<le> tl_max_retries (at_limits t) \<and> at_replans t \<le> tl_max_replans (at_limits t)
     \<and> at_generation t \<le> (tl_max_steps (at_limits t) + 1) * (at_replans t + 1) + 2 * at_retries t
     \<and> at_generation t \<le> 1137
     \<and> (case at_state t of TS_Executing i g \<Rightarrow> g = at_generation t \<and> i < length (at_steps t) \<and>
           tst_state (at_steps t ! i) = Step_Executing | _ \<Rightarrow> True)
     \<and> list_all (\<lambda>ob. tob_step_index ob < length (at_steps t) \<and> tob_generation ob \<le> at_generation t)
         (at_observations t)"
proof -
  have inv: "task_inv t" using assms by (rule reach_task_inv)
  then have "at_generation t \<le> (tl_max_steps (at_limits t) + 1) * (at_replans t + 1) + 2 * at_retries t"
    using started_le [of "at_steps t"]
    by (auto simp: task_inv_def generation_paid_def counters_ok_def split: if_splits)
  moreover have "case at_state t of TS_Executing i g \<Rightarrow> g = at_generation t \<and> i < length (at_steps t) \<and>
      tst_state (at_steps t ! i) = Step_Executing | _ \<Rightarrow> True"
    using executing_step [OF inv] by (auto split: task_state.split)
  moreover have "tl_max_steps (at_limits t) \<le> 64" using inv by (simp add: task_inv_def counters_ok_def limits_ok_def)
  ultimately show ?thesis
    using inv generation_room [OF inv]
    by (simp add: task_inv_def counters_ok_def observations_ok_def list_all_iff)
qed

lemma task_work_is_bounded_witness:
  "at_generation demo_verifying \<le> 1137 \<and> length (at_steps demo_verifying) \<le> tl_max_steps (at_limits demo_verifying)"
  using task_work_is_bounded [OF task_reach_verifying] by blast

text \<open>
  Expiry of a running task: at or after its deadline it becomes \<open>Expired\<close>; before that, a wait
  whose commitment has run out becomes \<open>NotVerified\<close>; otherwise the call changes nothing. The
  generation moves on with either, so results of work in flight are stale.
\<close>

theorem expiry_outcome:
  assumes "task_reach t" "\<not> task_is_terminal t" "at_updated_at_ms t \<le> now"
    and "expire_if_needed now t = (r, t')"
    and "commitment_due = (\<exists>c. at_state t = TS_Waiting c \<and> pc_expires_at_ms c \<le> now)"
  shows "if at_expires_at_ms t \<le> now
         then at_state t' = TS_Expired \<and> at_outcome t' = Some TO_Expired \<and> at_generation t' = at_generation t + 1
         else if commitment_due
         then at_state t' = TS_NotVerified \<and> (\<exists>why. at_outcome t' = Some (TO_NotVerified why)) \<and>
              at_generation t' = at_generation t + 1
         else r = Inr None \<and> t' = t"
proof -
  have inv: "task_inv t" using assms(1) by (rule reach_task_inv)
  have case_None: "(case at_state t of TS_Waiting c \<Rightarrow> if pc_expires_at_ms c \<le> now then Some (pc_kind c) else None
      | _ \<Rightarrow> None) = None" if "\<not> commitment_due"
    using that assms(5) by (auto split: task_state.split)
  show ?thesis
    using assms(2-5) case_None
    by (auto simp: expire_if_needed_def guard_def ensure_monotonic_time_def bump_generation_ok [OF inv]
        transition_to_def Let_def)
qed

lemma expiry_outcome_witness:
  "at_state (snd (expire_if_needed 900010 demo_executing)) = TS_Expired"
proof -
  obtain r t' where r: "expire_if_needed 900010 demo_executing = (r, t')" by fastforce
  have "\<not> task_is_terminal demo_executing" "at_updated_at_ms demo_executing \<le> 900010"
    "at_expires_at_ms demo_executing \<le> 900010" by code_simp+
  then show ?thesis using expiry_outcome [OF task_reach_executing _ _ r refl] r by simp
qed

end
