(* ===== verification/Task_Plane.thy ===== *)
theory Task_Plane
  imports Task_Inv
begin

text \<open>
  The task plane of \<open>crates/app/src/task_plane.rs\<close> with the transition collector of
  \<open>crates/telemetry/src/task_transition.rs\<close>: the map of active tasks, the ring of retained terminal
  tasks and the bounded record of transitions. A method returns its result with the plane; the two that
  reach an indexing operation of the task return an option, as in \<open>Domain_Task\<close>.
\<close>

section \<open>Transition telemetry\<close>

record task_transition_observation =
  tto_task_id :: string
  tto_from :: task_state_kind
  tto_to :: task_state_kind
  tto_reason :: task_transition_reason
  tto_at_ms :: u64
  tto_generation :: u64
  tto_retries :: u32
  tto_replans :: u32

definition observation_of :: "task_transition \<Rightarrow> task_transition_observation" where
  "observation_of tr =
     \<lparr>tto_task_id = task_id_as_str (tt_task_id tr), tto_from = tt_from tr, tto_to = tt_to tr,
      tto_reason = tt_reason tr, tto_at_ms = tt_at_ms tr, tto_generation = tt_generation tr,
      tto_retries = tt_retries tr, tto_replans = tt_replans tr\<rparr>"

record transition_collector =
  tc_records :: "task_transition_observation list"
  tc_max_records :: usize
  tc_high_water :: usize
  tc_evicted :: u64

text \<open>\<open>with_retention\<close>; the assertion that \<open>max_records\<close> is positive is the panic \<open>None\<close>.\<close>

definition collector_with_retention :: "usize \<Rightarrow> transition_collector option" where
  "collector_with_retention n =
     (if 0 < n then Some \<lparr>tc_records = [], tc_max_records = n, tc_high_water = 0, tc_evicted = 0\<rparr> else None)"

text \<open>\<open>record\<close>: the conversion, then the ring with its two counters.\<close>

definition push_observation :: "task_transition_observation \<Rightarrow> transition_collector \<Rightarrow> transition_collector" where
  "push_observation ob c =
     (let (kept, evicted) = trim_ring (tc_max_records c) (tc_records c @ [ob]) (tc_evicted c)
      in c\<lparr>tc_records := kept, tc_evicted := evicted, tc_high_water := max (tc_high_water c) (length kept)\<rparr>)"

definition collector_record :: "task_transition \<Rightarrow> transition_collector \<Rightarrow> transition_collector" where
  "collector_record tr = push_observation (observation_of tr)"

lemma tc_records_push:
  "tc_records (push_observation x c) = keep_last (tc_max_records c) (tc_records c @ [x])"
  using fst_trim_ring [of "tc_max_records c" "tc_records c @ [x]" "tc_evicted c"]
  by (auto simp: push_observation_def keep_last_def split_beta)

lemma push_observation_fields [simp]:
  "tc_max_records (push_observation x c) = tc_max_records c"
  "tc_high_water (push_observation x c) = max (tc_high_water c) (length (tc_records (push_observation x c)))"
  by (simp_all add: push_observation_def split_beta)

interpretation transition_log: bounded_log push_observation tc_records "\<lambda>c. Some (tc_max_records c)"
  by unfold_locales (simp_all add: tc_records_push)

section \<open>The plane\<close>

definition MAX_ACTIVE_TASKS_HARD :: nat where "MAX_ACTIVE_TASKS_HARD = 256"
definition MAX_RETAINED_TASKS_HARD :: nat where "MAX_RETAINED_TASKS_HARD = 512"
definition MAX_TASK_TRANSITION_RECORDS_HARD :: nat where "MAX_TASK_TRANSITION_RECORDS_HARD = 16384"

record task_plane_config =
  tpc_max_active_tasks :: usize
  tpc_max_retained_tasks :: usize
  tpc_max_transition_records :: usize

definition default_plane_config :: task_plane_config where
  "default_plane_config =
     \<lparr>tpc_max_active_tasks = 32, tpc_max_retained_tasks = 64, tpc_max_transition_records = 1024\<rparr>"

datatype task_plane_error =
  TPE_InvalidConfiguration string
| TPE_DuplicateTask task_id
| TPE_ActiveCapacityExceeded
| TPE_UnknownTask task_id
| TPE_TaskNotActive task_id task_state_kind
| TPE_StaleCommit u64 u64
| TPE_Task task_error

definition plane_config_validate :: "task_plane_config \<Rightarrow> task_plane_error + task_plane_config" where
  "plane_config_validate c =
     (if tpc_max_active_tasks c = 0 \<or> MAX_ACTIVE_TASKS_HARD < tpc_max_active_tasks c
      then Inl (TPE_InvalidConfiguration ''max_active_tasks'')
      else if tpc_max_retained_tasks c = 0 \<or> MAX_RETAINED_TASKS_HARD < tpc_max_retained_tasks c
      then Inl (TPE_InvalidConfiguration ''max_retained_tasks'')
      else if tpc_max_transition_records c = 0 \<or> MAX_TASK_TRANSITION_RECORDS_HARD < tpc_max_transition_records c
      then Inl (TPE_InvalidConfiguration ''max_transition_records'')
      else Inr c)"

record 'v task_plane =
  tp_active :: "(task_id, 'v agent_task) bmap"
  tp_retained :: "'v agent_task list"
  tp_transitions :: transition_collector
  tp_config :: task_plane_config

text \<open>The outer option is the assertion of the collector.\<close>

definition task_plane_new :: "task_plane_config \<Rightarrow> (task_plane_error + 'v task_plane) option" where
  "task_plane_new config0 =
     (case plane_config_validate config0 of
        Inl e \<Rightarrow> Some (Inl e)
      | Inr config \<Rightarrow>
          map_option
            (\<lambda>c. Inr \<lparr>tp_active = [], tp_retained = [], tp_transitions = c, tp_config = config\<rparr>)
            (collector_with_retention (tpc_max_transition_records config)))"

type_synonym ('v, 'a) plane_result = "(task_plane_error + 'a) \<times> 'v task_plane"

definition retained_find :: "task_id \<Rightarrow> 'v task_plane \<Rightarrow> 'v agent_task option" where
  "retained_find i p = List.find (\<lambda>t. at_id t = i) (rev (tp_retained p))"

definition plane_task :: "task_id \<Rightarrow> 'v task_plane \<Rightarrow> 'v agent_task option" where
  "plane_task i p = (case bm_get (tp_active p) i of Some t \<Rightarrow> Some t | None \<Rightarrow> retained_find i p)"

definition create_task ::
  "task_id \<Rightarrow> string \<Rightarrow> u64 \<Rightarrow> task_limits \<Rightarrow> 'v task_plane \<Rightarrow> ('v, unit) plane_result" where
  "create_task i requested created limits p =
     (if plane_task i p \<noteq> None then (Inl (TPE_DuplicateTask i), p)
      else if tpc_max_active_tasks (tp_config p) \<le> length (tp_active p) then (Inl TPE_ActiveCapacityExceeded, p)
      else case agent_task_new i requested created limits of
          Inl e \<Rightarrow> (Inl (TPE_Task e), p)
        | Inr t \<Rightarrow> (Inr (), p\<lparr>tp_active := bm_insert i t (tp_active p)\<rparr>))"

definition active_mut :: "task_id \<Rightarrow> 'v task_plane \<Rightarrow> task_plane_error + 'v agent_task" where
  "active_mut i p =
     (case bm_get (tp_active p) i of
        Some t \<Rightarrow> Inr t
      | None \<Rightarrow>
          (case retained_find i p of
             Some t \<Rightarrow> Inl (TPE_TaskNotActive i (state_kind (at_state t)))
           | None \<Rightarrow> Inl (TPE_UnknownTask i)))"

definition accept_transition :: "task_transition \<Rightarrow> 'v task_plane \<Rightarrow> 'v task_plane" where
  "accept_transition tr p =
     (let p1 = p\<lparr>tp_transitions := collector_record tr (tp_transitions p)\<rparr>
      in if kind_is_terminal (tt_to tr) then
           (case bm_get (tp_active p1) (tt_task_id tr) of
              None \<Rightarrow> p1
            | Some t \<Rightarrow>
                p1\<lparr>tp_active := bm_remove (tt_task_id tr) (tp_active p1),
                   tp_retained := fst (trim_ring (tpc_max_retained_tasks (tp_config p1)) (tp_retained p1 @ [t]) 0)\<rparr>)
         else p1)"

text \<open>Writing back through the \<open>&mut AgentTask\<close> that \<open>active_mut\<close> returned.\<close>

definition put_task :: "task_id \<Rightarrow> 'v agent_task \<Rightarrow> 'v task_plane \<Rightarrow> 'v task_plane" where
  "put_task i t p = p\<lparr>tp_active := bm_insert i t (tp_active p)\<rparr>"

text \<open>\<open>let transition = self.active_mut(id)?.f(..)?; Ok(self.accept_transition(transition))\<close>\<close>

definition plane_call ::
  "task_id \<Rightarrow> ('v agent_task \<Rightarrow> ('v, task_transition) task_result) \<Rightarrow> 'v task_plane \<Rightarrow>
     ('v, task_transition) plane_result" where
  "plane_call i f p =
     (case active_mut i p of
        Inl e \<Rightarrow> (Inl e, p)
      | Inr t \<Rightarrow>
          (case f t of
             (Inl e, t') \<Rightarrow> (Inl (TPE_Task e), put_task i t' p)
           | (Inr tr, t') \<Rightarrow> (Inr tr, accept_transition tr (put_task i t' p))))"

text \<open>The same around an operation that may panic.\<close>

definition plane_call_opt ::
  "task_id \<Rightarrow> ('v agent_task \<Rightarrow> ('v, task_transition) task_result option) \<Rightarrow> 'v task_plane \<Rightarrow>
     ('v, task_transition) plane_result option" where
  "plane_call_opt i f p =
     (case active_mut i p of
        Inl e \<Rightarrow> Some (Inl e, p)
      | Inr t \<Rightarrow>
          (case f t of
             None \<Rightarrow> None
           | Some (Inl e, t') \<Rightarrow> Some (Inl (TPE_Task e), put_task i t' p)
           | Some (Inr tr, t') \<Rightarrow> Some (Inr tr, accept_transition tr (put_task i t' p))))"

text \<open>\<open>Ok(self.active_mut(id)?.f(..)?)\<close>\<close>

definition plane_update ::
  "task_id \<Rightarrow> ('v agent_task \<Rightarrow> ('v, 'a) task_result) \<Rightarrow> 'v task_plane \<Rightarrow> ('v, 'a) plane_result" where
  "plane_update i f p =
     (case active_mut i p of
        Inl e \<Rightarrow> (Inl e, p)
      | Inr t \<Rightarrow>
          (case f t of
             (Inl e, t') \<Rightarrow> (Inl (TPE_Task e), put_task i t' p)
           | (Inr x, t') \<Rightarrow> (Inr x, put_task i t' p)))"

definition plane_begin_planning :: "task_id \<Rightarrow> u64 \<Rightarrow> 'v task_plane \<Rightarrow> ('v, task_transition) plane_result" where
  "plane_begin_planning i now = plane_call i (begin_planning now)"

definition plane_add_step :: "task_id \<Rightarrow> string \<Rightarrow> 'v task_plane \<Rightarrow> ('v, usize) plane_result" where
  "plane_add_step i description = plane_update i (add_step description)"

definition plane_mark_ready :: "task_id \<Rightarrow> u64 \<Rightarrow> 'v task_plane \<Rightarrow> ('v, task_transition) plane_result" where
  "plane_mark_ready i now = plane_call i (mark_ready now)"

definition plane_wait_for ::
  "task_id \<Rightarrow> pending_commitment_kind \<Rightarrow> string \<Rightarrow> u64 \<Rightarrow> u64 \<Rightarrow> 'v task_plane \<Rightarrow> ('v, task_transition) plane_result" where
  "plane_wait_for i kind summary ttl now = plane_call i (wait_for kind summary ttl now)"

definition plane_resume :: "task_id \<Rightarrow> u64 \<Rightarrow> 'v task_plane \<Rightarrow> ('v, task_transition) plane_result" where
  "plane_resume i now = plane_call i (resume now)"

definition plane_begin_execution :: "task_id \<Rightarrow> usize \<Rightarrow> u64 \<Rightarrow> 'v task_plane \<Rightarrow> ('v, task_transition) plane_result" where
  "plane_begin_execution i step now = plane_call i (begin_execution step now)"

text \<open>\<open>ToolExecutionEvidence\<close> of \<open>tool_execution.rs\<close>.\<close>

record 'v tool_evidence =
  tev_result :: "'v tool_execution_result"
  tev_verification :: tool_verification_outcome

definition plane_record_tool_evidence ::
  "task_id \<Rightarrow> u64 \<Rightarrow> 'v tool_evidence \<Rightarrow> 'v task_plane \<Rightarrow> ('v, unit) plane_result" where
  "plane_record_tool_evidence i observed ev =
     plane_update i (record_observation observed (tev_result ev) (tev_verification ev))"

definition plane_finish_step :: "task_id \<Rightarrow> u64 \<Rightarrow> 'v task_plane \<Rightarrow> ('v, task_transition) plane_result option" where
  "plane_finish_step i now = plane_call_opt i (finish_step now)"

definition plane_retry_current_step ::
  "task_id \<Rightarrow> u64 \<Rightarrow> 'v task_plane \<Rightarrow> ('v, task_transition) plane_result option" where
  "plane_retry_current_step i now = plane_call_opt i (retry_current_step now)"

definition plane_replan :: "task_id \<Rightarrow> u64 \<Rightarrow> 'v task_plane \<Rightarrow> ('v, task_transition) plane_result" where
  "plane_replan i now = plane_call i (replan now)"

definition plane_cancel :: "task_id \<Rightarrow> string \<Rightarrow> u64 \<Rightarrow> 'v task_plane \<Rightarrow> ('v, task_transition) plane_result" where
  "plane_cancel i why now = plane_call i (cancel_task why now)"

record commit_state_snapshot =
  css_observed_generation :: u64
  css_cancelled :: bool

definition execution_snapshot :: "task_id \<Rightarrow> 'v task_plane \<Rightarrow> task_plane_error + commit_state_snapshot" where
  "execution_snapshot i p =
     (case plane_task i p of
        None \<Rightarrow> Inl (TPE_UnknownTask i)
      | Some t \<Rightarrow>
          Inr \<lparr>css_observed_generation = at_generation t,
               css_cancelled = (state_kind (at_state t) = TK_Cancelled)\<rparr>)"

definition commit_verification ::
  "task_id \<Rightarrow> u64 \<Rightarrow> verification_result \<Rightarrow> u64 \<Rightarrow> 'v task_plane \<Rightarrow> ('v, task_transition) plane_result" where
  "commit_verification i expected result now p =
     (case active_mut i p of
        Inl e \<Rightarrow> (Inl e, p)
      | Inr t \<Rightarrow>
          if at_generation t \<noteq> expected then (Inl (TPE_StaleCommit expected (at_generation t)), p)
          else
            (case verify_task expected result now t of
               (Inl e, t') \<Rightarrow> (Inl (TPE_Task e), put_task i t' p)
             | (Inr tr, t') \<Rightarrow> (Inr tr, accept_transition tr (put_task i t' p))))"

text \<open>The loop of \<open>expire\<close> over the ids collected at its start; an error leaves it early.\<close>

fun expire_loop :: "task_id list \<Rightarrow> u64 \<Rightarrow> usize \<Rightarrow> 'v task_plane \<Rightarrow> ('v, usize) plane_result" where
  "expire_loop [] now expired p = (Inr expired, p)"
| "expire_loop (i # ids) now expired p =
     (case active_mut i p of
        Inl e \<Rightarrow> (Inl e, p)
      | Inr t \<Rightarrow>
          (case expire_if_needed now t of
             (Inl e, t') \<Rightarrow> (Inl (TPE_Task e), put_task i t' p)
           | (Inr None, t') \<Rightarrow> expire_loop ids now expired (put_task i t' p)
           | (Inr (Some tr), t') \<Rightarrow>
               expire_loop ids now (expired + 1) (accept_transition tr (put_task i t' p))))"

definition plane_expire :: "u64 \<Rightarrow> 'v task_plane \<Rightarrow> ('v, usize) plane_result" where
  "plane_expire now p = expire_loop (bm_keys (tp_active p)) now 0 p"

end
