(* ===== verification/Task_Plane_Inv.thy ===== *)
theory Task_Plane_Inv
  imports Task_Plane
begin

text \<open>
  The invariant of the task plane, its preservation by every method, and the plane as a transition
  system. The task-level contract \<open>good_call\<close> is all that is used of the tasks.
\<close>

section \<open>Invariant\<close>

definition running_task :: "task_id \<Rightarrow> 'v agent_task \<Rightarrow> bool" where
  "running_task i t \<longleftrightarrow> at_id t = i \<and> task_inv t \<and> \<not> task_is_terminal t"

definition retained_ok :: "'v task_plane \<Rightarrow> bool" where
  "retained_ok p \<longleftrightarrow>
     (\<forall>t\<in>set (tp_retained p). task_inv t \<and> task_is_terminal t \<and> bm_get (tp_active p) (at_id t) = None) \<and>
     distinct (map at_id (tp_retained p)) \<and> length (tp_retained p) \<le> tpc_max_retained_tasks (tp_config p)"

definition collector_ok :: "transition_collector \<Rightarrow> bool" where
  "collector_ok c \<longleftrightarrow> length (tc_records c) \<le> tc_high_water c \<and> tc_high_water c \<le> tc_max_records c"

definition plane_inv :: "'v task_plane \<Rightarrow> bool" where
  "plane_inv p \<longleftrightarrow>
     bm_ok (tp_active p) \<and> (\<forall>i t. bm_get (tp_active p) i = Some t \<longrightarrow> running_task i t) \<and>
     length (tp_active p) \<le> tpc_max_active_tasks (tp_config p) \<and> retained_ok p \<and>
     collector_ok (tp_transitions p) \<and>
     tc_max_records (tp_transitions p) = tpc_max_transition_records (tp_config p) \<and>
     0 < tpc_max_retained_tasks (tp_config p)"

lemma bm_insert_same: "bm_ok m \<Longrightarrow> bm_get m k = Some v \<Longrightarrow> bm_insert k v m = m"
proof (induction k v m rule: bm_insert.induct)
  case (2 k v k' v' m)
  show ?case
  proof (cases "k = k'")
    case False
    with "2.prems" have "bm_get m k = Some v" by (simp add: bm_get_def)
    then have "k \<in> fst ` set m" unfolding bm_get_def by (force dest: map_of_SomeD)
    with "2.prems"(1) have "k' < k" by (auto simp: bm_ok_Cons)
    with "2.IH" "2.prems" False \<open>bm_get m k = Some v\<close> show ?thesis by (auto simp: bm_ok_Cons)
  qed (use "2.prems" in \<open>simp add: bm_get_def\<close>)
qed (simp add: bm_get_def)

lemma bm_remove_insert: "bm_remove k (bm_insert k v m) = bm_remove k m"
  unfolding bm_remove_def by (induction k v m rule: bm_insert.induct) auto

lemma put_same: "plane_inv p \<Longrightarrow> bm_get (tp_active p) i = Some t \<Longrightarrow> put_task i t p = p"
  by (simp add: plane_inv_def put_task_def bm_insert_same)

lemma active_mut_iff: "active_mut i p = Inr t \<longleftrightarrow> bm_get (tp_active p) i = Some t"
  by (auto simp: active_mut_def split: option.splits)

lemma collector_ok_record: "collector_ok c \<Longrightarrow> collector_ok (collector_record tr c)"
  by (auto simp: collector_ok_def collector_record_def tc_records_push)

lemma tc_max_record [simp]: "tc_max_records (collector_record tr c) = tc_max_records c"
  by (simp add: collector_record_def)

section \<open>Putting back and accepting\<close>

lemma plane_inv_put:
  assumes "plane_inv p" "bm_get (tp_active p) i = Some t" "running_task i t'"
  shows "plane_inv (put_task i t' p)"
proof -
  have "length (bm_insert i t' (tp_active p)) = length (tp_active p)"
    using assms by (intro bm_insert_old_length) (auto simp: plane_inv_def)
  moreover have "at_id u \<noteq> i" if "u \<in> set (tp_retained p)" for u
    using assms that by (auto simp: plane_inv_def retained_ok_def)
  ultimately show ?thesis
    using assms by (auto simp: plane_inv_def put_task_def retained_ok_def)
qed

lemma plane_inv_record:
  "plane_inv p \<Longrightarrow> plane_inv (p\<lparr>tp_transitions := collector_record tr (tp_transitions p)\<rparr>)"
  by (auto simp: plane_inv_def retained_ok_def collector_ok_record)

text \<open>Retiring an active task.\<close>

lemma distinct_keep_last: "distinct xs \<Longrightarrow> distinct (keep_last n xs)"
  by (simp add: keep_last_def)

lemma map_keep_last: "map f (keep_last n xs) = keep_last n (map f xs)"
  by (simp add: keep_last_def drop_map)

lemma plane_inv_retire:
  assumes "plane_inv p" "bm_get (tp_active p) i = Some t0" "at_id t = i" "task_inv t" "task_is_terminal t"
  shows "plane_inv (p\<lparr>tp_active := bm_remove i (tp_active p),
      tp_retained := keep_last (tpc_max_retained_tasks (tp_config p)) (tp_retained p @ [t])\<rparr>)"
proof -
  have fresh: "at_id u \<noteq> i" if "u \<in> set (tp_retained p)" for u
    using assms(1,2) that by (auto simp: plane_inv_def retained_ok_def)
  then have "i \<notin> at_id ` set (tp_retained p)" by blast
  then have "distinct (map at_id (tp_retained p @ [t]))"
    using assms(1,3) by (auto simp: plane_inv_def retained_ok_def)
  then have "distinct (map at_id (keep_last (tpc_max_retained_tasks (tp_config p)) (tp_retained p @ [t])))"
    unfolding map_keep_last by (rule distinct_keep_last)
  moreover have "u \<in> set (tp_retained p) \<or> u = t"
    if "u \<in> set (keep_last (tpc_max_retained_tasks (tp_config p)) (tp_retained p @ [t]))" for u
    using set_keep_last [of "tpc_max_retained_tasks (tp_config p)" "tp_retained p @ [t]"] that by auto
  moreover have "length (bm_remove i (tp_active p)) \<le> length (tp_active p)" by (rule bm_remove_length_le)
  ultimately show ?thesis
    using assms fresh unfolding plane_inv_def retained_ok_def
    by (auto intro: le_trans) blast+
qed

text \<open>What accepting a reported transition does to the plane.\<close>

lemma reported_transition:
  assumes "plane_inv p" "bm_get (tp_active p) i = Some t" "good_call t (Inr (Some tr), t')"
  shows "at_id t' = i \<and> task_inv t' \<and> tt_task_id tr = i \<and> tt_to tr = state_kind (at_state t')"
proof -
  have "running_task i t" using assms(1,2) by (simp add: plane_inv_def)
  with assms(3) show ?thesis
    by (auto simp: running_task_def good_call_def same_identity_def reports_def)
      (metis task_transition.select_convs)+
qed

lemma accept_put_terminal:
  assumes "plane_inv p" "bm_get (tp_active p) i = Some t" "good_call t (Inr (Some tr), t')" "task_is_terminal t'"
  shows "accept_transition tr (put_task i t' p) =
    p\<lparr>tp_active := bm_remove i (tp_active p),
      tp_retained := keep_last (tpc_max_retained_tasks (tp_config p)) (tp_retained p @ [t']),
      tp_transitions := collector_record tr (tp_transitions p)\<rparr>"
proof -
  note t' = reported_transition [OF assms(1-3)]
  then have "kind_is_terminal (tt_to tr)" using assms(4) by (simp add: task_is_terminal_def del: terminal_states)
  with t' show ?thesis
    by (simp add: accept_transition_def put_task_def fst_trim_ring keep_last_def bm_remove_insert)
qed

lemma accept_put:
  assumes "plane_inv p" "bm_get (tp_active p) i = Some t" "good_call t (Inr (Some tr), t')"
  shows "plane_inv (accept_transition tr (put_task i t' p))
     \<and> tp_transitions (accept_transition tr (put_task i t' p)) = collector_record tr (tp_transitions p)
     \<and> tp_config (accept_transition tr (put_task i t' p)) = tp_config p
     \<and> (\<forall>j. bm_get (tp_active (accept_transition tr (put_task i t' p))) j =
            (if j = i then (if task_is_terminal t' then None else Some t') else bm_get (tp_active p) j))"
proof (cases "task_is_terminal t'")
  case False
  note t' = reported_transition [OF assms]
  with False have "\<not> kind_is_terminal (tt_to tr)" by (simp add: task_is_terminal_def del: terminal_states)
  then have "accept_transition tr (put_task i t' p) =
      (put_task i t' p)\<lparr>tp_transitions := collector_record tr (tp_transitions p)\<rparr>"
    by (simp add: accept_transition_def put_task_def)
  moreover have "plane_inv (put_task i t' p)"
    using False t' by (intro plane_inv_put [OF assms(1,2)]) (simp add: running_task_def)
  ultimately show ?thesis
    using plane_inv_record [of "put_task i t' p" tr] False by (simp add: put_task_def)
next
  case True
  note t' = reported_transition [OF assms]
  have "plane_inv (p\<lparr>tp_active := bm_remove i (tp_active p),
      tp_retained := keep_last (tpc_max_retained_tasks (tp_config p)) (tp_retained p @ [t'])\<rparr>)"
    using t' by (intro plane_inv_retire [OF assms(1,2)] True) simp_all
  from plane_inv_record [OF this, of tr] True show ?thesis
    by (simp add: accept_put_terminal [OF assms True])
qed

section \<open>Every method keeps the invariant\<close>

text \<open>
  The contract of a method on one task: an error leaves the plane as it was, a success records the
  transition it reports, if any, and touches no other task.
\<close>

definition plane_good ::
  "task_id \<Rightarrow> 'v task_plane \<Rightarrow> (task_plane_error + task_transition option) \<times> 'v task_plane \<Rightarrow> bool" where
  "plane_good i p x \<longleftrightarrow>
     plane_inv (snd x) \<and> tp_config (snd x) = tp_config p \<and>
     (\<forall>j. j \<noteq> i \<longrightarrow> bm_get (tp_active (snd x)) j = bm_get (tp_active p) j) \<and>
     (case fst x of
        Inl e \<Rightarrow> snd x = p
      | Inr None \<Rightarrow> tp_transitions (snd x) = tp_transitions p
      | Inr (Some tr) \<Rightarrow> tp_transitions (snd x) = collector_record tr (tp_transitions p))"

abbreviation plane_reported :: "(task_plane_error + task_transition) \<times> 'v task_plane \<Rightarrow>
    (task_plane_error + task_transition option) \<times> 'v task_plane"
  where "plane_reported x \<equiv> (map_sum id Some (fst x), snd x)"

abbreviation plane_silent :: "(task_plane_error + 'a) \<times> 'v task_plane \<Rightarrow>
    (task_plane_error + task_transition option) \<times> 'v task_plane"
  where "plane_silent x \<equiv> (map_sum id (\<lambda>_. None) (fst x), snd x)"

lemma plane_good_error: "plane_inv p \<Longrightarrow> plane_good i p (Inl e, p)"
  by (simp add: plane_good_def)

lemma plane_call_as_opt: "Some (plane_call i f p) = plane_call_opt i (\<lambda>t. Some (f t)) p"
  by (auto simp: plane_call_def plane_call_opt_def split: sum.split prod.split)

lemma plane_call_opt_good:
  assumes "plane_inv p" "\<And>t. task_inv t \<Longrightarrow> \<exists>x. f t = Some x \<and> good_call t (reported x)"
  shows "\<exists>x. plane_call_opt i f p = Some x \<and> plane_good i p (plane_reported x)"
proof (cases "active_mut i p")
  case (Inl e)
  with assms show ?thesis by (simp add: plane_call_opt_def plane_good_error)
next
  case (Inr t)
  then have t: "bm_get (tp_active p) i = Some t" by (simp add: active_mut_iff)
  with assms(1) have "task_inv t" by (auto simp: plane_inv_def running_task_def)
  from assms(2) [OF this] obtain r t' where x: "f t = Some (r, t')" "good_call t (reported (r, t'))" by fastforce
  show ?thesis
  proof (cases r)
    case (Inl e)
    with x have "t' = t" by (simp add: good_call_def)
    with Inl x Inr t assms(1) show ?thesis by (simp add: plane_call_opt_def put_same plane_good_error)
  next
    case tr: (Inr tr)
    with x have "good_call t (Inr (Some tr), t')" by simp
    from accept_put [OF assms(1) t this] Inr tr x show ?thesis
      by (auto simp: plane_call_opt_def plane_good_def)
  qed
qed

lemma plane_call_good:
  assumes "plane_inv p" "\<And>t. task_inv t \<Longrightarrow> good_call t (reported (f t))"
  shows "plane_good i p (plane_reported (plane_call i f p))"
  using plane_call_opt_good [OF assms(1), of "\<lambda>t. Some (f t)" i] assms(2)
  by (simp flip: plane_call_as_opt)

lemma plane_update_good:
  assumes "plane_inv p" "\<And>t. task_inv t \<Longrightarrow> good_call t (silent (f t))"
  shows "plane_good i p (plane_silent (plane_update i f p))"
proof (cases "active_mut i p")
  case (Inl e)
  with assms show ?thesis by (simp add: plane_update_def plane_good_error)
next
  case (Inr t)
  then have t: "bm_get (tp_active p) i = Some t" by (simp add: active_mut_iff)
  with assms(1) have run: "running_task i t" by (simp add: plane_inv_def)
  obtain r t' where x: "f t = (r, t')" by fastforce
  with assms(2) [of t] run have good: "good_call t (silent (r, t'))" by (simp add: running_task_def)
  show ?thesis
  proof (cases r)
    case (Inl e)
    with good have "t' = t" by (simp add: good_call_def)
    with Inl x Inr t assms(1) show ?thesis by (simp add: plane_update_def put_same plane_good_error)
  next
    case (Inr y)
    with good run have "running_task i t'"
      by (auto simp: good_call_def running_task_def same_identity_def task_is_terminal_def)
    from plane_inv_put [OF assms(1) t this] \<open>active_mut i p = Inr t\<close> Inr x show ?thesis
      by (simp add: plane_update_def plane_good_def put_task_def)
  qed
qed

lemma create_task_good:
  assumes "plane_inv p"
  shows "plane_good i p (plane_silent (create_task i req created limits p))"
proof (cases "fst (create_task i req created limits p)")
  case (Inl e)
  then have "create_task i req created limits p = (Inl e, p)"
    by (auto simp: create_task_def split: if_splits sum.splits)
  with assms show ?thesis by (simp add: plane_good_error)
next
  case (Inr u)
  then obtain t where t: "plane_task i p = None" "length (tp_active p) < tpc_max_active_tasks (tp_config p)"
    "agent_task_new i req created limits = Inr t"
    "create_task i req created limits p = (Inr u, p\<lparr>tp_active := bm_insert i t (tp_active p)\<rparr>)"
    by (auto simp: create_task_def split: if_splits sum.splits)
  then have none: "bm_get (tp_active p) i = None" "retained_find i p = None"
    by (auto simp: plane_task_def split: option.splits)
  have "task_inv t" using t(3) by (intro task_inv_init) (auto simp: task_init_def)
  then have "running_task i t"
    using t(3) by (auto simp: running_task_def agent_task_new_def rust_simps task_is_terminal_def)
  moreover have "at_id u \<noteq> i" if "u \<in> set (tp_retained p)" for u
    using none(2) that by (auto simp: retained_find_def find_None_iff)
  ultimately show ?thesis
    using assms none t by (auto simp: plane_good_def plane_inv_def retained_ok_def bm_insert_fresh_length)
qed

lemma commit_verification_good:
  assumes "plane_inv p"
  shows "plane_good i p (plane_reported (commit_verification i g r now p))"
proof -
  have "commit_verification i g r now p = plane_call i (verify_task g r now) p"
    if "active_mut i p = Inl e \<or> active_mut i p = Inr t \<and> at_generation t = g" for e t
    using that by (auto simp: commit_verification_def plane_call_def split: sum.split)
  moreover have "commit_verification i g r now p = (Inl (TPE_StaleCommit g (at_generation t)), p)"
    if "active_mut i p = Inr t" "at_generation t \<noteq> g" for t
    using that by (simp add: commit_verification_def)
  moreover have "plane_good i p (plane_reported (plane_call i (verify_task g r now) p))"
    by (rule plane_call_good [OF assms good_call_verify])
  ultimately show ?thesis
    using plane_good_error [OF assms]
    by (cases "active_mut i p"; cases "\<exists>t. active_mut i p = Inr t \<and> at_generation t = g") auto
qed

section \<open>Expiry\<close>

definition due :: "u64 \<Rightarrow> 'v agent_task \<Rightarrow> bool" where
  "due now t \<longleftrightarrow>
     at_expires_at_ms t \<le> now \<or> (\<exists>c. at_state t = TS_Waiting c \<and> pc_expires_at_ms c \<le> now)"

lemma expire_cases:
  assumes "running_task i t"
  shows "now < at_updated_at_ms t \<and> expire_if_needed now t = (Inl (TE_NonMonotonicTime (at_updated_at_ms t) now), t)
     \<or> at_updated_at_ms t \<le> now \<and> \<not> due now t \<and> expire_if_needed now t = (Inr None, t)
     \<or> at_updated_at_ms t \<le> now \<and> due now t \<and>
         (\<exists>tr t'. expire_if_needed now t = (Inr (Some tr), t') \<and> task_is_terminal t' \<and>
            good_call t (Inr (Some tr), t'))"
proof -
  from assms have inv: "task_inv t" and run: "\<not> task_is_terminal t" by (auto simp: running_task_def)
  have due: "(case at_state t of TS_Waiting c \<Rightarrow> if pc_expires_at_ms c \<le> now then Some (pc_kind c) else None
      | _ \<Rightarrow> None) = None \<longleftrightarrow> (\<forall>c. at_state t = TS_Waiting c \<longrightarrow> now < pc_expires_at_ms c)"
    by (auto split: task_state.split)
  show ?thesis
  proof (cases "at_updated_at_ms t \<le> now \<and> due now t")
    case True
    then have "\<exists>tr t'. expire_if_needed now t = (Inr (Some tr), t') \<and> task_is_terminal t'"
      using run due
      by (auto simp: expire_if_needed_def guard_def ensure_monotonic_time_def bump_generation_ok [OF inv]
          transition_to_def Let_def due_def task_is_terminal_def)
    then obtain tr t' where x: "expire_if_needed now t = (Inr (Some tr), t')" "task_is_terminal t'" by blast
    with good_call_expire [OF inv, of now] True show ?thesis by auto
  next
    case False
    with run due show ?thesis
      by (auto simp: expire_if_needed_def guard_def ensure_monotonic_time_def due_def not_le split: option.split)
  qed
qed

lemma length_bm_remove:
  "bm_ok m \<Longrightarrow> bm_get m k = Some v \<Longrightarrow> length m = Suc (length (bm_remove k m))"
proof (induction m)
  case (Cons kv m)
  obtain k' v' where kv: "kv = (k', v')" by (cases kv)
  show ?case
  proof (cases "k = k'")
    case True
    with Cons.prems kv have "filter (\<lambda>(k', _). k' \<noteq> k) m = m"
      by (intro filter_True) (auto simp: bm_ok_Cons)
    with True kv show ?thesis by (simp add: bm_remove_def)
  next
    case False
    with Cons kv show ?thesis by (simp add: bm_ok_Cons bm_remove_def bm_get_def)
  qed
qed (simp add: bm_get_def)

lemma accept_put_length:
  assumes "plane_inv p" "bm_get (tp_active p) i = Some t" "good_call t (Inr (Some tr), t')" "task_is_terminal t'"
  shows "length (tp_active p) = Suc (length (tp_active (accept_transition tr (put_task i t' p))))"
  using length_bm_remove [OF _ assms(2)] assms(1)
  by (simp add: accept_put_terminal [OF assms] plane_inv_def)

text \<open>
  What the loop over \<open>ids\<close> achieves from \<open>p\<close>: only tasks of \<open>ids\<close> change, and a normal return means that
  each of them was due and is gone, or was not due and is as before.
\<close>

definition expire_post ::
  "task_id list \<Rightarrow> u64 \<Rightarrow> usize \<Rightarrow> 'v task_plane \<Rightarrow> task_plane_error + usize \<Rightarrow> 'v task_plane \<Rightarrow> bool" where
  "expire_post ids now n p r p' \<longleftrightarrow>
     plane_inv p' \<and> tp_config p' = tp_config p \<and>
     (\<forall>j. j \<notin> set ids \<longrightarrow> bm_get (tp_active p') j = bm_get (tp_active p) j) \<and>
     (\<forall>m. r = Inr m \<longrightarrow> m + length (tp_active p') = n + length (tp_active p)) \<and>
     (\<forall>m. r = Inr m \<longrightarrow> (\<forall>i\<in>set ids. \<forall>t. bm_get (tp_active p) i = Some t \<longrightarrow>
        bm_get (tp_active p') i = (if due now t then None else Some t))) \<and>
     ((\<forall>i\<in>set ids. \<forall>t. bm_get (tp_active p) i = Some t \<longrightarrow> at_updated_at_ms t \<le> now) \<longrightarrow> (\<exists>m. r = Inr m))"

lemma expire_post_Cons:
  assumes post: "expire_post ids now n' q r p'" and i: "i \<notin> set ids"
    and q: "tp_config q = tp_config p" "\<And>j. j \<noteq> i \<Longrightarrow> bm_get (tp_active q) j = bm_get (tp_active p) j"
    and t: "bm_get (tp_active p) i = Some t" "bm_get (tp_active q) i = (if due now t then None else Some t)"
    and len: "n' + length (tp_active q) = n + length (tp_active p)"
  shows "expire_post (i # ids) now n p r p'"
proof -
  have others: "bm_get (tp_active q) j = bm_get (tp_active p) j" if "j \<in> set ids" for j
    using that i q(2) by metis
  have i': "bm_get (tp_active p') i = bm_get (tp_active q) i" using post i by (simp add: expire_post_def)
  show ?thesis unfolding expire_post_def
  proof (intro conjI allI impI ballI)
    fix j assume "j \<notin> set (i # ids)"
    then show "bm_get (tp_active p') j = bm_get (tp_active p) j" using post q(2) by (simp add: expire_post_def)
  next
    fix m j u assume r: "r = Inr m" and j: "j \<in> set (i # ids)" and u: "bm_get (tp_active p) j = Some u"
    show "bm_get (tp_active p') j = (if due now u then None else Some u)"
    proof (cases "j = i")
      case True
      with t u i' show ?thesis by simp
    next
      case False
      with j have "j \<in> set ids" by simp
      with post r u others show ?thesis by (simp add: expire_post_def)
    qed
  next
    assume "\<forall>i\<in>set (i # ids). \<forall>t. bm_get (tp_active p) i = Some t \<longrightarrow> at_updated_at_ms t \<le> now"
    then have "\<forall>i\<in>set ids. \<forall>t. bm_get (tp_active q) i = Some t \<longrightarrow> at_updated_at_ms t \<le> now"
      using others by simp
    with post show "\<exists>m. r = Inr m" by (simp add: expire_post_def)
  qed (use post q(1) len in \<open>auto simp: expire_post_def\<close>)
qed

lemma expire_loop_post:
  assumes "plane_inv p" "distinct ids" "\<forall>i\<in>set ids. bm_get (tp_active p) i \<noteq> None"
    and "expire_loop ids now n p = (r, p')"
  shows "expire_post ids now n p r p'"
  using assms
proof (induction ids arbitrary: n p)
  case Nil
  then show ?case by (auto simp: expire_post_def)
next
  case (Cons i ids)
  from Cons.prems(3) obtain t where t: "bm_get (tp_active p) i = Some t" by fastforce
  then have act: "active_mut i p = Inr t" by (simp add: active_mut_iff)
  have run: "running_task i t" using Cons.prems(1) t by (simp add: plane_inv_def)
  have i: "i \<notin> set ids" "distinct ids" using Cons.prems(2) by auto
  have rest: "\<forall>j\<in>set ids. bm_get (tp_active q) j \<noteq> None"
    if "\<And>j. j \<noteq> i \<Longrightarrow> bm_get (tp_active q) j = bm_get (tp_active p) j" for q :: "'a task_plane"
    using that i Cons.prems(3) by (metis list.set_intros(2))
  consider (late) "now < at_updated_at_ms t"
      "expire_if_needed now t = (Inl (TE_NonMonotonicTime (at_updated_at_ms t) now), t)"
    | (keep) "\<not> due now t" "expire_if_needed now t = (Inr None, t)"
    | (ends) tr t' where "due now t" "expire_if_needed now t = (Inr (Some tr), t')" "task_is_terminal t'"
        "good_call t (Inr (Some tr), t')"
    using expire_cases [OF run, of now] by blast
  then show ?case
  proof cases
    case late
    with Cons.prems act t have "r = Inl (TPE_Task (TE_NonMonotonicTime (at_updated_at_ms t) now))" "p' = p"
      by (simp_all add: put_same)
    with late(1) t Cons.prems(1) show ?thesis by (force simp: expire_post_def)
  next
    case keep
    have "expire_loop ids now n p = (r, p')" using Cons.prems act keep t by (simp add: put_same)
    from Cons.IH [OF Cons.prems(1) i(2) rest this] have "expire_post ids now n p r p'" by simp
    then show ?thesis by (rule expire_post_Cons [OF _ i(1)]) (use keep t in auto)
  next
    case (ends tr t')
    let ?q = "accept_transition tr (put_task i t' p)"
    note a = accept_put [OF Cons.prems(1) t ends(4)]
    have len: "length (tp_active p) = Suc (length (tp_active ?q))" by (rule accept_put_length [OF Cons.prems(1) t ends(4,3)])
    have "expire_loop ids now (n + 1) ?q = (r, p')" using Cons.prems act ends by simp
    with a have "expire_post ids now (n + 1) ?q r p'" by (intro Cons.IH i(2) rest) simp_all
    then show ?thesis by (rule expire_post_Cons [OF _ i(1)]) (use ends a t len in auto)
  qed
qed

lemma expire_post_all:
  assumes "plane_inv p" "plane_expire now p = (r, p')"
  shows "expire_post (bm_keys (tp_active p)) now 0 p r p'"
  using assms
  by (intro expire_loop_post) (auto simp: plane_inv_def bm_keys_def bm_ok_distinct bm_get_eq_None plane_expire_def)

lemma key_of_active: "i \<in> set (bm_keys (tp_active p)) \<longleftrightarrow> bm_get (tp_active p) i \<noteq> None"
  by (simp add: bm_keys_def bm_get_eq_None)

section \<open>The transition system\<close>

datatype 'v plane_op =
  PO_CreateTask task_id string u64 task_limits
| PO_BeginPlanning task_id u64
| PO_AddStep task_id string
| PO_MarkReady task_id u64
| PO_WaitFor task_id pending_commitment_kind string u64 u64
| PO_Resume task_id u64
| PO_BeginExecution task_id usize u64
| PO_RecordToolEvidence task_id u64 "'v tool_evidence"
| PO_FinishStep task_id u64
| PO_RetryCurrentStep task_id u64
| PO_Replan task_id u64
| PO_Cancel task_id string u64
| PO_CommitVerification task_id u64 verification_result u64

fun plane_op_task :: "'v plane_op \<Rightarrow> task_id" where
  "plane_op_task (PO_CreateTask i _ _ _) = i"
| "plane_op_task (PO_BeginPlanning i _) = i"
| "plane_op_task (PO_AddStep i _) = i"
| "plane_op_task (PO_MarkReady i _) = i"
| "plane_op_task (PO_WaitFor i _ _ _ _) = i"
| "plane_op_task (PO_Resume i _) = i"
| "plane_op_task (PO_BeginExecution i _ _) = i"
| "plane_op_task (PO_RecordToolEvidence i _ _) = i"
| "plane_op_task (PO_FinishStep i _) = i"
| "plane_op_task (PO_RetryCurrentStep i _) = i"
| "plane_op_task (PO_Replan i _) = i"
| "plane_op_task (PO_Cancel i _ _) = i"
| "plane_op_task (PO_CommitVerification i _ _ _) = i"

fun plane_exec :: "'v plane_op \<Rightarrow> 'v task_plane \<Rightarrow>
    ((task_plane_error + task_transition option) \<times> 'v task_plane) option" where
  "plane_exec (PO_CreateTask i req created limits) p = Some (plane_silent (create_task i req created limits p))"
| "plane_exec (PO_BeginPlanning i now) p = Some (plane_reported (plane_begin_planning i now p))"
| "plane_exec (PO_AddStep i d) p = Some (plane_silent (plane_add_step i d p))"
| "plane_exec (PO_MarkReady i now) p = Some (plane_reported (plane_mark_ready i now p))"
| "plane_exec (PO_WaitFor i k s ttl now) p = Some (plane_reported (plane_wait_for i k s ttl now p))"
| "plane_exec (PO_Resume i now) p = Some (plane_reported (plane_resume i now p))"
| "plane_exec (PO_BeginExecution i st now) p = Some (plane_reported (plane_begin_execution i st now p))"
| "plane_exec (PO_RecordToolEvidence i g ev) p = Some (plane_silent (plane_record_tool_evidence i g ev p))"
| "plane_exec (PO_FinishStep i now) p = map_option plane_reported (plane_finish_step i now p)"
| "plane_exec (PO_RetryCurrentStep i now) p = map_option plane_reported (plane_retry_current_step i now p)"
| "plane_exec (PO_Replan i now) p = Some (plane_reported (plane_replan i now p))"
| "plane_exec (PO_Cancel i why now) p = Some (plane_reported (plane_cancel i why now p))"
| "plane_exec (PO_CommitVerification i g r now) p = Some (plane_reported (commit_verification i g r now p))"

lemma plane_exec_good:
  assumes "plane_inv p"
  shows "\<exists>x. plane_exec op p = Some x \<and> plane_good (plane_op_task op) p x"
proof (cases op)
  case (PO_FinishStep i now)
  have "\<exists>x. plane_call_opt i (finish_step now) p = Some x \<and> plane_good i p (plane_reported x)"
    by (rule plane_call_opt_good [OF assms good_call_finish_step])
  with PO_FinishStep show ?thesis by (auto simp: plane_finish_step_def)
next
  case (PO_RetryCurrentStep i now)
  have "\<exists>x. plane_call_opt i (retry_current_step now) p = Some x \<and> plane_good i p (plane_reported x)"
    by (rule plane_call_opt_good [OF assms good_call_retry])
  with PO_RetryCurrentStep show ?thesis by (auto simp: plane_retry_current_step_def)
qed (simp_all add: assms create_task_good commit_verification_good plane_begin_planning_def plane_add_step_def
    plane_mark_ready_def plane_wait_for_def plane_resume_def plane_begin_execution_def
    plane_record_tool_evidence_def plane_replan_def plane_cancel_def plane_call_good plane_update_good
    good_call_begin_planning good_call_add_step good_call_mark_ready good_call_wait_for good_call_resume
    good_call_begin_execution good_call_record_observation good_call_replan good_call_cancel)

definition plane_init :: "'v task_plane \<Rightarrow> bool" where
  "plane_init p \<longleftrightarrow> (\<exists>config. task_plane_new config = Some (Inr p))"

inductive plane_step :: "'v task_plane \<Rightarrow> 'v task_plane \<Rightarrow> bool" where
  plane_step_op: "plane_exec op p = Some (r, p') \<Longrightarrow> plane_step p p'"
| plane_step_expire: "plane_expire now p = (r, p') \<Longrightarrow> plane_step p p'"

inductive_cases plane_stepE: "plane_step p p'"

abbreviation plane_reach :: "'v task_plane \<Rightarrow> bool" where
  "plane_reach \<equiv> reach plane_init plane_step"

lemma plane_inv_init: "plane_init p \<Longrightarrow> plane_inv p"
  by (auto simp: plane_init_def task_plane_new_def collector_with_retention_def plane_config_validate_def
      plane_inv_def retained_ok_def collector_ok_def split: if_splits)

lemma plane_inv_step:
  assumes "plane_inv p" "plane_step p p'"
  shows "plane_inv p'"
  using assms(2)
proof (rule plane_stepE)
  fix op r assume "plane_exec op p = Some (r, p')"
  with plane_exec_good [OF assms(1), of op] show ?thesis by (auto simp: plane_good_def)
next
  fix now r assume "plane_expire now p = (r, p')"
  with expire_post_all [OF assms(1)] show ?thesis by (auto simp: expire_post_def)
qed

interpretation plane_sys: step_invariant plane_init plane_step plane_inv
  by unfold_locales (rule plane_inv_init, assumption, rule plane_inv_step)

lemmas reach_plane_inv = plane_sys.reach_inv

end
