(* ===== verification/Task_Plane_Claims.thy ===== *)
theory Task_Plane_Claims
  imports Task_Plane_Inv
begin

text \<open>The properties of the task plane, with a concrete run for the witnesses.\<close>

section \<open>A concrete run\<close>

fun plane_run :: "'v plane_op list \<Rightarrow> 'v task_plane \<Rightarrow> 'v task_plane" where
  "plane_run [] p = p"
| "plane_run (op # ops) p = plane_run ops (snd (the (plane_exec op p)))"

definition empty_plane :: "nat task_plane" where
  "empty_plane = (case task_plane_new default_plane_config of Some (Inr p) \<Rightarrow> p | _ \<Rightarrow> undefined)"

lemma plane_init_empty: "plane_init empty_plane"
proof -
  have "task_plane_new default_plane_config = Some (Inr empty_plane)" by code_simp
  then show ?thesis unfolding plane_init_def by blast
qed

lemma plane_reach_run: "plane_reach p \<Longrightarrow> plane_reach (plane_run ops p)"
proof (induction ops arbitrary: p)
  case (Cons op ops)
  from plane_exec_good [OF reach_plane_inv [OF Cons.prems], of op] obtain r p' where
    "plane_exec op p = Some (r, p')" by fastforce
  with Cons.IH [OF reach.reach_step [OF Cons.prems plane_step_op]] show ?case by simp
qed simp

abbreviation tA :: task_id where "tA \<equiv> TaskId ''task-a''"
abbreviation tB :: task_id where "tB \<equiv> TaskId ''task-b''"

text \<open>Task a is verifying its only step; task b is still being planned.\<close>

definition demo_plane :: "nat task_plane" where
  "demo_plane = plane_run
     [PO_CreateTask tA ''verified local work'' 10 default_task_limits, PO_BeginPlanning tA 11,
      PO_AddStep tA ''read'', PO_MarkReady tA 12, PO_BeginExecution tA 0 13, PO_FinishStep tA 14,
      PO_CreateTask tB ''other work'' 20 default_task_limits, PO_BeginPlanning tB 21] empty_plane"

lemma plane_reach_demo: "plane_reach demo_plane"
  unfolding demo_plane_def
  by (intro plane_reach_run, rule reach.reach_init, rule plane_init_empty)

section \<open>Properties\<close>

text \<open>
  A reachable plane is well formed: it never holds more than the configured active and retained
  tasks, every active task is filed under its own id and is not terminal, every retained task is
  terminal and no longer active, ids are unique, and the transition record respects its bound.
\<close>

theorem plane_is_well_formed:
  assumes "plane_reach p"
  shows "length (tp_active p) \<le> tpc_max_active_tasks (tp_config p)
     \<and> length (tp_retained p) \<le> tpc_max_retained_tasks (tp_config p)
     \<and> length (tc_records (tp_transitions p)) \<le> tpc_max_transition_records (tp_config p)
     \<and> list_all (\<lambda>(i, t). at_id t = i \<and> \<not> task_is_terminal t) (tp_active p)
     \<and> list_all (\<lambda>t. task_is_terminal t \<and> bm_get (tp_active p) (at_id t) = None) (tp_retained p)
     \<and> distinct (map fst (tp_active p)) \<and> distinct (map at_id (tp_retained p))"
proof -
  have inv: "plane_inv p" using assms by (rule reach_plane_inv)
  then have ok: "bm_ok (tp_active p)" by (simp add: plane_inv_def)
  have "running_task i t" if "(i, t) \<in> set (tp_active p)" for i t
    using inv bm_get_eq_Some [OF ok, of i t] that by (simp add: plane_inv_def)
  then have "list_all (\<lambda>(i, t). at_id t = i \<and> \<not> task_is_terminal t) (tp_active p)"
    by (auto simp: list_all_iff running_task_def)
  with inv bm_ok_distinct [OF ok] show ?thesis
    by (auto simp: plane_inv_def retained_ok_def collector_ok_def list_all_iff)
qed

lemma plane_is_well_formed_witness:
  "length (tp_active demo_plane) \<le> 32 \<and> list_all (\<lambda>(i, t). at_id t = i \<and> \<not> task_is_terminal t) (tp_active demo_plane)"
proof -
  have "tpc_max_active_tasks (tp_config demo_plane) = 32" by code_simp
  then show ?thesis using plane_is_well_formed [OF plane_reach_demo] by simp
qed

text \<open>
  Every method on one task returns; an error leaves the plane exactly as it was; a success touches
  no other active task, and the transition it returns is the newest entry of the transition record,
  which otherwise only loses entries at its old end.
\<close>

theorem plane_methods_total_and_local:
  assumes "plane_reach p"
  shows "\<exists>r p'. plane_exec op p = Some (r, p')
     \<and> (\<forall>j. j \<noteq> plane_op_task op \<longrightarrow> bm_get (tp_active p') j = bm_get (tp_active p) j)
     \<and> (case r of
          Inl e \<Rightarrow> p' = p
        | Inr None \<Rightarrow> tc_records (tp_transitions p') = tc_records (tp_transitions p)
        | Inr (Some tr) \<Rightarrow> tc_records (tp_transitions p') =
            keep_last (tpc_max_transition_records (tp_config p))
              (tc_records (tp_transitions p) @ [observation_of tr]))"
proof -
  have inv: "plane_inv p" using assms by (rule reach_plane_inv)
  from plane_exec_good [OF this, of op] obtain r p' where
    x: "plane_exec op p = Some (r, p')" "plane_good (plane_op_task op) p (r, p')" by fastforce
  moreover have "tc_max_records (tp_transitions p) = tpc_max_transition_records (tp_config p)"
    using inv by (simp add: plane_inv_def)
  ultimately show ?thesis
    by (auto simp: plane_good_def collector_record_def tc_records_push split: sum.splits option.splits)
qed

lemma plane_methods_total_and_local_witness:
  "\<exists>r p'. plane_exec (PO_Cancel tA ''stop'' 30) demo_plane = Some (r, p') \<and>
     bm_get (tp_active p') tB = bm_get (tp_active demo_plane) tB"
proof -
  have "tB \<noteq> plane_op_task (PO_Cancel tA ''stop'' 30)" by simp
  then show ?thesis using plane_methods_total_and_local [OF plane_reach_demo] by blast
qed

text \<open>
  Verification commits are fenced. A commit whose expected generation is not the task's current one
  is refused as stale and changes nothing; a commit that completes a task carried the current
  generation and the outcome \<open>Verified\<close>, found the task verifying, and moves it out of the active
  tasks into the newest retained place, from where no method reaches it again.
\<close>

theorem commits_are_fenced:
  assumes "plane_reach p" "bm_get (tp_active p) i = Some t"
    and "commit_verification i expected result now p = (r, p')"
  shows "(expected \<noteq> at_generation t \<longrightarrow> r = Inl (TPE_StaleCommit expected (at_generation t)) \<and> p' = p)
     \<and> (\<forall>tr. r = Inr tr \<longrightarrow>
          expected = at_generation t \<and> at_state t = TS_Verifying expected
        \<and> (tt_to tr = TK_Completed \<longleftrightarrow> vr_outcome result = VO_Verified)
        \<and> bm_get (tp_active p') i = None
        \<and> at_id (last (tp_retained p')) = i
        \<and> state_kind (at_state (last (tp_retained p'))) = tt_to tr
        \<and> active_mut i p' = Inl (TPE_TaskNotActive i (tt_to tr)))"
proof (cases "\<exists>tr. r = Inr tr")
  case False
  with assms(2,3) show ?thesis by (auto simp: commit_verification_def active_mut_def)
next
  case True
  then obtain tr where r: "r = Inr tr" by blast
  have inv: "plane_inv p" using assms(1) by (rule reach_plane_inv)
  have act: "active_mut i p = Inr t" using assms(2) by (simp add: active_mut_iff)
  from assms(3) r act obtain t' where v: "expected = at_generation t" "verify_task expected result now t = (Inr tr, t')"
    "p' = accept_transition tr (put_task i t' p)"
    by (auto simp: commit_verification_def split: if_splits prod.splits sum.splits)
  have "task_inv t" using inv assms(2) by (simp add: plane_inv_def running_task_def)
  from good_call_verify [OF this, of expected result now] v have good: "good_call t (Inr (Some tr), t')" by simp
  have st: "at_state t = TS_Verifying expected"
    "tt_to tr = TK_Completed \<longleftrightarrow> vr_outcome result = VO_Verified" "task_is_terminal t'"
    using v(2)
    by (auto simp: verify_task_def guard_def ensure_monotonic_time_def transition_to_def Let_def task_is_terminal_def
        split: task_state.splits if_splits task_verification_outcome.splits)
  note p' = accept_put_terminal [OF inv assms(2) good st(3), folded v(3)]
  note t' = reported_transition [OF inv assms(2) good]
  have "0 < tpc_max_retained_tasks (tp_config p)" using inv by (simp add: plane_inv_def)
  then have last: "\<exists>ts. keep_last (tpc_max_retained_tasks (tp_config p)) (tp_retained p @ [t']) = ts @ [t']"
    by (simp add: keep_last_def)
  then show ?thesis
    using r v(1) st t' p' by (auto simp: active_mut_def retained_find_def)
qed

lemma commits_are_fenced_witness:
  "\<exists>t p'. bm_get (tp_active demo_plane) tA = Some t \<and>
     commit_verification tA 7 vr_verified 30 demo_plane = (Inl (TPE_StaleCommit 7 (at_generation t)), p') \<and> p' = demo_plane"
proof -
  have "case bm_get (tp_active demo_plane) tA of Some t \<Rightarrow> at_generation t = 1 | None \<Rightarrow> False" by code_simp
  then obtain t where t: "bm_get (tp_active demo_plane) tA = Some t" "at_generation t = 1"
    by (auto split: option.splits)
  obtain r p' where "commit_verification tA 7 vr_verified 30 demo_plane = (r, p')" by fastforce
  with commits_are_fenced [OF plane_reach_demo t(1) this] t show ?thesis by auto
qed

text \<open>
  When the expiry sweep returns normally, every active task that was due (past its deadline, or
  waiting on a commitment that has run out) is retired, every other active task is exactly as before,
  and the result counts the retired ones. It returns normally whenever no active task was updated
  later than the sweep's time.
\<close>

theorem expiry_sweep_is_complete:
  assumes "plane_reach p" "plane_expire now p = (r, p')"
  shows "(\<forall>n. r = Inr n \<longrightarrow>
            (\<forall>i t. bm_get (tp_active p) i = Some t \<longrightarrow>
               bm_get (tp_active p') i = (if due now t then None else Some t))
          \<and> length (tp_active p') + n = length (tp_active p))
     \<and> ((\<forall>i t. bm_get (tp_active p) i = Some t \<longrightarrow> at_updated_at_ms t \<le> now) \<longrightarrow> (\<exists>n. r = Inr n))"
  using expire_post_all [OF reach_plane_inv [OF assms(1)] assms(2)]
  by (auto simp: expire_post_def key_of_active)

lemma expiry_sweep_is_complete_witness:
  "\<exists>r p'. plane_expire 900015 demo_plane = (r, p') \<and> bm_get (tp_active p') tA = None \<and>
     bm_get (tp_active p') tB = bm_get (tp_active demo_plane) tB"
proof -
  obtain r p' where x: "plane_expire 900015 demo_plane = (r, p')" by fastforce
  have "case fst (plane_expire 900015 demo_plane) of Inr n \<Rightarrow> n = 1 | Inl _ \<Rightarrow> False" by code_simp
  with x have r: "r = Inr 1" by (auto split: sum.splits)
  have "case bm_get (tp_active demo_plane) tA of Some t \<Rightarrow> at_expires_at_ms t \<le> 900015 | None \<Rightarrow> False"
    "case bm_get (tp_active demo_plane) tB of
       Some t \<Rightarrow> \<not> at_expires_at_ms t \<le> 900015 \<and> at_state t = TS_Planning | None \<Rightarrow> False" by code_simp+
  then obtain ta tb where t: "bm_get (tp_active demo_plane) tA = Some ta" "due 900015 ta"
    "bm_get (tp_active demo_plane) tB = Some tb" "\<not> due 900015 tb"
    by (auto simp: due_def split: option.splits)
  show ?thesis using expiry_sweep_is_complete [OF plane_reach_demo x] x r t by simp
qed

end
