(* ===== verification/Domain_Control.thy ===== *)
theory Domain_Control
  imports Domain_Event Domain_Tool "HOL-Library.Word"
begin

unbundle bit_operations_syntax

text \<open>
  The local control ingress of \<open>crates/domain/src/control.rs\<close> and the capability gate of
  \<open>interfaces.rs\<close>: the constant-time comparison of the session secret on bytes, the action allowlist,
  and the only path that mints an \<open>AuthenticatedControl\<close>. Secrets are the 32-byte arrays of the source,
  here lists of \<open>8 word\<close> of that length.
\<close>

section \<open>Data\<close>

definition CONTROL_SECRET_LEN :: nat where
  "CONTROL_SECRET_LEN = 32"

type_synonym control_secret = "8 word list"

text \<open>The type \<open>[u8; CONTROL_SECRET_LEN]\<close>.\<close>

definition is_secret :: "control_secret \<Rightarrow> bool" where
  "is_secret s \<longleftrightarrow> length s = CONTROL_SECRET_LEN"

record 'v operator_command_input =
  oci_event_id :: string
  oci_correlation_id :: string
  oci_sequence :: u64
  oci_observed_at :: string
  oci_action :: string
  oci_payload :: "(string, 'v) bmap"

record authenticated_control =
  auc_principal :: string
  auc_method :: authorization_method
  auc_capabilities :: "capability set"

definition has_capability :: "authenticated_control \<Rightarrow> capability \<Rightarrow> bool" where
  "has_capability a c \<longleftrightarrow> c \<in> auc_capabilities a"

record 'v authenticated_command =
  acm_event :: "'v event_envelope"
  acm_authority :: authenticated_control

datatype control_ingress_error =
  CIE_InvalidConfiguration string
| CIE_AuthenticationFailed
| CIE_ActionNotAllowlisted
| CIE_CapabilityNotGranted capability
| CIE_InvalidCommand string

record local_control_ingress =
  lci_source :: string
  lci_principal :: string
  lci_method :: authorization_method
  lci_capabilities :: "capability set"
  lci_secret :: control_secret

section \<open>Operations\<close>

text \<open>The accumulating loop over the zipped bytes; it never leaves early.\<close>

fun ct_difference :: "8 word \<Rightarrow> (8 word \<times> 8 word) list \<Rightarrow> 8 word" where
  "ct_difference d [] = d"
| "ct_difference d ((l, r) # ps) = ct_difference (d OR (l XOR r)) ps"

definition constant_time_eq :: "control_secret \<Rightarrow> control_secret \<Rightarrow> bool" where
  "constant_time_eq expected presented \<longleftrightarrow> ct_difference 0 (zip expected presented) = 0"

definition capability_for_action :: "string \<Rightarrow> capability option" where
  "capability_for_action action =
     (if action = ''stop'' \<or> action = ''performer.stop'' then Some PerformerStop
      else if action = ''mute'' \<or> action = ''performer.mute'' then Some PerformerMute
      else if action = ''obs.control'' then Some ObsControl
      else if action = ''avatar.control'' then Some AvatarControl
      else if action = ''memory.admin'' then Some MemoryAdmin
      else if action = ''tool.grant'' then Some ToolGrant
      else None)"

definition ingress_new ::
  "string \<Rightarrow> string \<Rightarrow> authorization_method \<Rightarrow> capability set \<Rightarrow> control_secret \<Rightarrow>
     control_ingress_error + local_control_ingress" where
  "ingress_new source princ meth capabilities secret =
     (if trim_is_empty source then Inl (CIE_InvalidConfiguration ''source'')
      else if trim_is_empty princ then Inl (CIE_InvalidConfiguration ''principal'')
      else if capabilities = {} then Inl (CIE_InvalidConfiguration ''capabilities'')
      else Inr \<lparr>lci_source = source, lci_principal = princ, lci_method = meth,
                lci_capabilities = capabilities, lci_secret = secret\<rparr>)"

definition verify_secret :: "control_secret \<Rightarrow> local_control_ingress \<Rightarrow> bool" where
  "verify_secret presented ing = constant_time_eq (lci_secret ing) presented"

text \<open>\<open>json_string\<close> is \<open>serde_json::Value::String\<close>.\<close>

definition control_event ::
  "(string \<Rightarrow> 'v) \<Rightarrow> 'v operator_command_input \<Rightarrow> capability \<Rightarrow> local_control_ingress \<Rightarrow> 'v event_envelope" where
  "control_event json_string input required ing =
     \<lparr>ev_schema_version = EVENT_SCHEMA_VERSION, ev_event_id = oci_event_id input,
      ev_correlation_id = oci_correlation_id input, ev_sequence = oci_sequence input,
      ev_observed_at = oci_observed_at input, ev_source = lci_source ing, ev_source_class = SC_Operator,
      ev_plane = Plane_Control, ev_trust_level = Trusted, ev_kind = OperatorCommand, ev_actor_id = None,
      ev_priority_hint = None,
      ev_authorization = Some \<lparr>ac_principal = lci_principal ing, ac_method = lci_method ing,
                               ac_capabilities = {required}\<rparr>,
      ev_payload = bm_insert ''action'' (json_string (oci_action input)) (oci_payload input)\<rparr>"

definition authenticate ::
  "(string \<Rightarrow> 'v) \<Rightarrow> 'v operator_command_input \<Rightarrow> control_secret \<Rightarrow> local_control_ingress \<Rightarrow>
     control_ingress_error + 'v authenticated_command" where
  "authenticate json_string input presented ing =
     (if \<not> constant_time_eq (lci_secret ing) presented then Inl CIE_AuthenticationFailed
      else case capability_for_action (oci_action input) of
          None \<Rightarrow> Inl CIE_ActionNotAllowlisted
        | Some required \<Rightarrow>
            if required \<notin> lci_capabilities ing then Inl (CIE_CapabilityNotGranted required)
            else
              let event = control_event json_string input required ing
              in case validate_event event of
                   Inl e \<Rightarrow> Inl (CIE_InvalidCommand (domain_error_display e))
                 | Inr _ \<Rightarrow>
                     Inr \<lparr>acm_event = event,
                          acm_authority = \<lparr>auc_principal = lci_principal ing, auc_method = lci_method ing,
                                           auc_capabilities = {required}\<rparr>\<rparr>)"

section \<open>The capability gate\<close>

record 'a authorized =
  au_action :: 'a
  au_principal :: string
  au_capability :: capability

text \<open>\<open>{:?}\<close> of a capability.\<close>

fun capability_debug :: "capability \<Rightarrow> string" where
  "capability_debug PerformerMute = ''PerformerMute''"
| "capability_debug PerformerStop = ''PerformerStop''"
| "capability_debug ObsControl = ''ObsControl''"
| "capability_debug AvatarControl = ''AvatarControl''"
| "capability_debug MemoryAdmin = ''MemoryAdmin''"
| "capability_debug ToolGrant = ''ToolGrant''"

definition authorize :: "authenticated_control \<Rightarrow> capability \<Rightarrow> 'a \<Rightarrow> engine_error + 'a authorized" where
  "authorize authority required action =
     (if \<not> has_capability authority required
      then Inl (engine_error_new EEK_Unauthorized
             (''missing authenticated capability: '' @ capability_debug required))
      else Inr \<lparr>au_action = action, au_principal = auc_principal authority, au_capability = required\<rparr>)"

text \<open>\<open>ToolAction\<close>, and the three entry points with the capability each one asks for.\<close>

record 'v tool_action =
  ta_tool :: string
  ta_operation :: string
  ta_arguments :: "(string, 'v) bmap"

definition authorize_avatar_action :: "authenticated_control \<Rightarrow> 'a \<Rightarrow> engine_error + 'a authorized" where
  "authorize_avatar_action authority action = authorize authority AvatarControl action"

definition authorize_stream_action :: "authenticated_control \<Rightarrow> 'a \<Rightarrow> engine_error + 'a authorized" where
  "authorize_stream_action authority action = authorize authority ObsControl action"

definition authorize_tool_action ::
  "authenticated_control \<Rightarrow> 'v tool_action \<Rightarrow> engine_error + 'v tool_action authorized" where
  "authorize_tool_action authority action = authorize authority ToolGrant action"

section \<open>The comparison\<close>

lemma or_eq_zero: "(a :: 8 word) OR b = 0 \<longleftrightarrow> a = 0 \<and> b = 0"
  by (rule or_eq_0_iff)

lemma xor_eq_zero: "(a :: 8 word) XOR b = 0 \<longleftrightarrow> a = b"
proof
  assume "a XOR b = 0"
  then have "a XOR (a XOR b) = a" by simp
  then show "a = b" by (simp add: xor.assoc [symmetric])
qed simp

lemma ct_difference_zero: "ct_difference d ps = 0 \<longleftrightarrow> d = 0 \<and> (\<forall>(l, r)\<in>set ps. l = r)"
  by (induction d ps rule: ct_difference.induct) (auto simp: or_eq_zero xor_eq_zero)

lemma constant_time_eq_iff:
  assumes "length a = length b"
  shows "constant_time_eq a b \<longleftrightarrow> a = b"
proof -
  have "(\<forall>(l, r)\<in>set (zip a b). l = r) \<longleftrightarrow> a = b"
    using assms by (induction rule: list_induct2) auto
  then show ?thesis by (simp add: constant_time_eq_def ct_difference_zero)
qed

section \<open>Properties\<close>

text \<open>
  The constant-time comparison of two session secrets decides their equality, although it always
  reads every byte.
\<close>

theorem secret_comparison_decides_equality:
  assumes "is_secret expected" "is_secret presented"
  shows "constant_time_eq expected presented \<longleftrightarrow> expected = presented"
  using assms by (intro constant_time_eq_iff) (simp add: is_secret_def)

lemma secret_comparison_decides_equality_witness:
  "\<not> constant_time_eq (replicate 32 7) ((replicate 31 7) @ [8])"
proof -
  have "is_secret (replicate 32 7)" "is_secret (replicate 31 7 @ [8])"
    by (simp_all add: is_secret_def CONTROL_SECRET_LEN_def)
  moreover have "last (replicate 32 7) \<noteq> last (replicate 31 7 @ [8 :: 8 word])" by simp
  then have "replicate 32 7 \<noteq> replicate 31 7 @ [8 :: 8 word]" by metis
  ultimately show ?thesis using secret_comparison_decides_equality by blast
qed

definition demo_ingress :: local_control_ingress where
  "demo_ingress = \<lparr>lci_source = ''local'', lci_principal = ''operator:test'', lci_method = OperatorHotkey,
     lci_capabilities = {PerformerStop, ObsControl}, lci_secret = replicate 32 9\<rparr>"

definition demo_command :: "string operator_command_input" where
  "demo_command = \<lparr>oci_event_id = ''evt'', oci_correlation_id = ''corr'', oci_sequence = 1,
     oci_observed_at = ''2026-09-24T00:00:00Z'', oci_action = ''performer.stop'', oci_payload = []\<rparr>"

text \<open>
  C7. Authority is minted only for the holder of the secret and only for the action asked for: a
  successful \<open>authenticate\<close> was given the ingress's own secret and an allowlisted action whose
  capability the ingress holds, and the authority it returns has exactly that one capability, under
  the ingress's principal and method; its event is a valid operator command that claims the same.
\<close>

theorem authority_is_scoped:
  assumes "is_secret (lci_secret ing)" "is_secret presented"
    and "authenticate json_string input presented ing = Inr cmd"
  shows "presented = lci_secret ing
     \<and> (\<exists>c. capability_for_action (oci_action input) = Some c \<and> c \<in> lci_capabilities ing
          \<and> (\<forall>c'. has_capability (acm_authority cmd) c' \<longleftrightarrow> c' = c)
          \<and> ev_authorization (acm_event cmd) = Some \<lparr>ac_principal = auc_principal (acm_authority cmd),
                ac_method = auc_method (acm_authority cmd), ac_capabilities = {c}\<rparr>)
     \<and> auc_principal (acm_authority cmd) = lci_principal ing
     \<and> validate_event (acm_event cmd) = Inr () \<and> ev_kind (acm_event cmd) = OperatorCommand
     \<and> bm_get (ev_payload (acm_event cmd)) ''action'' = Some (json_string (oci_action input))"
proof -
  from assms(3) obtain c where c: "constant_time_eq (lci_secret ing) presented"
    "capability_for_action (oci_action input) = Some c" "c \<in> lci_capabilities ing"
    "validate_event (control_event json_string input c ing) = Inr ()"
    "cmd = \<lparr>acm_event = control_event json_string input c ing,
            acm_authority = \<lparr>auc_principal = lci_principal ing, auc_method = lci_method ing, auc_capabilities = {c}\<rparr>\<rparr>"
    by (auto simp: authenticate_def Let_def split: if_splits option.splits sum.splits)
  moreover have "presented = lci_secret ing"
    using c(1) constant_time_eq_iff [of "lci_secret ing" presented] assms(1,2) by (simp add: is_secret_def)
  ultimately show ?thesis by (simp add: control_event_def has_capability_def)
qed

lemma authority_is_scoped_witness:
  "\<exists>cmd. authenticate id demo_command (replicate 32 9) demo_ingress = Inr cmd \<and>
     has_capability (acm_authority cmd) PerformerStop \<and> \<not> has_capability (acm_authority cmd) ObsControl"
proof -
  have "case authenticate id demo_command (replicate 32 9) demo_ingress of Inr _ \<Rightarrow> True | Inl _ \<Rightarrow> False" by code_simp
  then obtain cmd where r: "authenticate id demo_command (replicate 32 9) demo_ingress = Inr cmd"
    by (auto split: sum.splits)
  have s: "is_secret (lci_secret demo_ingress)" "is_secret (replicate 32 9)"
    by (simp_all add: is_secret_def CONTROL_SECRET_LEN_def demo_ingress_def)
  have "capability_for_action (oci_action demo_command) = Some PerformerStop" by code_simp
  with authority_is_scoped [OF s r] r show ?thesis by auto
qed

end
