(* ===== verification/Budget.thy ===== *)
theory Budget
  imports Prelude
begin

text \<open>
  The generative budget governor of \<open>crates/app/src/budget.rs\<close>: policy validation, admission against
  concurrency, call, unit, character and cost limits, settlement and release of reservations, and the
  accounting snapshot. The shared \<open>AtomicU32\<close> is the governor's field; a reservation records whether it
  holds a slot of it. \<open>fetch_add\<close> and \<open>fetch_sub\<close> wrap at 32 bits, and the iterator sums wrap at 64
  bits, as they do without overflow checks.
\<close>

section \<open>Policy\<close>

record budget_policy =
  bp_enabled :: bool
  bp_max_concurrent :: "u32 option"
  bp_max_llm_calls :: "u32 option"
  bp_max_tts_calls :: "u32 option"
  bp_max_llm_units :: "u64 option"
  bp_max_tts_chars :: "u64 option"
  bp_max_cost :: "u64 option"
  bp_pricing_input_version :: "string option"
  bp_interval_ms :: u64
  bp_high_priority_reserve_percent :: u32
  bp_charge_shadow_to_budget :: bool

definition default_budget_policy :: budget_policy where
  "default_budget_policy =
     \<lparr>bp_enabled = False, bp_max_concurrent = None, bp_max_llm_calls = None, bp_max_tts_calls = None,
      bp_max_llm_units = None, bp_max_tts_chars = None, bp_max_cost = None,
      bp_pricing_input_version = None, bp_interval_ms = 60000, bp_high_priority_reserve_percent = 0,
      bp_charge_shadow_to_budget = False\<rparr>"

record budget_config_error =
  bce_field :: string
  bce_message :: string

text \<open>The body of both loops over named limits.\<close>

fun first_zero_limit :: "(string \<times> nat option) list \<Rightarrow> string option" where
  "first_zero_limit [] = None"
| "first_zero_limit ((name, limit) # rest) = (if limit = Some 0 then Some name else first_zero_limit rest)"

definition budget_policy_validate :: "budget_policy \<Rightarrow> budget_config_error + budget_policy" where
  "budget_policy_validate p =
     (let zero = ''must be greater than zero when enforced'' in
      if bp_interval_ms p = 0
      then Inl \<lparr>bce_field = ''interval_ms'', bce_message = ''must be greater than zero''\<rparr>
      else case first_zero_limit
          [(''max_concurrent_generations'', bp_max_concurrent p),
           (''max_llm_calls_per_interval'', bp_max_llm_calls p),
           (''max_tts_calls_per_interval'', bp_max_tts_calls p)] of
        Some name \<Rightarrow> Inl \<lparr>bce_field = name, bce_message = zero\<rparr>
      | None \<Rightarrow>
          (case first_zero_limit
              [(''max_llm_units_per_interval'', bp_max_llm_units p),
               (''max_tts_chars_per_interval'', bp_max_tts_chars p),
               (''max_estimated_cost_milliunits_per_interval'', bp_max_cost p)] of
             Some name \<Rightarrow> Inl \<lparr>bce_field = name, bce_message = zero\<rparr>
           | None \<Rightarrow>
               if bp_max_cost p \<noteq> None \<and>
                  (case bp_pricing_input_version p of None \<Rightarrow> True | Some v \<Rightarrow> trim_is_empty v)
               then Inl \<lparr>bce_field = ''pricing_input_version'',
                         bce_message = ''is required when a cost budget is configured''\<rparr>
               else if 100 < bp_high_priority_reserve_percent p
               then Inl \<lparr>bce_field = ''high_priority_reserve_percent'', bce_message = ''must be within 0..=100''\<rparr>
               else Inr p))"

definition reserve_share :: "budget_policy \<Rightarrow> u64 \<Rightarrow> u64" where
  "reserve_share p limit = smul limit (bp_high_priority_reserve_percent p) div 100"

definition ordinary_share :: "budget_policy \<Rightarrow> u64 \<Rightarrow> u64" where
  "ordinary_share p limit = limit - reserve_share p limit"

datatype budget_priority = BP_High | BP_Ordinary | BP_Shadow

datatype budget_denial =
  BD_Concurrent | BD_LlmCalls | BD_TtsCalls | BD_LlmUnits | BD_TtsChars | BD_Cost

fun budget_denial_as_str :: "budget_denial \<Rightarrow> string" where
  "budget_denial_as_str BD_Concurrent = ''concurrent_budget_exhausted''"
| "budget_denial_as_str BD_LlmCalls = ''llm_call_budget_exhausted''"
| "budget_denial_as_str BD_TtsCalls = ''tts_call_budget_exhausted''"
| "budget_denial_as_str BD_LlmUnits = ''llm_unit_budget_exhausted''"
| "budget_denial_as_str BD_TtsChars = ''tts_char_budget_exhausted''"
| "budget_denial_as_str BD_Cost = ''cost_budget_exhausted''"

record budget_admission =
  ba_priority :: budget_priority
  ba_estimated_tts_chars :: u64
  ba_estimated_cost :: u64

definition admission_of :: "budget_priority \<Rightarrow> budget_admission" where
  "admission_of prio = \<lparr>ba_priority = prio, ba_estimated_tts_chars = 0, ba_estimated_cost = 0\<rparr>"

definition with_estimates :: "u64 \<Rightarrow> u64 \<Rightarrow> budget_admission \<Rightarrow> budget_admission" where
  "with_estimates chars cost a = a\<lparr>ba_estimated_tts_chars := chars, ba_estimated_cost := cost\<rparr>"

record budget_reservation =
  br_granted_at_ms :: u64
  br_charged_tts_chars :: u64
  br_charged_cost :: u64
  br_holds_slot :: bool
  br_finished :: bool

section \<open>Governor\<close>

record budget_governor =
  bg_policy :: budget_policy
  bg_llm_calls :: "u64 list"
  bg_tts_calls :: "u64 list"
  bg_llm_units :: "u64 list"
  bg_tts_chars :: "u64 list"
  bg_cost :: "u64 list"
  bg_in_flight :: u32
  bg_in_flight_high_water :: u32
  bg_denied_total :: u64
  bg_rejected_degraded :: u64
  bg_denials_by_reason :: "(budget_denial \<times> u64) list"

definition governor_new :: "budget_policy \<Rightarrow> budget_governor" where
  "governor_new p =
     \<lparr>bg_policy = p, bg_llm_calls = [], bg_tts_calls = [], bg_llm_units = [], bg_tts_chars = [],
      bg_cost = [], bg_in_flight = 0, bg_in_flight_high_water = 0, bg_denied_total = 0,
      bg_rejected_degraded = 0, bg_denials_by_reason = []\<rparr>"

definition is_enforced :: "budget_governor \<Rightarrow> bool" where
  "is_enforced g = bp_enabled (bg_policy g)"

definition slot_add :: "u32 \<Rightarrow> u32" where
  "slot_add n = (n + 1) mod 2 ^ 32"

definition slot_sub :: "u32 \<Rightarrow> u32" where
  "slot_sub n = (n + (2 ^ 32 - 1)) mod 2 ^ 32"

definition sum_u64 :: "u64 list \<Rightarrow> u64" where
  "sum_u64 xs = sum_list xs mod 2 ^ 64"

text \<open>\<open>while front < horizon { pop_front }\<close>\<close>

definition trim_ledger :: "u64 \<Rightarrow> u64 list \<Rightarrow> u64 list" where
  "trim_ledger horizon ledger = dropWhile (\<lambda>t. t < horizon) ledger"

definition trim_windows :: "u64 \<Rightarrow> budget_governor \<Rightarrow> budget_governor" where
  "trim_windows now g =
     (let horizon = now - bp_interval_ms (bg_policy g)
      in g\<lparr>bg_llm_calls := trim_ledger horizon (bg_llm_calls g),
           bg_tts_calls := trim_ledger horizon (bg_tts_calls g),
           bg_llm_units := trim_ledger horizon (bg_llm_units g),
           bg_tts_chars := trim_ledger horizon (bg_tts_chars g),
           bg_cost := trim_ledger horizon (bg_cost g)\<rparr>)"

text \<open>The entry of \<open>denials_by_reason\<close> that is counted up, or pushed.\<close>

fun count_denial :: "budget_denial \<Rightarrow> (budget_denial \<times> u64) list \<Rightarrow> (budget_denial \<times> u64) list" where
  "count_denial r [] = [(r, 1)]"
| "count_denial r ((known, n) # rest) =
     (if known = r then (known, sadd n 1) # rest else (known, n) # count_denial r rest)"

definition deny :: "budget_denial \<Rightarrow> budget_governor \<Rightarrow> (budget_denial + budget_reservation) \<times> budget_governor" where
  "deny r g =
     (Inl r, g\<lparr>bg_denied_total := sadd (bg_denied_total g) 1,
               bg_denials_by_reason := count_denial r (bg_denials_by_reason g)\<rparr>)"

definition uncharged_reservation :: "u64 \<Rightarrow> budget_reservation" where
  "uncharged_reservation now =
     \<lparr>br_granted_at_ms = now, br_charged_tts_chars = 0, br_charged_cost = 0, br_holds_slot = False,
      br_finished = False\<rparr>"

text \<open>The limit that applies to this admission: the whole of it for high priority.\<close>

definition effective_limit :: "budget_policy \<Rightarrow> budget_admission \<Rightarrow> u64 \<Rightarrow> u64" where
  "effective_limit p a limit = (if ba_priority a = BP_High then limit else ordinary_share p limit)"

text \<open>The checks of \<open>try_admit\<close>, in order: the first that fails is the denial.\<close>

definition budget_check :: "budget_admission \<Rightarrow> budget_governor \<Rightarrow> budget_denial option" where
  "budget_check a g =
     (let p = bg_policy g; over = (\<lambda>limit P. case limit of None \<Rightarrow> False | Some l \<Rightarrow> P l) in
      if over (bp_max_concurrent p) (\<lambda>l. l \<le> bg_in_flight g) then Some BD_Concurrent
      else if over (bp_max_llm_calls p) (\<lambda>l. effective_limit p a l \<le> length (bg_llm_calls g)) then Some BD_LlmCalls
      else if over (bp_max_tts_calls p) (\<lambda>l. effective_limit p a l \<le> length (bg_tts_calls g)) then Some BD_TtsCalls
      else if over (bp_max_llm_units p) (\<lambda>l. l \<le> sum_u64 (bg_llm_units g)) then Some BD_LlmUnits
      else if over (bp_max_tts_chars p)
          (\<lambda>l. effective_limit p a l < sadd (sum_u64 (bg_tts_chars g)) (ba_estimated_tts_chars a)) then Some BD_TtsChars
      else if over (bp_max_cost p) (\<lambda>l. l < sadd (sum_u64 (bg_cost g)) (ba_estimated_cost a)) then Some BD_Cost
      else None)"

text \<open>The grant: charge the configured ledgers, take a slot.\<close>

definition grant :: "budget_admission \<Rightarrow> u64 \<Rightarrow> budget_governor \<Rightarrow> (budget_denial + budget_reservation) \<times> budget_governor" where
  "grant a now g =
     (let p = bg_policy g;
          chars = (if bp_max_tts_chars p \<noteq> None then ba_estimated_tts_chars a else 0);
          cost = (if bp_max_cost p \<noteq> None then ba_estimated_cost a else 0);
          n = slot_add (bg_in_flight g)
      in (Inr \<lparr>br_granted_at_ms = now, br_charged_tts_chars = chars, br_charged_cost = cost,
               br_holds_slot = True, br_finished = False\<rparr>,
          g\<lparr>bg_llm_calls := (if bp_max_llm_calls p \<noteq> None then bg_llm_calls g @ [now] else bg_llm_calls g),
            bg_tts_calls := (if bp_max_tts_calls p \<noteq> None then bg_tts_calls g @ [now] else bg_tts_calls g),
            bg_tts_chars := (if 0 < chars then bg_tts_chars g @ [chars] else bg_tts_chars g),
            bg_cost := (if 0 < cost then bg_cost g @ [cost] else bg_cost g),
            bg_in_flight := n,
            bg_in_flight_high_water := max (bg_in_flight_high_water g) n\<rparr>))"

definition try_admit ::
  "budget_admission \<Rightarrow> u64 \<Rightarrow> budget_governor \<Rightarrow> (budget_denial + budget_reservation) \<times> budget_governor" where
  "try_admit a now g0 =
     (if \<not> is_enforced g0 then (Inr (uncharged_reservation now), g0)
      else if ba_priority a = BP_Shadow \<and> \<not> bp_charge_shadow_to_budget (bg_policy g0)
      then (Inr (uncharged_reservation now), g0)
      else
        let g = trim_windows now g0
        in case budget_check a g of
             Some r \<Rightarrow> deny r g
           | None \<Rightarrow> grant a now g)"

definition return_slot :: "bool \<Rightarrow> budget_governor \<Rightarrow> budget_governor" where
  "return_slot holds g = (if holds then g\<lparr>bg_in_flight := slot_sub (bg_in_flight g)\<rparr> else g)"

definition settle_units :: "u64 \<Rightarrow> u64 \<Rightarrow> u64 \<Rightarrow> u64 \<Rightarrow> bool \<Rightarrow> budget_governor \<Rightarrow> budget_governor" where
  "settle_units chars cost charged_chars charged_cost holds g0 =
     (let g = return_slot holds g0;
          extra_chars = chars - charged_chars;
          extra_cost = cost - charged_cost
      in g\<lparr>bg_tts_chars := (if 0 < extra_chars \<and> bp_max_tts_chars (bg_policy g) \<noteq> None
                            then bg_tts_chars g @ [extra_chars] else bg_tts_chars g),
           bg_cost := (if 0 < extra_cost \<and> bp_max_cost (bg_policy g) \<noteq> None
                       then bg_cost g @ [extra_cost] else bg_cost g)\<rparr>)"

definition settle ::
  "u64 \<Rightarrow> u64 \<Rightarrow> budget_reservation \<Rightarrow> budget_governor \<Rightarrow> budget_reservation \<times> budget_governor" where
  "settle chars cost r g =
     (if br_finished r then (r, g)
      else (r\<lparr>br_finished := True, br_holds_slot := False\<rparr>,
            settle_units chars cost (br_charged_tts_chars r) (br_charged_cost r) (br_holds_slot r) g))"

definition release :: "budget_reservation \<Rightarrow> budget_governor \<Rightarrow> budget_reservation \<times> budget_governor" where
  "release r g =
     (if br_finished r then (r, g)
      else (r\<lparr>br_finished := True, br_holds_slot := False\<rparr>,
            (return_slot (br_holds_slot r) g)\<lparr>bg_rejected_degraded := sadd (bg_rejected_degraded g) 1\<rparr>))"

definition drop_reservation :: "budget_reservation \<Rightarrow> budget_governor \<Rightarrow> budget_governor" where
  "drop_reservation r g = return_slot (br_holds_slot r) g"

definition note_degraded :: "budget_governor \<Rightarrow> budget_governor" where
  "note_degraded g = g\<lparr>bg_rejected_degraded := sadd (bg_rejected_degraded g) 1\<rparr>"

definition budget_tick :: "u64 \<Rightarrow> budget_governor \<Rightarrow> budget_governor" where
  "budget_tick now g = trim_windows now g"

section \<open>Snapshot\<close>

datatype budget_type = BT_Concurrent | BT_LlmCalls | BT_TtsCalls | BT_LlmUnits | BT_TtsChars | BT_EstimatedCost

fun budget_type_as_str :: "budget_type \<Rightarrow> string" where
  "budget_type_as_str BT_Concurrent = ''concurrent''"
| "budget_type_as_str BT_LlmCalls = ''llm_calls''"
| "budget_type_as_str BT_TtsCalls = ''tts_calls''"
| "budget_type_as_str BT_LlmUnits = ''llm_units''"
| "budget_type_as_str BT_TtsChars = ''tts_chars''"
| "budget_type_as_str BT_EstimatedCost = ''estimated_cost''"

record budget_record =
  bgr_type :: budget_type
  bgr_limit :: "u64 option"
  bgr_consumed :: u64
  bgr_remaining :: "u64 option"
  bgr_rejected_or_degraded :: u64

definition budget_record_of :: "budget_type \<Rightarrow> u64 option \<Rightarrow> u64 \<Rightarrow> u64 \<Rightarrow> budget_record list" where
  "budget_record_of ty limit consumed rejected =
     (case limit of None \<Rightarrow> []
      | Some l \<Rightarrow> [\<lparr>bgr_type = ty, bgr_limit = Some l, bgr_consumed = consumed,
                    bgr_remaining = Some (l - consumed), bgr_rejected_or_degraded = rejected\<rparr>])"

definition window_consumed :: "u64 \<Rightarrow> u64 list \<Rightarrow> u64" where
  "window_consumed horizon ledger = sum_u64 (filter (\<lambda>t. horizon \<le> t) ledger)"

definition budget_snapshot :: "u64 \<Rightarrow> budget_governor \<Rightarrow> budget_record list" where
  "budget_snapshot now g =
     (if \<not> is_enforced g then []
      else let p = bg_policy g; horizon = now - bp_interval_ms p; rejected = bg_rejected_degraded g in
        budget_record_of BT_Concurrent (bp_max_concurrent p) (bg_in_flight g) rejected @
        budget_record_of BT_LlmCalls (bp_max_llm_calls p) (length (bg_llm_calls g)) rejected @
        budget_record_of BT_TtsCalls (bp_max_tts_calls p) (length (bg_tts_calls g)) rejected @
        budget_record_of BT_LlmUnits (bp_max_llm_units p) (window_consumed horizon (bg_llm_units g)) rejected @
        budget_record_of BT_TtsChars (bp_max_tts_chars p) (window_consumed horizon (bg_tts_chars g)) rejected @
        budget_record_of BT_EstimatedCost (bp_max_cost p) (window_consumed horizon (bg_cost g)) rejected)"

end
