(* ===== verification/Budget_Claims.thy ===== *)
theory Budget_Claims
  imports Budget
begin

text \<open>
  The budget governor together with the reservations it has handed out, as a clocked transition system
  with the list of charged grants as history; the sliding-window and concurrency bounds, and the two
  places where the accounting does not do what its comments say.
\<close>

section \<open>Governor and reservations as one system\<close>

text \<open>\<open>bs_copies\<close> is history: how many clones were taken of reservations that held a slot.\<close>

record budget_sys =
  bs_gov :: budget_governor
  bs_res :: "budget_reservation list"
  bs_copies :: nat

datatype budget_op =
  BO_Admit budget_admission u64
| BO_Settle nat u64 u64
| BO_Release nat
| BO_Drop nat
| BO_Clone nat
| BO_Tick u64
| BO_NoteDegraded

type_synonym budget_state = "(budget_admission \<times> u64) list \<times> u64 \<times> budget_sys"

text \<open>
  A reservation is settled or released in place, and dropped once. It can be cloned (it derives
  \<open>Clone\<close>): the clone shares the counter and copies the flags, and is dropped on its own. The first component
  collects the charged grants with their times, the second is the latest time used.
\<close>

fun budget_next :: "budget_op \<Rightarrow> budget_state \<Rightarrow> budget_state" where
  "budget_next (BO_Admit a t) (G, now, s) =
     (case try_admit a t (bs_gov s) of
        (Inl _, g) \<Rightarrow> (G, t, s\<lparr>bs_gov := g\<rparr>)
      | (Inr r, g) \<Rightarrow> (if br_holds_slot r then G @ [(a, t)] else G, t, s\<lparr>bs_gov := g, bs_res := bs_res s @ [r]\<rparr>))"
| "budget_next (BO_Settle i chars cost) (G, now, s) =
     (if i < length (bs_res s) then
        let (r, g) = settle chars cost (bs_res s ! i) (bs_gov s)
        in (G, now, s\<lparr>bs_gov := g, bs_res := (bs_res s)[i := r]\<rparr>)
      else (G, now, s))"
| "budget_next (BO_Release i) (G, now, s) =
     (if i < length (bs_res s) then
        let (r, g) = release (bs_res s ! i) (bs_gov s)
        in (G, now, s\<lparr>bs_gov := g, bs_res := (bs_res s)[i := r]\<rparr>)
      else (G, now, s))"
| "budget_next (BO_Drop i) (G, now, s) =
     (if i < length (bs_res s) then
        (G, now, s\<lparr>bs_gov := drop_reservation (bs_res s ! i) (bs_gov s), bs_res := swap_remove (bs_res s) i\<rparr>)
      else (G, now, s))"
| "budget_next (BO_Clone i) (G, now, s) =
     (if i < length (bs_res s) then
        (G, now, s\<lparr>bs_res := bs_res s @ [bs_res s ! i],
                    bs_copies := bs_copies s + (if br_holds_slot (bs_res s ! i) then 1 else 0)\<rparr>)
      else (G, now, s))"
| "budget_next (BO_Tick t) (G, now, s) = (G, t, s\<lparr>bs_gov := budget_tick t (bs_gov s)\<rparr>)"
| "budget_next BO_NoteDegraded (G, now, s) = (G, now, s\<lparr>bs_gov := note_degraded (bs_gov s)\<rparr>)"

fun budget_time :: "budget_op \<Rightarrow> u64 option" where
  "budget_time (BO_Admit _ t) = Some t"
| "budget_time (BO_Tick t) = Some t"
| "budget_time _ = None"

definition budget_init :: "budget_policy \<Rightarrow> budget_state \<Rightarrow> bool" where
  "budget_init p x \<longleftrightarrow> x = ([], 0, \<lparr>bs_gov = governor_new p, bs_res = [], bs_copies = 0\<rparr>)"

definition budget_clock :: "budget_state \<Rightarrow> u64" where
  "budget_clock x = fst (snd x)"

text \<open>Logical time does not go back.\<close>

definition time_ok :: "budget_op \<Rightarrow> budget_state \<Rightarrow> bool" where
  "time_ok op x \<longleftrightarrow> (case budget_time op of None \<Rightarrow> True | Some t \<Rightarrow> budget_clock x \<le> t)"

inductive budget_step :: "budget_state \<Rightarrow> budget_state \<Rightarrow> bool" where
  "time_ok op x \<Longrightarrow> budget_step x (budget_next op x)"

inductive_simps budget_step_iff: "budget_step x y"

section \<open>Sliding windows\<close>

definition ledger_ok :: "u64 list \<Rightarrow> (budget_admission \<times> u64) list \<Rightarrow> u64 \<Rightarrow> u64 \<Rightarrow> bool" where
  "ledger_ok L G now interval \<longleftrightarrow>
     (\<exists>D. map snd G = D @ L \<and> (\<forall>d\<in>set D. d < now - interval)) \<and> (\<forall>x\<in>set G. snd x \<le> now)"

definition in_window :: "(budget_admission \<Rightarrow> bool) \<Rightarrow> u64 \<Rightarrow> u64 \<Rightarrow> (budget_admission \<times> u64) list \<Rightarrow> nat" where
  "in_window Q w interval G = length (filter (\<lambda>(a, t). Q a \<and> w \<le> t \<and> t \<le> w + interval) G)"

definition windows_ok :: "(budget_admission \<times> u64) list \<Rightarrow> u64 \<Rightarrow> nat \<Rightarrow> (budget_admission \<Rightarrow> bool) \<Rightarrow> bool" where
  "windows_ok G interval bound Q \<longleftrightarrow> (\<forall>w. in_window Q w interval G \<le> bound)"

lemma ledger_ok_trim:
  assumes "ledger_ok L G now I" "now \<le> t"
  shows "ledger_ok (trim_ledger (t - I) L) G t I"
proof -
  from assms(1) obtain D where D: "map snd G = D @ L" "\<forall>d\<in>set D. d < now - I" "\<forall>x\<in>set G. snd x \<le> now"
    by (auto simp: ledger_ok_def)
  have "now - I \<le> t - I" using assms(2) by simp
  then have "\<forall>d\<in>set (D @ takeWhile (\<lambda>x. x < t - I) L). d < t - I"
    using D(2) by (auto dest: set_takeWhileD)
  moreover have "map snd G = (D @ takeWhile (\<lambda>x. x < t - I) L) @ trim_ledger (t - I) L"
    using D(1) by (simp add: trim_ledger_def)
  ultimately show ?thesis
    using D(3) assms(2) unfolding ledger_ok_def by (meson le_trans)
qed

lemma ledger_ok_later: "ledger_ok L G now I \<Longrightarrow> now \<le> t \<Longrightarrow> ledger_ok L G t I"
  unfolding ledger_ok_def by (meson diff_le_mono le_trans order_less_le_trans)

lemma ledger_ok_grant: "ledger_ok L G t I \<Longrightarrow> ledger_ok (L @ [t]) (G @ [(a, t)]) t I"
  by (auto simp: ledger_ok_def)

lemma windows_ok_grant:
  assumes led: "ledger_ok L G t I" and room: "Q a \<Longrightarrow> length L < B" and win: "windows_ok G I B Q"
  shows "windows_ok (G @ [(a, t)]) I B Q"
  unfolding windows_ok_def
proof
  fix w
  have old: "in_window Q w I G \<le> B" using win by (simp add: windows_ok_def)
  show "in_window Q w I (G @ [(a, t)]) \<le> B"
  proof (cases "Q a \<and> w \<le> t \<and> t \<le> w + I")
    case True
    from led obtain D where D: "map snd G = D @ L" "\<forall>d\<in>set D. d < t - I" by (auto simp: ledger_ok_def)
    have "in_window Q w I G \<le> length (filter (\<lambda>x. t - I \<le> snd x) G)"
      unfolding in_window_def using True
      by (induction G) (auto split: prod.split)
    also have "\<dots> = length (filter (\<lambda>x. t - I \<le> x) (map snd G))" by (simp add: filter_map comp_def)
    also have "filter (\<lambda>x. t - I \<le> x) D = []" using D(2) by (auto simp: filter_empty_conv not_le)
    then have "length (filter (\<lambda>x. t - I \<le> x) (map snd G)) \<le> length L"
      unfolding D(1) by simp
    finally show ?thesis using True room by (simp add: in_window_def)
  next
    case False
    with old show ?thesis by (auto simp: in_window_def)
  qed
qed

lemma ordinary_share_le: "ordinary_share p l \<le> l"
  by (simp add: ordinary_share_def)

lemma effective_limit_le: "effective_limit p a l \<le> l"
  by (simp add: effective_limit_def ordinary_share_le)

section \<open>Invariant\<close>

definition is_ordinary :: "budget_admission \<Rightarrow> bool" where
  "is_ordinary a \<longleftrightarrow> ba_priority a \<noteq> BP_High"

definition call_ledger_ok ::
  "budget_policy \<Rightarrow> u32 option \<Rightarrow> u64 list \<Rightarrow> (budget_admission \<times> u64) list \<Rightarrow> u64 \<Rightarrow> bool" where
  "call_ledger_ok p limit L G now \<longleftrightarrow>
     (case limit of None \<Rightarrow> True
      | Some l \<Rightarrow> ledger_ok L G now (bp_interval_ms p) \<and>
          windows_ok G (bp_interval_ms p) l (\<lambda>_. True) \<and>
          windows_ok G (bp_interval_ms p) (ordinary_share p l) is_ordinary)"

definition holders :: "budget_reservation list \<Rightarrow> nat" where
  "holders rs = length (filter br_holds_slot rs)"

text \<open>A clone takes no slot but returns one: modulo \<open>2^32\<close> it counts as a holder less.\<close>

definition outstanding :: "budget_reservation list \<Rightarrow> nat \<Rightarrow> nat" where
  "outstanding rs copies = holders rs + copies * (2 ^ 32 - 1)"

lemma outstanding_0 [simp]: "outstanding rs 0 = holders rs"
  by (simp add: outstanding_def)

definition slots_ok :: "budget_sys \<Rightarrow> bool" where
  "slots_ok s \<longleftrightarrow>
     bg_in_flight (bs_gov s) = outstanding (bs_res s) (bs_copies s) mod 2 ^ 32 \<and>
     (\<forall>l. bs_copies s = 0 \<and> bp_max_concurrent (bg_policy (bs_gov s)) = Some l \<and> l \<le> u32_max \<longrightarrow>
        holders (bs_res s) \<le> l \<and> bg_in_flight_high_water (bs_gov s) \<le> l) \<and>
     (\<forall>r\<in>set (bs_res s). br_finished r \<longrightarrow> \<not> br_holds_slot r)"

definition budget_inv :: "budget_policy \<Rightarrow> budget_state \<Rightarrow> bool" where
  "budget_inv p x \<longleftrightarrow>
     (case x of (G, now, s) \<Rightarrow>
        bg_policy (bs_gov s) = p \<and> slots_ok s \<and> bg_llm_units (bs_gov s) = [] \<and>
        call_ledger_ok p (bp_max_llm_calls p) (bg_llm_calls (bs_gov s)) G now \<and>
        call_ledger_ok p (bp_max_tts_calls p) (bg_tts_calls (bs_gov s)) G now)"

lemma trim_windows_fields [simp]:
  "bg_policy (trim_windows now g) = bg_policy g"
  "bg_in_flight (trim_windows now g) = bg_in_flight g"
  "bg_in_flight_high_water (trim_windows now g) = bg_in_flight_high_water g"
  "bg_llm_units (trim_windows now g) = trim_ledger (now - bp_interval_ms (bg_policy g)) (bg_llm_units g)"
  "bg_llm_calls (trim_windows now g) = trim_ledger (now - bp_interval_ms (bg_policy g)) (bg_llm_calls g)"
  "bg_tts_calls (trim_windows now g) = trim_ledger (now - bp_interval_ms (bg_policy g)) (bg_tts_calls g)"
  by (simp_all add: trim_windows_def Let_def)

lemma trim_ledger_Nil [simp]: "trim_ledger h [] = []"
  by (simp add: trim_ledger_def)

lemma call_ledger_ok_trim:
  "call_ledger_ok p limit L G now \<Longrightarrow> now \<le> t \<Longrightarrow> call_ledger_ok p limit (trim_ledger (t - bp_interval_ms p) L) G t"
  by (auto simp: call_ledger_ok_def ledger_ok_trim split: option.splits)

lemma call_ledger_ok_later:
  "call_ledger_ok p limit L G now \<Longrightarrow> now \<le> t \<Longrightarrow> call_ledger_ok p limit L G t"
  by (auto simp: call_ledger_ok_def ledger_ok_later split: option.splits)

lemma call_ledger_ok_grant:
  assumes "call_ledger_ok p limit L G t"
    and "\<And>l. limit = Some l \<Longrightarrow> length L < effective_limit p a l"
  shows "call_ledger_ok p limit (if limit \<noteq> None then L @ [t] else L) (G @ [(a, t)]) t"
proof (cases limit)
  case (Some l)
  have "length L < l" "is_ordinary a \<Longrightarrow> length L < ordinary_share p l"
    using assms(2) [OF Some] effective_limit_le [of p a l] by (auto simp: effective_limit_def is_ordinary_def)
  with assms(1) Some show ?thesis
    by (auto simp: call_ledger_ok_def intro: ledger_ok_grant windows_ok_grant)
qed (simp add: call_ledger_ok_def)

lemma holders_append [simp]: "holders (rs @ [r]) = holders rs + (if br_holds_slot r then 1 else 0)"
  by (simp add: holders_def)

lemma holders_swap_remove:
  assumes "i < length rs"
  shows "holders rs = holders (swap_remove rs i) + (if br_holds_slot (rs ! i) then 1 else 0)"
proof -
  have "size (filter_mset br_holds_slot (mset rs)) =
      size (filter_mset br_holds_slot (mset (swap_remove rs i))) + (if br_holds_slot (rs ! i) then 1 else 0)"
    by (subst mset_swap_remove [OF assms]) simp
  then show ?thesis by (simp add: holders_def flip: mset_filter)
qed

lemma holders_finish:
  assumes "i < length rs" "\<not> br_holds_slot r"
  shows "holders rs = holders (rs[i := r]) + (if br_holds_slot (rs ! i) then 1 else 0)"
  using length_filter_update [OF assms(1), of br_holds_slot r] assms(2) by (simp add: holders_def)

lemma slot_sub_Suc: "slot_sub (Suc n mod 2 ^ 32) = n mod 2 ^ 32"
proof -
  have "(Suc n mod 2 ^ 32 + (2 ^ 32 - 1)) mod 2 ^ 32 = (Suc n + (2 ^ 32 - 1)) mod (2 ^ 32 :: nat)"
    by (rule mod_add_left_eq)
  also have "Suc n + (2 ^ 32 - 1) = n + 2 ^ 32" by simp
  finally show ?thesis by (simp add: slot_sub_def)
qed

lemma slot_add_mod: "slot_add (n mod 2 ^ 32) = Suc n mod 2 ^ 32"
  unfolding slot_add_def by (metis Suc_eq_plus1 mod_add_left_eq)

section \<open>Every operation keeps the invariant\<close>

text \<open>The three results of \<open>try_admit\<close>.\<close>

lemma try_admit_cases:
  obtains (free) r where "try_admit a t g = (Inr r, g)" "\<not> br_holds_slot r" "\<not> br_finished r"
  | (denied) d where "try_admit a t g = deny d (trim_windows t g)"
  | (granted) "budget_check a (trim_windows t g) = None" "try_admit a t g = grant a t (trim_windows t g)"
proof (cases "\<not> is_enforced g \<or> ba_priority a = BP_Shadow \<and> \<not> bp_charge_shadow_to_budget (bg_policy g)")
  case True
  then have "try_admit a t g = (Inr (uncharged_reservation t), g)" by (auto simp: try_admit_def)
  then show ?thesis by (rule free) (simp_all add: uncharged_reservation_def)
next
  case False
  then show ?thesis
    using denied granted by (cases "budget_check a (trim_windows t g)") (auto simp: try_admit_def Let_def)
qed

lemma budget_check_None:
  assumes "budget_check a g = None"
  shows "(\<forall>l. bp_max_concurrent (bg_policy g) = Some l \<longrightarrow> bg_in_flight g < l)
     \<and> (\<forall>l. bp_max_llm_calls (bg_policy g) = Some l \<longrightarrow> length (bg_llm_calls g) < effective_limit (bg_policy g) a l)
     \<and> (\<forall>l. bp_max_tts_calls (bg_policy g) = Some l \<longrightarrow> length (bg_tts_calls g) < effective_limit (bg_policy g) a l)"
  using assms by (auto simp: budget_check_def Let_def split: if_splits option.splits)

lemma slots_ok_same:
  "slots_ok s \<Longrightarrow> bg_in_flight g = bg_in_flight (bs_gov s) \<Longrightarrow> bg_policy g = bg_policy (bs_gov s) \<Longrightarrow>
     bg_in_flight_high_water g = bg_in_flight_high_water (bs_gov s) \<Longrightarrow> slots_ok (s\<lparr>bs_gov := g\<rparr>)"
  by (simp add: slots_ok_def)

lemma slots_ok_grant:
  assumes "slots_ok s" "budget_check a g = None" "g = trim_windows t (bs_gov s)" "grant a t g = (Inr r, g')"
  shows "slots_ok (s\<lparr>bs_gov := g', bs_res := bs_res s @ [r]\<rparr>)"
proof -
  have r: "br_holds_slot r" "\<not> br_finished r" "bg_policy g' = bg_policy (bs_gov s)"
    "bg_in_flight g' = slot_add (bg_in_flight (bs_gov s))"
    "bg_in_flight_high_water g' = max (bg_in_flight_high_water (bs_gov s)) (slot_add (bg_in_flight (bs_gov s)))"
    using assms(3,4) by (auto simp: grant_def Let_def)
  have n: "bg_in_flight (bs_gov s) = outstanding (bs_res s) (bs_copies s) mod 2 ^ 32" using assms(1) by (simp add: slots_ok_def)
  have "Suc (holders (bs_res s)) \<le> l \<and> slot_add (bg_in_flight (bs_gov s)) \<le> l"
    if l: "bs_copies s = 0" "bp_max_concurrent (bg_policy (bs_gov s)) = Some l" "l \<le> u32_max" for l
  proof -
    have h: "holders (bs_res s) \<le> l" using assms(1) l by (auto simp: slots_ok_def)
    have small: "holders (bs_res s) mod 2 ^ 32 = holders (bs_res s)" using h l by (simp add: u32_max_def)
    have "bg_in_flight (bs_gov s) < l" using budget_check_None [OF assms(2)] assms(3) l by simp
    then show ?thesis using n small l(1) slot_add_mod [of "holders (bs_res s)"] mod_less_eq_dividend
      by (metis Suc_leI le_trans outstanding_0)
  qed
  then show ?thesis
    using assms(1) r n slot_add_mod [of "outstanding (bs_res s) (bs_copies s)"]
    by (auto simp: slots_ok_def outstanding_def)
qed

text \<open>A clone of a holder: one holder and one copy more.\<close>

lemma slots_ok_clone:
  assumes "slots_ok s" "i < length (bs_res s)"
  shows "slots_ok (s\<lparr>bs_res := bs_res s @ [bs_res s ! i],
    bs_copies := bs_copies s + (if br_holds_slot (bs_res s ! i) then 1 else 0)\<rparr>)"
proof -
  have "outstanding (bs_res s @ [bs_res s ! i]) (bs_copies s + 1) = outstanding (bs_res s) (bs_copies s) + 2 ^ 32"
    if "br_holds_slot (bs_res s ! i)"
    using that by (simp add: outstanding_def algebra_simps)
  moreover have "outstanding (bs_res s @ [bs_res s ! i]) (bs_copies s) = outstanding (bs_res s) (bs_copies s)"
    if "\<not> br_holds_slot (bs_res s ! i)"
    using that by (simp add: outstanding_def)
  ultimately show ?thesis using assms by (auto simp: slots_ok_def)
qed

lemma slots_ok_return:
  assumes "slots_ok s" "bg_policy g = bg_policy (bs_gov s)"
    and "bg_in_flight_high_water g = bg_in_flight_high_water (bs_gov s)"
    and "bg_in_flight g = (if h then slot_sub (bg_in_flight (bs_gov s)) else bg_in_flight (bs_gov s))"
    and "holders (bs_res s) = holders rs + (if h then 1 else 0)"
    and "\<forall>r\<in>set rs. br_finished r \<longrightarrow> \<not> br_holds_slot r"
  shows "slots_ok (s\<lparr>bs_gov := g, bs_res := rs\<rparr>)"
  using assms slot_sub_Suc [of "outstanding rs (bs_copies s)"]
  by (cases h) (auto simp: slots_ok_def outstanding_def dest: Suc_leD)

lemma return_slot_fields [simp]:
  "bg_policy (return_slot h g) = bg_policy g" "bg_llm_units (return_slot h g) = bg_llm_units g"
  "bg_llm_calls (return_slot h g) = bg_llm_calls g"
  "bg_tts_calls (return_slot h g) = bg_tts_calls g"
  "bg_in_flight_high_water (return_slot h g) = bg_in_flight_high_water g"
  "bg_in_flight (return_slot h g) = (if h then slot_sub (bg_in_flight g) else bg_in_flight g)"
  by (simp_all add: return_slot_def)

lemma settle_fields:
  assumes "settle c k r g = (r', g')" "br_finished r \<longrightarrow> \<not> br_holds_slot r"
  shows "bg_policy g' = bg_policy g \<and> bg_llm_units g' = bg_llm_units g \<and> bg_llm_calls g' = bg_llm_calls g \<and> bg_tts_calls g' = bg_tts_calls g \<and>
    bg_in_flight_high_water g' = bg_in_flight_high_water g \<and>
    bg_in_flight g' = (if br_holds_slot r then slot_sub (bg_in_flight g) else bg_in_flight g) \<and>
    \<not> br_holds_slot r'"
  using assms by (auto simp: settle_def settle_units_def Let_def split: if_splits)

lemma release_fields:
  assumes "release r g = (r', g')" "br_finished r \<longrightarrow> \<not> br_holds_slot r"
  shows "bg_policy g' = bg_policy g \<and> bg_llm_units g' = bg_llm_units g \<and> bg_llm_calls g' = bg_llm_calls g \<and> bg_tts_calls g' = bg_tts_calls g \<and>
    bg_in_flight_high_water g' = bg_in_flight_high_water g \<and>
    bg_in_flight g' = (if br_holds_slot r then slot_sub (bg_in_flight g) else bg_in_flight g) \<and>
    \<not> br_holds_slot r'"
  using assms by (auto simp: release_def split: if_splits)

lemma slots_ok_finish:
  assumes "slots_ok s" "i < length (bs_res s)"
    and f: "bg_policy g' = bg_policy (bs_gov s) \<and> bg_llm_units g' = bg_llm_units (bs_gov s) \<and> bg_llm_calls g' = bg_llm_calls (bs_gov s) \<and>
      bg_tts_calls g' = bg_tts_calls (bs_gov s) \<and> bg_in_flight_high_water g' = bg_in_flight_high_water (bs_gov s) \<and>
      bg_in_flight g' = (if br_holds_slot (bs_res s ! i) then slot_sub (bg_in_flight (bs_gov s)) else bg_in_flight (bs_gov s)) \<and>
      \<not> br_holds_slot r'"
  shows "slots_ok (s\<lparr>bs_gov := g', bs_res := (bs_res s)[i := r']\<rparr>)"
proof (rule slots_ok_return [OF assms(1)])
  show "holders (bs_res s) = holders ((bs_res s)[i := r']) + (if br_holds_slot (bs_res s ! i) then 1 else 0)"
    using f by (intro holders_finish assms(2)) simp
  show "\<forall>r\<in>set ((bs_res s)[i := r']). br_finished r \<longrightarrow> \<not> br_holds_slot r"
    using assms(1) f set_update_subset [OF assms(2), of r'] by (auto simp: slots_ok_def)
qed (use f in auto)

lemma budget_inv_admit:
  assumes inv: "budget_inv p (G, now, s)" and t: "now \<le> t"
  shows "budget_inv p (budget_next (BO_Admit a t) (G, now, s))"
proof -
  let ?g = "trim_windows t (bs_gov s)"
  have p: "bg_policy (bs_gov s) = p" and slots: "slots_ok s" and units: "bg_llm_units (bs_gov s) = []"
    and llm: "call_ledger_ok p (bp_max_llm_calls p) (bg_llm_calls (bs_gov s)) G now"
    and tts: "call_ledger_ok p (bp_max_tts_calls p) (bg_tts_calls (bs_gov s)) G now"
    using inv by (auto simp: budget_inv_def)
  note trimmed = call_ledger_ok_trim [OF llm t] call_ledger_ok_trim [OF tts t]
  show ?thesis
  proof (cases rule: try_admit_cases [of a t "bs_gov s"])
    case (free r)
    with slots have "slots_ok (s\<lparr>bs_res := bs_res s @ [r]\<rparr>)" by (auto simp: slots_ok_def outstanding_def)
    with free p units call_ledger_ok_later [OF llm t] call_ledger_ok_later [OF tts t] show ?thesis
      by (simp add: budget_inv_def)
  next
    case (denied d)
    with p trimmed slots units show ?thesis
      by (auto simp: budget_inv_def deny_def intro!: slots_ok_same)
  next
    case granted
    obtain r g' where g': "grant a t ?g = (Inr r, g')" by (auto simp: grant_def Let_def)
    have "br_holds_slot r" "bg_policy g' = p" "bg_llm_units g' = []"
      "bg_llm_calls g' = (if bp_max_llm_calls p \<noteq> None then bg_llm_calls ?g @ [t] else bg_llm_calls ?g)"
      "bg_tts_calls g' = (if bp_max_tts_calls p \<noteq> None then bg_tts_calls ?g @ [t] else bg_tts_calls ?g)"
      using g' p units by (auto simp: grant_def Let_def)
    moreover have "call_ledger_ok p (bp_max_llm_calls p)
        (if bp_max_llm_calls p \<noteq> None then bg_llm_calls ?g @ [t] else bg_llm_calls ?g) (G @ [(a, t)]) t"
      "call_ledger_ok p (bp_max_tts_calls p)
        (if bp_max_tts_calls p \<noteq> None then bg_tts_calls ?g @ [t] else bg_tts_calls ?g) (G @ [(a, t)]) t"
      by (rule call_ledger_ok_grant; use budget_check_None [OF granted(1)] trimmed p in simp)+
    ultimately show ?thesis
      using slots_ok_grant [OF slots granted(1) refl g'] granted(2) g' by (simp add: budget_inv_def)
  qed
qed

lemma budget_inv_next:
  assumes "budget_inv p x" "time_ok op x"
  shows "budget_inv p (budget_next op x)"
proof -
  obtain G now s where x: "x = (G, now, s)" by (cases x)
  have slots: "slots_ok s" using assms(1) x by (simp add: budget_inv_def)
  have fin: "br_finished (bs_res s ! i) \<longrightarrow> \<not> br_holds_slot (bs_res s ! i)" if "i < length (bs_res s)" for i
    using slots that by (auto simp: slots_ok_def)
  show ?thesis
  proof (cases op)
    case (BO_Admit a t)
    with assms x show ?thesis by (simp only: budget_inv_admit time_ok_def budget_clock_def budget_time.simps option.case fst_conv snd_conv)
  next
    case (BO_Settle i c k)
    show ?thesis
    proof (cases "i < length (bs_res s)")
      case True
      obtain r' g' where st: "settle c k (bs_res s ! i) (bs_gov s) = (r', g')" by fastforce
      note f = settle_fields [OF st fin [OF True]]
      from slots_ok_finish [OF slots True f] f BO_Settle True st assms(1) x show ?thesis
        by (simp add: budget_inv_def)
    qed (use BO_Settle assms(1) x in simp)
  next
    case (BO_Release i)
    show ?thesis
    proof (cases "i < length (bs_res s)")
      case True
      obtain r' g' where st: "release (bs_res s ! i) (bs_gov s) = (r', g')" by fastforce
      note f = release_fields [OF st fin [OF True]]
      from slots_ok_finish [OF slots True f] f BO_Release True st assms(1) x show ?thesis
        by (simp add: budget_inv_def)
    qed (use BO_Release assms(1) x in simp)
  next
    case (BO_Drop i)
    show ?thesis
    proof (cases "i < length (bs_res s)")
      case True
      have "slots_ok (s\<lparr>bs_gov := drop_reservation (bs_res s ! i) (bs_gov s), bs_res := swap_remove (bs_res s) i\<rparr>)"
        using slots set_swap_remove [OF True]
        by (intro slots_ok_return [OF slots _ _ _ holders_swap_remove [OF True]])
          (auto simp: drop_reservation_def slots_ok_def)
      with BO_Drop True assms(1) x show ?thesis by (simp add: budget_inv_def drop_reservation_def)
    qed (use BO_Drop assms(1) x in simp)
  next
    case (BO_Clone i)
    with slots_ok_clone [OF slots, of i] assms(1) x show ?thesis by (auto simp: budget_inv_def)
  next
    case (BO_Tick t)
    with assms x show ?thesis
      by (auto simp: budget_inv_def budget_tick_def time_ok_def budget_clock_def
          intro!: slots_ok_same call_ledger_ok_trim)
  next
    case BO_NoteDegraded
    with assms x show ?thesis by (auto simp: budget_inv_def note_degraded_def intro!: slots_ok_same)
  qed
qed

lemma budget_inv_init: "budget_init p x \<Longrightarrow> budget_inv p x"
  by (auto simp: budget_init_def budget_inv_def slots_ok_def outstanding_def holders_def governor_new_def call_ledger_ok_def
      ledger_ok_def windows_ok_def in_window_def split: option.split)

lemma budget_clock_next: "time_ok op x \<Longrightarrow> budget_clock x \<le> budget_clock (budget_next op x)"
  by (cases x; cases op)
    (auto simp: budget_clock_def time_ok_def Let_def split: prod.split sum.split)

interpretation budget_clocked: clocked_system "budget_init p" budget_step "budget_inv p" budget_clock
  by unfold_locales (auto simp: budget_inv_init budget_step_iff intro: budget_inv_next budget_clock_next)

abbreviation budget_reach :: "budget_policy \<Rightarrow> budget_state \<Rightarrow> bool" where
  "budget_reach p \<equiv> reach (budget_init p) budget_step"

lemmas reach_budget_inv = budget_clocked.reach_inv

section \<open>Properties\<close>

definition demo_budget :: budget_policy where
  "demo_budget = default_budget_policy\<lparr>bp_enabled := True, bp_max_concurrent := Some 2, bp_max_llm_calls := Some 4,
     bp_max_tts_calls := Some 4, bp_max_tts_chars := Some 100, bp_interval_ms := 1000, bp_high_priority_reserve_percent := 50\<rparr>"

fun budget_run :: "budget_op list \<Rightarrow> budget_state \<Rightarrow> budget_state" where
  "budget_run [] x = x"
| "budget_run (op # ops) x = budget_run ops (budget_next op x)"

fun times_ok :: "budget_op list \<Rightarrow> budget_state \<Rightarrow> bool" where
  "times_ok [] x = True"
| "times_ok (op # ops) x = (time_ok op x \<and> times_ok ops (budget_next op x))"

definition budget_start :: "budget_policy \<Rightarrow> budget_state" where
  "budget_start p = ([], 0, \<lparr>bs_gov = governor_new p, bs_res = [], bs_copies = 0\<rparr>)"

lemma budget_reach_run: "budget_reach p x \<Longrightarrow> times_ok ops x \<Longrightarrow> budget_reach p (budget_run ops x)"
proof (induction ops arbitrary: x)
  case (Cons op ops)
  then have "budget_reach p (budget_next op x)" by (intro reach.reach_step [OF Cons.prems(1)] budget_step.intros) simp
  with Cons show ?case by simp
qed simp

lemma budget_reach_start: "budget_reach p (budget_start p)"
  by (rule reach.reach_init) (simp add: budget_init_def budget_start_def)

definition demo_budget_ops :: "budget_op list" where
  "demo_budget_ops =
     [BO_Admit (admission_of BP_Ordinary) 5000, BO_Admit (admission_of BP_High) 5100, BO_Settle 0 20 0, BO_Drop 1]"

lemma budget_reach_demo:
  "budget_reach demo_budget (budget_run (take n demo_budget_ops) (budget_start demo_budget))"
proof (rule budget_reach_run [OF budget_reach_start])
  have all: "times_ok (xs @ ys) x \<Longrightarrow> times_ok xs x" for xs ys x
    by (induction xs arbitrary: x) auto
  have "times_ok demo_budget_ops (budget_start demo_budget)" by code_simp
  then show "times_ok (take n demo_budget_ops) (budget_start demo_budget)"
    using all [of "take n demo_budget_ops" "drop n demo_budget_ops"] by simp
qed

text \<open>
  C37. What the in-flight counter counts. However admissions, settlements, releases, drops and clones
  interleave, the counter and the number of clones taken of slot-holding reservations add up to the number
  of reservations, clones included, that hold a slot, modulo \<open>2^32\<close>. So while no such clone was taken it
  is exactly the number of reservations that hold a slot, neither it nor its high-water mark exceeds the
  limit, and without reservations it is zero. With a clone none of that holds; see below.
\<close>

theorem concurrency_is_exact_and_bounded:
  assumes "budget_reach p (G, now, s)" "bp_max_concurrent p = Some l" "l \<le> u32_max"
  shows "(bg_in_flight (bs_gov s) + bs_copies s) mod 2 ^ 32 = length (filter br_holds_slot (bs_res s)) mod 2 ^ 32
     \<and> (bs_copies s = 0 \<longrightarrow>
          bg_in_flight (bs_gov s) = length (filter br_holds_slot (bs_res s))
        \<and> bg_in_flight (bs_gov s) \<le> l \<and> bg_in_flight_high_water (bs_gov s) \<le> l
        \<and> (bs_res s = [] \<longrightarrow> bg_in_flight (bs_gov s) = 0))"
proof -
  have inv: "budget_inv p (G, now, s)" using assms(1) by (rule reach_budget_inv)
  then have n: "bg_in_flight (bs_gov s) = outstanding (bs_res s) (bs_copies s) mod 2 ^ 32"
    by (simp add: budget_inv_def slots_ok_def)
  have "outstanding (bs_res s) (bs_copies s) + bs_copies s = holders (bs_res s) + bs_copies s * 2 ^ 32"
    by (simp add: outstanding_def algebra_simps)
  then have "(bg_in_flight (bs_gov s) + bs_copies s) mod 2 ^ 32 = holders (bs_res s) mod 2 ^ 32"
    unfolding n mod_add_left_eq by simp
  moreover have "holders (bs_res s) \<le> l \<and> bg_in_flight_high_water (bs_gov s) \<le> l" if "bs_copies s = 0"
    using inv that assms(2,3) by (auto simp: budget_inv_def slots_ok_def)
  ultimately show ?thesis using n assms(3) by (auto simp: holders_def u32_max_def)
qed

theorem concurrency_is_exact_and_bounded_witness:
  "\<exists>G now s. budget_run (take 2 demo_budget_ops) (budget_start demo_budget) = (G, now, s) \<and>
     bg_in_flight (bs_gov s) = length (filter br_holds_slot (bs_res s)) \<and> bg_in_flight (bs_gov s) \<le> 2"
proof -
  obtain G now s where x: "budget_run (take 2 demo_budget_ops) (budget_start demo_budget) = (G, now, s)"
    by (metis prod_cases3)
  have "bp_max_concurrent demo_budget = Some 2" "(2::nat) \<le> u32_max"
    "bs_copies (snd (snd (budget_run (take 2 demo_budget_ops) (budget_start demo_budget)))) = 0" by code_simp+
  with concurrency_is_exact_and_bounded [OF budget_reach_demo [of 2, unfolded x], of 2] x show ?thesis by auto
qed

text \<open>
  A cloned reservation wedges the budget. One grant, one clone, both dropped: the slot is returned twice, the
  counter wraps to its largest value, and from then on every enforced request is refused for concurrency, at
  any time and with nothing in flight.
\<close>

definition cloned_budget :: budget_governor where
  "cloned_budget = bs_gov (snd (snd (budget_run
     [BO_Admit (admission_of BP_Ordinary) 5000, BO_Clone 0, BO_Drop 0, BO_Drop 0] (budget_start demo_budget))))"

theorem cloned_reservation_wedges_the_budget:
  "bg_in_flight cloned_budget = u32_max \<and>
   (\<forall>t. fst (try_admit (admission_of BP_High) t cloned_budget) = Inl BD_Concurrent)"
proof -
  have g: "bg_in_flight cloned_budget = u32_max" "bg_policy cloned_budget = demo_budget" "bp_max_concurrent demo_budget = Some 2"
    "is_enforced cloned_budget" "ba_priority (admission_of BP_High) = BP_High" "(2 :: nat) \<le> u32_max" by code_simp+
  then have "budget_check (admission_of BP_High) (trim_windows t cloned_budget) = Some BD_Concurrent" for t
    by (simp add: budget_check_def Let_def)
  then show ?thesis using g by (simp add: try_admit_def Let_def deny_def)
qed



text \<open>
  The unit budget is never enforced: no operation records a unit, so in every reachable state the
  unit ledger is empty, and an admission under a positive unit limit is never refused for units.
\<close>

theorem unit_budget_is_never_enforced:
  assumes "budget_reach p (G, now, s)" "bp_max_llm_units p \<noteq> Some 0"
  shows "bg_llm_units (bs_gov s) = [] \<and> fst (try_admit a t (bs_gov s)) \<noteq> Inl BD_LlmUnits"
proof -
  have inv: "budget_inv p (G, now, s)" using assms(1) by (rule reach_budget_inv)
  then have u: "bg_llm_units (bs_gov s) = []" "bg_policy (bs_gov s) = p" by (simp_all add: budget_inv_def)
  then have "budget_check a (trim_windows t (bs_gov s)) \<noteq> Some BD_LlmUnits"
    using assms(2) by (auto simp: budget_check_def Let_def sum_u64_def split: option.splits)
  then have "fst (try_admit a t (bs_gov s)) \<noteq> Inl BD_LlmUnits"
    by (auto simp: try_admit_def Let_def deny_def grant_def split: option.splits)
  with u show ?thesis by simp
qed

lemma unit_budget_is_never_enforced_witness:
  "\<exists>G now s. budget_run (take 4 demo_budget_ops) (budget_start demo_budget) = (G, now, s) \<and> bg_llm_units (bs_gov s) = []"
proof -
  obtain G now s where x: "budget_run (take 4 demo_budget_ops) (budget_start demo_budget) = (G, now, s)"
    by (metis prod_cases3)
  have "bp_max_llm_units demo_budget \<noteq> Some 0" by code_simp
  from unit_budget_is_never_enforced [OF budget_reach_demo [of 4, unfolded x] this] x show ?thesis by blast
qed

text \<open>
  The character budget forgets what was charged. Its ledger holds amounts, but the window trim
  compares them to a time: once every charged amount is below the horizon, all of it is dropped,
  however recently it was charged, and a request within the limit is never refused for characters.
\<close>

theorem character_budget_forgets_charges:
  assumes "\<forall>c\<in>set (bg_tts_chars g). c < t - bp_interval_ms (bg_policy g)"
    and "bp_max_tts_chars (bg_policy g) = Some l"
    and "ba_estimated_tts_chars a \<le> effective_limit (bg_policy g) a l"
  shows "bg_tts_chars (trim_windows t g) = [] \<and> fst (try_admit a t g) \<noteq> Inl BD_TtsChars"
proof -
  have e: "bg_tts_chars (trim_windows t g) = []"
    using assms(1) by (simp add: trim_windows_def Let_def trim_ledger_def)
  have "sadd 0 (ba_estimated_tts_chars a) \<le> ba_estimated_tts_chars a" by (simp add: sadd_def)
  with e assms(2,3) have "budget_check a (trim_windows t g) \<noteq> Some BD_TtsChars"
    by (auto simp: budget_check_def Let_def sum_u64_def split: option.splits)
  then have "fst (try_admit a t g) \<noteq> Inl BD_TtsChars"
    by (auto simp: try_admit_def Let_def deny_def grant_def split: option.splits)
  with e show ?thesis by simp
qed

text \<open>Two requests of 40 characters in the same millisecond under an ordinary share of 50.\<close>

lemma character_budget_forgets_charges_witness:
  "\<exists>g. g = snd (try_admit (with_estimates 40 0 (admission_of BP_Ordinary)) 5000 (governor_new demo_budget)) \<and>
     bg_tts_chars g = [40] \<and> ordinary_share demo_budget 100 = 50 \<and>
     fst (try_admit (with_estimates 40 0 (admission_of BP_Ordinary)) 5000 g) \<noteq> Inl BD_TtsChars"
proof -
  let ?a = "with_estimates 40 0 (admission_of BP_Ordinary)"
  let ?g = "snd (try_admit ?a 5000 (governor_new demo_budget))"
  have c: "bg_tts_chars ?g = [40]" "ordinary_share demo_budget 100 = 50"
    "bp_max_tts_chars (bg_policy ?g) = Some 100" "ba_estimated_tts_chars ?a \<le> effective_limit (bg_policy ?g) ?a 100"
    "40 < 5000 - bp_interval_ms (bg_policy ?g)" by code_simp+
  then have "\<forall>c\<in>set (bg_tts_chars ?g). c < 5000 - bp_interval_ms (bg_policy ?g)" by simp
  from character_budget_forgets_charges [OF this c(3,4)] c show ?thesis by blast
qed

text \<open>
  Shadow evaluation is charged on settlement: although the policy does not charge shadow usage and
  the admission left the governor untouched, settling the reservation it returned appends the observed
  characters to the billable ledger.
\<close>

theorem shadow_settlement_is_charged:
  assumes "bp_enabled (bg_policy g)" "\<not> bp_charge_shadow_to_budget (bg_policy g)"
    and "bp_max_tts_chars (bg_policy g) \<noteq> None" "0 < chars"
    and "try_admit (admission_of BP_Shadow) t g = (Inr r, g')"
  shows "g' = g \<and> bg_tts_chars (snd (settle chars cost r g')) = bg_tts_chars g @ [chars]"
  using assms
  by (auto simp: try_admit_def is_enforced_def admission_of_def uncharged_reservation_def settle_def
      settle_units_def return_slot_def Let_def)

lemma shadow_settlement_is_charged_witness:
  "\<exists>r. try_admit (admission_of BP_Shadow) 5000 (governor_new demo_budget) = (Inr r, governor_new demo_budget) \<and>
     bg_tts_chars (snd (settle 70 0 r (governor_new demo_budget))) = [70]"
proof -
  let ?g = "governor_new demo_budget"
  obtain r g' where x: "try_admit (admission_of BP_Shadow) 5000 ?g = (Inr r, g')"
    by (auto simp: try_admit_def is_enforced_def admission_of_def governor_new_def demo_budget_def
        default_budget_policy_def)
  have "bp_enabled (bg_policy ?g)" "\<not> bp_charge_shadow_to_budget (bg_policy ?g)"
    "bp_max_tts_chars (bg_policy ?g) \<noteq> None" "(0::nat) < 70" "bg_tts_chars ?g = []" by code_simp+
  with shadow_settlement_is_charged [OF this(1-4) x] x show ?thesis by auto
qed

end
