(* ===== verification/Float64.thy ===== *)
theory Float64
  imports Prelude "HOL-Library.Log_Nat"
begin

text \<open>
  The \<open>f64\<close> arithmetic the token buckets of \<open>crates/runtime/src/lib.rs\<close> use: IEEE 754 binary64 with
  round-half-to-even, subnormals and overflow, on the values of \<^typ>\<open>f64\<close> (the two zeros are one
  value, the sources only compare). The lemmas say when an operation is exact.
\<close>

section \<open>Rounding\<close>

definition pow2 :: "int \<Rightarrow> rat" where
  "pow2 e = 2 powi e"

text \<open>The exponent of the leading bit of a non-zero rational.\<close>

definition flog2 :: "rat \<Rightarrow> int" where
  "flog2 q =
     (let (a, b) = quotient_of \<bar>q\<bar>; e = bitlen a - bitlen b
      in if pow2 e \<le> \<bar>q\<bar> then e else e - 1)"

definition round_half_even :: "rat \<Rightarrow> int" where
  "round_half_even q =
     (let f = \<lfloor>q\<rfloor>; d = q - of_int f
      in if d < 1/2 then f else if 1/2 < d then f + 1 else if even f then f else f + 1)"

text \<open>The exponent of the unit in the last place: 53 significant bits, none below \<open>2^-1074\<close>.\<close>

definition ulp_exp :: "rat \<Rightarrow> int" where
  "ulp_exp q = max (flog2 q - 52) (-1074)"

definition f64_round :: "rat \<Rightarrow> f64" where
  "f64_round q =
     (if q = 0 then Fin 0
      else
        let u = pow2 (ulp_exp q); r = u * of_int (round_half_even (q / u))
        in if pow2 1024 \<le> r then PosInf else if r \<le> - pow2 1024 then NegInf else Fin r)"

section \<open>Operations\<close>

fun f64_add :: "f64 \<Rightarrow> f64 \<Rightarrow> f64" where
  "f64_add (Fin a) (Fin b) = f64_round (a + b)"
| "f64_add NaN _ = NaN"
| "f64_add _ NaN = NaN"
| "f64_add PosInf NegInf = NaN"
| "f64_add NegInf PosInf = NaN"
| "f64_add PosInf _ = PosInf"
| "f64_add _ PosInf = PosInf"
| "f64_add NegInf _ = NegInf"
| "f64_add _ NegInf = NegInf"

text \<open>Subtraction and division with a finite (and, for the division, non-zero) right operand.\<close>

fun f64_sub_fin :: "f64 \<Rightarrow> rat \<Rightarrow> f64" where
  "f64_sub_fin (Fin a) b = f64_round (a - b)"
| "f64_sub_fin v _ = v"

fun f64_div_fin :: "f64 \<Rightarrow> rat \<Rightarrow> f64" where
  "f64_div_fin (Fin a) b = f64_round (a / b)"
| "f64_div_fin NaN _ = NaN"
| "f64_div_fin PosInf b = (if 0 < b then PosInf else NegInf)"
| "f64_div_fin NegInf b = (if 0 < b then NegInf else PosInf)"

fun f64_mul :: "f64 \<Rightarrow> f64 \<Rightarrow> f64" where
  "f64_mul (Fin a) (Fin b) = f64_round (a * b)"
| "f64_mul NaN _ = NaN"
| "f64_mul _ NaN = NaN"
| "f64_mul (Fin a) PosInf = (if a = 0 then NaN else if 0 < a then PosInf else NegInf)"
| "f64_mul (Fin a) NegInf = (if a = 0 then NaN else if 0 < a then NegInf else PosInf)"
| "f64_mul PosInf (Fin b) = (if b = 0 then NaN else if 0 < b then PosInf else NegInf)"
| "f64_mul NegInf (Fin b) = (if b = 0 then NaN else if 0 < b then NegInf else PosInf)"
| "f64_mul PosInf PosInf = PosInf"
| "f64_mul NegInf NegInf = PosInf"
| "f64_mul _ _ = NegInf"

text \<open>\<open>f64::min\<close> ignores a \<open>NaN\<close>.\<close>

definition f64_min :: "f64 \<Rightarrow> f64 \<Rightarrow> f64" where
  "f64_min a b = (if a = NaN then b else if b = NaN then a else if f64_le a b then a else b)"

text \<open>\<open>n as f64\<close> of an unsigned integer.\<close>

definition f64_of_nat :: "nat \<Rightarrow> f64" where
  "f64_of_nat n = f64_round (of_nat n)"

section \<open>Powers of two\<close>

lemma pow2_pos [simp]: "0 < pow2 e"
  by (simp add: pow2_def zero_less_power_int)

lemma pow2_nonzero [simp]: "pow2 e \<noteq> 0"
  by (simp add: pow2_def)

lemma pow2_add: "pow2 (a + b) = pow2 a * pow2 b"
  by (simp add: pow2_def power_int_add)

lemma pow2_of_nat: "pow2 (int n) = 2 ^ n"
  by (simp add: pow2_def)

lemma pow2_0 [simp]: "pow2 0 = 1"
  by (simp add: pow2_def)

lemma pow2_strict_mono: "a < b \<Longrightarrow> pow2 a < pow2 b"
  unfolding pow2_def by (rule power_int_strict_increasing) simp_all

lemma pow2_less_iff [simp]: "pow2 a < pow2 b \<longleftrightarrow> a < b"
  using pow2_strict_mono [of a b] pow2_strict_mono [of b a] by (cases a b rule: linorder_cases) auto

lemma pow2_le_iff [simp]: "pow2 a \<le> pow2 b \<longleftrightarrow> a \<le> b"
  by (simp add: linorder_not_less [symmetric])

lemma pow2_diff_int: "a \<le> b \<Longrightarrow> pow2 b = of_int (2 ^ nat (b - a)) * pow2 a"
  using pow2_add [of "b - a" a] pow2_of_nat [of "nat (b - a)"] by simp

lemma pow2_of_bits:
  "0 \<le> e \<Longrightarrow> pow2 e \<le> of_int a \<longleftrightarrow> 2 ^ nat e \<le> a"
  "0 \<le> e \<Longrightarrow> of_int a < pow2 e \<longleftrightarrow> a < 2 ^ nat e"
proof -
  assume e: "0 \<le> e"
  have p: "pow2 e = of_int (2 ^ nat e)" using pow2_of_nat [of "nat e"] e by simp
  show "pow2 e \<le> of_int a \<longleftrightarrow> 2 ^ nat e \<le> a" unfolding p by (rule of_int_le_iff)
  show "of_int a < pow2 e \<longleftrightarrow> a < 2 ^ nat e" unfolding p by (rule of_int_less_iff)
qed

lemma flog2_bounds:
  assumes "q \<noteq> 0"
  shows "pow2 (flog2 q) \<le> \<bar>q\<bar>" "\<bar>q\<bar> < pow2 (flog2 q + 1)"
proof -
  obtain a b where ab: "quotient_of \<bar>q\<bar> = (a, b)" by fastforce
  have b: "0 < b" using ab by (rule quotient_of_denom_pos)
  have q: "\<bar>q\<bar> = of_int a / of_int b" using ab by (rule quotient_of_div)
  have a: "0 < a" using assms q b by (metis of_int_0_less_iff zero_less_abs_iff zero_less_divide_iff not_less_iff_gr_or_eq)
  define la lb where "la = bitlen a" and "lb = bitlen b"
  have pos: "1 \<le> la" "1 \<le> lb" using a b by (auto simp: la_def lb_def bitlen_alt_def)
  have A: "pow2 (la - 1) \<le> of_int a" "of_int a < pow2 la"
    using bitlen_bounds [OF a] pos
    by (simp_all add: la_def [symmetric] pow2_of_bits)
  have B: "pow2 (lb - 1) \<le> of_int b" "of_int b < pow2 lb"
    using bitlen_bounds [OF b] pos
    by (simp_all add: lb_def [symmetric] pow2_of_bits)
  have "pow2 (la - lb - 1) * of_int b \<le> pow2 (la - lb - 1) * pow2 lb"
    using B by simp
  also have "\<dots> = pow2 (la - 1)" by (simp add: pow2_add [symmetric])
  finally have low: "pow2 (la - lb - 1) \<le> \<bar>q\<bar>" using A b by (simp add: q field_simps)
  have "of_int a < pow2 la" by (rule A)
  also have "\<dots> = pow2 (la - lb + 1) * pow2 (lb - 1)" by (simp add: pow2_add [symmetric])
  also have "\<dots> \<le> pow2 (la - lb + 1) * of_int b" using B by simp
  finally have high: "\<bar>q\<bar> < pow2 (la - lb + 1)" using b by (simp add: q field_simps)
  have f: "flog2 q = (if pow2 (la - lb) \<le> \<bar>q\<bar> then la - lb else la - lb - 1)"
    by (simp add: flog2_def ab la_def lb_def)
  show "pow2 (flog2 q) \<le> \<bar>q\<bar>" using low by (simp add: f)
  show "\<bar>q\<bar> < pow2 (flog2 q + 1)" using high by (simp add: f)
qed

section \<open>Exact results\<close>

lemma round_half_even_int [simp]: "round_half_even (of_int k) = k"
  by (simp add: round_half_even_def)

lemma round_half_even_nonneg: "0 \<le> q \<Longrightarrow> 0 \<le> round_half_even q"
  by (auto simp: round_half_even_def Let_def)

lemma round_half_even_le:
  assumes "q \<le> of_int k"
  shows "round_half_even q \<le> k"
proof (cases "\<lfloor>q\<rfloor> = k")
  case True
  then have "of_int k \<le> q" by linarith
  with assms have "q = of_int k" by simp
  then show ?thesis by simp
next
  case False
  with assms have "\<lfloor>q\<rfloor> + 1 \<le> k" by linarith
  then show ?thesis by (auto simp: round_half_even_def Let_def)
qed

lemma round_half_even_ge: "of_int k \<le> q \<Longrightarrow> k \<le> round_half_even q"
  using le_floor_iff [of k q] by (auto simp: round_half_even_def Let_def)

definition representable :: "rat \<Rightarrow> bool" where
  "representable q \<longleftrightarrow> (\<exists>m e. q = of_int m * pow2 e \<and> \<bar>m\<bar> < 2 ^ 53 \<and> -1074 \<le> e) \<and> \<bar>q\<bar> < pow2 1024"

lemma representableI:
  "q = of_int m * pow2 e \<Longrightarrow> \<bar>m\<bar> < 2 ^ 53 \<Longrightarrow> -1074 \<le> e \<Longrightarrow> \<bar>q\<bar> < pow2 1024 \<Longrightarrow> representable q"
  unfolding representable_def by blast

lemma f64_round_exact:
  assumes "representable q"
  shows "f64_round q = Fin q"
proof (cases "q = 0")
  case False
  from assms obtain m e where q: "q = of_int m * pow2 e" "\<bar>m\<bar> < 2 ^ 53" "-1074 \<le> e" "\<bar>q\<bar> < pow2 1024"
    by (auto simp: representable_def)
  have "pow2 (flog2 q) \<le> \<bar>q\<bar>" using flog2_bounds [OF False] by simp
  also have "\<bar>q\<bar> = of_int \<bar>m\<bar> * pow2 e" by (simp add: q(1) abs_mult abs_of_pos)
  also have "\<dots> < pow2 53 * pow2 e"
    using q(2) pow2_of_bits(2) [of 53 "\<bar>m\<bar>"] by simp
  finally have "flog2 q < 53 + e" by (simp add: pow2_add [symmetric])
  then have ue: "ulp_exp q \<le> e" using q(3) by (simp add: ulp_exp_def)
  define k where "k = ulp_exp q"
  define n :: int where "n = m * 2 ^ nat (e - k)"
  have "pow2 e = of_int (2 ^ nat (e - k)) * pow2 k"
    using ue unfolding k_def by (rule pow2_diff_int)
  then have n: "q = of_int n * pow2 k" by (subst q(1)) (simp add: n_def)
  then have "q / pow2 k = of_int n" by simp
  then have r: "round_half_even (q / pow2 k) = n" by (simp only: round_half_even_int)
  have "pow2 k * of_int n = q" using n by (simp add: mult.commute)
  with False q(4) show ?thesis
    by (simp add: f64_round_def Let_def k_def [symmetric] r abs_less_iff)
qed (simp add: f64_round_def)

lemma representable_round:
  assumes "f64_round q = Fin r"
  shows "representable r"
proof (cases "q = 0")
  case True
  with assms have "r = 0" by (simp add: f64_round_def)
  then show ?thesis by (intro representableI [of r 0 0]) simp_all
next
  case False
  define k where "k = ulp_exp q"
  define n where "n = round_half_even (q / pow2 k)"
  have k: "-1074 \<le> k" by (simp add: k_def ulp_exp_def)
  have r: "r = pow2 k * of_int n" "\<bar>r\<bar> < pow2 1024"
    using assms False
    by (auto simp: f64_round_def Let_def k_def [symmetric] n_def [symmetric] split: if_splits)
  have "\<bar>q\<bar> < pow2 (flog2 q + 1)" using flog2_bounds [OF False] by simp
  also have "\<dots> \<le> pow2 (53 + k)" by (simp add: k_def ulp_exp_def)
  finally have "\<bar>q\<bar> < pow2 53 * pow2 k" by (simp add: pow2_add)
  then have "\<bar>q / pow2 k\<bar> < pow2 53" by (simp add: abs_divide abs_of_pos field_simps del: pow2_le_iff)
  then have "\<bar>q / pow2 k\<bar> < of_int (2 ^ 53)" using pow2_of_nat [of 53] by simp
  then have a: "q / pow2 k \<le> of_int (2 ^ 53)" "of_int (- (2 ^ 53)) \<le> q / pow2 k"
    by (simp_all add: abs_less_iff del: of_int_power of_int_numeral abs_divide)
  have n: "\<bar>n\<bar> \<le> 2 ^ 53"
    using round_half_even_le [OF a(1)] round_half_even_ge [OF a(2)] by (simp add: n_def)
  show ?thesis
  proof (cases "\<bar>n\<bar> = 2 ^ 53")
    case True
    then have "n = 2 ^ 53 \<or> n = - (2 ^ 53)" by linarith
    then have "n = 2 * (n div 2)" by (elim disjE) simp_all
    then have "(of_int n :: rat) = of_int 2 * of_int (n div 2)" by (metis of_int_mult)
    moreover have "pow2 (k + 1) = pow2 k * 2" using pow2_of_nat [of 1] by (simp add: pow2_add)
    ultimately have "r = of_int (n div 2) * pow2 (k + 1)" by (simp add: r(1))
    moreover have "\<bar>n div 2\<bar> < 2 ^ 53" using True by (auto simp: abs_if split: if_splits)
    ultimately show ?thesis using r(2) k by (intro representableI [of r "n div 2" "k + 1"]) simp_all
  next
    case False
    with n r k show ?thesis
      by (intro representableI [of r n k]) (simp_all add: mult.commute)
  qed
qed

lemma representable_int:
  assumes "\<bar>n\<bar> < 2 ^ 53"
  shows "representable (of_int n)"
proof -
  have "\<bar>of_int n :: rat\<bar> < pow2 53" using assms pow2_of_bits(2) [of 53 "\<bar>n\<bar>"] by simp
  also have "\<dots> < pow2 1024" by simp
  finally show ?thesis using assms by (intro representableI [of _ n 0]) simp_all
qed

lemma representable_nat: "n < 2 ^ 53 \<Longrightarrow> representable (of_nat n)"
  using representable_int [of "int n"] by simp

lemma representable_0 [simp]: "representable 0"
  using representable_nat [of 0] by simp

text \<open>Subtracting one from a representable number of at least one is exact below \<open>2^52\<close>.\<close>

lemma representable_minus_1:
  assumes "representable q" "1 \<le> q" "q < pow2 52"
  shows "representable (q - 1)"
proof -
  from assms(1) obtain m e where q: "q = of_int m * pow2 e" "\<bar>m\<bar> < 2 ^ 53" "-1074 \<le> e"
    by (auto simp: representable_def)
  have "0 < of_int m * pow2 e" using assms(2) q(1) by linarith
  then have m: "0 < m" using pow2_pos [of e] by (auto simp: zero_less_mult_iff dest: less_trans)
  have "pow2 52 < pow2 1024" by simp
  then have lt: "\<bar>q - 1\<bar> < pow2 1024" using assms(2,3) by linarith
  show ?thesis
  proof (cases "e \<le> 0")
    case True
    have "1 = of_int (2 ^ nat (- e)) * pow2 e" using pow2_diff_int [OF True] by simp
    then have eq: "q - 1 = of_int (m - 2 ^ nat (- e)) * pow2 e"
      using q(1) by (simp add: algebra_simps)
    have "0 \<le> q - 1" using assms(2) by simp
    then have "0 \<le> m - 2 ^ nat (- e)"
      using pow2_pos [of e] unfolding eq by (simp add: zero_le_mult_iff linorder_not_le [symmetric] del: pow2_pos)
    moreover have "(0::int) < 2 ^ nat (- e)" by simp
    ultimately have "\<bar>m - 2 ^ nat (- e)\<bar> < 2 ^ 53" using q(2) m by linarith
    with eq q(3) lt show ?thesis by (intro representableI)
  next
    case False
    then have "pow2 e = of_int (2 ^ nat e)" using pow2_of_nat [of "nat e"] by simp
    then obtain x where i: "q = of_int x" using q(1) by (metis of_int_mult)
    then have "x < 2 ^ 52" "1 \<le> x" using assms(2,3) pow2_of_bits(2) [of 52 x] by simp_all
    then have "representable (of_int (x - 1))" by (intro representable_int) simp
    then show ?thesis by (simp add: i)
  qed
qed

lemma f64_round_nonneg: "0 \<le> q \<Longrightarrow> f64_round q = PosInf \<or> (\<exists>r. f64_round q = Fin r \<and> 0 \<le> r)"
proof -
  assume q: "0 \<le> q"
  have p: "0 < pow2 1024" by simp
  have "0 \<le> round_half_even (q / pow2 (ulp_exp q))"
    using q by (intro round_half_even_nonneg divide_nonneg_pos) simp_all
  then have "0 \<le> pow2 (ulp_exp q) * of_int (round_half_even (q / pow2 (ulp_exp q)))"
    by (intro mult_nonneg_nonneg) (simp_all add: less_imp_le)
  with p show ?thesis by (auto simp: f64_round_def Let_def)
qed

end
