(* ===== verification/Redaction.thy ===== *)
theory Redaction
  imports Prelude
begin

text \<open>
  Secret redaction and the audit record (\<open>crates/telemetry/src/lib.rs\<close>), with the \<open>str\<close> operations they
  and the public-output gate use. Strings are their UTF-8 bytes; a match of one valid UTF-8 string in
  another starts and ends at character boundaries, so searching bytes is searching characters.
\<close>

section \<open>String operations of the standard library\<close>

fun starts_with :: "'a list \<Rightarrow> 'a list \<Rightarrow> bool" where
  "starts_with [] t = True"
| "starts_with (p # ps) [] = False"
| "starts_with (p # ps) (c # t) = (p = c \<and> starts_with ps t)"

fun str_contains :: "'a list \<Rightarrow> 'a list \<Rightarrow> bool" where
  "str_contains [] p = (p = [])"
| "str_contains (c # t) p = (starts_with p (c # t) \<or> str_contains t p)"

text \<open>\<open>str::replace\<close> for a non-empty pattern: matches from the left, not overlapping.\<close>

function str_replace :: "'a list \<Rightarrow> 'a list \<Rightarrow> 'a list \<Rightarrow> 'a list" where
  "str_replace p r [] = []"
| "str_replace p r (c # t) =
     (if p \<noteq> [] \<and> starts_with p (c # t) then r @ str_replace p r (drop (length p) (c # t))
      else c # str_replace p r t)"
  by pat_completeness auto
termination
  by (relation "measure (\<lambda>(p, r, t). length t)") (auto simp: neq_Nil_conv)

definition ascii_lower :: "char \<Rightarrow> char" where
  "ascii_lower c = (let n = of_char c :: nat in if 65 \<le> n \<and> n \<le> 90 then char_of (n + 32) else c)"

definition to_ascii_lowercase :: "string \<Rightarrow> string" where
  "to_ascii_lowercase s = map ascii_lower s"

text \<open>Decimal \<open>Display\<close> of an unsigned integer.\<close>

fun show_nat :: "nat \<Rightarrow> string" where
  "show_nat n = (if n < 10 then [char_of (48 + n)] else show_nat (n div 10) @ [char_of (48 + n mod 10)])"

declare show_nat.simps [simp del]

section \<open>The redactor\<close>

record secret_redactor =
  srd_secrets :: "string list"

definition REDACTED :: string where
  "REDACTED = ''[REDACTED]''"

definition redactor_new :: "string list \<Rightarrow> secret_redactor" where
  "redactor_new secrets = \<lparr>srd_secrets = filter (\<lambda>s. s \<noteq> []) secrets\<rparr>"

definition redact :: "secret_redactor \<Rightarrow> string \<Rightarrow> string" where
  "redact rd body = fold (\<lambda>secret output. str_replace secret REDACTED output) (srd_secrets rd) body"

datatype audit_category = AC_Ingress | AC_Authorization | AC_Output | AC_Generation | AC_Memory

record audit_record =
  adr_event_id :: "string option"
  adr_category :: audit_category
  adr_decision :: string
  adr_detail :: string

definition redactor_audit :: "secret_redactor \<Rightarrow> string option \<Rightarrow> audit_category \<Rightarrow> string \<Rightarrow> string \<Rightarrow> audit_record" where
  "redactor_audit rd event_id cat decision detail =
     \<lparr>adr_event_id = event_id, adr_category = cat, adr_decision = redact rd decision,
      adr_detail = redact rd detail\<rparr>"

section \<open>Search and replacement\<close>

lemma starts_with_Nil_iff [simp]: "starts_with p [] \<longleftrightarrow> p = []"
  by (cases p) auto

lemma starts_with_append: "starts_with p t \<longleftrightarrow> (\<exists>u. t = p @ u)"
  by (induction p t rule: starts_with.induct) auto

lemma str_contains_iff: "str_contains t p \<longleftrightarrow> (\<exists>a b. t = a @ p @ b)"
proof (induction t)
  case (Cons c t)
  have "(\<exists>a b. c # t = a @ p @ b) \<longleftrightarrow> (\<exists>b. c # t = p @ b) \<or> (\<exists>a b. t = a @ p @ b)"
    by (metis append_Cons append_Nil append_eq_Cons_conv)
  with Cons show ?case by (simp add: starts_with_append)
qed simp

lemma str_contains_Nil [simp]: "str_contains t []"
  by (cases t) simp_all

lemma str_replace_match: "p \<noteq> [] \<Longrightarrow> str_replace p r (p @ u) = r @ str_replace p r u"
proof -
  assume "p \<noteq> []"
  then obtain c q where p: "p = c # q" by (cases p) auto
  have "starts_with p (c # (q @ u))" by (simp add: p starts_with_append)
  then show ?thesis by (simp add: p)
qed

text \<open>
  A marker is separable from a pattern \<open>w\<close>, under a reading \<open>f\<close> of the characters, when its first and
  its last character do not occur in \<open>w\<close> and \<open>w\<close> does not occur in the marker itself.
\<close>

definition separable :: "('a \<Rightarrow> 'b) \<Rightarrow> 'a list \<Rightarrow> 'b list \<Rightarrow> bool" where
  "separable f r w \<longleftrightarrow> r \<noteq> [] \<and> f (hd r) \<notin> set w \<and> f (last r) \<notin> set w \<and> w \<noteq> [] \<and> \<not> str_contains (map f r) w"

lemma starts_with_replace:
  assumes "separable f r w'" "set w \<subseteq> set w'" "starts_with w (map f (str_replace p r t))"
  shows "starts_with w (map f t)"
  using assms(2,3)
proof (induction t arbitrary: w)
  case (Cons c t)
  show ?case
  proof (cases w)
    case w: (Cons x w1)
    obtain a r1 where r: "r = a # r1" using assms(1) by (auto simp: separable_def neq_Nil_conv)
    show ?thesis
    proof (cases "p \<noteq> [] \<and> starts_with p (c # t)")
      case True
      with Cons.prems w r have "x = f a" by simp
      with Cons.prems(1) w r assms(1) show ?thesis by (auto simp: separable_def)
    next
      case False
      with Cons.prems w have "x = f c" "starts_with w1 (map f (str_replace p r t))" by (auto split: if_splits)
      with Cons.IH [of w1] Cons.prems(1) w show ?thesis by simp
    qed
  qed simp
qed simp

lemma contains_after_marker:
  assumes "separable f r w" "str_contains (map f r @ u) w"
  shows "str_contains u w"
proof -
  from assms(2) obtain a b where ab: "map f r @ u = a @ w @ b" by (auto simp: str_contains_iff)
  show ?thesis
  proof (cases "length (map f r) \<le> length a")
    case True
    with ab have "u = drop (length r) a @ w @ b"
      by (auto simp: append_eq_append_conv_if split: if_splits)
    then show ?thesis by (auto simp: str_contains_iff)
  next
    case False
    then have la: "length a < length r" by simp
    let ?m = "map f r"
    have inside: "\<not> length (a @ w) \<le> length r"
    proof
      assume "length (a @ w) \<le> length r"
      with ab have "?m = a @ w @ take (length r - length (a @ w)) b"
        by (metis append_assoc append_eq_append_conv_if append_take_drop_id length_map take_append take_all_iff append_eq_conv_conj)
      then have "str_contains ?m w" by (auto simp: str_contains_iff)
      with assms(1) show False by (simp add: separable_def)
    qed
    have ne: "r \<noteq> []" using assms(1) by (simp add: separable_def)
    have "(a @ w @ b) ! (length r - 1) = f (last r)"
      using ne by (simp add: ab [symmetric] nth_append last_conv_nth)
    moreover have "(a @ w @ b) ! (length r - 1) = w ! (length r - 1 - length a)"
      using la inside by (auto simp: nth_append)
    moreover have "length r - 1 - length a < length w" using la inside by auto
    ultimately have "f (last r) \<in> set w" by (metis nth_mem)
    with assms(1) show ?thesis by (simp add: separable_def)
  qed
qed

text \<open>Replacement by a separable marker creates no new occurrence.\<close>

lemma replace_creates_nothing:
  "separable f r w \<Longrightarrow> str_contains (map f (str_replace p r t)) w \<Longrightarrow> str_contains (map f t) w"
proof (induction p r t rule: str_replace.induct)
  case (2 p r c t)
  show ?case
  proof (cases "p \<noteq> [] \<and> starts_with p (c # t)")
    case True
    then obtain u where u: "c # t = p @ u" by (auto simp: starts_with_append)
    with True "2.prems"(2) have "str_contains (map f r @ map f (str_replace p r u)) w"
      by (simp add: str_replace_match del: str_replace.simps)
    then have "str_contains (map f (str_replace p r u)) w" by (rule contains_after_marker [OF "2.prems"(1)])
    with "2.IH"(1) [OF True "2.prems"(1)] u have "str_contains (map f u) w" by simp
    then show ?thesis unfolding u by (auto simp: str_contains_iff) (metis append_assoc)
  next
    case False
    with "2.prems"(2) have "starts_with w (map f (c # str_replace p r t)) \<or> str_contains (map f (str_replace p r t)) w"
      by auto
    then show ?thesis
    proof
      assume "starts_with w (map f (c # str_replace p r t))"
      moreover have "str_replace p r (c # t) = c # str_replace p r t" using False by (subst str_replace.simps) auto
      ultimately have "starts_with w (map f (str_replace p r (c # t)))" by (simp del: str_replace.simps)
      then have "starts_with w (map f (c # t))" by (rule starts_with_replace [OF "2.prems"(1) subset_refl])
      then show ?thesis by simp
    qed (use "2.IH"(2) [OF False "2.prems"(1)] in simp)
  qed
qed simp

text \<open>Nor does it leave an occurrence of the replaced pattern.\<close>

lemma replace_removes:
  "separable id r p \<Longrightarrow> \<not> str_contains (str_replace p r t) p"
proof (induction p r t rule: str_replace.induct)
  case (1 p r)
  then show ?case by (simp add: separable_def)
next
  case (2 p r c t)
  show ?case
  proof (cases "p \<noteq> [] \<and> starts_with p (c # t)")
    case True
    then obtain u where u: "c # t = p @ u" by (auto simp: starts_with_append)
    then have "\<not> str_contains (str_replace p r u) p" using "2.IH"(1) [OF True "2.prems"] by simp
    then show ?thesis
      using True contains_after_marker [OF "2.prems", of "str_replace p r u"]
      by (auto simp: u str_replace_match simp del: str_replace.simps)
  next
    case False
    have "\<not> starts_with p (str_replace p r (c # t))"
      using starts_with_replace [OF "2.prems" subset_refl, of p "c # t"] False "2.prems"
      by (auto simp: separable_def simp del: str_replace.simps)
    with False "2.IH"(2) [OF False "2.prems"] show ?thesis by auto
  qed
qed

section \<open>What redaction guarantees\<close>

text \<open>A secret that cannot be confused with the marker.\<close>

definition plain_secret :: "string \<Rightarrow> bool" where
  "plain_secret w \<longleftrightarrow> separable id REDACTED w"

lemma redact_fold_creates_nothing:
  "separable f REDACTED w \<Longrightarrow>
     str_contains (map f (fold (\<lambda>s out. str_replace s REDACTED out) ss body)) w \<Longrightarrow> str_contains (map f body) w"
  by (induction ss arbitrary: body) (auto dest: replace_creates_nothing)

lemma redact_creates_nothing:
  "separable f REDACTED w \<Longrightarrow> str_contains (map f (redact rd body)) w \<Longrightarrow> str_contains (map f body) w"
  unfolding redact_def by (rule redact_fold_creates_nothing)

lemma redact_fold_removes:
  "s \<in> set ss \<Longrightarrow> plain_secret s \<Longrightarrow> \<not> str_contains (fold (\<lambda>s out. str_replace s REDACTED out) ss body) s"
proof (induction ss arbitrary: body)
  case (Cons x ss)
  show ?case
  proof (cases "s = x")
    case True
    have "\<not> str_contains (str_replace s REDACTED body) s"
      using Cons.prems(2) unfolding plain_secret_def by (rule replace_removes)
    then show ?thesis
      using redact_fold_creates_nothing [of id s ss "str_replace s REDACTED body"] Cons.prems(2)
      by (auto simp: True plain_secret_def)
  qed (use Cons in auto)
qed simp

lemma redact_removes:
  "s \<in> set (srd_secrets rd) \<Longrightarrow> plain_secret s \<Longrightarrow> \<not> str_contains (redact rd body) s"
  unfolding redact_def by (rule redact_fold_removes)

end
