(* ===== verification/Security_Runtime.thy ===== *)
theory Security_Runtime
  imports Float64 Redaction Domain_Control Scheduler_Props
begin

text \<open>
  The security boundary of \<open>crates/runtime/src/lib.rs\<close>: content admission through byte caps, per-source
  token buckets and a bounded queue; the authenticated control path; the public-output gate; the
  memory-write gate; the bounded audit and the correlation registry. The JSON library is the
  parameter \<open>json_lib\<close>: parsing an envelope, serializing a payload (its byte count) and reading a value
  as a string. A panic (an \<open>expect\<close> that fails) is \<open>None\<close>.
\<close>

section \<open>Data\<close>

record 'v json_lib =
  jl_from_slice :: "string \<Rightarrow> string + 'v event_envelope"
  jl_payload_bytes :: "(string, 'v) bmap \<Rightarrow> string + nat"
  jl_as_str :: "'v \<Rightarrow> string option"

record security_config =
  sec_rate :: f64
  sec_burst :: u32
  sec_max_envelope_bytes :: usize
  sec_max_payload_bytes :: usize
  sec_queue_limit :: usize
  sec_max_audit :: usize
  sec_max_sources :: usize
  sec_source_ttl_ms :: u64

definition default_security_config :: security_config where
  "default_security_config =
     \<lparr>sec_rate = Fin 20, sec_burst = 40, sec_max_envelope_bytes = 64 * 1024,
      sec_max_payload_bytes = 16 * 1024, sec_queue_limit = 1024, sec_max_audit = 4096,
      sec_max_sources = 4096, sec_source_ttl_ms = 10 * 60 * 1000\<rparr>"

record security_metrics =
  sme_audit_retained :: usize
  sme_audit_high_water :: usize
  sme_audit_evicted :: u64
  sme_sources :: usize
  sme_sources_high_water :: usize
  sme_sources_expired :: u64
  sme_sources_rejected :: u64
  sme_queue :: usize
  sme_queue_high_water :: usize

datatype runtime_error =
  RE_InvalidConfiguration string
| RE_InvalidEnvelope string
| RE_UnauthorizedControl string

fun runtime_error_display :: "runtime_error \<Rightarrow> string" where
  "runtime_error_display (RE_InvalidConfiguration field) = ''invalid runtime security configuration: '' @ field"
| "runtime_error_display (RE_InvalidEnvelope m) = ''invalid event envelope: '' @ m"
| "runtime_error_display (RE_UnauthorizedControl reason) = ''authenticated control rejected: '' @ reason"

datatype admit_decision =
  AD_Queued | AD_DroppedEnvelopeBytes | AD_DroppedPayloadBytes | AD_DroppedRate
| AD_DroppedBackpressure | AD_RejectedNonContent

datatype control_outcome = CO_Stopped nat | CO_Muted | CO_AuthenticatedOther

datatype memory_decision = MD_AllowedSystemSource | MD_AllowedMemoryAdmin | MD_Denied

fun memory_decision_debug :: "memory_decision \<Rightarrow> string" where
  "memory_decision_debug MD_AllowedSystemSource = ''AllowedSystemSource''"
| "memory_decision_debug MD_AllowedMemoryAdmin = ''AllowedMemoryAdmin''"
| "memory_decision_debug MD_Denied = ''Denied''"

record memory_permit =
  mp_event_id :: string
  mp_source :: string
  mp_source_class :: source_class
  mp_trust_level :: trust_level
  mp_actor_id :: "string option"
  mp_decision :: memory_decision
  mp_source_claim :: "string option"

datatype output_verdict = OV_Allow | OV_Redact | OV_ReplaceWithCached | OV_Suppress

record public_output =
  po_verdict :: output_verdict
  po_text :: "string option"
  po_reason :: string

record output_policy =
  op_redactor :: secret_redactor
  op_cached_reaction :: "string option"

record bucket =
  bk_tokens :: f64
  bk_last_refill_ms :: u64

record correlation_ref =
  cr_event_id :: string
  cr_sequence :: u64

record correlation_entry =
  ce_correlation_id :: string
  ce_event_id :: string
  ce_sequence :: u64

record 'v security_runtime =
  sr_config :: security_config
  sr_scheduler :: scheduler
  sr_buckets :: "(string, bucket) bmap"
  sr_queue :: "'v event_envelope list"
  sr_muted :: bool
  sr_redactor :: secret_redactor
  sr_cached_reaction :: "string option"
  sr_audit :: "audit_record list"
  sr_audit_high_water :: usize
  sr_audit_evicted :: u64
  sr_sources_high_water :: usize
  sr_sources_expired :: u64
  sr_sources_rejected :: u64
  sr_queue_high_water :: usize
  sr_correlations :: "(string, correlation_ref) bmap"
  sr_correlation_order :: "string list"

definition MAX_CORRELATION_REFS :: nat where
  "MAX_CORRELATION_REFS = 128"

section \<open>Construction and views\<close>

definition validate_security_config :: "security_config \<Rightarrow> runtime_error + unit" where
  "validate_security_config c =
     (if \<not> f64_is_finite (sec_rate c) \<or> f64_le (sec_rate c) (Fin 0) then Inl (RE_InvalidConfiguration ''content_rate_per_second'')
      else if sec_burst c = 0 then Inl (RE_InvalidConfiguration ''content_burst'')
      else if sec_max_envelope_bytes c = 0 then Inl (RE_InvalidConfiguration ''max_envelope_bytes'')
      else if sec_max_payload_bytes c = 0 then Inl (RE_InvalidConfiguration ''max_payload_bytes'')
      else if sec_queue_limit c = 0 then Inl (RE_InvalidConfiguration ''content_queue_limit'')
      else if sec_max_audit c = 0 then Inl (RE_InvalidConfiguration ''max_audit_records'')
      else if sec_max_sources c = 0 then Inl (RE_InvalidConfiguration ''max_rate_limit_sources'')
      else if sec_source_ttl_ms c = 0 then Inl (RE_InvalidConfiguration ''rate_limit_source_ttl_ms'')
      else Inr ())"

definition security_runtime_new ::
  "security_config \<Rightarrow> scheduler_config \<Rightarrow> secret_redactor \<Rightarrow> string option \<Rightarrow> runtime_error + 'v security_runtime" where
  "security_runtime_new c sc rd cached =
     rbind (validate_security_config c) (\<lambda>_. Inr
       \<lparr>sr_config = c, sr_scheduler = scheduler_new sc, sr_buckets = [], sr_queue = [], sr_muted = False,
        sr_redactor = rd, sr_cached_reaction = cached, sr_audit = [], sr_audit_high_water = 0,
        sr_audit_evicted = 0, sr_sources_high_water = 0, sr_sources_expired = 0, sr_sources_rejected = 0,
        sr_queue_high_water = 0, sr_correlations = [], sr_correlation_order = []\<rparr>)"

definition retention_metrics :: "'v security_runtime \<Rightarrow> security_metrics" where
  "retention_metrics rt =
     \<lparr>sme_audit_retained = length (sr_audit rt), sme_audit_high_water = sr_audit_high_water rt,
      sme_audit_evicted = sr_audit_evicted rt, sme_sources = length (sr_buckets rt),
      sme_sources_high_water = sr_sources_high_water rt, sme_sources_expired = sr_sources_expired rt,
      sme_sources_rejected = sr_sources_rejected rt, sme_queue = length (sr_queue rt),
      sme_queue_high_water = sr_queue_high_water rt\<rparr>"

section \<open>The audit record\<close>

definition push_audit :: "audit_record \<Rightarrow> 'v security_runtime \<Rightarrow> 'v security_runtime" where
  "push_audit r rt =
     (let audit = sr_audit rt @ [r]; cap = sec_max_audit (sr_config rt);
          remove = length audit - cap;
          audit' = (if cap < length audit then drop remove audit else audit);
          evicted = (if cap < length audit then sadd (sr_audit_evicted rt) remove else sr_audit_evicted rt)
      in rt\<lparr>sr_audit := audit', sr_audit_high_water := max (sr_audit_high_water rt) (length audit'),
           sr_audit_evicted := evicted\<rparr>)"

definition record_generation_call ::
  "string \<Rightarrow> string \<Rightarrow> string \<Rightarrow> string option \<Rightarrow> string option \<Rightarrow> 'v security_runtime \<Rightarrow> 'v security_runtime" where
  "record_generation_call event_id routing_reason backend alias version rt =
     push_audit (redactor_audit (sr_redactor rt) (Some event_id) AC_Generation ''llm_call''
       (''routing_reason='' @ routing_reason @ '' backend='' @ backend @ '' model_alias='' @
        (case alias of None \<Rightarrow> ''-'' | Some a \<Rightarrow> a) @ '' model_version='' @
        (case version of None \<Rightarrow> ''-'' | Some v \<Rightarrow> v))) rt"

definition record_ingress :: "'v event_envelope \<Rightarrow> string \<Rightarrow> string \<Rightarrow> 'v security_runtime \<Rightarrow> 'v security_runtime" where
  "record_ingress e decision detail rt =
     push_audit (redactor_audit (sr_redactor rt) (Some (ev_event_id e)) AC_Ingress decision detail) rt"

definition record_output :: "string \<Rightarrow> 'v security_runtime \<Rightarrow> 'v security_runtime" where
  "record_output reason rt = push_audit (redactor_audit (sr_redactor rt) None AC_Output reason reason) rt"

section \<open>Rate limiting\<close>

definition expire_sources :: "u64 \<Rightarrow> 'v security_runtime \<Rightarrow> 'v security_runtime" where
  "expire_sources now rt =
     (let before = length (sr_buckets rt);
          kept = bm_retain (\<lambda>_ b. now - bk_last_refill_ms b < sec_source_ttl_ms (sr_config rt)) (sr_buckets rt)
      in rt\<lparr>sr_buckets := kept, sr_sources_expired := sadd (sr_sources_expired rt) (before - length kept)\<rparr>)"

text \<open>The refill of a bucket at \<open>now\<close>.\<close>

definition refill :: "security_config \<Rightarrow> u64 \<Rightarrow> bucket \<Rightarrow> bucket" where
  "refill c now b =
     (let elapsed = now - bk_last_refill_ms b
      in \<lparr>bk_tokens = f64_min (f64_add (bk_tokens b)
                       (f64_mul (f64_div_fin (f64_of_nat elapsed) 1000) (sec_rate c))) (f64_of_nat (sec_burst c)),
         bk_last_refill_ms = now\<rparr>)"

text \<open>The bucket part of \<open>consume_token\<close>, once the source has a bucket.\<close>

definition spend_token :: "string \<Rightarrow> u64 \<Rightarrow> 'v security_runtime \<Rightarrow> (bool \<times> 'v security_runtime) option" where
  "spend_token source now rt =
     (case bm_get (sr_buckets rt) source of
        None \<Rightarrow> None
      | Some b0 \<Rightarrow>
          let b = refill (sr_config rt) now b0 in
          Some (if f64_lt (bk_tokens b) (Fin 1)
                then (False, rt\<lparr>sr_buckets := bm_insert source b (sr_buckets rt)\<rparr>)
                else (True, rt\<lparr>sr_buckets := bm_insert source (b\<lparr>bk_tokens := f64_sub_fin (bk_tokens b) 1\<rparr>) (sr_buckets rt)\<rparr>)))"

definition consume_token :: "string \<Rightarrow> u64 \<Rightarrow> 'v security_runtime \<Rightarrow> (bool \<times> 'v security_runtime) option" where
  "consume_token source now rt =
     (case bm_get (sr_buckets rt) source of
        Some _ \<Rightarrow> spend_token source now rt
      | None \<Rightarrow>
          let rt1 = expire_sources now rt in
          if sec_max_sources (sr_config rt1) \<le> length (sr_buckets rt1)
          then Some (False, rt1\<lparr>sr_sources_rejected := sadd (sr_sources_rejected rt1) 1\<rparr>)
          else
            let buckets = bm_insert source \<lparr>bk_tokens = f64_of_nat (sec_burst (sr_config rt1)), bk_last_refill_ms = now\<rparr>
                            (sr_buckets rt1)
            in spend_token source now
                 (rt1\<lparr>sr_buckets := buckets,
                      sr_sources_high_water := max (sr_sources_high_water rt1) (length buckets)\<rparr>))"

section \<open>Correlations\<close>

text \<open>The eviction loop; \<open>None\<close> is the failing \<open>expect\<close> on an empty order track.\<close>

fun evict_correlations ::
  "string list \<Rightarrow> (string, correlation_ref) bmap \<Rightarrow> (string list \<times> (string, correlation_ref) bmap) option" where
  "evict_correlations [] m = (if MAX_CORRELATION_REFS < length m then None else Some ([], m))"
| "evict_correlations (oldest # order) m =
     (if MAX_CORRELATION_REFS < length m then evict_correlations order (bm_remove oldest m)
      else Some (oldest # order, m))"

definition record_correlation :: "'v event_envelope \<Rightarrow> 'v security_runtime \<Rightarrow> 'v security_runtime option" where
  "record_correlation e rt =
     (let cid = ev_correlation_id e;
          order0 = (if bm_get (sr_correlations rt) cid \<noteq> None
                    then filter (\<lambda>i. i \<noteq> cid) (sr_correlation_order rt) else sr_correlation_order rt);
          m = bm_insert cid \<lparr>cr_event_id = ev_event_id e, cr_sequence = ev_sequence e\<rparr> (sr_correlations rt)
      in map_option (\<lambda>(order, m'). rt\<lparr>sr_correlations := m', sr_correlation_order := order\<rparr>)
           (evict_correlations (order0 @ [cid]) m))"

definition recent_correlations :: "nat \<Rightarrow> 'v security_runtime \<Rightarrow> correlation_entry list" where
  "recent_correlations limit rt =
     List.map_filter (\<lambda>i. map_option
         (\<lambda>r. \<lparr>ce_correlation_id = i, ce_event_id = cr_event_id r, ce_sequence = cr_sequence r\<rparr>)
         (bm_get (sr_correlations rt) i))
       (take limit (rev (sr_correlation_order rt)))"

section \<open>Content admission\<close>

text \<open>The tail of \<open>admit_content_bytes\<close>, after the token has been spent.\<close>

definition enqueue_content ::
  "'v event_envelope \<Rightarrow> nat \<Rightarrow> 'v security_runtime \<Rightarrow> (admit_decision \<times> 'v security_runtime) option" where
  "enqueue_content e payload rt =
     (if sec_queue_limit (sr_config rt) \<le> length (sr_queue rt)
      then Some (AD_DroppedBackpressure, record_ingress e ''dropped_backpressure'' ''content queue full'' rt)
      else
        map_option (\<lambda>rt2.
            let queue = sr_queue rt2 @ [e]
            in (AD_Queued, rt2\<lparr>sr_queue := queue, sr_queue_high_water := max (sr_queue_high_water rt2) (length queue)\<rparr>))
          (record_correlation e (record_ingress e ''queued'' (''payload_bytes='' @ show_nat payload) rt)))"

definition admit_content_bytes ::
  "'v json_lib \<Rightarrow> string \<Rightarrow> u64 \<Rightarrow> 'v security_runtime \<Rightarrow>
     ((runtime_error + admit_decision) \<times> 'v security_runtime) option" where
  "admit_content_bytes js raw now rt =
     (if sec_max_envelope_bytes (sr_config rt) < length raw
      then Some (Inr AD_DroppedEnvelopeBytes,
             push_audit (redactor_audit (sr_redactor rt) None AC_Ingress ''dropped_envelope_bytes''
               (''envelope_bytes='' @ show_nat (length raw))) rt)
      else case jl_from_slice js raw of
        Inl m \<Rightarrow> Some (Inl (RE_InvalidEnvelope m), rt)
      | Inr e \<Rightarrow>
        (case validate_event e of
          Inl err \<Rightarrow> Some (Inl (RE_InvalidEnvelope (domain_error_display err)), rt)
        | Inr _ \<Rightarrow>
          if ev_plane e \<noteq> Plane_Content \<or> ev_kind e = OperatorCommand \<or> ev_authorization e \<noteq> None
          then Some (Inr AD_RejectedNonContent,
                 record_ingress e ''rejected_non_content''
                   ''control/system authority is not accepted on content ingress'' rt)
          else case jl_payload_bytes js (ev_payload e) of
            Inl m \<Rightarrow> Some (Inl (RE_InvalidEnvelope m), rt)
          | Inr payload \<Rightarrow>
            if sec_max_payload_bytes (sr_config rt) < payload
            then Some (Inr AD_DroppedPayloadBytes,
                   record_ingress e ''dropped_payload_bytes'' (''payload_bytes='' @ show_nat payload) rt)
            else case consume_token (ev_source e) now rt of
              None \<Rightarrow> None
            | Some (False, rt1) \<Rightarrow>
                Some (Inr AD_DroppedRate, record_ingress e ''dropped_rate'' ''per-source token bucket exhausted'' rt1)
            | Some (True, rt1) \<Rightarrow> map_option (\<lambda>(d, rt2). (Inr d, rt2)) (enqueue_content e payload rt1)))"

definition pop_content :: "'v security_runtime \<Rightarrow> 'v event_envelope option \<times> 'v security_runtime" where
  "pop_content rt =
     (case sr_queue rt of [] \<Rightarrow> (None, rt) | e # es \<Rightarrow> (Some e, rt\<lparr>sr_queue := es\<rparr>))"

section \<open>Authenticated control\<close>

definition require_capability :: "authenticated_control \<Rightarrow> capability \<Rightarrow> runtime_error + unit" where
  "require_capability a c = ensure (has_capability a c) (RE_UnauthorizedControl ''capability not granted'')"

definition validate_authority_matches_event ::
  "authenticated_control \<Rightarrow> 'v event_envelope \<Rightarrow> runtime_error + unit" where
  "validate_authority_matches_event a e =
     (if ev_kind e \<noteq> OperatorCommand \<or> ev_plane e \<noteq> Plane_Control
      then Inl (RE_UnauthorizedControl ''authority is not attached to an operator control event'')
      else case ev_authorization e of
          None \<Rightarrow> Inl (RE_UnauthorizedControl ''missing authorization claim'')
        | Some claim \<Rightarrow>
            ensure (ac_principal claim = auc_principal a \<and> ac_method claim = auc_method a
                    \<and> ac_capabilities claim = auc_capabilities a)
              (RE_UnauthorizedControl ''serialized claim does not match authenticated authority''))"

definition command_action :: "'v json_lib \<Rightarrow> 'v event_envelope \<Rightarrow> runtime_error + string" where
  "command_action js e =
     (case Option.bind (bm_get (ev_payload e) ''action'') (jl_as_str js) of
        None \<Rightarrow> Inl (RE_UnauthorizedControl ''missing action'')
      | Some action \<Rightarrow> Inr action)"

text \<open>
  \<open>handle_control_with_scheduler\<close>: the outcome, the runtime and the scheduler. \<open>handle_control\<close> is the
  same body on the runtime's own scheduler.
\<close>

definition control_body ::
  "'v json_lib \<Rightarrow> 'v authenticated_command \<Rightarrow> u64 \<Rightarrow> bool \<Rightarrow> scheduler \<Rightarrow>
     runtime_error + string \<times> control_outcome \<times> bool \<times> scheduler" where
  "control_body js cmd at_ms muted sch =
     rbind (validate_authority_matches_event (acm_authority cmd) (acm_event cmd)) (\<lambda>_.
     rbind (command_action js (acm_event cmd)) (\<lambda>action.
       if action = ''stop'' \<or> action = ''performer.stop'' then
         rbind (require_capability (acm_authority cmd) PerformerStop) (\<lambda>_.
           case stop_all at_ms sch of (stopped, sch') \<Rightarrow> Inr (action, CO_Stopped (length stopped), muted, sch'))
       else if action = ''mute'' \<or> action = ''performer.mute'' then
         rbind (require_capability (acm_authority cmd) PerformerMute) (\<lambda>_. Inr (action, CO_Muted, True, sch))
       else Inr (action, CO_AuthenticatedOther, muted, sch)))"

definition audit_control :: "'v authenticated_command \<Rightarrow> string \<Rightarrow> 'v security_runtime \<Rightarrow> 'v security_runtime" where
  "audit_control cmd action rt =
     push_audit (redactor_audit (sr_redactor rt) (Some (ev_event_id (acm_event cmd))) AC_Authorization
       ''authorized_control'' (''principal='' @ auc_principal (acm_authority cmd) @ '' action='' @ action)) rt"

definition handle_control ::
  "'v json_lib \<Rightarrow> 'v authenticated_command \<Rightarrow> u64 \<Rightarrow> 'v security_runtime \<Rightarrow>
     (runtime_error + control_outcome) \<times> 'v security_runtime" where
  "handle_control js cmd at_ms rt =
     (case control_body js cmd at_ms (sr_muted rt) (sr_scheduler rt) of
        Inl e \<Rightarrow> (Inl e, rt)
      | Inr (action, out, muted, sch) \<Rightarrow>
          (Inr out, audit_control cmd action (rt\<lparr>sr_scheduler := sch, sr_muted := muted\<rparr>)))"

definition handle_control_with_scheduler ::
  "'v json_lib \<Rightarrow> 'v authenticated_command \<Rightarrow> u64 \<Rightarrow> scheduler \<Rightarrow> 'v security_runtime \<Rightarrow>
     (runtime_error + control_outcome) \<times> 'v security_runtime \<times> scheduler" where
  "handle_control_with_scheduler js cmd at_ms sch0 rt =
     (case control_body js cmd at_ms (sr_muted rt) sch0 of
        Inl e \<Rightarrow> (Inl e, rt, sch0)
      | Inr (action, out, muted, sch) \<Rightarrow>
          (Inr out, audit_control cmd action (rt\<lparr>sr_muted := muted\<rparr>), sch))"

section \<open>Public output\<close>

definition CONTROL_TERMS :: "string list" where
  "CONTROL_TERMS = [''obs.control'', ''tool.grant'', ''memory.admin'', ''performer.stop'', ''performer.mute'']"

definition evaluate_output :: "string \<Rightarrow> output_policy \<Rightarrow> public_output" where
  "evaluate_output body p =
     (if list_ex (\<lambda>term. str_contains (to_ascii_lowercase body) term) CONTROL_TERMS then
        (case op_cached_reaction p of
           Some cached \<Rightarrow> \<lparr>po_verdict = OV_ReplaceWithCached, po_text = Some (redact (op_redactor p) cached),
                           po_reason = ''control_plane_text''\<rparr>
         | None \<Rightarrow> \<lparr>po_verdict = OV_Suppress, po_text = None, po_reason = ''control_plane_text''\<rparr>)
      else
        let redacted = redact (op_redactor p) body in
        if redacted \<noteq> body
        then \<lparr>po_verdict = OV_Redact, po_text = Some redacted, po_reason = ''configured_secret_redacted''\<rparr>
        else \<lparr>po_verdict = OV_Allow, po_text = Some body, po_reason = ''clean''\<rparr>)"

definition public_output_policy :: "'v security_runtime \<Rightarrow> output_policy" where
  "public_output_policy rt = \<lparr>op_redactor = sr_redactor rt, op_cached_reaction = sr_cached_reaction rt\<rparr>"

definition record_public_output_decision :: "public_output \<Rightarrow> 'v security_runtime \<Rightarrow> 'v security_runtime" where
  "record_public_output_decision out rt = record_output (po_reason out) rt"

definition publish_text :: "string \<Rightarrow> 'v security_runtime \<Rightarrow> public_output \<times> 'v security_runtime" where
  "publish_text body rt =
     (let out = evaluate_output body (public_output_policy rt)
      in (out, record_public_output_decision out rt))"

section \<open>The memory-write gate\<close>

definition memory_write_decision :: "'v event_envelope \<Rightarrow> authenticated_control option \<Rightarrow> memory_decision" where
  "memory_write_decision e authority =
     (if (case authority of None \<Rightarrow> False | Some a \<Rightarrow> has_capability a MemoryAdmin) then MD_AllowedMemoryAdmin
      else if ev_plane e = Plane_System \<and> (ev_trust_level e = Trusted \<or> ev_trust_level e = SemiTrusted)
      then MD_AllowedSystemSource
      else MD_Denied)"

definition authorize_memory_write ::
  "'v json_lib \<Rightarrow> 'v event_envelope \<Rightarrow> authenticated_control option \<Rightarrow> 'v security_runtime \<Rightarrow>
     (memory_decision \<times> memory_permit option) \<times> 'v security_runtime" where
  "authorize_memory_write js e authority rt =
     (let d = memory_write_decision e authority;
          rt1 = push_audit (redactor_audit (sr_redactor rt) (Some (ev_event_id e)) AC_Memory
                  (memory_decision_debug d) ''memory write gate'') rt;
          permit = (if d \<noteq> MD_Denied
                    then Some \<lparr>mp_event_id = ev_event_id e, mp_source = ev_source e, mp_source_class = ev_source_class e,
                               mp_trust_level = ev_trust_level e, mp_actor_id = ev_actor_id e, mp_decision = d,
                               mp_source_claim = Option.bind (bm_get (ev_payload e) ''text'') (jl_as_str js)\<rparr>
                    else None)
      in ((d, permit), rt1))"

definition gate_memory_write ::
  "'v json_lib \<Rightarrow> 'v event_envelope \<Rightarrow> authenticated_control option \<Rightarrow> 'v security_runtime \<Rightarrow>
     memory_decision \<times> 'v security_runtime" where
  "gate_memory_write js e authority rt =
     (case authorize_memory_write js e authority rt of ((d, _), rt') \<Rightarrow> (d, rt'))"

end
