(* ===== verification/Runtime_Inv.thy ===== *)
theory Runtime_Inv
  imports Security_Runtime
begin

text \<open>
  The security runtime as a transition system and its invariant: bounded retention everywhere, only
  validated unprivileged content in the queue, token counts that are exact floating-point numbers
  between zero and the burst, and a correlation order that matches the registry.
\<close>

section \<open>Steps\<close>

datatype 'v rt_op =
  RO_Admit string u64
| RO_Pop
| RO_Control "'v authenticated_command" u64
| RO_ControlWith "'v authenticated_command" u64 scheduler
| RO_Scheduler sched_op
| RO_Publish string
| RO_RecordOutput public_output
| RO_Memory "'v event_envelope" "authenticated_control option"
| RO_Generation string string string "string option" "string option"
| RO_ExternalAudit audit_record

text \<open>What a caller sees of an admission; the other operations yield nothing here.\<close>

type_synonym rt_obs = "(runtime_error + admit_decision) option"

fun rt_exec :: "'v json_lib \<Rightarrow> 'v rt_op \<Rightarrow> 'v security_runtime \<Rightarrow> (rt_obs \<times> 'v security_runtime) option" where
  "rt_exec js (RO_Admit raw now) rt = map_option (\<lambda>(r, rt'). (Some r, rt')) (admit_content_bytes js raw now rt)"
| "rt_exec js RO_Pop rt = Some (None, snd (pop_content rt))"
| "rt_exec js (RO_Control cmd t) rt = Some (None, snd (handle_control js cmd t rt))"
| "rt_exec js (RO_ControlWith cmd t sch) rt = Some (None, fst (snd (handle_control_with_scheduler js cmd t sch rt)))"
| "rt_exec js (RO_Scheduler op) rt =
     map_option (\<lambda>sch. (None, rt\<lparr>sr_scheduler := sch\<rparr>)) (sched_exec op (sr_scheduler rt))"
| "rt_exec js (RO_Publish body) rt = Some (None, snd (publish_text body rt))"
| "rt_exec js (RO_RecordOutput out) rt = Some (None, record_public_output_decision out rt)"
| "rt_exec js (RO_Memory e a) rt = Some (None, snd (authorize_memory_write js e a rt))"
| "rt_exec js (RO_Generation e r b a v) rt = Some (None, record_generation_call e r b a v rt)"
| "rt_exec js (RO_ExternalAudit r) rt = Some (None, push_audit r rt)"

fun rt_op_in_range :: "'v rt_op \<Rightarrow> bool" where
  "rt_op_in_range (RO_Control _ t) = (t \<le> u64_max)"
| "rt_op_in_range (RO_Scheduler op) = op_in_range op"
| "rt_op_in_range _ = True"

definition rt_init :: "'v security_runtime \<Rightarrow> bool" where
  "rt_init rt \<longleftrightarrow> (\<exists>c sc rd cached. security_runtime_new c sc rd cached = Inr rt \<and> sec_burst c \<le> u32_max)"

inductive rt_step :: "'v json_lib \<Rightarrow> 'v security_runtime \<Rightarrow> 'v security_runtime \<Rightarrow> bool" for js where
  "rt_op_in_range op \<Longrightarrow> rt_exec js op rt = Some (obs, rt') \<Longrightarrow> rt_step js rt rt'"

inductive_simps rt_step_iff: "rt_step js rt rt'"

abbreviation rt_reach :: "'v json_lib \<Rightarrow> 'v security_runtime \<Rightarrow> bool" where
  "rt_reach js \<equiv> reach rt_init (rt_step js)"

section \<open>The audit log\<close>

lemma push_audit_keep:
  "push_audit r rt = rt\<lparr>sr_audit := keep_last (sec_max_audit (sr_config rt)) (sr_audit rt @ [r]),
     sr_audit_high_water := max (sr_audit_high_water rt) (min (sec_max_audit (sr_config rt)) (Suc (length (sr_audit rt)))),
     sr_audit_evicted := sr_audit_evicted (push_audit r rt)\<rparr>"
  by (auto simp: push_audit_def Let_def keep_last_def)

interpretation audit_log: bounded_log push_audit sr_audit "\<lambda>rt. Some (sec_max_audit (sr_config rt))"
  by unfold_locales (simp_all add: push_audit_def Let_def keep_last_def)

lemma push_audit_frame [simp]:
  "sr_config (push_audit r rt) = sr_config rt"
  "sr_scheduler (push_audit r rt) = sr_scheduler rt"
  "sr_buckets (push_audit r rt) = sr_buckets rt"
  "sr_queue (push_audit r rt) = sr_queue rt"
  "sr_muted (push_audit r rt) = sr_muted rt"
  "sr_redactor (push_audit r rt) = sr_redactor rt"
  "sr_cached_reaction (push_audit r rt) = sr_cached_reaction rt"
  "sr_sources_high_water (push_audit r rt) = sr_sources_high_water rt"
  "sr_queue_high_water (push_audit r rt) = sr_queue_high_water rt"
  "sr_correlations (push_audit r rt) = sr_correlations rt"
  "sr_correlation_order (push_audit r rt) = sr_correlation_order rt"
  by (simp_all add: push_audit_def Let_def)

section \<open>The invariant\<close>

definition config_ok :: "security_config \<Rightarrow> bool" where
  "config_ok c \<longleftrightarrow>
     (\<exists>q. sec_rate c = Fin q \<and> 0 < q) \<and> 0 < sec_burst c \<and> sec_burst c \<le> u32_max \<and> 0 < sec_queue_limit c \<and>
     0 < sec_max_audit c \<and> 0 < sec_max_sources c \<and> 0 < sec_source_ttl_ms c"

definition content_event :: "'v event_envelope \<Rightarrow> bool" where
  "content_event e \<longleftrightarrow>
     validate_event e = Inr () \<and> ev_plane e = Plane_Content \<and> ev_kind e \<noteq> OperatorCommand \<and> ev_authorization e = None"

definition bucket_ok :: "u32 \<Rightarrow> bucket \<Rightarrow> bool" where
  "bucket_ok burst b \<longleftrightarrow> (\<exists>q. bk_tokens b = Fin q \<and> representable q \<and> 0 \<le> q \<and> q \<le> of_nat burst)"

definition buckets_ok :: "security_config \<Rightarrow> (string, bucket) bmap \<Rightarrow> bool" where
  "buckets_ok c m \<longleftrightarrow> bm_ok m \<and> length m \<le> sec_max_sources c \<and> (\<forall>b\<in>snd ` set m. bucket_ok (sec_burst c) b)"

definition registry_ok :: "string list \<Rightarrow> (string, correlation_ref) bmap \<Rightarrow> bool" where
  "registry_ok order m \<longleftrightarrow>
     bm_ok m \<and> distinct order \<and> set order = fst ` set m \<and> length order \<le> MAX_CORRELATION_REFS"

definition queue_ok :: "security_config \<Rightarrow> 'v event_envelope list \<Rightarrow> bool" where
  "queue_ok c es \<longleftrightarrow> length es \<le> sec_queue_limit c \<and> list_all content_event es"

definition high_water_ok :: "'v security_runtime \<Rightarrow> bool" where
  "high_water_ok rt \<longleftrightarrow>
     length (sr_audit rt) \<le> sr_audit_high_water rt \<and> sr_audit_high_water rt \<le> sec_max_audit (sr_config rt) \<and>
     length (sr_buckets rt) \<le> sr_sources_high_water rt \<and> sr_sources_high_water rt \<le> sec_max_sources (sr_config rt) \<and>
     length (sr_queue rt) \<le> sr_queue_high_water rt \<and> sr_queue_high_water rt \<le> sec_queue_limit (sr_config rt)"

definition rt_inv :: "'v security_runtime \<Rightarrow> bool" where
  "rt_inv rt \<longleftrightarrow>
     config_ok (sr_config rt) \<and> sched_inv (sr_scheduler rt) \<and> buckets_ok (sr_config rt) (sr_buckets rt) \<and>
     queue_ok (sr_config rt) (sr_queue rt) \<and> high_water_ok rt \<and>
     registry_ok (sr_correlation_order rt) (sr_correlations rt)"

lemma high_water_push_audit [simp]: "high_water_ok rt \<Longrightarrow> high_water_ok (push_audit r rt)"
  by (auto simp: high_water_ok_def push_audit_def Let_def)

lemma rt_inv_push_audit [inv_intros]: "rt_inv rt \<Longrightarrow> rt_inv (push_audit r rt)"
  by (simp add: rt_inv_def)

lemma rt_inv_records [inv_intros]:
  assumes "rt_inv rt"
  shows "rt_inv (record_ingress e d x rt)" "rt_inv (record_output r rt)"
    "rt_inv (record_public_output_decision out rt)" "rt_inv (record_generation_call ev rr b a v rt)"
    "rt_inv (audit_control cmd act rt)"
  using assms
  by (simp_all add: record_ingress_def record_output_def record_public_output_decision_def
      record_generation_call_def audit_control_def rt_inv_push_audit)

lemma rt_inv_init: "rt_init rt \<Longrightarrow> rt_inv rt"
proof -
  assume "rt_init rt"
  then obtain c sc rd cached where n: "security_runtime_new c sc rd cached = Inr rt" "sec_burst c \<le> u32_max"
    by (auto simp: rt_init_def)
  then have v: "validate_security_config c = Inr ()"
    by (auto simp: security_runtime_new_def rust_simps)
  then have "config_ok c"
    using n(2) by (cases "sec_rate c") (auto simp: validate_security_config_def config_ok_def split: if_splits)
  with n v show ?thesis
    by (auto simp: security_runtime_new_def rt_inv_def buckets_ok_def queue_ok_def high_water_ok_def registry_ok_def
        intro!: sched_inv_init simp: sched_init_def)
qed

section \<open>Buckets\<close>

lemma burst_representable: "config_ok c \<Longrightarrow> representable (of_nat (sec_burst c))"
  by (rule representable_nat) (simp add: config_ok_def u32_max_def)

lemma f64_of_burst [simp]: "config_ok c \<Longrightarrow> f64_of_nat (sec_burst c) = Fin (of_nat (sec_burst c))"
  by (simp add: f64_of_nat_def f64_round_exact burst_representable)

lemma refill_amount:
  assumes "0 < q"
  obtains "f64_mul (f64_div_fin (f64_of_nat n) 1000) (Fin q) = PosInf"
  | r where "f64_mul (f64_div_fin (f64_of_nat n) 1000) (Fin q) = Fin r" "0 \<le> r"
proof -
  have "f64_of_nat n = PosInf \<or> (\<exists>r. f64_of_nat n = Fin r \<and> 0 \<le> r)"
    unfolding f64_of_nat_def by (rule f64_round_nonneg) simp
  then have "f64_div_fin (f64_of_nat n) 1000 = PosInf \<or> (\<exists>r. f64_div_fin (f64_of_nat n) 1000 = Fin r \<and> 0 \<le> r)"
  proof
    assume "\<exists>r. f64_of_nat n = Fin r \<and> 0 \<le> r"
    then obtain r where r: "f64_of_nat n = Fin r" "0 \<le> r / 1000" by auto
    from f64_round_nonneg [OF r(2)] show ?thesis by (simp add: r(1))
  qed simp
  then have "f64_mul (f64_div_fin (f64_of_nat n) 1000) (Fin q) = PosInf \<or>
      (\<exists>r. f64_mul (f64_div_fin (f64_of_nat n) 1000) (Fin q) = Fin r \<and> 0 \<le> r)"
  proof
    assume "\<exists>r. f64_div_fin (f64_of_nat n) 1000 = Fin r \<and> 0 \<le> r"
    then obtain r where r: "f64_div_fin (f64_of_nat n) 1000 = Fin r" "0 \<le> r" by blast
    have "0 \<le> r * q" using r(2) assms by simp
    from f64_round_nonneg [OF this] show ?thesis by (simp add: r(1))
  qed (use assms in simp)
  then show thesis using that by blast
qed

lemma min_burst:
  assumes "v = PosInf \<or> (\<exists>r. v = Fin r \<and> 0 \<le> r \<and> representable r)" "representable (of_nat n)"
  shows "\<exists>q. f64_min v (Fin (of_nat n)) = Fin q \<and> representable q \<and> 0 \<le> q \<and> q \<le> of_nat n"
  using assms by (auto simp: f64_min_def)

lemma refill_ok:
  assumes "config_ok c" "bucket_ok (sec_burst c) b"
  shows "bucket_ok (sec_burst c) (refill c now b)"
proof -
  obtain q where q: "sec_rate c = Fin q" "0 < q" using assms(1) by (auto simp: config_ok_def)
  obtain t where t: "bk_tokens b = Fin t" "0 \<le> t" using assms(2) by (auto simp: bucket_ok_def)
  let ?m = "f64_mul (f64_div_fin (f64_of_nat (now - bk_last_refill_ms b)) 1000) (Fin q)"
  have "f64_add (Fin t) ?m = PosInf \<or> (\<exists>r. f64_add (Fin t) ?m = Fin r \<and> 0 \<le> r \<and> representable r)"
  proof (rule refill_amount [OF q(2), of "now - bk_last_refill_ms b"])
    fix r assume r: "?m = Fin r" "0 \<le> r"
    then have "0 \<le> t + r" using t by simp
    from f64_round_nonneg [OF this] r(1) show ?thesis using representable_round [of "t + r"] by auto
  qed simp
  from min_burst [OF this burst_representable [OF assms(1)]] show ?thesis
    using assms(1) by (simp add: bucket_ok_def refill_def Let_def t q)
qed

text \<open>At the instant of the last refill nothing is added.\<close>

lemma refill_same:
  assumes "config_ok c" "bucket_ok (sec_burst c) b" "bk_last_refill_ms b = now"
  shows "refill c now b = b"
proof -
  obtain q where q: "sec_rate c = Fin q" "0 < q" using assms(1) by (auto simp: config_ok_def)
  obtain t where t: "bk_tokens b = Fin t" "representable t" "t \<le> of_nat (sec_burst c)"
    using assms(2) by (auto simp: bucket_ok_def)
  have "f64_of_nat 0 = Fin 0" by (simp add: f64_of_nat_def f64_round_exact)
  then show ?thesis
    using assms(1,3) t q
    by (simp add: refill_def Let_def f64_round_exact f64_min_def)
qed

lemma spend_ok:
  assumes "config_ok c" "bucket_ok (sec_burst c) b" "\<not> f64_lt (bk_tokens b) (Fin 1)"
  shows "\<exists>t. bk_tokens b = Fin t \<and> f64_sub_fin (bk_tokens b) 1 = Fin (t - 1) \<and> representable (t - 1) \<and> 0 \<le> t - 1"
proof -
  obtain t where t: "bk_tokens b = Fin t" "representable t" "t \<le> of_nat (sec_burst c)"
    using assms(2) by (auto simp: bucket_ok_def)
  then have "1 \<le> t" using assms(3) by simp
  moreover have "t < pow2 52"
  proof -
    have "t \<le> of_nat u32_max" using t(3) assms(1) unfolding config_ok_def by (meson of_nat_le_iff order_trans)
    also have "\<dots> < 2 ^ 52" by (simp add: u32_max_def)
    finally show ?thesis using pow2_of_nat [of 52] by simp
  qed
  ultimately show ?thesis using t representable_minus_1 [of t] by (simp add: f64_round_exact)
qed

lemma bucket_insert_ok:
  assumes "buckets_ok c m" "bucket_ok (sec_burst c) b" "bm_get m k \<noteq> None \<or> length m < sec_max_sources c"
  shows "buckets_ok c (bm_insert k b m)"
  using assms set_bm_insert [of k b m] bm_insert_length_le [of k b m] bm_insert_old_length [of m k _ b]
  by (fastforce simp: buckets_ok_def)

lemma buckets_ok_get: "buckets_ok c m \<Longrightarrow> bm_get m k = Some b \<Longrightarrow> bucket_ok (sec_burst c) b"
  by (auto simp: buckets_ok_def bm_get_eq_Some intro: rev_image_eqI)

section \<open>Token consumption\<close>

text \<open>What \<open>consume_token\<close> leaves alone.\<close>

definition buckets_only :: "'v security_runtime \<Rightarrow> 'v security_runtime \<Rightarrow> bool" where
  "buckets_only rt rt' \<longleftrightarrow>
     rt' = rt\<lparr>sr_buckets := sr_buckets rt', sr_sources_high_water := sr_sources_high_water rt',
             sr_sources_expired := sr_sources_expired rt', sr_sources_rejected := sr_sources_rejected rt'\<rparr>"

lemma buckets_only_simps:
  "buckets_only rt rt' \<Longrightarrow> sr_config rt' = sr_config rt"
  "buckets_only rt rt' \<Longrightarrow> sr_scheduler rt' = sr_scheduler rt"
  "buckets_only rt rt' \<Longrightarrow> sr_queue rt' = sr_queue rt"
  "buckets_only rt rt' \<Longrightarrow> sr_muted rt' = sr_muted rt"
  "buckets_only rt rt' \<Longrightarrow> sr_audit rt' = sr_audit rt"
  "buckets_only rt rt' \<Longrightarrow> sr_redactor rt' = sr_redactor rt"
  "buckets_only rt rt' \<Longrightarrow> sr_cached_reaction rt' = sr_cached_reaction rt"
  "buckets_only rt rt' \<Longrightarrow> sr_audit_high_water rt' = sr_audit_high_water rt"
  "buckets_only rt rt' \<Longrightarrow> sr_queue_high_water rt' = sr_queue_high_water rt"
  "buckets_only rt rt' \<Longrightarrow> sr_correlations rt' = sr_correlations rt"
  "buckets_only rt rt' \<Longrightarrow> sr_correlation_order rt' = sr_correlation_order rt"
  unfolding buckets_only_def by (erule ssubst, simp)+

text \<open>The state of the rate limiter after the source has been given a bucket, if it can have one.\<close>

definition limiter_ok :: "'v security_runtime \<Rightarrow> bool" where
  "limiter_ok rt \<longleftrightarrow>
     config_ok (sr_config rt) \<and> buckets_ok (sr_config rt) (sr_buckets rt) \<and>
     length (sr_buckets rt) \<le> sr_sources_high_water rt \<and> sr_sources_high_water rt \<le> sec_max_sources (sr_config rt)"

lemma limiter_okD: "rt_inv rt \<Longrightarrow> limiter_ok rt"
  by (simp add: rt_inv_def limiter_ok_def high_water_ok_def)

lemma rt_inv_limiter:
  "rt_inv rt \<Longrightarrow> buckets_only rt rt' \<Longrightarrow> limiter_ok rt' \<Longrightarrow> rt_inv rt'"
  by (simp add: rt_inv_def limiter_ok_def high_water_ok_def buckets_only_simps)

definition token_step :: "string \<Rightarrow> u64 \<Rightarrow> rat \<Rightarrow> bool \<Rightarrow> (string, bucket) bmap \<Rightarrow> bool" where
  "token_step source now t0 taken m \<longleftrightarrow>
     (\<exists>t. bm_get m source = Some \<lparr>bk_tokens = Fin t, bk_last_refill_ms = now\<rparr> \<and> 0 \<le> t \<and>
          (if taken then t = t0 - 1 else t = t0 \<and> t0 < 1))"

lemma spend_token_spec:
  assumes "limiter_ok rt" "bm_get (sr_buckets rt) source = Some b"
  obtains taken rt' where "spend_token source now rt = Some (taken, rt')" "limiter_ok rt'" "buckets_only rt rt'"
    "\<And>t. bk_tokens (refill (sr_config rt) now b) = Fin t \<Longrightarrow>
         token_step source now t taken (sr_buckets rt') \<and> (taken \<longleftrightarrow> 1 \<le> t)"
    "\<And>s. s \<noteq> source \<Longrightarrow> bm_get (sr_buckets rt') s = bm_get (sr_buckets rt) s"
proof -
  let ?c = "sr_config rt" and ?b = "refill (sr_config rt) now b"
  have c: "config_ok ?c" and m: "buckets_ok ?c (sr_buckets rt)" using assms(1) by (auto simp: limiter_ok_def)
  have b: "bucket_ok (sec_burst ?c) ?b" using c buckets_ok_get [OF m assms(2)] by (rule refill_ok)
  then obtain t where t: "bk_tokens ?b = Fin t" "0 \<le> t" "t \<le> of_nat (sec_burst ?c)" by (auto simp: bucket_ok_def)
  have last: "bk_last_refill_ms ?b = now" by (simp add: refill_def Let_def)
  have len: "length (bm_insert source x (sr_buckets rt)) = length (sr_buckets rt)" for x
    using m assms(2) by (auto simp: buckets_ok_def intro: bm_insert_old_length)
  have ins: "buckets_ok ?c (bm_insert source x (sr_buckets rt))" if "bucket_ok (sec_burst ?c) x" for x
    using m that assms(2) by (intro bucket_insert_ok) auto
  show thesis
  proof (cases "f64_lt (bk_tokens ?b) (Fin 1)")
    case True
    then have "spend_token source now rt = Some (False, rt\<lparr>sr_buckets := bm_insert source ?b (sr_buckets rt)\<rparr>)"
      by (simp add: spend_token_def assms(2) Let_def)
    then show thesis
      by (rule that)
        (use assms(1) ins [OF b] len [of ?b] t True last in
          \<open>auto simp: limiter_ok_def buckets_only_def token_step_def intro: bucket.equality\<close>)
  next
    case False
    let ?x = "?b\<lparr>bk_tokens := f64_sub_fin (bk_tokens ?b) 1\<rparr>"
    have sp: "f64_sub_fin (bk_tokens ?b) 1 = Fin (t - 1)" "representable (t - 1)" "0 \<le> t - 1"
      using spend_ok [OF c b False] t(1) by auto
    then have x: "bucket_ok (sec_burst ?c) ?x" using t(3) by (simp add: bucket_ok_def)
    have "spend_token source now rt = Some (True, rt\<lparr>sr_buckets := bm_insert source ?x (sr_buckets rt)\<rparr>)"
      using False by (simp add: spend_token_def assms(2) Let_def)
    then show thesis
      by (rule that)
        (use assms(1) ins [OF x] len [of ?x] t sp last in
          \<open>auto simp: limiter_ok_def buckets_only_def token_step_def intro: bucket.equality\<close>)
  qed
qed

text \<open>Expiry keeps the buckets that were used less than the time to live ago.\<close>

lemma expire_sources_simps [simp]:
  "sr_config (expire_sources now rt) = sr_config rt"
  "sr_sources_high_water (expire_sources now rt) = sr_sources_high_water rt"
  by (simp_all add: expire_sources_def Let_def)

lemma expire_sources_get:
  "bm_ok (sr_buckets rt) \<Longrightarrow>
     bm_get (sr_buckets (expire_sources now rt)) s =
       (case bm_get (sr_buckets rt) s of None \<Rightarrow> None
        | Some b \<Rightarrow> if now - bk_last_refill_ms b < sec_source_ttl_ms (sr_config rt) then Some b else None)"
  by (simp add: expire_sources_def Let_def bm_get_retain)

lemma expire_sources_ok: "limiter_ok rt \<Longrightarrow> limiter_ok (expire_sources now rt)"
  by (auto simp: limiter_ok_def expire_sources_def Let_def buckets_ok_def bm_retain_def
      intro: bm_ok_filter le_trans [OF length_filter_le])

lemma buckets_only_expire: "buckets_only rt (expire_sources now rt)"
  by (simp add: buckets_only_def expire_sources_def Let_def)

lemma buckets_only_trans: "buckets_only a b \<Longrightarrow> buckets_only b c \<Longrightarrow> buckets_only a c"
  by (cases a; cases b; cases c) (simp add: buckets_only_def)

lemma consume_token_spec:
  assumes "limiter_ok rt"
  obtains taken rt' where "consume_token source now rt = Some (taken, rt')" "limiter_ok rt'" "buckets_only rt rt'"
    "taken \<Longrightarrow> \<exists>t0\<le>of_nat (sec_burst (sr_config rt)). token_step source now t0 True (sr_buckets rt')"
    "\<And>t. bm_get (sr_buckets rt) source = Some \<lparr>bk_tokens = Fin t, bk_last_refill_ms = now\<rparr> \<Longrightarrow>
         token_step source now t taken (sr_buckets rt')"
    "\<And>s b. s \<noteq> source \<Longrightarrow> bm_get (sr_buckets rt) s = Some b \<Longrightarrow> bk_last_refill_ms b = now \<Longrightarrow>
         bm_get (sr_buckets rt') s = Some b"
proof (cases "bm_get (sr_buckets rt) source")
  case (Some b)
  obtain taken rt' where s: "spend_token source now rt = Some (taken, rt')" "limiter_ok rt'" "buckets_only rt rt'"
    "\<And>t. bk_tokens (refill (sr_config rt) now b) = Fin t \<Longrightarrow>
         token_step source now t taken (sr_buckets rt') \<and> (taken \<longleftrightarrow> 1 \<le> t)"
    "\<And>s. s \<noteq> source \<Longrightarrow> bm_get (sr_buckets rt') s = bm_get (sr_buckets rt) s"
    using spend_token_spec [OF assms Some, of now] by blast
  have c: "config_ok (sr_config rt)" "bucket_ok (sec_burst (sr_config rt)) b"
    using assms buckets_ok_get [OF _ Some] by (auto simp: limiter_ok_def)
  obtain t where t: "bk_tokens (refill (sr_config rt) now b) = Fin t" "t \<le> of_nat (sec_burst (sr_config rt))"
    using refill_ok [OF c, of now] by (auto simp: bucket_ok_def)
  have some: "\<exists>t0\<le>of_nat (sec_burst (sr_config rt)). token_step source now t0 True (sr_buckets rt')" if taken
    using s(4) [OF t(1)] t(2) that by auto
  have same: "token_step source now t taken (sr_buckets rt')"
    if "bm_get (sr_buckets rt) source = Some \<lparr>bk_tokens = Fin t, bk_last_refill_ms = now\<rparr>" for t
  proof -
    have "bk_tokens (refill (sr_config rt) now b) = Fin t" using refill_same [OF c, of now] that Some by simp
    from s(4) [OF this] show ?thesis by (rule conjunct1)
  qed
  show thesis
    by (rule that [of taken rt']) (use s some same Some in \<open>auto simp: consume_token_def\<close>)
next
  case None
  let ?e = "expire_sources now rt"
  have e: "limiter_ok ?e" "bm_ok (sr_buckets rt)"
    using assms expire_sources_ok by (auto simp: limiter_ok_def buckets_ok_def)
  have fresh: "bm_get (sr_buckets ?e) source = None" using e(2) None by (simp add: expire_sources_get)
  have keep: "bm_get (sr_buckets ?e) s = Some b" if "bm_get (sr_buckets rt) s = Some b" "bk_last_refill_ms b = now" for s b
    using that e(2) assms by (simp add: expire_sources_get limiter_ok_def config_ok_def)
  show thesis
  proof (cases "sec_max_sources (sr_config rt) \<le> length (sr_buckets ?e)")
    case True
    let ?r = "?e\<lparr>sr_sources_rejected := sadd (sr_sources_rejected ?e) 1\<rparr>"
    have "consume_token source now rt = Some (False, ?r)" using None True by (simp add: consume_token_def Let_def)
    moreover have "limiter_ok ?r" using e(1) by (simp add: limiter_ok_def)
    moreover have "buckets_only rt ?r"
      by (rule buckets_only_trans [OF buckets_only_expire [of rt now]]) (simp add: buckets_only_def)
    ultimately show thesis by (rule that) (use None keep in simp_all)
  next
    case False
    let ?b = "\<lparr>bk_tokens = f64_of_nat (sec_burst (sr_config rt)), bk_last_refill_ms = now\<rparr>"
    let ?m = "bm_insert source ?b (sr_buckets ?e)"
    let ?r = "?e\<lparr>sr_buckets := ?m, sr_sources_high_water := max (sr_sources_high_water ?e) (length ?m)\<rparr>"
    have c: "config_ok (sr_config rt)" using assms by (simp add: limiter_ok_def)
    have b: "bucket_ok (sec_burst (sr_config rt)) ?b" using c burst_representable [OF c] by (simp add: bucket_ok_def)
    have len: "length ?m = Suc (length (sr_buckets ?e))" using fresh by (rule bm_insert_fresh_length)
    have r: "limiter_ok ?r"
      using e(1) b False len by (auto simp: limiter_ok_def intro: bucket_insert_ok)
    have get: "bm_get (sr_buckets ?r) source = Some ?b" by simp
    obtain taken rt' where s: "spend_token source now ?r = Some (taken, rt')" "limiter_ok rt'" "buckets_only ?r rt'"
      "\<And>t. bk_tokens (refill (sr_config ?r) now ?b) = Fin t \<Longrightarrow>
           token_step source now t taken (sr_buckets rt') \<and> (taken \<longleftrightarrow> 1 \<le> t)"
      "\<And>s. s \<noteq> source \<Longrightarrow> bm_get (sr_buckets rt') s = bm_get (sr_buckets ?r) s"
      using spend_token_spec [OF r get, of now] by blast
    have "buckets_only ?e ?r" by (simp add: buckets_only_def)
    with s(3) have only: "buckets_only rt rt'" by (blast intro: buckets_only_trans buckets_only_expire)
    have "refill (sr_config ?r) now ?b = ?b" using c b by (simp add: refill_same)
    with s(4) c have some: "\<exists>t0\<le>of_nat (sec_burst (sr_config rt)). token_step source now t0 True (sr_buckets rt')" if taken
      using that by auto
    have "consume_token source now rt = Some (taken, rt')"
      using None False s(1) by (simp add: consume_token_def Let_def)
    then show thesis using s(2) only by (rule that) (use some None keep s(5) in simp_all)
  qed
qed

section \<open>The correlation registry\<close>

lemma card_keys: "bm_ok m \<Longrightarrow> card (fst ` set m) = length m"
  using bm_ok_distinct [of m] distinct_card [of "map fst m"] by simp

lemma registry_length: "registry_ok order m \<Longrightarrow> length m = length order"
  using card_keys [of m] distinct_card [of order] by (simp add: registry_ok_def)

text \<open>One insertion adds at most one entry, so the eviction loop runs at most once and never panics.\<close>

lemma evict_correlations_spec:
  assumes "bm_ok m" "distinct order" "set order = fst ` set m" "length order \<le> Suc MAX_CORRELATION_REFS"
  shows "\<exists>m'. evict_correlations order m = Some (keep_last MAX_CORRELATION_REFS order, m') \<and>
           registry_ok (keep_last MAX_CORRELATION_REFS order) m' \<and>
           (\<forall>i\<in>set (keep_last MAX_CORRELATION_REFS order). bm_get m' i = bm_get m i)"
proof -
  have len: "length m = length order" using card_keys [OF assms(1)] distinct_card [OF assms(2)] assms(3) by simp
  show ?thesis
  proof (cases order)
    case Nil
    with len assms show ?thesis by (simp add: keep_last_def registry_ok_def)
  next
    case (Cons x xs)
    show ?thesis
    proof (cases "MAX_CORRELATION_REFS < length m")
      case False
      with Cons len assms show ?thesis by (simp add: keep_last_def registry_ok_def)
    next
      case True
      with len assms(4) have n: "length order = Suc MAX_CORRELATION_REFS" by simp
      let ?m = "bm_remove x m"
      have keys: "fst ` set ?m = set xs"
        using assms(2,3) Cons by (force simp: bm_remove_def)
      have "length ?m = length xs"
        using card_keys [OF bm_ok_remove [OF assms(1)], of x] distinct_card [of xs] assms(2) Cons keys by simp
      with n Cons have small: "\<not> MAX_CORRELATION_REFS < length ?m" by simp
      then have "evict_correlations xs ?m = Some (xs, ?m)" by (cases xs) auto
      with True Cons have "evict_correlations order m = Some (xs, ?m)" by simp
      moreover have "keep_last MAX_CORRELATION_REFS order = xs" using n Cons by (simp add: keep_last_def)
      moreover have "registry_ok xs ?m"
        using assms(1,2) keys n Cons by (auto simp: registry_ok_def)
      ultimately show ?thesis using assms(2) Cons by auto
    qed
  qed
qed

lemma record_correlation_spec:
  assumes "registry_ok (sr_correlation_order rt) (sr_correlations rt)"
    and "order = keep_last MAX_CORRELATION_REFS
           (filter (\<lambda>i. i \<noteq> ev_correlation_id e) (sr_correlation_order rt) @ [ev_correlation_id e])"
  shows "\<exists>m'. record_correlation e rt = Some (rt\<lparr>sr_correlations := m', sr_correlation_order := order\<rparr>) \<and>
           registry_ok order m' \<and>
           (\<forall>i\<in>set order. bm_get m' i =
              (if i = ev_correlation_id e then Some \<lparr>cr_event_id = ev_event_id e, cr_sequence = ev_sequence e\<rparr>
               else bm_get (sr_correlations rt) i))"
proof -
  let ?cid = "ev_correlation_id e"
  let ?m = "bm_insert ?cid \<lparr>cr_event_id = ev_event_id e, cr_sequence = ev_sequence e\<rparr> (sr_correlations rt)"
  let ?o = "filter (\<lambda>i. i \<noteq> ?cid) (sr_correlation_order rt)"
  have reg: "bm_ok (sr_correlations rt)" "distinct (sr_correlation_order rt)"
    "set (sr_correlation_order rt) = fst ` set (sr_correlations rt)"
    "length (sr_correlation_order rt) \<le> MAX_CORRELATION_REFS"
    using assms(1) by (auto simp: registry_ok_def)
  have o: "(if bm_get (sr_correlations rt) ?cid \<noteq> None then ?o else sr_correlation_order rt) = ?o"
    using reg(3) by (auto simp: bm_get_eq_None intro!: filter_True [symmetric])
  have "length ?o \<le> MAX_CORRELATION_REFS" using reg(4) le_trans [OF length_filter_le] by blast
  moreover have "set (?o @ [?cid]) = fst ` set ?m" using reg(3) by auto
  moreover have "distinct (?o @ [?cid])" using reg(2) by simp
  moreover have "bm_ok ?m" using reg(1) by blast
  ultimately obtain m' where m': "evict_correlations (?o @ [?cid]) ?m = Some (order, m')" "registry_ok order m'"
    "\<forall>i\<in>set order. bm_get m' i = bm_get ?m i"
    using evict_correlations_spec [of ?m "?o @ [?cid]"] assms(2) by auto
  then show ?thesis unfolding record_correlation_def Let_def o by auto
qed

section \<open>Admission\<close>

text \<open>The registry order after an admission; \<open>None\<close> is an admission that did not queue.\<close>

definition order_after :: "string option \<Rightarrow> string list \<Rightarrow> string list" where
  "order_after c order =
     (case c of None \<Rightarrow> order
      | Some cid \<Rightarrow> keep_last MAX_CORRELATION_REFS (filter (\<lambda>i. i \<noteq> cid) order @ [cid]))"

definition registry_after ::
  "'v event_envelope \<Rightarrow> 'v security_runtime \<Rightarrow> 'v security_runtime \<Rightarrow> bool" where
  "registry_after e rt rt' \<longleftrightarrow>
     sr_correlation_order rt' = order_after (Some (ev_correlation_id e)) (sr_correlation_order rt) \<and>
     (\<forall>i\<in>set (sr_correlation_order rt'). bm_get (sr_correlations rt') i =
        (if i = ev_correlation_id e then Some \<lparr>cr_event_id = ev_event_id e, cr_sequence = ev_sequence e\<rparr>
         else bm_get (sr_correlations rt) i))"

definition one_audit :: "'v security_runtime \<Rightarrow> 'v security_runtime \<Rightarrow> bool" where
  "one_audit rt rt' \<longleftrightarrow> (\<exists>a. sr_audit rt' = keep_last (sec_max_audit (sr_config rt)) (sr_audit rt @ [a]))"

definition same_control :: "'v security_runtime \<Rightarrow> 'v security_runtime \<Rightarrow> bool" where
  "same_control rt rt' \<longleftrightarrow>
     sr_scheduler rt' = sr_scheduler rt \<and> sr_muted rt' = sr_muted rt \<and> sr_config rt' = sr_config rt \<and>
     sr_redactor rt' = sr_redactor rt \<and> sr_cached_reaction rt' = sr_cached_reaction rt"

definition same_content :: "'v security_runtime \<Rightarrow> 'v security_runtime \<Rightarrow> bool" where
  "same_content rt rt' \<longleftrightarrow>
     sr_queue rt' = sr_queue rt \<and> sr_correlation_order rt' = sr_correlation_order rt \<and>
     sr_correlations rt' = sr_correlations rt"

lemma record_ingress_simps [simp]:
  "sr_config (record_ingress e d x rt) = sr_config rt"
  "sr_scheduler (record_ingress e d x rt) = sr_scheduler rt"
  "sr_buckets (record_ingress e d x rt) = sr_buckets rt"
  "sr_queue (record_ingress e d x rt) = sr_queue rt"
  "sr_muted (record_ingress e d x rt) = sr_muted rt"
  "sr_redactor (record_ingress e d x rt) = sr_redactor rt"
  "sr_cached_reaction (record_ingress e d x rt) = sr_cached_reaction rt"
  "sr_queue_high_water (record_ingress e d x rt) = sr_queue_high_water rt"
  "sr_correlations (record_ingress e d x rt) = sr_correlations rt"
  "sr_correlation_order (record_ingress e d x rt) = sr_correlation_order rt"
  by (simp_all add: record_ingress_def)

lemma one_audit_push [simp]: "one_audit rt (push_audit r rt)"
  by (auto simp: one_audit_def audit_log.entries_push)

lemma one_audit_ingress [simp]: "one_audit rt (record_ingress e d x rt)"
  by (simp add: record_ingress_def)

lemma same_push [simp]: "same_control rt (push_audit r rt)" "same_content rt (push_audit r rt)"
  by (simp_all add: same_control_def same_content_def)

lemma same_ingress [simp]: "same_control rt (record_ingress e d x rt)" "same_content rt (record_ingress e d x rt)"
  by (simp_all add: record_ingress_def)

text \<open>The two outcomes of the queue stage.\<close>

definition queue_stage :: "'v event_envelope \<Rightarrow> 'v security_runtime \<Rightarrow> admit_decision \<Rightarrow> 'v security_runtime \<Rightarrow> bool" where
  "queue_stage e rt d rt' \<longleftrightarrow>
     one_audit rt rt' \<and> same_control rt rt' \<and> sr_buckets rt' = sr_buckets rt \<and>
     (if sec_queue_limit (sr_config rt) \<le> length (sr_queue rt)
      then d = AD_DroppedBackpressure \<and> same_content rt rt'
      else d = AD_Queued \<and> sr_queue rt' = sr_queue rt @ [e] \<and> registry_after e rt rt')"

lemma enqueue_content_spec:
  assumes "rt_inv rt" "content_event e"
  shows "\<exists>d rt'. enqueue_content e payload rt = Some (d, rt') \<and> rt_inv rt' \<and> queue_stage e rt d rt'"
proof (cases "sec_queue_limit (sr_config rt) \<le> length (sr_queue rt)")
  case True
  with assms show ?thesis by (simp add: enqueue_content_def rt_inv_records queue_stage_def)
next
  case False
  let ?r = "record_ingress e ''queued'' (''payload_bytes='' @ show_nat payload) rt"
  have r: "rt_inv ?r" using assms(1) by (rule rt_inv_records)
  then have "registry_ok (sr_correlation_order ?r) (sr_correlations ?r)" by (simp add: rt_inv_def)
  from record_correlation_spec [OF this refl, of e] obtain m' where
    c: "record_correlation e ?r = Some (?r\<lparr>sr_correlations := m',
          sr_correlation_order := order_after (Some (ev_correlation_id e)) (sr_correlation_order rt)\<rparr>)"
    "registry_ok (order_after (Some (ev_correlation_id e)) (sr_correlation_order rt)) m'"
    "\<forall>i\<in>set (order_after (Some (ev_correlation_id e)) (sr_correlation_order rt)). bm_get m' i =
        (if i = ev_correlation_id e then Some \<lparr>cr_event_id = ev_event_id e, cr_sequence = ev_sequence e\<rparr>
         else bm_get (sr_correlations rt) i)"
    by (auto simp: order_after_def)
  let ?rt' = "?r\<lparr>sr_correlations := m',
      sr_correlation_order := order_after (Some (ev_correlation_id e)) (sr_correlation_order rt),
      sr_queue := sr_queue rt @ [e], sr_queue_high_water := max (sr_queue_high_water rt) (length (sr_queue rt @ [e]))\<rparr>"
  have "enqueue_content e payload rt = Some (AD_Queued, ?rt')"
    using False c(1) by (simp add: enqueue_content_def)
  moreover have "rt_inv ?rt'"
    using r assms(2) False c(2) by (auto simp: rt_inv_def queue_ok_def high_water_ok_def)
  moreover have "queue_stage e rt AD_Queued ?rt'"
    using False c(3) one_audit_ingress [of rt e] same_ingress(1) [of rt e]
    by (simp add: queue_stage_def registry_after_def one_audit_def same_control_def)
  ultimately show ?thesis by blast
qed

text \<open>Whether an admission spent a token of a source.\<close>

definition spends :: "'v json_lib \<Rightarrow> string \<Rightarrow> string \<Rightarrow> runtime_error + admit_decision \<Rightarrow> bool" where
  "spends js source raw r \<longleftrightarrow>
     (case jl_from_slice js raw of Inl _ \<Rightarrow> False | Inr e \<Rightarrow> ev_source e = source) \<and>
     (r = Inr AD_Queued \<or> r = Inr AD_DroppedBackpressure)"

definition limiter_step :: "string \<Rightarrow> u64 \<Rightarrow> bool \<Rightarrow> 'v security_runtime \<Rightarrow> 'v security_runtime \<Rightarrow> bool" where
  "limiter_step source now spent rt rt' \<longleftrightarrow>
     (spent \<longrightarrow> (\<exists>t0\<le>of_nat (sec_burst (sr_config rt)). token_step source now t0 True (sr_buckets rt'))) \<and>
     (\<forall>t. bm_get (sr_buckets rt) source = Some \<lparr>bk_tokens = Fin t, bk_last_refill_ms = now\<rparr> \<longrightarrow>
        (if spent then token_step source now t True (sr_buckets rt')
         else bm_get (sr_buckets rt') source = bm_get (sr_buckets rt) source))"

definition passed_gates :: "'v json_lib \<Rightarrow> string \<Rightarrow> security_config \<Rightarrow> 'v event_envelope \<Rightarrow> bool" where
  "passed_gates js raw c e \<longleftrightarrow>
     length raw \<le> sec_max_envelope_bytes c \<and> jl_from_slice js raw = Inr e \<and> content_event e \<and>
     (\<exists>n. jl_payload_bytes js (ev_payload e) = Inr n \<and> n \<le> sec_max_payload_bytes c)"

definition admit_post ::
  "'v json_lib \<Rightarrow> string \<Rightarrow> u64 \<Rightarrow> 'v security_runtime \<Rightarrow> runtime_error + admit_decision \<Rightarrow> 'v security_runtime \<Rightarrow> bool" where
  "admit_post js raw now rt r rt' \<longleftrightarrow>
     same_control rt rt' \<and>
     (case r of Inl _ \<Rightarrow> rt' = rt | Inr d \<Rightarrow> one_audit rt rt') \<and>
     (if r = Inr AD_Queued
      then \<exists>e. passed_gates js raw (sr_config rt) e \<and> sr_queue rt' = sr_queue rt @ [e] \<and> registry_after e rt rt'
      else same_content rt rt') \<and>
     (\<forall>source. limiter_step source now (spends js source raw r) rt rt')"

lemma limiter_step_refl: "sr_buckets rt' = sr_buckets rt \<Longrightarrow> limiter_step source now False rt rt'"
  by (simp add: limiter_step_def)

lemma admit_early:
  assumes "rt_inv rt" "sr_buckets rt' = sr_buckets rt" "same_control rt rt'" "same_content rt rt'"
    "case r of Inl _ \<Rightarrow> rt' = rt | Inr d \<Rightarrow> one_audit rt rt'" "r \<noteq> Inr AD_Queued" "r \<noteq> Inr AD_DroppedBackpressure"
  shows "admit_post js raw now rt r rt'"
  using assms by (auto simp: admit_post_def spends_def limiter_step_refl split: sum.splits)

text \<open>The stages after the gates: the token, then the queue.\<close>

definition token_stage ::
  "'v event_envelope \<Rightarrow> nat \<Rightarrow> u64 \<Rightarrow> 'v security_runtime \<Rightarrow> ((runtime_error + admit_decision) \<times> 'v security_runtime) option" where
  "token_stage e payload now rt =
     (case consume_token (ev_source e) now rt of
        None \<Rightarrow> None
      | Some (False, rt1) \<Rightarrow>
          Some (Inr AD_DroppedRate, record_ingress e ''dropped_rate'' ''per-source token bucket exhausted'' rt1)
      | Some (True, rt1) \<Rightarrow> map_option (\<lambda>(d, rt2). (Inr d, rt2)) (enqueue_content e payload rt1))"

lemma same_control_limiter: "buckets_only rt rt1 \<Longrightarrow> same_control rt1 rt' \<Longrightarrow> same_control rt rt'"
  by (simp add: same_control_def buckets_only_simps)

lemma same_content_limiter: "buckets_only rt rt1 \<Longrightarrow> same_content rt1 rt' \<Longrightarrow> same_content rt rt'"
  by (simp add: same_content_def buckets_only_simps)

lemma one_audit_limiter: "buckets_only rt rt1 \<Longrightarrow> one_audit rt1 rt' \<Longrightarrow> one_audit rt rt'"
  by (simp add: one_audit_def buckets_only_simps)

lemma registry_after_limiter: "buckets_only rt rt1 \<Longrightarrow> registry_after e rt1 rt' \<Longrightarrow> registry_after e rt rt'"
  by (simp add: registry_after_def buckets_only_simps)

lemma token_stage_spec:
  assumes "rt_inv rt" "passed_gates js raw (sr_config rt) e"
  shows "\<exists>r rt'. token_stage e payload now rt = Some (r, rt') \<and> rt_inv rt' \<and> admit_post js raw now rt r rt'"
proof -
  have content: "content_event e" and parse: "jl_from_slice js raw = Inr e"
    using assms(2) by (auto simp: passed_gates_def)
  obtain taken rt1 where c: "consume_token (ev_source e) now rt = Some (taken, rt1)" "limiter_ok rt1" "buckets_only rt rt1"
    "taken \<Longrightarrow> \<exists>t0\<le>of_nat (sec_burst (sr_config rt)). token_step (ev_source e) now t0 True (sr_buckets rt1)"
    "\<And>t. bm_get (sr_buckets rt) (ev_source e) = Some \<lparr>bk_tokens = Fin t, bk_last_refill_ms = now\<rparr> \<Longrightarrow>
         token_step (ev_source e) now t taken (sr_buckets rt1)"
    "\<And>s b. s \<noteq> ev_source e \<Longrightarrow> bm_get (sr_buckets rt) s = Some b \<Longrightarrow> bk_last_refill_ms b = now \<Longrightarrow>
         bm_get (sr_buckets rt1) s = Some b"
    using consume_token_spec [OF limiter_okD [OF assms(1)], of "ev_source e" now] by blast
  have inv1: "rt_inv rt1" using assms(1) c(3,2) by (rule rt_inv_limiter)
  have lim: "limiter_step source now (taken \<and> source = ev_source e) rt rt1" for source
    using c(4-6) by (cases "source = ev_source e") (fastforce simp: limiter_step_def token_step_def)+
  show ?thesis
  proof (cases taken)
    case False
    let ?rt' = "record_ingress e ''dropped_rate'' ''per-source token bucket exhausted'' rt1"
    have "token_stage e payload now rt = Some (Inr AD_DroppedRate, ?rt')" using c(1) False by (simp add: token_stage_def)
    moreover have "rt_inv ?rt'" using inv1 by (rule rt_inv_records)
    moreover have "admit_post js raw now rt (Inr AD_DroppedRate) ?rt'"
      using lim False c(3) same_control_limiter [OF c(3) same_ingress(1)] same_content_limiter [OF c(3) same_ingress(2)]
        one_audit_limiter [OF c(3) one_audit_ingress]
      by (simp add: admit_post_def spends_def limiter_step_def)
    ultimately show ?thesis by blast
  next
    case True
    from enqueue_content_spec [OF inv1 content, of payload] obtain d rt' where
      q: "enqueue_content e payload rt1 = Some (d, rt')" "rt_inv rt'" "queue_stage e rt1 d rt'" by blast
    have "token_stage e payload now rt = Some (Inr d, rt')" using c(1) True q(1) by (simp add: token_stage_def)
    moreover have "spends js source raw (Inr d) \<longleftrightarrow> source = ev_source e" for source
      using q(3) parse by (auto simp: spends_def queue_stage_def split: if_splits)
    moreover have "limiter_step source now (source = ev_source e) rt rt'" for source
      using lim [of source] True q(3) by (cases "source = ev_source e") (simp_all add: limiter_step_def queue_stage_def)
    ultimately show ?thesis
      using q(2,3) c(3) assms(2) same_control_limiter [OF c(3), of rt'] same_content_limiter [OF c(3), of rt']
        one_audit_limiter [OF c(3), of rt'] registry_after_limiter [OF c(3), of e rt']
      by (auto simp: admit_post_def queue_stage_def buckets_only_simps split: if_splits)
  qed
qed

lemma admit_content_spec:
  assumes "rt_inv rt"
  shows "\<exists>r rt'. admit_content_bytes js raw now rt = Some (r, rt') \<and> rt_inv rt' \<and> admit_post js raw now rt r rt'"
proof (cases "\<exists>e. passed_gates js raw (sr_config rt) e")
  case True
  then obtain e n where e: "passed_gates js raw (sr_config rt) e" "jl_payload_bytes js (ev_payload e) = Inr n"
    by (auto simp: passed_gates_def)
  then have "admit_content_bytes js raw now rt = token_stage e n now rt"
    by (auto simp: admit_content_bytes_def passed_gates_def content_event_def token_stage_def)
  with token_stage_spec [OF assms e(1), of n now] show ?thesis by simp
next
  case False
  then have "\<exists>r rt'. admit_content_bytes js raw now rt = Some (r, rt') \<and> r \<noteq> Inr AD_Queued \<and>
      r \<noteq> Inr AD_DroppedBackpressure \<and>
      ((\<exists>x. r = Inl x) \<and> rt' = rt \<or> (\<exists>d a. r = Inr d \<and> rt' = push_audit a rt))"
    by (auto simp: admit_content_bytes_def passed_gates_def content_event_def record_ingress_def split: sum.splits)
  then obtain r rt' where r: "admit_content_bytes js raw now rt = Some (r, rt')" "r \<noteq> Inr AD_Queued"
    "r \<noteq> Inr AD_DroppedBackpressure" "(\<exists>x. r = Inl x) \<and> rt' = rt \<or> (\<exists>d a. r = Inr d \<and> rt' = push_audit a rt)"
    by blast
  then have "rt_inv rt'" using assms by (auto intro: rt_inv_push_audit)
  moreover have "admit_post js raw now rt r rt'"
    using r(4) by (intro admit_early [OF assms _ _ _ _ r(2,3)]) (auto simp: same_control_def same_content_def)
  ultimately show ?thesis using r(1) by blast
qed

section \<open>Control and the other operations\<close>

lemma control_body_scheduler:
  assumes "control_body js cmd t muted sch = Inr (action, out, muted', sch')" "sched_inv sch" "t \<le> u64_max"
  shows "sched_inv sch'"
proof (cases "sch' = sch")
  case False
  with assms(1) have "sch' = snd (stop_all t sch)"
    by (auto simp: control_body_def rust_simps split: if_splits prod.splits)
  moreover obtain stopped s' where "stop_all t sch = (stopped, s')" "sched_inv s'"
    using assms(2,3) by (rule stop_all_props)
  ultimately show ?thesis by simp
qed (use assms(2) in simp)

lemma rt_inv_scheduler: "rt_inv rt \<Longrightarrow> sched_inv sch \<Longrightarrow> rt_inv (rt\<lparr>sr_scheduler := sch\<rparr>)"
  by (simp add: rt_inv_def high_water_ok_def)

lemma rt_inv_muted: "rt_inv rt \<Longrightarrow> rt_inv (rt\<lparr>sr_muted := m\<rparr>)"
  by (simp add: rt_inv_def high_water_ok_def)

lemma rt_inv_control:
  assumes "rt_inv rt" "t \<le> u64_max"
  shows "rt_inv (snd (handle_control js cmd t rt))"
proof (cases "control_body js cmd t (sr_muted rt) (sr_scheduler rt)")
  case (Inr x)
  obtain action out m sch where x: "x = (action, out, m, sch)" by (cases x)
  have "sched_inv sch"
    using control_body_scheduler [OF Inr [unfolded x] _ assms(2)] assms(1) by (simp add: rt_inv_def)
  then have "rt_inv (rt\<lparr>sr_scheduler := sch, sr_muted := m\<rparr>)"
    using rt_inv_muted [OF rt_inv_scheduler [OF assms(1)]] by simp
  then show ?thesis by (simp add: handle_control_def Inr x rt_inv_records)
qed (use assms in \<open>simp add: handle_control_def\<close>)

lemma rt_inv_control_with:
  "rt_inv rt \<Longrightarrow> rt_inv (fst (snd (handle_control_with_scheduler js cmd t sch rt)))"
  by (auto simp: handle_control_with_scheduler_def rt_inv_records rt_inv_muted split: sum.splits prod.splits)

lemma rt_inv_pop: "rt_inv rt \<Longrightarrow> rt_inv (snd (pop_content rt))"
  by (cases "sr_queue rt") (auto simp: pop_content_def rt_inv_def queue_ok_def high_water_ok_def)

lemma rt_exec_total:
  assumes "rt_inv rt" "rt_op_in_range op"
  shows "\<exists>obs rt'. rt_exec js op rt = Some (obs, rt') \<and> rt_inv rt'"
proof (cases op)
  case (RO_Admit raw now)
  from admit_content_spec [OF assms(1), of js raw now] show ?thesis by (auto simp: RO_Admit)
next
  case (RO_Control cmd t)
  with assms rt_inv_control show ?thesis by simp
next
  case (RO_Scheduler sop)
  then have op: "op_in_range sop" using assms(2) by simp
  have sch: "sched_inv (sr_scheduler rt)" using assms(1) by (simp add: rt_inv_def)
  from sched_exec_total [OF sch op] obtain s' where "sched_exec sop (sr_scheduler rt) = Some s'" by blast
  with sched_exec_inv [OF sch op this] RO_Scheduler assms(1) show ?thesis by (simp add: rt_inv_scheduler)
next
  case (RO_Memory e a)
  with assms show ?thesis by (simp add: authorize_memory_write_def Let_def rt_inv_push_audit)
qed (use assms in \<open>simp_all add: rt_inv_pop rt_inv_control_with publish_text_def Let_def rt_inv_records rt_inv_push_audit\<close>)

interpretation rt_sys: step_invariant rt_init "rt_step js" rt_inv for js
proof unfold_locales
  show "rt_inv rt'" if inv: "rt_inv rt" and "rt_step js rt rt'" for rt rt'
  proof -
    from that(2) obtain op obs where op: "rt_op_in_range op" "rt_exec js op rt = Some (obs, rt')"
      by (auto simp: rt_step_iff)
    with rt_exec_total [OF inv op(1), of js] show ?thesis by auto
  qed
qed (rule rt_inv_init)

lemmas reach_rt_inv = rt_sys.reach_inv

lemma rt_reach_exec:
  "rt_reach js rt \<Longrightarrow> rt_op_in_range op \<Longrightarrow> rt_exec js op rt = Some (obs, rt') \<Longrightarrow> rt_reach js rt'"
  by (rule reach.reach_step) (auto simp: rt_step_iff)

end
