(* ===== verification/Runtime_Claims.thy ===== *)
theory Runtime_Claims
  imports Runtime_Inv
begin

text \<open>
  The properties of the security runtime: gated content admission, bounded retention, bounded bursts,
  control that content cannot delay, contained publication, earned memory permits, and the exact
  content of the correlation feed.
\<close>

section \<open>Runs\<close>

fun rt_run :: "'v json_lib \<Rightarrow> 'v rt_op list \<Rightarrow> 'v security_runtime \<Rightarrow> (rt_obs list \<times> 'v security_runtime) option" where
  "rt_run js [] rt = Some ([], rt)"
| "rt_run js (op # ops) rt =
     (case rt_exec js op rt of
        None \<Rightarrow> None
      | Some (ob, rt1) \<Rightarrow> (case rt_run js ops rt1 of None \<Rightarrow> None | Some (obs, rt2) \<Rightarrow> Some (ob # obs, rt2)))"

lemma rt_run_Cons:
  assumes "rt_run js (op # ops) rt = Some (obs, rt')"
  obtains ob rt1 obs1 where "rt_exec js op rt = Some (ob, rt1)" "rt_run js ops rt1 = Some (obs1, rt')" "obs = ob # obs1"
  using assms by (auto split: option.splits)

fun is_admit :: "'v rt_op \<Rightarrow> bool" where
  "is_admit (RO_Admit _ _) = True"
| "is_admit _ = False"

lemma rt_exec_other:
  assumes "\<not> is_admit op" "rt_exec js op rt = Some (ob, rt')"
  shows "ob = None \<and> sr_buckets rt' = sr_buckets rt \<and> sr_config rt' = sr_config rt \<and>
     sr_correlation_order rt' = sr_correlation_order rt \<and> sr_correlations rt' = sr_correlations rt"
proof (cases op)
  case RO_Pop
  with assms show ?thesis by (auto simp: pop_content_def split: list.splits)
next
  case (RO_Control cmd t)
  with assms show ?thesis by (auto simp: handle_control_def audit_control_def split: sum.splits prod.splits)
next
  case (RO_ControlWith cmd t sch)
  with assms show ?thesis by (auto simp: handle_control_with_scheduler_def audit_control_def split: sum.splits prod.splits)
qed (use assms in \<open>auto simp: publish_text_def record_public_output_decision_def record_output_def
       record_generation_call_def authorize_memory_write_def Let_def\<close>)

lemma rt_exec_admit:
  assumes "rt_inv rt" "rt_exec js (RO_Admit raw now) rt = Some (ob, rt')"
  obtains r where "ob = Some r" "admit_post js raw now rt r rt'"
  using assms admit_content_spec [OF assms(1), of js raw now] by auto

lemma rt_exec_config: "rt_inv rt \<Longrightarrow> rt_exec js op rt = Some (ob, rt') \<Longrightarrow> sr_config rt' = sr_config rt"
proof (cases "is_admit op")
  case True
  assume "rt_inv rt" "rt_exec js op rt = Some (ob, rt')"
  with True show ?thesis
    by (cases op) (auto elim!: rt_exec_admit [of rt js _ _ ob rt'] simp: admit_post_def same_control_def simp del: rt_exec.simps)
qed (use rt_exec_other in blast)

section \<open>A demonstration instance\<close>

text \<open>A JSON library whose only document is \<open>{\<close>, the event below; values are strings.\<close>

definition demo_event :: "string event_envelope" where
  "demo_event =
     \<lparr>ev_schema_version = EVENT_SCHEMA_VERSION, ev_event_id = ''evt-1'', ev_correlation_id = ''corr-1'', ev_sequence = 7,
      ev_observed_at = ''2026-09-24T00:00:00Z'', ev_source = ''twitch'', ev_source_class = SC_PublicChat,
      ev_plane = Plane_Content, ev_trust_level = Untrusted, ev_kind = ChatMessage, ev_actor_id = None,
      ev_priority_hint = None, ev_authorization = None, ev_payload = [(''text'', ''hi'')]\<rparr>"

definition demo_json :: "string json_lib" where
  "demo_json =
     \<lparr>jl_from_slice = (\<lambda>raw. if raw = ''{'' then Inr demo_event else Inl ''EOF''),
      jl_payload_bytes = (\<lambda>m. Inr (10 * length m)), jl_as_str = Some\<rparr>"

definition demo_runtime_config :: security_config where
  "demo_runtime_config = default_security_config\<lparr>sec_burst := 2\<rparr>"

definition demo_runtime :: "string security_runtime" where
  "demo_runtime =
     (case security_runtime_new demo_runtime_config default_config (redactor_new [''hunter2'']) (Some ''hello'') of
        Inr rt \<Rightarrow> rt | Inl _ \<Rightarrow> undefined)"

lemma demo_runtime_init: "rt_init demo_runtime"
proof -
  have "validate_security_config demo_runtime_config = Inr ()" "sec_burst demo_runtime_config \<le> u32_max"
    by (simp_all add: demo_runtime_config_def default_security_config_def validate_security_config_def u32_max_def)
  moreover from this obtain rt :: "string security_runtime" where
    "security_runtime_new demo_runtime_config default_config (redactor_new [''hunter2'']) (Some ''hello'') = Inr rt"
    by (simp add: security_runtime_new_def)
  moreover from this have "demo_runtime = rt" by (simp add: demo_runtime_def)
  ultimately show ?thesis unfolding rt_init_def by blast
qed

lemma demo_runtime_reach: "rt_reach js demo_runtime"
  by (rule reach.reach_init) (rule demo_runtime_init)

lemma demo_runtime_fields:
  "demo_runtime =
     \<lparr>sr_config = demo_runtime_config, sr_scheduler = scheduler_new default_config, sr_buckets = [], sr_queue = [],
      sr_muted = False, sr_redactor = redactor_new [''hunter2''], sr_cached_reaction = Some ''hello'', sr_audit = [],
      sr_audit_high_water = 0, sr_audit_evicted = 0, sr_sources_high_water = 0, sr_sources_expired = 0,
      sr_sources_rejected = 0, sr_queue_high_water = 0, sr_correlations = [], sr_correlation_order = []\<rparr>"
  by (simp add: demo_runtime_def security_runtime_new_def demo_runtime_config_def default_security_config_def
      validate_security_config_def)

lemma demo_config_ok: "config_ok demo_runtime_config"
  by (simp add: config_ok_def demo_runtime_config_def default_security_config_def u32_max_def)

lemma demo_consume:
  "consume_token ''twitch'' 5 demo_runtime =
     Some (True, demo_runtime\<lparr>sr_buckets := [(''twitch'', \<lparr>bk_tokens = Fin 1, bk_last_refill_ms = 5\<rparr>)], sr_sources_high_water := 1\<rparr>)"
proof -
  let ?b = "\<lparr>bk_tokens = Fin 2, bk_last_refill_ms = 5\<rparr>"
  have b: "f64_of_nat (sec_burst demo_runtime_config) = Fin 2"
    using f64_of_burst [OF demo_config_ok] by (simp add: demo_runtime_config_def)
  have "representable 2" using representable_nat [of 2] by simp
  then have "bucket_ok (sec_burst demo_runtime_config) ?b"
    by (simp add: bucket_ok_def demo_runtime_config_def)
  then have r: "refill demo_runtime_config 5 ?b = ?b" by (intro refill_same demo_config_ok) simp_all
  have s: "f64_round 1 = Fin 1" using representable_nat [of 1] by (simp add: f64_round_exact)
  have m: "\<not> sec_max_sources demo_runtime_config = 0"
    by (simp add: demo_runtime_config_def default_security_config_def)
  show ?thesis
    by (simp add: consume_token_def spend_token_def demo_runtime_fields expire_sources_def bm_retain_def b r s m sadd_def
        Let_def bm_get_def)
qed

lemma demo_admitted: "\<exists>rt'. admit_content_bytes demo_json ''{'' 5 demo_runtime = Some (Inr AD_Queued, rt')"
proof -
  have v: "validate_event demo_event = Inr ()" by code_simp
  then have "passed_gates demo_json ''{'' demo_runtime_config demo_event"
    by (simp add: passed_gates_def content_event_def demo_json_def demo_event_def demo_runtime_config_def
        default_security_config_def)
  then show ?thesis
    using demo_consume
    by (auto simp: admit_content_bytes_def passed_gates_def content_event_def demo_event_def enqueue_content_def
        record_correlation_def record_ingress_def Let_def demo_runtime_fields demo_runtime_config_def
        default_security_config_def MAX_CORRELATION_REFS_def)
qed

section \<open>Admission\<close>

text \<open>
  C9. Content admission is gated. Every call on a reachable runtime returns. Only an envelope within
  the byte cap that parses to a valid, unprivileged content event with a payload within its cap is
  queued, at the back, with its correlation recorded; every other decision leaves the queue and the
  registry alone; an error leaves the whole runtime as it was, and every decision is audited exactly
  once. Nothing that arrives as content touches the scheduler, the mute or the configuration.
\<close>

theorem content_admission_is_gated:
  assumes "rt_reach js rt"
  shows "\<exists>r rt'. admit_content_bytes js raw now rt = Some (r, rt')
     \<and> (\<forall>err. r = Inl err \<longrightarrow> rt' = rt)
     \<and> (\<forall>d. r = Inr d \<longrightarrow>
          (\<exists>a. sr_audit rt' = keep_last (sec_max_audit (sr_config rt)) (sr_audit rt @ [a])))
     \<and> (r = Inr AD_Queued \<longrightarrow>
          (\<exists>e n. length raw \<le> sec_max_envelope_bytes (sr_config rt) \<and> jl_from_slice js raw = Inr e
             \<and> validate_event e = Inr () \<and> ev_plane e = Plane_Content \<and> ev_kind e \<noteq> OperatorCommand
             \<and> ev_authorization e = None
             \<and> jl_payload_bytes js (ev_payload e) = Inr n \<and> n \<le> sec_max_payload_bytes (sr_config rt)
             \<and> sr_queue rt' = sr_queue rt @ [e] \<and> length (sr_queue rt') \<le> sec_queue_limit (sr_config rt)
             \<and> bm_get (sr_correlations rt') (ev_correlation_id e) =
                 Some \<lparr>cr_event_id = ev_event_id e, cr_sequence = ev_sequence e\<rparr>))
     \<and> (r \<noteq> Inr AD_Queued \<longrightarrow> sr_queue rt' = sr_queue rt \<and> sr_correlations rt' = sr_correlations rt)
     \<and> sr_scheduler rt' = sr_scheduler rt \<and> sr_muted rt' = sr_muted rt \<and> sr_config rt' = sr_config rt"
proof -
  obtain r rt' where r: "admit_content_bytes js raw now rt = Some (r, rt')" "rt_inv rt'" "admit_post js raw now rt r rt'"
    using admit_content_spec [OF reach_rt_inv [OF assms], of js raw now] by blast
  have queued: "\<exists>e n. passed_gates js raw (sr_config rt) e \<and> jl_payload_bytes js (ev_payload e) = Inr n
      \<and> n \<le> sec_max_payload_bytes (sr_config rt) \<and> sr_queue rt' = sr_queue rt @ [e]
      \<and> length (sr_queue rt') \<le> sec_queue_limit (sr_config rt)
      \<and> bm_get (sr_correlations rt') (ev_correlation_id e) = Some \<lparr>cr_event_id = ev_event_id e, cr_sequence = ev_sequence e\<rparr>"
    if q: "r = Inr AD_Queued"
  proof -
    obtain e where e: "passed_gates js raw (sr_config rt) e" "sr_queue rt' = sr_queue rt @ [e]" "registry_after e rt rt'"
      using r(3) q by (auto simp: admit_post_def)
    have "ev_correlation_id e \<in> set (sr_correlation_order rt')"
      using e(3) by (auto simp: registry_after_def order_after_def MAX_CORRELATION_REFS_def intro: keep_last_snoc)
    then have "bm_get (sr_correlations rt') (ev_correlation_id e) = Some \<lparr>cr_event_id = ev_event_id e, cr_sequence = ev_sequence e\<rparr>"
      using e(3) by (auto simp: registry_after_def)
    moreover have "length (sr_queue rt') \<le> sec_queue_limit (sr_config rt')" "sr_config rt' = sr_config rt"
      using r(2,3) by (auto simp: rt_inv_def queue_ok_def admit_post_def same_control_def)
    ultimately show ?thesis using e(1,2) by (auto simp: passed_gates_def)
  qed
  show ?thesis
    using r queued
    by (intro exI [of _ r] exI [of _ rt'])
      (auto simp: admit_post_def one_audit_def same_content_def same_control_def passed_gates_def content_event_def
        split: sum.splits)
qed

lemma content_admission_is_gated_witness:
  "\<exists>rt'. admit_content_bytes demo_json ''{'' 5 demo_runtime = Some (Inr AD_Queued, rt') \<and>
     sr_queue rt' = [demo_event] \<and> sr_scheduler rt' = sr_scheduler demo_runtime"
proof -
  have f: "sr_queue demo_runtime = []" "jl_from_slice demo_json ''{'' = Inr demo_event"
    by (simp_all add: demo_runtime_fields demo_json_def)
  from demo_admitted obtain rt' where r: "admit_content_bytes demo_json ''{'' 5 demo_runtime = Some (Inr AD_Queued, rt')" by blast
  with content_admission_is_gated [OF demo_runtime_reach, of demo_json "''{''" 5] f show ?thesis by auto
qed

section \<open>Retention\<close>

text \<open>
  C12. Retention is bounded everywhere in a reachable runtime: the audit, the rate-limited sources, the
  queue and the correlation registry never exceed their configured limits, nor do their high-water
  marks, which are never below the present sizes; and everything queued is valid unprivileged content.
\<close>

theorem runtime_retention_is_bounded:
  assumes "rt_reach js rt" "m = retention_metrics rt" "c = sr_config rt"
  shows "sme_audit_retained m \<le> sme_audit_high_water m \<and> sme_audit_high_water m \<le> sec_max_audit c
     \<and> sme_sources m \<le> sme_sources_high_water m \<and> sme_sources_high_water m \<le> sec_max_sources c
     \<and> sme_queue m \<le> sme_queue_high_water m \<and> sme_queue_high_water m \<le> sec_queue_limit c
     \<and> length (sr_correlations rt) \<le> 128 \<and> length (recent_correlations limit rt) \<le> min limit 128
     \<and> (\<forall>e\<in>set (sr_queue rt). validate_event e = Inr () \<and> ev_plane e = Plane_Content \<and> ev_authorization e = None)"
proof -
  have inv: "rt_inv rt" using assms(1) by (rule reach_rt_inv)
  then have reg: "registry_ok (sr_correlation_order rt) (sr_correlations rt)" by (simp add: rt_inv_def)
  have "length (recent_correlations limit rt) \<le> length (take limit (rev (sr_correlation_order rt)))"
    by (simp add: recent_correlations_def List.map_filter_def del: length_take)
  also have "\<dots> \<le> min limit 128"
    using reg by (auto simp: registry_ok_def MAX_CORRELATION_REFS_def)
  finally show ?thesis
    using inv registry_length [OF reg] reg assms(2,3)
    by (auto simp: rt_inv_def high_water_ok_def retention_metrics_def registry_ok_def MAX_CORRELATION_REFS_def
        queue_ok_def content_event_def list_all_iff)
qed

lemma runtime_retention_is_bounded_witness:
  "sme_queue (retention_metrics demo_runtime) \<le> 1024"
  using runtime_retention_is_bounded [OF demo_runtime_reach refl refl, where limit = 3]
  by (simp add: demo_runtime_def security_runtime_new_def demo_runtime_config_def default_security_config_def
      validate_security_config_def)

section \<open>Bursts\<close>

fun op_spends :: "'v json_lib \<Rightarrow> string \<Rightarrow> 'v rt_op \<Rightarrow> rt_obs \<Rightarrow> bool" where
  "op_spends js source (RO_Admit raw now) (Some r) = spends js source raw r"
| "op_spends js source _ _ = False"

fun admits_at :: "u64 \<Rightarrow> 'v rt_op \<Rightarrow> bool" where
  "admits_at now (RO_Admit _ t) = (t = now)"
| "admits_at now _ = True"

definition tokens_spent :: "'v json_lib \<Rightarrow> string \<Rightarrow> 'v rt_op list \<Rightarrow> rt_obs list \<Rightarrow> nat" where
  "tokens_spent js source ops obs = length (filter (\<lambda>(op, ob). op_spends js source op ob) (zip ops obs))"

text \<open>\<open>k\<close> tokens of the source are gone at the instant \<open>now\<close>.\<close>

definition spent_at :: "string \<Rightarrow> u64 \<Rightarrow> nat \<Rightarrow> 'v security_runtime \<Rightarrow> bool" where
  "spent_at source now k rt \<longleftrightarrow>
     k = 0 \<or>
     (\<exists>t. bm_get (sr_buckets rt) source = Some \<lparr>bk_tokens = Fin t, bk_last_refill_ms = now\<rparr> \<and> 0 \<le> t \<and>
          of_nat k + t \<le> of_nat (sec_burst (sr_config rt)))"

lemma spent_at_step:
  assumes "limiter_step source now spent rt rt'" "sr_config rt' = sr_config rt" "spent_at source now k rt"
  shows "spent_at source now (if spent then Suc k else k) rt'"
proof (cases "k = 0")
  case True
  with assms(1,2) show ?thesis by (auto simp: spent_at_def limiter_step_def token_step_def)
next
  case False
  then obtain t where t: "bm_get (sr_buckets rt) source = Some \<lparr>bk_tokens = Fin t, bk_last_refill_ms = now\<rparr>"
    "0 \<le> t" "of_nat k + t \<le> of_nat (sec_burst (sr_config rt))" using assms(3) by (auto simp: spent_at_def)
  with assms(1,2) show ?thesis by (auto simp: spent_at_def limiter_step_def token_step_def)
qed

lemma run_spent_at:
  assumes "rt_inv rt" "rt_run js ops rt = Some (obs, rt')" "\<forall>op\<in>set ops. rt_op_in_range op \<and> admits_at now op"
    "spent_at source now k rt"
  shows "spent_at source now (k + tokens_spent js source ops obs) rt' \<and> sr_config rt' = sr_config rt"
  using assms
proof (induction ops arbitrary: rt obs k)
  case (Cons op ops)
  obtain ob rt1 obs1 where x: "rt_exec js op rt = Some (ob, rt1)" "rt_run js ops rt1 = Some (obs1, rt')" "obs = ob # obs1"
    using Cons.prems(2) by (rule rt_run_Cons)
  have inv1: "rt_inv rt1" using rt_exec_total [OF Cons.prems(1), of op js] Cons.prems(3) x(1) by auto
  have c: "sr_config rt1 = sr_config rt" using Cons.prems(1) x(1) by (rule rt_exec_config)
  have s: "spent_at source now (if op_spends js source op ob then Suc k else k) rt1"
  proof (cases "is_admit op")
    case True
    then obtain raw where op: "op = RO_Admit raw now" using Cons.prems(3) by (cases op) auto
    obtain r where "ob = Some r" "admit_post js raw now rt r rt1"
      using Cons.prems(1) x(1) unfolding op by (rule rt_exec_admit)
    then show ?thesis using spent_at_step [of source now _ rt rt1 k] c Cons.prems(4) by (simp add: op admit_post_def)
  next
    case False
    then have "\<not> op_spends js source op ob" by (cases op) auto
    with rt_exec_other [OF False x(1)] Cons.prems(4) show ?thesis by (simp add: spent_at_def)
  qed
  have "tokens_spent js source (op # ops) obs = (if op_spends js source op ob then 1 else 0) + tokens_spent js source ops obs1"
    by (simp add: tokens_spent_def x(3))
  with Cons.IH [OF inv1 x(2) _ s] Cons.prems(3) c show ?case by (auto split: if_splits)
qed (simp add: tokens_spent_def)

text \<open>
  C11. Bursts are bounded, in floating-point arithmetic: whatever operations run on a reachable runtime
  while its clock stands, in whatever interleaving with other sources, no source spends more tokens
  than the configured burst, so no more of its events reach the queue.
\<close>

theorem bursts_are_bounded:
  assumes "rt_reach js rt" "rt_run js ops rt = Some (obs, rt')"
    and "\<forall>op\<in>set ops. rt_op_in_range op \<and> admits_at now op"
  shows "tokens_spent js source ops obs \<le> sec_burst (sr_config rt)"
proof -
  have "spent_at source now (tokens_spent js source ops obs) rt'" "sr_config rt' = sr_config rt"
    using run_spent_at [OF reach_rt_inv [OF assms(1)] assms(2,3), of source 0] spent_at_def [of source now 0 rt]
    by simp_all
  then have "of_nat (tokens_spent js source ops obs) \<le> (of_nat (sec_burst (sr_config rt)) :: rat)
      \<or> tokens_spent js source ops obs = 0"
    by (auto simp: spent_at_def)
  then show ?thesis by auto
qed

lemma bursts_are_bounded_witness:
  "\<exists>obs rt'. rt_run demo_json [RO_Admit ''{'' 5] demo_runtime = Some (obs, rt') \<and>
     tokens_spent demo_json ''twitch'' [RO_Admit ''{'' 5] obs = 1 \<and> tokens_spent demo_json ''twitch'' [RO_Admit ''{'' 5] obs \<le> 2"
proof -
  let ?ops = "[RO_Admit ''{'' 5]"
  obtain rt' where r: "rt_run demo_json ?ops demo_runtime = Some ([Some (Inr AD_Queued)], rt')"
    using demo_admitted by auto
  have "tokens_spent demo_json ''twitch'' ?ops [Some (Inr AD_Queued)] = 1"
    by (simp add: tokens_spent_def spends_def demo_json_def demo_event_def)
  moreover have "sec_burst (sr_config demo_runtime) = 2" by (simp add: demo_runtime_fields demo_runtime_config_def)
  ultimately show ?thesis
    using bursts_are_bounded [OF demo_runtime_reach r, of 5 "''twitch''"] r by auto
qed

section \<open>Control\<close>

lemma rt_stop_all:
  assumes "rt_inv rt" "t \<le> u64_max" "stop_all t (sr_scheduler rt) = (stopped, sch)"
  shows "sch_items sch = [] \<and> length stopped = length (sch_items (advance_to t (sr_scheduler rt)))"
proof -
  have "sched_inv (sr_scheduler rt)" using assms(1) by (simp add: rt_inv_def)
  from stop_all_props [OF this assms(2)] assms(3) show ?thesis
    by (metis (no_types, lifting) length_map mset_eq_length prod.inject)
qed

text \<open>
  C8. Control is never starved by content and never exceeds its authority. The outcome of a control
  command is a function of the command, the time and the scheduler alone, whatever is queued, rate
  limited or muted; it leaves queue, limiter and registry alone. A refused command changes nothing. An
  accepted one was an operator control event whose claim equals the authority; a stop needed its
  capability and leaves no live item, a mute needed its own and mutes, anything else changes neither.
\<close>

theorem control_is_never_starved:
  assumes "rt_reach js rt" "t \<le> u64_max" "handle_control js cmd t rt = (r, rt')"
  shows "(\<forall>rt2. sr_scheduler rt2 = sr_scheduler rt \<longrightarrow> fst (handle_control js cmd t rt2) = r)
     \<and> sr_queue rt' = sr_queue rt \<and> sr_buckets rt' = sr_buckets rt \<and> sr_correlations rt' = sr_correlations rt
     \<and> (case r of
          Inl e \<Rightarrow> rt' = rt
        | Inr out \<Rightarrow>
            ev_kind (acm_event cmd) = OperatorCommand \<and> ev_plane (acm_event cmd) = Plane_Control
          \<and> ev_authorization (acm_event cmd) = Some \<lparr>ac_principal = auc_principal (acm_authority cmd),
                ac_method = auc_method (acm_authority cmd), ac_capabilities = auc_capabilities (acm_authority cmd)\<rparr>
          \<and> (\<exists>action. command_action js (acm_event cmd) = Inr action
             \<and> (if action \<in> {''stop'', ''performer.stop''}
                then has_capability (acm_authority cmd) PerformerStop \<and> sch_items (sr_scheduler rt') = []
                   \<and> out = CO_Stopped (length (sch_items (advance_to t (sr_scheduler rt)))) \<and> sr_muted rt' = sr_muted rt
                else if action \<in> {''mute'', ''performer.mute''}
                then has_capability (acm_authority cmd) PerformerMute \<and> sr_muted rt' \<and> out = CO_Muted
                   \<and> sr_scheduler rt' = sr_scheduler rt
                else out = CO_AuthenticatedOther \<and> sr_scheduler rt' = sr_scheduler rt \<and> sr_muted rt' = sr_muted rt)))"
proof -
  have inv: "rt_inv rt" using assms(1) by (rule reach_rt_inv)
  have indep: "fst (handle_control js cmd t rt2) =
      (case control_body js cmd t m (sr_scheduler rt2) of Inl e \<Rightarrow> Inl e | Inr (a, out, _, _) \<Rightarrow> Inr out)" for rt2 m
    by (auto simp: handle_control_def control_body_def rbind_def split: sum.splits prod.splits if_splits)
  have same: "\<forall>rt2. sr_scheduler rt2 = sr_scheduler rt \<longrightarrow> fst (handle_control js cmd t rt2) = r"
    using indep [of _ True] assms(3) by (metis fst_conv)
  have claim: "validate_authority_matches_event (acm_authority cmd) (acm_event cmd) = Inr () \<Longrightarrow>
      ev_kind (acm_event cmd) = OperatorCommand \<and> ev_plane (acm_event cmd) = Plane_Control
      \<and> ev_authorization (acm_event cmd) = Some \<lparr>ac_principal = auc_principal (acm_authority cmd),
          ac_method = auc_method (acm_authority cmd), ac_capabilities = auc_capabilities (acm_authority cmd)\<rparr>"
    by (auto simp: validate_authority_matches_event_def rust_simps split: if_splits option.splits)
  show ?thesis
  proof (cases "control_body js cmd t (sr_muted rt) (sr_scheduler rt)")
    case (Inl e)
    with assms(3) same show ?thesis by (auto simp: handle_control_def)
  next
    case (Inr x)
    obtain action out m sch where x: "x = (action, out, m, sch)" by (cases x)
    have rt': "r = Inr out" "rt' = audit_control cmd action (rt\<lparr>sr_scheduler := sch, sr_muted := m\<rparr>)"
      using assms(3) Inr x by (auto simp: handle_control_def)
    have b: "validate_authority_matches_event (acm_authority cmd) (acm_event cmd) = Inr ()"
      "command_action js (acm_event cmd) = Inr action"
      using Inr x by (auto simp: control_body_def rust_simps split: if_splits prod.splits)
    have frame: "sr_queue rt' = sr_queue rt" "sr_buckets rt' = sr_buckets rt" "sr_correlations rt' = sr_correlations rt"
      "sr_scheduler rt' = sch" "sr_muted rt' = m"
      by (simp_all add: rt' audit_control_def)
    obtain stopped sch1 where st: "stop_all t (sr_scheduler rt) = (stopped, sch1)" by fastforce
    have eff: "if action \<in> {''stop'', ''performer.stop''}
        then has_capability (acm_authority cmd) PerformerStop \<and> sch_items sch = []
           \<and> out = CO_Stopped (length (sch_items (advance_to t (sr_scheduler rt)))) \<and> m = sr_muted rt
        else if action \<in> {''mute'', ''performer.mute''}
        then has_capability (acm_authority cmd) PerformerMute \<and> m \<and> out = CO_Muted \<and> sch = sr_scheduler rt
        else out = CO_AuthenticatedOther \<and> sch = sr_scheduler rt \<and> m = sr_muted rt"
      using Inr rt_stop_all [OF inv assms(2) st] st
      by (auto simp: control_body_def b x require_capability_def rust_simps split: if_splits)
    show ?thesis using same frame claim [OF b(1)] b(2) eff by (auto simp: rt'(1) simp del: insert_iff)
  qed
qed

definition demo_stop :: "string authenticated_command" where
  "demo_stop = (case authenticate id demo_command (replicate 32 9) demo_ingress of
     Inr cmd \<Rightarrow> cmd | Inl _ \<Rightarrow> undefined)"

lemma demo_stop_authenticated: "authenticate id demo_command (replicate 32 9) demo_ingress = Inr demo_stop"
proof -
  have "case authenticate id demo_command (replicate 32 9) demo_ingress of Inr _ \<Rightarrow> True | Inl _ \<Rightarrow> False" by code_simp
  then show ?thesis by (auto simp: demo_stop_def split: sum.splits)
qed

lemma control_is_never_starved_witness:
  "sr_queue (snd (handle_control demo_json demo_stop 9 demo_runtime)) = sr_queue demo_runtime"
proof -
  obtain r rt' where "handle_control demo_json demo_stop 9 demo_runtime = (r, rt')" by fastforce
  moreover have "(9::nat) \<le> u64_max" by (simp add: u64_max_def)
  ultimately show ?thesis
    using control_is_never_starved [OF demo_runtime_reach, of 9 demo_json demo_stop r rt'] by simp
qed

text \<open>
  End to end, from the local ingress to the timeline: a stop or mute command that the ingress
  authenticated is never refused by the runtime. The stop cancels every live performance, the mute
  mutes, whatever the state of the content path. The JSON library reads back the string it was given.
\<close>

theorem authenticated_emergency_is_honoured:
  assumes "authenticate json_string input presented ing = Inr cmd" "\<forall>s. jl_as_str js (json_string s) = Some s"
    and "rt_reach js rt" "t \<le> u64_max" "handle_control js cmd t rt = (r, rt')"
  shows "(oci_action input \<in> {''stop'', ''performer.stop''} \<longrightarrow>
            sch_items (sr_scheduler rt') = [] \<and>
            r = Inr (CO_Stopped (length (sch_items (advance_to t (sr_scheduler rt))))))
     \<and> (oci_action input \<in> {''mute'', ''performer.mute''} \<longrightarrow> sr_muted rt' \<and> r = Inr CO_Muted)"
proof -
  from assms(1) obtain c where c: "capability_for_action (oci_action input) = Some c"
    "cmd = \<lparr>acm_event = control_event json_string input c ing,
            acm_authority = \<lparr>auc_principal = lci_principal ing, auc_method = lci_method ing, auc_capabilities = {c}\<rparr>\<rparr>"
    by (auto simp: authenticate_def Let_def split: if_splits option.splits sum.splits)
  have v: "validate_authority_matches_event (acm_authority cmd) (acm_event cmd) = Inr ()"
    by (simp add: c(2) validate_authority_matches_event_def control_event_def)
  have a: "command_action js (acm_event cmd) = Inr (oci_action input)"
    by (simp add: c(2) command_action_def control_event_def assms(2))
  obtain stopped sch where st: "stop_all t (sr_scheduler rt) = (stopped, sch)" by fastforce
  note stopped = rt_stop_all [OF reach_rt_inv [OF assms(3)] assms(4) st]
  show ?thesis
  proof (intro conjI impI)
    assume act: "oci_action input \<in> {''stop'', ''performer.stop''}"
    then have "require_capability (acm_authority cmd) PerformerStop = Inr ()"
      using c by (auto simp: capability_for_action_def require_capability_def has_capability_def)
    with act have "control_body js cmd t (sr_muted rt) (sr_scheduler rt) =
        Inr (oci_action input, CO_Stopped (length stopped), sr_muted rt, sch)"
      by (auto simp: control_body_def v a st)
    with assms(5) stopped show "sch_items (sr_scheduler rt') = []"
      "r = Inr (CO_Stopped (length (sch_items (advance_to t (sr_scheduler rt)))))"
      by (auto simp: handle_control_def audit_control_def)
  next
    assume act: "oci_action input \<in> {''mute'', ''performer.mute''}"
    then have "require_capability (acm_authority cmd) PerformerMute = Inr ()"
      using c by (auto simp: capability_for_action_def require_capability_def has_capability_def)
    with act have "control_body js cmd t (sr_muted rt) (sr_scheduler rt) =
        Inr (oci_action input, CO_Muted, True, sr_scheduler rt)"
      by (auto simp: control_body_def v a)
    with assms(5) show "sr_muted rt'" "r = Inr CO_Muted"
      by (auto simp: handle_control_def audit_control_def)
  qed
qed

lemma authenticated_emergency_is_honoured_witness:
  "fst (handle_control demo_json demo_stop 9 demo_runtime) = Inr (CO_Stopped 0)"
proof -
  obtain r rt' where r: "handle_control demo_json demo_stop 9 demo_runtime = (r, rt')" by fastforce
  have "(9::nat) \<le> u64_max" "\<forall>s. jl_as_str demo_json (id s) = Some s"
    by (simp_all add: u64_max_def demo_json_def)
  moreover have "oci_action demo_command = ''performer.stop''" by (simp add: demo_command_def)
  moreover have "length (sch_items (advance_to 9 (sr_scheduler demo_runtime))) = 0"
    unfolding demo_runtime_fields by code_simp
  ultimately show ?thesis
    using authenticated_emergency_is_honoured [OF demo_stop_authenticated _ demo_runtime_reach _ r] r by simp
qed

section \<open>Publication\<close>

lemma control_terms_separable: "term \<in> set CONTROL_TERMS \<Longrightarrow> separable ascii_lower REDACTED term"
proof -
  have "list_all (separable ascii_lower REDACTED) CONTROL_TERMS" by code_simp
  then show "term \<in> set CONTROL_TERMS \<Longrightarrow> separable ascii_lower REDACTED term" by (simp add: list_all_iff)
qed

text \<open>
  C10. Publication is contained. Text that names a control-plane term, in any case, is never published:
  the cached reaction or nothing takes its place. Whatever is published contains no plain configured
  secret, that is, no non-empty one that is free of brackets and not itself a part of the redaction marker (a
  secret such as \<open>E\<close> is replaced by a marker that contains it, as shown below); and unless it is the cached reaction it
  contains no control term either, even after redaction has joined its pieces. Text that is clean in
  both respects is published as it is, and every decision is audited.
\<close>

theorem publication_is_contained:
  assumes "publish_text body rt = (out, rt')"
  shows "(\<forall>shown s. po_text out = Some shown \<longrightarrow> s \<in> set (srd_secrets (sr_redactor rt)) \<longrightarrow> plain_secret s \<longrightarrow>
            \<not> str_contains shown s)
     \<and> (\<forall>shown term. po_text out = Some shown \<longrightarrow> po_verdict out \<noteq> OV_ReplaceWithCached \<longrightarrow> term \<in> set CONTROL_TERMS \<longrightarrow>
            \<not> str_contains (to_ascii_lowercase shown) term)
     \<and> ((\<exists>term\<in>set CONTROL_TERMS. str_contains (to_ascii_lowercase body) term) \<longleftrightarrow>
            po_verdict out = OV_Suppress \<or> po_verdict out = OV_ReplaceWithCached)
     \<and> (po_verdict out = OV_Suppress \<longleftrightarrow> po_text out = None)
     \<and> (po_verdict out = OV_Allow \<longrightarrow> po_text out = Some body)
     \<and> (\<exists>a. adr_category a = AC_Output \<and> sr_audit rt' = keep_last (sec_max_audit (sr_config rt)) (sr_audit rt @ [a]))"
proof -
  let ?p = "public_output_policy rt"
  let ?hit = "\<exists>term\<in>set CONTROL_TERMS. str_contains (to_ascii_lowercase body) term"
  have out: "out = evaluate_output body ?p" and rt': "rt' = record_output (po_reason out) rt"
    using assms by (auto simp: publish_text_def Let_def record_public_output_decision_def)
  have clean: "\<not> str_contains (redact (sr_redactor rt) b) s"
    if "s \<in> set (srd_secrets (sr_redactor rt))" "plain_secret s" for b s
    using that by (rule redact_removes)
  have term_free: "\<not> str_contains (to_ascii_lowercase (redact (sr_redactor rt) body)) term"
    if "term \<in> set CONTROL_TERMS" "\<not> ?hit" for "term"
    using redact_creates_nothing [OF control_terms_separable [OF that(1)], of "sr_redactor rt" body] that
    by (auto simp: to_ascii_lowercase_def)
  have audit: "\<exists>a. adr_category a = AC_Output \<and> sr_audit rt' = keep_last (sec_max_audit (sr_config rt)) (sr_audit rt @ [a])"
    unfolding rt' record_output_def audit_log.entries_push keep_cap.simps
    by (intro exI [of _ "redactor_audit (sr_redactor rt) None AC_Output (po_reason out) (po_reason out)"])
      (simp add: redactor_audit_def)
  show ?thesis
  proof (cases ?hit)
    case True
    then have "list_ex (\<lambda>term. str_contains (to_ascii_lowercase body) term) CONTROL_TERMS" by (simp add: list_ex_iff)
    with out True clean audit show ?thesis
      by (cases "sr_cached_reaction rt") (auto simp: evaluate_output_def public_output_policy_def)
  next
    case False
    then have "\<not> list_ex (\<lambda>term. str_contains (to_ascii_lowercase body) term) CONTROL_TERMS" by (simp add: list_ex_iff)
    then have e: "po_text out = Some (redact (sr_redactor rt) body)"
      "po_verdict out = (if redact (sr_redactor rt) body = body then OV_Allow else OV_Redact)"
      by (simp_all add: out evaluate_output_def public_output_policy_def Let_def)
    note free = term_free [OF _ False]
    show ?thesis
      by (intro conjI audit) (use False in \<open>auto simp: e clean dest: free\<close>)
  qed
qed

lemma publication_is_contained_witness:
  "let out = fst (publish_text ''my key is hunter2!'' demo_runtime)
   in po_verdict out = OV_Redact \<and> \<not> str_contains (the (po_text out)) ''hunter2''"
proof -
  obtain out rt' where r: "publish_text ''my key is hunter2!'' demo_runtime = (out, rt')" by fastforce
  have e: "po_verdict (fst (publish_text ''my key is hunter2!'' demo_runtime)) = OV_Redact"
    unfolding demo_runtime_fields by code_simp
  have "''hunter2'' \<in> set (srd_secrets (sr_redactor demo_runtime))" by (simp add: demo_runtime_fields redactor_new_def)
  moreover have "plain_secret ''hunter2''" unfolding plain_secret_def by code_simp
  moreover have "po_text out = Some (the (po_text out))"
    using publication_is_contained [OF r] e r by auto
  ultimately have "\<not> str_contains (the (po_text out)) ''hunter2''"
    using publication_is_contained [OF r] by blast
  with e r show ?thesis by (simp add: Let_def)
qed

text \<open>
  Why the secret has to be plain: redaction replaces a secret that occurs in the marker by a text that
  contains it.
\<close>

lemma marker_leaks_its_own_text:
  "\<not> plain_secret ''E'' \<and> redact (redactor_new [''E'']) ''END'' = ''[REDACTED]ND'' \<and>
   str_contains (redact (redactor_new [''E'']) ''END'') ''E''"
  unfolding plain_secret_def by code_simp

section \<open>Memory writes\<close>

text \<open>
  Memory permits are earned. A permit is returned exactly when the decision is not a denial, which
  needs an authority with the memory capability, or a system-plane event that is at least semi-trusted;
  so a validated content event without authority never gets one. A permit copies the identity and the
  claim of the event it was issued for, and every decision is audited under that event.
\<close>

theorem memory_permits_are_earned:
  assumes "authorize_memory_write js e authority rt = ((d, permit), rt')"
  shows "(permit \<noteq> None \<longleftrightarrow> d \<noteq> MD_Denied)
     \<and> (d \<noteq> MD_Denied \<longleftrightarrow> (\<exists>a. authority = Some a \<and> has_capability a MemoryAdmin)
                        \<or> ev_plane e = Plane_System \<and> ev_trust_level e \<noteq> Untrusted)
     \<and> (validate_event e = Inr () \<longrightarrow> ev_plane e = Plane_Content \<longrightarrow> authority = None \<longrightarrow> permit = None)
     \<and> (\<forall>p. permit = Some p \<longrightarrow> mp_event_id p = ev_event_id e \<and> mp_source p = ev_source e
          \<and> mp_trust_level p = ev_trust_level e \<and> mp_actor_id p = ev_actor_id e \<and> mp_decision p = d
          \<and> (\<forall>c. mp_source_claim p = Some c \<longleftrightarrow>
               (\<exists>v. bm_get (ev_payload e) ''text'' = Some v \<and> jl_as_str js v = Some c)))
     \<and> (\<exists>a. adr_event_id a = Some (ev_event_id e) \<and> adr_category a = AC_Memory
          \<and> sr_audit rt' = keep_last (sec_max_audit (sr_config rt)) (sr_audit rt @ [a]))
     \<and> gate_memory_write js e authority rt = (d, rt')"
proof -
  have d: "d = memory_write_decision e authority" and rt': "rt' = push_audit (redactor_audit (sr_redactor rt)
      (Some (ev_event_id e)) AC_Memory (memory_decision_debug d) ''memory write gate'') rt"
    using assms by (auto simp: authorize_memory_write_def Let_def)
  have audit: "\<exists>a. adr_event_id a = Some (ev_event_id e) \<and> adr_category a = AC_Memory
          \<and> sr_audit rt' = keep_last (sec_max_audit (sr_config rt)) (sr_audit rt @ [a])"
    unfolding rt' audit_log.entries_push keep_cap.simps
    by (intro exI [of _ "redactor_audit (sr_redactor rt) (Some (ev_event_id e)) AC_Memory (memory_decision_debug d)
      ''memory write gate''"]) (simp add: redactor_audit_def)
  have dec: "d \<noteq> MD_Denied \<longleftrightarrow> (\<exists>a. authority = Some a \<and> has_capability a MemoryAdmin)
                        \<or> ev_plane e = Plane_System \<and> ev_trust_level e \<noteq> Untrusted"
    unfolding d memory_write_decision_def by (cases "ev_trust_level e") (auto split: option.splits)
  have permit: "permit \<noteq> None \<longleftrightarrow> d \<noteq> MD_Denied"
    using assms by (auto simp: authorize_memory_write_def Let_def)
  have fields: "\<forall>p. permit = Some p \<longrightarrow> mp_event_id p = ev_event_id e \<and> mp_source p = ev_source e
          \<and> mp_trust_level p = ev_trust_level e \<and> mp_actor_id p = ev_actor_id e \<and> mp_decision p = d
          \<and> (\<forall>c. mp_source_claim p = Some c \<longleftrightarrow>
               (\<exists>v. bm_get (ev_payload e) ''text'' = Some v \<and> jl_as_str js v = Some c))"
    using assms by (auto simp: authorize_memory_write_def Let_def bind_eq_Some_conv split: if_splits)
  have "gate_memory_write js e authority rt = (d, rt')" using assms by (simp add: gate_memory_write_def)
  with audit dec permit fields show ?thesis by auto
qed

lemma memory_permits_are_earned_witness:
  "snd (fst (authorize_memory_write demo_json demo_event None demo_runtime)) = None"
proof -
  obtain d p rt' where r: "authorize_memory_write demo_json demo_event None demo_runtime = ((d, p), rt')"
    by (metis surj_pair)
  have "validate_event demo_event = Inr ()" "ev_plane demo_event = Plane_Content" by code_simp+
  with memory_permits_are_earned [OF r] r show ?thesis by simp
qed

section \<open>The correlation feed\<close>

text \<open>The last event of every correlation id, in the order of those last events.\<close>

fun latest_events :: "'v event_envelope list \<Rightarrow> 'v event_envelope list" where
  "latest_events [] = []"
| "latest_events (e # es) =
     (if ev_correlation_id e \<in> ev_correlation_id ` set es then latest_events es else e # latest_events es)"

definition queued_event :: "'v json_lib \<Rightarrow> 'v rt_op \<times> rt_obs \<Rightarrow> 'v event_envelope option" where
  "queued_event js x =
     (case x of
        (RO_Admit raw now, Some (Inr AD_Queued)) \<Rightarrow> (case jl_from_slice js raw of Inl _ \<Rightarrow> None | Inr e \<Rightarrow> Some e)
      | _ \<Rightarrow> None)"

definition queued_events :: "'v json_lib \<Rightarrow> 'v rt_op list \<Rightarrow> rt_obs list \<Rightarrow> 'v event_envelope list" where
  "queued_events js ops obs = List.map_filter (queued_event js) (zip ops obs)"

definition entry_of :: "'v event_envelope \<Rightarrow> correlation_entry" where
  "entry_of e = \<lparr>ce_correlation_id = ev_correlation_id e, ce_event_id = ev_event_id e, ce_sequence = ev_sequence e\<rparr>"

lemma latest_ids: "ev_correlation_id ` set (latest_events es) = ev_correlation_id ` set es"
  by (induction es) auto

lemma latest_distinct: "distinct (map ev_correlation_id (latest_events es))"
  by (induction es) (auto simp: latest_ids)

lemma latest_snoc:
  "latest_events (es @ [e]) = filter (\<lambda>x. ev_correlation_id x \<noteq> ev_correlation_id e) (latest_events es) @ [e]"
  by (induction es) auto

lemma keep_last_map: "keep_last n (map f xs) = map f (keep_last n xs)"
  by (simp add: keep_last_def drop_map)

lemma filter_neq_absent: "x \<notin> set xs \<Longrightarrow> filter (\<lambda>y. y \<noteq> x) xs = xs"
  by (rule filter_True) auto

lemma length_filter_neq:
  "distinct xs \<Longrightarrow> length (filter (\<lambda>y. y \<noteq> x) xs) = (if x \<in> set xs then length xs - 1 else length xs)"
  by (induction xs) (auto simp: filter_neq_absent dest: length_pos_if_in_set)

text \<open>Evicting before the re-insertion of an id or after it makes no difference.\<close>

lemma keep_last_refresh:
  assumes "distinct xs"
  shows "keep_last n (filter (\<lambda>y. y \<noteq> x) (keep_last n xs) @ [x]) = keep_last n (filter (\<lambda>y. y \<noteq> x) xs @ [x])"
proof (cases "length xs \<le> n")
  case False
  let ?k = "length xs - n"
  have xs: "xs = take ?k xs @ drop ?k xs" by simp
  have len: "length (drop ?k xs) = n" using False by simp
  show ?thesis
  proof (cases "x \<in> set (take ?k xs)")
    case True
    then have "x \<notin> set (drop ?k xs)" using assms xs by (metis disjoint_iff distinct_append)
    then have d: "filter (\<lambda>y. y \<noteq> x) (drop ?k xs) = drop ?k xs" by (rule filter_neq_absent)
    have "filter (\<lambda>y. y \<noteq> x) xs = filter (\<lambda>y. y \<noteq> x) (take ?k xs) @ drop ?k xs"
      by (subst xs) (simp only: filter_append d)
    with d len show ?thesis by (simp add: keep_last_def)
  next
    case out: False
    then have t: "filter (\<lambda>y. y \<noteq> x) (take ?k xs) = take ?k xs" by (rule filter_neq_absent)
    have f: "filter (\<lambda>y. y \<noteq> x) xs = take ?k xs @ filter (\<lambda>y. y \<noteq> x) (drop ?k xs)"
      by (subst xs) (simp only: filter_append t)
    have "length (filter (\<lambda>y. y \<noteq> x) (drop ?k xs)) = (if x \<in> set (drop ?k xs) then n - 1 else n)"
      using length_filter_neq [of "drop ?k xs" x] assms len by (metis distinct_drop)
    moreover have "x \<in> set (drop ?k xs) \<Longrightarrow> 0 < n" using len by (cases n) auto
    ultimately show ?thesis using False by (cases "x \<in> set (drop ?k xs)") (auto simp: keep_last_def f)
  qed
qed (simp add: keep_last_small)

definition feed_ok :: "'v event_envelope list \<Rightarrow> 'v security_runtime \<Rightarrow> bool" where
  "feed_ok es rt \<longleftrightarrow>
     sr_correlation_order rt = keep_last MAX_CORRELATION_REFS (map ev_correlation_id (latest_events es)) \<and>
     (\<forall>e\<in>set (keep_last MAX_CORRELATION_REFS (latest_events es)).
        bm_get (sr_correlations rt) (ev_correlation_id e) = Some \<lparr>cr_event_id = ev_event_id e, cr_sequence = ev_sequence e\<rparr>)"

lemma feed_ok_queued:
  assumes "feed_ok es rt" "registry_after e rt rt'"
  shows "feed_ok (es @ [e]) rt'"
proof -
  let ?n = MAX_CORRELATION_REFS and ?cid = "ev_correlation_id e"
  have m: "map ev_correlation_id (filter (\<lambda>x. ev_correlation_id x \<noteq> ?cid) l) =
      filter (\<lambda>i. i \<noteq> ?cid) (map ev_correlation_id l)" for l :: "'a event_envelope list"
    by (simp add: filter_map comp_def)
  have order: "sr_correlation_order rt' = keep_last ?n (map ev_correlation_id (latest_events (es @ [e])))"
    using assms keep_last_refresh [OF latest_distinct, of ?n ?cid es]
    by (simp add: registry_after_def order_after_def feed_ok_def latest_snoc m)
  moreover have "bm_get (sr_correlations rt') (ev_correlation_id x) = Some \<lparr>cr_event_id = ev_event_id x, cr_sequence = ev_sequence x\<rparr>"
    if x: "x \<in> set (keep_last ?n (latest_events (es @ [e])))" for x
  proof (cases "x = e")
    case False
    have "x \<in> set (latest_events (es @ [e]))" using set_keep_last x by (rule subsetD)
    with False have x1: "x \<in> set (latest_events es)" "ev_correlation_id x \<noteq> ?cid" by (auto simp: latest_snoc)
    have in': "ev_correlation_id x \<in> set (sr_correlation_order rt')" using x by (simp add: order keep_last_map)
    then have same: "bm_get (sr_correlations rt') (ev_correlation_id x) = bm_get (sr_correlations rt) (ev_correlation_id x)"
      using assms(2) x1(2) by (simp add: registry_after_def)
    have "ev_correlation_id x \<in> set (keep_last ?n (filter (\<lambda>i. i \<noteq> ?cid) (sr_correlation_order rt) @ [?cid]))"
      using in' assms(2) by (simp add: registry_after_def order_after_def)
    with set_keep_last have "ev_correlation_id x \<in> set (filter (\<lambda>i. i \<noteq> ?cid) (sr_correlation_order rt) @ [?cid])"
      by (rule subsetD)
    then have "ev_correlation_id x \<in> set (sr_correlation_order rt)" using x1(2) by simp
    then obtain y where y: "y \<in> set (keep_last ?n (latest_events es))" "ev_correlation_id y = ev_correlation_id x"
      using assms(1) by (auto simp: feed_ok_def keep_last_map)
    have "y \<in> set (latest_events es)" using set_keep_last y(1) by (rule subsetD)
    with y(2) x1(1) latest_distinct [of es] have "y = x" by (auto simp: distinct_map dest: inj_onD)
    with y(1) same assms(1) show ?thesis by (simp add: feed_ok_def)
  next
    case True
    have "?cid \<in> set (sr_correlation_order rt')" using x True by (simp add: order keep_last_map)
    then show ?thesis using assms(2) True by (simp add: registry_after_def)
  qed
  ultimately show ?thesis by (simp add: feed_ok_def)
qed

lemma run_feed_ok:
  assumes "rt_inv rt" "rt_run js ops rt = Some (obs, rt')" "\<forall>op\<in>set ops. rt_op_in_range op" "feed_ok es rt"
  shows "feed_ok (es @ queued_events js ops obs) rt'"
  using assms
proof (induction ops arbitrary: rt obs es)
  case (Cons op ops)
  obtain ob rt1 obs1 where x: "rt_exec js op rt = Some (ob, rt1)" "rt_run js ops rt1 = Some (obs1, rt')" "obs = ob # obs1"
    using Cons.prems(2) by (rule rt_run_Cons)
  have inv1: "rt_inv rt1" using rt_exec_total [OF Cons.prems(1), of op js] Cons.prems(3) x(1) by auto
  have q: "queued_events js (op # ops) obs =
      (case queued_event js (op, ob) of None \<Rightarrow> [] | Some e \<Rightarrow> [e]) @ queued_events js ops obs1"
    by (simp add: queued_events_def x(3) List.map_filter_simps split: option.splits)
  have "feed_ok (es @ (case queued_event js (op, ob) of None \<Rightarrow> [] | Some e \<Rightarrow> [e])) rt1"
  proof (cases "is_admit op")
    case True
    then obtain raw now where op: "op = RO_Admit raw now" by (cases op) auto
    obtain r where r: "ob = Some r" "admit_post js raw now rt r rt1"
      using Cons.prems(1) x(1) unfolding op by (rule rt_exec_admit)
    show ?thesis
    proof (cases "r = Inr AD_Queued")
      case True
      with r(2) obtain e where e: "passed_gates js raw (sr_config rt) e" "registry_after e rt rt1"
        by (auto simp: admit_post_def)
      with feed_ok_queued [OF Cons.prems(4) e(2)] True r(1) show ?thesis
        by (simp add: queued_event_def op passed_gates_def)
    next
      case False
      then have "queued_event js (op, ob) = None"
        by (auto simp: queued_event_def op r(1) split: sum.splits admit_decision.splits)
      with False r(2) Cons.prems(4) show ?thesis by (simp add: admit_post_def same_content_def feed_ok_def)
    qed
  next
    case False
    then have "queued_event js (op, ob) = None" by (cases op) (simp_all add: queued_event_def)
    with rt_exec_other [OF False x(1)] Cons.prems(4) show ?thesis by (simp add: feed_ok_def)
  qed
  from Cons.IH [OF inv1 x(2) _ this] Cons.prems(3) show ?case by (simp add: q)
qed (simp add: queued_events_def List.map_filter_simps)

lemma feed_recent:
  assumes "feed_ok es rt"
  shows "recent_correlations limit rt = take limit (take 128 (rev (map entry_of (latest_events es))))"
proof -
  let ?l = "keep_last MAX_CORRELATION_REFS (latest_events es)"
  have "recent_correlations limit rt = List.map_filter (\<lambda>i. map_option
         (\<lambda>r. \<lparr>ce_correlation_id = i, ce_event_id = cr_event_id r, ce_sequence = cr_sequence r\<rparr>)
         (bm_get (sr_correlations rt) i)) (map ev_correlation_id (take limit (rev ?l)))"
    using assms by (simp add: recent_correlations_def feed_ok_def keep_last_map rev_map take_map)
  also have "\<dots> = map entry_of (take limit (rev ?l))"
  proof -
    have "\<forall>e\<in>set (take limit (rev ?l)). bm_get (sr_correlations rt) (ev_correlation_id e) =
        Some \<lparr>cr_event_id = ev_event_id e, cr_sequence = ev_sequence e\<rparr>"
      using assms set_take_subset [of limit "rev ?l"] by (auto simp: feed_ok_def)
    then show ?thesis
      by (induction "take limit (rev ?l)") (simp_all add: List.map_filter_def entry_of_def)
  qed
  also have "rev ?l = take 128 (rev (latest_events es))"
    by (cases "length (latest_events es) \<le> 128") (simp_all add: keep_last_def rev_drop MAX_CORRELATION_REFS_def)
  finally show ?thesis by (simp add: take_map rev_map)
qed

text \<open>
  The correlation feed is exact: after any operations on a fresh runtime it lists, newest first, the
  last admitted event of each correlation id, for the 128 ids admitted most recently and at most as many
  as asked for. Eviction and re-admission never reorder, duplicate or misattribute an entry.
\<close>

theorem correlation_feed_is_exact:
  assumes "rt_init rt" "rt_run js ops rt = Some (obs, rt')" "\<forall>op\<in>set ops. rt_op_in_range op"
  shows "recent_correlations limit rt' =
           take limit (take 128 (rev (map entry_of (latest_events (queued_events js ops obs)))))"
proof -
  have "feed_ok [] rt"
    using assms(1) by (auto simp: rt_init_def security_runtime_new_def rust_simps feed_ok_def keep_last_def)
  from run_feed_ok [OF rt_inv_init [OF assms(1)] assms(2,3) this] show ?thesis by (simp add: feed_recent)
qed

lemma correlation_feed_is_exact_witness:
  "\<exists>obs rt'. rt_run demo_json [RO_Admit ''{'' 5] demo_runtime = Some (obs, rt') \<and>
     recent_correlations 9 rt' = [\<lparr>ce_correlation_id = ''corr-1'', ce_event_id = ''evt-1'', ce_sequence = 7\<rparr>]"
proof -
  let ?ops = "[RO_Admit ''{'' 5]"
  obtain rt' where r: "rt_run demo_json ?ops demo_runtime = Some ([Some (Inr AD_Queued)], rt')"
    using demo_admitted by auto
  have "queued_events demo_json ?ops [Some (Inr AD_Queued)] = [demo_event]"
    by (simp add: queued_events_def queued_event_def demo_json_def List.map_filter_simps)
  with correlation_feed_is_exact [OF demo_runtime_init r, of 9] r show ?thesis
    by (auto simp: entry_of_def demo_event_def)
qed

end
