(* ===== verification/Std_Lib.thy ===== *)
theory Std_Lib
  imports Redaction "HOL-Library.Word"
begin

unbundle bit_operations_syntax

text \<open>
  Functions of the Rust standard library that several components use: white space, words and character
  boundaries of UTF-8 strings, path pieces, byte orders, hexadecimal, stable sorting, the least element
  of an iterator and the FNV hash loop.
\<close>

section \<open>Strings\<close>

text \<open>The number of bytes of the white-space code point a string starts with, or 0.\<close>

definition ws_len :: "string \<Rightarrow> nat" where
  "ws_len s =
     (if s \<noteq> [] \<and> trim_is_empty (take 1 s) then 1
      else if 2 \<le> length s \<and> trim_is_empty (take 2 s) then 2
      else if 3 \<le> length s \<and> trim_is_empty (take 3 s) then 3
      else 0)"

text \<open>\<open>str::split_whitespace\<close>; \<open>cur\<close> is the word being read, reversed.\<close>

function split_ws :: "string \<Rightarrow> string \<Rightarrow> string list" where
  "split_ws cur [] = (if cur = [] then [] else [rev cur])"
| "split_ws cur (c # s) =
     (let n = ws_len (c # s) in
      if n = 0 then split_ws (c # cur) s
      else (if cur = [] then [] else [rev cur]) @ split_ws [] (drop n (c # s)))"
  by pat_completeness auto
termination
  by (relation "measure (\<lambda>(cur, s). length s)") auto

fun join_words :: "string list \<Rightarrow> string" where
  "join_words [] = []"
| "join_words [w] = w"
| "join_words (w # ws) = w @ '' '' @ join_words ws"

definition is_char_boundary :: "string \<Rightarrow> nat \<Rightarrow> bool" where
  "is_char_boundary s i \<longleftrightarrow>
     i = 0 \<or> i = length s \<or>
     (i < length s \<and> \<not> (128 \<le> (of_char (s ! i) :: nat) \<and> (of_char (s ! i) :: nat) < 192))"

fun back_to_boundary :: "string \<Rightarrow> nat \<Rightarrow> nat" where
  "back_to_boundary s 0 = 0"
| "back_to_boundary s (Suc i) = (if is_char_boundary s (Suc i) then Suc i else back_to_boundary s i)"

text \<open>\<open>str::trim\<close>\<close>

function trim_start :: "string \<Rightarrow> string" where
  "trim_start s = (if ws_len s = 0 then s else trim_start (drop (ws_len s) s))"
  by pat_completeness auto
termination
  by (relation "measure length") (auto simp: ws_len_def split: if_splits)

declare trim_start.simps [simp del]

text \<open>The number of bytes of the white-space code point a string ends with, or 0.\<close>

definition ws_len_end :: "string \<Rightarrow> nat" where
  "ws_len_end s =
     (let n = length s in
      if 1 \<le> n \<and> trim_is_empty (drop (n - 1) s) then 1
      else if 2 \<le> n \<and> trim_is_empty (drop (n - 2) s) then 2
      else if 3 \<le> n \<and> trim_is_empty (drop (n - 3) s) then 3
      else 0)"

function trim_end :: "string \<Rightarrow> string" where
  "trim_end s = (if ws_len_end s = 0 then s else trim_end (take (length s - ws_len_end s) s))"
  by pat_completeness auto
termination
  by (relation "measure length") (auto simp: ws_len_end_def Let_def split: if_splits)

declare trim_end.simps [simp del]

definition str_trim :: "string \<Rightarrow> string" where
  "str_trim s = trim_end (trim_start s)"

text \<open>\<open>Path::components\<close> on Unix: the pieces between slashes.\<close>

fun split_slash :: "string \<Rightarrow> string list" where
  "split_slash [] = [[]]"
| "split_slash (c # s) =
     (if c = CHR ''/'' then [] # split_slash s
      else case split_slash s of [] \<Rightarrow> [[c]] | p # ps \<Rightarrow> (c # p) # ps)"

section \<open>Bytes\<close>

text \<open>\<open>(value.len() as u64).to_be_bytes()\<close>\<close>

definition be_bytes :: "u64 \<Rightarrow> string" where
  "be_bytes n = map (\<lambda>i. char_of (n div 256 ^ i mod 256)) [7, 6, 5, 4, 3, 2, 1, 0]"

definition le_bytes :: "u64 \<Rightarrow> string" where
  "le_bytes n = rev (be_bytes n)"

definition hex_digit :: "nat \<Rightarrow> char" where
  "hex_digit d = char_of (if d < 10 then 48 + d else 87 + d)"

definition hex_encode :: "string \<Rightarrow> string" where
  "hex_encode bs = concat (map (\<lambda>c. let b = of_char c :: nat in [hex_digit (b div 16), hex_digit (b mod 16)]) bs)"

lemma digits_eq: "(\<And>i. i < k \<Longrightarrow> n div b ^ i mod b = n' div b ^ i mod b) \<Longrightarrow> n mod b ^ k = n' mod (b :: nat) ^ k"
proof (induction k)
  case (Suc k)
  have "n mod b ^ Suc k = b ^ k * (n div b ^ k mod b) + n mod b ^ k" for n
    using mod_mult2_eq [of n "b ^ k" b] by (simp add: mult.commute)
  with Suc show ?case by simp
qed simp

lemma be_bytes_inj: "n < 2 ^ 64 \<Longrightarrow> n' < 2 ^ 64 \<Longrightarrow> be_bytes n = be_bytes n' \<longleftrightarrow> n = n'"
proof
  assume n: "n < 2 ^ 64" "n' < 2 ^ 64" and eq: "be_bytes n = be_bytes n'"
  have "n div 256 ^ i mod 256 = n' div 256 ^ i mod 256" if "i < 8" for i
  proof -
    have "i \<in> set [7, 6, 5, 4, 3, 2, 1, 0]" using that by simp presburger
    with eq have "char_of (n div 256 ^ i mod 256) = (char_of (n' div 256 ^ i mod 256) :: char)"
      unfolding be_bytes_def map_eq_conv by (rule bspec)
    then show ?thesis by (metis mod_mod_trivial of_char_of)
  qed
  then have "n mod 256 ^ 8 = n' mod 256 ^ 8" by (rule digits_eq)
  moreover have "n < 256 ^ 8" "n' < 256 ^ 8" using n by simp_all
  ultimately show "n = n'" by simp
qed simp

lemma length_be_bytes [simp]: "length (be_bytes n) = 8"
  by (simp add: be_bytes_def)

lemma hex_digit_inj: "a < 16 \<Longrightarrow> b < 16 \<Longrightarrow> hex_digit a = hex_digit b \<longleftrightarrow> a = b"
proof -
  have "list_all (\<lambda>a. list_all (\<lambda>b. hex_digit a = hex_digit b \<longleftrightarrow> a = b) [0..<16]) [0..<16]" by code_simp
  then show "a < 16 \<Longrightarrow> b < 16 \<Longrightarrow> hex_digit a = hex_digit b \<longleftrightarrow> a = b" by (simp add: list_all_iff)
qed

lemma hex_encode_inj: "hex_encode s = hex_encode s' \<longleftrightarrow> s = s'"
proof
  show "hex_encode s = hex_encode s' \<Longrightarrow> s = s'"
  proof (induction s arbitrary: s')
    case Nil
    then show ?case by (cases s') (simp_all add: hex_encode_def Let_def)
  next
    case (Cons c s)
    then obtain c' t where s': "s' = c' # t" by (cases s') (simp_all add: hex_encode_def Let_def)
    have b: "(of_char c :: nat) div 16 < 16" "(of_char c' :: nat) div 16 < 16"
      by (simp_all add: div_less_iff_less_mult)
    from Cons(2) have "of_char c div 16 = (of_char c' div 16 :: nat)" "of_char c mod 16 = (of_char c' mod 16 :: nat)"
      "hex_encode s = hex_encode t"
      using b by (simp_all add: s' hex_encode_def Let_def hex_digit_inj)
    then have "of_char c = (of_char c' :: nat)" by (metis div_mult_mod_eq)
    with Cons(1) [OF \<open>hex_encode s = hex_encode t\<close>] s' show ?case by simp
  qed
qed simp

section \<open>Sorting\<close>

text \<open>\<open>sort_by\<close> is a stable sort; \<open>lt\<close> says that its first argument has to come before the second.\<close>

fun insert_by :: "('a \<Rightarrow> 'a \<Rightarrow> bool) \<Rightarrow> 'a \<Rightarrow> 'a list \<Rightarrow> 'a list" where
  "insert_by lt x [] = [x]"
| "insert_by lt x (y # ys) = (if lt y x then y # insert_by lt x ys else x # y # ys)"

definition sort_by :: "('a \<Rightarrow> 'a \<Rightarrow> bool) \<Rightarrow> 'a list \<Rightarrow> 'a list" where
  "sort_by lt xs = foldr (insert_by lt) xs []"

lemma mset_insert_by [simp]: "mset (insert_by lt x xs) = add_mset x (mset xs)"
  by (induction xs) auto

lemma mset_sort_by [simp]: "mset (sort_by lt xs) = mset xs"
  unfolding sort_by_def by (induction xs) auto

lemma set_sort_by [simp]: "set (sort_by lt xs) = set xs"
  by (metis mset_sort_by set_mset_mset)

lemma length_sort_by [simp]: "length (sort_by lt xs) = length xs"
  by (metis mset_sort_by size_mset)

lemma sort_by_Nil [simp]: "sort_by lt [] = []"
  by (simp add: sort_by_def)

text \<open>
  What a comparator has to promise: it is asymmetric, and being not before is transitive. Sorting by it
  then sorts, commutes with filters, and its first elements are the best ones.
\<close>

definition best_first :: "('a \<Rightarrow> 'a \<Rightarrow> bool) \<Rightarrow> nat \<Rightarrow> 'a list \<Rightarrow> 'a list \<Rightarrow> bool" where
  "best_first lt n all out \<longleftrightarrow>
     length out = min n (length all) \<and>
     (\<exists>rest. mset (out @ rest) = mset all \<and> sorted_wrt (\<lambda>a b. \<not> lt b a) (out @ rest))"

locale comparator =
  fixes lt :: "'a \<Rightarrow> 'a \<Rightarrow> bool"
  assumes asym: "lt x y \<Longrightarrow> \<not> lt y x"
    and neg_trans: "\<not> lt y x \<Longrightarrow> \<not> lt z y \<Longrightarrow> \<not> lt z x"
begin

lemma not_before_head:
  "\<not> lt y x \<Longrightarrow> sorted_wrt (\<lambda>a b. \<not> lt b a) (y # ys) \<Longrightarrow> z \<in> set (y # ys) \<Longrightarrow> \<not> lt z x"
  using neg_trans [of y x z] by auto

lemma sorted_insert:
  "sorted_wrt (\<lambda>a b. \<not> lt b a) ys \<Longrightarrow> sorted_wrt (\<lambda>a b. \<not> lt b a) (insert_by lt x ys)"
proof (induction ys)
  case (Cons y ys)
  have ins: "set (insert_by lt x ys) = insert x (set ys)" for ys by (induction ys) auto
  show ?case
  proof (cases "lt y x")
    case True
    with Cons asym [OF True] show ?thesis by (simp add: ins)
  next
    case False
    with not_before_head [OF False Cons(2)] Cons(2) show ?thesis by simp
  qed
qed simp

lemma sorted_sort: "sorted_wrt (\<lambda>a b. \<not> lt b a) (sort_by lt xs)"
  unfolding sort_by_def by (induction xs) (simp_all add: sorted_insert)

lemma filter_insert:
  "sorted_wrt (\<lambda>a b. \<not> lt b a) ys \<Longrightarrow>
    filter P (insert_by lt x ys) = (if P x then insert_by lt x (filter P ys) else filter P ys)"
proof (induction ys)
  case (Cons y ys)
  show ?case
  proof (cases "lt y x")
    case True
    with Cons show ?thesis by simp
  next
    case False
    have "insert_by lt x zs = x # zs" if "set zs \<subseteq> set (y # ys)" for zs
      using that not_before_head [OF False Cons(2)] by (cases zs) auto
    moreover have "set (filter P (y # ys)) \<subseteq> set (y # ys)" by auto
    ultimately have "insert_by lt x (filter P (y # ys)) = x # filter P (y # ys)" by blast
    with False show ?thesis by (simp only: insert_by.simps if_False filter.simps)
  qed
qed simp

lemma filter_sort: "filter P (sort_by lt xs) = sort_by lt (filter P xs)"
proof (induction xs)
  case (Cons x xs)
  have "filter P (sort_by lt (x # xs)) = filter P (insert_by lt x (sort_by lt xs))" by (simp add: sort_by_def)
  also have "\<dots> = (if P x then insert_by lt x (filter P (sort_by lt xs)) else filter P (sort_by lt xs))"
    by (rule filter_insert [OF sorted_sort])
  finally show ?case by (simp add: Cons) (simp add: sort_by_def)
qed simp

lemma best_first_sort:
  assumes "\<And>x. g (f x) = x"
  shows "best_first (\<lambda>x y. lt (f x) (f y)) n xs (map g (take n (sort_by lt (map f xs))))"
proof -
  let ?s = "sort_by lt (map f xs)"
  have m: "mset (map g ?s) = mset xs" using assms by (simp add: image_mset.compositionality o_def)
  have "\<forall>y\<in>set ?s. f (g y) = y" using assms by auto
  with sorted_sort [of "map f xs"] have "sorted_wrt (\<lambda>a b. \<not> lt (f b) (f a)) (map g ?s)"
    unfolding sorted_wrt_map by (rule_tac sorted_wrt_mono_rel) auto
  then have "mset (map g (take n ?s) @ map g (drop n ?s)) = mset xs \<and>
      sorted_wrt (\<lambda>a b. \<not> lt (f b) (f a)) (map g (take n ?s) @ map g (drop n ?s))"
    unfolding map_append [symmetric] append_take_drop_id using m by blast
  moreover have "length (map g (take n ?s)) = min n (length xs)" by (simp add: min_def)
  ultimately show ?thesis unfolding best_first_def by blast
qed

end

text \<open>\<open>Iterator::min_by\<close> on a non-empty sequence: the first of the least elements.\<close>

fun least_by :: "('a \<Rightarrow> 'a \<Rightarrow> bool) \<Rightarrow> 'a \<Rightarrow> 'a list \<Rightarrow> 'a" where
  "least_by lt x [] = x"
| "least_by lt x (y # ys) = least_by lt (if lt y x then y else x) ys"

lemma least_by_in: "least_by lt x ys \<in> insert x (set ys)"
  by (induction lt x ys rule: least_by.induct) auto

section \<open>FNV-1a\<close>

text \<open>The 64-bit FNV-1a loop over the little-endian seed and a name.\<close>

definition fnv_step :: "64 word \<Rightarrow> char \<Rightarrow> 64 word" where
  "fnv_step h c = (h XOR of_nat (of_char c)) * 0x100000001b3"

end
