(* ===== verification/Asset_Model.thy ===== *)
theory Asset_Model
  imports Std_Lib Float64
begin

text \<open>
  Performance assets (\<open>crates/asset-store/src/lib.rs\<close>): the descriptor, its validation, the compatibility
  check against the runtime and the stable identity. Strings are UTF-8 bytes; the JSON reader and
  writer and the \<open>Debug\<close> quoting of a string are parameters (\<open>asset_lib\<close>).
\<close>

section \<open>The descriptor\<close>

datatype cache_tier = CT_Memory | CT_LocalStorage | CT_Generated

datatype asset_class = ACl_Filler | ACl_Reaction | ACl_Phrase | ACl_Template | ACl_Dynamic

datatype gaze_target = GT_Camera | GT_Chat | GT_Game | GT_Speaker | GT_Away

record speech_track =
  sp_text :: "string option"
  sp_audio_ref :: "string option"
  sp_duration_ms :: "u64 option"
  sp_viseme_ref :: "string option"

record expression_track =
  ex_preset :: string
  ex_intensity :: f64

record gesture_track =
  gs_preset :: string
  gs_amplitude :: "f64 option"

record 'v timeline_event =
  te_at_ms :: u64
  te_event :: string
  te_payload :: "'v option"

record variation_spec =
  vs_speed_pct :: "f64 option"
  vs_amplitude_pct :: "f64 option"
  vs_start_delay_ms :: "u64 option"

record asset_compatibility =
  cm_compiler_version :: string
  cm_voice_model :: "string option"
  cm_avatar_profile :: "string option"
  cm_viseme_mapping :: "string option"
  cm_motion_library :: "string option"

text \<open>The vector components are \<open>f32\<close>; every \<open>f32\<close> is an \<open>f64\<close>.\<close>

record semantic_embedding =
  se_model :: string
  se_model_version :: string
  se_vector :: "f64 list"

definition model_key :: "semantic_embedding \<Rightarrow> string" where
  "model_key e = se_model e @ ''@'' @ se_model_version e"

record provenance =
  pv_generated :: "bool option"
  pv_generator :: "string option"
  pv_created_at :: "string option"
  pv_thinking_backend :: "string option"
  pv_thinking_model_alias :: "string option"
  pv_thinking_model_version :: "string option"
  pv_tts_backend :: "string option"
  pv_tts_model_alias :: "string option"
  pv_tts_model_version :: "string option"
  pv_routing_reason :: "string option"

record 'v performance_asset =
  pa_schema_version :: string
  pa_id :: string
  pa_intent :: string
  pa_class :: asset_class
  pa_variant_group :: "string option"
  pa_speech :: "speech_track option"
  pa_expression :: "expression_track option"
  pa_gesture :: "gesture_track option"
  pa_gaze :: "gaze_target option"
  pa_timeline :: "'v timeline_event list"
  pa_interrupt_points_ms :: "u64 list"
  pa_variation :: "variation_spec option"
  pa_compatibility :: asset_compatibility
  pa_semantic_embedding :: "semantic_embedding option"
  pa_provenance :: "provenance option"

definition PERFORMANCE_ASSET_SCHEMA_VERSION :: string where
  "PERFORMANCE_ASSET_SCHEMA_VERSION = ''0.1.0''"

definition MAX_SEMANTIC_EMBEDDING_DIMENSIONS :: nat where
  "MAX_SEMANTIC_EMBEDDING_DIMENSIONS = 4096"

section \<open>Validation\<close>

record validation_issue =
  vi_field :: string
  vi_message :: string

definition issue :: "string \<Rightarrow> string \<Rightarrow> validation_issue" where
  "issue field message = \<lparr>vi_field = field, vi_message = message\<rparr>"

definition is_id_byte :: "char \<Rightarrow> bool" where
  "is_id_byte c \<longleftrightarrow>
     (let b = of_char c :: nat in 97 \<le> b \<and> b \<le> 122 \<or> 48 \<le> b \<and> b \<le> 57 \<or> b = 46 \<or> b = 95 \<or> b = 45)"

definition is_id_first :: "char \<Rightarrow> bool" where
  "is_id_first c \<longleftrightarrow> (let b = of_char c :: nat in 97 \<le> b \<and> b \<le> 122 \<or> 48 \<le> b \<and> b \<le> 57)"

definition is_valid_asset_id :: "string \<Rightarrow> bool" where
  "is_valid_asset_id i \<longleftrightarrow>
     (if length i < 3 \<or> 128 < length i then False
      else case i of [] \<Rightarrow> False | c # _ \<Rightarrow> is_id_first c \<and> list_all is_id_byte i)"

text \<open>The bounds are whole numbers, so \<open>Display\<close> prints them as integers.\<close>

definition validate_number_range :: "string \<Rightarrow> f64 \<Rightarrow> nat \<Rightarrow> nat \<Rightarrow> validation_issue list" where
  "validate_number_range field v lo hi =
     (if \<not> f64_is_finite v \<or> \<not> (f64_le (f64_of_nat lo) v \<and> f64_le v (f64_of_nat hi))
      then [issue field (''must be a finite number between '' @ show_nat lo @ '' and '' @ show_nat hi)] else [])"

definition validate_optional_nonempty :: "string \<Rightarrow> string option \<Rightarrow> validation_issue list" where
  "validate_optional_nonempty field v =
     (case v of None \<Rightarrow> [] | Some s \<Rightarrow> if trim_is_empty s then [issue field ''must not be empty when present''] else [])"

definition validate_media_ref :: "string \<Rightarrow> string \<Rightarrow> validation_issue list" where
  "validate_media_ref field value =
     (let v = str_trim value in
      if v = [] then [issue field ''must not be empty'']
      else if starts_with ''data:'' (to_ascii_lowercase v)
      then [issue field ''embedded data URIs are forbidden; binary media must remain external'']
      else if str_contains v ''://'' then []
      else
        (if starts_with ''/'' v \<or> (2 \<le> length v \<and> v ! 1 = CHR '':'')
         then [issue field ''local media references must be relative paths''] else []) @
        (if List.member (split_slash v) ''..''
         then [issue field ''local media references must not escape the asset root''] else []))"

definition speech_issues :: "speech_track \<Rightarrow> validation_issue list" where
  "speech_issues s =
     validate_optional_nonempty ''speech.text'' (sp_text s) @
     (case sp_audio_ref s of None \<Rightarrow> []
      | Some r \<Rightarrow> validate_media_ref ''speech.audio_ref'' r @
          (if sp_duration_ms s = None
           then [issue ''speech.duration_ms'' ''is required when speech.audio_ref is present''] else [])) @
     (case sp_viseme_ref s of None \<Rightarrow> []
      | Some r \<Rightarrow> validate_media_ref ''speech.viseme_ref'' r @
          (if sp_audio_ref s = None then [issue ''speech.viseme_ref'' ''requires speech.audio_ref''] else []))"

definition expression_issues :: "expression_track \<Rightarrow> validation_issue list" where
  "expression_issues e =
     (if trim_is_empty (ex_preset e) then [issue ''expression.preset'' ''must not be empty''] else []) @
     validate_number_range ''expression.intensity'' (ex_intensity e) 0 1"

definition gesture_issues :: "gesture_track \<Rightarrow> validation_issue list" where
  "gesture_issues g =
     (if trim_is_empty (gs_preset g) then [issue ''gesture.preset'' ''must not be empty''] else []) @
     (case gs_amplitude g of None \<Rightarrow> [] | Some a \<Rightarrow> validate_number_range ''gesture.amplitude'' a 0 2)"

definition indexed_field :: "string \<Rightarrow> nat \<Rightarrow> string" where
  "indexed_field name i = name @ ''['' @ show_nat i @ '']''"

fun timeline_issues :: "nat \<Rightarrow> u64 option \<Rightarrow> 'v timeline_event list \<Rightarrow> validation_issue list" where
  "timeline_issues i prev [] = []"
| "timeline_issues i prev (e # es) =
     (if trim_is_empty (te_event e) then [issue (indexed_field ''timeline'' i @ ''.event'') ''must not be empty''] else []) @
     (case prev of None \<Rightarrow> []
      | Some p \<Rightarrow> if te_at_ms e < p
          then [issue (indexed_field ''timeline'' i @ ''.at_ms'') ''timeline must be monotonic non-decreasing''] else []) @
     timeline_issues (i + 1) (Some (te_at_ms e)) es"

fun interrupt_issues :: "nat \<Rightarrow> u64 set \<Rightarrow> u64 option \<Rightarrow> u64 option \<Rightarrow> u64 list \<Rightarrow> validation_issue list" where
  "interrupt_issues i seen prev dur [] = []"
| "interrupt_issues i seen prev dur (p # ps) =
     (if p \<in> seen then [issue (indexed_field ''interrupt_points_ms'' i) ''duplicate interrupt point''] else []) @
     (case prev of None \<Rightarrow> []
      | Some q \<Rightarrow> if p \<le> q
          then [issue (indexed_field ''interrupt_points_ms'' i) ''interrupt points must be strictly increasing''] else []) @
     (case dur of None \<Rightarrow> []
      | Some d \<Rightarrow> if d < p
          then [issue (indexed_field ''interrupt_points_ms'' i)
                  (''interrupt point '' @ show_nat p @ ''ms exceeds speech duration '' @ show_nat d @ ''ms'')] else []) @
     interrupt_issues (i + 1) (insert p seen) (Some p) dur ps"

definition variation_issues :: "variation_spec \<Rightarrow> validation_issue list" where
  "variation_issues v =
     (case vs_speed_pct v of None \<Rightarrow> [] | Some x \<Rightarrow> validate_number_range ''variation.speed_pct'' x 0 25) @
     (case vs_amplitude_pct v of None \<Rightarrow> [] | Some x \<Rightarrow> validate_number_range ''variation.amplitude_pct'' x 0 25) @
     (case vs_start_delay_ms v of None \<Rightarrow> []
      | Some x \<Rightarrow> if 500 < x then [issue ''variation.start_delay_ms'' ''must be between 0 and 500''] else [])"

definition compatibility_issues :: "asset_compatibility \<Rightarrow> validation_issue list" where
  "compatibility_issues c =
     (if trim_is_empty (cm_compiler_version c) then [issue ''compatibility.compiler_version'' ''must not be empty''] else []) @
     validate_optional_nonempty ''compatibility.voice_model'' (cm_voice_model c) @
     validate_optional_nonempty ''compatibility.avatar_profile'' (cm_avatar_profile c) @
     validate_optional_nonempty ''compatibility.viseme_mapping'' (cm_viseme_mapping c) @
     validate_optional_nonempty ''compatibility.motion_library'' (cm_motion_library c)"

definition provenance_issues :: "provenance \<Rightarrow> validation_issue list" where
  "provenance_issues p =
     validate_optional_nonempty ''provenance.generator'' (pv_generator p) @
     validate_optional_nonempty ''provenance.thinking_backend'' (pv_thinking_backend p) @
     validate_optional_nonempty ''provenance.tts_backend'' (pv_tts_backend p) @
     validate_optional_nonempty ''provenance.routing_reason'' (pv_routing_reason p) @
     (if pv_generated p = Some True
      then concat (map (\<lambda>(field, v). if v = None then [issue field ''is required when provenance.generated is true''] else [])
        [(''provenance.generator'', pv_generator p), (''provenance.created_at'', pv_created_at p),
         (''provenance.thinking_backend'', pv_thinking_backend p), (''provenance.tts_backend'', pv_tts_backend p),
         (''provenance.routing_reason'', pv_routing_reason p)])
      else [])"

definition norm_squared :: "f64 list \<Rightarrow> f64" where
  "norm_squared xs = fold (\<lambda>x acc. f64_add acc (f64_mul x x)) xs (Fin 0)"

definition embedding_issues :: "semantic_embedding \<Rightarrow> validation_issue list" where
  "embedding_issues e =
     (if trim_is_empty (se_model e) then [issue ''semantic_embedding.model'' ''must not be empty''] else []) @
     (if trim_is_empty (se_model_version e) then [issue ''semantic_embedding.model_version'' ''must not be empty''] else []) @
     (if se_vector e = [] \<or> MAX_SEMANTIC_EMBEDDING_DIMENSIONS < length (se_vector e)
      then [issue ''semantic_embedding.vector''
              (''must contain 1..='' @ show_nat MAX_SEMANTIC_EMBEDDING_DIMENSIONS @ '' dimensions'')]
      else if list_ex (\<lambda>x. \<not> f64_is_finite x) (se_vector e)
      then [issue ''semantic_embedding.vector'' ''must contain only finite values'']
      else if norm_squared (se_vector e) = Fin 0
      then [issue ''semantic_embedding.vector'' ''must have non-zero norm'']
      else [])"

definition opt_issues :: "('a \<Rightarrow> validation_issue list) \<Rightarrow> 'a option \<Rightarrow> validation_issue list" where
  "opt_issues f x = (case x of None \<Rightarrow> [] | Some y \<Rightarrow> f y)"

definition asset_issues :: "'v performance_asset \<Rightarrow> validation_issue list" where
  "asset_issues a =
     (if pa_schema_version a \<noteq> PERFORMANCE_ASSET_SCHEMA_VERSION
      then [issue ''schema_version''
              (''expected '' @ PERFORMANCE_ASSET_SCHEMA_VERSION @ '', got '' @ pa_schema_version a)] else []) @
     (if \<not> is_valid_asset_id (pa_id a) then [issue ''id'' ''must match ^[a-z0-9][a-z0-9._-]{2,127}$''] else []) @
     (if trim_is_empty (pa_intent a) then [issue ''intent'' ''must not be empty''] else []) @
     validate_optional_nonempty ''variant_group'' (pa_variant_group a) @
     opt_issues speech_issues (pa_speech a) @
     opt_issues expression_issues (pa_expression a) @
     opt_issues gesture_issues (pa_gesture a) @
     timeline_issues 0 None (pa_timeline a) @
     interrupt_issues 0 {} None (Option.bind (pa_speech a) sp_duration_ms) (pa_interrupt_points_ms a) @
     opt_issues variation_issues (pa_variation a) @
     compatibility_issues (pa_compatibility a) @
     opt_issues provenance_issues (pa_provenance a) @
     opt_issues embedding_issues (pa_semantic_embedding a)"

definition validate_asset :: "'v performance_asset \<Rightarrow> validation_issue list + unit" where
  "validate_asset a = (if asset_issues a = [] then Inr () else Inl (asset_issues a))"

text \<open>\<open>Display\<close> of a validation error.\<close>

fun issues_display :: "validation_issue list \<Rightarrow> string" where
  "issues_display [] = []"
| "issues_display [i] = vi_field i @ '': '' @ vi_message i"
| "issues_display (i # is) = vi_field i @ '': '' @ vi_message i @ ''; '' @ issues_display is"

section \<open>Compatibility\<close>

record runtime_compatibility =
  rc_compiler_version :: string
  rc_voice_model :: "string option"
  rc_avatar_profile :: "string option"
  rc_viseme_mapping :: "string option"
  rc_motion_library :: "string option"

record compatibility_mismatch =
  cmm_field :: string
  cmm_asset_requires :: string
  cmm_runtime_has :: "string option"

datatype compatibility_status = CS_Usable | CS_Incompatible "compatibility_mismatch list"

fun is_usable :: "compatibility_status \<Rightarrow> bool" where
  "is_usable CS_Usable = True"
| "is_usable (CS_Incompatible _) = False"

definition check_optional_compatibility :: "string \<Rightarrow> string option \<Rightarrow> string option \<Rightarrow> compatibility_mismatch list" where
  "check_optional_compatibility field asset runtime =
     (case asset of None \<Rightarrow> []
      | Some r \<Rightarrow> if runtime \<noteq> Some r
          then [\<lparr>cmm_field = field, cmm_asset_requires = r, cmm_runtime_has = runtime\<rparr>] else [])"

definition check_compatibility :: "asset_compatibility \<Rightarrow> runtime_compatibility \<Rightarrow> compatibility_status" where
  "check_compatibility c r =
     (let ms =
        (if cm_compiler_version c \<noteq> rc_compiler_version r
         then [\<lparr>cmm_field = ''compiler_version'', cmm_asset_requires = cm_compiler_version c,
                 cmm_runtime_has = Some (rc_compiler_version r)\<rparr>] else []) @
        check_optional_compatibility ''voice_model'' (cm_voice_model c) (rc_voice_model r) @
        check_optional_compatibility ''avatar_profile'' (cm_avatar_profile c) (rc_avatar_profile r) @
        check_optional_compatibility ''viseme_mapping'' (cm_viseme_mapping c) (rc_viseme_mapping r) @
        check_optional_compatibility ''motion_library'' (cm_motion_library c) (rc_motion_library r)
      in if ms = [] then CS_Usable else CS_Incompatible ms)"

section \<open>Identity\<close>

record asset_identity =
  ai_id :: string
  ai_schema_version :: string
  ai_compiler_version :: string
  ai_voice_model :: "string option"
  ai_avatar_profile :: "string option"
  ai_viseme_mapping :: "string option"
  ai_motion_library :: "string option"

definition identity_of :: "'v performance_asset \<Rightarrow> asset_identity" where
  "identity_of a =
     (let c = pa_compatibility a in
      \<lparr>ai_id = pa_id a, ai_schema_version = pa_schema_version a, ai_compiler_version = cm_compiler_version c,
       ai_voice_model = cm_voice_model c, ai_avatar_profile = cm_avatar_profile c,
       ai_viseme_mapping = cm_viseme_mapping c, ai_motion_library = cm_motion_library c\<rparr>)"

definition identity_component :: "string \<Rightarrow> string option \<Rightarrow> string" where
  "identity_component name v =
     name @ ''='' @ (case v of Some s \<Rightarrow> show_nat (length s) @ '':'' @ s | None \<Rightarrow> ''-'') @ ''|''"

definition stable_key :: "asset_identity \<Rightarrow> string" where
  "stable_key i =
     identity_component ''id'' (Some (ai_id i)) @ identity_component ''schema'' (Some (ai_schema_version i)) @
     identity_component ''compiler'' (Some (ai_compiler_version i)) @ identity_component ''voice'' (ai_voice_model i) @
     identity_component ''avatar'' (ai_avatar_profile i) @ identity_component ''viseme'' (ai_viseme_mapping i) @
     identity_component ''motion'' (ai_motion_library i)"

end
