(* ===== verification/Asset_Store.thy ===== *)
theory Asset_Store
  imports Asset_Model
begin

text \<open>
  The asset store (\<open>crates/asset-store/src/lib.rs\<close>): the bounded in-memory cache (L0) with its
  deterministic eviction, the index of the descriptor files (L1), promotion of a generated asset to a
  file, invalidation, resolution and variant selection. The disk is an explicit state, a map from the
  paths of regular files to their contents; every system call may fail (\<open>alb_io_error\<close>), a failing write
  may leave any part of the bytes (\<open>alb_torn\<close>).
\<close>

section \<open>The environment\<close>

type_synonym path = string
type_synonym disk = "(path, string) bmap"

datatype io_call =
  IO_ReadDir path | IO_Read path | IO_CreateDirs path | IO_Create path | IO_Write path | IO_Sync path
| IO_Rename path path | IO_Remove path

record 'v asset_lib =
  alb_parse :: "string \<Rightarrow> string + 'v performance_asset"
  alb_pretty :: "'v performance_asset \<Rightarrow> string + string"
  alb_json_len :: "'v performance_asset \<Rightarrow> nat"
  alb_debug :: "string \<Rightarrow> string"
  alb_pid :: nat
  alb_io_error :: "io_call \<Rightarrow> disk \<Rightarrow> string option"
  alb_torn :: "string \<Rightarrow> string"

definition path_join :: "path \<Rightarrow> string \<Rightarrow> path" where
  "path_join base name =
     (if starts_with ''/'' name then name
      else if base = [] \<or> last base = CHR ''/'' then base @ name
      else base @ ''/'' @ name)"

text \<open>The file name of a path under a directory, when it is directly under it.\<close>

definition child_name :: "path \<Rightarrow> path \<Rightarrow> string option" where
  "child_name base p =
     (let pre = (if base = [] \<or> last base = CHR ''/'' then base else base @ ''/''); n = drop (length pre) p
      in if starts_with pre p \<and> n \<noteq> [] \<and> CHR ''/'' \<notin> set n then Some n else None)"

text \<open>\<open>Path::extension\<close>: what follows the last dot of the name, unless that dot is its first byte.\<close>

definition extension :: "string \<Rightarrow> string option" where
  "extension name =
     (let ext = rev (takeWhile (\<lambda>c. c \<noteq> CHR ''.'') (rev name))
      in if length ext + 1 < length name then Some ext else None)"

section \<open>Errors\<close>

datatype asset_store_error =
  ASE_Io path string
| ASE_Json path string
| ASE_InvalidAsset "path option" "validation_issue list"
| ASE_DuplicateId string path path
| ASE_NotFound string
| ASE_Incompatible string "compatibility_mismatch list"
| ASE_NotGenerated string
| ASE_AlreadyPersisted string path

definition mismatch_display :: "'v asset_lib \<Rightarrow> compatibility_mismatch \<Rightarrow> string" where
  "mismatch_display lib m =
     cmm_field m @ '' requires '' @ alb_debug lib (cmm_asset_requires m) @ '', runtime has '' @
       (case cmm_runtime_has m of None \<Rightarrow> ''None'' | Some s \<Rightarrow> ''Some('' @ alb_debug lib s @ '')'')"

fun asset_store_error_display :: "'v asset_lib \<Rightarrow> asset_store_error \<Rightarrow> string" where
  "asset_store_error_display lib (ASE_Io path source) = ''I/O error at '' @ path @ '': '' @ source"
| "asset_store_error_display lib (ASE_Json path message) = ''invalid JSON asset '' @ path @ '': '' @ message"
| "asset_store_error_display lib (ASE_InvalidAsset path issues) =
     (case path of
        Some p \<Rightarrow> ''invalid Performance Asset '' @ p @ '': '' @ issues_display issues
      | None \<Rightarrow> ''invalid Performance Asset: '' @ issues_display issues)"
| "asset_store_error_display lib (ASE_DuplicateId i first second) =
     ''duplicate asset id '' @ alb_debug lib i @ '': '' @ first @ '' and '' @ second"
| "asset_store_error_display lib (ASE_NotFound i) = ''asset '' @ alb_debug lib i @ '' was not found in L0 or L1''"
| "asset_store_error_display lib (ASE_Incompatible i ms) =
     ''asset '' @ alb_debug lib i @ '' is incompatible'' @ concat (map (\<lambda>m. ''; '' @ mismatch_display lib m) ms)"
| "asset_store_error_display lib (ASE_NotGenerated i) = ''asset '' @ alb_debug lib i @ '' is not an eligible generated asset''"
| "asset_store_error_display lib (ASE_AlreadyPersisted i path) =
     ''asset '' @ alb_debug lib i @ '' already has a persisted descriptor at '' @ path"

definition is_generated :: "'v performance_asset \<Rightarrow> bool" where
  "is_generated a \<longleftrightarrow> (case pa_provenance a of None \<Rightarrow> False | Some p \<Rightarrow> pv_generated p = Some True)"

definition ensure_generated :: "'v performance_asset \<Rightarrow> asset_store_error + unit" where
  "ensure_generated a = (if is_generated a then Inr () else Inl (ASE_NotGenerated (pa_id a)))"

section \<open>Reading a descriptor\<close>

definition read_to_string :: "'v asset_lib \<Rightarrow> path \<Rightarrow> disk \<Rightarrow> string + string" where
  "read_to_string lib p d =
     (case alb_io_error lib (IO_Read p) d of
        Some e \<Rightarrow> Inl e
      | None \<Rightarrow> (case bm_get d p of None \<Rightarrow> Inl ''No such file or directory (os error 2)'' | Some s \<Rightarrow> Inr s))"

definition load_asset_file :: "'v asset_lib \<Rightarrow> path \<Rightarrow> disk \<Rightarrow> asset_store_error + 'v performance_asset" where
  "load_asset_file lib p d =
     (case read_to_string lib p d of
        Inl e \<Rightarrow> Inl (ASE_Io p e)
      | Inr t \<Rightarrow>
          (case alb_parse lib t of
             Inl e \<Rightarrow> Inl (ASE_Json p e)
           | Inr a \<Rightarrow>
               (case validate_asset a of Inl issues \<Rightarrow> Inl (ASE_InvalidAsset (Some p) issues) | Inr _ \<Rightarrow> Inr a)))"

section \<open>The store\<close>

record asset_index_entry =
  ie_identity :: asset_identity
  ie_path :: path
  ie_class :: asset_class
  ie_variant_group :: "string option"
  ie_compatibility :: compatibility_status
  ie_semantic_embedding :: "semantic_embedding option"

record index_report =
  ir_indexed :: nat
  ir_usable :: nat
  ir_incompatible :: nat

record hot_cache_config =
  hc_max_dynamic_assets :: usize
  hc_max_dynamic_bytes :: usize
  hc_max_promotion_metadata :: usize

definition default_hot_cache_config :: hot_cache_config where
  "default_hot_cache_config =
     \<lparr>hc_max_dynamic_assets = 1024, hc_max_dynamic_bytes = u64_max, hc_max_promotion_metadata = 4096\<rparr>"

record hot_cache_metrics =
  hm_pinned_resident :: usize
  hm_dynamic_resident :: usize
  hm_estimated_bytes :: usize
  hm_hits :: u64
  hm_misses :: u64
  hm_evictions :: u64
  hm_metadata_retained :: usize
  hm_metadata_high_water :: usize
  hm_metadata_evictions :: u64

record promotion_metadata =
  pm_id :: string
  pm_use_count :: u64
  pm_last_used_at_ms :: "u64 option"

definition default_promotion_metadata :: promotion_metadata where
  "default_promotion_metadata = \<lparr>pm_id = [], pm_use_count = 0, pm_last_used_at_ms = None\<rparr>"

record hot_usage =
  hu_use_tick :: u64
  hu_last_used_at_ms :: "u64 option"
  hu_note_count :: u64

definition default_hot_usage :: hot_usage where
  "default_hot_usage = \<lparr>hu_use_tick = 0, hu_last_used_at_ms = None, hu_note_count = 0\<rparr>"

record 'v asset_store =
  as_root :: path
  as_runtime :: runtime_compatibility
  as_hot :: "(string, 'v performance_asset) bmap"
  as_pinned :: "string set"
  as_config :: hot_cache_config
  as_usage :: "(string, hot_usage) bmap"
  as_metadata :: "(string, promotion_metadata) bmap"
  as_metadata_high_water :: usize
  as_metadata_evictions :: u64
  as_hits :: u64
  as_misses :: u64
  as_evictions :: u64
  as_next_tick :: u64
  as_local :: "(string, asset_index_entry) bmap"

definition asset_store_new :: "path \<Rightarrow> runtime_compatibility \<Rightarrow> 'v asset_store" where
  "asset_store_new base runtime =
     \<lparr>as_root = base, as_runtime = runtime, as_hot = [], as_pinned = {}, as_config = default_hot_cache_config,
      as_usage = [], as_metadata = [], as_metadata_high_water = 0, as_metadata_evictions = 0, as_hits = 0,
      as_misses = 0, as_evictions = 0, as_next_tick = 0, as_local = []\<rparr>"

definition dynamic_ids :: "'v asset_store \<Rightarrow> string list" where
  "dynamic_ids s = filter (\<lambda>i. i \<notin> as_pinned s) (bm_keys (as_hot s))"

definition estimated_bytes :: "'v asset_lib \<Rightarrow> 'v asset_store \<Rightarrow> nat" where
  "estimated_bytes lib s = sum_list (map (alb_json_len lib o snd) (as_hot s))"

definition hot_cache_metrics_of :: "'v asset_lib \<Rightarrow> 'v asset_store \<Rightarrow> hot_cache_metrics" where
  "hot_cache_metrics_of lib s =
     \<lparr>hm_pinned_resident = length (filter (\<lambda>i. i \<in> as_pinned s) (bm_keys (as_hot s))),
      hm_dynamic_resident = length (dynamic_ids s), hm_estimated_bytes = estimated_bytes lib s, hm_hits = as_hits s,
      hm_misses = as_misses s, hm_evictions = as_evictions s, hm_metadata_retained = length (as_metadata s),
      hm_metadata_high_water = as_metadata_high_water s, hm_metadata_evictions = as_metadata_evictions s\<rparr>"

section \<open>Eviction\<close>

definition metadata_before :: "string \<times> promotion_metadata \<Rightarrow> string \<times> promotion_metadata \<Rightarrow> bool" where
  "metadata_before l r \<longleftrightarrow>
     (let a = (case pm_last_used_at_ms (snd l) of None \<Rightarrow> 0 | Some t \<Rightarrow> t);
          b = (case pm_last_used_at_ms (snd r) of None \<Rightarrow> 0 | Some t \<Rightarrow> t)
      in a < b \<or> a = b \<and> fst l < fst r)"

function evict_metadata ::
  "nat \<Rightarrow> (string, promotion_metadata) bmap \<Rightarrow> u64 \<Rightarrow> (string, promotion_metadata) bmap \<times> u64" where
  "evict_metadata cap md n =
     (case md of
        [] \<Rightarrow> (md, n)
      | x # xs \<Rightarrow>
          if cap < length md then evict_metadata cap (bm_remove (fst (least_by metadata_before x xs)) md) (sadd n 1)
          else (md, n))"
  by pat_completeness auto
termination
proof (relation "measure (\<lambda>(cap, md, n). length md)")
  fix cap :: nat and n :: u64 and x :: "string \<times> promotion_metadata" and xs and md :: "(string, promotion_metadata) bmap"
  assume md: "md = x # xs"
  have "least_by metadata_before x xs \<in> set md" using least_by_in [of metadata_before x xs] md by simp
  then have "length (bm_remove (fst (least_by metadata_before x xs)) md) < length md"
    unfolding bm_remove_def by (rule length_filter_less) auto
  then show "((cap, bm_remove (fst (least_by metadata_before x xs)) md, sadd n 1), (cap, md, n))
      \<in> measure (\<lambda>(cap, md, n). length md)" by simp
qed simp

declare evict_metadata.simps [simp del]

definition evict_promotion_metadata_to_capacity :: "'v asset_store \<Rightarrow> 'v asset_store" where
  "evict_promotion_metadata_to_capacity s =
     (let (md, n) = evict_metadata (hc_max_promotion_metadata (as_config s)) (as_metadata s) (as_metadata_evictions s)
      in s\<lparr>as_metadata := md, as_metadata_evictions := n\<rparr>)"

definition usage_of :: "string \<Rightarrow> 'v asset_store \<Rightarrow> hot_usage" where
  "usage_of i s = (case bm_get (as_usage s) i of None \<Rightarrow> default_hot_usage | Some u \<Rightarrow> u)"

definition older_use :: "string \<times> hot_usage \<Rightarrow> string \<times> hot_usage \<Rightarrow> bool" where
  "older_use a b \<longleftrightarrow>
     hu_use_tick (snd a) < hu_use_tick (snd b) \<or> hu_use_tick (snd a) = hu_use_tick (snd b) \<and> fst a < fst b"

definition evict_candidates :: "'v asset_store \<Rightarrow> (string \<times> hot_usage) list" where
  "evict_candidates s = sort_by older_use (map (\<lambda>i. (i, usage_of i s)) (dynamic_ids s))"

definition evict_one :: "string \<Rightarrow> 'v asset_store \<Rightarrow> 'v asset_store" where
  "evict_one i s =
     s\<lparr>as_hot := bm_remove i (as_hot s), as_usage := bm_remove i (as_usage s), as_evictions := sadd (as_evictions s) 1\<rparr>"

fun evict_bytes :: "'v asset_lib \<Rightarrow> nat \<Rightarrow> (string \<times> hot_usage) list \<Rightarrow> nat \<Rightarrow> 'v asset_store \<Rightarrow> 'v asset_store" where
  "evict_bytes lib cap [] est s = s"
| "evict_bytes lib cap [c] est s = s"
| "evict_bytes lib cap ((v, u) # c # cs) est s =
     (if cap < est then
        (case bm_get (as_hot s) v of
           None \<Rightarrow> evict_bytes lib cap (c # cs) est s
         | Some a \<Rightarrow> evict_bytes lib cap (c # cs) (est - alb_json_len lib a) (evict_one v s))
      else s)"

function evict_dynamic_to_capacity :: "'v asset_lib \<Rightarrow> 'v asset_store \<Rightarrow> 'v asset_store" where
  "evict_dynamic_to_capacity lib s =
     (if length (dynamic_ids s) \<le> hc_max_dynamic_assets (as_config s) then
        (if estimated_bytes lib s \<le> hc_max_dynamic_bytes (as_config s) \<or> dynamic_ids s = [] then s
         else evict_bytes lib (hc_max_dynamic_bytes (as_config s)) (evict_candidates s) (estimated_bytes lib s) s)
      else case evict_candidates s of
          [] \<Rightarrow> s
        | (v, _) # _ \<Rightarrow> evict_dynamic_to_capacity lib (evict_one v s))"
  by pat_completeness auto
termination
proof (relation "measure (\<lambda>(lib, s). length (as_hot s))")
  fix lib :: "'v asset_lib" and s :: "'v asset_store" and c cs v u
  assume "evict_candidates s = c # cs" "(v, u) = c"
  then have "(v, u) \<in> set (evict_candidates s)" by simp
  then have "v \<in> fst ` set (as_hot s)" by (auto simp: evict_candidates_def dynamic_ids_def bm_keys_def)
  then have "length (bm_remove v (as_hot s)) < length (as_hot s)"
    unfolding bm_remove_def by (auto intro: length_filter_less)
  then show "((lib, evict_one v s), (lib, s)) \<in> measure (\<lambda>(lib, s). length (as_hot s))"
    by (simp add: evict_one_def)
qed simp

declare evict_dynamic_to_capacity.simps [simp del]

section \<open>The in-memory cache\<close>

definition set_hot_cache_config :: "'v asset_lib \<Rightarrow> hot_cache_config \<Rightarrow> 'v asset_store \<Rightarrow> 'v asset_store" where
  "set_hot_cache_config lib c s =
     evict_promotion_metadata_to_capacity (evict_dynamic_to_capacity lib (s\<lparr>as_config := c\<rparr>))"

definition note_hot_use :: "string \<Rightarrow> u64 \<Rightarrow> 'v asset_store \<Rightarrow> 'v asset_store" where
  "note_hot_use i at_ms s =
     (let tick = as_next_tick s;
          u = usage_of i s;
          u' = u\<lparr>hu_use_tick := tick, hu_note_count := sadd (hu_note_count u) 1, hu_last_used_at_ms := Some at_ms\<rparr>;
          md = (case bm_get (as_metadata s) i of None \<Rightarrow> default_promotion_metadata | Some x \<Rightarrow> x);
          md' = md\<lparr>pm_id := i, pm_use_count := sadd (pm_use_count md) 1, pm_last_used_at_ms := Some at_ms\<rparr>;
          s1 = evict_promotion_metadata_to_capacity
                 (s\<lparr>as_next_tick := sadd tick 1, as_usage := bm_insert i u' (as_usage s),
                    as_metadata := bm_insert i md' (as_metadata s)\<rparr>)
      in s1\<lparr>as_metadata_high_water := max (as_metadata_high_water s1) (length (as_metadata s1))\<rparr>)"

text \<open>A use of an asset: the next tick of the recency clock.\<close>

definition touch :: "string \<Rightarrow> 'v asset_store \<Rightarrow> 'v asset_store" where
  "touch i s =
     s\<lparr>as_next_tick := sadd (as_next_tick s) 1,
       as_usage := bm_insert i ((usage_of i s)\<lparr>hu_use_tick := as_next_tick s\<rparr>) (as_usage s)\<rparr>"

definition hot_get :: "string \<Rightarrow> 'v asset_store \<Rightarrow> 'v performance_asset option \<times> 'v asset_store" where
  "hot_get i s =
     (case bm_get (as_hot s) i of
        Some a \<Rightarrow> (Some a, touch i (s\<lparr>as_hits := sadd (as_hits s) 1\<rparr>))
      | None \<Rightarrow> (None, s\<lparr>as_misses := sadd (as_misses s) 1\<rparr>))"

definition insert_hot ::
  "'v asset_lib \<Rightarrow> 'v performance_asset \<Rightarrow> 'v asset_store \<Rightarrow> (asset_store_error + 'v performance_asset) \<times> 'v asset_store" where
  "insert_hot lib a s =
     (case validate_asset a of
        Inl issues \<Rightarrow> (Inl (ASE_InvalidAsset None issues), s)
      | Inr _ \<Rightarrow>
          (case check_compatibility (pa_compatibility a) (as_runtime s) of
             CS_Incompatible ms \<Rightarrow> (Inl (ASE_Incompatible (pa_id a) ms), s)
           | CS_Usable \<Rightarrow>
               let i = pa_id a;
                   s1 = touch i s;
                   s2 = (if \<not> is_generated a then s1\<lparr>as_pinned := insert i (as_pinned s1)\<rparr> else s1);
                   s3 = s2\<lparr>as_hot := bm_insert i a (as_hot s2)\<rparr>
               in (Inr a, evict_dynamic_to_capacity lib s3)))"

section \<open>The local index\<close>

definition local_tier :: "string \<Rightarrow> 'v asset_store \<Rightarrow> cache_tier option" where
  "local_tier i s =
     (if bm_get (as_hot s) i \<noteq> None then Some CT_Memory
      else if bm_get (as_local s) i \<noteq> None then Some CT_LocalStorage
      else None)"

definition index_entry_of :: "path \<Rightarrow> 'v performance_asset \<Rightarrow> compatibility_status \<Rightarrow> asset_index_entry" where
  "index_entry_of p a st =
     \<lparr>ie_identity = identity_of a, ie_path = p, ie_class = pa_class a, ie_variant_group = pa_variant_group a,
      ie_compatibility = st, ie_semantic_embedding = pa_semantic_embedding a\<rparr>"

definition is_descriptor :: "path \<Rightarrow> path \<Rightarrow> bool" where
  "is_descriptor base p \<longleftrightarrow>
     (case Option.bind (child_name base p) extension of
        None \<Rightarrow> False | Some e \<Rightarrow> to_ascii_lowercase e = ''json'')"

fun index_loop ::
  "'v asset_lib \<Rightarrow> runtime_compatibility \<Rightarrow> disk \<Rightarrow> path list \<Rightarrow> (string, asset_index_entry) bmap \<Rightarrow> index_report \<Rightarrow>
     asset_store_error + (string, asset_index_entry) bmap \<times> index_report" where
  "index_loop lib runtime d [] nxt rep = Inr (nxt, rep)"
| "index_loop lib runtime d (p # ps) nxt rep =
     (case load_asset_file lib p d of
        Inl e \<Rightarrow> Inl e
      | Inr a \<Rightarrow>
          let st = check_compatibility (pa_compatibility a) runtime in
          (case bm_get nxt (pa_id a) of
             Some prev \<Rightarrow> Inl (ASE_DuplicateId (pa_id a) (ie_path prev) p)
           | None \<Rightarrow>
               index_loop lib runtime d ps (bm_insert (pa_id a) (index_entry_of p a st) nxt)
                 (if is_usable st
                  then rep\<lparr>ir_indexed := ir_indexed rep + 1, ir_usable := ir_usable rep + 1\<rparr>
                  else rep\<lparr>ir_indexed := ir_indexed rep + 1, ir_incompatible := ir_incompatible rep + 1\<rparr>)))"

definition index_local :: "'v asset_lib \<Rightarrow> disk \<Rightarrow> 'v asset_store \<Rightarrow> (asset_store_error + index_report) \<times> 'v asset_store" where
  "index_local lib d s =
     (case alb_io_error lib (IO_ReadDir (as_root s)) d of
        Some e \<Rightarrow> (Inl (ASE_Io (as_root s) e), s)
      | None \<Rightarrow>
          (case index_loop lib (as_runtime s) d (filter (is_descriptor (as_root s)) (bm_keys d)) []
                  \<lparr>ir_indexed = 0, ir_usable = 0, ir_incompatible = 0\<rparr> of
             Inl e \<Rightarrow> (Inl e, s)
           | Inr (nxt, rep) \<Rightarrow>
               (Inr rep, s\<lparr>as_local := nxt,
                  as_hot := bm_retain (\<lambda>i a. case bm_get nxt i of None \<Rightarrow> True | Some e \<Rightarrow> ie_identity e = identity_of a)
                    (as_hot s)\<rparr>)))"

section \<open>Promotion to a file\<close>

text \<open>One system call: its error, or the disk it leaves.\<close>

definition io_step :: "'v asset_lib \<Rightarrow> io_call \<Rightarrow> path \<Rightarrow> (disk \<Rightarrow> disk) \<Rightarrow> (disk \<Rightarrow> disk) \<Rightarrow> disk \<Rightarrow> (asset_store_error + unit) \<times> disk" where
  "io_step lib call p ok failed d =
     (case alb_io_error lib call d of Some e \<Rightarrow> (Inl (ASE_Io p e), failed d) | None \<Rightarrow> (Inr (), ok d))"

definition then_io :: "('e + unit) \<times> disk \<Rightarrow> (disk \<Rightarrow> ('e + 'a) \<times> disk) \<Rightarrow> ('e + 'a) \<times> disk" where
  "then_io r f = (case r of (Inl e, d) \<Rightarrow> (Inl e, d) | (Inr _, d) \<Rightarrow> f d)"

definition rename_file :: "path \<Rightarrow> path \<Rightarrow> disk \<Rightarrow> disk" where
  "rename_file p q d = (case bm_get d p of None \<Rightarrow> d | Some c \<Rightarrow> bm_insert q c (bm_remove p d))"

text \<open>Create the temporary file, write, sync, rename over the destination.\<close>

definition write_descriptor :: "'v asset_lib \<Rightarrow> path \<Rightarrow> path \<Rightarrow> string \<Rightarrow> disk \<Rightarrow> (asset_store_error + unit) \<times> disk" where
  "write_descriptor lib tmp dest bytes d =
     then_io (io_step lib (IO_Create tmp) tmp (bm_insert tmp []) id d) (\<lambda>d1.
     then_io (io_step lib (IO_Write tmp) tmp (bm_insert tmp bytes) (bm_insert tmp (alb_torn lib bytes)) d1) (\<lambda>d2.
     then_io (io_step lib (IO_Sync tmp) tmp id id d2) (\<lambda>d3.
     io_step lib (IO_Rename tmp dest) dest (rename_file tmp dest) id d3)))"

definition temporary_path :: "'v asset_lib \<Rightarrow> string \<Rightarrow> 'v asset_store \<Rightarrow> path" where
  "temporary_path lib i s = path_join (as_root s) (''.'' @ i @ ''.promote-'' @ show_nat (alb_pid lib) @ ''.tmp'')"

definition destination_path :: "string \<Rightarrow> 'v asset_store \<Rightarrow> path" where
  "destination_path i s = path_join (as_root s) (i @ ''.json'')"

definition persist_checks :: "'v performance_asset option \<Rightarrow> string \<Rightarrow> 'v asset_store \<Rightarrow> asset_store_error + 'v performance_asset" where
  "persist_checks found i s =
     (case found of
        None \<Rightarrow> Inl (ASE_NotFound i)
      | Some a \<Rightarrow>
          rbind (ensure_generated a) (\<lambda>_.
          case check_compatibility (pa_compatibility a) (as_runtime s) of
            CS_Incompatible ms \<Rightarrow> Inl (ASE_Incompatible i ms)
          | CS_Usable \<Rightarrow>
              (case bm_get (as_local s) i of
                 Some e \<Rightarrow> Inl (ASE_AlreadyPersisted i (ie_path e))
               | None \<Rightarrow> Inr a)))"

definition persist_generated_descriptor ::
  "'v asset_lib \<Rightarrow> string \<Rightarrow> disk \<Rightarrow> 'v asset_store \<Rightarrow> (asset_store_error + path) \<times> disk \<times> 'v asset_store" where
  "persist_generated_descriptor lib i d s =
     (let (found, s1) = hot_get i s in
      case persist_checks found i s1 of
        Inl e \<Rightarrow> (Inl e, d, s1)
      | Inr a \<Rightarrow>
          (case io_step lib (IO_CreateDirs (as_root s1)) (as_root s1) id id d of
             (Inl e, d1) \<Rightarrow> (Inl e, d1, s1)
           | (Inr _, d1) \<Rightarrow>
               let dest = destination_path i s1 in
               if bm_get d1 dest \<noteq> None then (Inl (ASE_AlreadyPersisted i dest), d1, s1)
               else case alb_pretty lib a of
                   Inl e \<Rightarrow> (Inl (ASE_Json dest e), d1, s1)
                 | Inr bytes \<Rightarrow>
                     (case write_descriptor lib (temporary_path lib i s1) dest bytes d1 of
                        (Inl e, d2) \<Rightarrow> (Inl e, d2, s1)
                      | (Inr _, d2) \<Rightarrow>
                          (Inr dest, d2, s1\<lparr>as_local := bm_insert i (index_entry_of dest a CS_Usable) (as_local s1)\<rparr>))))"

definition invalidate_generated_asset ::
  "'v asset_lib \<Rightarrow> string \<Rightarrow> disk \<Rightarrow> 'v asset_store \<Rightarrow> (asset_store_error + unit) \<times> disk \<times> 'v asset_store" where
  "invalidate_generated_asset lib i d s =
     (case bm_get (as_local s) i of
        Some entry \<Rightarrow>
          (case rbind (load_asset_file lib (ie_path entry) d) ensure_generated of
             Inl e \<Rightarrow> (Inl e, d, s)
           | Inr _ \<Rightarrow>
               (case io_step lib (IO_Remove (ie_path entry)) (ie_path entry) (bm_remove (ie_path entry)) id d of
                  (Inl e, d1) \<Rightarrow> (Inl e, d1, s)
                | (Inr _, d1) \<Rightarrow>
                    (Inr (), d1, s\<lparr>as_local := bm_remove i (as_local s), as_hot := bm_remove i (as_hot s)\<rparr>)))
      | None \<Rightarrow>
          (case hot_get i s of
             (None, s1) \<Rightarrow> (Inl (ASE_NotFound i), d, s1)
           | (Some a, s1) \<Rightarrow>
               (case ensure_generated a of
                  Inl e \<Rightarrow> (Inl e, d, s1)
                | Inr _ \<Rightarrow> (Inr (), d, s1\<lparr>as_hot := bm_remove i (as_hot s1)\<rparr>))))"

section \<open>Resolution\<close>

definition resolve_with_tier ::
  "'v asset_lib \<Rightarrow> string \<Rightarrow> disk \<Rightarrow> 'v asset_store \<Rightarrow>
     (asset_store_error + 'v performance_asset \<times> cache_tier) \<times> 'v asset_store" where
  "resolve_with_tier lib i d s =
     (case hot_get i s of
        (Some a, s1) \<Rightarrow> (Inr (a, CT_Memory), s1)
      | (None, s1) \<Rightarrow>
          (case bm_get (as_local s1) i of
             None \<Rightarrow> (Inl (ASE_NotFound i), s1)
           | Some entry \<Rightarrow>
               (case ie_compatibility entry of
                  CS_Incompatible ms \<Rightarrow> (Inl (ASE_Incompatible i ms), s1)
                | CS_Usable \<Rightarrow>
                    (case load_asset_file lib (ie_path entry) d of
                       Inl e \<Rightarrow> (Inl e, s1)
                     | Inr a \<Rightarrow>
                         if pa_id a \<noteq> i
                         then (Inl (ASE_Json (ie_path entry)
                                (''indexed id '' @ alb_debug lib i @ '' changed to '' @ alb_debug lib (pa_id a) @
                                 ''; rebuild the L1 index'')), s1)
                         else if identity_of a \<noteq> ie_identity entry
                         then (Inl (ASE_Json (ie_path entry) ''compatibility identity changed; rebuild the L1 index''), s1)
                         else case insert_hot lib a s1 of
                             (Inl e, s2) \<Rightarrow> (Inl e, s2)
                           | (Inr a', s2) \<Rightarrow> (Inr (a', CT_LocalStorage), s2)))))"

definition resolve ::
  "'v asset_lib \<Rightarrow> string \<Rightarrow> disk \<Rightarrow> 'v asset_store \<Rightarrow> (asset_store_error + 'v performance_asset) \<times> 'v asset_store" where
  "resolve lib i d s = apfst (map_sum id fst) (resolve_with_tier lib i d s)"

text \<open>\<open>for id in &ids { self.resolve(id)?; }\<close>\<close>

fun resolve_each :: "'v asset_lib \<Rightarrow> string list \<Rightarrow> disk \<Rightarrow> 'v asset_store \<Rightarrow> (asset_store_error + unit) \<times> 'v asset_store" where
  "resolve_each lib [] d s = (Inr (), s)"
| "resolve_each lib (i # is) d s =
     (case resolve lib i d s of
        (Inl e, s1) \<Rightarrow> (Inl e, s1)
      | (Inr _, s1) \<Rightarrow> resolve_each lib is d s1)"

definition preload :: "'v asset_lib \<Rightarrow> (asset_index_entry \<Rightarrow> bool) \<Rightarrow> disk \<Rightarrow> 'v asset_store \<Rightarrow> (asset_store_error + nat) \<times> 'v asset_store" where
  "preload lib wanted d s =
     (let is = map fst (filter (\<lambda>(_, e). wanted e) (as_local s))
      in apfst (map_sum id (\<lambda>_. length is)) (resolve_each lib is d s))"

definition preload_compatible :: "'v asset_lib \<Rightarrow> disk \<Rightarrow> 'v asset_store \<Rightarrow> (asset_store_error + nat) \<times> 'v asset_store" where
  "preload_compatible lib d s = preload lib (\<lambda>e. is_usable (ie_compatibility e)) d s"

definition preload_classes ::
  "'v asset_lib \<Rightarrow> asset_class list \<Rightarrow> disk \<Rightarrow> 'v asset_store \<Rightarrow> (asset_store_error + nat) \<times> 'v asset_store" where
  "preload_classes lib classes d s =
     preload lib (\<lambda>e. is_usable (ie_compatibility e) \<and> List.member classes (ie_class e)) d s"

section \<open>Variants\<close>

definition stable_variant_index :: "u64 \<Rightarrow> string \<Rightarrow> nat \<Rightarrow> nat" where
  "stable_variant_index seed name n =
     unat (foldl fnv_step (0xcbf29ce484222325 :: 64 word) (le_bytes seed @ name)) mod n"

text \<open>The \<open>BTreeSet\<close> of the ids in the group, from the index and from memory.\<close>

definition variant_ids :: "string \<Rightarrow> 'v asset_store \<Rightarrow> string list" where
  "variant_ids grp s =
     (let l = map fst (filter (\<lambda>(_, e). is_usable (ie_compatibility e) \<and> ie_variant_group e = Some grp) (as_local s));
          h = map fst (filter (\<lambda>(_, a). pa_variant_group a = Some grp \<and>
                               is_usable (check_compatibility (pa_compatibility a) (as_runtime s))) (as_hot s))
      in bm_keys (fold (\<lambda>i m. bm_insert i () m) (l @ h) []))"

definition select_variant_id :: "string \<Rightarrow> u64 \<Rightarrow> string list \<Rightarrow> 'v asset_store \<Rightarrow> string option" where
  "select_variant_id grp seed recent s =
     (let all = variant_ids grp s in
      if all = [] then None
      else
        let preferred = filter (\<lambda>i. \<not> List.member recent i) all;
            candidates = (if preferred = [] then all else preferred);
            i = stable_variant_index seed grp (length candidates)
        in if i < length candidates then Some (candidates ! i) else None)"

definition select_variant_with_tier ::
  "'v asset_lib \<Rightarrow> string \<Rightarrow> u64 \<Rightarrow> string list \<Rightarrow> disk \<Rightarrow> 'v asset_store \<Rightarrow>
     (asset_store_error + 'v performance_asset \<times> cache_tier) \<times> 'v asset_store" where
  "select_variant_with_tier lib grp seed recent d s =
     (case select_variant_id grp seed recent s of
        None \<Rightarrow> (Inl (ASE_NotFound (''variant_group:'' @ grp)), s)
      | Some i \<Rightarrow> resolve_with_tier lib i d s)"

definition select_variant ::
  "'v asset_lib \<Rightarrow> string \<Rightarrow> u64 \<Rightarrow> string list \<Rightarrow> disk \<Rightarrow> 'v asset_store \<Rightarrow>
     (asset_store_error + 'v performance_asset) \<times> 'v asset_store" where
  "select_variant lib grp seed recent d s = apfst (map_sum id fst) (select_variant_with_tier lib grp seed recent d s)"

end
