(* ===== verification/Memory_Model.thy ===== *)
theory Memory_Model
  imports Security_Runtime Asset_Store
begin

text \<open>
  The working memory of \<open>crates/adaptation/src/lib.rs\<close>: bounded retained claims as graph nodes, links
  between them (a derived temporal spine, and the supersession and causation a caller declares), the
  permit-gated durable write, compaction, and the time-indexed retrieval views. Parameters are the HMAC
  (a third-party crate), the Unicode lower-casing table of the standard library and the string reading
  of a JSON value.
\<close>

section \<open>Text\<close>

record 'v memory_lib =
  mlb_hmac :: "string \<Rightarrow> string \<Rightarrow> string"
  mlb_lowercase :: "string \<Rightarrow> string"
  mlb_as_str :: "'v \<Rightarrow> string option"

definition normalize :: "'v memory_lib \<Rightarrow> string \<Rightarrow> string" where
  "normalize lib v = mlb_lowercase lib (join_words (split_ws [] v))"

definition truncate_utf8 :: "string \<Rightarrow> nat \<Rightarrow> string" where
  "truncate_utf8 v max_bytes =
     (if length v \<le> max_bytes then v else take (back_to_boundary v (min max_bytes (length v))) v)"

section \<open>Data\<close>

datatype retention_class = RC_Working | RC_Durable

datatype gate_decision = GD_WorkingOnly | GD_AllowedSystemSource | GD_AllowedMemoryAdmin

fun gate_decision_of :: "memory_decision \<Rightarrow> gate_decision" where
  "gate_decision_of MD_AllowedSystemSource = GD_AllowedSystemSource"
| "gate_decision_of MD_AllowedMemoryAdmin = GD_AllowedMemoryAdmin"
| "gate_decision_of MD_Denied = GD_WorkingOnly"

datatype epistemic_class = EC_VerifiedFact | EC_ViewerClaim | EC_PerformerExperience | EC_Observation | EC_PersonaOpinion

definition epistemic_derive :: "source_class \<Rightarrow> trust_level \<Rightarrow> bool \<Rightarrow> epistemic_class" where
  "epistemic_derive sc trust bound =
     (if sc = SC_System \<and> trust = Trusted \<and> bound then EC_VerifiedFact
      else if sc = SC_PublicChat \<or> sc = SC_Donation then EC_ViewerClaim
      else if sc = SC_Speech \<and> trust = Trusted then EC_PerformerExperience
      else if sc = SC_Operator then EC_PersonaOpinion
      else EC_Observation)"

record memory_source =
  mso_event_id :: string
  mso_source :: string
  mso_source_class :: source_class
  mso_trust_level :: trust_level
  mso_actor :: "string option"

record memory_entry =
  me_source :: memory_source
  me_claim :: string
  me_topic :: "string option"
  me_created_at_ms :: u64
  me_expires_at_ms :: u64
  me_retention :: retention_class
  me_write_decision :: gate_decision
  me_epistemic :: epistemic_class
  me_epistemic_version :: string
  me_id :: u64

definition MEMORY_LINK_VOCAB_VERSION :: string where
  "MEMORY_LINK_VOCAB_VERSION = ''memory-link-v2''"

definition MEMORY_EPISTEMIC_VOCAB_VERSION :: string where
  "MEMORY_EPISTEMIC_VOCAB_VERSION = ''memory-epistemic-v1''"

definition SUPERSESSION_DECLARATION_FACTOR :: nat where
  "SUPERSESSION_DECLARATION_FACTOR = 8"

datatype link_kind = LK_TemporalBefore | LK_Supersedes | LK_CausedBy

record memory_link =
  ln_from :: u64
  ln_to :: u64
  ln_kind :: link_kind
  ln_created_at_ms :: u64

record linked_memory =
  lm_entry :: memory_entry
  lm_stale :: bool
  lm_links :: "memory_link list"
  lm_vocab_version :: string
  lm_epistemic_version :: string

record link_snapshot =
  lsn_vocab_version :: string
  lsn_links :: "memory_link list"

record memory_evidence =
  mev_supersedes :: "string list"
  mev_caused_by :: "string list"

datatype declared_relation = DR_Supersession | DR_Causal

fun relation_missing :: "declared_relation \<Rightarrow> string" where
  "relation_missing DR_Supersession = ''supersession target must be a retained durable memory''"
| "relation_missing DR_Causal = ''causal target must be a retained durable memory''"

fun relation_expired :: "declared_relation \<Rightarrow> string" where
  "relation_expired DR_Supersession =
     ''supersession target has expired; an expired memory cannot authorize an update relation''"
| "relation_expired DR_Causal =
     ''causal target has expired; an expired memory cannot authorize a causal relation''"

fun relation_ambiguous :: "declared_relation \<Rightarrow> string" where
  "relation_ambiguous DR_Supersession =
     ''supersession target is ambiguous: one source event id matches more than one retained durable memory, and links must not guess which node the caller meant''"
| "relation_ambiguous DR_Causal =
     ''causal target is ambiguous: one source event id matches more than one retained durable memory, and links must not guess which node the caller meant''"

fun relation_in_the_future :: "declared_relation \<Rightarrow> string" where
  "relation_in_the_future DR_Supersession =
     ''supersession target was recorded after the superseding write; a claim cannot replace evidence from its own future''"
| "relation_in_the_future DR_Causal =
     ''causal target was recorded after the write that declares it; a claim cannot be caused by evidence from its own future''"

datatype adaptation_error =
  AE_InvalidConfiguration string
| AE_InvalidInput string
| AE_InvalidAsset string
| AE_Invariant string
| AE_AssetStore asset_store_error

fun adaptation_error_display :: "'v asset_lib \<Rightarrow> adaptation_error \<Rightarrow> string" where
  "adaptation_error_display lib (AE_InvalidConfiguration m) = ''invalid adaptation configuration: '' @ m"
| "adaptation_error_display lib (AE_InvalidInput field) = ''invalid adaptation input: '' @ field"
| "adaptation_error_display lib (AE_InvalidAsset m) = ''invalid adaptation asset: '' @ m"
| "adaptation_error_display lib (AE_Invariant m) = ''adaptation invariant failed: '' @ m"
| "adaptation_error_display lib (AE_AssetStore e) = asset_store_error_display lib e"

record pseudonymizer =
  psd_key_version :: string
  psd_key :: string

record memory_config =
  mc_max_entries :: usize
  mc_working_ttl_ms :: u64
  mc_durable_ttl_ms :: u64
  mc_max_claim_bytes :: usize
  mc_max_topic_bytes :: usize
  mc_max_compactions :: usize
  mc_max_links :: usize
  mc_max_links_per_memory :: usize

definition default_memory_config :: memory_config where
  "default_memory_config =
     \<lparr>mc_max_entries = 256, mc_working_ttl_ms = 15 * 60 * 1000, mc_durable_ttl_ms = 24 * 60 * 60 * 1000,
      mc_max_claim_bytes = 1024, mc_max_topic_bytes = 128, mc_max_compactions = 256, mc_max_links = 2048,
      mc_max_links_per_memory = 8\<rparr>"

record compaction_record =
  cpr_at_ms :: u64
  cpr_expired_removed :: usize
  cpr_capacity_removed :: usize
  cpr_remaining :: usize

record memory_metrics =
  mm_entries :: usize
  mm_entries_high_water :: usize
  mm_compactions :: usize
  mm_compactions_high_water :: usize
  mm_compactions_evicted :: u64
  mm_links :: usize
  mm_links_high_water :: usize

record memory_query =
  mq_source_namespace :: "string option"
  mq_actor_id :: "string option"
  mq_topic :: "string option"
  mq_limit :: usize

record working_memory =
  wm_config :: memory_config
  wm_pseudonymizer :: pseudonymizer
  wm_entries :: "memory_entry list"
  wm_links :: "memory_link list"
  wm_compactions :: "compaction_record list"
  wm_entries_high_water :: usize
  wm_links_high_water :: usize
  wm_compactions_high_water :: usize
  wm_compactions_evicted :: u64
  wm_next_id :: u64

type_synonym 'a memory_result = "(adaptation_error + 'a) \<times> working_memory"

section \<open>Pseudonyms\<close>

definition is_key_version_byte :: "char \<Rightarrow> bool" where
  "is_key_version_byte c \<longleftrightarrow>
     (let b = of_char c :: nat in
      48 \<le> b \<and> b \<le> 57 \<or> 65 \<le> b \<and> b \<le> 90 \<or> 97 \<le> b \<and> b \<le> 122 \<or> b = 46 \<or> b = 95 \<or> b = 45)"

definition pseudonymizer_new :: "string \<Rightarrow> string \<Rightarrow> adaptation_error + pseudonymizer" where
  "pseudonymizer_new version key =
     (if version = [] \<or> 64 < length version \<or> \<not> list_all is_key_version_byte version then
        Inl (AE_InvalidConfiguration ''pseudonym key_version must be 1..=64 bytes of [A-Za-z0-9._-]'')
      else if list_all (\<lambda>b. of_char b = (0::nat)) key then
        Inl (AE_InvalidConfiguration ''pseudonym key must not be all zeroes'')
      else Inr \<lparr>psd_key_version = version, psd_key = key\<rparr>)"

definition len_prefixed :: "string \<Rightarrow> string" where
  "len_prefixed v = be_bytes (length v) @ v"

text \<open>The bytes the MAC is updated with.\<close>

definition pseudonym_input :: "string \<Rightarrow> string \<Rightarrow> string \<Rightarrow> string" where
  "pseudonym_input version ns actor =
     ''aivtuber.actor-pseudonym.v1'' @ [char_of (0::nat)] @ len_prefixed version @ len_prefixed ns @ len_prefixed actor"

definition pseudonymize :: "'v memory_lib \<Rightarrow> string \<Rightarrow> string \<Rightarrow> pseudonymizer \<Rightarrow> string" where
  "pseudonymize lib ns actor p =
     ''actor:'' @ psd_key_version p @ '':'' @
       hex_encode (mlb_hmac lib (psd_key p) (pseudonym_input (psd_key_version p) ns actor))"

section \<open>Construction and views\<close>

definition source_class_is_shared :: "source_class \<Rightarrow> bool" where
  "source_class_is_shared sc \<longleftrightarrow> sc \<in> {SC_System, SC_Speech, SC_Game, SC_Stream, SC_Timer}"

definition working_memory_new :: "memory_config \<Rightarrow> pseudonymizer \<Rightarrow> adaptation_error + working_memory" where
  "working_memory_new c p =
     (if mc_max_entries c = 0 \<or> mc_working_ttl_ms c = 0 \<or> mc_durable_ttl_ms c = 0 \<or> mc_max_claim_bytes c = 0
         \<or> mc_max_topic_bytes c = 0 \<or> mc_max_compactions c = 0 \<or> mc_max_links c = 0 \<or> mc_max_links_per_memory c = 0
      then Inl (AE_InvalidConfiguration ''working-memory bounds must be positive'')
      else if mc_max_links c < mc_max_links_per_memory c
      then Inl (AE_InvalidConfiguration ''max_links must cover one maximum-size write (max_links >= max_links_per_memory); otherwise the store bound drops explicit supersessions that an accepted write just declared'')
      else Inr \<lparr>wm_config = c, wm_pseudonymizer = p, wm_entries = [], wm_links = [], wm_compactions = [],
                wm_entries_high_water = 0, wm_links_high_water = 0, wm_compactions_high_water = 0,
                wm_compactions_evicted = 0, wm_next_id = 1\<rparr>)"

definition memory_retention_metrics :: "working_memory \<Rightarrow> memory_metrics" where
  "memory_retention_metrics m =
     \<lparr>mm_entries = length (wm_entries m), mm_entries_high_water = wm_entries_high_water m,
      mm_compactions = length (wm_compactions m), mm_compactions_high_water = wm_compactions_high_water m,
      mm_compactions_evicted = wm_compactions_evicted m, mm_links = length (wm_links m),
      mm_links_high_water = wm_links_high_water m\<rparr>"

text \<open>An entry that exists for a reader at \<open>now\<close>.\<close>

definition visible_at :: "u64 \<Rightarrow> memory_entry \<Rightarrow> bool" where
  "visible_at now e \<longleftrightarrow> now < me_expires_at_ms e \<and> me_created_at_ms e \<le> now"

definition visible_ids :: "u64 \<Rightarrow> working_memory \<Rightarrow> u64 set" where
  "visible_ids now m = set (map me_id (filter (visible_at now) (wm_entries m)))"

definition link_snapshot_at :: "u64 \<Rightarrow> working_memory \<Rightarrow> link_snapshot" where
  "link_snapshot_at now m =
     (let vis = visible_ids now m
      in \<lparr>lsn_vocab_version = MEMORY_LINK_VOCAB_VERSION,
         lsn_links = filter (\<lambda>l. ln_created_at_ms l \<le> now \<and> ln_from l \<in> vis \<and> ln_to l \<in> vis) (wm_links m)\<rparr>)"

section \<open>Compaction\<close>

definition prune_links :: "working_memory \<Rightarrow> working_memory" where
  "prune_links m =
     (let alive = set (map me_id (wm_entries m))
      in m\<lparr>wm_links := filter (\<lambda>l. ln_from l \<in> alive \<and> ln_to l \<in> alive) (wm_links m)\<rparr>)"

text \<open>The pop-front loop over the entries; it returns the number of entries it removed.\<close>

fun pop_excess :: "nat \<Rightarrow> memory_entry list \<Rightarrow> nat \<Rightarrow> memory_entry list \<times> nat" where
  "pop_excess cap [] n = ([], n)"
| "pop_excess cap (e # es) n = (if cap < length (e # es) then pop_excess cap es (n + 1) else (e # es, n))"

definition push_compaction :: "compaction_record \<Rightarrow> working_memory \<Rightarrow> working_memory" where
  "push_compaction r m =
     (let cs = wm_compactions m @ [r]; cap = mc_max_compactions (wm_config m); remove = length cs - cap;
          cs' = (if cap < length cs then drop remove cs else cs);
          ev = (if cap < length cs then sadd (wm_compactions_evicted m) remove else wm_compactions_evicted m)
      in m\<lparr>wm_compactions := cs', wm_compactions_evicted := ev,
          wm_compactions_high_water := max (wm_compactions_high_water m) (length cs')\<rparr>)"

definition compact :: "u64 \<Rightarrow> working_memory \<Rightarrow> compaction_record \<times> working_memory" where
  "compact now m =
     (let kept = filter (\<lambda>e. now < me_expires_at_ms e) (wm_entries m);
          expired = length (wm_entries m) - length kept;
          (rest, popped) = pop_excess (mc_max_entries (wm_config m)) kept 0;
          m1 = prune_links (m\<lparr>wm_entries := rest\<rparr>);
          m2 = m1\<lparr>wm_entries_high_water := max (wm_entries_high_water m1) (length rest)\<rparr>;
          r = \<lparr>cpr_at_ms = now, cpr_expired_removed = expired, cpr_capacity_removed = popped, cpr_remaining = length rest\<rparr>
      in (r, if 0 < expired \<or> 0 < popped then push_compaction r m2 else m2))"

definition push_bounded :: "memory_entry \<Rightarrow> u64 \<Rightarrow> working_memory \<Rightarrow> memory_entry memory_result" where
  "push_bounded e now m =
     (case cadd (wm_next_id m) 1 of
        None \<Rightarrow> (Inl (AE_Invariant ''memory node id space exhausted''), m)
      | Some nxt \<Rightarrow>
          let e1 = e\<lparr>me_id := wm_next_id m\<rparr>;
              m1 = snd (compact now (m\<lparr>wm_next_id := nxt\<rparr>));
              m2 = snd (compact now (m1\<lparr>wm_entries := wm_entries m1 @ [e1]\<rparr>))
          in (if wm_entries m2 = [] then Inl (AE_Invariant ''inserted memory entry disappeared'')
              else Inr (last (wm_entries m2)), m2))"

section \<open>Links\<close>

definition push_link :: "memory_link \<Rightarrow> memory_link list \<Rightarrow> memory_link list" where
  "push_link l ls =
     (if list_ex (\<lambda>x. ln_kind x = ln_kind l \<and> ln_from x = ln_from l \<and> ln_to x = ln_to l) ls then ls else ls @ [l])"

text \<open>The budgeted loop over the declared targets; it returns the budget left.\<close>

fun push_declared :: "u64 \<Rightarrow> u64 \<Rightarrow> (u64 \<times> link_kind) list \<Rightarrow> nat \<Rightarrow> memory_link list \<Rightarrow> memory_link list \<times> nat" where
  "push_declared new_id now [] budget ls = (ls, budget)"
| "push_declared new_id now ((target, kind) # ts) budget ls =
     (if budget = 0 then (ls, 0)
      else push_declared new_id now ts (budget - 1)
             (push_link \<lparr>ln_from = new_id, ln_to = target, ln_kind = kind, ln_created_at_ms = now\<rparr> ls))"

fun push_spine :: "u64 \<Rightarrow> u64 \<Rightarrow> (u64 \<times> u64) list \<Rightarrow> memory_link list \<Rightarrow> memory_link list" where
  "push_spine new_id now [] ls = ls"
| "push_spine new_id now ((created, i) # os) ls =
     push_spine new_id now os
       (push_link \<lparr>ln_from = i, ln_to = new_id, ln_kind = LK_TemporalBefore, ln_created_at_ms = now\<rparr> ls)"

text \<open>\<open>right.cmp(left)\<close> on \<open>(created_at_ms, memory_id)\<close>: the larger pair first.\<close>

definition newer_pair :: "u64 \<times> u64 \<Rightarrow> u64 \<times> u64 \<Rightarrow> bool" where
  "newer_pair a b \<longleftrightarrow> fst b < fst a \<or> fst a = fst b \<and> snd b < snd a"

definition older_in_topic :: "'v memory_lib \<Rightarrow> string \<Rightarrow> u64 \<Rightarrow> u64 \<Rightarrow> nat \<Rightarrow> memory_entry list \<Rightarrow> (u64 \<times> u64) list" where
  "older_in_topic lib topic new_id now budget es =
     take budget (sort_by newer_pair
       (map (\<lambda>e. (me_created_at_ms e, me_id e))
         (filter (\<lambda>e. me_retention e = RC_Durable \<and> me_id e \<noteq> new_id \<and>
                      map_option (normalize lib) (me_topic e) = Some (normalize lib topic) \<and>
                      me_created_at_ms e \<le> now) es)))"

text \<open>\<open>position(..)\<close> followed by \<open>remove(..)\<close>; \<open>None\<close> when nothing matches.\<close>

fun remove_first :: "('a \<Rightarrow> bool) \<Rightarrow> 'a list \<Rightarrow> 'a list option" where
  "remove_first P [] = None"
| "remove_first P (x # xs) = (if P x then Some xs else map_option (Cons x) (remove_first P xs))"

lemma remove_first_length: "remove_first P xs = Some ys \<Longrightarrow> length ys < length xs"
  by (induction P xs arbitrary: ys rule: remove_first.induct) (auto split: if_splits)

function shed_derived :: "nat \<Rightarrow> memory_link list \<Rightarrow> memory_link list" where
  "shed_derived cap ls =
     (if cap < length ls
      then (case remove_first (\<lambda>l. ln_kind l = LK_TemporalBefore) ls of
              None \<Rightarrow> ls | Some ls' \<Rightarrow> shed_derived cap ls')
      else ls)"
  by pat_completeness auto
termination
  by (relation "measure (\<lambda>(cap, ls). length ls)") (auto dest: remove_first_length)

declare shed_derived.simps [simp del]

definition enforce_link_bound :: "working_memory \<Rightarrow> working_memory" where
  "enforce_link_bound m =
     (let ls = shed_derived (mc_max_links (wm_config m)) (wm_links m)
      in m\<lparr>wm_links := ls, wm_links_high_water := max (wm_links_high_water m) (length ls)\<rparr>)"

definition link_new_memory ::
  "'v memory_lib \<Rightarrow> u64 \<Rightarrow> string option \<Rightarrow> u64 \<Rightarrow> u64 list \<Rightarrow> u64 list \<Rightarrow> working_memory \<Rightarrow> working_memory" where
  "link_new_memory lib new_id topic now supersedes caused_by m =
     (let (ls1, budget) = push_declared new_id now
              (map (\<lambda>t. (t, LK_Supersedes)) supersedes @ map (\<lambda>t. (t, LK_CausedBy)) caused_by)
              (mc_max_links_per_memory (wm_config m)) (wm_links m);
          ls2 = (case topic of
                   None \<Rightarrow> ls1
                 | Some tp \<Rightarrow> push_spine new_id now (older_in_topic lib tp new_id now budget (wm_entries m)) ls1)
      in enforce_link_bound (prune_links (m\<lparr>wm_links := ls2\<rparr>)))"

section \<open>Writes\<close>

definition require_complete_verified_claim ::
  "'v memory_lib \<Rightarrow> string \<Rightarrow> nat \<Rightarrow> epistemic_class \<Rightarrow> adaptation_error + unit" where
  "require_complete_verified_claim lib v max_bytes ec =
     ensure (\<not> (ec = EC_VerifiedFact \<and> max_bytes < length (normalize lib v)))
       (AE_InvalidInput ''a verified-fact claim longer than max_claim_bytes would be stored truncated and could lose the negation or qualifier that bounded it; shorten the source event's own claim or raise max_claim_bytes'')"

definition bounded_nonempty :: "'v memory_lib \<Rightarrow> string \<Rightarrow> nat \<Rightarrow> string \<Rightarrow> adaptation_error + string" where
  "bounded_nonempty lib v max_bytes field =
     (let n = normalize lib v in
      if n = [] then Inl (AE_InvalidInput field) else Inr (truncate_utf8 n max_bytes))"

definition bounded_optional :: "'v memory_lib \<Rightarrow> string option \<Rightarrow> nat \<Rightarrow> string \<Rightarrow> adaptation_error + string option" where
  "bounded_optional lib v max_bytes field =
     (case v of None \<Rightarrow> Inr None
      | Some s \<Rightarrow> rbind (bounded_nonempty lib s max_bytes field) (\<lambda>x. Inr (Some x)))"

definition entry_from_event ::
  "'v memory_lib \<Rightarrow> 'v event_envelope \<Rightarrow> string \<Rightarrow> string option \<Rightarrow> u64 \<Rightarrow> retention_class \<Rightarrow> gate_decision \<Rightarrow>
     working_memory \<Rightarrow> adaptation_error + memory_entry" where
  "entry_from_event lib ev claim topic now ret decision m =
     (let c = wm_config m;
          bound = (case Option.bind (bm_get (ev_payload ev) ''text'') (mlb_as_str lib) of
                     None \<Rightarrow> False | Some t \<Rightarrow> normalize lib t = normalize lib claim);
          ec = epistemic_derive (ev_source_class ev) (ev_trust_level ev) bound
      in rbind (require_complete_verified_claim lib claim (mc_max_claim_bytes c) ec) (\<lambda>_.
         rbind (bounded_nonempty lib claim (mc_max_claim_bytes c) ''memory claim'') (\<lambda>cl.
         rbind (bounded_optional lib topic (mc_max_topic_bytes c) ''memory topic'') (\<lambda>tp. Inr
           \<lparr>me_source = \<lparr>mso_event_id = ev_event_id ev, mso_source = ev_source ev,
              mso_source_class = ev_source_class ev, mso_trust_level = ev_trust_level ev,
              mso_actor = map_option (\<lambda>a. pseudonymize lib (ev_source ev) a (wm_pseudonymizer m)) (ev_actor_id ev)\<rparr>,
            me_claim = cl, me_topic = tp, me_created_at_ms = now,
            me_expires_at_ms = sadd now (case ret of RC_Working \<Rightarrow> mc_working_ttl_ms c | RC_Durable \<Rightarrow> mc_durable_ttl_ms c),
            me_retention = ret, me_write_decision = decision, me_epistemic = ec,
            me_epistemic_version = MEMORY_EPISTEMIC_VOCAB_VERSION, me_id = 0\<rparr>))))"

definition remember_working ::
  "'v memory_lib \<Rightarrow> 'v event_envelope \<Rightarrow> string \<Rightarrow> string option \<Rightarrow> u64 \<Rightarrow> working_memory \<Rightarrow> memory_entry memory_result" where
  "remember_working lib ev claim topic now m =
     (case entry_from_event lib ev claim topic now RC_Working GD_WorkingOnly m of
        Inl e \<Rightarrow> (Inl e, m)
      | Inr entry \<Rightarrow> push_bounded entry now m)"

text \<open>The deduplicating loop over one declaration list; \<open>None\<close> when the budget is exceeded.\<close>

fun collect_declared :: "string list \<Rightarrow> nat \<Rightarrow> string list \<Rightarrow> (string list \<times> nat) option" where
  "collect_declared [] budget seen = Some (seen, budget)"
| "collect_declared (t # ts) budget seen =
     (if List.member seen t then collect_declared ts budget seen
      else if budget = 0 then None
      else collect_declared ts (budget - 1) (seen @ [t]))"

definition resolve_declared_target ::
  "string \<Rightarrow> u64 \<Rightarrow> declared_relation \<Rightarrow> working_memory \<Rightarrow> adaptation_error + u64" where
  "resolve_declared_target i now rel m =
     (let retained = filter (\<lambda>e. mso_event_id (me_source e) = i \<and> me_retention e = RC_Durable) (wm_entries m) in
      if retained = [] then Inl (AE_InvalidInput (relation_missing rel))
      else case filter (\<lambda>e. now < me_expires_at_ms e) retained of
          [] \<Rightarrow> Inl (AE_InvalidInput (relation_expired rel))
        | [target] \<Rightarrow>
            if now < me_created_at_ms target then Inl (AE_InvalidInput (relation_in_the_future rel))
            else Inr (me_id target)
        | _ \<Rightarrow> Inl (AE_InvalidInput (relation_ambiguous rel)))"

fun resolve_all :: "string list \<Rightarrow> u64 \<Rightarrow> declared_relation \<Rightarrow> working_memory \<Rightarrow> adaptation_error + u64 list" where
  "resolve_all [] now rel m = Inr []"
| "resolve_all (i # is) now rel m =
     rbind (resolve_declared_target i now rel m) (\<lambda>n. rbind (resolve_all is now rel m) (\<lambda>ns. Inr (n # ns)))"

definition projected_survivors :: "u64 \<Rightarrow> working_memory \<Rightarrow> u64 list" where
  "projected_survivors now m =
     (let s0 = map me_id (filter (\<lambda>e. now < me_expires_at_ms e) (wm_entries m));
          s1 = drop (length s0 - mc_max_entries (wm_config m)) s0
      in drop (length s1 + 1 - mc_max_entries (wm_config m)) s1)"

definition is_explicit :: "memory_link \<Rightarrow> bool" where
  "is_explicit l \<longleftrightarrow> ln_kind l = LK_Supersedes \<or> ln_kind l = LK_CausedBy"

text \<open>The two declaration lists, deduplicated within one budget and resolved to nodes.\<close>

definition resolve_evidence ::
  "memory_evidence \<Rightarrow> u64 \<Rightarrow> working_memory \<Rightarrow> adaptation_error + u64 list \<times> u64 list" where
  "resolve_evidence ev now m =
     (let per = mc_max_links_per_memory (wm_config m);
          bound = smul per SUPERSESSION_DECLARATION_FACTOR;
          too_many = AE_InvalidInput ''one write may not declare more explicit relations than the per-memory link budget''
      in if bound < length (mev_supersedes ev) \<or> bound < length (mev_caused_by ev)
         then Inl (AE_InvalidInput ''one write may not hand more explicit relation declarations than the bounded input allows; collapse repeated declarations before calling'')
         else case collect_declared (mev_supersedes ev) per [] of
             None \<Rightarrow> Inl too_many
           | Some (supers, budget) \<Rightarrow>
               (case collect_declared (mev_caused_by ev) budget [] of
                  None \<Rightarrow> Inl too_many
                | Some (causes, _) \<Rightarrow>
                    rbind (resolve_all supers now DR_Supersession m) (\<lambda>targets.
                    rbind (resolve_all causes now DR_Causal m) (\<lambda>nodes. Inr (targets, nodes)))))"

definition evidence_fits :: "u64 list \<Rightarrow> u64 list \<Rightarrow> u64 \<Rightarrow> working_memory \<Rightarrow> bool" where
  "evidence_fits targets nodes now m \<longleftrightarrow>
     (let surv = set (projected_survivors now m);
          retained = length (filter (\<lambda>l. is_explicit l \<and> ln_from l \<in> surv \<and> ln_to l \<in> surv) (wm_links m));
          new = length (filter (\<lambda>i. i \<in> surv) (targets @ nodes))
      in retained + new \<le> mc_max_links (wm_config m))"

definition durable_entry ::
  "'v memory_lib \<Rightarrow> memory_permit \<Rightarrow> string \<Rightarrow> string option \<Rightarrow> u64 \<Rightarrow> working_memory \<Rightarrow> adaptation_error + memory_entry" where
  "durable_entry lib p claim topic now m =
     (let c = wm_config m;
          bound = (case mp_source_claim p of None \<Rightarrow> False | Some s \<Rightarrow> normalize lib s = normalize lib claim);
          ec = epistemic_derive (mp_source_class p) (mp_trust_level p) bound
      in rbind (require_complete_verified_claim lib claim (mc_max_claim_bytes c) ec) (\<lambda>_.
         rbind (bounded_nonempty lib claim (mc_max_claim_bytes c) ''memory claim'') (\<lambda>cl.
         rbind (bounded_optional lib topic (mc_max_topic_bytes c) ''memory topic'') (\<lambda>tp. Inr
           \<lparr>me_source = \<lparr>mso_event_id = mp_event_id p, mso_source = mp_source p,
              mso_source_class = mp_source_class p, mso_trust_level = mp_trust_level p,
              mso_actor = map_option (\<lambda>a. pseudonymize lib (mp_source p) a (wm_pseudonymizer m)) (mp_actor_id p)\<rparr>,
            me_claim = cl, me_topic = tp, me_created_at_ms = now,
            me_expires_at_ms = sadd now (mc_durable_ttl_ms c), me_retention = RC_Durable,
            me_write_decision = gate_decision_of (mp_decision p), me_epistemic = ec,
            me_epistemic_version = MEMORY_EPISTEMIC_VOCAB_VERSION, me_id = 0\<rparr>))))"

definition remember_durable_with_evidence ::
  "'v memory_lib \<Rightarrow> memory_permit \<Rightarrow> string \<Rightarrow> string option \<Rightarrow> u64 \<Rightarrow> memory_evidence \<Rightarrow> working_memory \<Rightarrow>
     memory_entry memory_result" where
  "remember_durable_with_evidence lib p claim topic now ev m =
     (case resolve_evidence ev now m of
        Inl e \<Rightarrow> (Inl e, m)
      | Inr (targets, nodes) \<Rightarrow>
          if \<not> evidence_fits targets nodes now m
          then (Inl (AE_InvalidInput ''the link store cannot hold this write's explicit evidence without discarding earlier evidence for a still-retained claim; raise max_links or let retention expire the earlier endpoints first''), m)
          else case durable_entry lib p claim topic now m of
              Inl e \<Rightarrow> (Inl e, m)
            | Inr entry \<Rightarrow>
                (case push_bounded entry now m of
                   (Inl e, m1) \<Rightarrow> (Inl e, m1)
                 | (Inr stored, m1) \<Rightarrow>
                     let m2 = link_new_memory lib (me_id stored) (me_topic entry) now targets nodes m1
                     in (if wm_entries m2 = [] then Inl (AE_Invariant ''inserted memory entry disappeared'')
                         else Inr (last (wm_entries m2)), m2)))"

definition remember_durable_superseding ::
  "'v memory_lib \<Rightarrow> memory_permit \<Rightarrow> string \<Rightarrow> string option \<Rightarrow> u64 \<Rightarrow> string list \<Rightarrow> working_memory \<Rightarrow> memory_entry memory_result" where
  "remember_durable_superseding lib p claim topic now supersedes m =
     remember_durable_with_evidence lib p claim topic now \<lparr>mev_supersedes = supersedes, mev_caused_by = []\<rparr> m"

definition remember_durable ::
  "'v memory_lib \<Rightarrow> memory_permit \<Rightarrow> string \<Rightarrow> string option \<Rightarrow> u64 \<Rightarrow> working_memory \<Rightarrow> memory_entry memory_result" where
  "remember_durable lib p claim topic now m = remember_durable_superseding lib p claim topic now [] m"

end
