(* ===== verification/Memory_Query.thy ===== *)
theory Memory_Query
  imports Memory_Model
begin

text \<open>
  The retrieval views of the working memory (\<open>crates/adaptation/src/lib.rs\<close>): the ranked matches, the
  linked view with its staleness verdict and its one-hop expansion, and the context that generation may
  see. All are read at a timestamp.
\<close>

section \<open>Ranking\<close>

text \<open>\<open>source_namespace.zip(actor_id).map(..)\<close>\<close>

definition query_actor :: "'v memory_lib \<Rightarrow> memory_query \<Rightarrow> working_memory \<Rightarrow> string option" where
  "query_actor lib q m =
     (case (mq_source_namespace q, mq_actor_id q) of
        (Some ns, Some a) \<Rightarrow> Some (pseudonymize lib ns a (wm_pseudonymizer m))
      | _ \<Rightarrow> None)"

definition actor_matches :: "string option \<Rightarrow> memory_entry \<Rightarrow> bool" where
  "actor_matches actor e \<longleftrightarrow> actor \<noteq> None \<and> actor = mso_actor (me_source e)"

definition topic_matches :: "'v memory_lib \<Rightarrow> string option \<Rightarrow> memory_entry \<Rightarrow> bool" where
  "topic_matches lib tp e \<longleftrightarrow> tp \<noteq> None \<and> tp = map_option (normalize lib) (me_topic e)"

text \<open>The comparator of \<open>relevant\<close>: actor matches, topic matches, record time, node id, all descending.\<close>

definition rank_before :: "nat \<times> nat \<times> memory_entry \<Rightarrow> nat \<times> nat \<times> memory_entry \<Rightarrow> bool" where
  "rank_before l r \<longleftrightarrow>
     (case (l, r) of ((a, t, e), (a', t', e')) \<Rightarrow>
        a' < a \<or> a = a' \<and>
          (t' < t \<or> t = t' \<and>
            (me_created_at_ms e' < me_created_at_ms e \<or> me_created_at_ms e = me_created_at_ms e' \<and> me_id e' < me_id e)))"

definition of_flag :: "bool \<Rightarrow> nat" where
  "of_flag b = (if b then 1 else 0)"

definition relevant :: "'v memory_lib \<Rightarrow> memory_query \<Rightarrow> u64 \<Rightarrow> working_memory \<Rightarrow> memory_entry list" where
  "relevant lib q now m =
     (if mq_limit q = 0 then []
      else if mq_actor_id q \<noteq> None \<and> mq_source_namespace q = None then []
      else
        let actor = query_actor lib q m; tp = map_option (normalize lib) (mq_topic q);
            ranked = filter (\<lambda>(a, t, e). actor = None \<and> tp = None \<or> 0 < a \<or> 0 < t)
              (map (\<lambda>e. (of_flag (actor_matches actor e), of_flag (topic_matches lib tp e), e))
                (filter (visible_at now) (wm_entries m)))
        in map (\<lambda>(_, _, e). e) (take (mq_limit q) (sort_by rank_before ranked)))"

section \<open>The linked view\<close>

text \<open>The descending comparator of the explicit edges.\<close>

definition newer_link :: "memory_link \<Rightarrow> memory_link \<Rightarrow> bool" where
  "newer_link l r \<longleftrightarrow>
     ln_created_at_ms r < ln_created_at_ms l \<or> ln_created_at_ms l = ln_created_at_ms r \<and>
       (ln_from r < ln_from l \<or> ln_from l = ln_from r \<and> ln_to r < ln_to l)"

definition incident_links :: "u64 \<Rightarrow> u64 set \<Rightarrow> u64 \<Rightarrow> memory_link list \<Rightarrow> memory_link list" where
  "incident_links i live now ls =
     filter (\<lambda>l. (ln_from l = i \<or> ln_to l = i) \<and> ln_created_at_ms l \<le> now \<and> ln_from l \<in> live \<and> ln_to l \<in> live) ls"

definition link_view :: "u64 \<Rightarrow> u64 set \<Rightarrow> nat \<Rightarrow> u64 \<Rightarrow> working_memory \<Rightarrow> bool \<times> memory_link list" where
  "link_view i live cap now m =
     (let incident = incident_links i live now (wm_links m);
          stale = list_ex (\<lambda>l. ln_kind l = LK_Supersedes \<and> ln_to l = i \<and> ln_from l \<in> live) incident;
          of_kind = (\<lambda>k. filter (\<lambda>l. ln_kind l = k) incident)
      in (stale, take cap (sort_by newer_link (of_kind LK_Supersedes) @ sort_by newer_link (of_kind LK_CausedBy)
                  @ of_kind LK_TemporalBefore)))"

definition in_actor_scope :: "string option \<Rightarrow> memory_entry \<Rightarrow> bool" where
  "in_actor_scope actor e \<longleftrightarrow> actor = None \<or> mso_actor (me_source e) = actor"

text \<open>
  The inner loop of the hop over one match's links. The state is the selected ids, the expansion so far
  and whether the labelled break was taken.
\<close>

fun hop_links ::
  "string option \<Rightarrow> u64 set \<Rightarrow> nat \<Rightarrow> nat \<Rightarrow> u64 \<Rightarrow> nat \<Rightarrow> working_memory \<Rightarrow> u64 \<Rightarrow> memory_link list \<Rightarrow>
     u64 list \<times> (memory_entry \<times> bool \<times> memory_link list) list \<Rightarrow>
     (u64 list \<times> (memory_entry \<times> bool \<times> memory_link list) list) \<times> bool" where
  "hop_links actor live cap limit now nmatched m i [] (sel, ex) = ((sel, ex), False)"
| "hop_links actor live cap limit now nmatched m i (l # ls) (sel, ex) =
     (let other = (if ln_from l = i then ln_to l else ln_from l) in
      if other \<notin> live then hop_links actor live cap limit now nmatched m i ls (sel, ex)
      else case List.find (\<lambda>e. me_id e = other) (wm_entries m) of
          None \<Rightarrow> hop_links actor live cap limit now nmatched m i ls (sel, ex)
        | Some node \<Rightarrow>
            if \<not> in_actor_scope actor node then hop_links actor live cap limit now nmatched m i ls (sel, ex)
            else if List.member sel other then hop_links actor live cap limit now nmatched m i ls (sel, ex)
            else
              let (stale, links) = link_view (me_id node) live cap now m; ex' = ex @ [(node, stale, links)] in
              if limit \<le> nmatched + length ex' then ((sel @ [other], ex'), True)
              else hop_links actor live cap limit now nmatched m i ls (sel @ [other], ex'))"

fun hop_matches ::
  "string option \<Rightarrow> u64 set \<Rightarrow> nat \<Rightarrow> nat \<Rightarrow> u64 \<Rightarrow> nat \<Rightarrow> working_memory \<Rightarrow> (memory_entry \<times> bool \<times> memory_link list) list \<Rightarrow>
     u64 list \<times> (memory_entry \<times> bool \<times> memory_link list) list \<Rightarrow> (memory_entry \<times> bool \<times> memory_link list) list" where
  "hop_matches actor live cap limit now nmatched m [] (sel, ex) = ex"
| "hop_matches actor live cap limit now nmatched m ((e, _, links) # rest) (sel, ex) =
     (case hop_links actor live cap limit now nmatched m (me_id e) links (sel, ex) of
        ((sel', ex'), True) \<Rightarrow> ex'
      | ((sel', ex'), False) \<Rightarrow> hop_matches actor live cap limit now nmatched m rest (sel', ex'))"

definition relevant_linked :: "'v memory_lib \<Rightarrow> memory_query \<Rightarrow> u64 \<Rightarrow> working_memory \<Rightarrow> linked_memory list" where
  "relevant_linked lib q now m =
     (if mq_actor_id q \<noteq> None \<and> mq_source_namespace q = None then []
      else
        let cap = mc_max_links_per_memory (wm_config m); limit = mq_limit q; actor = query_actor lib q m;
            live = visible_ids now m;
            matched = map (\<lambda>e. (e, link_view (me_id e) live cap now m))
                        (filter (in_actor_scope actor) (relevant lib q now m));
            expanded = (if length matched < limit
                        then hop_matches actor live cap limit now (length matched) m matched
                               (map (\<lambda>(e, _, _). me_id e) matched, [])
                        else [])
        in map (\<lambda>(e, stale, links).
              \<lparr>lm_entry = e, lm_stale = stale, lm_links = links, lm_vocab_version = MEMORY_LINK_VOCAB_VERSION,
               lm_epistemic_version = me_epistemic_version e\<rparr>) (matched @ expanded))"

section \<open>The generation context\<close>

definition generation_shared :: "memory_entry \<Rightarrow> bool" where
  "generation_shared e \<longleftrightarrow> source_class_is_shared (mso_source_class (me_source e))"

text \<open>\<open>correction_of.entry(link.to).or_insert(link.from)\<close> over the links: the first correction wins.\<close>

definition correction_of :: "u64 \<Rightarrow> working_memory \<Rightarrow> (u64 \<times> u64) list" where
  "correction_of now m =
     map (\<lambda>l. (ln_to l, ln_from l))
       (filter (\<lambda>l. \<not> (ln_kind l \<noteq> LK_Supersedes \<or> now < ln_created_at_ms l) \<and>
                    list_ex (\<lambda>e. me_id e = ln_from l \<and> visible_at now e) (wm_entries m))
         (wm_links m))"

definition in_context_scope :: "string option \<Rightarrow> memory_entry \<Rightarrow> bool" where
  "in_context_scope scope e \<longleftrightarrow>
     (let owner = mso_actor (me_source e);
          own = (case scope of None \<Rightarrow> False | Some s \<Rightarrow> owner = Some s);
          shared = generation_shared e \<and> (case owner of None \<Rightarrow> True | Some o' \<Rightarrow> scope = Some o')
      in own \<or> shared)"

definition context_before :: "nat \<times> memory_entry \<Rightarrow> nat \<times> memory_entry \<Rightarrow> bool" where
  "context_before l r \<longleftrightarrow>
     (case (l, r) of ((p, e), (p', e')) \<Rightarrow>
        p' < p \<or> p = p' \<and>
          (me_created_at_ms e' < me_created_at_ms e \<or> me_created_at_ms e = me_created_at_ms e' \<and> me_id e' < me_id e))"

definition context_for ::
  "'v memory_lib \<Rightarrow> string \<Rightarrow> string option \<Rightarrow> string option \<Rightarrow> nat \<Rightarrow> u64 \<Rightarrow> working_memory \<Rightarrow> memory_entry list" where
  "context_for lib ns actor topic limit now m =
     (if limit = 0 then []
      else
        let scope = map_option (\<lambda>a. pseudonymize lib ns a (wm_pseudonymizer m)) actor;
            tp = map_option (normalize lib) topic;
            corr = correction_of now m;
            vis = filter (visible_at now) (wm_entries m);
            promoted = List.map_filter (\<lambda>e. if topic_matches lib tp e then map_of corr (me_id e) else None) vis;
            ranked = map (\<lambda>e. (of_flag (topic_matches lib tp e \<or> List.member promoted (me_id e)), e))
              (filter (in_context_scope scope) (filter (\<lambda>e. map_of corr (me_id e) = None) vis))
        in map snd (take limit (sort_by context_before ranked)))"

end
