(* ===== verification/Memory_Inv.thy ===== *)
theory Memory_Inv
  imports Memory_Model
begin

text \<open>
  The working memory as a transition system and its invariant: node ids grow along the entries, every
  link joins two retained nodes, no edge is stored twice, and all bounds hold.
\<close>

section \<open>The invariant\<close>

definition ids :: "working_memory \<Rightarrow> u64 list" where
  "ids m = map me_id (wm_entries m)"

definition link_key :: "memory_link \<Rightarrow> link_kind \<times> u64 \<times> u64" where
  "link_key l = (ln_kind l, ln_from l, ln_to l)"

definition memory_config_ok :: "memory_config \<Rightarrow> bool" where
  "memory_config_ok c \<longleftrightarrow>
     0 < mc_max_entries c \<and> 0 < mc_working_ttl_ms c \<and> 0 < mc_durable_ttl_ms c \<and> 0 < mc_max_claim_bytes c \<and>
     0 < mc_max_compactions c \<and> 0 < mc_max_links_per_memory c \<and> mc_max_links_per_memory c \<le> mc_max_links c"

definition nodes_ok :: "working_memory \<Rightarrow> bool" where
  "nodes_ok m \<longleftrightarrow>
     sorted_wrt (<) (ids m) \<and> (\<forall>i\<in>set (ids m). 1 \<le> i \<and> i < wm_next_id m) \<and> 1 \<le> wm_next_id m \<and>
     length (wm_entries m) \<le> mc_max_entries (wm_config m) \<and> (\<forall>e\<in>set (wm_entries m). me_expires_at_ms e \<le> u64_max)"

text \<open>Explicit edges lead from the newer node to the older one, the spine from the older to the newer.\<close>

definition link_ok :: "u64 set \<Rightarrow> memory_link \<Rightarrow> bool" where
  "link_ok alive l \<longleftrightarrow> ln_from l \<in> alive \<and> ln_to l \<in> alive \<and>
     (if is_explicit l then ln_to l < ln_from l else ln_from l < ln_to l)"

definition links_ok :: "u64 set \<Rightarrow> memory_link list \<Rightarrow> bool" where
  "links_ok alive ls \<longleftrightarrow> (\<forall>l\<in>set ls. link_ok alive l) \<and> distinct (map link_key ls)"

definition memory_inv :: "working_memory \<Rightarrow> bool" where
  "memory_inv m \<longleftrightarrow>
     memory_config_ok (wm_config m) \<and> nodes_ok m \<and> links_ok (set (ids m)) (wm_links m) \<and>
     length (wm_links m) \<le> mc_max_links (wm_config m) \<and>
     length (wm_compactions m) \<le> mc_max_compactions (wm_config m) \<and>
     wm_entries_high_water m \<le> mc_max_entries (wm_config m) \<and> length (wm_entries m) \<le> wm_entries_high_water m \<and>
     wm_links_high_water m \<le> mc_max_links (wm_config m) \<and> length (wm_links m) \<le> wm_links_high_water m \<and>
     wm_compactions_high_water m \<le> mc_max_compactions (wm_config m) \<and>
     length (wm_compactions m) \<le> wm_compactions_high_water m"

lemma memory_inv_new: "working_memory_new c p = Inr m \<Longrightarrow> memory_inv m"
  by (auto simp: working_memory_new_def memory_inv_def memory_config_ok_def nodes_ok_def links_ok_def ids_def
      split: if_splits)

section \<open>Compaction\<close>

lemma fst_pop_excess: "fst (pop_excess cap es n) = keep_last cap es"
  by (induction cap es n rule: pop_excess.induct) (auto simp: keep_last_def Suc_diff_le)

interpretation compaction_log: bounded_log push_compaction wm_compactions "\<lambda>m. Some (mc_max_compactions (wm_config m))"
  by unfold_locales (simp_all add: push_compaction_def Let_def keep_last_def)

lemma push_compaction_frame [simp]:
  "wm_config (push_compaction r m) = wm_config m"
  "wm_pseudonymizer (push_compaction r m) = wm_pseudonymizer m"
  "wm_entries (push_compaction r m) = wm_entries m"
  "wm_links (push_compaction r m) = wm_links m"
  "wm_entries_high_water (push_compaction r m) = wm_entries_high_water m"
  "wm_links_high_water (push_compaction r m) = wm_links_high_water m"
  "wm_next_id (push_compaction r m) = wm_next_id m"
  by (simp_all add: push_compaction_def Let_def)

definition live_entries :: "u64 \<Rightarrow> working_memory \<Rightarrow> memory_entry list" where
  "live_entries now m = keep_last (mc_max_entries (wm_config m)) (filter (\<lambda>e. now < me_expires_at_ms e) (wm_entries m))"

definition alive_links :: "u64 set \<Rightarrow> memory_link list \<Rightarrow> memory_link list" where
  "alive_links alive ls = filter (\<lambda>l. ln_from l \<in> alive \<and> ln_to l \<in> alive) ls"

lemma compact_fields [simp]:
  "wm_entries (snd (compact now m)) = live_entries now m"
  "wm_links (snd (compact now m)) = alive_links (set (map me_id (live_entries now m))) (wm_links m)"
  "wm_config (snd (compact now m)) = wm_config m"
  "wm_pseudonymizer (snd (compact now m)) = wm_pseudonymizer m"
  "wm_next_id (snd (compact now m)) = wm_next_id m"
  "wm_links_high_water (snd (compact now m)) = wm_links_high_water m"
  "wm_entries_high_water (snd (compact now m)) = max (wm_entries_high_water m) (length (live_entries now m))"
  by (simp_all add: compact_def Let_def prune_links_def live_entries_def alive_links_def
      fst_pop_excess [symmetric, where n = 0] split: prod.splits)

lemma compact_record:
  "fst (compact now m) = \<lparr>cpr_at_ms = now,
     cpr_expired_removed = length (wm_entries m) - length (filter (\<lambda>e. now < me_expires_at_ms e) (wm_entries m)),
     cpr_capacity_removed = snd (pop_excess (mc_max_entries (wm_config m)) (filter (\<lambda>e. now < me_expires_at_ms e) (wm_entries m)) 0),
     cpr_remaining = length (live_entries now m)\<rparr>"
  by (simp add: compact_def Let_def live_entries_def fst_pop_excess [symmetric, where n = 0] split: prod.splits)

definition compactions_ok :: "working_memory \<Rightarrow> bool" where
  "compactions_ok m \<longleftrightarrow>
     wm_compactions_high_water m \<le> mc_max_compactions (wm_config m) \<and>
     length (wm_compactions m) \<le> wm_compactions_high_water m"

lemma compactions_ok_push: "compactions_ok m \<Longrightarrow> compactions_ok (push_compaction r m)"
  by (auto simp: compactions_ok_def push_compaction_def Let_def)

lemma compactions_ok_frame [simp]:
  "compactions_ok (prune_links m) = compactions_ok m"
  "compactions_ok (m\<lparr>wm_entries := es\<rparr>) = compactions_ok m"
  "compactions_ok (m\<lparr>wm_entries_high_water := n\<rparr>) = compactions_ok m"
  by (simp_all add: compactions_ok_def prune_links_def)

lemma compactions_ok_compact: "compactions_ok m \<Longrightarrow> compactions_ok (snd (compact now m))"
  by (auto simp: compact_def Let_def compactions_ok_push split: prod.splits)

lemma alive_links_alive [simp]: "alive_links a (alive_links b ls) = alive_links (a \<inter> b) ls"
  by (auto simp: alive_links_def conj_ac intro: filter_cong)

lemma alive_links_id: "(\<forall>l\<in>set ls. link_ok alive l) \<Longrightarrow> alive_links alive ls = ls"
  by (auto simp: alive_links_def link_ok_def intro: filter_True)

lemma links_ok_alive: "links_ok alive ls \<Longrightarrow> links_ok (alive \<inter> alive') (alive_links alive' ls)"
  by (auto simp: links_ok_def link_ok_def alive_links_def distinct_map intro: inj_on_subset)

lemma sorted_wrt_keep_last: "sorted_wrt P xs \<Longrightarrow> sorted_wrt P (keep_last n xs)"
  by (simp add: keep_last_def sorted_wrt_drop)

lemma set_live_entries: "set (live_entries now m) \<subseteq> {e \<in> set (wm_entries m). now < me_expires_at_ms e}"
  unfolding live_entries_def using set_keep_last by fastforce

lemma sorted_filter_map: "sorted_wrt (<) (map f xs) \<Longrightarrow> sorted_wrt (<) (map f (filter P xs))"
  by (auto simp: sorted_wrt_map intro: sorted_wrt_filter)

lemma keep_last_map_commute: "keep_last n (map f xs) = map f (keep_last n xs)"
  by (simp add: keep_last_def drop_map)

lemma nodes_ok_compact: "nodes_ok m \<Longrightarrow> nodes_ok (snd (compact now m))"
proof -
  assume m: "nodes_ok m"
  have "sorted_wrt (<) (map me_id (live_entries now m))"
    using m unfolding live_entries_def keep_last_map_commute [symmetric]
    by (intro sorted_wrt_keep_last sorted_filter_map) (simp add: nodes_ok_def ids_def)
  with m set_live_entries [of now m] show ?thesis
    by (auto simp: nodes_ok_def ids_def live_entries_def)
qed

lemma memory_inv_compact: "memory_inv m \<Longrightarrow> memory_inv (snd (compact now m))"
proof -
  assume m: "memory_inv m"
  let ?a = "set (map me_id (live_entries now m))"
  have sub: "?a \<subseteq> set (ids m)" using set_live_entries [of now m] by (auto simp: ids_def)
  then have "links_ok ?a (alive_links ?a (wm_links m))"
    using links_ok_alive [of "set (ids m)" "wm_links m" ?a] m by (auto simp: memory_inv_def inf.absorb2)
  moreover have "length (alive_links ?a (wm_links m)) \<le> length (wm_links m)" by (simp add: alive_links_def)
  moreover have "nodes_ok (snd (compact now m))" using m by (simp add: memory_inv_def nodes_ok_compact)
  moreover have "compactions_ok (snd (compact now m))"
    using m by (intro compactions_ok_compact) (simp add: memory_inv_def compactions_ok_def)
  moreover have "length (live_entries now m) \<le> mc_max_entries (wm_config m)" by (simp add: live_entries_def)
  ultimately show ?thesis using m by (auto simp: memory_inv_def ids_def compactions_ok_def)
qed

section \<open>Insertion\<close>

definition entries_after :: "memory_entry \<Rightarrow> u64 \<Rightarrow> working_memory \<Rightarrow> memory_entry list" where
  "entries_after e now m =
     keep_last (mc_max_entries (wm_config m))
       (filter (\<lambda>x. now < me_expires_at_ms x) (wm_entries m @ [e\<lparr>me_id := wm_next_id m\<rparr>]))"

lemma filter_keep_last_filter: "filter P (keep_last n (filter P xs)) = keep_last n (filter P xs)"
  by (rule filter_True) (use set_keep_last [of n "filter P xs"] in auto)

lemma keep_last_snoc_eq: "0 < n \<Longrightarrow> keep_last n (xs @ [x]) = keep_last (n - 1) xs @ [x]"
  by (cases "length xs \<le> n - 1") (auto simp: keep_last_def Suc_diff_le)

lemma push_bounded_exhausted:
  "u64_max < wm_next_id m + 1 \<Longrightarrow> push_bounded e now m = (Inl (AE_Invariant ''memory node id space exhausted''), m)"
  by (simp add: push_bounded_def cadd_def)

lemma set_keep_lastD: "x \<in> set (keep_last n xs) \<Longrightarrow> x \<in> set xs"
  using set_keep_last by (rule subsetD)

lemma entries_after_ids:
  "set (map me_id (entries_after e now m)) \<subseteq> insert (wm_next_id m) (set (map me_id (live_entries now m)))"
proof
  let ?n = "mc_max_entries (wm_config m)" and ?f = "filter (\<lambda>x. now < me_expires_at_ms x)"
  fix i assume "i \<in> set (map me_id (entries_after e now m))"
  then obtain x where x: "x \<in> set (entries_after e now m)" "i = me_id x" by auto
  have "entries_after e now m = keep_last ?n (keep_last ?n (?f (wm_entries m)) @ ?f [e\<lparr>me_id := wm_next_id m\<rparr>])"
    by (simp add: entries_after_def keep_last_append)
  with x(1) have "x \<in> set (keep_last ?n (?f (wm_entries m)) @ ?f [e\<lparr>me_id := wm_next_id m\<rparr>])"
    by (auto dest: set_keep_lastD)
  with x(2) show "i \<in> insert (wm_next_id m) (set (map me_id (live_entries now m)))"
    by (auto simp: live_entries_def split: if_splits)
qed

lemma alive_links_cong:
  "(\<And>l. l \<in> set ls \<Longrightarrow> (ln_from l \<in> a \<and> ln_to l \<in> a) = (ln_from l \<in> b \<and> ln_to l \<in> b)) \<Longrightarrow>
     alive_links a ls = alive_links b ls"
  by (simp add: alive_links_def cong: filter_cong)

definition push_outcome :: "working_memory \<Rightarrow> adaptation_error + memory_entry" where
  "push_outcome m =
     (if wm_entries m = [] then Inl (AE_Invariant ''inserted memory entry disappeared'') else Inr (last (wm_entries m)))"

lemma push_bounded_state:
  assumes "memory_inv m" "wm_next_id m + 1 \<le> u64_max"
  obtains m' where "push_bounded e now m = (push_outcome m', m')" "wm_entries m' = entries_after e now m"
    "wm_config m' = wm_config m" "wm_pseudonymizer m' = wm_pseudonymizer m" "wm_next_id m' = wm_next_id m + 1"
    "wm_links m' = alive_links (set (ids m')) (wm_links m)"
    "wm_entries_high_water m' =
       max (max (wm_entries_high_water m) (length (live_entries now m))) (length (entries_after e now m))"
    "wm_links_high_water m' = wm_links_high_water m" "compactions_ok m'"
proof -
  let ?m1 = "snd (compact now (m\<lparr>wm_next_id := wm_next_id m + 1\<rparr>))"
  let ?m2 = "snd (compact now (?m1\<lparr>wm_entries := wm_entries ?m1 @ [e\<lparr>me_id := wm_next_id m\<rparr>]\<rparr>))"
  have l1: "live_entries now (m\<lparr>wm_next_id := x\<rparr>) = live_entries now m" for x by (simp add: live_entries_def)
  have e2: "wm_entries ?m2 = entries_after e now m"
    by (simp add: live_entries_def entries_after_def l1 filter_keep_last_filter keep_last_append)
  have p: "push_bounded e now m = (push_outcome ?m2, ?m2)"
    using assms(2) by (simp add: push_bounded_def cadd_def Let_def push_outcome_def)
  let ?a = "set (map me_id (live_entries now m))" and ?b = "set (map me_id (entries_after e now m))"
  have links: "wm_links ?m2 = alive_links (?b \<inter> ?a) (wm_links m)"
    using e2 by (simp add: l1 del: One_nat_def add_Suc_right Suc_eq_plus1_left)
  have "alive_links (?b \<inter> ?a) (wm_links m) = alive_links ?b (wm_links m)"
  proof (rule alive_links_cong)
    fix l assume "l \<in> set (wm_links m)"
    then have "ln_from l \<in> set (ids m)" "ln_to l \<in> set (ids m)"
      using assms(1) by (auto simp: memory_inv_def links_ok_def link_ok_def)
    then have "ln_from l \<noteq> wm_next_id m" "ln_to l \<noteq> wm_next_id m"
      using assms(1) by (auto simp: memory_inv_def nodes_ok_def)
    then show "(ln_from l \<in> ?b \<inter> ?a \<and> ln_to l \<in> ?b \<inter> ?a) = (ln_from l \<in> ?b \<and> ln_to l \<in> ?b)"
      using entries_after_ids [of e now m] by (auto simp del: set_map)
  qed
  with links have "wm_links ?m2 = alive_links (set (ids ?m2)) (wm_links m)" unfolding ids_def e2 by (rule trans)
  moreover have "wm_entries_high_water ?m2 =
      max (max (wm_entries_high_water m) (length (live_entries now m))) (length (wm_entries ?m2))"
    by (simp add: l1)
  then have "wm_entries_high_water ?m2 =
      max (max (wm_entries_high_water m) (length (live_entries now m))) (length (entries_after e now m))"
    unfolding e2 .
  moreover have "compactions_ok (m\<lparr>wm_next_id := wm_next_id m + 1\<rparr>)"
    using assms(1) by (simp add: memory_inv_def compactions_ok_def)
  then have "compactions_ok ?m2" by (intro compactions_ok_compact) (simp add: compactions_ok_compact)
  ultimately show thesis by (intro that [OF p e2]) simp_all
qed

lemma links_ok_mono: "links_ok a ls \<Longrightarrow> a \<subseteq> b \<Longrightarrow> links_ok b ls"
  by (auto simp: links_ok_def link_ok_def split: if_splits)

lemma nodes_ok_after:
  assumes "nodes_ok m" "0 < mc_max_entries (wm_config m)" "me_expires_at_ms e \<le> u64_max"
    and "wm_entries m' = entries_after e now m" "wm_config m' = wm_config m" "wm_next_id m' = wm_next_id m + 1"
  shows "nodes_ok m'"
proof -
  let ?all = "wm_entries m @ [e\<lparr>me_id := wm_next_id m\<rparr>]"
  have "sorted_wrt (<) (map me_id ?all)" using assms(1) by (auto simp: nodes_ok_def ids_def sorted_wrt_append)
  then have "sorted_wrt (<) (map me_id (entries_after e now m))"
    unfolding entries_after_def keep_last_map_commute [symmetric] by (intro sorted_wrt_keep_last sorted_filter_map)
  moreover have "set (entries_after e now m) \<subseteq> set ?all" by (auto simp: entries_after_def dest!: set_keep_lastD)
  moreover have "length (entries_after e now m) \<le> mc_max_entries (wm_config m)" by (simp add: entries_after_def)
  ultimately show ?thesis using assms by (fastforce simp: nodes_ok_def ids_def)
qed

lemma push_bounded_inv:
  assumes "memory_inv m" "me_expires_at_ms e \<le> u64_max" "push_bounded e now m = (r, m')"
  shows "memory_inv m'"
proof (cases "wm_next_id m + 1 \<le> u64_max")
  case False
  with assms show ?thesis by (simp add: push_bounded_exhausted)
next
  case True
  obtain m2 where s: "push_bounded e now m = (push_outcome m2, m2)" "wm_entries m2 = entries_after e now m"
    "wm_config m2 = wm_config m" "wm_next_id m2 = wm_next_id m + 1"
    "wm_links m2 = alive_links (set (ids m2)) (wm_links m)"
    "wm_entries_high_water m2 =
       max (max (wm_entries_high_water m) (length (live_entries now m))) (length (entries_after e now m))"
    "wm_links_high_water m2 = wm_links_high_water m" "compactions_ok m2"
    using push_bounded_state [OF assms(1) True, of e now] by metis
  have c: "0 < mc_max_entries (wm_config m)" using assms(1) by (simp add: memory_inv_def memory_config_ok_def)
  have "nodes_ok m" using assms(1) by (simp only: memory_inv_def)
  then have n: "nodes_ok m2" by (rule nodes_ok_after [OF _ c assms(2) s(2-4)])
  have "links_ok (set (ids m) \<inter> set (ids m2)) (wm_links m2)"
    using assms(1) unfolding s(5) by (intro links_ok_alive) (simp add: memory_inv_def)
  then have l: "links_ok (set (ids m2)) (wm_links m2)" by (rule links_ok_mono) simp
  have e: "length (entries_after e now m) \<le> mc_max_entries (wm_config m)"
    "length (live_entries now m) \<le> mc_max_entries (wm_config m)"
    by (simp_all add: entries_after_def live_entries_def)
  have k: "length (wm_links m2) \<le> length (wm_links m)" by (simp add: s(5) alive_links_def)
  have "length (wm_links m2) \<le> mc_max_links (wm_config m2)" "length (wm_links m2) \<le> wm_links_high_water m2"
    "wm_links_high_water m2 \<le> mc_max_links (wm_config m2)" "memory_config_ok (wm_config m2)"
    using assms(1) k unfolding memory_inv_def s(3,7) by linarith+
  moreover have "wm_entries_high_water m2 \<le> mc_max_entries (wm_config m2)"
    "length (wm_entries m2) \<le> wm_entries_high_water m2"
    using assms(1) e unfolding memory_inv_def s(2,3,6) by linarith+
  moreover have "length (wm_compactions m2) \<le> mc_max_compactions (wm_config m2)"
    using s(8) unfolding compactions_ok_def by linarith
  ultimately have "memory_inv m2" using n l s(8) unfolding memory_inv_def compactions_ok_def by blast
  with assms(3) s(1) show ?thesis by simp
qed

text \<open>The projection made before an insertion is what the insertion leaves.\<close>

lemma keep_last_keep_last: "k \<le> n \<Longrightarrow> keep_last k (keep_last n xs) = keep_last k xs"
  by (cases "length xs \<le> n") (simp_all add: keep_last_def)

lemma projected_survivors_keep_last:
  "0 < mc_max_entries (wm_config m) \<Longrightarrow>
     projected_survivors now m =
       keep_last (mc_max_entries (wm_config m) - 1) (map me_id (filter (\<lambda>x. now < me_expires_at_ms x) (wm_entries m)))"
proof -
  let ?n = "mc_max_entries (wm_config m)" and ?s = "map me_id (filter (\<lambda>x. now < me_expires_at_ms x) (wm_entries m))"
  assume n: "0 < ?n"
  have "projected_survivors now m = keep_last (?n - 1) (keep_last ?n ?s)"
  proof -
    have "length xs + 1 - ?n = length xs - (?n - 1)" for xs :: "u64 list" using n by linarith
    then show ?thesis unfolding projected_survivors_def Let_def keep_last_def by (simp only:)
  qed
  then show ?thesis by (simp add: keep_last_keep_last)
qed

lemma projected_survivors_exact:
  assumes "0 < mc_max_entries (wm_config m)" "now < me_expires_at_ms e"
  shows "map me_id (entries_after e now m) = projected_survivors now m @ [wm_next_id m]"
  using assms by (simp add: projected_survivors_keep_last entries_after_def keep_last_snoc_eq keep_last_map_commute)

end
