(* ===== verification/Memory_Links.thy ===== *)
theory Memory_Links
  imports Memory_Inv
begin

text \<open>
  The link store of the working memory: how the declared and derived edges enter it, how its bound is
  enforced, and that a durable write with evidence keeps the invariant and all explicit edges whose two
  endpoints are still retained.
\<close>

section \<open>Pushing edges\<close>

lemma is_explicit_iff: "is_explicit l \<longleftrightarrow> ln_kind l \<noteq> LK_TemporalBefore"
  by (cases "ln_kind l") (auto simp: is_explicit_def)

lemma push_link_eq: "push_link l ls = (if link_key l \<in> link_key ` set ls then ls else ls @ [l])"
proof -
  have "list_ex (\<lambda>x. ln_kind x = ln_kind l \<and> ln_from x = ln_from l \<and> ln_to x = ln_to l) ls \<longleftrightarrow> link_key l \<in> link_key ` set ls"
    unfolding list_ex_iff image_iff link_key_def prod.inject by metis
  then show ?thesis unfolding push_link_def by (rule if_cong) simp_all
qed

lemma links_ok_push_link: "links_ok a ls \<Longrightarrow> link_ok a l \<Longrightarrow> links_ok a (push_link l ls)"
  by (auto simp: push_link_eq links_ok_def)

lemma push_link_cases: "push_link l ls = ls \<or> push_link l ls = ls @ [l]"
  by (simp add: push_link_eq)

lemma push_link_key: "link_key l \<in> link_key ` set (push_link l ls)"
  by (simp add: push_link_eq)

lemma set_push_link: "set ls \<subseteq> set (push_link l ls)" "set (push_link l ls) \<subseteq> insert l (set ls)"
  by (auto simp: push_link_eq)

definition declared_link :: "u64 \<Rightarrow> u64 \<Rightarrow> u64 \<times> link_kind \<Rightarrow> memory_link" where
  "declared_link i now tk = \<lparr>ln_from = i, ln_to = fst tk, ln_kind = snd tk, ln_created_at_ms = now\<rparr>"

definition spine_link :: "u64 \<Rightarrow> u64 \<Rightarrow> u64 \<times> u64 \<Rightarrow> memory_link" where
  "spine_link i now co = \<lparr>ln_from = snd co, ln_to = i, ln_kind = LK_TemporalBefore, ln_created_at_ms = now\<rparr>"

text \<open>Within its budget the loop over the declarations is a plain fold, and so is the loop over the spine.\<close>

lemma push_declared_fold:
  "length ts \<le> budget \<Longrightarrow>
     push_declared i now ts budget ls = (fold push_link (map (declared_link i now) ts) ls, budget - length ts)"
  by (induction i now ts budget ls rule: push_declared.induct) (auto simp: declared_link_def)

lemma push_spine_fold: "push_spine i now os ls = fold push_link (map (spine_link i now) os) ls"
  by (induction i now os ls rule: push_spine.induct) (auto simp: spine_link_def)

lemma links_ok_fold: "links_ok a ls \<Longrightarrow> (\<forall>l\<in>set new. link_ok a l) \<Longrightarrow> links_ok a (fold push_link new ls)"
  by (induction new arbitrary: ls) (auto simp: links_ok_push_link)

lemma set_fold_push: "set ls \<subseteq> set (fold push_link new ls)" "set (fold push_link new ls) \<subseteq> set ls \<union> set new"
proof (induction new arbitrary: ls)
  case (Cons l new)
  { case 1 show ?case using set_push_link(1) [of ls l] Cons(1) [of "push_link l ls"] by auto }
  { case 2 show ?case using set_push_link(2) [of l ls] Cons(2) [of "push_link l ls"] by auto }
qed simp_all

lemma keys_fold_push: "link_key ` set new \<subseteq> link_key ` set (fold push_link new ls)"
proof (induction new arbitrary: ls)
  case (Cons l new)
  have "link_key l \<in> link_key ` set (fold push_link new (push_link l ls))"
    using push_link_key [of l ls] set_fold_push(1) [of "push_link l ls" new] by auto
  with Cons [of "push_link l ls"] show ?case by simp
qed simp

text \<open>Counting the edges with a property.\<close>

lemma count_push_link: "length (filter P (push_link l ls)) \<le> length (filter P ls) + (if P l then 1 else 0)"
  by (simp add: push_link_eq)

lemma count_fold_push: "length (filter P (fold push_link new ls)) \<le> length (filter P ls) + length (filter P new)"
proof (induction new arbitrary: ls)
  case (Cons l new)
  have "length (filter P (fold push_link new (push_link l ls))) \<le> length (filter P (push_link l ls)) + length (filter P new)"
    by (rule Cons)
  also have "\<dots> \<le> length (filter P ls) + length (filter P (l # new))" using count_push_link [of P l ls] by (auto split: if_splits)
  finally show ?case by simp
qed simp

section \<open>The bound\<close>

lemma remove_first_filter:
  "remove_first P xs = Some ys \<Longrightarrow> filter (\<lambda>x. \<not> P x) ys = filter (\<lambda>x. \<not> P x) xs \<and> set ys \<subseteq> set xs \<and>
     Suc (length ys) = length xs \<and> (distinct (map f xs) \<longrightarrow> distinct (map f ys))"
  by (induction P xs arbitrary: ys rule: remove_first.induct) (auto split: if_splits, fastforce+)

lemma remove_first_None: "remove_first P xs = None \<longleftrightarrow> (\<forall>x\<in>set xs. \<not> P x)"
  by (induction P xs rule: remove_first.induct) auto

lemma shed_derived_sound:
  "filter is_explicit (shed_derived cap ls) = filter is_explicit ls \<and> set (shed_derived cap ls) \<subseteq> set ls \<and>
     length (shed_derived cap ls) \<le> max cap (length (filter is_explicit ls)) \<and>
     (distinct (map link_key ls) \<longrightarrow> distinct (map link_key (shed_derived cap ls)))"
proof (induction cap ls rule: shed_derived.induct)
  case (1 cap ls)
  show ?case
  proof (cases "cap < length ls")
    case True
    show ?thesis
    proof (cases "remove_first (\<lambda>l. ln_kind l = LK_TemporalBefore) ls")
      case None
      then have "filter is_explicit ls = ls" by (auto simp: remove_first_None is_explicit_iff intro: filter_True)
      with None True show ?thesis by (simp add: shed_derived.simps)
    next
      case (Some ls')
      have eq: "is_explicit = (\<lambda>l. ln_kind l \<noteq> LK_TemporalBefore)" by (simp add: fun_eq_iff is_explicit_iff)
      have "filter is_explicit ls' = filter is_explicit ls \<and> set ls' \<subseteq> set ls \<and>
          (distinct (map link_key ls) \<longrightarrow> distinct (map link_key ls'))"
        using remove_first_filter [OF Some, of link_key] unfolding eq by blast
      with 1 [OF True Some] show ?thesis using True Some by (simp add: shed_derived.simps [of cap ls]) blast
    qed
  qed (simp add: shed_derived.simps)
qed

lemma links_ok_shed: "links_ok a ls \<Longrightarrow> links_ok a (shed_derived cap ls)"
  using shed_derived_sound [of cap ls] by (auto simp: links_ok_def)

section \<open>Linking a new node\<close>

definition declared_links :: "u64 \<Rightarrow> u64 \<Rightarrow> u64 list \<Rightarrow> u64 list \<Rightarrow> memory_link list" where
  "declared_links i now supers causes =
     map (declared_link i now) (map (\<lambda>t. (t, LK_Supersedes)) supers @ map (\<lambda>t. (t, LK_CausedBy)) causes)"

definition spine_links :: "'v memory_lib \<Rightarrow> u64 \<Rightarrow> string option \<Rightarrow> u64 \<Rightarrow> nat \<Rightarrow> working_memory \<Rightarrow> memory_link list" where
  "spine_links lib i topic now budget m =
     (case topic of None \<Rightarrow> []
      | Some tp \<Rightarrow> map (spine_link i now) (older_in_topic lib tp i now budget (wm_entries m)))"

definition graph_links ::
  "'v memory_lib \<Rightarrow> u64 \<Rightarrow> string option \<Rightarrow> u64 \<Rightarrow> u64 list \<Rightarrow> u64 list \<Rightarrow> working_memory \<Rightarrow> memory_link list" where
  "graph_links lib i topic now supers causes m =
     alive_links (set (ids m))
       (fold push_link
         (declared_links i now supers causes @
          spine_links lib i topic now (mc_max_links_per_memory (wm_config m) - length (supers @ causes)) m)
         (wm_links m))"

lemma link_new_memory_frame [simp]:
  "wm_entries (link_new_memory lib i tp now su ca m) = wm_entries m"
  "wm_config (link_new_memory lib i tp now su ca m) = wm_config m"
  "wm_pseudonymizer (link_new_memory lib i tp now su ca m) = wm_pseudonymizer m"
  "wm_next_id (link_new_memory lib i tp now su ca m) = wm_next_id m"
  "wm_compactions (link_new_memory lib i tp now su ca m) = wm_compactions m"
  "wm_compactions_high_water (link_new_memory lib i tp now su ca m) = wm_compactions_high_water m"
  "wm_entries_high_water (link_new_memory lib i tp now su ca m) = wm_entries_high_water m"
  by (simp_all add: link_new_memory_def Let_def enforce_link_bound_def prune_links_def split: prod.splits)

lemma ids_link_new_memory [simp]: "ids (link_new_memory lib i tp now su ca m) = ids m"
  by (simp add: ids_def)

lemma link_new_memory_links:
  assumes "length (su @ ca) \<le> mc_max_links_per_memory (wm_config m)"
  shows "wm_links (link_new_memory lib i tp now su ca m) =
           shed_derived (mc_max_links (wm_config m)) (graph_links lib i tp now su ca m)"
    and "wm_links_high_water (link_new_memory lib i tp now su ca m) =
           max (wm_links_high_water m) (length (wm_links (link_new_memory lib i tp now su ca m)))"
  using assms
  by (simp_all add: link_new_memory_def Let_def enforce_link_bound_def prune_links_def graph_links_def
      push_declared_fold push_spine_fold declared_links_def spine_links_def alive_links_def ids_def
      split: option.splits)

lemma declared_links_ok:
  "set (su @ ca) \<subseteq> a \<Longrightarrow> i \<in> a \<Longrightarrow> (\<forall>t\<in>set (su @ ca). t < i) \<Longrightarrow> \<forall>l\<in>set (declared_links i now su ca). link_ok a l"
  by (auto simp: declared_links_def declared_link_def link_ok_def is_explicit_def)

lemma spine_links_ok:
  assumes "nodes_ok m" "i \<in> set (ids m)" "\<forall>j\<in>set (ids m). j \<le> i"
  shows "\<forall>l\<in>set (spine_links lib i tp now b m). link_ok (set (ids m)) l"
proof (cases tp)
  case (Some s)
  have "co \<in> set (older_in_topic lib s i now b (wm_entries m)) \<Longrightarrow> snd co \<in> set (ids m) \<and> snd co \<noteq> i" for co
    by (auto simp: older_in_topic_def ids_def dest!: in_set_takeD)
  then have "snd co \<in> set (ids m) \<and> snd co < i" if "co \<in> set (older_in_topic lib s i now b (wm_entries m))" for co
    using that assms(3) order_le_neq_trans by metis
  then have "link_ok (set (ids m)) (spine_link i now co)"
    if "co \<in> set (older_in_topic lib s i now b (wm_entries m))" for co
    using that assms(2) by (simp add: spine_link_def link_ok_def is_explicit_def)
  with Some show ?thesis by (simp add: spine_links_def)
qed (simp add: spine_links_def)

lemma graph_links_ok:
  assumes "nodes_ok m" "i \<in> set (ids m)" "\<forall>j\<in>set (ids m). j \<le> i" "links_ok (set (ids m)) (wm_links m)"
    and "\<forall>t\<in>set (su @ ca). t < i"
  shows "links_ok (set (ids m)) (graph_links lib i tp now su ca m)"
proof -
  let ?a = "set (ids m) \<union> set (su @ ca)"
  have mono: "link_ok (set (ids m)) l \<Longrightarrow> link_ok ?a l" for l by (auto simp: link_ok_def)
  have "links_ok ?a (fold push_link (declared_links i now su ca @ spine_links lib i tp now b m) (wm_links m))" for b
  proof (rule links_ok_fold)
    show "links_ok ?a (wm_links m)" using assms(4) by (rule links_ok_mono) simp
    show "\<forall>l\<in>set (declared_links i now su ca @ spine_links lib i tp now b m). link_ok ?a l"
      using declared_links_ok [of su ca ?a i now] spine_links_ok [OF assms(1-3), of lib tp now b] assms(2,5) mono
      by auto
  qed
  from links_ok_alive [OF this, of "set (ids m)"] have
    "links_ok (?a \<inter> set (ids m)) (graph_links lib i tp now su ca m)" by (simp add: graph_links_def)
  then show ?thesis by (rule links_ok_mono) simp
qed

text \<open>The explicit edges that a write leaves.\<close>

lemma filter_alive_links: "filter P (alive_links a ls) = filter (\<lambda>l. P l \<and> ln_from l \<in> a \<and> ln_to l \<in> a) ls"
  by (simp add: alive_links_def conj_commute)

lemma count_explicit_graph:
  assumes "links_ok (set (ids m)) (wm_links m)"
  shows "length (filter is_explicit (graph_links lib i tp now su ca m)) \<le>
    length (filter is_explicit (wm_links m)) + length (filter (\<lambda>t. t \<in> set (ids m)) (su @ ca))"
proof -
  let ?P = "\<lambda>l. is_explicit l \<and> ln_from l \<in> set (ids m) \<and> ln_to l \<in> set (ids m)"
  let ?b = "mc_max_links_per_memory (wm_config m) - length (su @ ca)"
  have "filter ?P (wm_links m) = filter is_explicit (wm_links m)"
    using assms by (intro filter_cong) (auto simp: links_ok_def link_ok_def)
  moreover have "filter ?P (spine_links lib i tp now ?b m) = []"
    by (auto simp: spine_links_def spine_link_def is_explicit_def filter_empty_conv split: option.splits)
  moreover have "length (filter ?P (declared_links i now su ca)) \<le> length (filter (\<lambda>t. t \<in> set (ids m)) (su @ ca))"
    by (cases "i \<in> set (ids m)") (simp_all add: declared_links_def declared_link_def is_explicit_def filter_map o_def)
  ultimately show ?thesis
    using count_fold_push [of ?P "declared_links i now su ca @ spine_links lib i tp now ?b m" "wm_links m"]
    by (simp add: graph_links_def filter_alive_links)
qed

lemma graph_links_keep:
  "l \<in> set (wm_links m) \<Longrightarrow> link_ok (set (ids m)) l \<Longrightarrow> l \<in> set (graph_links lib i tp now su ca m)"
  using subsetD [OF set_fold_push(1)] by (simp add: graph_links_def alive_links_def link_ok_def)

lemma graph_links_declared:
  assumes "l \<in> set (declared_links i now su ca)" "i \<in> set (ids m)" "ln_to l \<in> set (ids m)"
  shows "link_key l \<in> link_key ` set (graph_links lib i tp now su ca m)"
proof -
  let ?new = "declared_links i now su ca @ spine_links lib i tp now (mc_max_links_per_memory (wm_config m) - length (su @ ca)) m"
  have "link_key l \<in> link_key ` set (fold push_link ?new (wm_links m))"
    using keys_fold_push [of ?new "wm_links m"] assms(1) by auto
  then obtain l' where l': "l' \<in> set (fold push_link ?new (wm_links m))" "link_key l' = link_key l" by auto
  moreover have "ln_from l = i" using assms(1) by (auto simp: declared_links_def declared_link_def)
  ultimately have "l' \<in> set (graph_links lib i tp now su ca m)"
    using assms(2,3) by (auto simp: graph_links_def alive_links_def link_key_def)
  with l'(2) show ?thesis by (metis image_eqI)
qed

end
