(* ===== verification/Memory_Write.thy ===== *)
theory Memory_Write
  imports Memory_Links
begin

text \<open>
  Writes to the working memory: what the declared evidence resolves to, the outcome of a working and of a
  durable write, and the transition system of all operations with its invariant.
\<close>

section \<open>Resolution of declared evidence\<close>

lemma collect_declared_length: "collect_declared ts b seen = Some (out, b') \<Longrightarrow> length out + b' = length seen + b"
  by (induction ts b seen rule: collect_declared.induct) (auto split: if_splits)

lemma collect_declared_set: "collect_declared ts b seen = Some (out, b') \<Longrightarrow> set out = set seen \<union> set ts"
  by (induction ts b seen rule: collect_declared.induct) (auto split: if_splits simp: insert_absorb)

text \<open>The one retained, durable, unexpired node of a source event.\<close>

definition durable_nodes :: "string \<Rightarrow> u64 \<Rightarrow> working_memory \<Rightarrow> memory_entry list" where
  "durable_nodes i now m =
     filter (\<lambda>e. mso_event_id (me_source e) = i \<and> me_retention e = RC_Durable \<and> now < me_expires_at_ms e) (wm_entries m)"

lemma resolve_target_iff:
  "resolve_declared_target i now rel m = Inr n \<longleftrightarrow>
     (\<exists>e. durable_nodes i now m = [e] \<and> me_created_at_ms e \<le> now \<and> n = me_id e)"
proof -
  have "filter (\<lambda>e. now < me_expires_at_ms e)
      (filter (\<lambda>e. mso_event_id (me_source e) = i \<and> me_retention e = RC_Durable) (wm_entries m)) = durable_nodes i now m"
    unfolding durable_nodes_def filter_filter by (rule filter_cong) auto
  moreover have "durable_nodes i now m = [] \<or> (\<exists>e. durable_nodes i now m = [e]) \<or> (\<exists>a b c. durable_nodes i now m = a # b # c)"
    by (metis list.exhaust)
  moreover have "filter (\<lambda>e. mso_event_id (me_source e) = i \<and> me_retention e = RC_Durable) (wm_entries m) = [] \<Longrightarrow>
      durable_nodes i now m = []"
    by (auto simp: durable_nodes_def filter_empty_conv)
  ultimately show ?thesis by (auto simp: resolve_declared_target_def Let_def split: list.splits)
qed

lemma resolve_all_iff:
  "resolve_all is now rel m = Inr ns \<longleftrightarrow> list_all2 (\<lambda>i n. resolve_declared_target i now rel m = Inr n) is ns"
proof (induction "is" arbitrary: ns)
  case (Cons i "is")
  show ?case
  proof (cases "resolve_declared_target i now rel m")
    case (Inr n)
    then show ?thesis using Cons by (cases "resolve_all is now rel m") (auto simp: rbind_def list_all2_Cons1)
  qed (simp add: rbind_def list_all2_Cons1)
qed auto

lemma resolve_all_ids: "resolve_all is now rel m = Inr ns \<Longrightarrow> set ns \<subseteq> set (ids m) \<and> length ns = length is"
  unfolding resolve_all_iff
proof (induction rule: list_all2_induct)
  case (Cons i "is" n ns)
  from Cons(1) obtain e where e: "durable_nodes i now m = [e]" "n = me_id e" by (auto simp: resolve_target_iff)
  have "e \<in> set (durable_nodes i now m)" by (simp add: e(1))
  then have "n \<in> set (ids m)" by (simp add: e(2) durable_nodes_def ids_def)
  with Cons show ?case by simp
qed simp

lemma resolve_evidence_cases:
  assumes "resolve_evidence ev now m = Inr (targets, nodes)"
  obtains su ca where "set su = set (mev_supersedes ev)" "set ca = set (mev_caused_by ev)"
    "resolve_all su now DR_Supersession m = Inr targets" "resolve_all ca now DR_Causal m = Inr nodes"
    "length (targets @ nodes) \<le> mc_max_links_per_memory (wm_config m)" "set (targets @ nodes) \<subseteq> set (ids m)"
proof -
  let ?per = "mc_max_links_per_memory (wm_config m)"
  obtain su b ca b' where c: "collect_declared (mev_supersedes ev) ?per [] = Some (su, b)"
    "collect_declared (mev_caused_by ev) b [] = Some (ca, b')"
    "resolve_all su now DR_Supersession m = Inr targets" "resolve_all ca now DR_Causal m = Inr nodes"
    using assms
    by (auto simp: resolve_evidence_def Let_def rbind_def split: if_splits option.splits prod.splits sum.splits)
  have "length su + length ca \<le> ?per" using collect_declared_length [OF c(1)] collect_declared_length [OF c(2)] by simp
  with c resolve_all_ids [OF c(3)] resolve_all_ids [OF c(4)] collect_declared_set [OF c(1)] collect_declared_set [OF c(2)]
  show thesis by (intro that [of su ca]) auto
qed

section \<open>The outcome of a push\<close>

lemma entries_after_expired: "u64_max \<le> now \<Longrightarrow> nodes_ok m \<Longrightarrow> me_expires_at_ms e \<le> u64_max \<Longrightarrow> entries_after e now m = []"
proof -
  assume a: "u64_max \<le> now" "nodes_ok m" "me_expires_at_ms e \<le> u64_max"
  then have "filter (\<lambda>x. now < me_expires_at_ms x) (wm_entries m @ [e\<lparr>me_id := wm_next_id m\<rparr>]) = []"
    by (fastforce simp: nodes_ok_def filter_empty_conv)
  then show ?thesis by (simp only: entries_after_def) (simp add: keep_last_def)
qed

lemma last_entries_after:
  assumes "0 < mc_max_entries (wm_config m)" "now < me_expires_at_ms e"
  shows "entries_after e now m =
           keep_last (mc_max_entries (wm_config m) - 1) (filter (\<lambda>x. now < me_expires_at_ms x) (wm_entries m))
             @ [e\<lparr>me_id := wm_next_id m\<rparr>]"
  using assms by (simp add: entries_after_def keep_last_snoc_eq)

lemma push_outcome_simps:
  "wm_entries m = [] \<Longrightarrow> push_outcome m = Inl (AE_Invariant ''inserted memory entry disappeared'')"
  "wm_entries m = es @ [e] \<Longrightarrow> push_outcome m = Inr e"
  by (simp_all add: push_outcome_def)

lemma push_bounded_cases:
  assumes "memory_inv m" "now \<le> u64_max" "me_expires_at_ms e = sadd now ttl" "0 < ttl"
  obtains (exhausted) "push_bounded e now m = (Inl (AE_Invariant ''memory node id space exhausted''), m)"
      "u64_max < wm_next_id m + 1"
  | (expired) m' where "push_bounded e now m = (Inl (AE_Invariant ''inserted memory entry disappeared''), m')"
      "now = u64_max" "memory_inv m'" "wm_entries m' = []" "wm_links m' = []" "wm_config m' = wm_config m"
  | (stored) m' where "push_bounded e now m = (Inr (e\<lparr>me_id := wm_next_id m\<rparr>), m')" "now < u64_max" "memory_inv m'"
      "wm_entries m' = entries_after e now m" "ids m' = projected_survivors now m @ [wm_next_id m]"
      "wm_config m' = wm_config m" "wm_pseudonymizer m' = wm_pseudonymizer m" "wm_next_id m' = wm_next_id m + 1"
      "wm_links m' = alive_links (set (ids m')) (wm_links m)"
proof (cases "wm_next_id m + 1 \<le> u64_max")
  case False
  then show thesis by (intro exhausted) (simp_all add: push_bounded_exhausted)
next
  case True
  obtain m2 where s: "push_bounded e now m = (push_outcome m2, m2)" "wm_entries m2 = entries_after e now m"
    "wm_config m2 = wm_config m" "wm_pseudonymizer m2 = wm_pseudonymizer m" "wm_next_id m2 = wm_next_id m + 1"
    "wm_links m2 = alive_links (set (ids m2)) (wm_links m)"
    using push_bounded_state [OF assms(1) True, of e now] by metis
  have ex: "me_expires_at_ms e \<le> u64_max" by (simp add: assms(3) sadd_def)
  have inv: "memory_inv m2" by (rule push_bounded_inv [OF assms(1) ex s(1)])
  have c: "0 < mc_max_entries (wm_config m)" "nodes_ok m" using assms(1) by (simp_all add: memory_inv_def memory_config_ok_def)
  show thesis
  proof (cases "now < u64_max")
    case True
    then have lt: "now < me_expires_at_ms e" using assms(3,4) by (simp add: sadd_def)
    have "push_outcome m2 = Inr (e\<lparr>me_id := wm_next_id m\<rparr>)"
      by (rule push_outcome_simps(2) [OF s(2) [unfolded last_entries_after [OF c(1) lt]]])
    moreover have "ids m2 = projected_survivors now m @ [wm_next_id m]"
      unfolding ids_def s(2) by (rule projected_survivors_exact [OF c(1) lt])
    ultimately show thesis by (intro stored [OF _ True inv s(2) _ s(3-6)]) (simp_all add: s(1))
  next
    case False
    then have e: "wm_entries m2 = []" using s(2) entries_after_expired [OF _ c(2) ex] by simp
    then have "wm_links m2 = []" unfolding s(6) by (simp add: ids_def alive_links_def)
    moreover have "now = u64_max" using False assms(2) by simp
    ultimately show thesis by (intro expired [OF s(1) [unfolded push_outcome_simps(1) [OF e]] _ inv e _ s(3)])
  qed
qed

lemma remember_working_cases:
  assumes "memory_inv m" "now \<le> u64_max" "remember_working lib ev claim tp now m = (r, m')"
  shows "memory_inv m' \<and> (\<forall>l\<in>set (wm_links m). ln_from l \<in> set (ids m') \<and> ln_to l \<in> set (ids m') \<longrightarrow> l \<in> set (wm_links m'))"
proof (cases "entry_from_event lib ev claim tp now RC_Working GD_WorkingOnly m")
  case (Inl e)
  with assms show ?thesis by (simp add: remember_working_def)
next
  case (Inr entry)
  then have e: "me_expires_at_ms entry = sadd now (mc_working_ttl_ms (wm_config m))"
    by (auto simp: entry_from_event_def Let_def rbind_def split: sum.splits)
  have ttl: "0 < mc_working_ttl_ms (wm_config m)" using assms(1) by (simp add: memory_inv_def memory_config_ok_def)
  from assms(3) Inr have p: "push_bounded entry now m = (r, m')" by (simp add: remember_working_def)
  from assms(1,2) e ttl show ?thesis
  proof (cases rule: push_bounded_cases)
    case exhausted
    with p assms(1) show ?thesis by simp
  next
    case (expired m2)
    with p show ?thesis by (simp add: ids_def)
  next
    case (stored m2)
    with p show ?thesis by (simp add: alive_links_def)
  qed
qed

section \<open>The outcome of a durable write\<close>

lemma explicit_count_bounded:
  assumes "memory_inv m" "evidence_fits targets nodes now m" "set (targets @ nodes) \<subseteq> set (ids m)"
    and "ids m1 = projected_survivors now m @ [wm_next_id m]" "wm_links m1 = alive_links (set (ids m1)) (wm_links m)"
  shows "length (filter is_explicit (wm_links m1)) + length (filter (\<lambda>t. t \<in> set (ids m1)) (targets @ nodes))
           \<le> mc_max_links (wm_config m)"
proof -
  let ?s = "set (projected_survivors now m)"
  have new: "wm_next_id m \<notin> set (ids m)" using assms(1) by (auto simp: memory_inv_def nodes_ok_def)
  have ids: "i \<in> set (ids m) \<Longrightarrow> i \<in> set (ids m1) \<longleftrightarrow> i \<in> ?s" for i using new by (auto simp: assms(4))
  have "l \<in> set (wm_links m) \<Longrightarrow> ln_from l \<in> set (ids m) \<and> ln_to l \<in> set (ids m)" for l
    using assms(1) by (auto simp: memory_inv_def links_ok_def link_ok_def)
  then have "filter is_explicit (wm_links m1) = filter (\<lambda>l. is_explicit l \<and> ln_from l \<in> ?s \<and> ln_to l \<in> ?s) (wm_links m)"
    unfolding assms(5) filter_alive_links using ids by (intro filter_cong) auto
  moreover have "filter (\<lambda>t. t \<in> set (ids m1)) (targets @ nodes) = filter (\<lambda>t. t \<in> ?s) (targets @ nodes)"
    using assms(3) ids by (intro filter_cong) auto
  ultimately show ?thesis using assms(2) by (simp only: evidence_fits_def Let_def)
qed

lemma link_new_memory_inv:
  assumes "memory_inv m" "evidence_fits targets nodes now m" "set (targets @ nodes) \<subseteq> set (ids m)"
    and "length (targets @ nodes) \<le> mc_max_links_per_memory (wm_config m)" "memory_inv m1"
    and "ids m1 = projected_survivors now m @ [wm_next_id m]" "wm_links m1 = alive_links (set (ids m1)) (wm_links m)"
    and "wm_config m1 = wm_config m"
  shows "memory_inv (link_new_memory lib (wm_next_id m) tp now targets nodes m1)"
proof -
  let ?i = "wm_next_id m" and ?m2 = "link_new_memory lib (wm_next_id m) tp now targets nodes m1"
  let ?g = "graph_links lib ?i tp now targets nodes m1" and ?cap = "mc_max_links (wm_config m1)"
  have per: "length (targets @ nodes) \<le> mc_max_links_per_memory (wm_config m1)" using assms(4,8) by simp
  note links = link_new_memory_links [OF per, of lib ?i tp now]
  have n1: "nodes_ok m1" and l1: "links_ok (set (ids m1)) (wm_links m1)" using assms(5) by (simp_all add: memory_inv_def)
  have "sorted_wrt (<) (ids m1)" using n1 by (simp add: nodes_ok_def)
  then have last: "\<forall>j\<in>set (ids m1). j \<le> ?i" by (auto simp: assms(6) sorted_wrt_append)
  have lt: "\<forall>t\<in>set (targets @ nodes). t < ?i" using assms(1,3) by (fastforce simp: memory_inv_def nodes_ok_def)
  have "links_ok (set (ids m1)) ?g"
    by (rule graph_links_ok [OF n1 _ last l1 lt]) (simp add: assms(6))
  then have ok: "links_ok (set (ids ?m2)) (wm_links ?m2)" by (simp add: links(1) links_ok_shed)
  have "length (filter is_explicit ?g) \<le> ?cap"
    using count_explicit_graph [OF l1, of lib ?i tp now targets nodes]
      explicit_count_bounded [OF assms(1-3,6,7)] unfolding assms(8) by linarith
  then have bound: "length (wm_links ?m2) \<le> ?cap"
    using shed_derived_sound [of ?cap ?g] unfolding links(1) by linarith
  then have high: "wm_links_high_water ?m2 \<le> ?cap"
    using assms(5) unfolding links(2) memory_inv_def by simp
  have "nodes_ok ?m2" using n1 by (simp add: nodes_ok_def)
  with assms(5) ok bound high show ?thesis
    by (simp only: memory_inv_def link_new_memory_frame) (simp add: links(2))
qed

lemma remember_durable_cases:
  assumes "memory_inv m" "now \<le> u64_max"
  obtains (refused) e where "remember_durable_with_evidence lib p claim tp now ev m = (Inl e, m)"
  | (expired) m' where
      "remember_durable_with_evidence lib p claim tp now ev m = (Inl (AE_Invariant ''inserted memory entry disappeared''), m')"
      "now = u64_max" "memory_inv m'" "wm_entries m' = []"
  | (stored) targets nodes entry m1 m' where
      "resolve_evidence ev now m = Inr (targets, nodes)" "evidence_fits targets nodes now m"
      "durable_entry lib p claim tp now m = Inr entry" "now < u64_max"
      "remember_durable_with_evidence lib p claim tp now ev m = (Inr (entry\<lparr>me_id := wm_next_id m\<rparr>), m')"
      "memory_inv m'" "wm_entries m' = entries_after entry now m" "ids m' = projected_survivors now m @ [wm_next_id m]"
      "memory_inv m1" "ids m1 = ids m'" "wm_links m1 = alive_links (set (ids m')) (wm_links m)" "wm_config m1 = wm_config m"
      "wm_config m' = wm_config m" "wm_next_id m' = wm_next_id m + 1"
      "wm_links m' = shed_derived (mc_max_links (wm_config m)) (graph_links lib (wm_next_id m) (me_topic entry) now targets nodes m1)"
      "wm_entries m1 = wm_entries m'"
proof (cases "resolve_evidence ev now m")
  case (Inl e)
  then show thesis by (intro refused) (simp add: remember_durable_with_evidence_def)
next
  case (Inr tn)
  obtain targets nodes where tn: "tn = (targets, nodes)" by (cases tn)
  note res = Inr [unfolded tn]
  from resolve_evidence_cases [OF res] have per: "length (targets @ nodes) \<le> mc_max_links_per_memory (wm_config m)"
    and sub: "set (targets @ nodes) \<subseteq> set (ids m)" by blast+
  show thesis
  proof (cases "evidence_fits targets nodes now m")
    case False
    with res show thesis by (intro refused) (simp add: remember_durable_with_evidence_def)
  next
    case fits: True
    show thesis
    proof (cases "durable_entry lib p claim tp now m")
      case (Inl e)
      with res fits show thesis by (intro refused) (simp add: remember_durable_with_evidence_def)
    next
      case entry: (Inr entry)
      then have ex: "me_expires_at_ms entry = sadd now (mc_durable_ttl_ms (wm_config m))"
        by (auto simp: durable_entry_def Let_def rbind_def split: sum.splits)
      have ttl: "0 < mc_durable_ttl_ms (wm_config m)" using assms(1) by (simp add: memory_inv_def memory_config_ok_def)
      from assms ex ttl show thesis
      proof (cases rule: push_bounded_cases)
        case exhausted
        with res fits entry show thesis by (intro refused) (simp add: remember_durable_with_evidence_def)
      next
        case (expired m')
        with res fits entry show thesis by (intro that(2)) (simp_all add: remember_durable_with_evidence_def)
      next
        case (stored m1)
        let ?m' = "link_new_memory lib (wm_next_id m) (me_topic entry) now targets nodes m1"
        have inv: "memory_inv ?m'"
          by (rule link_new_memory_inv [OF assms(1) fits sub per stored(3,5,9,6)])
        have lt: "now < me_expires_at_ms entry" using ex ttl stored(2) by (simp add: sadd_def)
        have c: "0 < mc_max_entries (wm_config m)" using assms(1) by (simp add: memory_inv_def memory_config_ok_def)
        have links: "wm_links ?m' = shed_derived (mc_max_links (wm_config m))
            (graph_links lib (wm_next_id m) (me_topic entry) now targets nodes m1)"
          using link_new_memory_links(1) [of targets nodes m1 lib "wm_next_id m" "me_topic entry" now] per
          unfolding stored(6) by blast
        have "remember_durable_with_evidence lib p claim tp now ev m = (Inr (entry\<lparr>me_id := wm_next_id m\<rparr>), ?m')"
          using res fits entry stored(1) last_entries_after [OF c lt]
          by (simp add: remember_durable_with_evidence_def Let_def stored(4))
        then show thesis
          by (rule that(3) [OF res fits entry stored(2) _ inv]) (simp_all add: stored links del: set_map, simp_all add: stored flip: stored(5))
      qed
    qed
  qed
qed

section \<open>The working memory as a transition system\<close>

datatype 'v mem_op =
  MO_Working "'v event_envelope" string "string option" u64
| MO_Durable memory_permit string "string option" u64 memory_evidence
| MO_Compact u64

text \<open>The result of a write; \<open>None\<close> for a compaction.\<close>

fun mem_exec ::
  "'v memory_lib \<Rightarrow> 'v mem_op \<Rightarrow> working_memory \<Rightarrow> (adaptation_error + memory_entry) option \<times> working_memory" where
  "mem_exec lib (MO_Working ev claim tp now) m = apfst Some (remember_working lib ev claim tp now m)"
| "mem_exec lib (MO_Durable p claim tp now ev) m = apfst Some (remember_durable_with_evidence lib p claim tp now ev m)"
| "mem_exec lib (MO_Compact now) m = (None, snd (compact now m))"

fun mem_op_time :: "'v mem_op \<Rightarrow> u64" where
  "mem_op_time (MO_Working _ _ _ now) = now"
| "mem_op_time (MO_Durable _ _ _ now _) = now"
| "mem_op_time (MO_Compact now) = now"

definition mem_init :: "working_memory \<Rightarrow> bool" where
  "mem_init m \<longleftrightarrow> (\<exists>c p. working_memory_new c p = Inr m)"

inductive mem_step :: "'v memory_lib \<Rightarrow> working_memory \<Rightarrow> working_memory \<Rightarrow> bool" for lib where
  "mem_op_time op \<le> u64_max \<Longrightarrow> mem_step lib m (snd (mem_exec lib op m))"

inductive_simps mem_step_iff: "mem_step lib m m'"

abbreviation mem_reach :: "'v memory_lib \<Rightarrow> working_memory \<Rightarrow> bool" where
  "mem_reach lib \<equiv> reach mem_init (mem_step lib)"

definition keeps_explicit :: "working_memory \<Rightarrow> working_memory \<Rightarrow> bool" where
  "keeps_explicit m m' \<longleftrightarrow>
     (\<forall>l\<in>set (wm_links m). is_explicit l \<and> ln_from l \<in> set (ids m') \<and> ln_to l \<in> set (ids m') \<longrightarrow> l \<in> set (wm_links m'))"

lemma keeps_explicit_stored:
  assumes "wm_links m1 = alive_links (set (ids m')) (wm_links m)" "ids m1 = ids m'" "memory_inv m1"
    and "wm_links m' = shed_derived cap (graph_links lib i tp now su ca m1)"
  shows "keeps_explicit m m'"
  unfolding keeps_explicit_def
proof (intro ballI impI)
  fix l assume l: "l \<in> set (wm_links m)" "is_explicit l \<and> ln_from l \<in> set (ids m') \<and> ln_to l \<in> set (ids m')"
  then have l1: "l \<in> set (wm_links m1)" by (simp add: assms(1) alive_links_def)
  then have "link_ok (set (ids m1)) l" using assms(3) by (auto simp: memory_inv_def links_ok_def)
  with l1 have "l \<in> set (graph_links lib i tp now su ca m1)" by (rule graph_links_keep)
  with l(2) have "l \<in> set (filter is_explicit (graph_links lib i tp now su ca m1))" by simp
  then have "l \<in> set (filter is_explicit (shed_derived cap (graph_links lib i tp now su ca m1)))"
    using shed_derived_sound [of cap "graph_links lib i tp now su ca m1"] by simp
  then show "l \<in> set (wm_links m')" by (simp add: assms(4))
qed

lemma mem_exec_inv:
  assumes "memory_inv m" "mem_op_time op \<le> u64_max" "mem_exec lib op m = (r, m')"
  shows "memory_inv m' \<and> keeps_explicit m m'"
proof (cases op)
  case (MO_Working ev claim tp now)
  with assms(3) obtain r' where "remember_working lib ev claim tp now m = (r', m')" by (auto simp: apfst_def map_prod_def split: prod.splits)
  from remember_working_cases [OF assms(1) _ this] assms(2) MO_Working show ?thesis by (simp add: keeps_explicit_def)
next
  case (MO_Compact now)
  with assms(1,3) memory_inv_compact [OF assms(1), of now] show ?thesis
    by (auto simp: keeps_explicit_def alive_links_def ids_def simp del: set_map)
next
  case (MO_Durable p claim tp now ev)
  with assms(3) obtain r' where r: "remember_durable_with_evidence lib p claim tp now ev m = (r', m')"
    by (auto simp: apfst_def map_prod_def split: prod.splits)
  from assms(2) MO_Durable have "now \<le> u64_max" by simp
  with assms(1) show ?thesis
  proof (cases rule: remember_durable_cases [where lib = lib and p = p and claim = claim and tp = tp and ev = ev])
    case (refused e)
    with r assms(1) show ?thesis by (simp add: keeps_explicit_def)
  next
    case (expired m2)
    with r show ?thesis by (simp add: keeps_explicit_def ids_def)
  next
    case (stored targets nodes entry m1 m2)
    with r have "m2 = m'" by simp
    with keeps_explicit_stored [OF stored(11) stored(10,9,15)] stored(6) show ?thesis by simp
  qed
qed

interpretation mem_sys: step_invariant mem_init "mem_step lib" memory_inv for lib
proof unfold_locales
  show "memory_inv m'" if "memory_inv m" "mem_step lib m m'" for m m'
    using that mem_exec_inv [of m _ lib] by (auto simp: mem_step_iff) (metis prod.collapse)
qed (auto simp: mem_init_def memory_inv_new)

lemmas reach_memory_inv = mem_sys.reach_inv

end
