(* ===== verification/Memory_View.thy ===== *)
theory Memory_View
  imports Memory_Query Memory_Write
begin

text \<open>
  Lemmas on the retrieval views of the working memory: what a ranked match is, what the linked view and
  its one-hop expansion return, and what the generation context may contain.
\<close>

section \<open>Ranked matches\<close>

lemma distinct_ids: "memory_inv m \<Longrightarrow> distinct (ids m)"
  by (simp add: memory_inv_def nodes_ok_def strict_sorted_iff)

lemma distinct_sort_by: "distinct (map f (sort_by lt xs)) = distinct (map f xs)"
  by (metis mset_map mset_sort_by mset_eq_imp_distinct_iff)

text \<open>The entries a query selects, in the order of the store.\<close>

definition query_hits :: "'v memory_lib \<Rightarrow> memory_query \<Rightarrow> u64 \<Rightarrow> working_memory \<Rightarrow> memory_entry list" where
  "query_hits lib q now m =
     filter (\<lambda>e. query_actor lib q m = None \<and> mq_topic q = None \<or> actor_matches (query_actor lib q m) e \<or>
                 topic_matches lib (map_option (normalize lib) (mq_topic q)) e)
       (filter (visible_at now) (wm_entries m))"

lemma of_flag_pos [simp]: "0 < of_flag b \<longleftrightarrow> b"
  by (simp add: of_flag_def)

definition rank_row :: "'v memory_lib \<Rightarrow> memory_query \<Rightarrow> working_memory \<Rightarrow> memory_entry \<Rightarrow> nat \<times> nat \<times> memory_entry" where
  "rank_row lib q m e = (of_flag (actor_matches (query_actor lib q m) e),
     of_flag (topic_matches lib (map_option (normalize lib) (mq_topic q)) e), e)"

lemma snd_rank_row [simp]: "(\<lambda>(_, _, e). e) o rank_row lib q m = id"
  by (simp add: rank_row_def fun_eq_iff)

lemma relevant_eq:
  "relevant lib q now m =
     (if mq_limit q = 0 \<or> mq_actor_id q \<noteq> None \<and> mq_source_namespace q = None then []
      else map (\<lambda>(_, _, e). e) (take (mq_limit q) (sort_by rank_before (map (rank_row lib q m) (query_hits lib q now m)))))"
proof -
  have "filter (\<lambda>(a, t, e). query_actor lib q m = None \<and> map_option (normalize lib) (mq_topic q) = None \<or> 0 < a \<or> 0 < t)
      (map (rank_row lib q m) (filter (visible_at now) (wm_entries m))) =
    map (rank_row lib q m) (query_hits lib q now m)"
    unfolding query_hits_def filter_map by (rule arg_cong [where f = "map _"]) (auto simp: rank_row_def intro!: filter_cong)
  then show ?thesis unfolding relevant_def Let_def rank_row_def [symmetric]
    by (cases "mq_limit q = 0"; cases "mq_actor_id q \<noteq> None \<and> mq_source_namespace q = None")
      (simp_all only: if_True if_False simp_thms)
qed

lemma map_rank_sort:
  "mset (map (\<lambda>(_, _, e). e) (sort_by rank_before (map (rank_row lib q m) es))) = mset es"
proof -
  have "mset (map (\<lambda>(_, _, e). e) (sort_by rank_before (map (rank_row lib q m) es))) =
      mset (map ((\<lambda>(_, _, e). e) o rank_row lib q m) es)"
    by (metis list.map_comp mset_map mset_sort_by)
  then show ?thesis by simp
qed

lemma relevant_length: "length (relevant lib q now m) \<le> mq_limit q"
  by (simp add: relevant_eq)

lemma relevant_complete:
  "length (query_hits lib q now m) \<le> mq_limit q \<Longrightarrow> \<not> (mq_actor_id q \<noteq> None \<and> mq_source_namespace q = None) \<Longrightarrow>
     mset (relevant lib q now m) = mset (query_hits lib q now m)"
proof -
  assume a: "length (query_hits lib q now m) \<le> mq_limit q" "\<not> (mq_actor_id q \<noteq> None \<and> mq_source_namespace q = None)"
  let ?s = "sort_by rank_before (map (rank_row lib q m) (query_hits lib q now m))"
  from a(2) have "relevant lib q now m = (if mq_limit q = 0 then [] else map (\<lambda>(_, _, e). e) (take (mq_limit q) ?s))"
    by (simp only: relevant_eq simp_thms)
  also have "\<dots> = map (\<lambda>(_, _, e). e) ?s" using a(1) by (cases "mq_limit q = 0") simp_all
  finally show ?thesis by (simp only: map_rank_sort)
qed

lemma relevant_take:
  obtains es where "mset es = mset (query_hits lib q now m)" "relevant lib q now m = take (length (relevant lib q now m)) es"
proof (cases "mq_limit q = 0 \<or> mq_actor_id q \<noteq> None \<and> mq_source_namespace q = None")
  case True
  then have "relevant lib q now m = []" by (simp only: relevant_eq if_True)
  then show thesis by (intro that [OF refl]) simp
next
  case False
  let ?s = "map (\<lambda>(_, _, e). e) (sort_by rank_before (map (rank_row lib q m) (query_hits lib q now m)))"
  from False have r: "relevant lib q now m = take (mq_limit q) ?s" by (simp only: relevant_eq if_False take_map)
  show thesis by (rule that [OF map_rank_sort [where lib = lib and q = q and m = m]]) (simp add: r min_def)
qed

lemma relevant_set: "set (relevant lib q now m) \<subseteq> set (query_hits lib q now m)"
  by (rule relevant_take [of lib q now m]) (metis set_mset_mset set_take_subset)

lemma relevant_distinct: "memory_inv m \<Longrightarrow> distinct (map me_id (relevant lib q now m))"
proof -
  assume m: "memory_inv m"
  have "distinct (map me_id (wm_entries m))" using distinct_ids [OF m] by (simp add: ids_def)
  then have d: "distinct (map me_id (query_hits lib q now m))" unfolding query_hits_def by (intro distinct_map_filter)
  show ?thesis
  proof (rule relevant_take [of lib q now m])
    fix es assume es: "mset es = mset (query_hits lib q now m)" "relevant lib q now m = take (length (relevant lib q now m)) es"
    then have "distinct (map me_id es)" using d by (metis mset_map mset_eq_imp_distinct_iff)
    then show ?thesis by (subst es(2)) (simp add: distinct_take flip: take_map)
  qed
qed

section \<open>The linked view\<close>

definition live_superseded :: "u64 \<Rightarrow> working_memory \<Rightarrow> u64 \<Rightarrow> bool" where
  "live_superseded now m i \<longleftrightarrow>
     (\<exists>l\<in>set (wm_links m). ln_kind l = LK_Supersedes \<and> ln_to l = i \<and> ln_created_at_ms l \<le> now \<and>
        ln_from l \<in> visible_ids now m \<and> i \<in> visible_ids now m)"

lemma link_view_stale: "fst (link_view i (visible_ids now m) cap now m) \<longleftrightarrow> live_superseded now m i"
  by (auto simp: link_view_def Let_def live_superseded_def incident_links_def list_ex_iff)

lemma link_view_links:
  "set (snd (link_view i live cap now m)) \<subseteq> set (incident_links i live now (wm_links m))"
  "length (snd (link_view i live cap now m)) \<le> cap"
  by (auto simp: link_view_def Let_def dest!: in_set_takeD)

text \<open>Explicit evidence leads: it is only cut when the cap is used up by explicit evidence.\<close>

lemma filter_explicit_split:
  "length (filter is_explicit ls) = length (filter (\<lambda>l. ln_kind l = LK_Supersedes) ls) + length (filter (\<lambda>l. ln_kind l = LK_CausedBy) ls)"
  by (induction ls) (auto simp: is_explicit_def)

lemma link_view_explicit:
  assumes "length (filter is_explicit (incident_links i live now (wm_links m))) \<le> cap"
  shows "\<forall>l\<in>set (incident_links i live now (wm_links m)). is_explicit l \<longrightarrow> l \<in> set (snd (link_view i live cap now m))"
proof -
  let ?inc = "incident_links i live now (wm_links m)"
  let ?s = "sort_by newer_link (filter (\<lambda>l. ln_kind l = LK_Supersedes) ?inc)"
  let ?c = "sort_by newer_link (filter (\<lambda>l. ln_kind l = LK_CausedBy) ?inc)"
  have len: "length (?s @ ?c) = length (filter is_explicit ?inc)"
    by (simp add: filter_explicit_split)
  have "set (?s @ ?c) \<subseteq> set (take cap (?s @ ?c @ filter (\<lambda>l. ln_kind l = LK_TemporalBefore) ?inc))"
    using assms len by (auto simp: take_append)
  then show ?thesis by (auto simp: link_view_def Let_def is_explicit_def)
qed

text \<open>A row of the answer.\<close>

definition row_ok :: "string option \<Rightarrow> u64 \<Rightarrow> working_memory \<Rightarrow> memory_entry \<times> bool \<times> memory_link list \<Rightarrow> bool" where
  "row_ok actor now m row \<longleftrightarrow>
     fst row \<in> set (wm_entries m) \<and> visible_at now (fst row) \<and> in_actor_scope actor (fst row) \<and>
     snd row = link_view (me_id (fst row)) (visible_ids now m) (mc_max_links_per_memory (wm_config m)) now m"

definition hop_state ::
  "string option \<Rightarrow> u64 \<Rightarrow> working_memory \<Rightarrow> u64 list \<Rightarrow> u64 list \<times> (memory_entry \<times> bool \<times> memory_link list) list \<Rightarrow> bool" where
  "hop_state actor now m is st \<longleftrightarrow>
     (case st of (sel, ex) \<Rightarrow> sel = is @ map (me_id o fst) ex \<and> distinct sel \<and> (\<forall>row\<in>set ex. row_ok actor now m row))"

lemma find_visible:
  assumes "memory_inv m" "i \<in> visible_ids now m" "List.find (\<lambda>e. me_id e = i) (wm_entries m) = Some node"
  shows "node \<in> set (wm_entries m)" "me_id node = i" "visible_at now node"
proof -
  from assms(3) have node: "node \<in> set (wm_entries m) \<and> me_id node = i"
    by (auto simp: find_Some_iff)
  then show "node \<in> set (wm_entries m)" "me_id node = i" by auto
  from assms(2) obtain e where "e \<in> set (wm_entries m)" "visible_at now e" "me_id e = i" by (auto simp: visible_ids_def)
  moreover have "inj_on me_id (set (wm_entries m))"
    using distinct_ids [OF assms(1)] by (simp add: ids_def distinct_map)
  ultimately show "visible_at now node" using node by (metis inj_onD)
qed

lemma hop_state_snoc:
  "hop_state actor now m is (sel, ex) \<Longrightarrow> me_id (fst row) \<notin> set sel \<Longrightarrow> row_ok actor now m row \<Longrightarrow>
     hop_state actor now m is (sel @ [me_id (fst row)], ex @ [row])"
proof -
  assume a: "hop_state actor now m is (sel, ex)" "me_id (fst row) \<notin> set sel" "row_ok actor now m row"
  then have "sel = is @ map (me_id o fst) ex" "distinct sel" "\<forall>r\<in>set ex. row_ok actor now m r"
    unfolding hop_state_def prod.case by blast+
  moreover have "distinct (sel @ [me_id (fst row)])" using a(2) calculation(2) by simp
  ultimately show ?thesis using a(3) unfolding hop_state_def prod.case by simp
qed

lemma hop_links_state:
  assumes "memory_inv m"
  shows "hop_links actor (visible_ids now m) (mc_max_links_per_memory (wm_config m)) limit now n m i ls st = (st', b) \<Longrightarrow>
    hop_state actor now m is st \<Longrightarrow> n + length (snd st) < limit \<Longrightarrow>
    hop_state actor now m is st' \<and> n + length (snd st') \<le> limit \<and> (\<not> b \<longrightarrow> n + length (snd st') < limit)"
proof (induction ls arbitrary: st)
  case Nil
  then show ?case by (cases st) auto
next
  case (Cons l ls)
  obtain sel ex where st: "st = (sel, ex)" by (cases st)
  let ?o = "if ln_from l = i then ln_to l else ln_from l"
  let ?hop = "hop_links actor (visible_ids now m) (mc_max_links_per_memory (wm_config m)) limit now n m i"
  show ?case
  proof (cases "?o \<in> visible_ids now m \<and>
      (\<exists>node. List.find (\<lambda>e. me_id e = ?o) (wm_entries m) = Some node \<and> in_actor_scope actor node) \<and> \<not> List.member sel ?o")
    case False
    then have "?hop (l # ls) (sel, ex) = ?hop ls (sel, ex)" by (auto simp: Let_def split: option.splits)
    with Cons st show ?thesis by simp
  next
    case True
    then obtain node where node: "List.find (\<lambda>e. me_id e = ?o) (wm_entries m) = Some node" "in_actor_scope actor node"
      and o: "?o \<in> visible_ids now m" "?o \<notin> set sel" by auto
    note vis = find_visible [OF assms o(1) node(1)]
    let ?row = "(node, link_view (me_id node) (visible_ids now m) (mc_max_links_per_memory (wm_config m)) now m)"
    let ?st = "(sel @ [?o], ex @ [?row])"
    have "row_ok actor now m ?row" using vis node(2) by (simp add: row_ok_def)
    from o(2) vis(2) have "me_id (fst ?row) \<notin> set sel" by simp
    from hop_state_snoc [OF Cons(3) [unfolded st] this \<open>row_ok actor now m ?row\<close>]
    have hs: "hop_state actor now m is ?st" by (simp only: fst_conv vis(2))
    have hop: "?hop (l # ls) (sel, ex) = (if limit \<le> n + length (ex @ [?row]) then (?st, True) else ?hop ls ?st)"
      using True node by (auto simp: Let_def split: prod.splits)
    show ?thesis
    proof (cases "limit \<le> n + length (ex @ [?row])")
      case True
      with hop Cons(2,4) hs show ?thesis by (auto simp: st)
    next
      case False
      with hop Cons(2) have "?hop ls ?st = (st', b)" by (simp add: st)
      from Cons(1) [OF this hs] False show ?thesis by simp
    qed
  qed
qed

lemma hop_matches_state:
  assumes "memory_inv m"
  shows "hop_state actor now m is st \<Longrightarrow> n + length (snd st) < limit \<Longrightarrow>
    \<exists>sel. hop_state actor now m is
      (sel, hop_matches actor (visible_ids now m) (mc_max_links_per_memory (wm_config m)) limit now n m rows st) \<and>
    n + length (hop_matches actor (visible_ids now m) (mc_max_links_per_memory (wm_config m)) limit now n m rows st) \<le> limit"
proof (induction rows arbitrary: st)
  case Nil
  then show ?case by (cases st) auto
next
  case (Cons row rows)
  obtain e s links where row: "row = (e, s, links)" by (cases row)
  obtain sel ex where st: "st = (sel, ex)" by (cases st)
  obtain st' b where hop: "hop_links actor (visible_ids now m) (mc_max_links_per_memory (wm_config m)) limit now n m
      (me_id e) links (sel, ex) = (st', b)" by fastforce
  obtain sel' ex' where st': "st' = (sel', ex')" by (cases st')
  from hop_links_state [OF assms hop] Cons(2,3) have
    "hop_state actor now m is st' \<and> n + length (snd st') \<le> limit \<and> (\<not> b \<longrightarrow> n + length (snd st') < limit)"
    by (simp add: st)
  with Cons(1) [of st'] hop show ?case by (cases b) (auto simp: row st st')
qed

section \<open>The rows of an answer\<close>

definition linked_row :: "linked_memory \<Rightarrow> memory_entry \<times> bool \<times> memory_link list" where
  "linked_row r = (lm_entry r, lm_stale r, lm_links r)"

lemma relevant_linked_rows:
  assumes "memory_inv m"
  shows "\<forall>r\<in>set (relevant_linked lib q now m). row_ok (query_actor lib q m) now m (linked_row r)"
    and "length (relevant_linked lib q now m) \<le> mq_limit q"
    and "distinct (map (me_id o lm_entry) (relevant_linked lib q now m))"
proof -
  let ?actor = "query_actor lib q m" and ?live = "visible_ids now m" and ?cap = "mc_max_links_per_memory (wm_config m)"
  let ?hits = "filter (in_actor_scope ?actor) (relevant lib q now m)"
  let ?matched = "map (\<lambda>e. (e, link_view (me_id e) ?live ?cap now m)) ?hits"
  let ?ids = "map (\<lambda>(e, _, _). me_id e) ?matched"
  let ?ex = "if length ?matched < mq_limit q
     then hop_matches ?actor ?live ?cap (mq_limit q) now (length ?matched) m ?matched (?ids, []) else []"
  have len: "length ?hits \<le> mq_limit q" using relevant_length [of lib q now m] length_filter_le le_trans by blast
  have "(\<lambda>(e, _, _). me_id e) o (\<lambda>e. (e, link_view (me_id e) ?live ?cap now m)) = me_id"
    by (simp add: fun_eq_iff case_prod_unfold)
  then have ids: "?ids = map me_id ?hits" unfolding list.map_comp by (rule arg_cong)
  have dist: "distinct (map me_id ?hits)"
    using relevant_distinct [OF assms, of lib q now] by (rule distinct_map_filter)
  have hits: "\<forall>row\<in>set ?matched. row_ok ?actor now m row"
    using relevant_set [of lib q now m] by (auto simp: row_ok_def query_hits_def)
  have start: "hop_state ?actor now m ?ids (?ids, [])" unfolding hop_state_def ids using dist by simp
  have ex: "\<exists>sel. hop_state ?actor now m ?ids (sel, ?ex) \<and> length ?matched + length ?ex \<le> mq_limit q"
  proof (cases "length ?matched < mq_limit q")
    case True
    then show ?thesis
      using hop_matches_state [OF assms start, of "length ?matched" "mq_limit q" ?matched] by (simp only: if_True) simp
  next
    case False
    with start len show ?thesis by (simp only: if_False) (rule exI [of _ ?ids], simp)
  qed
  then have rows: "(\<forall>row\<in>set (?matched @ ?ex). row_ok ?actor now m row) \<and> length (?matched @ ?ex) \<le> mq_limit q \<and>
      distinct (map (me_id o fst) (?matched @ ?ex))"
    using hits by (auto simp: hop_state_def ids o_def)
  have eq: "map linked_row (relevant_linked lib q now m) = (if mq_actor_id q \<noteq> None \<and> mq_source_namespace q = None then [] else ?matched @ ?ex)"
    by (simp add: relevant_linked_def Let_def o_def case_prod_unfold linked_row_def)
  have rows': "(\<forall>row\<in>set (map linked_row (relevant_linked lib q now m)). row_ok ?actor now m row) \<and>
      length (map linked_row (relevant_linked lib q now m)) \<le> mq_limit q \<and>
      distinct (map (me_id o fst) (map linked_row (relevant_linked lib q now m)))"
    unfolding eq using rows by (cases "mq_actor_id q \<noteq> None \<and> mq_source_namespace q = None") simp_all
  then show "\<forall>r\<in>set (relevant_linked lib q now m). row_ok (query_actor lib q m) now m (linked_row r)"
    and "length (relevant_linked lib q now m) \<le> mq_limit q"
    and "distinct (map (me_id o lm_entry) (relevant_linked lib q now m))"
    by (simp_all add: linked_row_def o_def)
qed

section \<open>The two orders\<close>

interpretation context_order: comparator context_before
  by unfold_locales (auto simp: context_before_def)

interpretation rank_order: comparator rank_before
  by unfold_locales (auto simp: rank_before_def)

section \<open>The generation context\<close>

definition corrected :: "u64 \<Rightarrow> working_memory \<Rightarrow> u64 \<Rightarrow> bool" where
  "corrected now m i \<longleftrightarrow>
     (\<exists>l\<in>set (wm_links m). ln_kind l = LK_Supersedes \<and> ln_to l = i \<and> ln_created_at_ms l \<le> now \<and>
        (\<exists>e\<in>set (wm_entries m). me_id e = ln_from l \<and> visible_at now e))"

lemma map_of_correction: "map_of (correction_of now m) i = None \<longleftrightarrow> \<not> corrected now m i"
  by (auto simp: correction_of_def map_of_eq_None_iff corrected_def list_ex_iff image_iff not_less)

lemma in_context_scope_iff:
  "in_context_scope scope e \<longleftrightarrow>
     (case mso_actor (me_source e) of Some owner \<Rightarrow> scope = Some owner | None \<Rightarrow> generation_shared e)"
  by (auto simp: in_context_scope_def Let_def split: option.splits)

definition eligible :: "string option \<Rightarrow> u64 \<Rightarrow> working_memory \<Rightarrow> memory_entry list" where
  "eligible scope now m =
     filter (\<lambda>e. visible_at now e \<and> \<not> corrected now m (me_id e) \<and> in_context_scope scope e) (wm_entries m)"

text \<open>The rank bucket of an entry: it matches the topic, or is the first correction of one that does.\<close>

definition context_priority :: "'v memory_lib \<Rightarrow> string option \<Rightarrow> u64 \<Rightarrow> working_memory \<Rightarrow> memory_entry \<Rightarrow> bool" where
  "context_priority lib tp now m e \<longleftrightarrow>
     topic_matches lib tp e \<or>
     (\<exists>x\<in>set (wm_entries m). visible_at now x \<and> topic_matches lib tp x \<and>
        map_of (correction_of now m) (me_id x) = Some (me_id e))"

lemma context_for_best:
  "best_first (\<lambda>x y. context_before (of_flag (context_priority lib (map_option (normalize lib) topic) now m x), x)
                       (of_flag (context_priority lib (map_option (normalize lib) topic) now m y), y)) limit
     (eligible (map_option (\<lambda>a. pseudonymize lib ns a (wm_pseudonymizer m)) actor) now m)
     (context_for lib ns actor topic limit now m)"
proof -
  let ?tp = "map_option (normalize lib) topic" and ?scope = "map_option (\<lambda>a. pseudonymize lib ns a (wm_pseudonymizer m)) actor"
  let ?vis = "filter (visible_at now) (wm_entries m)"
  let ?prom = "List.map_filter (\<lambda>e. if topic_matches lib ?tp e then map_of (correction_of now m) (me_id e) else None) ?vis"
  let ?f = "\<lambda>e. (of_flag (context_priority lib ?tp now m e), e)"
  have prom: "List.member ?prom i \<longleftrightarrow> (\<exists>x\<in>set (wm_entries m). visible_at now x \<and> topic_matches lib ?tp x \<and>
      map_of (correction_of now m) (me_id x) = Some i)" for i
    by (force simp: List.map_filter_def image_iff)
  have elig: "filter (in_context_scope ?scope) (filter (\<lambda>e. map_of (correction_of now m) (me_id e) = None) ?vis) =
      eligible ?scope now m"
    by (simp add: eligible_def map_of_correction conj_ac)
  have ctx: "context_for lib ns actor topic limit now m = map snd (take limit (sort_by context_before (map ?f (eligible ?scope now m))))"
    unfolding context_for_def Let_def elig context_priority_def prom [symmetric] by simp
  show ?thesis unfolding ctx
    by (rule context_order.best_first_sort [where f = ?f]) simp
qed

lemma relevant_best:
  "\<not> (mq_actor_id q \<noteq> None \<and> mq_source_namespace q = None) \<Longrightarrow>
     best_first (\<lambda>x y. rank_before (rank_row lib q m x) (rank_row lib q m y)) (mq_limit q)
       (query_hits lib q now m) (relevant lib q now m)"
proof -
  assume a: "\<not> (mq_actor_id q \<noteq> None \<and> mq_source_namespace q = None)"
  have eq: "relevant lib q now m =
      map (\<lambda>(_, _, e). e) (take (mq_limit q) (sort_by rank_before (map (rank_row lib q m) (query_hits lib q now m))))"
    using a by (cases "mq_limit q = 0") (simp_all only: relevant_eq simp_thms if_True if_False take0 list.map)
  show ?thesis unfolding eq
    by (rule rank_order.best_first_sort) (simp add: rank_row_def)
qed

end
