(* ===== verification/Memory_Claims.thy ===== *)
theory Memory_Claims
  imports Memory_View
begin

text \<open>
  The properties of the working memory (\<open>crates/adaptation/src/lib.rs\<close>), with a small memory on which
  their hypotheses hold.
\<close>

section \<open>A concrete memory\<close>

definition demo_lib :: "string memory_lib" where
  "demo_lib = \<lparr>mlb_hmac = (\<lambda>k s. rev s), mlb_lowercase = (\<lambda>s. s), mlb_as_str = Some\<rparr>"

definition demo_memory_config :: memory_config where
  "demo_memory_config =
     \<lparr>mc_max_entries = 2, mc_working_ttl_ms = 50, mc_durable_ttl_ms = 1000, mc_max_claim_bytes = 64,
      mc_max_topic_bytes = 16, mc_max_compactions = 4, mc_max_links = 4, mc_max_links_per_memory = 2\<rparr>"

definition demo_pseudonymizer :: pseudonymizer where
  "demo_pseudonymizer = \<lparr>psd_key_version = ''v1'', psd_key = replicate 32 CHR ''k''\<rparr>"

definition demo_memory :: working_memory where
  "demo_memory =
     \<lparr>wm_config = demo_memory_config, wm_pseudonymizer = demo_pseudonymizer, wm_entries = [], wm_links = [],
      wm_compactions = [], wm_entries_high_water = 0, wm_links_high_water = 0, wm_compactions_high_water = 0,
      wm_compactions_evicted = 0, wm_next_id = 1\<rparr>"

definition demo_permit :: "string \<Rightarrow> string \<Rightarrow> memory_permit" where
  "demo_permit i claim =
     \<lparr>mp_event_id = i, mp_source = ''sys'', mp_source_class = SC_System, mp_trust_level = Trusted, mp_actor_id = None,
      mp_decision = MD_AllowedSystemSource, mp_source_claim = Some claim\<rparr>"

definition demo_claim :: "string \<Rightarrow> memory_evidence \<Rightarrow> string mem_op" where
  "demo_claim i ev = MO_Durable (demo_permit i i) i (Some ''t'') 10 ev"

definition no_evidence :: memory_evidence where
  "no_evidence = \<lparr>mev_supersedes = [], mev_caused_by = []\<rparr>"

text \<open>One claim, its correction, and a third claim caused by the correction, which evicts the first one.\<close>

definition demo_memory1 :: working_memory where
  "demo_memory1 = snd (mem_exec demo_lib (demo_claim ''a'' no_evidence) demo_memory)"

definition demo_memory2 :: working_memory where
  "demo_memory2 = snd (mem_exec demo_lib (demo_claim ''b'' (no_evidence\<lparr>mev_supersedes := [''a'']\<rparr>)) demo_memory1)"

lemmas demo_memory_defs = demo_memory1_def demo_memory2_def demo_claim_def no_evidence_def demo_memory_def

lemma demo_memory_new: "working_memory_new demo_memory_config demo_pseudonymizer = Inr demo_memory"
  by (simp add: working_memory_new_def demo_memory_config_def demo_memory_def)

lemma demo_memory_reach: "mem_reach demo_lib demo_memory"
  by (rule reach.reach_init) (auto simp: mem_init_def intro: demo_memory_new)

lemma demo_step: "mem_reach lib m \<Longrightarrow> mem_op_time op \<le> u64_max \<Longrightarrow> mem_reach lib (snd (mem_exec lib op m))"
  by (rule reach.reach_step) (auto simp: mem_step_iff)

lemma demo_memory1_reach: "mem_reach demo_lib demo_memory1"
  unfolding demo_memory1_def by (rule demo_step [OF demo_memory_reach]) (simp add: demo_claim_def u64_max_def)

lemma demo_memory2_reach: "mem_reach demo_lib demo_memory2"
  unfolding demo_memory2_def by (rule demo_step [OF demo_memory1_reach]) (simp add: demo_claim_def u64_max_def)

lemma demo_memory2_value:
  "map me_claim (wm_entries demo_memory2) = [''a'', ''b'']"
  "wm_links demo_memory2 =
     [\<lparr>ln_from = 2, ln_to = 1, ln_kind = LK_Supersedes, ln_created_at_ms = 10\<rparr>,
      \<lparr>ln_from = 1, ln_to = 2, ln_kind = LK_TemporalBefore, ln_created_at_ms = 10\<rparr>]"
  by code_simp+

section \<open>The graph\<close>

lemma explicit_acyclic:
  assumes "links_ok a ls"
  shows "acyclic {(ln_from l, ln_to l) | l. l \<in> set ls \<and> is_explicit l}"
proof (rule acyclicI, intro allI notI)
  fix i assume "(i, i) \<in> {(ln_from l, ln_to l) | l. l \<in> set ls \<and> is_explicit l}\<^sup>+"
  moreover have "j < i" if "(i, j) \<in> {(ln_from l, ln_to l) | l. l \<in> set ls \<and> is_explicit l}\<^sup>+" for i j
    using that by (induction rule: trancl.induct) (use assms in \<open>auto simp: links_ok_def link_ok_def\<close>)
  ultimately show False by blast
qed

text \<open>
  C13. The memory graph is sound in every reachable memory: node ids are unique, grow along the store and
  stay below the next id; entries, links and compaction records respect their configured bounds, and so
  do the high-water marks; every link joins two retained nodes; no edge is stored twice; declared
  evidence always points from a later to an earlier node, so it is acyclic, and the temporal spine points
  the other way.
\<close>

theorem memory_graph_is_sound:
  assumes "mem_reach lib m"
  shows "sorted_wrt (<) (ids m) \<and> (\<forall>i\<in>set (ids m). 1 \<le> i \<and> i < wm_next_id m) \<and>
    length (wm_entries m) \<le> mc_max_entries (wm_config m) \<and> length (wm_links m) \<le> mc_max_links (wm_config m) \<and>
    length (wm_compactions m) \<le> mc_max_compactions (wm_config m) \<and>
    length (wm_entries m) \<le> wm_entries_high_water m \<and> wm_entries_high_water m \<le> mc_max_entries (wm_config m) \<and>
    length (wm_links m) \<le> wm_links_high_water m \<and> wm_links_high_water m \<le> mc_max_links (wm_config m) \<and>
    (\<forall>l\<in>set (wm_links m). ln_from l \<in> set (ids m) \<and> ln_to l \<in> set (ids m) \<and>
       (if ln_kind l = LK_TemporalBefore then ln_from l < ln_to l else ln_to l < ln_from l)) \<and>
    distinct (map link_key (wm_links m)) \<and>
    acyclic {(ln_from l, ln_to l) | l. l \<in> set (wm_links m) \<and> is_explicit l}"
proof -
  from reach_memory_inv [OF assms] have m: "memory_inv m" .
  then have l: "links_ok (set (ids m)) (wm_links m)" and n: "nodes_ok m" by (simp_all add: memory_inv_def)
  have "\<forall>l\<in>set (wm_links m). ln_from l \<in> set (ids m) \<and> ln_to l \<in> set (ids m) \<and>
       (if ln_kind l = LK_TemporalBefore then ln_from l < ln_to l else ln_to l < ln_from l)"
    using l by (auto simp: links_ok_def link_ok_def is_explicit_iff)
  moreover have "distinct (map link_key (wm_links m))" using l by (simp add: links_ok_def)
  moreover note explicit_acyclic [OF l]
  ultimately show ?thesis using m n unfolding memory_inv_def nodes_ok_def by blast
qed

theorem memory_graph_is_sound_witness:
  "length (wm_links demo_memory2) = 2 \<and> length (wm_links demo_memory2) \<le> mc_max_links (wm_config demo_memory2) \<and>
   acyclic {(ln_from l, ln_to l) | l. l \<in> set (wm_links demo_memory2) \<and> is_explicit l}"
  using memory_graph_is_sound [OF demo_memory2_reach] by (simp add: demo_memory2_value(2))

text \<open>
  Explicit evidence is never shed: whatever operation runs on a reachable memory, a supersession or
  causation whose two endpoints are still retained afterwards is still there.
\<close>

theorem explicit_evidence_is_kept:
  assumes "mem_reach lib m" "mem_op_time op \<le> u64_max" "mem_exec lib op m = (r, m')"
    and "l \<in> set (wm_links m)" "ln_kind l = LK_Supersedes \<or> ln_kind l = LK_CausedBy"
    and "ln_from l \<in> set (map me_id (wm_entries m'))" "ln_to l \<in> set (map me_id (wm_entries m'))"
  shows "l \<in> set (wm_links m')"
  using mem_exec_inv [OF reach_memory_inv [OF assms(1)] assms(2,3)] assms(4-7)
  unfolding keeps_explicit_def is_explicit_def ids_def by blast

theorem explicit_evidence_is_kept_witness:
  "\<lparr>ln_from = 2, ln_to = 1, ln_kind = LK_Supersedes, ln_created_at_ms = 10\<rparr>
     \<in> set (wm_links (snd (mem_exec demo_lib (MO_Compact 20) demo_memory2)))"
proof (rule explicit_evidence_is_kept [OF demo_memory2_reach, where op = "MO_Compact 20"])
  show "mem_exec demo_lib (MO_Compact 20) demo_memory2 = (None, snd (mem_exec demo_lib (MO_Compact 20) demo_memory2))"
    by simp
  have "map me_id (wm_entries (snd (mem_exec demo_lib (MO_Compact 20) demo_memory2))) = [1, 2]" by code_simp
  then show "ln_from \<lparr>ln_from = 2, ln_to = 1, ln_kind = LK_Supersedes, ln_created_at_ms = 10\<rparr>
      \<in> set (map me_id (wm_entries (snd (mem_exec demo_lib (MO_Compact 20) demo_memory2))))"
    "ln_to \<lparr>ln_from = 2, ln_to = 1, ln_kind = LK_Supersedes, ln_created_at_ms = 10\<rparr>
      \<in> set (map me_id (wm_entries (snd (mem_exec demo_lib (MO_Compact 20) demo_memory2))))"
    by simp_all
qed (simp_all add: demo_memory2_value(2) u64_max_def)

section \<open>Durable writes\<close>

definition linked :: "working_memory \<Rightarrow> link_kind \<Rightarrow> u64 \<Rightarrow> u64 \<Rightarrow> bool" where
  "linked m k i j \<longleftrightarrow> (\<exists>l\<in>set (wm_links m). ln_kind l = k \<and> ln_from l = i \<and> ln_to l = j)"

lemma linked_declared:
  assumes "wm_links m' = shed_derived cap (graph_links lib i tp now su ca m1)" "ids m1 = ids m'" "i \<in> set (ids m')"
    and "k = LK_Supersedes \<and> j \<in> set su \<or> k = LK_CausedBy \<and> j \<in> set ca" "j \<in> set (ids m')"
  shows "linked m' k i j"
proof -
  let ?g = "graph_links lib i tp now su ca m1" and ?l = "declared_link i now (j, k)"
  have "?l \<in> set (declared_links i now su ca)" using assms(4) by (auto simp: declared_links_def)
  then have "link_key ?l \<in> link_key ` set ?g"
    using assms(2,3,5) by (intro graph_links_declared) (auto simp: declared_link_def)
  then obtain l where l: "l \<in> set ?g" "link_key l = link_key ?l" by auto
  then have key: "ln_kind l = k" "ln_from l = i" "ln_to l = j" by (simp_all add: link_key_def declared_link_def)
  then have "is_explicit l" using assms(4) by (auto simp: is_explicit_def)
  with l(1) have "l \<in> set (filter is_explicit (shed_derived cap ?g))" using shed_derived_sound [of cap ?g] by simp
  with key show ?thesis by (auto simp: linked_def assms(1))
qed

text \<open>What the evidence of an accepted write guarantees for one declared source event.\<close>

definition evidence_recorded :: "link_kind \<Rightarrow> u64 \<Rightarrow> string \<Rightarrow> working_memory \<Rightarrow> u64 \<Rightarrow> working_memory \<Rightarrow> bool" where
  "evidence_recorded k now i m new m' \<longleftrightarrow>
     (\<exists>t. durable_nodes i now m = [t] \<and> me_created_at_ms t \<le> now \<and>
        (me_id t \<notin> set (ids m') \<or> linked m' k new (me_id t)))"

lemma resolved_recorded:
  assumes "resolve_all is now rel m = Inr ns" "i \<in> set is"
    and "\<And>j. j \<in> set ns \<Longrightarrow> j \<in> set (ids m') \<Longrightarrow> linked m' k new j"
  shows "evidence_recorded k now i m new m'"
proof -
  obtain j where j: "j < length is" "is ! j = i" using assms(2) by (auto simp: in_set_conv_nth)
  obtain n where n: "resolve_declared_target i now rel m = Inr n" "n \<in> set ns"
    using assms(1) j unfolding resolve_all_iff list_all2_conv_all_nth by (metis nth_mem)
  from n(1) obtain e where "durable_nodes i now m = [e]" "me_created_at_ms e \<le> now" "n = me_id e"
    unfolding resolve_target_iff by blast
  with assms(3) [OF n(2)] show ?thesis unfolding evidence_recorded_def by blast
qed

text \<open>The node an accepted write stores.\<close>

definition stored_claim ::
  "'v memory_lib \<Rightarrow> memory_permit \<Rightarrow> string \<Rightarrow> u64 \<Rightarrow> working_memory \<Rightarrow> memory_entry \<Rightarrow> bool" where
  "stored_claim lib p claim now m e \<longleftrightarrow>
     me_id e = wm_next_id m \<and> mso_event_id (me_source e) = mp_event_id p \<and> mso_source (me_source e) = mp_source p \<and>
     mso_source_class (me_source e) = mp_source_class p \<and> mso_trust_level (me_source e) = mp_trust_level p \<and>
     mso_actor (me_source e) = map_option (\<lambda>a. pseudonymize lib (mp_source p) a (wm_pseudonymizer m)) (mp_actor_id p) \<and>
     me_claim e = truncate_utf8 (normalize lib claim) (mc_max_claim_bytes (wm_config m)) \<and>
     me_created_at_ms e = now \<and> me_expires_at_ms e = sadd now (mc_durable_ttl_ms (wm_config m)) \<and>
     me_retention e = RC_Durable \<and> me_write_decision e = gate_decision_of (mp_decision p)"

lemma durable_entry_fields:
  "durable_entry lib p claim tp now m = Inr e \<Longrightarrow> stored_claim lib p claim now m (e\<lparr>me_id := wm_next_id m\<rparr>)"
  by (auto simp: durable_entry_def Let_def rbind_def stored_claim_def bounded_nonempty_def split: sum.splits if_splits)

text \<open>
  C14. The outcome of a durable write on a reachable memory. An error leaves the memory exactly as it was,
  but for a write at the last representable millisecond, at which every claim has expired and the store
  is empty. An accepted write appends one node that copies the permit (the actor only under its
  pseudonym), drops only expired claims and, at capacity, the oldest ones; and for every declared source
  event there was exactly one retained, unexpired, already recorded durable claim, to which the new node
  is linked unless this insertion evicted it.
\<close>

theorem durable_write_outcome:
  assumes "mem_reach lib m" "now \<le> u64_max"
    and "remember_durable_with_evidence lib p claim tp now ev m = (r, m')"
  shows "case r of
     Inl e \<Rightarrow> m' = m \<or> now = u64_max \<and> wm_entries m' = []
   | Inr e \<Rightarrow>
       stored_claim lib p claim now m e \<and>
       wm_entries m' = keep_last (mc_max_entries (wm_config m) - 1) (filter (\<lambda>x. now < me_expires_at_ms x) (wm_entries m)) @ [e] \<and>
       (\<forall>i\<in>set (mev_supersedes ev). evidence_recorded LK_Supersedes now i m (me_id e) m') \<and>
       (\<forall>i\<in>set (mev_caused_by ev). evidence_recorded LK_CausedBy now i m (me_id e) m')"
  using reach_memory_inv [OF assms(1)] assms(2)
proof (cases rule: remember_durable_cases [where lib = lib and p = p and claim = claim and tp = tp and ev = ev])
  case (stored targets nodes entry m1 m2)
  then have r: "r = Inr (entry\<lparr>me_id := wm_next_id m\<rparr>)" "m2 = m'" using assms(3) by simp_all
  have c: "0 < mc_max_entries (wm_config m)" "0 < mc_durable_ttl_ms (wm_config m)"
    using reach_memory_inv [OF assms(1)] by (simp_all add: memory_inv_def memory_config_ok_def)
  have sc: "stored_claim lib p claim now m (entry\<lparr>me_id := wm_next_id m\<rparr>)" by (rule durable_entry_fields [OF stored(3)])
  then have lt: "now < me_expires_at_ms entry" using stored(4) c(2) by (simp add: stored_claim_def sadd_def)
  have new: "wm_next_id m \<in> set (ids m')" using stored(8) r(2) by simp
  note link = linked_declared [OF stored(15) [unfolded r(2)] stored(10) [unfolded r(2)] new]
  obtain su ca where ev: "set su = set (mev_supersedes ev)" "set ca = set (mev_caused_by ev)"
    "resolve_all su now DR_Supersession m = Inr targets" "resolve_all ca now DR_Causal m = Inr nodes"
    using resolve_evidence_cases [OF stored(1)] by metis
  have "\<forall>i\<in>set (mev_supersedes ev). evidence_recorded LK_Supersedes now i m (wm_next_id m) m'"
    using resolved_recorded [OF ev(3)] link ev(1) by blast
  moreover have "\<forall>i\<in>set (mev_caused_by ev). evidence_recorded LK_CausedBy now i m (wm_next_id m) m'"
    using resolved_recorded [OF ev(4)] link ev(2) by blast
  ultimately show ?thesis using sc stored(7) last_entries_after [OF c(1) lt] r by simp
qed (use assms(3) in auto)

theorem durable_write_outcome_witness:
  "let w = remember_durable_with_evidence demo_lib (demo_permit ''b'' ''b'') ''b'' (Some ''t'') 10
        (no_evidence\<lparr>mev_supersedes := [''a'']\<rparr>) demo_memory1
   in case fst w of
        Inl e \<Rightarrow> False
      | Inr e \<Rightarrow> evidence_recorded LK_Supersedes 10 ''a'' demo_memory1 (me_id e) (snd w)"
proof -
  let ?w = "remember_durable_with_evidence demo_lib (demo_permit ''b'' ''b'') ''b'' (Some ''t'') 10
        (no_evidence\<lparr>mev_supersedes := [''a'']\<rparr>) demo_memory1"
  have "case fst ?w of Inl e \<Rightarrow> False | Inr e \<Rightarrow> True" by code_simp
  then obtain e where "fst ?w = Inr e" by (cases "fst ?w") auto
  then have w: "?w = (Inr e, snd ?w)" by (metis prod.collapse)
  have "''a'' \<in> set (mev_supersedes (no_evidence\<lparr>mev_supersedes := [''a'']\<rparr>))" by simp
  with durable_write_outcome [OF demo_memory1_reach _ w] have
    "evidence_recorded LK_Supersedes 10 ''a'' demo_memory1 (me_id e) (snd ?w)"
    by (simp only: sum.case) (simp add: u64_max_def)
  with \<open>fst ?w = Inr e\<close> show ?thesis by (simp only: Let_def sum.case)
qed

section \<open>Verified facts\<close>

text \<open>The metadata and the source claim a write is judged on.\<close>

fun write_source :: "'v memory_lib \<Rightarrow> 'v mem_op \<Rightarrow> (source_class \<times> trust_level \<times> string option \<times> string) option" where
  "write_source lib (MO_Working ev claim tp now) =
     Some (ev_source_class ev, ev_trust_level ev, Option.bind (bm_get (ev_payload ev) ''text'') (mlb_as_str lib), claim)"
| "write_source lib (MO_Durable p claim tp now ev) =
     Some (mp_source_class p, mp_trust_level p, mp_source_claim p, claim)"
| "write_source lib (MO_Compact now) = None"

definition is_verified :: "'v memory_lib \<Rightarrow> source_class \<Rightarrow> trust_level \<Rightarrow> string option \<Rightarrow> string \<Rightarrow> bool" where
  "is_verified lib sc trust source claim \<longleftrightarrow>
     sc = SC_System \<and> trust = Trusted \<and> (case source of None \<Rightarrow> False | Some s \<Rightarrow> normalize lib s = normalize lib claim)"

lemma epistemic_derive_verified: "epistemic_derive sc trust b = EC_VerifiedFact \<longleftrightarrow> sc = SC_System \<and> trust = Trusted \<and> b"
  by (auto simp: epistemic_derive_def)

lemma truncate_whole: "length v \<le> n \<Longrightarrow> truncate_utf8 v n = v"
  by (simp add: truncate_utf8_def)

lemma durable_entry_verified:
  "durable_entry lib p claim tp now m = Inr e \<Longrightarrow>
     (me_epistemic e = EC_VerifiedFact \<longleftrightarrow> is_verified lib (mp_source_class p) (mp_trust_level p) (mp_source_claim p) claim) \<and>
     (me_epistemic e \<noteq> EC_VerifiedFact \<or> me_claim e = normalize lib claim)"
  by (auto simp: durable_entry_def Let_def rbind_def bounded_nonempty_def require_complete_verified_claim_def ensure_def
      is_verified_def epistemic_derive_verified truncate_whole split: sum.splits if_splits option.splits)

lemma working_entry_verified:
  "entry_from_event lib ev claim tp now ret d m = Inr e \<Longrightarrow>
     (me_epistemic e = EC_VerifiedFact \<longleftrightarrow>
        is_verified lib (ev_source_class ev) (ev_trust_level ev) (Option.bind (bm_get (ev_payload ev) ''text'') (mlb_as_str lib)) claim) \<and>
     (me_epistemic e \<noteq> EC_VerifiedFact \<or> me_claim e = normalize lib claim)"
  by (auto simp: entry_from_event_def Let_def rbind_def bounded_nonempty_def require_complete_verified_claim_def ensure_def
      is_verified_def epistemic_derive_verified truncate_whole split: sum.splits if_splits option.splits)

lemma mem_exec_stored:
  assumes "memory_inv m" "mem_op_time op \<le> u64_max" "mem_exec lib op m = (Some (Inr e), m')"
  obtains (working) ev claim tp now e0 where "op = MO_Working ev claim tp now"
      "entry_from_event lib ev claim tp now RC_Working GD_WorkingOnly m = Inr e0" "e = e0\<lparr>me_id := wm_next_id m\<rparr>"
  | (durable) p claim tp now ev e0 where "op = MO_Durable p claim tp now ev"
      "durable_entry lib p claim tp now m = Inr e0" "e = e0\<lparr>me_id := wm_next_id m\<rparr>"
proof (cases op)
  case (MO_Compact now)
  with assms(3) show thesis by simp
next
  case (MO_Durable p claim tp now ev)
  with assms(3) have r: "remember_durable_with_evidence lib p claim tp now ev m = (Inr e, m')"
    by (auto simp: apfst_def map_prod_def split: prod.splits)
  from assms(2) MO_Durable have "now \<le> u64_max" by simp
  with assms(1) show thesis
    by (cases rule: remember_durable_cases [where lib = lib and p = p and claim = claim and tp = tp and ev = ev])
       (use r durable [OF MO_Durable] in auto)
next
  case (MO_Working ev claim tp now)
  with assms(3) have r: "remember_working lib ev claim tp now m = (Inr e, m')"
    by (auto simp: apfst_def map_prod_def split: prod.splits)
  then obtain e0 where e0: "entry_from_event lib ev claim tp now RC_Working GD_WorkingOnly m = Inr e0"
    "push_bounded e0 now m = (Inr e, m')" by (auto simp: remember_working_def split: sum.splits)
  have ex: "me_expires_at_ms e0 = sadd now (mc_working_ttl_ms (wm_config m))"
    using e0(1) by (auto simp: entry_from_event_def Let_def rbind_def split: sum.splits)
  have ttl: "0 < mc_working_ttl_ms (wm_config m)" using assms(1) by (simp add: memory_inv_def memory_config_ok_def)
  from assms(2) MO_Working have "now \<le> u64_max" by simp
  from assms(1) this ex ttl show thesis
    by (cases rule: push_bounded_cases) (use e0 working [OF MO_Working e0(1)] in auto)
qed

text \<open>
  C15. Verified facts are earned and whole. A claim stored by either writer is a verified fact exactly when
  its source is a trusted system source whose own text, normalised, is the claim; and a verified fact is
  stored in full, never truncated, so it cannot lose the qualifier that bounded it.
\<close>

theorem verified_facts_are_whole:
  assumes "mem_reach lib m" "mem_op_time op \<le> u64_max" "mem_exec lib op m = (Some (Inr e), m')"
    and "write_source lib op = Some (sc, trust, source, claim)"
  shows "(me_epistemic e = EC_VerifiedFact \<longleftrightarrow> is_verified lib sc trust source claim) \<and>
    (me_epistemic e \<noteq> EC_VerifiedFact \<or> me_claim e = normalize lib claim)"
  using reach_memory_inv [OF assms(1)] assms(2,3)
proof (cases rule: mem_exec_stored)
  case (working ev claim' tp now e0)
  with assms(4) working_entry_verified [OF working(2)] show ?thesis by simp
next
  case (durable p claim' tp now ev e0)
  with assms(4) durable_entry_verified [OF durable(2)] show ?thesis by simp
qed

theorem verified_facts_are_whole_witness:
  "\<exists>e. fst (mem_exec demo_lib (demo_claim ''a  b'' no_evidence) demo_memory) = Some (Inr e) \<and>
     me_epistemic e = EC_VerifiedFact \<and> me_claim e = ''a b''"
proof -
  let ?x = "mem_exec demo_lib (demo_claim ''a  b'' no_evidence) demo_memory"
  have "case fst ?x of Some (Inr e) \<Rightarrow> True | _ \<Rightarrow> False" by code_simp
  then obtain e where e: "fst ?x = Some (Inr e)" by (auto split: option.splits sum.splits)
  then have x: "?x = (Some (Inr e), snd ?x)" by (metis prod.collapse)
  have s: "write_source demo_lib (demo_claim ''a  b'' no_evidence) = Some (SC_System, Trusted, Some ''a  b'', ''a  b'')"
    by (simp add: demo_claim_def demo_permit_def)
  have t: "mem_op_time (demo_claim ''a  b'' no_evidence) \<le> u64_max" by (simp add: demo_claim_def u64_max_def)
  have "is_verified demo_lib SC_System Trusted (Some ''a  b'') ''a  b''" by (simp add: is_verified_def)
  with verified_facts_are_whole [OF demo_memory_reach t x s] have "me_epistemic e = EC_VerifiedFact"
    "me_claim e = normalize demo_lib ''a  b''" by auto
  moreover have "normalize demo_lib ''a  b'' = ''a b''" by code_simp
  ultimately show ?thesis using e by simp
qed

section \<open>Retrieval\<close>

text \<open>
  Ranked retrieval returns the best matches: exactly as many as exist up to the limit, among the
  visible entries that match the actor or the topic (all visible ones when the query names neither), in
  the order actor match, topic match, record time, node id; no entry left out comes before a returned
  one. A query that names an actor without its namespace fails closed.
\<close>

theorem retrieval_is_best_first:
  "if mq_actor_id q \<noteq> None \<and> mq_source_namespace q = None then relevant lib q now m = []
   else best_first (\<lambda>x y. rank_before (rank_row lib q m x) (rank_row lib q m y)) (mq_limit q)
          (query_hits lib q now m) (relevant lib q now m)"
proof (cases "mq_actor_id q \<noteq> None \<and> mq_source_namespace q = None")
  case True
  then show ?thesis by (simp only: relevant_eq if_True simp_thms)
next
  case False
  then show ?thesis unfolding if_not_P [OF False] by (rule relevant_best)
qed

text \<open>
  C16. The linked view is exact. On a reachable memory every row is a retained entry that is visible and in
  the scope of the actor asked for, also when one hop over the links brought it in; it is marked stale
  exactly when a visible entry supersedes it by a link recorded by then; its links are visible links at
  it, within the per-memory bound; no entry is returned twice and the limit is kept.
\<close>

theorem linked_view_is_exact:
  assumes "mem_reach lib m"
  shows "length (relevant_linked lib q now m) \<le> mq_limit q \<and>
    distinct (map (me_id o lm_entry) (relevant_linked lib q now m)) \<and>
    (\<forall>r\<in>set (relevant_linked lib q now m).
       lm_entry r \<in> set (wm_entries m) \<and> visible_at now (lm_entry r) \<and>
       in_actor_scope (query_actor lib q m) (lm_entry r) \<and>
       (lm_stale r \<longleftrightarrow> live_superseded now m (me_id (lm_entry r))) \<and>
       set (lm_links r) \<subseteq> set (incident_links (me_id (lm_entry r)) (visible_ids now m) now (wm_links m)) \<and>
       length (lm_links r) \<le> mc_max_links_per_memory (wm_config m))"
proof -
  note inv = reach_memory_inv [OF assms]
  note rows = relevant_linked_rows [OF inv, of lib q now]
  have "lm_entry r \<in> set (wm_entries m) \<and> visible_at now (lm_entry r) \<and>
       in_actor_scope (query_actor lib q m) (lm_entry r) \<and>
       (lm_stale r \<longleftrightarrow> live_superseded now m (me_id (lm_entry r))) \<and>
       set (lm_links r) \<subseteq> set (incident_links (me_id (lm_entry r)) (visible_ids now m) now (wm_links m)) \<and>
       length (lm_links r) \<le> mc_max_links_per_memory (wm_config m)"
    if "r \<in> set (relevant_linked lib q now m)" for r
  proof -
    let ?v = "link_view (me_id (lm_entry r)) (visible_ids now m) (mc_max_links_per_memory (wm_config m)) now m"
    have row: "row_ok (query_actor lib q m) now m (linked_row r)" using rows(1) that by blast
    then have "lm_stale r = fst ?v" "lm_links r = snd ?v"
      by (simp_all add: row_ok_def linked_row_def prod_eq_iff)
    with row link_view_stale link_view_links show ?thesis by (simp add: row_ok_def linked_row_def)
  qed
  with rows(2,3) show ?thesis by blast
qed

definition demo_query :: memory_query where
  "demo_query = \<lparr>mq_source_namespace = None, mq_actor_id = None, mq_topic = Some ''t'', mq_limit = 3\<rparr>"

theorem linked_view_is_exact_witness:
  "map (\<lambda>r. (me_id (lm_entry r), lm_stale r)) (relevant_linked demo_lib demo_query 10 demo_memory2) = [(2, False), (1, True)] \<and>
   list_all (\<lambda>r. lm_stale r = live_superseded 10 demo_memory2 (me_id (lm_entry r)))
     (relevant_linked demo_lib demo_query 10 demo_memory2)"
proof
  show "map (\<lambda>r. (me_id (lm_entry r), lm_stale r)) (relevant_linked demo_lib demo_query 10 demo_memory2) = [(2, False), (1, True)]"
    by code_simp
qed (use linked_view_is_exact [OF demo_memory2_reach, of demo_query 10] in \<open>simp add: list_all_iff\<close>)

text \<open>
  The generation context is private and current. It is exactly the best-ranked part, up to the limit,
  of the visible entries that no visible entry supersedes and that the speaker may see: a claim attributed
  to somebody is seen by that speaker only, an unattributed one only when its source class is shared.
\<close>

theorem context_is_private:
  "best_first (\<lambda>x y. context_before (of_flag (context_priority lib (map_option (normalize lib) topic) now m x), x)
                       (of_flag (context_priority lib (map_option (normalize lib) topic) now m y), y)) limit
     (filter (\<lambda>e. visible_at now e \<and> \<not> corrected now m (me_id e) \<and>
         (case mso_actor (me_source e) of
            Some owner \<Rightarrow> map_option (\<lambda>a. pseudonymize lib ns a (wm_pseudonymizer m)) actor = Some owner
          | None \<Rightarrow> mso_source_class (me_source e) \<in> {SC_System, SC_Speech, SC_Game, SC_Stream, SC_Timer}))
       (wm_entries m))
     (context_for lib ns actor topic limit now m)"
  using context_for_best [of lib topic now m limit ns actor]
  unfolding eligible_def in_context_scope_iff generation_shared_def source_class_is_shared_def .

section \<open>Pseudonyms\<close>

lemma len_prefixed_inj:
  "length v < 2 ^ 64 \<Longrightarrow> length v' < 2 ^ 64 \<Longrightarrow> len_prefixed v @ r = len_prefixed v' @ r' \<longleftrightarrow> v = v' \<and> r = r'"
  by (auto simp: len_prefixed_def be_bytes_inj)

lemma key_version_no_colon:
  assumes "pseudonymizer_new v k = Inr p"
  shows "psd_key_version p = v" "CHR '':'' \<notin> set v" "length v \<le> 64"
  using assms by (auto simp: pseudonymizer_new_def list_all_iff is_key_version_byte_def Let_def split: if_splits)

lemma split_at_colon:
  "CHR '':'' \<notin> set v \<Longrightarrow> CHR '':'' \<notin> set v' \<Longrightarrow> v @ CHR '':'' # h = v' @ CHR '':'' # h' \<Longrightarrow> v = v' \<and> h = h'"
proof (induction v arbitrary: v')
  case Nil
  then show ?case by (cases v') auto
next
  case (Cons c v)
  then show ?case by (cases v') auto
qed

lemma pseudonym_input_inj:
  assumes "length v < 2 ^ 64" "length v' < 2 ^ 64" "length ns < 2 ^ 64" "length ns' < 2 ^ 64" "length a < 2 ^ 64" "length a' < 2 ^ 64"
  shows "pseudonym_input v ns a = pseudonym_input v' ns' a' \<longleftrightarrow> v = v' \<and> ns = ns' \<and> a = a'"
  using assms len_prefixed_inj [of a a' "[]" "[]"] by (simp add: pseudonym_input_def len_prefixed_inj)

text \<open>
  Pseudonyms never collide by construction: two pseudonyms are the same string exactly when their key
  versions and their MAC values agree, and two MAC inputs are the same bytes only for the same key
  version, namespace and actor, so no namespace and actor can be re-split into another pair. (That the
  MAC separates different inputs is the HMAC's promise.)
\<close>

theorem pseudonyms_are_injective:
  assumes "pseudonymizer_new v k = Inr p" "pseudonymizer_new v' k' = Inr p'"
    and "length ns < 2 ^ 64" "length ns' < 2 ^ 64" "length a < 2 ^ 64" "length a' < 2 ^ 64"
  shows "(pseudonymize lib ns a p = pseudonymize lib ns' a' p' \<longleftrightarrow>
      psd_key_version p = psd_key_version p' \<and>
      mlb_hmac lib (psd_key p) (pseudonym_input (psd_key_version p) ns a) =
      mlb_hmac lib (psd_key p') (pseudonym_input (psd_key_version p') ns' a')) \<and>
    (pseudonym_input (psd_key_version p) ns a = pseudonym_input (psd_key_version p') ns' a' \<longleftrightarrow>
      psd_key_version p = psd_key_version p' \<and> ns = ns' \<and> a = a')"
proof
  note v = key_version_no_colon [OF assms(1)] key_version_no_colon [OF assms(2)]
  show "pseudonymize lib ns a p = pseudonymize lib ns' a' p' \<longleftrightarrow>
      psd_key_version p = psd_key_version p' \<and>
      mlb_hmac lib (psd_key p) (pseudonym_input (psd_key_version p) ns a) =
      mlb_hmac lib (psd_key p') (pseudonym_input (psd_key_version p') ns' a')"
    unfolding v(1,4) pseudonymize_def by (auto simp: hex_encode_inj dest!: split_at_colon [OF v(2,5)])
  show "pseudonym_input (psd_key_version p) ns a = pseudonym_input (psd_key_version p') ns' a' \<longleftrightarrow>
      psd_key_version p = psd_key_version p' \<and> ns = ns' \<and> a = a'"
    unfolding v(1,4) using v(3,6) assms(3-6) by (intro pseudonym_input_inj) simp_all
qed

theorem pseudonyms_are_injective_witness:
  "pseudonym_input ''v1'' ''ab'' ''c'' \<noteq> pseudonym_input ''v1'' ''a'' ''bc'' \<and>
   pseudonymize demo_lib ''ab'' ''c'' demo_pseudonymizer \<noteq> pseudonymize demo_lib ''a'' ''bc'' demo_pseudonymizer"
proof -
  have p: "pseudonymizer_new ''v1'' (replicate 32 CHR ''k'') = Inr demo_pseudonymizer"
    by code_simp
  show ?thesis
    using pseudonyms_are_injective [OF p p, of "''ab''" "''a''" "''c''" "''bc''" demo_lib]
    by (simp add: demo_lib_def) (simp add: demo_pseudonymizer_def)
qed

section \<open>Two corners\<close>

text \<open>
  A correction is promoted one step only: when the correction of a claim of the topic has itself been
  corrected, the live end of the chain is not promoted and falls behind an unrelated newer claim.
\<close>

definition corner_memory :: working_memory where
  "corner_memory =
     (let m = demo_memory\<lparr>wm_config := demo_memory_config\<lparr>mc_max_entries := 8\<rparr>\<rparr>;
          w = (\<lambda>i tp now su m. snd (mem_exec demo_lib
                 (MO_Durable (demo_permit i i) i (Some tp) now \<lparr>mev_supersedes = su, mev_caused_by = []\<rparr>) m))
      in w ''d'' ''z'' 4 [] (w ''c'' ''w'' 3 [''b''] (w ''b'' ''u'' 2 [''a''] (w ''a'' ''t'' 1 [] m))))"

lemma promotion_is_one_step:
  "map me_claim (context_for demo_lib ''sys'' None (Some ''t'') 1 9 corner_memory) = [''d''] \<and>
   live_superseded 9 corner_memory 1 \<and> live_superseded 9 corner_memory 2 \<and> \<not> live_superseded 9 corner_memory 3"
  by code_simp

text \<open>A byte bound below the length of the first character truncates a non-empty claim to an empty one.\<close>

lemma nonempty_claim_truncates_to_empty:
  "bounded_nonempty demo_lib (map char_of [240, 159, 152, 128 :: nat]) 3 ''memory claim'' = Inr ''''"
  by code_simp

end
