(* ===== verification/Asset_Inv.thy ===== *)
theory Asset_Inv
  imports Asset_Store
begin

text \<open>
  The asset store as a transition system over the disk and the store, with its invariant. The eviction
  loop of the code is shown equal to a one-pass reference: evict in recency order while over capacity.
\<close>

section \<open>Eviction as a reference\<close>

definition over_capacity :: "'v asset_lib \<Rightarrow> 'v asset_store \<Rightarrow> bool" where
  "over_capacity lib s \<longleftrightarrow>
     hc_max_dynamic_assets (as_config s) < length (dynamic_ids s) \<or>
     hc_max_dynamic_bytes (as_config s) < estimated_bytes lib s \<and> 1 < length (dynamic_ids s)"

fun evict_lru :: "'v asset_lib \<Rightarrow> string list \<Rightarrow> 'v asset_store \<Rightarrow> 'v asset_store" where
  "evict_lru lib [] s = s"
| "evict_lru lib (i # is) s = (if over_capacity lib s then evict_lru lib is (evict_one i s) else s)"

lemma evict_one_fields [simp]:
  "as_config (evict_one i s) = as_config s" "as_pinned (evict_one i s) = as_pinned s"
  "as_runtime (evict_one i s) = as_runtime s" "as_root (evict_one i s) = as_root s"
  "as_local (evict_one i s) = as_local s" "as_metadata (evict_one i s) = as_metadata s"
  "as_metadata_high_water (evict_one i s) = as_metadata_high_water s"
  "as_hot (evict_one i s) = bm_remove i (as_hot s)"
  by (simp_all add: evict_one_def)

lemma map_fst_bm_remove: "map fst (bm_remove i m) = filter (\<lambda>j. j \<noteq> i) (map fst m)"
  by (induction m) (auto simp: bm_remove_def)

lemma dynamic_ids_evict_one: "dynamic_ids (evict_one i s) = filter (\<lambda>j. j \<noteq> i) (dynamic_ids s)"
  by (simp add: dynamic_ids_def bm_keys_def map_fst_bm_remove conj_commute)

lemma usage_of_evict_one: "j \<noteq> i \<Longrightarrow> usage_of j (evict_one i s) = usage_of j s"
  by (simp add: usage_of_def evict_one_def)

lemma estimated_bytes_evict_one:
  "bm_ok (as_hot s) \<Longrightarrow> bm_get (as_hot s) i = Some a \<Longrightarrow>
     estimated_bytes lib (evict_one i s) = estimated_bytes lib s - alb_json_len lib a"
proof -
  have rem: "bm_ok m \<Longrightarrow> bm_get m i = Some a \<Longrightarrow>
      sum_list (map (f o snd) m) = f a + sum_list (map (f o snd) (bm_remove i m))"
    for m :: "(string, 'a performance_asset) bmap" and f :: "'a performance_asset \<Rightarrow> nat" and a
  proof (induction m)
    case (Cons kv m)
    obtain k v where kv: "kv = (k, v)" by (cases kv)
    show ?case
    proof (cases "k = i")
      case True
      with Cons(2) kv have "i \<notin> fst ` set m" by (auto simp: bm_ok_Cons)
      then have "bm_remove i m = m" unfolding bm_remove_def by (intro filter_True) force
      with True Cons(3) kv show ?thesis by (simp add: bm_get_def bm_remove_def)
    next
      case False
      with Cons kv show ?thesis by (simp add: bm_ok_Cons bm_get_def bm_remove_def)
    qed
  qed simp
  assume "bm_ok (as_hot s)" "bm_get (as_hot s) i = Some a"
  from rem [OF this, of "alb_json_len lib"] show ?thesis by (simp add: estimated_bytes_def)
qed

interpretation recency: comparator older_use
  by unfold_locales (auto simp: older_use_def)

lemma distinct_dynamic_ids: "bm_ok (as_hot s) \<Longrightarrow> distinct (dynamic_ids s)"
  by (simp add: dynamic_ids_def bm_keys_def bm_ok_distinct)

lemma candidate_ids: "mset (map fst (evict_candidates s)) = mset (dynamic_ids s)"
  by (simp add: evict_candidates_def) (simp add: image_mset.compositionality o_def flip: mset_map)

lemma length_candidates: "length (evict_candidates s) = length (dynamic_ids s)"
  by (simp add: evict_candidates_def)

text \<open>Evicting the head of the recency order leaves the tail of it.\<close>

lemma candidates_evict_one:
  assumes "bm_ok (as_hot s)" "evict_candidates s = (v, u) # cs"
  shows "evict_candidates (evict_one v s) = cs"
proof -
  have "distinct (map fst (evict_candidates s))"
    using candidate_ids [of s] distinct_dynamic_ids [OF assms(1)] by (metis mset_eq_imp_distinct_iff)
  then have v: "v \<notin> fst ` set cs" by (simp add: assms(2))
  have "map (\<lambda>i. (i, usage_of i (evict_one v s))) (dynamic_ids (evict_one v s)) =
      filter (\<lambda>c. fst c \<noteq> v) (map (\<lambda>i. (i, usage_of i s)) (dynamic_ids s))"
    by (auto simp: dynamic_ids_evict_one usage_of_evict_one filter_map o_def intro!: map_cong filter_cong)
  then have "evict_candidates (evict_one v s) = filter (\<lambda>c. fst c \<noteq> v) (evict_candidates s)"
    by (simp only: evict_candidates_def recency.filter_sort)
  also have "\<dots> = cs" using v by (auto simp: assms(2) intro!: filter_True)
  finally show ?thesis .
qed

lemma candidate_hot: "(v, u) \<in> set (evict_candidates s) \<Longrightarrow> \<exists>a. bm_get (as_hot s) v = Some a"
  by (auto simp: evict_candidates_def dynamic_ids_def bm_keys_def bm_get_eq_None)
    (metis bm_get_eq_None fst_conv image_eqI not_None_eq)

lemma bm_ok_evict_one [simp]: "bm_ok (as_hot s) \<Longrightarrow> bm_ok (as_hot (evict_one i s))"
  by (simp add: bm_ok_remove)

lemma evict_bytes_lru:
  assumes "bm_ok (as_hot s)" "evict_candidates s = c" "length (dynamic_ids s) \<le> hc_max_dynamic_assets (as_config s)"
  shows "evict_bytes lib (hc_max_dynamic_bytes (as_config s)) c (estimated_bytes lib s) s = evict_lru lib (map fst c) s"
  using assms
proof (induction "map fst c" arbitrary: c s)
  case (Cons v vs)
  obtain u cs where c: "c = (v, u) # cs" "vs = map fst cs" using Cons(2) by (cases c) auto
  have len: "length (dynamic_ids s) = Suc (length cs)" using length_candidates [of s] Cons(4) c by simp
  obtain a where a: "bm_get (as_hot s) v = Some a" using candidate_hot [of v u s] Cons(4) c by auto
  let ?s = "evict_one v s"
  have cs: "evict_candidates ?s = cs" using candidates_evict_one [OF Cons(3)] Cons(4) c by simp
  then have len': "length (dynamic_ids ?s) = length cs" using length_candidates [of ?s] by simp
  have ih: "evict_bytes lib (hc_max_dynamic_bytes (as_config ?s)) cs (estimated_bytes lib ?s) ?s = evict_lru lib (map fst cs) ?s"
    using Cons(3,5) cs len len' by (intro Cons(1) c(2)) (simp_all add: bm_ok_remove)
  show ?case
  proof (cases cs)
    case Nil
    with Cons(5) len c show ?thesis by (simp add: over_capacity_def)
  next
    case (Cons d ds)
    then have "over_capacity lib s \<longleftrightarrow> hc_max_dynamic_bytes (as_config s) < estimated_bytes lib s"
      using Cons.prems(3) len by (auto simp: over_capacity_def)
    with ih a estimated_bytes_evict_one [OF Cons.prems(1) a, of lib] Cons c show ?thesis by (cases d) simp
  qed
qed simp

lemma evict_dynamic_lru: "bm_ok (as_hot s) \<Longrightarrow> evict_dynamic_to_capacity lib s = evict_lru lib (map fst (evict_candidates s)) s"
proof (induction lib s rule: evict_dynamic_to_capacity.induct)
  case (1 lib s)
  show ?case
  proof (cases "length (dynamic_ids s) \<le> hc_max_dynamic_assets (as_config s)")
    case True
    show ?thesis
    proof (cases "estimated_bytes lib s \<le> hc_max_dynamic_bytes (as_config s) \<or> dynamic_ids s = []")
      case stop: True
      then have "\<not> over_capacity lib s" using True by (auto simp: over_capacity_def)
      then have "evict_lru lib is s = s" for "is" by (cases "is") simp_all
      with True stop show ?thesis by (simp add: evict_dynamic_to_capacity.simps)
    next
      case False
      with True evict_bytes_lru [OF 1(2) refl True, of lib] show ?thesis by (simp add: evict_dynamic_to_capacity.simps)
    qed
  next
    case False
    then have "evict_candidates s \<noteq> []" using length_candidates [of s] by auto
    then obtain v u cs where c: "evict_candidates s = (v, u) # cs" by (cases "evict_candidates s") auto
    have "over_capacity lib s" using False by (simp add: over_capacity_def)
    with False c 1(1) [OF False c refl bm_ok_evict_one [OF 1(2)]] candidates_evict_one [OF 1(2) c] show ?thesis
      by (simp add: evict_dynamic_to_capacity.simps [of lib s])
  qed
qed

text \<open>What the reference leaves: it stays within capacity, and only the least recent candidates go.\<close>

lemma evict_lru_within:
  "bm_ok (as_hot s) \<Longrightarrow> \<not> over_capacity lib (evict_lru lib (map fst (evict_candidates s)) s)"
proof (induction "map fst (evict_candidates s)" arbitrary: s)
  case Nil
  then have "dynamic_ids s = []" using length_candidates [of s] by simp
  with Nil show ?case by (simp add: over_capacity_def flip: Nil(1))
next
  case (Cons v vs)
  obtain u cs where c: "evict_candidates s = (v, u) # cs" "vs = map fst cs" using Cons(2) by (cases "evict_candidates s") auto
  have cs: "evict_candidates (evict_one v s) = cs" by (rule candidates_evict_one [OF Cons(3) c(1)])
  have "\<not> over_capacity lib (evict_lru lib (map fst (evict_candidates (evict_one v s))) (evict_one v s))"
    using Cons(3) c(2) cs by (intro Cons(1)) (simp_all add: bm_ok_remove)
  with c cs show ?case by simp
qed

lemma evict_lru_fields [simp]:
  "as_config (evict_lru lib is s) = as_config s" "as_pinned (evict_lru lib is s) = as_pinned s"
  "as_runtime (evict_lru lib is s) = as_runtime s" "as_root (evict_lru lib is s) = as_root s"
  "as_local (evict_lru lib is s) = as_local s" "as_metadata (evict_lru lib is s) = as_metadata s"
  "as_metadata_high_water (evict_lru lib is s) = as_metadata_high_water s"
  by (induction lib "is" s rule: evict_lru.induct) simp_all

text \<open>The eviction removes an initial part of the candidates, and no more of them than needed.\<close>

lemma evict_lru_take:
  obtains k where "k \<le> length is" "evict_lru lib is s = fold evict_one (take k is) s"
    "\<And>j. j < k \<Longrightarrow> over_capacity lib (fold evict_one (take j is) s)"
proof -
  have "\<exists>k\<le>length is. evict_lru lib is s = fold evict_one (take k is) s \<and>
      (\<forall>j<k. over_capacity lib (fold evict_one (take j is) s))"
  proof (induction lib "is" s rule: evict_lru.induct)
    case (2 lib i "is" s)
    show ?case
    proof (cases "over_capacity lib s")
      case True
      from 2 [OF True] obtain k where k: "k \<le> length is" "evict_lru lib is (evict_one i s) = fold evict_one (take k is) (evict_one i s)"
        "\<forall>j<k. over_capacity lib (fold evict_one (take j is) (evict_one i s))" by blast
      have "over_capacity lib (fold evict_one (take j (i # is)) s)" if "j < Suc k" for j
        using that True k(3) by (cases j) simp_all
      with True k(1,2) show ?thesis by (intro exI [of _ "Suc k"]) simp
    qed (intro exI [of _ 0], simp)
  qed simp
  with that show thesis by blast
qed

lemma hot_fold_evict: "as_hot (fold evict_one is s) = filter (\<lambda>(i, _). i \<notin> set is) (as_hot s)"
proof (induction "is" arbitrary: s)
  case (Cons i "is")
  then show ?case by (auto simp: bm_remove_def intro!: filter_cong)
qed simp

end
