(* ===== verification/Asset_Sys.thy ===== *)
theory Asset_Sys
  imports Asset_Inv
begin

text \<open>
  The operations of the asset store as steps on the disk and the store, with the disk also changing on
  its own, and the invariant of every reachable store.
\<close>

section \<open>The invariant\<close>

definition playable :: "runtime_compatibility \<Rightarrow> 'v performance_asset \<Rightarrow> bool" where
  "playable rt a \<longleftrightarrow> asset_issues a = [] \<and> check_compatibility (pa_compatibility a) rt = CS_Usable"

definition hot_ok :: "'v asset_store \<Rightarrow> bool" where
  "hot_ok s \<longleftrightarrow>
     bm_ok (as_hot s) \<and>
     (\<forall>(i, a)\<in>set (as_hot s). pa_id a = i \<and> playable (as_runtime s) a \<and> (is_generated a \<or> i \<in> as_pinned s))"

definition index_ok :: "'v asset_store \<Rightarrow> bool" where
  "index_ok s \<longleftrightarrow> bm_ok (as_local s) \<and> (\<forall>(i, e)\<in>set (as_local s). ai_id (ie_identity e) = i)"

definition metadata_ok :: "'v asset_store \<Rightarrow> bool" where
  "metadata_ok s \<longleftrightarrow>
     bm_ok (as_metadata s) \<and> length (as_metadata s) \<le> hc_max_promotion_metadata (as_config s) \<and>
     length (as_metadata s) \<le> as_metadata_high_water s"

definition store_inv :: "'v asset_lib \<Rightarrow> 'v asset_store \<Rightarrow> bool" where
  "store_inv lib s \<longleftrightarrow> hot_ok s \<and> index_ok s \<and> metadata_ok s \<and> \<not> over_capacity lib s"

lemma store_inv_new: "store_inv lib (asset_store_new base runtime)"
  by (simp add: store_inv_def hot_ok_def index_ok_def metadata_ok_def over_capacity_def asset_store_new_def
      dynamic_ids_def bm_keys_def)

section \<open>Evictions\<close>

lemma hot_ok_filter: "hot_ok s \<Longrightarrow> as_hot t = filter P (as_hot s) \<Longrightarrow> as_runtime t = as_runtime s \<Longrightarrow>
    as_pinned t = as_pinned s \<Longrightarrow> hot_ok t"
  by (auto simp: hot_ok_def bm_ok_filter)

text \<open>Fewer residents never exceed the capacity.\<close>

lemma sum_list_filter_le: "sum_list (map f (filter P xs)) \<le> (sum_list (map f xs) :: nat)"
  by (induction xs) auto

lemma length_filter_map_le: "length (filter P (map f (filter Q xs))) \<le> length (filter P (map f xs))"
  by (induction xs) auto

lemma over_capacity_filter:
  "\<not> over_capacity lib s \<Longrightarrow> as_hot t = filter P (as_hot s) \<Longrightarrow> as_pinned t = as_pinned s \<Longrightarrow> as_config t = as_config s \<Longrightarrow>
     \<not> over_capacity lib t"
proof -
  assume a: "\<not> over_capacity lib s" "as_hot t = filter P (as_hot s)" "as_pinned t = as_pinned s" "as_config t = as_config s"
  have "length (dynamic_ids t) \<le> length (dynamic_ids s)"
    unfolding dynamic_ids_def bm_keys_def a(2,3) by (rule length_filter_map_le)
  moreover have "estimated_bytes lib t \<le> estimated_bytes lib s"
    unfolding estimated_bytes_def a(2) by (rule sum_list_filter_le)
  ultimately show ?thesis using a(1,4) by (auto simp: over_capacity_def)
qed

lemma evict_dynamic_cases:
  assumes "bm_ok (as_hot s)"
  obtains vs where "evict_dynamic_to_capacity lib s = fold evict_one vs s" "set vs \<subseteq> set (dynamic_ids s)"
    "\<not> over_capacity lib (evict_dynamic_to_capacity lib s)"
proof -
  obtain k where "evict_lru lib (map fst (evict_candidates s)) s = fold evict_one (take k (map fst (evict_candidates s))) s"
    using evict_lru_take [of "map fst (evict_candidates s)" lib s] by metis
  moreover have "set (take k (map fst (evict_candidates s))) \<subseteq> set (dynamic_ids s)"
    using candidate_ids [of s] by (metis set_mset_mset set_take_subset)
  ultimately show thesis using evict_lru_within [OF assms, of lib] by (intro that) (simp_all add: evict_dynamic_lru [OF assms])
qed

lemma fold_evict_fields [simp]:
  "as_config (fold evict_one vs s) = as_config s" "as_pinned (fold evict_one vs s) = as_pinned s"
  "as_runtime (fold evict_one vs s) = as_runtime s" "as_root (fold evict_one vs s) = as_root s"
  "as_local (fold evict_one vs s) = as_local s" "as_metadata (fold evict_one vs s) = as_metadata s"
  "as_metadata_high_water (fold evict_one vs s) = as_metadata_high_water s"
  by (induction vs arbitrary: s) simp_all

text \<open>The eviction establishes the capacity part of the invariant and keeps the rest.\<close>

lemma store_inv_evict:
  "hot_ok s \<Longrightarrow> index_ok s \<Longrightarrow> metadata_ok s \<Longrightarrow> store_inv lib (evict_dynamic_to_capacity lib s)"
proof -
  assume a: "hot_ok s" "index_ok s" "metadata_ok s"
  then have "bm_ok (as_hot s)" by (simp add: hot_ok_def)
  then show ?thesis
  proof (rule evict_dynamic_cases [of s lib])
    fix vs assume e: "evict_dynamic_to_capacity lib s = fold evict_one vs s"
      "\<not> over_capacity lib (evict_dynamic_to_capacity lib s)"
    have "hot_ok (fold evict_one vs s)" using a(1) by (rule hot_ok_filter) (simp_all add: hot_fold_evict)
    with a(2,3) e show ?thesis by (simp add: store_inv_def index_ok_def metadata_ok_def)
  qed
qed

lemma store_inv_filter:
  assumes "store_inv lib s" "as_hot t = filter P (as_hot s)" "as_pinned t = as_pinned s" "as_config t = as_config s"
    and "as_runtime t = as_runtime s" "as_metadata t = as_metadata s" "as_metadata_high_water t = as_metadata_high_water s"
    and "index_ok t"
  shows "store_inv lib t"
proof -
  have "hot_ok t" using assms(1) by (intro hot_ok_filter [OF _ assms(2,5,3)]) (simp add: store_inv_def)
  moreover have "\<not> over_capacity lib t"
    using assms(1) by (intro over_capacity_filter [OF _ assms(2-4)]) (simp add: store_inv_def)
  ultimately show ?thesis using assms by (simp add: store_inv_def metadata_ok_def)
qed

section \<open>Promotion metadata\<close>

lemma evict_metadata_ok:
  "bm_ok md \<Longrightarrow> bm_ok (fst (evict_metadata cap md n)) \<and> length (fst (evict_metadata cap md n)) \<le> cap \<and>
     length (fst (evict_metadata cap md n)) \<le> length md \<and> set (fst (evict_metadata cap md n)) \<subseteq> set md"
proof (induction cap md n rule: evict_metadata.induct)
  case (1 cap md n)
  show ?case
  proof (cases md)
    case Nil
    then show ?thesis by (simp add: evict_metadata.simps)
  next
    case (Cons x xs)
    let ?md = "bm_remove (fst (least_by metadata_before x xs)) md"
    show ?thesis
    proof (cases "cap < length md")
      case True
      have "length ?md \<le> length md" "set ?md \<subseteq> set md" by (auto simp: bm_remove_def)
      moreover have "evict_metadata cap md n = evict_metadata cap ?md (sadd n 1)"
        using True by (subst evict_metadata.simps) (simp add: Cons)
      ultimately show ?thesis using 1(1) [OF Cons True] bm_ok_remove [OF 1(2)] by auto
    next
      case False
      then have "evict_metadata cap md n = (md, n)" by (subst evict_metadata.simps) (simp add: Cons)
      with False 1(2) show ?thesis by simp
    qed
  qed
qed

lemma evict_promotion_fields [simp]:
  "as_config (evict_promotion_metadata_to_capacity s) = as_config s"
  "as_pinned (evict_promotion_metadata_to_capacity s) = as_pinned s"
  "as_runtime (evict_promotion_metadata_to_capacity s) = as_runtime s"
  "as_hot (evict_promotion_metadata_to_capacity s) = as_hot s"
  "as_local (evict_promotion_metadata_to_capacity s) = as_local s"
  "as_metadata_high_water (evict_promotion_metadata_to_capacity s) = as_metadata_high_water s"
  "as_metadata (evict_promotion_metadata_to_capacity s) =
     fst (evict_metadata (hc_max_promotion_metadata (as_config s)) (as_metadata s) (as_metadata_evictions s))"
  by (simp_all add: evict_promotion_metadata_to_capacity_def split: prod.splits)

text \<open>What the capacity depends on.\<close>

lemma over_capacity_cong:
  "as_hot t = as_hot s \<Longrightarrow> as_pinned t = as_pinned s \<Longrightarrow> as_config t = as_config s \<Longrightarrow> over_capacity lib t = over_capacity lib s"
  by (simp add: over_capacity_def dynamic_ids_def estimated_bytes_def)

lemma store_inv_config: "store_inv lib s \<Longrightarrow> store_inv lib (set_hot_cache_config lib c s)"
proof -
  assume a: "store_inv lib s"
  let ?s = "s\<lparr>as_config := c\<rparr>"
  have "hot_ok ?s" "index_ok ?s" using a by (simp_all add: store_inv_def hot_ok_def index_ok_def)
  moreover have "bm_ok (as_hot ?s)" using a by (simp add: store_inv_def hot_ok_def)
  ultimately show ?thesis
  proof (rule_tac evict_dynamic_cases [of ?s lib])
    fix vs assume h: "hot_ok ?s" "index_ok ?s" and e: "evict_dynamic_to_capacity lib ?s = fold evict_one vs ?s"
      "\<not> over_capacity lib (evict_dynamic_to_capacity lib ?s)"
    let ?t = "fold evict_one vs ?s"
    have "hot_ok ?t" using h(1) by (rule hot_ok_filter) (simp_all add: hot_fold_evict)
    moreover have "bm_ok (as_metadata s)" "length (as_metadata s) \<le> as_metadata_high_water s"
      using a by (simp_all add: store_inv_def metadata_ok_def)
    moreover note evict_metadata_ok [OF this(1), of "hc_max_promotion_metadata c" "as_metadata_evictions ?t"]
    moreover have "over_capacity lib (evict_promotion_metadata_to_capacity ?t) = over_capacity lib ?t"
      by (rule over_capacity_cong) simp_all
    ultimately show ?thesis using h(2) e
      by (auto simp: set_hot_cache_config_def store_inv_def metadata_ok_def hot_ok_def index_ok_def)
  qed
qed

lemma store_inv_note: "store_inv lib s \<Longrightarrow> store_inv lib (note_hot_use i now s)"
proof -
  assume a: "store_inv lib s"
  obtain md where md: "bm_ok md" and n: "as_metadata (note_hot_use i now s) =
      fst (evict_metadata (hc_max_promotion_metadata (as_config s)) md (as_metadata_evictions s))"
    using a by (auto simp: note_hot_use_def Let_def store_inv_def metadata_ok_def intro: bm_ok_insert)
  have f: "as_hot (note_hot_use i now s) = as_hot s" "as_pinned (note_hot_use i now s) = as_pinned s"
    "as_config (note_hot_use i now s) = as_config s" "as_runtime (note_hot_use i now s) = as_runtime s"
    "as_local (note_hot_use i now s) = as_local s"
    "length (as_metadata (note_hot_use i now s)) \<le> as_metadata_high_water (note_hot_use i now s)"
    by (simp_all add: note_hot_use_def Let_def)
  have "over_capacity lib (note_hot_use i now s) = over_capacity lib s" by (rule over_capacity_cong) (simp_all add: f)
  moreover have "metadata_ok (note_hot_use i now s)"
    unfolding metadata_ok_def using f(6) evict_metadata_ok [OF md, of "hc_max_promotion_metadata (as_config s)"]
    by (simp add: f(3)) (simp add: n)
  ultimately show ?thesis using a by (simp add: store_inv_def hot_ok_def index_ok_def f)
qed

section \<open>Lookup and insertion\<close>

lemma touch_fields [simp]:
  "as_hot (touch i s) = as_hot s" "as_pinned (touch i s) = as_pinned s" "as_config (touch i s) = as_config s"
  "as_runtime (touch i s) = as_runtime s" "as_local (touch i s) = as_local s" "as_metadata (touch i s) = as_metadata s"
  "as_metadata_high_water (touch i s) = as_metadata_high_water s" "as_root (touch i s) = as_root s"
  by (simp_all add: touch_def)

text \<open>A step that only counts and ticks.\<close>

definition same_content :: "'v asset_store \<Rightarrow> 'v asset_store \<Rightarrow> bool" where
  "same_content s t \<longleftrightarrow>
     as_hot t = as_hot s \<and> as_pinned t = as_pinned s \<and> as_config t = as_config s \<and> as_runtime t = as_runtime s \<and>
     as_local t = as_local s \<and> as_metadata t = as_metadata s \<and>
     as_metadata_high_water t = as_metadata_high_water s \<and> as_root t = as_root s"

lemma same_content_inv: "store_inv lib s \<Longrightarrow> same_content s t \<Longrightarrow> store_inv lib t"
  using over_capacity_cong [of t s lib]
  by (simp add: same_content_def store_inv_def hot_ok_def index_ok_def metadata_ok_def)

lemma hot_get_result: "fst (hot_get i s) = bm_get (as_hot s) i"
  by (simp add: hot_get_def split: option.splits)

lemma hot_get_same: "same_content s (snd (hot_get i s))"
  by (simp add: hot_get_def same_content_def split: option.splits)

lemma insert_hot_cases:
  obtains (refused) e where "insert_hot lib a s = (Inl e, s)"
  | (stored) s' where "insert_hot lib a s = (Inr a, evict_dynamic_to_capacity lib s')" "playable (as_runtime s) a"
      "as_hot s' = bm_insert (pa_id a) a (as_hot s)"
      "as_pinned s' = (if is_generated a then as_pinned s else insert (pa_id a) (as_pinned s))"
      "as_config s' = as_config s" "as_runtime s' = as_runtime s" "as_local s' = as_local s"
      "as_metadata s' = as_metadata s" "as_metadata_high_water s' = as_metadata_high_water s" "as_root s' = as_root s"
proof (cases "playable (as_runtime s) a")
  case True
  let ?t = "touch (pa_id a) s"
  let ?p = "if is_generated a then ?t else ?t\<lparr>as_pinned := insert (pa_id a) (as_pinned ?t)\<rparr>"
  show thesis
    by (rule stored [of "?p\<lparr>as_hot := bm_insert (pa_id a) a (as_hot ?p)\<rparr>"])
      (use True in \<open>simp_all add: insert_hot_def validate_asset_def playable_def Let_def\<close>)
next
  case False
  then show thesis
    by (cases "asset_issues a = []"; cases "check_compatibility (pa_compatibility a) (as_runtime s)")
      (auto intro!: refused simp: insert_hot_def validate_asset_def playable_def)
qed

lemma store_inv_insert: "store_inv lib s \<Longrightarrow> store_inv lib (snd (insert_hot lib a s))"
proof (cases rule: insert_hot_cases [of lib a s])
  case (refused e)
  moreover assume "store_inv lib s"
  ultimately show ?thesis by simp
next
  case (stored s')
  assume a: "store_inv lib s"
  have "(i, x) \<in> set (as_hot s') \<Longrightarrow> i = pa_id a \<and> x = a \<or> (i, x) \<in> set (as_hot s)" for i x
    using set_bm_insert [of "pa_id a" a "as_hot s"] stored(3) by auto
  then have "hot_ok s'"
    using a stored by (fastforce simp: store_inv_def hot_ok_def)
  with a stored show ?thesis
    by (simp, intro store_inv_evict) (simp_all add: store_inv_def index_ok_def metadata_ok_def)
qed

section \<open>Indexing\<close>

lemma load_valid: "load_asset_file lib p d = Inr a \<Longrightarrow> asset_issues a = []"
  by (auto simp: load_asset_file_def validate_asset_def split: sum.splits if_splits)

definition entry_at :: "runtime_compatibility \<Rightarrow> path \<Rightarrow> 'v performance_asset \<Rightarrow> asset_index_entry" where
  "entry_at rt p a = index_entry_of p a (check_compatibility (pa_compatibility a) rt)"

definition add_entries ::
  "runtime_compatibility \<Rightarrow> path list \<Rightarrow> 'v performance_asset list \<Rightarrow> (string, asset_index_entry) bmap \<Rightarrow>
     (string, asset_index_entry) bmap" where
  "add_entries rt ps as nxt = fold (\<lambda>(p, a). bm_insert (pa_id a) (entry_at rt p a)) (zip ps as) nxt"

lemma index_loop_Inr:
  "index_loop lib rt d ps nxt rep = Inr (nxt', rep') \<Longrightarrow>
     \<exists>as. map (\<lambda>p. load_asset_file lib p d) ps = map Inr as \<and> distinct (map pa_id as) \<and>
       (\<forall>a\<in>set as. bm_get nxt (pa_id a) = None) \<and> nxt' = add_entries rt ps as nxt \<and>
       ir_indexed rep' = ir_indexed rep + length ps \<and>
       ir_usable rep' + ir_incompatible rep' = ir_usable rep + ir_incompatible rep + length ps"
proof (induction lib rt d ps nxt rep rule: index_loop.induct)
  case (2 lib rt d p ps nxt rep)
  obtain a where a: "load_asset_file lib p d = Inr a" using 2(2) by (auto split: sum.splits)
  let ?st = "check_compatibility (pa_compatibility a) rt"
  let ?rep = "if is_usable ?st
      then rep\<lparr>ir_indexed := ir_indexed rep + 1, ir_usable := ir_usable rep + 1\<rparr>
      else rep\<lparr>ir_indexed := ir_indexed rep + 1, ir_incompatible := ir_incompatible rep + 1\<rparr>"
  have n: "bm_get nxt (pa_id a) = None" using 2(2) a by (auto simp: Let_def split: option.splits)
  with 2(2) a have step: "index_loop lib rt d ps (bm_insert (pa_id a) (entry_at rt p a) nxt) ?rep = Inr (nxt', rep')"
    by (simp add: Let_def entry_at_def)
  obtain as where as: "map (\<lambda>p. load_asset_file lib p d) ps = map Inr as" "distinct (map pa_id as)"
    "\<forall>x\<in>set as. bm_get (bm_insert (pa_id a) (entry_at rt p a) nxt) (pa_id x) = None"
    "nxt' = add_entries rt ps as (bm_insert (pa_id a) (entry_at rt p a) nxt)"
    "ir_indexed rep' = ir_indexed ?rep + length ps"
    "ir_usable rep' + ir_incompatible rep' = ir_usable ?rep + ir_incompatible ?rep + length ps"
    using 2(1) [OF a refl n step [unfolded entry_at_def]] by (auto simp: entry_at_def)
  have "pa_id a \<notin> pa_id ` set as" "\<forall>x\<in>set as. bm_get nxt (pa_id x) = None"
    using as(3) by (auto split: if_splits)
  with as a n show ?case
    by (intro exI [of _ "a # as"]) (auto simp: add_entries_def split: if_splits)
qed (simp add: add_entries_def)

lemma add_entries_ok:
  "bm_ok nxt \<Longrightarrow> (\<forall>(i, e)\<in>set nxt. ai_id (ie_identity e) = i) \<Longrightarrow>
     bm_ok (add_entries rt ps as nxt) \<and> (\<forall>(i, e)\<in>set (add_entries rt ps as nxt). ai_id (ie_identity e) = i)"
proof (induction ps arbitrary: as nxt)
  case (Cons p ps)
  show ?case
  proof (cases as)
    case (Cons a bs)
    let ?n = "bm_insert (pa_id a) (entry_at rt p a) nxt"
    have "\<forall>(i, e)\<in>set ?n. ai_id (ie_identity e) = i"
      using Cons.prems(2) set_bm_insert [of "pa_id a" "entry_at rt p a" nxt]
      by (fastforce simp: entry_at_def index_entry_of_def identity_of_def Let_def)
    with Cons.IH [of ?n bs] Cons.prems(1) Cons show ?thesis by (simp add: add_entries_def bm_ok_insert)
  qed (use Cons in \<open>simp add: add_entries_def\<close>)
qed (simp add: add_entries_def)

lemma store_inv_index: "store_inv (lib :: 'v asset_lib) s \<Longrightarrow> store_inv lib (snd (index_local lib d s))"
proof -
  assume a: "store_inv lib s"
  show ?thesis
  proof (cases "fst (index_local lib d s)")
    case (Inl e)
    then have "snd (index_local lib d s) = s" by (auto simp: index_local_def split: option.splits sum.splits)
    with a show ?thesis by simp
  next
    case (Inr rep)
    then obtain nxt where l: "index_loop lib (as_runtime s) d (filter (is_descriptor (as_root s)) (bm_keys d)) []
          \<lparr>ir_indexed = 0, ir_usable = 0, ir_incompatible = 0\<rparr> = Inr (nxt, rep)"
      and s: "snd (index_local lib d s) = s\<lparr>as_local := nxt,
          as_hot := bm_retain (\<lambda>i a. case bm_get nxt i of None \<Rightarrow> True | Some e \<Rightarrow> ie_identity e = identity_of a) (as_hot s)\<rparr>"
      by (auto simp: index_local_def split: option.splits sum.splits)
    obtain as :: "'v performance_asset list" where n: "nxt = add_entries (as_runtime s) (filter (is_descriptor (as_root s)) (bm_keys d)) as []"
      using index_loop_Inr [OF l] by (elim exE conjE) (rule that)
    have "bm_ok nxt \<and> (\<forall>(i, e)\<in>set nxt. ai_id (ie_identity e) = i)"
      unfolding n by (rule add_entries_ok) simp_all
    then show ?thesis unfolding s by (intro store_inv_filter [OF a]) (simp_all add: bm_retain_def index_ok_def)
  qed
qed

section \<open>Promotion and invalidation\<close>

text \<open>Changing the index under its own ids, and forgetting a resident.\<close>

lemma store_inv_local_insert:
  "store_inv lib s \<Longrightarrow> ai_id (ie_identity e) = i \<Longrightarrow> store_inv lib (s\<lparr>as_local := bm_insert i e (as_local s)\<rparr>)"
proof -
  assume a: "store_inv lib s" "ai_id (ie_identity e) = i"
  have "over_capacity lib (s\<lparr>as_local := bm_insert i e (as_local s)\<rparr>) = over_capacity lib s" by (rule over_capacity_cong) simp_all
  moreover have "\<forall>(j, x)\<in>set (bm_insert i e (as_local s)). ai_id (ie_identity x) = j"
    using a set_bm_insert [of i e "as_local s"] by (fastforce simp: store_inv_def index_ok_def)
  ultimately show ?thesis
    using a(1) by (simp add: store_inv_def hot_ok_def index_ok_def metadata_ok_def bm_ok_insert)
qed

lemma store_inv_forget: "store_inv lib s \<Longrightarrow> store_inv lib (s\<lparr>as_hot := bm_remove i (as_hot s)\<rparr>)"
  by (rule store_inv_filter [of lib s _ "\<lambda>(k, _). k \<noteq> i"]) (simp_all add: bm_remove_def store_inv_def index_ok_def)

lemma store_inv_local_remove: "store_inv lib s \<Longrightarrow> store_inv lib (s\<lparr>as_local := bm_remove i (as_local s)\<rparr>)"
proof -
  assume a: "store_inv lib s"
  have "over_capacity lib (s\<lparr>as_local := bm_remove i (as_local s)\<rparr>) = over_capacity lib s" by (rule over_capacity_cong) simp_all
  then show ?thesis
    using a by (simp add: store_inv_def hot_ok_def index_ok_def metadata_ok_def bm_ok_remove) (simp add: bm_remove_def)
qed

lemma store_inv_hot_get: "store_inv lib s \<Longrightarrow> store_inv lib (snd (hot_get i s))"
  by (rule same_content_inv [OF _ hot_get_same])

lemma hot_get_own_id: "store_inv lib s \<Longrightarrow> hot_get i s = (Some a, s') \<Longrightarrow> pa_id a = i \<and> playable (as_runtime s) a"
proof -
  assume s: "store_inv lib s" "hot_get i s = (Some a, s')"
  then have "bm_get (as_hot s) i = Some a" using hot_get_result [of i s] by simp
  then have "(i, a) \<in> set (as_hot s)" by (auto simp: bm_get_def dest: map_of_SomeD)
  with s(1) show ?thesis by (auto simp: store_inv_def hot_ok_def)
qed

lemma persist_checks_Inr: "persist_checks found i s = Inr a \<Longrightarrow> found = Some a \<and> is_generated a \<and> bm_get (as_local s) i = None"
  by (auto simp: persist_checks_def ensure_generated_def rbind_def split: option.splits sum.splits if_splits
      compatibility_status.splits)

lemma persist_cases:
  obtains (failed) e d' where "persist_generated_descriptor lib i d s = (Inl e, d', snd (hot_get i s))"
      "d' = d \<or> (\<exists>bytes. write_descriptor lib (temporary_path lib i s) (destination_path i s) bytes d = (Inl e, d'))"
  | (written) a bytes d2 where "persist_generated_descriptor lib i d s =
        (Inr (destination_path i s), d2,
         (snd (hot_get i s))\<lparr>as_local := bm_insert i (index_entry_of (destination_path i s) a CS_Usable) (as_local s)\<rparr>)"
      "bm_get (as_hot s) i = Some a" "is_generated a" "bm_get (as_local s) i = None"
      "bm_get d (destination_path i s) = None" "alb_pretty lib a = Inr bytes"
      "write_descriptor lib (temporary_path lib i s) (destination_path i s) bytes d = (Inr (), d2)"
proof -
  obtain found s1 where h: "hot_get i s = (found, s1)" by (cases "hot_get i s")
  have same: "same_content s s1" using hot_get_same [of s i] h by simp
  then have p: "destination_path i s1 = destination_path i s" "temporary_path lib i s1 = temporary_path lib i s"
    "as_local s1 = as_local s"
    by (simp_all add: same_content_def destination_path_def temporary_path_def)
  have found: "found = bm_get (as_hot s) i" using hot_get_result [of i s] h by simp
  show thesis
  proof (cases "persist_checks found i s1")
    case (Inl e)
    then show thesis by (rule_tac failed) (simp add: persist_generated_descriptor_def h, auto)
  next
    case (Inr a)
    note a = persist_checks_Inr [OF Inr, unfolded found p(3)]
    show thesis
    proof (cases "alb_io_error lib (IO_CreateDirs (as_root s1)) d")
      case (Some e)
      with Inr show thesis by (rule_tac failed) (simp add: persist_generated_descriptor_def h io_step_def, auto)
    next
      case None
      show thesis
      proof (cases "bm_get d (destination_path i s) = None")
        case False
        with Inr None show thesis
          by (rule_tac failed) (simp add: persist_generated_descriptor_def h io_step_def Let_def p, auto)
      next
        case free: True
        show thesis
        proof (cases "alb_pretty lib a")
          case (Inl e)
          with Inr None free show thesis
            by (rule_tac failed) (simp add: persist_generated_descriptor_def h io_step_def Let_def p, auto)
        next
          case bytes: (Inr bytes)
          show thesis
          proof (cases "write_descriptor lib (temporary_path lib i s) (destination_path i s) bytes d")
            case (Pair r d2)
            show thesis
            proof (cases r)
              case (Inl e)
              with Pair Inr None free bytes show thesis
                by (rule_tac failed) (simp add: persist_generated_descriptor_def h io_step_def Let_def p, auto)
            next
              case (Inr u)
              have "persist_generated_descriptor lib i d s = (Inr (destination_path i s), d2,
                  (snd (hot_get i s))\<lparr>as_local := bm_insert i (index_entry_of (destination_path i s) a CS_Usable) (as_local s)\<rparr>)"
                using Pair Inr \<open>persist_checks found i s1 = Inr a\<close> None free bytes
                by (simp add: persist_generated_descriptor_def h io_step_def Let_def p)
              then show thesis using Pair Inr a free bytes by (intro written [of d2 a bytes]) simp_all
            qed
          qed
        qed
      qed
    qed
  qed
qed

lemma store_inv_persist:
  assumes "store_inv lib s" "persist_generated_descriptor lib i d s = (r, d', s')"
  shows "store_inv lib s'"
proof (cases rule: persist_cases [of lib i d s])
  case (failed e d2)
  with assms store_inv_hot_get [OF assms(1), of i] show ?thesis by simp
next
  case (written a bytes d2)
  have own: "pa_id a = i" using hot_get_own_id [OF assms(1), of i a] written(2) by (auto simp: hot_get_def)
  have loc: "as_local (snd (hot_get i s)) = as_local s" using hot_get_same [of s i] by (simp add: same_content_def)
  have "store_inv lib ((snd (hot_get i s))\<lparr>as_local := bm_insert i (index_entry_of (destination_path i s) a CS_Usable) (as_local (snd (hot_get i s)))\<rparr>)"
    by (rule store_inv_local_insert [OF store_inv_hot_get [OF assms(1)]]) (simp add: index_entry_of_def identity_of_def Let_def own)
  with assms(2) written(1) loc show ?thesis by simp
qed

lemma store_inv_runtime: "as_runtime (snd (hot_get i s)) = as_runtime s" "as_local (snd (hot_get i s)) = as_local s"
  "as_hot (snd (hot_get i s)) = as_hot s"
  using hot_get_same [of s i] by (simp_all add: same_content_def)

lemma store_inv_drop:
  "store_inv lib s \<Longrightarrow> store_inv lib (s\<lparr>as_local := bm_remove i (as_local s), as_hot := bm_remove i (as_hot s)\<rparr>)"
  by (rule store_inv_filter [OF store_inv_local_remove [of lib s i], where P = "\<lambda>(k, _). k \<noteq> i"])
    (simp_all add: bm_remove_def store_inv_def index_ok_def bm_ok_filter)

lemma store_inv_invalidate:
  assumes "store_inv lib s" "invalidate_generated_asset lib i d s = (r, d', s')"
  shows "store_inv lib s'"
proof (cases "bm_get (as_local s) i")
  case (Some e)
  with assms store_inv_drop [OF assms(1), of i] show ?thesis
    by (auto simp: invalidate_generated_asset_def split: sum.splits prod.splits)
next
  case None
  with assms store_inv_hot_get [OF assms(1), of i] store_inv_forget [OF store_inv_hot_get [OF assms(1), of i], of i]
  show ?thesis
    by (auto simp: invalidate_generated_asset_def split: sum.splits prod.splits option.splits)
qed

section \<open>Resolution\<close>

lemma evict_bytes_runtime: "as_runtime (evict_bytes lib cap cs est s) = as_runtime s"
  by (induction lib cap cs est s rule: evict_bytes.induct) (simp_all split: option.splits)

lemma evict_runtime [simp]: "as_runtime (evict_dynamic_to_capacity lib s) = as_runtime s"
proof (induction lib s rule: evict_dynamic_to_capacity.induct)
  case (1 lib s)
  then show ?case
    by (subst evict_dynamic_to_capacity.simps) (auto simp: evict_bytes_runtime split: list.splits)
qed

lemma resolve_ok:
  assumes "store_inv lib s" "resolve_with_tier lib i d s = (r, s')"
  shows "store_inv lib s' \<and> as_runtime s' = as_runtime s \<and>
    (\<forall>a t. r = Inr (a, t) \<longrightarrow> pa_id a = i \<and> playable (as_runtime s) a)"
proof -
  obtain found s1 where h: "hot_get i s = (found, s1)" by (cases "hot_get i s")
  have s1: "store_inv lib s1" "as_runtime s1 = as_runtime s"
    using store_inv_hot_get [OF assms(1), of i] store_inv_runtime(1) [of i s] by (simp_all add: h)
  show ?thesis
  proof (cases found)
    case (Some a)
    with assms(2) h s1 hot_get_own_id [OF assms(1), of i a] show ?thesis
      by (auto simp: resolve_with_tier_def)
  next
    case None
    show ?thesis
    proof (cases "\<exists>e. r = Inl e \<and> s' = s1")
      case True
      with s1 show ?thesis by auto
    next
      case False
      then obtain a where a: "pa_id a = i" and
        r: "(r, s') = (case insert_hot lib a s1 of (Inl e, s2) \<Rightarrow> (Inl e, s2) | (Inr b, s2) \<Rightarrow> (Inr (b, CT_LocalStorage), s2))"
        using assms(2) h None
        by (auto simp: resolve_with_tier_def split: option.splits compatibility_status.splits sum.splits if_splits)
      from store_inv_insert [OF s1(1), of a] have inv: "store_inv lib (snd (insert_hot lib a s1))" .
      show ?thesis
      proof (cases rule: insert_hot_cases [of lib a s1])
        case (refused e)
        with r s1 show ?thesis by simp
      next
        case (stored s3)
        with r inv s1 a show ?thesis by simp
      qed
    qed
  qed
qed

lemma resolve_each_ok:
  "store_inv lib s \<Longrightarrow> resolve_each lib is d s = (r, s') \<Longrightarrow> store_inv lib s' \<and> as_runtime s' = as_runtime s"
proof (induction "is" arbitrary: s)
  case (Cons i "is")
  obtain r1 s1 where e: "resolve_with_tier lib i d s = (r1, s1)" by (cases "resolve_with_tier lib i d s")
  from resolve_ok [OF Cons(2) e] Cons(1) [of s1] Cons(3) show ?case
    by (cases r1) (auto simp: resolve_def e)
qed simp

lemma preload_ok: "store_inv lib s \<Longrightarrow> preload lib w d s = (r, s') \<Longrightarrow> store_inv lib s' \<and> as_runtime s' = as_runtime s"
proof -
  assume a: "store_inv lib s" "preload lib w d s = (r, s')"
  obtain r1 where "resolve_each lib (map fst (filter (\<lambda>(_, e). w e) (as_local s))) d s = (r1, s')"
    using a(2) by (auto simp: preload_def Let_def apfst_def map_prod_def split: prod.splits)
  with a(1) show ?thesis by (rule resolve_each_ok)
qed

lemma select_variant_ok:
  assumes "store_inv lib s" "select_variant_with_tier lib grp seed recent d s = (r, s')"
  shows "store_inv lib s' \<and> as_runtime s' = as_runtime s \<and> (\<forall>a t. r = Inr (a, t) \<longrightarrow> playable (as_runtime s) a)"
proof (cases "select_variant_id grp seed recent s")
  case None
  with assms show ?thesis by (auto simp: select_variant_with_tier_def)
next
  case (Some i)
  with resolve_ok [OF assms(1), of i d r s'] assms(2) show ?thesis by (simp add: select_variant_with_tier_def)
qed

section \<open>The system\<close>

datatype 'v asset_op =
  AO_Config hot_cache_config
| AO_Note string u64
| AO_Get string
| AO_Insert "'v performance_asset"
| AO_Index
| AO_Persist string
| AO_Invalidate string
| AO_Resolve string
| AO_Preload
| AO_Preload_Classes "asset_class list"
| AO_Select string u64 "string list"
| AO_Disk disk

fun asset_exec :: "'v asset_lib \<Rightarrow> 'v asset_op \<Rightarrow> disk \<times> 'v asset_store \<Rightarrow> disk \<times> 'v asset_store" where
  "asset_exec lib (AO_Config c) (d, s) = (d, set_hot_cache_config lib c s)"
| "asset_exec lib (AO_Note i now) (d, s) = (d, note_hot_use i now s)"
| "asset_exec lib (AO_Get i) (d, s) = (d, snd (hot_get i s))"
| "asset_exec lib (AO_Insert a) (d, s) = (d, snd (insert_hot lib a s))"
| "asset_exec lib AO_Index (d, s) = (d, snd (index_local lib d s))"
| "asset_exec lib (AO_Persist i) (d, s) = snd (persist_generated_descriptor lib i d s)"
| "asset_exec lib (AO_Invalidate i) (d, s) = snd (invalidate_generated_asset lib i d s)"
| "asset_exec lib (AO_Resolve i) (d, s) = (d, snd (resolve_with_tier lib i d s))"
| "asset_exec lib AO_Preload (d, s) = (d, snd (preload_compatible lib d s))"
| "asset_exec lib (AO_Preload_Classes cs) (d, s) = (d, snd (preload_classes lib cs d s))"
| "asset_exec lib (AO_Select grp seed recent) (d, s) = (d, snd (select_variant_with_tier lib grp seed recent d s))"
| "asset_exec lib (AO_Disk d') (d, s) = (d', s)"

definition asset_init :: "disk \<times> 'v asset_store \<Rightarrow> bool" where
  "asset_init x \<longleftrightarrow> (\<exists>base rt. snd x = asset_store_new base rt)"

inductive asset_step :: "'v asset_lib \<Rightarrow> disk \<times> 'v asset_store \<Rightarrow> disk \<times> 'v asset_store \<Rightarrow> bool" for lib where
  exec: "asset_step lib x (asset_exec lib op x)"

inductive_simps asset_step_iff: "asset_step lib x y"

lemma asset_exec_inv: "store_inv lib (snd x) \<Longrightarrow> store_inv lib (snd (asset_exec lib op x))"
proof (cases x)
  case (Pair d s)
  assume "store_inv lib (snd x)"
  with Pair have s: "store_inv lib s" by simp
  show ?thesis
  proof (cases op)
    case (AO_Persist i)
    with s Pair store_inv_persist [of lib s i d] show ?thesis by (cases "persist_generated_descriptor lib i d s") auto
  next
    case (AO_Invalidate i)
    with s Pair store_inv_invalidate [of lib s i d] show ?thesis by (cases "invalidate_generated_asset lib i d s") auto
  next
    case (AO_Resolve i)
    with s Pair resolve_ok [of lib s i d] show ?thesis by (cases "resolve_with_tier lib i d s") auto
  next
    case AO_Preload
    with s Pair preload_ok [of lib s _ d] show ?thesis
      unfolding preload_compatible_def by (cases "preload_compatible lib d s") (auto simp: preload_compatible_def)
  next
    case (AO_Preload_Classes cs)
    with s Pair preload_ok [of lib s _ d] show ?thesis
      by (cases "preload_classes lib cs d s") (auto simp: preload_classes_def)
  next
    case (AO_Select grp seed recent)
    with s Pair select_variant_ok [of lib s grp seed recent d] show ?thesis
      by (cases "select_variant_with_tier lib grp seed recent d s") auto
  qed (simp_all add: Pair s store_inv_config store_inv_note store_inv_hot_get store_inv_insert store_inv_index)
qed

interpretation asset_sys: step_invariant asset_init "asset_step lib" "\<lambda>x. store_inv lib (snd x)" for lib
proof
  fix x y :: "disk \<times> 'a asset_store" and lib
  show "asset_init x \<Longrightarrow> store_inv lib (snd x)" by (auto simp: asset_init_def store_inv_new)
  show "store_inv lib (snd x) \<Longrightarrow> asset_step lib x y \<Longrightarrow> store_inv lib (snd y)"
    by (elim asset_step.cases) (simp add: asset_exec_inv)
qed

abbreviation asset_reach :: "'v asset_lib \<Rightarrow> disk \<times> 'v asset_store \<Rightarrow> bool" where
  "asset_reach lib \<equiv> reach asset_init (asset_step lib)"

lemmas reach_store_inv = asset_sys.reach_inv

end
