(* ===== verification/Asset_Claims.thy ===== *)
theory Asset_Claims
  imports Asset_Sys
begin

text \<open>
  The properties of the asset store (\<open>crates/asset-store/src/lib.rs\<close>), with a small store on which their
  hypotheses hold.
\<close>

section \<open>A concrete store\<close>

definition demo_asset :: "string \<Rightarrow> bool option \<Rightarrow> nat performance_asset" where
  "demo_asset i gen =
     \<lparr>pa_schema_version = PERFORMANCE_ASSET_SCHEMA_VERSION, pa_id = i, pa_intent = ''nod'', pa_class = ACl_Reaction,
      pa_variant_group = Some ''g'', pa_speech = None, pa_expression = None, pa_gesture = None, pa_gaze = None,
      pa_timeline = [], pa_interrupt_points_ms = [], pa_variation = None,
      pa_compatibility = \<lparr>cm_compiler_version = ''c1'', cm_voice_model = None, cm_avatar_profile = None,
        cm_viseme_mapping = None, cm_motion_library = None\<rparr>,
      pa_semantic_embedding = None,
      pa_provenance =
        (case gen of None \<Rightarrow> None
         | Some g \<Rightarrow> Some \<lparr>pv_generated = Some g, pv_generator = Some ''gen'', pv_created_at = Some ''t'',
             pv_thinking_backend = Some ''b'', pv_thinking_model_alias = None, pv_thinking_model_version = None,
             pv_tts_backend = Some ''tts'', pv_tts_model_alias = None, pv_tts_model_version = None,
             pv_routing_reason = Some ''r''\<rparr>)\<rparr>"

definition demo_generated :: "nat performance_asset" where
  "demo_generated = demo_asset ''ab0'' (Some True)"

definition demo_asset_lib :: "nat asset_lib" where
  "demo_asset_lib =
     \<lparr>alb_parse = (\<lambda>t. if t = ''{0}'' then Inr demo_generated else Inl ''expected value''),
      alb_pretty = (\<lambda>a. if a = demo_generated then Inr ''{0}'' else Inl ''refused''),
      alb_json_len = (\<lambda>a. 10), alb_debug = (\<lambda>s. s), alb_pid = 7, alb_io_error = (\<lambda>c d. None), alb_torn = (\<lambda>s. [])\<rparr>"

definition demo_runtime :: runtime_compatibility where
  "demo_runtime = \<lparr>rc_compiler_version = ''c1'', rc_voice_model = None, rc_avatar_profile = None,
     rc_viseme_mapping = None, rc_motion_library = None\<rparr>"

definition demo_store0 :: "nat asset_store" where
  "demo_store0 = asset_store_new ''assets'' demo_runtime"

text \<open>One static and two generated residents; the capacity for generated ones is lowered last.\<close>

definition demo_store1 :: "nat asset_store" where
  "demo_store1 = snd (insert_hot demo_asset_lib demo_generated demo_store0)"

definition demo_store2 :: "nat asset_store" where
  "demo_store2 =
     snd (insert_hot demo_asset_lib (demo_asset ''ab2'' (Some True))
       (snd (insert_hot demo_asset_lib (demo_asset ''ab1'' None) demo_store1)))"

lemma demo_store0_reach: "asset_reach lib (d, demo_store0)"
  by (rule reach.reach_init) (auto simp: asset_init_def demo_store0_def)

lemma asset_reach_exec: "asset_reach lib (d, s) \<Longrightarrow> asset_exec lib op (d, s) = x \<Longrightarrow> asset_reach lib x"
  by (erule reach.reach_step) (auto intro: asset_step.intros)

lemma demo_store1_reach: "asset_reach demo_asset_lib (d, demo_store1)"
  by (rule asset_reach_exec [OF demo_store0_reach, of _ "AO_Insert demo_generated"]) (simp add: demo_store1_def)

lemma demo_store2_reach: "asset_reach demo_asset_lib (d, demo_store2)"
  by (rule asset_reach_exec [OF asset_reach_exec [OF demo_store1_reach [of d] asset_exec.simps(4) [of _ "demo_asset ''ab1'' None"]],
        of "AO_Insert (demo_asset ''ab2'' (Some True))"]) (simp add: demo_store2_def)

section \<open>The in-memory cache\<close>

text \<open>
  C18. In every reachable store each resident of the cache is filed under its own id, passes validation, is
  compatible with the runtime and is either generated or pinned; no id is filed twice; the generated
  residents respect the count limit and, when there are two or more of them, all residents together
  respect the byte budget; and the promotion records respect their limit.
\<close>

theorem hot_cache_is_sound:
  assumes "asset_reach lib (d, s)"
  shows "(\<forall>(i, a)\<in>set (as_hot s). pa_id a = i \<and> validate_asset a = Inr () \<and>
      check_compatibility (pa_compatibility a) (as_runtime s) = CS_Usable \<and> (is_generated a \<or> i \<in> as_pinned s)) \<and>
    distinct (map fst (as_hot s)) \<and>
    length (dynamic_ids s) \<le> hc_max_dynamic_assets (as_config s) \<and>
    (length (dynamic_ids s) \<le> 1 \<or> estimated_bytes lib s \<le> hc_max_dynamic_bytes (as_config s)) \<and>
    length (as_metadata s) \<le> hc_max_promotion_metadata (as_config s) \<and>
    length (as_metadata s) \<le> as_metadata_high_water s"
proof -
  from reach_store_inv [OF assms] have i: "store_inv lib s" by simp
  then have "distinct (map fst (as_hot s))" by (simp add: store_inv_def hot_ok_def bm_ok_distinct)
  with i show ?thesis
    by (auto simp: store_inv_def hot_ok_def metadata_ok_def over_capacity_def playable_def validate_asset_def not_less)
qed

theorem hot_cache_is_sound_witness:
  "map fst (as_hot demo_store2) = [''ab0'', ''ab1'', ''ab2''] \<and>
   length (dynamic_ids demo_store2) \<le> hc_max_dynamic_assets (as_config demo_store2) \<and>
   distinct (map fst (as_hot demo_store2))"
proof -
  have "map fst (as_hot demo_store2) = [''ab0'', ''ab1'', ''ab2'']" by code_simp
  with hot_cache_is_sound [OF demo_store2_reach [of "[]"]] show ?thesis by blast
qed

section \<open>Eviction\<close>

text \<open>
  One turn of the code's \<open>loop\<close>, with its early returns and the \<open>remove(0)\<close> that would panic on an empty list
  (\<open>None\<close>); the flag says whether the turn returned.
\<close>

definition evict_turn :: "'v asset_lib \<Rightarrow> 'v asset_store \<Rightarrow> ('v asset_store \<times> bool) option" where
  "evict_turn lib s =
     (if length (dynamic_ids s) \<le> hc_max_dynamic_assets (as_config s) then
        Some (if estimated_bytes lib s \<le> hc_max_dynamic_bytes (as_config s) \<or> dynamic_ids s = [] then s
              else evict_bytes lib (hc_max_dynamic_bytes (as_config s)) (evict_candidates s) (estimated_bytes lib s) s, True)
      else case evict_candidates s of
          [] \<Rightarrow> None
        | (v, _) # _ \<Rightarrow> Some (evict_one v s, False))"

fun evict_turns :: "'v asset_lib \<Rightarrow> nat \<Rightarrow> 'v asset_store \<Rightarrow> 'v asset_store option" where
  "evict_turns lib 0 s = None"
| "evict_turns lib (Suc n) s =
     (case evict_turn lib s of
        None \<Rightarrow> None
      | Some (s', returned) \<Rightarrow> if returned then Some s' else evict_turns lib n s')"

text \<open>
  The eviction loop never panics and ends: it returns after exactly as many turns as there are
  generated residents above the count limit, plus the last one, with the store the recursive definition
  computes; with fewer turns it has not returned.
\<close>

theorem eviction_loop_terminates:
  assumes "bm_ok (as_hot s)"
  shows "evict_turns lib n s =
    (if length (dynamic_ids s) - hc_max_dynamic_assets (as_config s) < n then Some (evict_dynamic_to_capacity lib s) else None)"
  using assms
proof (induction n arbitrary: s)
  case (Suc n)
  show ?case
  proof (cases "length (dynamic_ids s) \<le> hc_max_dynamic_assets (as_config s)")
    case True
    then show ?thesis by (simp add: evict_turn_def evict_dynamic_to_capacity.simps [of lib s])
  next
    case False
    then have "evict_candidates s \<noteq> []" using length_candidates [of s] by auto
    then obtain v u cs where c: "evict_candidates s = (v, u) # cs" by (cases "evict_candidates s") auto
    have "length (dynamic_ids s) = Suc (length (dynamic_ids (evict_one v s)))"
      using candidates_evict_one [OF Suc(2) c] length_candidates [of s] length_candidates [of "evict_one v s"] c by simp
    moreover from this False have "length (dynamic_ids (evict_one v s)) - hc_max_dynamic_assets (as_config s) < n \<longleftrightarrow>
        length (dynamic_ids s) - hc_max_dynamic_assets (as_config s) < Suc n" by linarith
    ultimately show ?thesis using Suc(1) [OF bm_ok_evict_one [OF Suc(2), of v]] False c
      by (simp only: evict_turns.simps evict_turn_def evict_dynamic_to_capacity.simps [of lib s]) simp
  qed
qed simp

theorem eviction_loop_terminates_witness:
  "evict_turns demo_asset_lib 2
     (demo_store2\<lparr>as_config := \<lparr>hc_max_dynamic_assets = 1, hc_max_dynamic_bytes = 100, hc_max_promotion_metadata = 1\<rparr>\<rparr>) \<noteq> None \<and>
   evict_turns demo_asset_lib 1
     (demo_store2\<lparr>as_config := \<lparr>hc_max_dynamic_assets = 1, hc_max_dynamic_bytes = 100, hc_max_promotion_metadata = 1\<rparr>\<rparr>) = None"
proof -
  let ?s = "demo_store2\<lparr>as_config := \<lparr>hc_max_dynamic_assets = 1, hc_max_dynamic_bytes = 100, hc_max_promotion_metadata = 1\<rparr>\<rparr>"
  have "bm_ok (as_hot ?s)" "length (dynamic_ids ?s) - hc_max_dynamic_assets (as_config ?s) = 1" by code_simp+
  then show ?thesis by (simp only: eviction_loop_terminates) simp
qed

text \<open>
  C20. Eviction is exactly least recently used and minimal: the code removes an initial part of the
  generated residents in the order of their last use (ties by id); afterwards the cache is within both
  limits, one removal fewer would still exceed one of them, and nothing else of the cache, no pinned
  asset and no index entry changes.
\<close>

theorem eviction_is_least_recently_used:
  assumes "bm_ok (as_hot s)" "evict_dynamic_to_capacity lib s = s'"
  shows "\<exists>k\<le>length (dynamic_ids s). \<exists>victims rest.
    mset (victims @ rest) = mset (dynamic_ids s) \<and> length victims = k \<and>
    sorted_wrt (\<lambda>i j. \<not> older_use (j, usage_of j s) (i, usage_of i s)) (victims @ rest) \<and>
    as_hot s' = filter (\<lambda>(i, _). i \<notin> set victims) (as_hot s) \<and>
    \<not> over_capacity lib s' \<and>
    (\<forall>j<k. over_capacity lib (fold evict_one (take j victims) s)) \<and>
    as_pinned s' = as_pinned s \<and> as_local s' = as_local s \<and> as_metadata s' = as_metadata s"
proof -
  let ?c = "map fst (evict_candidates s)"
  obtain k where k: "k \<le> length ?c" "evict_lru lib ?c s = fold evict_one (take k ?c) s"
    "\<And>j. j < k \<Longrightarrow> over_capacity lib (fold evict_one (take j ?c) s)"
    using evict_lru_take [of ?c lib s] by metis
  have s': "s' = fold evict_one (take k ?c) s" using k(2) evict_dynamic_lru [OF assms(1), of lib] assms(2) by simp
  have m: "mset (take k ?c @ drop k ?c) = mset (dynamic_ids s)" using candidate_ids [of s] by simp
  have u: "\<forall>x\<in>set (evict_candidates s). x = (fst x, usage_of (fst x) s)" by (auto simp: evict_candidates_def)
  have "sorted_wrt (\<lambda>x y. \<not> older_use y x) (evict_candidates s)" unfolding evict_candidates_def by (rule recency.sorted_sort)
  then have "sorted_wrt (\<lambda>x y. \<not> older_use (fst y, usage_of (fst y) s) (fst x, usage_of (fst x) s)) (evict_candidates s)"
    by (rule sorted_wrt_mono_rel [rotated]) (use u in metis)
  then have o: "sorted_wrt (\<lambda>i j. \<not> older_use (j, usage_of j s) (i, usage_of i s)) (take k ?c @ drop k ?c)"
    by (simp only: append_take_drop_id sorted_wrt_map)
  have l: "length (take k ?c) = k" "k \<le> length (dynamic_ids s)" using k(1) length_candidates [of s] by simp_all
  have "\<forall>j<k. over_capacity lib (fold evict_one (take j (take k ?c)) s)" using k(3) by (simp add: min_def)
  moreover have "\<not> over_capacity lib s'" using evict_lru_within [OF assms(1), of lib] k(2) s' by simp
  ultimately show ?thesis using m o l l
    by (intro exI [of _ k] conjI [OF l(2)] exI [of _ "take k ?c"] exI [of _ "drop k ?c"])
      (simp only: s' hot_fold_evict fold_evict_fields simp_thms)
qed

theorem eviction_is_least_recently_used_witness:
  "bm_keys (as_hot (evict_dynamic_to_capacity demo_asset_lib
     (demo_store2\<lparr>as_config := \<lparr>hc_max_dynamic_assets = 1, hc_max_dynamic_bytes = 100, hc_max_promotion_metadata = 1\<rparr>\<rparr>))) =
     [''ab1'', ''ab2''] \<and>
   \<not> over_capacity demo_asset_lib (evict_dynamic_to_capacity demo_asset_lib
     (demo_store2\<lparr>as_config := \<lparr>hc_max_dynamic_assets = 1, hc_max_dynamic_bytes = 100, hc_max_promotion_metadata = 1\<rparr>\<rparr>))"
proof -
  let ?s = "demo_store2\<lparr>as_config := \<lparr>hc_max_dynamic_assets = 1, hc_max_dynamic_bytes = 100, hc_max_promotion_metadata = 1\<rparr>\<rparr>"
  have "bm_ok (as_hot ?s)" "bm_keys (as_hot (evict_dynamic_to_capacity demo_asset_lib ?s)) = [''ab1'', ''ab2'']" by code_simp+
  with eviction_is_least_recently_used [of ?s demo_asset_lib, OF _ refl] show ?thesis by blast
qed

text \<open>
  The byte budget is configured for generated assets, but the pinned ones count against it: when they
  alone exceed it, at most one generated asset stays.
\<close>

lemma pinned_bytes_crowd_out_generated:
  assumes "asset_reach lib (d, s)"
    and "hc_max_dynamic_bytes (as_config s) < sum_list (map (alb_json_len lib o snd) (filter (\<lambda>(i, _). i \<in> as_pinned s) (as_hot s)))"
  shows "length (dynamic_ids s) \<le> 1"
proof -
  have "sum_list (map (alb_json_len lib o snd) (filter (\<lambda>(i, _). i \<in> as_pinned s) (as_hot s))) \<le> estimated_bytes lib s"
    unfolding estimated_bytes_def by (rule sum_list_filter_le)
  with assms(2) reach_store_inv [OF assms(1)] show ?thesis by (simp add: store_inv_def over_capacity_def)
qed

section \<open>Resolution\<close>

text \<open>
  C19. Resolving an id returns an asset exactly when it is resident, or not resident but indexed as usable
  with a file that still loads, still has this id and the indexed identity, and is compatible with the
  runtime; the reported tier says which. Whatever is returned has the id asked for, validates and is
  compatible with the runtime: a file changed behind the index never reaches playback.
\<close>

theorem resolution_is_exact:
  assumes "asset_reach lib (d0, s)" "resolve_with_tier lib i d s = (r, s')"
  shows "(r = Inr (a, t) \<longleftrightarrow>
      t = CT_Memory \<and> bm_get (as_hot s) i = Some a \<or>
      t = CT_LocalStorage \<and> bm_get (as_hot s) i = None \<and>
      (\<exists>e. bm_get (as_local s) i = Some e \<and> ie_compatibility e = CS_Usable \<and>
         load_asset_file lib (ie_path e) d = Inr a \<and> pa_id a = i \<and> identity_of a = ie_identity e \<and>
         check_compatibility (pa_compatibility a) (as_runtime s) = CS_Usable)) \<and>
    (r = Inr (a, t) \<longrightarrow> pa_id a = i \<and> validate_asset a = Inr () \<and>
      check_compatibility (pa_compatibility a) (as_runtime s) = CS_Usable)"
proof -
  obtain found s1 where h: "hot_get i s = (found, s1)" by (cases "hot_get i s")
  then have f: "bm_get (as_hot s) i = found" and s1: "as_runtime s1 = as_runtime s" "as_local s1 = as_local s"
    using hot_get_result [of i s] store_inv_runtime [of i s] by simp_all
  have ins: "fst (insert_hot lib a s1) = Inr b \<longleftrightarrow>
      b = a \<and> check_compatibility (pa_compatibility a) (as_runtime s) = CS_Usable" if "asset_issues a = []" for a b
    using that s1(1) by (cases rule: insert_hot_cases [of lib a s1])
      (auto simp: insert_hot_def validate_asset_def playable_def Let_def split: compatibility_status.splits)
  have main: "fst (resolve_with_tier lib i d s) = Inr (a, t) \<longleftrightarrow>
      t = CT_Memory \<and> bm_get (as_hot s) i = Some a \<or>
      t = CT_LocalStorage \<and> bm_get (as_hot s) i = None \<and>
      (\<exists>e. bm_get (as_local s) i = Some e \<and> ie_compatibility e = CS_Usable \<and>
         load_asset_file lib (ie_path e) d = Inr a \<and> pa_id a = i \<and> identity_of a = ie_identity e \<and>
         check_compatibility (pa_compatibility a) (as_runtime s) = CS_Usable)"
  proof (cases found)
    case (Some b)
    with h f show ?thesis by (auto simp: resolve_with_tier_def)
  next
    case None
    show ?thesis
    proof (cases "bm_get (as_local s) i")
      case nol: None
      with None h f s1 show ?thesis by (auto simp: resolve_with_tier_def)
    next
      case (Some e)
      show ?thesis
      proof (cases "\<exists>b. ie_compatibility e = CS_Usable \<and> load_asset_file lib (ie_path e) d = Inr b \<and> pa_id b = i \<and>
          identity_of b = ie_identity e")
        case True
        then obtain b where b: "ie_compatibility e = CS_Usable" "load_asset_file lib (ie_path e) d = Inr b" "pa_id b = i"
          "identity_of b = ie_identity e" by blast
        obtain r1 s2 where r1: "insert_hot lib b s1 = (r1, s2)" by (cases "insert_hot lib b s1")
        with ins [OF load_valid [OF b(2)]] None Some b h f s1 show ?thesis
          by (cases r1) (auto simp: resolve_with_tier_def)
      next
        case False
        with None Some h f s1 show ?thesis
          by (auto simp: resolve_with_tier_def split: compatibility_status.splits sum.splits)
      qed
    qed
  qed
  moreover have "store_inv lib s" using reach_store_inv [OF assms(1)] by simp
  ultimately show ?thesis using resolve_ok [OF _ assms(2)] assms(2) by (auto simp: playable_def validate_asset_def)
qed

text \<open>A disk with one descriptor, indexed.\<close>

definition demo_disk :: disk where
  "demo_disk = [(''assets/ab0.json'', ''{0}''), (''assets/notes.txt'', ''x'')]"

definition demo_indexed :: "nat asset_store" where
  "demo_indexed = snd (index_local demo_asset_lib demo_disk demo_store0)"

lemma demo_indexed_reach: "asset_reach demo_asset_lib (demo_disk, demo_indexed)"
  by (rule asset_reach_exec [OF demo_store0_reach, of _ "AO_Index"]) (simp add: demo_indexed_def)

theorem resolution_is_exact_witness:
  "fst (resolve_with_tier demo_asset_lib ''ab0'' demo_disk demo_indexed) = Inr (demo_generated, CT_LocalStorage) \<and>
   validate_asset demo_generated = Inr () \<and>
   fst (resolve_with_tier demo_asset_lib ''ab0'' [(''assets/ab0.json'', ''torn'')] demo_indexed) \<noteq> Inr (demo_generated, CT_LocalStorage)"
proof -
  let ?r = "resolve_with_tier demo_asset_lib ''ab0'' demo_disk demo_indexed"
    and ?q = "resolve_with_tier demo_asset_lib ''ab0'' [(''assets/ab0.json'', ''torn'')] demo_indexed"
  have l: "bm_get (as_hot demo_indexed) ''ab0'' = None" "map_option ie_path (bm_get (as_local demo_indexed) ''ab0'') = Some ''assets/ab0.json''"
    "map_option ie_compatibility (bm_get (as_local demo_indexed) ''ab0'') = Some CS_Usable"
    "map_option ie_identity (bm_get (as_local demo_indexed) ''ab0'') = Some (identity_of demo_generated)"
    "load_asset_file demo_asset_lib ''assets/ab0.json'' demo_disk = Inr demo_generated"
    "isl (load_asset_file demo_asset_lib ''assets/ab0.json'' [(''assets/ab0.json'', ''torn'')])"
    "check_compatibility (pa_compatibility demo_generated) (as_runtime demo_indexed) = CS_Usable" "pa_id demo_generated = ''ab0''"
    by code_simp+
  with resolution_is_exact [OF demo_indexed_reach, of "''ab0''" demo_disk "fst ?r" "snd ?r" demo_generated CT_LocalStorage]
    resolution_is_exact [OF demo_indexed_reach, of "''ab0''" _ "fst ?q" "snd ?q" demo_generated CT_LocalStorage]
  show ?thesis by (auto simp: isl_def)
qed

section \<open>The local index\<close>

lemma index_loop_complete:
  "map (\<lambda>p. load_asset_file lib p d) ps = map Inr as \<Longrightarrow> distinct (map pa_id as) \<Longrightarrow>
     \<forall>a\<in>set as. bm_get nxt (pa_id a) = None \<Longrightarrow> \<exists>r. index_loop lib rt d ps nxt rep = Inr r"
proof (induction lib rt d ps nxt rep arbitrary: as rule: index_loop.induct)
  case (2 lib rt d p ps nxt rep)
  then obtain a bs where as: "as = a # bs" by (cases as) auto
  with 2(2) have a: "load_asset_file lib p d = Inr a" and bs: "map (\<lambda>p. load_asset_file lib p d) ps = map Inr bs" by simp_all
  have n: "bm_get nxt (pa_id a) = None" using 2(4) as by simp
  have "\<forall>b\<in>set bs. bm_get (bm_insert (pa_id a) (index_entry_of p a (check_compatibility (pa_compatibility a) rt)) nxt) (pa_id b) = None"
    using 2(3,4) as by (metis (no_types, lifting) bm_get_insert distinct.simps(2) image_eqI list.set_intros(2) list.set_map list.simps(9))
  moreover have "distinct (map pa_id bs)" using 2(3) as by simp
  ultimately show ?case using 2(1) [OF a refl n bs] a n by (simp add: Let_def)
qed simp

lemma bm_get_add_entries:
  "distinct (map pa_id as) \<Longrightarrow> (\<forall>a\<in>set as. bm_get nxt (pa_id a) = None) \<Longrightarrow>
     bm_get (add_entries rt ps as nxt) i = Some e \<longleftrightarrow>
       bm_get nxt i = Some e \<or> (\<exists>(p, a)\<in>set (zip ps as). i = pa_id a \<and> e = entry_at rt p a)"
proof (induction ps arbitrary: as nxt)
  case (Cons p ps)
  show ?case
  proof (cases as)
    case as: (Cons a bs)
    let ?n = "bm_insert (pa_id a) (entry_at rt p a) nxt"
    have "bm_get (add_entries rt ps bs ?n) i = Some e \<longleftrightarrow>
        bm_get ?n i = Some e \<or> (\<exists>(p, a)\<in>set (zip ps bs). i = pa_id a \<and> e = entry_at rt p a)"
      using Cons.prems as by (intro Cons.IH) (auto simp: image_iff)
    with Cons.prems(2) as show ?thesis by (auto simp: add_entries_def)
  qed (simp add: add_entries_def)
qed (simp add: add_entries_def)

text \<open>What an indexing run has to see: every descriptor loads, and no two of them share an id.\<close>

definition descriptors :: "disk \<Rightarrow> 'v asset_store \<Rightarrow> path list" where
  "descriptors d s = filter (is_descriptor (as_root s)) (bm_keys d)"

text \<open>
  Indexing is transactional and exact. It succeeds exactly when the directory can be listed, every
  descriptor file loads and validates and no two share an id; on an error the store is as it was. On
  success the index holds exactly one entry per descriptor with the descriptor's path, identity and
  compatibility, the counters add up, and the cache loses exactly the residents whose indexed identity
  differs.
\<close>

theorem indexing_is_transactional:
  assumes "index_local lib d s = (r, s')"
  shows "(\<exists>e. r = Inl e) \<and> s' = s \<and>
      \<not> (alb_io_error lib (IO_ReadDir (as_root s)) d = None \<and>
        (\<exists>as. map (\<lambda>p. load_asset_file lib p d) (descriptors d s) = map Inr as \<and> distinct (map pa_id as))) \<or>
    (\<exists>rep as. r = Inr rep \<and> map (\<lambda>p. load_asset_file lib p d) (descriptors d s) = map Inr as \<and> distinct (map pa_id as) \<and>
      alb_io_error lib (IO_ReadDir (as_root s)) d = None \<and>
      (\<forall>i e. bm_get (as_local s') i = Some e \<longleftrightarrow>
         (\<exists>(p, a)\<in>set (zip (descriptors d s) as). i = pa_id a \<and> e = entry_at (as_runtime s) p a)) \<and>
      ir_indexed rep = length (descriptors d s) \<and> ir_usable rep + ir_incompatible rep = ir_indexed rep \<and>
      as_hot s' = filter (\<lambda>(i, a). \<not> (\<exists>e. bm_get (as_local s') i = Some e \<and> ie_identity e \<noteq> identity_of a)) (as_hot s) \<and>
      s' = s\<lparr>as_local := as_local s', as_hot := as_hot s'\<rparr>)"
proof (cases "alb_io_error lib (IO_ReadDir (as_root s)) d")
  case (Some e)
  with assms show ?thesis by (auto simp: index_local_def)
next
  case None
  let ?run = "index_loop lib (as_runtime s) d (descriptors d s) [] \<lparr>ir_indexed = 0, ir_usable = 0, ir_incompatible = 0\<rparr>"
  show ?thesis
  proof (cases ?run)
    case (Inl e)
    have no: "\<not> (\<exists>as. map (\<lambda>p. load_asset_file lib p d) (descriptors d s) = map Inr as \<and> distinct (map pa_id as))"
    proof
      assume "\<exists>as. map (\<lambda>p. load_asset_file lib p d) (descriptors d s) = map Inr as \<and> distinct (map pa_id as)"
      then have "\<exists>x. ?run = Inr x" by (elim exE conjE) (rule index_loop_complete, simp_all)
      with Inl show False by simp
    qed
    have "r = Inl e" "s' = s" using assms None Inl by (simp_all add: index_local_def descriptors_def)
    with no show ?thesis by blast
  next
    case (Inr x)
    obtain nxt rep where x: "x = (nxt, rep)" by (cases x)
    note l = index_loop_Inr [OF Inr [unfolded x]]
    then obtain as where as: "map (\<lambda>p. load_asset_file lib p d) (descriptors d s) = map Inr as" "distinct (map pa_id as)"
      "nxt = add_entries (as_runtime s) (descriptors d s) as []" "ir_indexed rep = length (descriptors d s)"
      "ir_usable rep + ir_incompatible rep = length (descriptors d s)" by auto
    have s': "r = Inr rep" "s' = s\<lparr>as_local := nxt,
        as_hot := bm_retain (\<lambda>i a. case bm_get nxt i of None \<Rightarrow> True | Some e \<Rightarrow> ie_identity e = identity_of a) (as_hot s)\<rparr>"
      using assms None Inr x by (simp_all add: index_local_def descriptors_def)
    have h: "as_hot s' = filter (\<lambda>(i, a). \<not> (\<exists>e. bm_get (as_local s') i = Some e \<and> ie_identity e \<noteq> identity_of a)) (as_hot s)"
      unfolding s'(2) by (auto simp: bm_retain_def intro!: filter_cong split: option.splits)
    have g: "\<forall>i e. bm_get (as_local s') i = Some e \<longleftrightarrow>
         (\<exists>(p, a)\<in>set (zip (descriptors d s) as). i = pa_id a \<and> e = entry_at (as_runtime s) p a)"
      using bm_get_add_entries [OF as(2), of "[]" "as_runtime s" "descriptors d s"] as(3) s'(2) by simp
    show ?thesis
      by (rule disjI2, intro exI [of _ rep] exI [of _ as] conjI s'(1) as(1,2) None g as(4) h)
        (simp_all add: as(4,5) s'(2))
  qed
qed

theorem indexing_is_transactional_witness:
  "fst (index_local demo_asset_lib demo_disk demo_store0) = Inr \<lparr>ir_indexed = 1, ir_usable = 1, ir_incompatible = 0\<rparr> \<and>
   snd (index_local demo_asset_lib ((''assets/zz.json'', ''torn'') # demo_disk) demo_store0) = demo_store0"
proof -
  let ?x = "index_local demo_asset_lib ((''assets/zz.json'', ''torn'') # demo_disk) demo_store0"
  have "fst (index_local demo_asset_lib demo_disk demo_store0) = Inr \<lparr>ir_indexed = 1, ir_usable = 1, ir_incompatible = 0\<rparr>"
    "isl (fst ?x)" by code_simp+
  with indexing_is_transactional [of demo_asset_lib "(''assets/zz.json'', ''torn'') # demo_disk" demo_store0 "fst ?x" "snd ?x"]
  show ?thesis by (auto simp: isl_def)
qed

section \<open>Promotion to a file\<close>

lemma last_path_join: "name \<noteq> [] \<Longrightarrow> last (path_join base name) = last name"
  by (simp add: path_join_def)

lemma path_join_append: "n \<noteq> [] \<Longrightarrow> path_join base (n @ t) = path_join base n @ t"
  by (cases n) (simp_all add: path_join_def)

lemma temporary_not_destination: "temporary_path lib i s \<noteq> destination_path i s"
proof -
  have "last (temporary_path lib i s) \<noteq> last (destination_path i s)"
    by (simp add: temporary_path_def destination_path_def last_path_join)
  then show ?thesis by metis
qed

text \<open>A name that ends in \<open>.tmp\<close> has no other extension, so an index run never reads it.\<close>

lemma extension_tmp:
  assumes "x @ ''.tmp'' = y @ n"
  shows "extension n = None \<or> extension n = Some ''tmp''"
proof -
  let ?r = "rev n"
  have r: "?r @ rev y = ''pmt.'' @ rev x" using arg_cong [OF assms, of rev] by simp
  consider (short) "length n \<le> 3" "?r = take (length n) ''pmt''" | (long) z where "?r = ''pmt.'' @ z"
  proof (cases "length n \<le> 3")
    case True
    have "?r = take (length n) (?r @ rev y)" by simp
    also have "\<dots> = take (length n) ''pmt''" using True by (simp add: r take_Cons' numeral_eq_Suc)
    finally show ?thesis using True short by blast
  next
    case False
    have "?r = take 4 ?r @ drop 4 ?r" by simp
    moreover have "take 4 ?r = take 4 (?r @ rev y)" using False by simp
    ultimately show ?thesis using long [of "drop 4 ?r"] by (simp add: r)
  qed
  then show ?thesis
  proof cases
    case short
    have "set ?r \<subseteq> set ''pmt''" unfolding short(2) by (rule set_take_subset)
    then have w: "takeWhile (\<lambda>c. c \<noteq> CHR ''.'') ?r = ?r" by (auto simp: takeWhile_eq_all_conv)
    have "extension n = None" by (simp only: extension_def Let_def w length_rev) simp
    then show ?thesis by simp
  next
    case long
    then show ?thesis by (simp add: extension_def Let_def)
  qed
qed

lemma temporary_not_indexed: "\<not> is_descriptor base (temporary_path lib i s)"
proof -
  obtain x where x: "temporary_path lib i s = x @ ''.tmp''"
    using path_join_append [of "''.'' @ i @ ''.promote-'' @ show_nat (alb_pid lib)" "as_root s" "''.tmp''"]
    by (simp add: temporary_path_def)
  have "extension n = None \<or> extension n = Some ''tmp''" if "child_name base (temporary_path lib i s) = Some n" for n
  proof -
    have "\<exists>k. n = drop k (temporary_path lib i s)"
      using that unfolding child_name_def Let_def by (auto split: if_split_asm)
    then obtain y where "temporary_path lib i s = y @ n" by (metis append_take_drop_id)
    with x show ?thesis by (intro extension_tmp [of x y]) simp
  qed
  moreover have "to_ascii_lowercase ''tmp'' \<noteq> ''json''" by code_simp
  ultimately show ?thesis unfolding is_descriptor_def
    by (cases "child_name base (temporary_path lib i s)") (auto split: option.split)
qed

lemma write_descriptor_effect:
  assumes "write_descriptor lib tmp dest bytes d = (r, d')" "tmp \<noteq> dest"
  shows "(\<forall>p. p \<noteq> tmp \<and> p \<noteq> dest \<longrightarrow> bm_get d' p = bm_get d p) \<and>
    (case r of Inl e \<Rightarrow> bm_get d' dest = bm_get d dest | Inr _ \<Rightarrow> bm_get d' dest = Some bytes \<and> bm_get d' tmp = None)"
  using assms by (auto simp: write_descriptor_def then_io_def io_step_def rename_file_def split: option.splits)

text \<open>
  C17. Promotion is atomic whatever fails: no file but the destination and the temporary one changes, and
  the temporary one is never a descriptor for the index. On an error the destination, the index and the
  cache are as they were. On success the destination did not exist and now holds all the bytes of the
  generated resident, the temporary file is gone, and the index has exactly one entry more.
\<close>

theorem promotion_is_atomic:
  assumes "persist_generated_descriptor lib i d s = (r, d', s')"
  shows "(\<forall>p. p \<noteq> temporary_path lib i s \<and> p \<noteq> destination_path i s \<longrightarrow> bm_get d' p = bm_get d p) \<and>
    \<not> is_descriptor (as_root s) (temporary_path lib i s) \<and> as_hot s' = as_hot s \<and>
    (case r of
       Inl e \<Rightarrow> bm_get d' (destination_path i s) = bm_get d (destination_path i s) \<and> as_local s' = as_local s
     | Inr p \<Rightarrow> p = destination_path i s \<and> bm_get d p = None \<and> bm_get d' (temporary_path lib i s) = None \<and>
         (\<exists>a bytes. bm_get (as_hot s) i = Some a \<and> is_generated a \<and> alb_pretty lib a = Inr bytes \<and>
            bm_get d' p = Some bytes \<and> bm_get (as_local s) i = None \<and>
            as_local s' = bm_insert i (index_entry_of p a CS_Usable) (as_local s)))"
proof (cases rule: persist_cases [of lib i d s])
  case (failed e d2)
  note ne = temporary_not_destination [of lib i s]
  have "(\<forall>p. p \<noteq> temporary_path lib i s \<and> p \<noteq> destination_path i s \<longrightarrow> bm_get d2 p = bm_get d p) \<and>
      bm_get d2 (destination_path i s) = bm_get d (destination_path i s)"
    using failed(2) write_descriptor_effect [OF _ ne, of lib _ d "Inl e" d2] by (elim disjE exE) auto
  moreover have "r = Inl e" "d' = d2" "s' = snd (hot_get i s)" using assms failed(1) by simp_all
  ultimately show ?thesis using temporary_not_indexed store_inv_runtime [of i s] by simp
next
  case (written a bytes d2)
  moreover have "r = Inr (destination_path i s)" "d' = d2" using assms written(1) by simp_all
  moreover have "as_hot s' = as_hot s" "as_local s' = bm_insert i (index_entry_of (destination_path i s) a CS_Usable) (as_local s)"
    using assms written(1) store_inv_runtime [of i s] by auto
  ultimately show ?thesis
    using temporary_not_indexed write_descriptor_effect [OF written(7) temporary_not_destination] by simp
qed

definition failing_rename :: "nat asset_lib" where
  "failing_rename = demo_asset_lib\<lparr>alb_io_error := (\<lambda>c d. case c of IO_Rename _ _ \<Rightarrow> Some ''full'' | _ \<Rightarrow> None)\<rparr>"

theorem promotion_is_atomic_witness:
  "bm_get (fst (snd (persist_generated_descriptor demo_asset_lib ''ab0'' [] demo_store2))) ''assets/ab0.json'' = Some ''{0}'' \<and>
   bm_get (fst (snd (persist_generated_descriptor failing_rename ''ab0'' [] demo_store2))) ''assets/ab0.json'' = None \<and>
   as_local (snd (snd (persist_generated_descriptor failing_rename ''ab0'' [] demo_store2))) = []"
proof -
  let ?x = "persist_generated_descriptor demo_asset_lib ''ab0'' [] demo_store2"
    and ?y = "persist_generated_descriptor failing_rename ''ab0'' [] demo_store2"
  have v: "fst ?x = Inr ''assets/ab0.json''" "isl (fst ?y)" "destination_path ''ab0'' demo_store2 = ''assets/ab0.json''"
    "map_option (alb_pretty demo_asset_lib) (bm_get (as_hot demo_store2) ''ab0'') = Some (Inr ''{0}'')"
    "as_local demo_store2 = []" by code_simp+
  obtain e where e: "fst ?y = Inl e" using v(2) by (auto simp: isl_def)
  have x: "?x = (Inr ''assets/ab0.json'', fst (snd ?x), snd (snd ?x))" and y: "?y = (Inl e, fst (snd ?y), snd (snd ?y))"
    using v(1) e by (simp_all add: prod_eq_iff)
  from promotion_is_atomic [OF x] v have "bm_get (fst (snd ?x)) ''assets/ab0.json'' = Some ''{0}''" by auto
  moreover from promotion_is_atomic [OF y] v have "bm_get (fst (snd ?y)) ''assets/ab0.json'' = None \<and> as_local (snd (snd ?y)) = []"
    by simp
  ultimately show ?thesis by blast
qed

lemma destination_is_descriptor:
  assumes "is_valid_asset_id i"
  shows "is_descriptor (as_root s) (destination_path i s)"
proof -
  let ?pre = "if as_root s = [] \<or> last (as_root s) = CHR ''/'' then as_root s else as_root s @ ''/''"
  have "\<not> is_id_byte (CHR ''/'')" by code_simp
  then have i: "CHR ''/'' \<notin> set i" "i \<noteq> []"
    using assms by (auto simp: is_valid_asset_id_def list_all_iff split: if_splits list.splits)
  then have "\<not> starts_with ''/'' (i @ ''.json'')" by (cases i) auto
  then have d: "destination_path i s = ?pre @ (i @ ''.json'')" by (simp add: destination_path_def path_join_def)
  have "child_name (as_root s) (destination_path i s) = Some (i @ ''.json'')"
    unfolding child_name_def d Let_def using i(1) by (simp add: starts_with_append del: append_assoc)
  moreover have "extension (i @ ''.json'') = Some ''json''" using i(2) by (simp add: extension_def Let_def)
  moreover have "to_ascii_lowercase ''json'' = ''json''" by code_simp
  ultimately show ?thesis by (simp add: is_descriptor_def)
qed

lemma identity_compatibility: "identity_of b = identity_of a \<Longrightarrow> pa_compatibility b = pa_compatibility a"
  by (cases "pa_compatibility a"; cases "pa_compatibility b") (simp add: identity_of_def Let_def)

lemma load_asset_file_cases:
  "bm_get d p = Some bytes \<Longrightarrow>
     load_asset_file lib p d = (case alb_io_error lib (IO_Read p) d of Some x \<Rightarrow> Inl (ASE_Io p x)
       | None \<Rightarrow> (case alb_parse lib bytes of Inl x \<Rightarrow> Inl (ASE_Json p x)
           | Inr b \<Rightarrow> if asset_issues b = [] then Inr b else Inl (ASE_InvalidAsset (Some p) (asset_issues b))))"
  by (simp add: load_asset_file_def read_to_string_def validate_asset_def split: option.split sum.split)

text \<open>Resolving an indexed asset that is not resident is reading its file and comparing identities.\<close>

lemma resolve_from_file:
  assumes "bm_get (as_hot t) i = None" "bm_get (as_local t) i = Some (index_entry_of p a CS_Usable)" "playable (as_runtime t) a"
  shows "case load_asset_file lib p d of
      Inl x \<Rightarrow> fst (resolve_with_tier lib i d t) = Inl x
    | Inr b \<Rightarrow> if pa_id b = i \<and> identity_of b = identity_of a then fst (resolve_with_tier lib i d t) = Inr (b, CT_LocalStorage)
        else \<exists>x. fst (resolve_with_tier lib i d t) = Inl (ASE_Json p x)"
proof -
  have e: "ie_path (index_entry_of p a CS_Usable) = p" "ie_identity (index_entry_of p a CS_Usable) = identity_of a"
    "ie_compatibility (index_entry_of p a CS_Usable) = CS_Usable"
    by (simp_all add: index_entry_of_def)
  obtain s1 where h: "hot_get i t = (None, s1)" "as_runtime s1 = as_runtime t" "as_local s1 = as_local t"
    using assms(1) by (simp add: hot_get_def)
  have ins: "fst (insert_hot lib b s1) = Inr b" if "load_asset_file lib p d = Inr b" "identity_of b = identity_of a" for b
  proof -
    have "asset_issues b = []"
      using that(1) by (auto simp: load_asset_file_def validate_asset_def split: sum.splits if_splits)
    moreover have "check_compatibility (pa_compatibility b) (as_runtime s1) = CS_Usable"
      using assms(3) identity_compatibility [OF that(2)] h(2) by (simp add: playable_def)
    ultimately show ?thesis
      by (cases rule: insert_hot_cases [of lib b s1]) (auto simp: insert_hot_def validate_asset_def Let_def)
  qed
  show ?thesis
  proof (cases "load_asset_file lib p d")
    case (Inr b)
    then show ?thesis using ins [OF Inr]
      by (cases "insert_hot lib b s1") (auto simp: resolve_with_tier_def h assms(2) e)
  qed (simp add: resolve_with_tier_def h assms(2) e)
qed

text \<open>
  C21. What becomes of a promoted asset. The text written for it lies in its file, which the next index run
  sees as a descriptor. Once the resident is evicted, resolving its id gives exactly what the reader
  makes of that text: the asset read, if it is valid and has the promoted id and identity, and a named
  error otherwise. No assumption is made on how the JSON reader and writer relate; where the reader
  returns the promoted asset, resolving returns that very asset.
\<close>

theorem promoted_asset_is_recovered:
  assumes "asset_reach lib (d0, s)" "persist_generated_descriptor lib i d s = (Inr p, d', s')"
  shows "\<exists>a bytes. bm_get (as_hot s) i = Some a \<and> alb_pretty lib a = Inr bytes \<and> bm_get d' p = Some bytes \<and>
    p \<in> set (descriptors d' s) \<and>
    (case fst (resolve_with_tier lib i d' (s'\<lparr>as_hot := bm_remove i (as_hot s')\<rparr>)) of
       Inr (b, tier) \<Rightarrow> tier = CT_LocalStorage \<and> alb_parse lib bytes = Inr b \<and> pa_id b = i \<and>
         identity_of b = identity_of a \<and> asset_issues b = []
     | Inl e \<Rightarrow>
         (\<exists>x. alb_io_error lib (IO_Read p) d' = Some x \<and> e = ASE_Io p x) \<or>
         (\<exists>x. alb_parse lib bytes = Inl x \<and> e = ASE_Json p x) \<or>
         (\<exists>b. alb_parse lib bytes = Inr b \<and> b \<noteq> a \<and>
            (asset_issues b \<noteq> [] \<and> e = ASE_InvalidAsset (Some p) (asset_issues b) \<or>
             (pa_id b \<noteq> i \<or> identity_of b \<noteq> identity_of a) \<and> (\<exists>x. e = ASE_Json p x)))) \<and>
    (alb_io_error lib (IO_Read p) d' = None \<longrightarrow> alb_parse lib bytes = Inr a \<longrightarrow>
       fst (resolve_with_tier lib i d' (s'\<lparr>as_hot := bm_remove i (as_hot s')\<rparr>)) = Inr (a, CT_LocalStorage))"
proof (cases rule: persist_cases [of lib i d s])
  case (failed e d2)
  with assms(2) show ?thesis by simp
next
  case (written a bytes d2)
  have p: "p = destination_path i s" "d' = d2"
    and s': "as_local s' = bm_insert i (index_entry_of p a CS_Usable) (as_local s)" "as_runtime s' = as_runtime s"
    using assms(2) written(1) store_inv_runtime(1) [of i s] by auto
  have inv: "store_inv lib s" using reach_store_inv [OF assms(1)] by simp
  have own: "pa_id a = i" "playable (as_runtime s) a"
    using hot_get_own_id [OF inv, of i a] written(2) by (auto simp: hot_get_def)
  have stored: "bm_get d' p = Some bytes"
    using write_descriptor_effect [OF written(7) temporary_not_destination] p by simp
  let ?t = "s'\<lparr>as_hot := bm_remove i (as_hot s')\<rparr>"
  have "playable (as_runtime ?t) a" "bm_get (as_hot ?t) i = None" "bm_get (as_local ?t) i = Some (index_entry_of p a CS_Usable)"
    using own(2) s' by simp_all
  note res = resolve_from_file [OF this(2,3,1), where lib = lib and d = d', unfolded load_asset_file_cases [OF stored]]
  have "p \<in> set (descriptors d' s)"
  proof -
    have "is_valid_asset_id i" using own by (auto simp: playable_def asset_issues_def split: if_splits)
    moreover have "p \<in> set (bm_keys d')" using stored by (force simp: bm_keys_def bm_get_def dest: map_of_SomeD)
    ultimately show ?thesis by (simp add: descriptors_def destination_is_descriptor p(1))
  qed
  moreover have "bm_get (as_hot s) i = Some a" "alb_pretty lib a = Inr bytes" using written(2,6) by simp_all
  moreover have "asset_issues a = []" using own(2) by (simp add: playable_def)
  ultimately show ?thesis
    using stored res own(1) by (intro exI [of _ a] exI [of _ bytes]) (auto split: option.splits sum.splits if_splits)
qed

theorem promoted_asset_is_recovered_witness:
  "fst (resolve_with_tier demo_asset_lib ''ab0'' (fst (snd (persist_generated_descriptor demo_asset_lib ''ab0'' [] demo_store2)))
     ((snd (snd (persist_generated_descriptor demo_asset_lib ''ab0'' [] demo_store2)))\<lparr>as_hot :=
        bm_remove ''ab0'' (as_hot (snd (snd (persist_generated_descriptor demo_asset_lib ''ab0'' [] demo_store2))))\<rparr>)) =
   Inr (demo_generated, CT_LocalStorage)"
proof -
  let ?x = "persist_generated_descriptor demo_asset_lib ''ab0'' [] demo_store2"
  have v: "fst ?x = Inr ''assets/ab0.json''" "bm_get (as_hot demo_store2) ''ab0'' = Some demo_generated"
    "alb_pretty demo_asset_lib demo_generated = Inr ''{0}''" "alb_parse demo_asset_lib ''{0}'' = Inr demo_generated" by code_simp+
  then have x: "?x = (Inr ''assets/ab0.json'', fst (snd ?x), snd (snd ?x))" by (simp add: prod_eq_iff)
  have "alb_io_error demo_asset_lib c d = None" for c d by (simp add: demo_asset_lib_def)
  with promoted_asset_is_recovered [OF demo_store2_reach x] v show ?thesis by auto
qed

section \<open>Variants\<close>

lemma keys_fold_insert: "set (bm_keys (fold (\<lambda>i m. bm_insert i () m) xs m)) = set xs \<union> set (bm_keys m)"
proof (induction xs arbitrary: m)
  case (Cons x xs)
  have "set (bm_keys (bm_insert x () m)) = insert x (set (bm_keys m))" by (simp add: bm_keys_def)
  with Cons show ?case by simp
qed simp

lemma set_variant_ids:
  "set (variant_ids grp s) =
     {i. (\<exists>e. (i, e) \<in> set (as_local s) \<and> is_usable (ie_compatibility e) \<and> ie_variant_group e = Some grp) \<or>
         (\<exists>a. (i, a) \<in> set (as_hot s) \<and> pa_variant_group a = Some grp \<and>
            is_usable (check_compatibility (pa_compatibility a) (as_runtime s)))}"
  unfolding variant_ids_def Let_def keys_fold_insert by (force simp: bm_keys_def image_iff)

text \<open>A selected id is a member of the group, and a recent one only when all of them are.\<close>

lemma select_variant_id_fresh:
  assumes "select_variant_id grp seed recent s = Some i"
  shows "i \<in> set (variant_ids grp s)" "i \<in> set recent \<Longrightarrow> set (variant_ids grp s) \<subseteq> set recent"
proof -
  let ?pref = "filter (\<lambda>i. \<not> List.member recent i) (variant_ids grp s)"
  have i: "i \<in> set (if ?pref = [] then variant_ids grp s else ?pref)"
    using assms unfolding select_variant_id_def Let_def by (metis nth_mem option.distinct(1) option.inject)
  then show "i \<in> set (variant_ids grp s)" by (simp split: if_splits)
  assume "i \<in> set recent"
  then have "?pref = []" using i by (auto split: if_splits)
  then show "set (variant_ids grp s) \<subseteq> set recent" by (auto simp: filter_empty_conv)
qed

text \<open>
  Variant selection never starves and avoids repetition: an id is selected exactly when the group has
  a usable member in the index or in memory; the selected id is such a member, and it is a recent one
  only when all of them are.
\<close>

theorem variant_selection_never_starves:
  "(select_variant_id grp seed recent s = None \<longleftrightarrow>
      \<not> (\<exists>i e. (i, e) \<in> set (as_local s) \<and> is_usable (ie_compatibility e) \<and> ie_variant_group e = Some grp) \<and>
      \<not> (\<exists>i a. (i, a) \<in> set (as_hot s) \<and> pa_variant_group a = Some grp \<and>
           is_usable (check_compatibility (pa_compatibility a) (as_runtime s)))) \<and>
   (case select_variant_id grp seed recent s of
      None \<Rightarrow> True
    | Some i \<Rightarrow>
        ((\<exists>e. (i, e) \<in> set (as_local s) \<and> is_usable (ie_compatibility e) \<and> ie_variant_group e = Some grp) \<or>
         (\<exists>a. (i, a) \<in> set (as_hot s) \<and> pa_variant_group a = Some grp \<and>
            is_usable (check_compatibility (pa_compatibility a) (as_runtime s)))) \<and>
        (i \<notin> set recent \<or> set (variant_ids grp s) \<subseteq> set recent))"
proof -
  let ?all = "variant_ids grp s"
  let ?pref = "filter (\<lambda>i. i \<notin> set recent) ?all"
  let ?c = "if ?pref = [] then ?all else ?pref"
  show ?thesis
  proof (cases "?all = []")
    case True
    then have "set ?all = {}" by simp
    then show ?thesis unfolding set_variant_ids using True by (auto simp: select_variant_id_def)
  next
    case False
    then have "?c \<noteq> []" by simp
    then have "stable_variant_index seed grp (length ?c) < length ?c" by (simp add: stable_variant_index_def)
    then obtain i where some: "select_variant_id grp seed recent s = Some i"
      using False by (simp add: select_variant_id_def Let_def)
    show ?thesis
      unfolding some using select_variant_id_fresh [OF some] by (simp only: set_variant_ids option.case mem_Collect_eq) blast
  qed
qed

theorem variant_selection_never_starves_witness:
  "select_variant_id ''g'' 5 [''ab0'', ''ab1''] demo_store2 = Some ''ab2'' \<and> select_variant_id ''h'' 5 [] demo_store2 = None"
proof -
  have m: "variant_ids ''g'' demo_store2 = [''ab0'', ''ab1'', ''ab2'']"
    "select_variant_id ''g'' 5 [''ab0'', ''ab1''] demo_store2 \<noteq> None" "select_variant_id ''h'' 5 [] demo_store2 = None"
    by code_simp+
  obtain i where i: "select_variant_id ''g'' 5 [''ab0'', ''ab1''] demo_store2 = Some i" using m(2) by blast
  have "i \<in> set (variant_ids ''g'' demo_store2) \<and> (i \<notin> {''ab0'', ''ab1''} \<or> set (variant_ids ''g'' demo_store2) \<subseteq> {''ab0'', ''ab1''})"
    using variant_selection_never_starves [of "''g''" 5 "[''ab0'', ''ab1'']" demo_store2]
    unfolding i option.case set_variant_ids by simp
  with m i show ?thesis by auto
qed

end
