(* ===== verification/Asset_Identity.thy ===== *)
theory Asset_Identity
  imports Asset_Model
begin

text \<open>
  The identity key and the validation of a performance asset (\<open>crates/asset-store/src/lib.rs\<close>): the key
  determines the identity, and validation accepts exactly the assets that meet a declarative contract.
\<close>

section \<open>The identity key\<close>

lemma digit_char: "d < (10 :: nat) \<Longrightarrow> (char_of (48 + d) :: char) \<noteq> CHR '':'' \<and> (char_of (48 + d) :: char) \<noteq> CHR ''-''"
proof -
  have "list_all (\<lambda>d. (char_of (48 + d) :: char) \<noteq> CHR '':'' \<and> (char_of (48 + d) :: char) \<noteq> CHR ''-'') [0..<10]" by code_simp
  then show "d < 10 \<Longrightarrow> ?thesis" by (simp add: list_all_iff)
qed

lemma digit_inj: "a < (10 :: nat) \<Longrightarrow> b < 10 \<Longrightarrow> (char_of (48 + a) :: char) = char_of (48 + b) \<longleftrightarrow> a = b"
proof -
  have "list_all (\<lambda>a. list_all (\<lambda>b. (char_of (48 + a) :: char) = char_of (48 + b) \<longleftrightarrow> a = b) [0..<10]) [0..<10]" by code_simp
  then show "a < 10 \<Longrightarrow> b < 10 \<Longrightarrow> ?thesis" by (simp add: list_all_iff)
qed

lemma show_nat_chars: "show_nat n \<noteq> [] \<and> CHR '':'' \<notin> set (show_nat n) \<and> CHR ''-'' \<notin> set (show_nat n)"
proof (induction n rule: show_nat.induct)
  case (1 n)
  show ?case
    using 1 digit_char [of n] digit_char [of "n mod 10"] by (subst (1 2 3) show_nat.simps) auto
qed

lemma show_nat_inj: "show_nat m = show_nat n \<longleftrightarrow> m = n"
proof
  show "show_nat m = show_nat n \<Longrightarrow> m = n"
  proof (induction m arbitrary: n rule: show_nat.induct)
    case (1 m)
    have len: "length (show_nat k) = 1 \<longleftrightarrow> k < 10" for k
      using show_nat_chars [of "k div 10"] by (subst show_nat.simps) simp
    have small: "m < 10 \<longleftrightarrow> n < 10" using 1(2) len [of m] len [of n] by simp
    show ?case
    proof (cases "m < 10")
      case True
      with 1(2) small digit_inj [of m n] show ?thesis by (simp add: show_nat.simps [of m] show_nat.simps [of n])
    next
      case False
      with 1(2) small have e: "show_nat (m div 10) = show_nat (n div 10)" "(char_of (48 + m mod 10) :: char) = char_of (48 + n mod 10)"
        by (simp_all add: show_nat.simps [of m] show_nat.simps [of n])
      from 1(1) [OF False e(1)] digit_inj [of "m mod 10" "n mod 10"] e(2) show ?thesis
        by (metis div_mult_mod_eq mod_less_divisor zero_less_numeral)
    qed
  qed
qed simp

lemma show_nat_colon: "show_nat m @ CHR '':'' # x = show_nat n @ CHR '':'' # y \<longleftrightarrow> m = n \<and> x = y"
proof -
  have tw: "takeWhile (\<lambda>c. c \<noteq> CHR '':'') (show_nat k @ CHR '':'' # z) = show_nat k" for k z
    using show_nat_chars [of k] by (subst takeWhile_append2) auto
  show ?thesis using tw [of m x] tw [of n y] show_nat_inj [of m n] by auto
qed

text \<open>A component of the key can be read off the front of a text.\<close>

lemma identity_component_read:
  "identity_component name v @ x = identity_component name w @ y \<longleftrightarrow> v = w \<and> x = y"
proof (cases v; cases w)
  fix s t assume vw: "v = Some s" "w = Some t"
  have "identity_component name v @ x = identity_component name w @ y \<longleftrightarrow>
      length s = length t \<and> s @ CHR ''|'' # x = t @ CHR ''|'' # y"
    by (simp add: identity_component_def vw show_nat_colon)
  then show ?thesis by (auto simp: vw)
next
  fix t assume "v = None" "w = Some t"
  moreover obtain c cs where "show_nat (length t) = c # cs" "c \<noteq> CHR ''-''" using show_nat_chars [of "length t"] by (cases "show_nat (length t)") auto
  ultimately show ?thesis by (simp add: identity_component_def)
next
  fix s assume "v = Some s" "w = None"
  moreover obtain c cs where "show_nat (length s) = c # cs" "c \<noteq> CHR ''-''" using show_nat_chars [of "length s"] by (cases "show_nat (length s)") auto
  ultimately show ?thesis by (simp add: identity_component_def)
qed (simp add: identity_component_def)

text \<open>
  The stable key of an identity determines it: two identities have the same key exactly when they
  agree in id, schema, compiler, voice, avatar, viseme and motion, whatever characters these contain,
  because every component is written with its length.
\<close>

theorem stable_key_is_injective: "stable_key i = stable_key j \<longleftrightarrow> i = j"
proof -
  have "stable_key i = stable_key j \<longleftrightarrow> stable_key i @ [] = stable_key j @ []" by simp
  also have "\<dots> \<longleftrightarrow> i = j"
    unfolding stable_key_def append_assoc identity_component_read by (cases i; cases j) simp
  finally show ?thesis .
qed

section \<open>Validation\<close>

text \<open>What a valid asset is, in the terms of the schema.\<close>

definition filled :: "string option \<Rightarrow> bool" where
  "filled v \<longleftrightarrow> (\<forall>s. v = Some s \<longrightarrow> \<not> trim_is_empty s)"

definition in_bounds :: "nat \<Rightarrow> nat \<Rightarrow> f64 \<Rightarrow> bool" where
  "in_bounds lo hi v \<longleftrightarrow> f64_is_finite v \<and> f64_le (f64_of_nat lo) v \<and> f64_le v (f64_of_nat hi)"

definition external_media :: "string \<Rightarrow> bool" where
  "external_media r \<longleftrightarrow>
     (let v = str_trim r in
      v \<noteq> [] \<and> \<not> starts_with ''data:'' (to_ascii_lowercase v) \<and>
      (str_contains v ''://'' \<or>
       \<not> starts_with ''/'' v \<and> \<not> (2 \<le> length v \<and> v ! 1 = CHR '':'') \<and> ''..'' \<notin> set (split_slash v)))"

definition speech_contract :: "speech_track \<Rightarrow> bool" where
  "speech_contract s \<longleftrightarrow>
     filled (sp_text s) \<and>
     (\<forall>r. sp_audio_ref s = Some r \<longrightarrow> external_media r \<and> sp_duration_ms s \<noteq> None) \<and>
     (\<forall>r. sp_viseme_ref s = Some r \<longrightarrow> external_media r \<and> sp_audio_ref s \<noteq> None)"

definition provenance_contract :: "provenance \<Rightarrow> bool" where
  "provenance_contract p \<longleftrightarrow>
     filled (pv_generator p) \<and> filled (pv_thinking_backend p) \<and> filled (pv_tts_backend p) \<and> filled (pv_routing_reason p) \<and>
     (pv_generated p = Some True \<longrightarrow>
        pv_generator p \<noteq> None \<and> pv_created_at p \<noteq> None \<and> pv_thinking_backend p \<noteq> None \<and> pv_tts_backend p \<noteq> None \<and>
        pv_routing_reason p \<noteq> None)"

definition embedding_contract :: "semantic_embedding \<Rightarrow> bool" where
  "embedding_contract e \<longleftrightarrow>
     \<not> trim_is_empty (se_model e) \<and> \<not> trim_is_empty (se_model_version e) \<and>
     1 \<le> length (se_vector e) \<and> length (se_vector e) \<le> 4096 \<and>
     (\<forall>x\<in>set (se_vector e). f64_is_finite x) \<and> norm_squared (se_vector e) \<noteq> Fin 0"

definition asset_contract :: "'v performance_asset \<Rightarrow> bool" where
  "asset_contract a \<longleftrightarrow>
     pa_schema_version a = ''0.1.0'' \<and>
     3 \<le> length (pa_id a) \<and> length (pa_id a) \<le> 128 \<and> is_id_first (hd (pa_id a)) \<and> (\<forall>c\<in>set (pa_id a). is_id_byte c) \<and>
     \<not> trim_is_empty (pa_intent a) \<and> filled (pa_variant_group a) \<and>
     (\<forall>s. pa_speech a = Some s \<longrightarrow> speech_contract s) \<and>
     (\<forall>e. pa_expression a = Some e \<longrightarrow> \<not> trim_is_empty (ex_preset e) \<and> in_bounds 0 1 (ex_intensity e)) \<and>
     (\<forall>g. pa_gesture a = Some g \<longrightarrow> \<not> trim_is_empty (gs_preset g) \<and> (\<forall>x. gs_amplitude g = Some x \<longrightarrow> in_bounds 0 2 x)) \<and>
     (\<forall>e\<in>set (pa_timeline a). \<not> trim_is_empty (te_event e)) \<and> sorted (map te_at_ms (pa_timeline a)) \<and>
     sorted_wrt (<) (pa_interrupt_points_ms a) \<and>
     (\<forall>d p. Option.bind (pa_speech a) sp_duration_ms = Some d \<longrightarrow> p \<in> set (pa_interrupt_points_ms a) \<longrightarrow> p \<le> d) \<and>
     (\<forall>v. pa_variation a = Some v \<longrightarrow>
        (\<forall>x. vs_speed_pct v = Some x \<longrightarrow> in_bounds 0 25 x) \<and> (\<forall>x. vs_amplitude_pct v = Some x \<longrightarrow> in_bounds 0 25 x) \<and>
        (\<forall>x. vs_start_delay_ms v = Some x \<longrightarrow> x \<le> 500)) \<and>
     (let c = pa_compatibility a in
        \<not> trim_is_empty (cm_compiler_version c) \<and> filled (cm_voice_model c) \<and> filled (cm_avatar_profile c) \<and>
        filled (cm_viseme_mapping c) \<and> filled (cm_motion_library c)) \<and>
     (\<forall>p. pa_provenance a = Some p \<longrightarrow> provenance_contract p) \<and>
     (\<forall>e. pa_semantic_embedding a = Some e \<longrightarrow> embedding_contract e)"

named_theorems no_issues

lemma opt_no_issues [no_issues]: "opt_issues f x = [] \<longleftrightarrow> (\<forall>y. x = Some y \<longrightarrow> f y = [])"
  by (auto simp: opt_issues_def split: option.split)

lemma optional_no_issues [no_issues]: "validate_optional_nonempty field v = [] \<longleftrightarrow> filled v"
  by (auto simp: validate_optional_nonempty_def filled_def split: option.split)

lemma range_no_issues [no_issues]: "validate_number_range field v lo hi = [] \<longleftrightarrow> in_bounds lo hi v"
  by (simp add: validate_number_range_def in_bounds_def)

lemma media_no_issues [no_issues]: "validate_media_ref field r = [] \<longleftrightarrow> external_media r"
  by (simp add: validate_media_ref_def external_media_def Let_def)

lemma speech_no_issues [no_issues]: "speech_issues s = [] \<longleftrightarrow> speech_contract s"
  by (auto simp: speech_issues_def speech_contract_def no_issues split: option.split)

lemma expression_no_issues [no_issues]: "expression_issues e = [] \<longleftrightarrow> \<not> trim_is_empty (ex_preset e) \<and> in_bounds 0 1 (ex_intensity e)"
  by (simp add: expression_issues_def no_issues)

lemma gesture_no_issues [no_issues]:
  "gesture_issues g = [] \<longleftrightarrow> \<not> trim_is_empty (gs_preset g) \<and> (\<forall>x. gs_amplitude g = Some x \<longrightarrow> in_bounds 0 2 x)"
  by (auto simp: gesture_issues_def no_issues split: option.split)

lemma variation_no_issues [no_issues]:
  "variation_issues v = [] \<longleftrightarrow>
     (\<forall>x. vs_speed_pct v = Some x \<longrightarrow> in_bounds 0 25 x) \<and> (\<forall>x. vs_amplitude_pct v = Some x \<longrightarrow> in_bounds 0 25 x) \<and>
     (\<forall>x. vs_start_delay_ms v = Some x \<longrightarrow> x \<le> 500)"
  by (auto simp: variation_issues_def no_issues split: option.split)

lemma provenance_no_issues [no_issues]: "provenance_issues p = [] \<longleftrightarrow> provenance_contract p"
  by (simp add: provenance_issues_def provenance_contract_def no_issues)

lemma embedding_no_issues [no_issues]: "embedding_issues e = [] \<longleftrightarrow> embedding_contract e"
  by (cases "se_vector e")
    (auto simp: embedding_issues_def embedding_contract_def MAX_SEMANTIC_EMBEDDING_DIMENSIONS_def list_ex_iff)

lemma timeline_no_issues [no_issues]:
  "timeline_issues i prev es = [] \<longleftrightarrow>
     (\<forall>e\<in>set es. \<not> trim_is_empty (te_event e)) \<and> sorted ((case prev of None \<Rightarrow> [] | Some p \<Rightarrow> [p]) @ map te_at_ms es)"
proof (induction i prev es rule: timeline_issues.induct)
  case (2 i prev e es)
  then show ?case by (cases prev) (auto simp: not_less dest: order_trans)
qed (simp split: option.split)

text \<open>Once the points strictly increase, the duplicate test can no longer fire.\<close>

lemma interrupt_no_issues:
  "(case prev of None \<Rightarrow> seen = {} | Some q \<Rightarrow> \<forall>x\<in>seen. x \<le> q) \<Longrightarrow>
     interrupt_issues i seen prev dur ps = [] \<longleftrightarrow>
       sorted_wrt (<) ((case prev of None \<Rightarrow> [] | Some q \<Rightarrow> [q]) @ ps) \<and> (\<forall>d p. dur = Some d \<longrightarrow> p \<in> set ps \<longrightarrow> p \<le> d)"
proof (induction i seen prev dur ps rule: interrupt_issues.induct)
  case (2 i seen prev dur p ps)
  show ?case
  proof (cases "(case prev of None \<Rightarrow> True | Some q \<Rightarrow> q < p)")
    case True
    then have "\<forall>x\<in>insert p seen. x \<le> p" "p \<notin> seen" using 2(2) by (auto split: option.splits)
    with 2(1) True show ?thesis
      by (cases prev; cases dur) (auto dest: order.strict_trans)
  next
    case False
    then show ?thesis by (auto split: option.splits)
  qed
qed (simp split: option.split)

lemma id_no_issues: "is_valid_asset_id i \<longleftrightarrow> 3 \<le> length i \<and> length i \<le> 128 \<and> is_id_first (hd i) \<and> (\<forall>c\<in>set i. is_id_byte c)"
  by (cases i) (auto simp: is_valid_asset_id_def list_all_iff)

text \<open>
  Validation accepts exactly the assets that meet the contract: known schema, well-formed id, no blank
  text, finite numbers in range, media outside the descriptor, a duration for every audio, a
  non-decreasing timeline, strictly increasing interrupt points within the duration, bounded variation,
  full provenance of generated assets, and a finite non-zero embedding of admissible size.
\<close>

theorem asset_validation_is_exact: "validate_asset a = Inr () \<longleftrightarrow> asset_contract a"
proof -
  have "compatibility_issues c = [] \<longleftrightarrow> \<not> trim_is_empty (cm_compiler_version c) \<and> filled (cm_voice_model c) \<and>
      filled (cm_avatar_profile c) \<and> filled (cm_viseme_mapping c) \<and> filled (cm_motion_library c)" for c
    by (simp add: compatibility_issues_def no_issues)
  moreover have "interrupt_issues 0 {} None dur ps = [] \<longleftrightarrow> sorted_wrt (<) ps \<and> (\<forall>d p. dur = Some d \<longrightarrow> p \<in> set ps \<longrightarrow> p \<le> d)"
    for dur ps using interrupt_no_issues [of "{}" None 0 dur ps] by simp
  ultimately have "asset_issues a = [] \<longleftrightarrow> asset_contract a"
    by (simp add: asset_issues_def asset_contract_def no_issues id_no_issues PERFORMANCE_ASSET_SCHEMA_VERSION_def Let_def)
  then show ?thesis by (simp add: validate_asset_def)
qed

end
