(* ===== verification/Asset_Feedback.thy ===== *)
theory Asset_Feedback
  imports Memory_Model Asset_Store
begin

text \<open>
  Promotion scoring (\<open>crates/adaptation/src/lib.rs\<close>): the counters of uses and quality labels per asset,
  the recent ids per variant group, both bounded by eviction of the least recently touched, the decision
  to keep, promote or invalidate an asset, its application to the asset store, and variant selection. A
  failing \<open>expect\<close> is the value \<open>None\<close>.
\<close>

section \<open>Policy\<close>

record promotion_policy =
  py_min_uses :: u64
  py_min_quality_labels :: u64
  py_min_quality_ratio :: f64
  py_invalidate_after_negative_labels :: u64
  py_recent_variant_window :: usize

definition default_promotion_policy :: promotion_policy where
  "default_promotion_policy =
     \<lparr>py_min_uses = 3, py_min_quality_labels = 2, py_min_quality_ratio = Fin (3602879701896397 / 4503599627370496),
      py_invalidate_after_negative_labels = 3, py_recent_variant_window = 2\<rparr>"

definition promotion_policy_validate :: "promotion_policy \<Rightarrow> adaptation_error + promotion_policy" where
  "promotion_policy_validate p =
     (if py_min_uses p = 0 \<or> py_min_quality_labels p = 0 \<or> \<not> f64_is_finite (py_min_quality_ratio p) \<or>
         \<not> (f64_le (Fin 0) (py_min_quality_ratio p) \<and> f64_le (py_min_quality_ratio p) (Fin 1)) \<or>
         py_invalidate_after_negative_labels p = 0
      then Inl (AE_InvalidConfiguration ''promotion policy thresholds are invalid'') else Inr p)"

section \<open>Feedback and decisions\<close>

record asset_feedback =
  fb_uses :: u64
  fb_positive :: u64
  fb_negative :: u64

definition no_feedback :: asset_feedback where
  "no_feedback = \<lparr>fb_uses = 0, fb_positive = 0, fb_negative = 0\<rparr>"

text \<open>The divisor is a positive finite number, so the division is that of \<open>f64_div_fin\<close>.\<close>

definition quality_ratio :: "asset_feedback \<Rightarrow> f64 option" where
  "quality_ratio f =
     (let total = sadd (fb_positive f) (fb_negative f) in
      if 0 < total
      then Some (case f64_of_nat total of Fin t \<Rightarrow> f64_div_fin (f64_of_nat (fb_positive f)) t | _ \<Rightarrow> NaN)
      else None)"

datatype adaptation_decision_kind = AD_KeepHot | AD_Promote | AD_Invalidate

record adaptation_decision_record =
  dr_sequence :: u64
  dr_asset_id :: string
  dr_asset_identity :: string
  dr_decision :: adaptation_decision_kind
  dr_reason :: string
  dr_feedback :: asset_feedback
  dr_policy_version :: string
  dr_policy :: promotion_policy
  dr_seed :: u64

datatype applied_adaptation = AA_KeptHot | AA_Promoted path | AA_Invalidated

record adaptation_retention_config =
  arc_max_feedback_assets :: usize
  arc_max_recent_groups :: usize
  arc_max_decisions :: usize

definition default_adaptation_retention :: adaptation_retention_config where
  "default_adaptation_retention =
     \<lparr>arc_max_feedback_assets = 1024, arc_max_recent_groups = 256, arc_max_decisions = 1024\<rparr>"

record adaptation_retention_metrics =
  arm_feedback_assets :: usize
  arm_feedback_assets_high_water :: usize
  arm_feedback_assets_evicted :: u64
  arm_recent_groups :: usize
  arm_recent_groups_high_water :: usize
  arm_recent_groups_evicted :: u64
  arm_decisions :: usize
  arm_decisions_high_water :: usize
  arm_decisions_evicted :: u64

record adaptation_engine =
  ae_policy :: promotion_policy
  ae_policy_version :: string
  ae_seed :: u64
  ae_sequence :: u64
  ae_retention :: adaptation_retention_config
  ae_feedback :: "(string, asset_feedback) bmap"
  ae_feedback_touch :: "(string, u64) bmap"
  ae_recent :: "(string, string list) bmap"
  ae_recent_touch :: "(string, u64) bmap"
  ae_decisions :: "adaptation_decision_record list"
  ae_next_touch :: u64
  ae_feedback_high_water :: usize
  ae_feedback_evicted :: u64
  ae_recent_high_water :: usize
  ae_recent_evicted :: u64
  ae_decisions_high_water :: usize
  ae_decisions_evicted :: u64

definition engine_with_retention ::
  "promotion_policy \<Rightarrow> string \<Rightarrow> u64 \<Rightarrow> adaptation_retention_config \<Rightarrow> adaptation_error + adaptation_engine" where
  "engine_with_retention policy version seed r =
     rbind (promotion_policy_validate policy) (\<lambda>p.
       if trim_is_empty version then Inl (AE_InvalidConfiguration ''policy_version must not be empty'')
       else if arc_max_feedback_assets r = 0 \<or> arc_max_recent_groups r = 0 \<or> arc_max_decisions r = 0
       then Inl (AE_InvalidConfiguration ''adaptation retention bounds must be positive'')
       else Inr \<lparr>ae_policy = p, ae_policy_version = version, ae_seed = seed, ae_sequence = 0, ae_retention = r,
         ae_feedback = [], ae_feedback_touch = [], ae_recent = [], ae_recent_touch = [], ae_decisions = [],
         ae_next_touch = 0, ae_feedback_high_water = 0, ae_feedback_evicted = 0, ae_recent_high_water = 0,
         ae_recent_evicted = 0, ae_decisions_high_water = 0, ae_decisions_evicted = 0\<rparr>)"

definition engine_new :: "promotion_policy \<Rightarrow> string \<Rightarrow> u64 \<Rightarrow> adaptation_error + adaptation_engine" where
  "engine_new policy version seed = engine_with_retention policy version seed default_adaptation_retention"

definition feedback_of :: "string \<Rightarrow> adaptation_engine \<Rightarrow> asset_feedback" where
  "feedback_of i g = (case bm_get (ae_feedback g) i of None \<Rightarrow> no_feedback | Some f \<Rightarrow> f)"

definition adaptation_metrics_of :: "adaptation_engine \<Rightarrow> adaptation_retention_metrics" where
  "adaptation_metrics_of g =
     \<lparr>arm_feedback_assets = length (ae_feedback g), arm_feedback_assets_high_water = ae_feedback_high_water g,
      arm_feedback_assets_evicted = ae_feedback_evicted g, arm_recent_groups = length (ae_recent g),
      arm_recent_groups_high_water = ae_recent_high_water g, arm_recent_groups_evicted = ae_recent_evicted g,
      arm_decisions = length (ae_decisions g), arm_decisions_high_water = ae_decisions_high_water g,
      arm_decisions_evicted = ae_decisions_evicted g\<rparr>"

section \<open>Recording\<close>

definition next_touch_tick :: "adaptation_engine \<Rightarrow> u64 \<times> adaptation_engine" where
  "next_touch_tick g = (ae_next_touch g, g\<lparr>ae_next_touch := sadd (ae_next_touch g) 1\<rparr>)"

definition touch_before :: "string \<times> u64 \<Rightarrow> string \<times> u64 \<Rightarrow> bool" where
  "touch_before a b \<longleftrightarrow> snd a < snd b \<or> snd a = snd b \<and> fst a < fst b"

definition least_touched :: "(string, u64) bmap \<Rightarrow> string option" where
  "least_touched m = (case m of [] \<Rightarrow> None | x # xs \<Rightarrow> Some (fst (least_by touch_before x xs)))"

text \<open>Remove an id from every group; the groups that end up empty are returned.\<close>

definition drop_recent :: "string \<Rightarrow> (string, string list) bmap \<Rightarrow> (string, string list) bmap" where
  "drop_recent i m = map (\<lambda>(grp, r). (grp, filter (\<lambda>j. j \<noteq> i) r)) m"

definition empty_groups :: "(string, string list) bmap \<Rightarrow> string list" where
  "empty_groups m = map fst (filter (\<lambda>(_, r). r = []) m)"

definition remove_group :: "string \<Rightarrow> adaptation_engine \<Rightarrow> adaptation_engine" where
  "remove_group grp g = g\<lparr>ae_recent := bm_remove grp (ae_recent g), ae_recent_touch := bm_remove grp (ae_recent_touch g)\<rparr>"

definition remove_feedback :: "string \<Rightarrow> adaptation_engine \<Rightarrow> adaptation_engine" where
  "remove_feedback i g =
     g\<lparr>ae_feedback := bm_remove i (ae_feedback g), ae_feedback_touch := bm_remove i (ae_feedback_touch g)\<rparr>"

definition count_group_eviction :: "adaptation_engine \<Rightarrow> adaptation_engine" where
  "count_group_eviction g = g\<lparr>ae_recent_evicted := sadd (ae_recent_evicted g) 1\<rparr>"

definition evict_feedback :: "adaptation_engine \<Rightarrow> adaptation_engine option" where
  "evict_feedback g =
     (case least_touched (ae_feedback_touch g) of
        None \<Rightarrow> None
      | Some v \<Rightarrow>
          let g1 = remove_feedback v g;
              g2 = g1\<lparr>ae_feedback_evicted := sadd (ae_feedback_evicted g1) 1, ae_recent := drop_recent v (ae_recent g1)\<rparr>
          in Some (fold (\<lambda>grp h. count_group_eviction (remove_group grp h)) (empty_groups (ae_recent g2)) g2))"

definition ensure_feedback_asset :: "string \<Rightarrow> adaptation_engine \<Rightarrow> adaptation_engine option" where
  "ensure_feedback_asset i g =
     (let (tick, g1) = next_touch_tick g in
      Option.bind
        (if bm_get (ae_feedback g1) i = None \<and> arc_max_feedback_assets (ae_retention g1) \<le> length (ae_feedback g1)
         then evict_feedback g1 else Some g1)
        (\<lambda>g2.
          let fb = (if bm_get (ae_feedback g2) i = None then bm_insert i no_feedback (ae_feedback g2) else ae_feedback g2)
          in Some (g2\<lparr>ae_feedback := fb, ae_feedback_touch := bm_insert i tick (ae_feedback_touch g2),
                      ae_feedback_high_water := max (ae_feedback_high_water g2) (length fb)\<rparr>)))"

definition evict_group :: "adaptation_engine \<Rightarrow> adaptation_engine option" where
  "evict_group g =
     (case least_touched (ae_recent_touch g) of
        None \<Rightarrow> None
      | Some v \<Rightarrow> Some (count_group_eviction (remove_group v g)))"

definition ensure_recent_group :: "string \<Rightarrow> adaptation_engine \<Rightarrow> adaptation_engine option" where
  "ensure_recent_group grp g =
     (let (tick, g1) = next_touch_tick g in
      Option.bind
        (if bm_get (ae_recent g1) grp = None \<and> arc_max_recent_groups (ae_retention g1) \<le> length (ae_recent g1)
         then evict_group g1 else Some g1)
        (\<lambda>g2.
          let rs = (if bm_get (ae_recent g2) grp = None then bm_insert grp [] (ae_recent g2) else ae_recent g2)
          in Some (g2\<lparr>ae_recent := rs, ae_recent_touch := bm_insert grp tick (ae_recent_touch g2),
                      ae_recent_high_water := max (ae_recent_high_water g2) (length rs)\<rparr>)))"

definition update_feedback :: "string \<Rightarrow> (asset_feedback \<Rightarrow> asset_feedback) \<Rightarrow> adaptation_engine \<Rightarrow> adaptation_engine option" where
  "update_feedback i f g =
     (case bm_get (ae_feedback g) i of
        None \<Rightarrow> None
      | Some x \<Rightarrow> Some (g\<lparr>ae_feedback := bm_insert i (f x) (ae_feedback g)\<rparr>))"

definition push_recent :: "string \<Rightarrow> string \<Rightarrow> adaptation_engine \<Rightarrow> adaptation_engine option" where
  "push_recent grp i g =
     (case bm_get (ae_recent g) grp of
        None \<Rightarrow> None
      | Some r \<Rightarrow>
          Some (g\<lparr>ae_recent := bm_insert grp (keep_last (py_recent_variant_window (ae_policy g)) (r @ [i])) (ae_recent g)\<rparr>))"

definition use_group :: "'v performance_asset \<Rightarrow> string" where
  "use_group a = (case pa_variant_group a of Some v \<Rightarrow> v | None \<Rightarrow> pa_intent a)"

definition record_use :: "'v performance_asset \<Rightarrow> adaptation_engine \<Rightarrow> adaptation_engine option" where
  "record_use a g =
     Option.bind (ensure_feedback_asset (pa_id a) g) (\<lambda>g1.
     Option.bind (update_feedback (pa_id a) (\<lambda>f. f\<lparr>fb_uses := sadd (fb_uses f) 1\<rparr>) g1) (\<lambda>g2.
     Option.bind (ensure_recent_group (use_group a) g2) (\<lambda>g3.
     push_recent (use_group a) (pa_id a) g3)))"

definition record_quality :: "string \<Rightarrow> bool \<Rightarrow> adaptation_engine \<Rightarrow> adaptation_engine option" where
  "record_quality i positive g =
     Option.bind (ensure_feedback_asset i g) (\<lambda>g1.
     update_feedback i (\<lambda>f. if positive then f\<lparr>fb_positive := sadd (fb_positive f) 1\<rparr>
                            else f\<lparr>fb_negative := sadd (fb_negative f) 1\<rparr>) g1)"

definition forget_asset :: "string \<Rightarrow> adaptation_engine \<Rightarrow> adaptation_engine" where
  "forget_asset i g =
     (let g1 = remove_feedback i g; g2 = g1\<lparr>ae_recent := drop_recent i (ae_recent g1)\<rparr>
      in fold remove_group (empty_groups (ae_recent g2)) g2)"

section \<open>Decisions\<close>

definition ensure_promotable :: "'v asset_lib \<Rightarrow> 'v performance_asset \<Rightarrow> adaptation_error + unit" where
  "ensure_promotable lib a =
     (case validate_asset a of
        Inl issues \<Rightarrow> Inl (AE_InvalidAsset (issues_display issues))
      | Inr _ \<Rightarrow>
          if \<not> is_generated a then Inl (AE_InvalidAsset (''asset '' @ alb_debug lib (pa_id a) @ '' is not generated''))
          else Inr ())"

definition decide :: "promotion_policy \<Rightarrow> asset_feedback \<Rightarrow> adaptation_decision_kind \<times> string" where
  "decide p f =
     (if py_invalidate_after_negative_labels p \<le> fb_negative f then (AD_Invalidate, ''negative_quality_threshold'')
      else if py_min_uses p \<le> fb_uses f \<and> py_min_quality_labels p \<le> sadd (fb_positive f) (fb_negative f) \<and>
              (case quality_ratio f of None \<Rightarrow> False | Some r \<Rightarrow> f64_le (py_min_quality_ratio p) r)
      then (AD_Promote, ''frequency_and_quality_thresholds'')
      else (AD_KeepHot, ''thresholds_not_met''))"

definition push_decision :: "adaptation_decision_record \<Rightarrow> adaptation_engine \<Rightarrow> adaptation_engine" where
  "push_decision r g =
     (let ds = ae_decisions g @ [r]; n = length ds - arc_max_decisions (ae_retention g); ds' = drop n ds
      in g\<lparr>ae_decisions := ds',
           ae_decisions_evicted := (if 0 < n then sadd (ae_decisions_evicted g) n else ae_decisions_evicted g),
           ae_decisions_high_water := max (ae_decisions_high_water g) (length ds')\<rparr>)"

definition evaluate ::
  "'v asset_lib \<Rightarrow> 'v performance_asset \<Rightarrow> adaptation_engine \<Rightarrow>
     (adaptation_error + adaptation_decision_record) \<times> adaptation_engine" where
  "evaluate lib a g =
     (case ensure_promotable lib a of
        Inl e \<Rightarrow> (Inl e, g)
      | Inr _ \<Rightarrow>
          let f = feedback_of (pa_id a) g;
              (kind, reason) = decide (ae_policy g) f;
              g1 = g\<lparr>ae_sequence := sadd (ae_sequence g) 1\<rparr>;
              r = \<lparr>dr_sequence = ae_sequence g1, dr_asset_id = pa_id a, dr_asset_identity = stable_key (identity_of a),
                   dr_decision = kind, dr_reason = reason, dr_feedback = f, dr_policy_version = ae_policy_version g1,
                   dr_policy = ae_policy g1, dr_seed = ae_seed g1\<rparr>
          in (Inr r, push_decision r g1))"

definition apply_adaptation ::
  "'v asset_lib \<Rightarrow> string \<Rightarrow> adaptation_engine \<times> disk \<times> 'v asset_store \<Rightarrow>
     (adaptation_error + applied_adaptation) \<times> adaptation_engine \<times> disk \<times> 'v asset_store" where
  "apply_adaptation lib i x =
     (let (g, d, s) = x; (found, s1) = hot_get i s in
      case found of
        None \<Rightarrow> (Inl (AE_AssetStore (ASE_NotFound i)), g, d, s1)
      | Some a \<Rightarrow>
          (case evaluate lib a g of
             (Inl e, g1) \<Rightarrow> (Inl e, g1, d, s1)
           | (Inr r, g1) \<Rightarrow>
               (case dr_decision r of
                  AD_KeepHot \<Rightarrow> (Inr AA_KeptHot, g1, d, s1)
                | AD_Promote \<Rightarrow>
                    (case persist_generated_descriptor lib i d s1 of
                       (Inl e, d2, s2) \<Rightarrow> (Inl (AE_AssetStore e), g1, d2, s2)
                     | (Inr p, d2, s2) \<Rightarrow> (Inr (AA_Promoted p), g1, d2, s2))
                | AD_Invalidate \<Rightarrow>
                    (case invalidate_generated_asset lib i d s1 of
                       (Inl e, d2, s2) \<Rightarrow> (Inl (AE_AssetStore e), g1, d2, s2)
                     | (Inr _, d2, s2) \<Rightarrow> (Inr AA_Invalidated, forget_asset i g1, d2, s2)))))"

section \<open>Variant selection\<close>

definition stable_index :: "u64 \<Rightarrow> string \<Rightarrow> nat \<Rightarrow> nat" where
  "stable_index seed key n = unat (foldl fnv_step (0xcbf29ce484222325 :: 64 word) (le_bytes seed @ key)) mod n"

definition select_candidate ::
  "string \<Rightarrow> 'v performance_asset list \<Rightarrow> u64 \<Rightarrow> adaptation_engine \<Rightarrow> 'v performance_asset option" where
  "select_candidate grp candidates event_sequence g =
     (if candidates = [] then None
      else
        let recent = bm_get (ae_recent g) grp;
            fresh = filter (\<lambda>a. pa_variant_group a = Some grp \<and>
                       (case recent of None \<Rightarrow> True | Some r \<Rightarrow> \<not> List.member r (pa_id a))) candidates;
            preferred = sort_by (\<lambda>l r. pa_id l < pa_id r)
                          (if fresh = [] then filter (\<lambda>a. pa_variant_group a = Some grp) candidates else fresh)
        in if preferred = [] then None
           else let i = stable_index ((ae_seed g + event_sequence) mod 2 ^ 64) grp (length preferred)
                in if i < length preferred then Some (preferred ! i) else None)"

end
