(* ===== verification/Feedback_Inv.thy ===== *)
theory Feedback_Inv
  imports Asset_Feedback Asset_Sys
begin

text \<open>
  The invariant of the promotion scoring: each of its two tables has a touch record for exactly its keys
  and respects its bound, so the \<open>expect\<close>s of the code never fail; and the engine together with the asset
  store as a transition system.
\<close>

section \<open>Tables with touch records\<close>

definition table_ok :: "nat \<Rightarrow> (string, 'a) bmap \<Rightarrow> (string, u64) bmap \<Rightarrow> bool" where
  "table_ok cap m t \<longleftrightarrow> bm_ok m \<and> bm_ok t \<and> fst ` set m = fst ` set t \<and> length m \<le> cap"

lemma bm_length_card: "bm_ok m \<Longrightarrow> length m = card (fst ` set m)"
  using distinct_card [of "map fst m"] by (simp add: bm_ok_distinct)

lemma keys_bm_remove: "fst ` set (bm_remove k m) = fst ` set m - {k}"
  by (auto simp: bm_remove_def image_iff)

lemma table_ok_remove: "table_ok cap m t \<Longrightarrow> table_ok cap (bm_remove k m) (bm_remove k t)"
  using bm_remove_length_le [of k m] by (auto simp: table_ok_def keys_bm_remove bm_ok_remove)

lemma table_ok_touch: "table_ok cap m t \<Longrightarrow> bm_get m k \<noteq> None \<Longrightarrow> table_ok cap m (bm_insert k tick t)"
  by (auto simp: table_ok_def bm_ok_insert bm_get_eq_None)

lemma table_ok_update: "table_ok cap m t \<Longrightarrow> bm_get m k = Some x \<Longrightarrow> table_ok cap (bm_insert k y m) t"
proof -
  assume a: "table_ok cap m t" "bm_get m k = Some x"
  then have "k \<in> fst ` set m" by (metis bm_get_eq_None option.distinct(1))
  with a show ?thesis by (simp add: table_ok_def bm_ok_insert insert_absorb) (metis bm_insert_old_length)
qed

lemma table_ok_insert:
  "table_ok cap m t \<Longrightarrow> bm_get m k = None \<Longrightarrow> length m < cap \<Longrightarrow> table_ok cap (bm_insert k y m) (bm_insert k tick t)"
  by (auto simp: table_ok_def bm_ok_insert bm_insert_fresh_length)

text \<open>A full table has a least touched entry, and removing it makes room.\<close>

lemma table_ok_least:
  assumes "table_ok cap m t" "cap \<le> length m" "0 < cap"
  obtains v where "least_touched t = Some v" "v \<in> fst ` set m" "length (bm_remove v m) < cap"
proof -
  have "length t = length m" using assms(1) bm_length_card [of m] bm_length_card [of t] by (simp add: table_ok_def)
  then obtain x xs where t: "t = x # xs" using assms(2,3) by (cases t) auto
  let ?v = "fst (least_by touch_before x xs)"
  have "?v \<in> fst ` set t" using least_by_in [of touch_before x xs] by (auto simp: t)
  then have v: "?v \<in> fst ` set m" using assms(1) by (simp add: table_ok_def)
  then obtain y where "bm_get m ?v = Some y" by (metis bm_get_eq_None not_None_eq)
  then have "length (bm_remove ?v m) < length m" by (rule bm_remove_length_less)
  with assms(1) v show thesis by (intro that [of ?v]) (simp_all add: least_touched_def t table_ok_def)
qed

text \<open>Filtering by key and mapping the values.\<close>

lemma table_ok_filter:
  "table_ok cap m t \<Longrightarrow> table_ok cap (filter (\<lambda>(k, _). k \<notin> K) m) (filter (\<lambda>(k, _). k \<notin> K) t)"
proof -
  assume a: "table_ok cap m t"
  have "fst ` set (filter (\<lambda>(k, _). k \<notin> K) m) = fst ` set m - K" "fst ` set (filter (\<lambda>(k, _). k \<notin> K) t) = fst ` set t - K"
    by force+
  moreover have "length (filter (\<lambda>(k, _). k \<notin> K) m) \<le> length m" by (rule length_filter_le)
  ultimately show ?thesis using a unfolding table_ok_def by (auto simp only: bm_ok_filter intro: le_trans)
qed

lemma drop_recent_facts:
  "map fst (drop_recent i m) = map fst m" "length (drop_recent i m) = length m"
  by (induction m) (auto simp: drop_recent_def)

lemma table_ok_drop_recent: "table_ok cap m t \<Longrightarrow> table_ok cap (drop_recent i m) t"
  using drop_recent_facts [of i m] by (simp add: table_ok_def bm_ok_def) (metis list.set_map)

section \<open>The engine\<close>

definition recent_ok :: "adaptation_engine \<Rightarrow> bool" where
  "recent_ok g \<longleftrightarrow>
     (\<forall>(grp, r)\<in>set (ae_recent g). length r \<le> py_recent_variant_window (ae_policy g) \<and> set r \<subseteq> fst ` set (ae_feedback g))"

definition retention_ok :: "adaptation_engine \<Rightarrow> bool" where
  "retention_ok g \<longleftrightarrow>
     0 < arc_max_feedback_assets (ae_retention g) \<and> 0 < arc_max_recent_groups (ae_retention g) \<and>
     0 < arc_max_decisions (ae_retention g) \<and>
     length (ae_feedback g) \<le> ae_feedback_high_water g \<and>
     ae_feedback_high_water g \<le> arc_max_feedback_assets (ae_retention g) \<and>
     length (ae_recent g) \<le> ae_recent_high_water g \<and> ae_recent_high_water g \<le> arc_max_recent_groups (ae_retention g) \<and>
     length (ae_decisions g) \<le> ae_decisions_high_water g \<and> ae_decisions_high_water g \<le> arc_max_decisions (ae_retention g)"

definition engine_inv :: "adaptation_engine \<Rightarrow> bool" where
  "engine_inv g \<longleftrightarrow>
     table_ok (arc_max_feedback_assets (ae_retention g)) (ae_feedback g) (ae_feedback_touch g) \<and>
     table_ok (arc_max_recent_groups (ae_retention g)) (ae_recent g) (ae_recent_touch g) \<and> recent_ok g \<and> retention_ok g"

lemma engine_inv_new: "engine_with_retention p v seed r = Inr g \<Longrightarrow> engine_inv g"
  by (auto simp: engine_with_retention_def engine_inv_def table_ok_def recent_ok_def retention_ok_def rbind_def
      split: sum.splits if_splits)

interpretation decision_log: bounded_log push_decision ae_decisions "\<lambda>g. Some (arc_max_decisions (ae_retention g))"
  by unfold_locales (simp_all add: push_decision_def Let_def keep_last_def)

lemma push_decision_fields [simp]:
  "ae_feedback (push_decision r g) = ae_feedback g" "ae_feedback_touch (push_decision r g) = ae_feedback_touch g"
  "ae_recent (push_decision r g) = ae_recent g" "ae_recent_touch (push_decision r g) = ae_recent_touch g"
  "ae_policy (push_decision r g) = ae_policy g" "ae_retention (push_decision r g) = ae_retention g"
  "ae_feedback_high_water (push_decision r g) = ae_feedback_high_water g"
  "ae_recent_high_water (push_decision r g) = ae_recent_high_water g"
  by (simp_all add: push_decision_def Let_def)

lemma engine_inv_push: "engine_inv g \<Longrightarrow> engine_inv (push_decision r g)"
proof -
  assume a: "engine_inv g"
  have "ae_decisions_high_water (push_decision r g) = max (ae_decisions_high_water g) (length (ae_decisions (push_decision r g)))"
    by (simp add: push_decision_def Let_def del: drop_append)
  moreover have "length (ae_decisions (push_decision r g)) \<le> arc_max_decisions (ae_retention g)"
    using decision_log.bounded_push [of g r] by simp
  ultimately show ?thesis using a by (simp add: engine_inv_def recent_ok_def retention_ok_def)
qed

section \<open>Dropping an asset\<close>

lemma fold_remove_group:
  assumes f: "\<And>grp g. ae_recent (f grp g) = bm_remove grp (ae_recent g) \<and> ae_recent_touch (f grp g) = bm_remove grp (ae_recent_touch g) \<and>
      ae_feedback (f grp g) = ae_feedback g \<and> ae_feedback_touch (f grp g) = ae_feedback_touch g \<and>
      ae_policy (f grp g) = ae_policy g \<and> ae_retention (f grp g) = ae_retention g \<and> ae_decisions (f grp g) = ae_decisions g \<and>
      ae_feedback_high_water (f grp g) = ae_feedback_high_water g \<and> ae_recent_high_water (f grp g) = ae_recent_high_water g \<and>
      ae_decisions_high_water (f grp g) = ae_decisions_high_water g"
  shows "ae_recent (fold f gs g) = filter (\<lambda>(k, _). k \<notin> set gs) (ae_recent g) \<and>
    ae_recent_touch (fold f gs g) = filter (\<lambda>(k, _). k \<notin> set gs) (ae_recent_touch g) \<and>
    ae_feedback (fold f gs g) = ae_feedback g \<and> ae_feedback_touch (fold f gs g) = ae_feedback_touch g \<and>
    ae_policy (fold f gs g) = ae_policy g \<and> ae_retention (fold f gs g) = ae_retention g \<and>
    ae_decisions (fold f gs g) = ae_decisions g \<and>
    ae_feedback_high_water (fold f gs g) = ae_feedback_high_water g \<and>
    ae_recent_high_water (fold f gs g) = ae_recent_high_water g \<and>
    ae_decisions_high_water (fold f gs g) = ae_decisions_high_water g"
proof (induction gs arbitrary: g)
  case (Cons k gs)
  have flt: "filter (\<lambda>(j, _). j \<notin> set gs) (bm_remove k m) = filter (\<lambda>(j, _). j \<notin> set (k # gs)) m" for m :: "(string, 'x) bmap"
    by (auto simp: bm_remove_def intro!: filter_cong)
  show ?case using Cons [of "f k g"] f [of k g] by (simp only: fold_Cons o_apply flt)
qed simp

text \<open>What evicting and forgetting an asset have in common.\<close>

definition drops_asset :: "string \<Rightarrow> adaptation_engine \<Rightarrow> adaptation_engine \<Rightarrow> bool" where
  "drops_asset v g h \<longleftrightarrow>
     ae_feedback h = bm_remove v (ae_feedback g) \<and> ae_feedback_touch h = bm_remove v (ae_feedback_touch g) \<and>
     (\<exists>gs. ae_recent h = filter (\<lambda>(k, _). k \<notin> set gs) (drop_recent v (ae_recent g)) \<and>
        ae_recent_touch h = filter (\<lambda>(k, _). k \<notin> set gs) (ae_recent_touch g)) \<and>
     ae_policy h = ae_policy g \<and> ae_retention h = ae_retention g \<and> ae_decisions h = ae_decisions g \<and>
     ae_feedback_high_water h = ae_feedback_high_water g \<and> ae_recent_high_water h = ae_recent_high_water g \<and>
     ae_decisions_high_water h = ae_decisions_high_water g"

lemma forget_asset_drops: "drops_asset i g (forget_asset i g)"
  unfolding drops_asset_def forget_asset_def Let_def
  using fold_remove_group [of remove_group] by (auto simp: remove_group_def remove_feedback_def)

lemma evict_feedback_drops:
  "least_touched (ae_feedback_touch g) = Some v \<Longrightarrow> \<exists>h. evict_feedback g = Some h \<and> drops_asset v g h"
  unfolding drops_asset_def evict_feedback_def Let_def
  using fold_remove_group [of "\<lambda>grp h. count_group_eviction (remove_group grp h)"]
  by (auto simp: remove_group_def remove_feedback_def count_group_eviction_def)

lemma drops_asset_feedback: "drops_asset v g h \<Longrightarrow> feedback_of j h = (if j = v then no_feedback else feedback_of j g)"
  by (simp add: drops_asset_def feedback_of_def)

lemma engine_inv_drop: "engine_inv g \<Longrightarrow> drops_asset v g h \<Longrightarrow> engine_inv h"
proof -
  assume a: "engine_inv g" "drops_asset v g h"
  then obtain gs where r: "ae_recent h = filter (\<lambda>(k, _). k \<notin> set gs) (drop_recent v (ae_recent g))"
    "ae_recent_touch h = filter (\<lambda>(k, _). k \<notin> set gs) (ae_recent_touch g)" by (auto simp: drops_asset_def)
  have f: "ae_feedback h = bm_remove v (ae_feedback g)" "ae_feedback_touch h = bm_remove v (ae_feedback_touch g)"
    "ae_policy h = ae_policy g" "ae_retention h = ae_retention g" "ae_decisions h = ae_decisions g"
    "ae_feedback_high_water h = ae_feedback_high_water g" "ae_recent_high_water h = ae_recent_high_water g"
    "ae_decisions_high_water h = ae_decisions_high_water g" using a(2) by (simp_all add: drops_asset_def)
  have i: "table_ok (arc_max_feedback_assets (ae_retention g)) (ae_feedback g) (ae_feedback_touch g)"
    "table_ok (arc_max_recent_groups (ae_retention g)) (ae_recent g) (ae_recent_touch g)" "recent_ok g" "retention_ok g"
    using a(1) by (simp_all add: engine_inv_def)
  have "recent_ok h"
  proof -
    have "length r \<le> py_recent_variant_window (ae_policy g) \<and> set r \<subseteq> fst ` set (bm_remove v (ae_feedback g))"
      if "(grp, r) \<in> set (ae_recent h)" for grp r
    proof -
      from that obtain r' where r': "(grp, r') \<in> set (ae_recent g)" "r = filter (\<lambda>j. j \<noteq> v) r'"
        by (auto simp: r(1) drop_recent_def)
      with i(3) have "length r' \<le> py_recent_variant_window (ae_policy g)" "set r' \<subseteq> fst ` set (ae_feedback g)"
        by (auto simp: recent_ok_def)
      with r'(2) show ?thesis unfolding keys_bm_remove by (auto intro: le_trans [OF length_filter_le])
    qed
    then show ?thesis unfolding recent_ok_def f by auto
  qed
  moreover have "length (ae_recent h) \<le> length (ae_recent g)" unfolding r(1)
    by (rule le_trans [OF length_filter_le]) (simp add: drop_recent_facts)
  moreover have "length (ae_feedback h) \<le> length (ae_feedback g)" unfolding f(1) by (rule bm_remove_length_le)
  ultimately show ?thesis
    using table_ok_remove [OF i(1), of v] table_ok_filter [OF table_ok_drop_recent [OF i(2), of v], of "set gs"] i(4)
    by (simp add: engine_inv_def retention_ok_def r f)
qed

section \<open>Recording never fails\<close>

lemma next_touch_fields [simp]:
  "fst (next_touch_tick g) = ae_next_touch g" "engine_inv (snd (next_touch_tick g)) = engine_inv g"
  "ae_feedback (snd (next_touch_tick g)) = ae_feedback g" "ae_feedback_touch (snd (next_touch_tick g)) = ae_feedback_touch g"
  "ae_recent (snd (next_touch_tick g)) = ae_recent g" "ae_recent_touch (snd (next_touch_tick g)) = ae_recent_touch g"
  "ae_retention (snd (next_touch_tick g)) = ae_retention g" "ae_policy (snd (next_touch_tick g)) = ae_policy g"
  by (simp_all add: next_touch_tick_def engine_inv_def recent_ok_def retention_ok_def)

lemma engine_inv_set_feedback:
  assumes "engine_inv g" "table_ok (arc_max_feedback_assets (ae_retention g)) fb tch"
    and "fst ` set (ae_feedback g) \<subseteq> fst ` set fb"
  shows "engine_inv (g\<lparr>ae_feedback := fb, ae_feedback_touch := tch,
    ae_feedback_high_water := max (ae_feedback_high_water g) (length fb)\<rparr>)" (is "engine_inv ?h")
proof -
  have "recent_ok ?h" using assms(1,3) by (fastforce simp: engine_inv_def recent_ok_def)
  moreover have "length fb \<le> arc_max_feedback_assets (ae_retention g)" using assms(2) by (simp add: table_ok_def)
  then have "retention_ok ?h" using assms(1) by (simp add: engine_inv_def retention_ok_def)
  ultimately show ?thesis using assms(1,2) by (simp add: engine_inv_def)
qed

lemma engine_inv_set_recent:
  assumes "engine_inv g" "table_ok (arc_max_recent_groups (ae_retention g)) rs tch"
    and "\<And>grp r. (grp, r) \<in> set rs \<Longrightarrow> length r \<le> py_recent_variant_window (ae_policy g) \<and> set r \<subseteq> fst ` set (ae_feedback g)"
  shows "engine_inv (g\<lparr>ae_recent := rs, ae_recent_touch := tch,
    ae_recent_high_water := max (ae_recent_high_water g) (length rs)\<rparr>)" (is "engine_inv ?h")
proof -
  have "recent_ok ?h" using assms(3) by (auto simp: recent_ok_def)
  moreover have "length rs \<le> arc_max_recent_groups (ae_retention g)" using assms(2) by (simp add: table_ok_def)
  then have "retention_ok ?h" using assms(1) by (simp add: engine_inv_def retention_ok_def)
  ultimately show ?thesis using assms(1,2) by (simp add: engine_inv_def)
qed

text \<open>Making room for an asset and touching it.\<close>

lemma ensure_feedback_ok:
  assumes "engine_inv g"
  obtains h where "ensure_feedback_asset i g = Some h" "engine_inv h" "bm_get (ae_feedback h) i \<noteq> None"
    "ae_policy h = ae_policy g" "ae_retention h = ae_retention g"
    "\<And>j. feedback_of j h = feedback_of j g \<or> feedback_of j h = no_feedback"
proof -
  let ?g = "snd (next_touch_tick g)" and ?cap = "arc_max_feedback_assets (ae_retention g)"
  have g: "engine_inv ?g" using assms by simp
  have cap: "0 < ?cap" using assms by (simp add: engine_inv_def retention_ok_def)
  obtain g2 where g2: "(if bm_get (ae_feedback ?g) i = None \<and> ?cap \<le> length (ae_feedback ?g) then evict_feedback ?g else Some ?g) = Some g2"
    "engine_inv g2" "bm_get (ae_feedback g2) i = None \<longrightarrow> length (ae_feedback g2) < ?cap" "ae_policy g2 = ae_policy g"
    "ae_retention g2 = ae_retention g" "\<And>j. feedback_of j g2 = feedback_of j g \<or> feedback_of j g2 = no_feedback"
  proof (cases "bm_get (ae_feedback ?g) i = None \<and> ?cap \<le> length (ae_feedback ?g)")
    case True
    have t: "table_ok ?cap (ae_feedback ?g) (ae_feedback_touch ?g)" using assms by (simp add: engine_inv_def)
    from table_ok_least [OF t _ cap] True obtain v where v: "least_touched (ae_feedback_touch ?g) = Some v"
      "length (bm_remove v (ae_feedback ?g)) < ?cap" by blast
    from evict_feedback_drops [OF v(1)] obtain h where h: "evict_feedback ?g = Some h" "drops_asset v ?g h" by blast
    have "ae_feedback h = bm_remove v (ae_feedback g)" "ae_policy h = ae_policy g" "ae_retention h = ae_retention g"
      using h(2) by (simp_all add: drops_asset_def)
    moreover have "feedback_of j h = feedback_of j g \<or> feedback_of j h = no_feedback" for j
      using drops_asset_feedback [OF h(2), of j] by (simp add: feedback_of_def)
    ultimately show thesis using True h engine_inv_drop [OF g h(2)] v(2) by (intro that [of h]) simp_all
  next
    case False
    then show thesis using g by (intro that [of ?g]) (auto simp: feedback_of_def)
  qed
  let ?fb = "if bm_get (ae_feedback g2) i = None then bm_insert i no_feedback (ae_feedback g2) else ae_feedback g2"
  let ?h = "g2\<lparr>ae_feedback := ?fb, ae_feedback_touch := bm_insert i (ae_next_touch g) (ae_feedback_touch g2),
      ae_feedback_high_water := max (ae_feedback_high_water g2) (length ?fb)\<rparr>"
  have t2: "table_ok ?cap (ae_feedback g2) (ae_feedback_touch g2)" using g2(2,5) by (simp add: engine_inv_def)
  have "table_ok ?cap ?fb (bm_insert i (ae_next_touch g) (ae_feedback_touch g2))"
    using table_ok_insert [OF t2] table_ok_touch [OF t2] g2(3) by simp
  moreover have "fst ` set (ae_feedback g2) \<subseteq> fst ` set ?fb" by auto
  ultimately have "engine_inv ?h" using engine_inv_set_feedback [OF g2(2)] g2(5) by metis
  moreover have "ensure_feedback_asset i g = Some ?h"
    using g2(1) by (simp add: ensure_feedback_asset_def split_beta Let_def)
  moreover have "feedback_of j ?h = feedback_of j g \<or> feedback_of j ?h = no_feedback" for j
    using g2(6) [of j] by (auto simp: feedback_of_def)
  ultimately show thesis using g2(4,5) by (intro that [of ?h]) auto
qed

text \<open>The same for a group.\<close>

lemma evict_group_ok:
  assumes "engine_inv g" "arc_max_recent_groups (ae_retention g) \<le> length (ae_recent g)"
  obtains h where "evict_group g = Some h" "engine_inv h" "length (ae_recent h) < arc_max_recent_groups (ae_retention g)"
    "ae_policy h = ae_policy g" "ae_retention h = ae_retention g" "ae_feedback h = ae_feedback g"
proof -
  let ?cap = "arc_max_recent_groups (ae_retention g)"
  have t: "table_ok ?cap (ae_recent g) (ae_recent_touch g)" and cap: "0 < ?cap"
    using assms(1) by (simp_all add: engine_inv_def retention_ok_def)
  from table_ok_least [OF t assms(2) cap] obtain v where v: "least_touched (ae_recent_touch g) = Some v"
    "length (bm_remove v (ae_recent g)) < ?cap" by blast
  let ?h = "count_group_eviction (remove_group v g)"
  have "recent_ok ?h" using assms(1)
    by (auto simp: engine_inv_def recent_ok_def count_group_eviction_def remove_group_def bm_remove_def)
  moreover have "retention_ok ?h" using assms(1) bm_remove_length_le [of v "ae_recent g"]
    by (simp add: engine_inv_def retention_ok_def count_group_eviction_def remove_group_def)
  ultimately have "engine_inv ?h" using assms(1) table_ok_remove [OF t, of v]
    by (simp add: engine_inv_def) (simp add: count_group_eviction_def remove_group_def)
  then show thesis using v by (intro that [of ?h]) (simp_all add: evict_group_def count_group_eviction_def remove_group_def)
qed

lemma ensure_group_ok:
  assumes "engine_inv g"
  obtains h where "ensure_recent_group grp g = Some h" "engine_inv h" "bm_get (ae_recent h) grp \<noteq> None"
    "ae_policy h = ae_policy g" "ae_retention h = ae_retention g" "ae_feedback h = ae_feedback g"
proof -
  let ?g = "snd (next_touch_tick g)" and ?cap = "arc_max_recent_groups (ae_retention g)"
  have g: "engine_inv ?g" using assms by simp
  obtain g2 where g2: "(if bm_get (ae_recent ?g) grp = None \<and> ?cap \<le> length (ae_recent ?g) then evict_group ?g else Some ?g) = Some g2"
    "engine_inv g2" "bm_get (ae_recent g2) grp = None \<longrightarrow> length (ae_recent g2) < ?cap" "ae_policy g2 = ae_policy g"
    "ae_retention g2 = ae_retention g" "ae_feedback g2 = ae_feedback g"
  proof (cases "bm_get (ae_recent ?g) grp = None \<and> ?cap \<le> length (ae_recent ?g)")
    case True
    obtain h where h: "evict_group ?g = Some h" "engine_inv h" "length (ae_recent h) < ?cap" "ae_policy h = ae_policy g"
      "ae_retention h = ae_retention g" "ae_feedback h = ae_feedback g"
      using evict_group_ok [OF g] True by auto
    then show thesis using True by (intro that [of h]) simp_all
  next
    case False
    then show thesis using g by (intro that [of ?g]) auto
  qed
  let ?rs = "if bm_get (ae_recent g2) grp = None then bm_insert grp [] (ae_recent g2) else ae_recent g2"
  let ?h = "g2\<lparr>ae_recent := ?rs, ae_recent_touch := bm_insert grp (ae_next_touch g) (ae_recent_touch g2),
      ae_recent_high_water := max (ae_recent_high_water g2) (length ?rs)\<rparr>"
  have t2: "table_ok ?cap (ae_recent g2) (ae_recent_touch g2)" using g2(2,5) by (simp add: engine_inv_def)
  have "table_ok ?cap ?rs (bm_insert grp (ae_next_touch g) (ae_recent_touch g2))"
    using table_ok_insert [OF t2] table_ok_touch [OF t2] g2(3) by simp
  moreover have "length r \<le> py_recent_variant_window (ae_policy g2) \<and> set r \<subseteq> fst ` set (ae_feedback g2)" if "(k, r) \<in> set ?rs" for k r
  proof -
    have "r = [] \<or> (k, r) \<in> set (ae_recent g2)" using that set_bm_insert [of grp "[]" "ae_recent g2"] by (auto split: if_splits)
    then show ?thesis using g2(2) by (auto simp: engine_inv_def recent_ok_def)
  qed
  ultimately have "engine_inv ?h" using g2(5) by (intro engine_inv_set_recent [OF g2(2)]) simp_all
  moreover have "ensure_recent_group grp g = Some ?h"
    using g2(1) by (simp add: ensure_recent_group_def split_beta Let_def)
  ultimately show thesis using g2(4-6) by (intro that [of ?h]) auto
qed

text \<open>Counting one observation of an asset.\<close>

lemma update_feedback_ok:
  assumes "engine_inv g" "bm_get (ae_feedback g) i \<noteq> None"
  obtains h where "update_feedback i f g = Some h" "engine_inv h" "ae_policy h = ae_policy g" "ae_retention h = ae_retention g"
    "\<And>j. feedback_of j h = (if j = i then f (feedback_of i g) else feedback_of j g)" "bm_get (ae_feedback h) i \<noteq> None"
proof -
  obtain x where x: "bm_get (ae_feedback g) i = Some x" using assms(2) by blast
  let ?h = "g\<lparr>ae_feedback := bm_insert i (f x) (ae_feedback g)\<rparr>"
  have t: "table_ok (arc_max_feedback_assets (ae_retention g)) (ae_feedback g) (ae_feedback_touch g)"
    using assms(1) by (simp add: engine_inv_def)
  have len: "length (bm_insert i (f x) (ae_feedback g)) = length (ae_feedback g)"
    using t x by (auto simp: table_ok_def intro: bm_insert_old_length)
  have "recent_ok ?h" using assms(1) by (fastforce simp: engine_inv_def recent_ok_def)
  moreover have "retention_ok ?h" using assms(1) by (simp add: engine_inv_def retention_ok_def len)
  ultimately have "engine_inv ?h" using assms(1) table_ok_update [OF t x, of "f x"] by (simp add: engine_inv_def)
  then show thesis by (intro that [of ?h]) (auto simp: update_feedback_def x feedback_of_def)
qed

lemma push_recent_ok:
  assumes "engine_inv g" "bm_get (ae_recent g) grp \<noteq> None" "bm_get (ae_feedback g) i \<noteq> None"
  obtains h where "push_recent grp i g = Some h" "engine_inv h" "ae_policy h = ae_policy g" "ae_retention h = ae_retention g"
    "ae_feedback h = ae_feedback g"
proof -
  obtain r where r: "bm_get (ae_recent g) grp = Some r" using assms(2) by blast
  let ?r = "keep_last (py_recent_variant_window (ae_policy g)) (r @ [i])"
  let ?h = "g\<lparr>ae_recent := bm_insert grp ?r (ae_recent g)\<rparr>"
  have t: "table_ok (arc_max_recent_groups (ae_retention g)) (ae_recent g) (ae_recent_touch g)" and ok: "recent_ok g"
    using assms(1) by (simp_all add: engine_inv_def)
  have len: "length (bm_insert grp ?r (ae_recent g)) = length (ae_recent g)"
    using t r by (auto simp: table_ok_def intro: bm_insert_old_length)
  have "(grp, r) \<in> set (ae_recent g)" using r by (auto simp: bm_get_def dest: map_of_SomeD)
  with ok have "set r \<subseteq> fst ` set (ae_feedback g)" by (auto simp: recent_ok_def)
  moreover have "i \<in> fst ` set (ae_feedback g)" using assms(3) by (simp add: bm_get_eq_None)
  ultimately have sub: "set ?r \<subseteq> fst ` set (ae_feedback g)"
    using set_keep_last [of "py_recent_variant_window (ae_policy g)" "r @ [i]"] by auto
  have "length q \<le> py_recent_variant_window (ae_policy g) \<and> set q \<subseteq> fst ` set (ae_feedback g)"
    if "(k, q) \<in> set (bm_insert grp ?r (ae_recent g))" for k q
  proof -
    have "(k, q) = (grp, ?r) \<or> (k, q) \<in> set (ae_recent g)" using that set_bm_insert [of grp ?r "ae_recent g"] by blast
    then show ?thesis using ok sub by (elim disjE) (auto simp: recent_ok_def)
  qed
  then have "recent_ok ?h" by (auto simp: recent_ok_def)
  moreover have "retention_ok ?h" using assms(1) by (simp add: engine_inv_def retention_ok_def len)
  ultimately have "engine_inv ?h" using assms(1) table_ok_update [OF t r, of ?r] by (simp add: engine_inv_def)
  then show thesis by (intro that [of ?h]) (simp_all add: push_recent_def r)
qed

end
