(* ===== verification/Feedback_Sys.thy ===== *)
theory Feedback_Sys
  imports Feedback_Inv
begin

text \<open>
  The promotion scoring and the asset store together: one run of recordings, evaluations, applications
  and store operations. Every run returns, keeps both invariants, and the counters never exceed what
  the run recorded.
\<close>

section \<open>Recording\<close>

text \<open>What an operation may add to the counters of an asset.\<close>

definition counts_within :: "adaptation_engine \<Rightarrow> string \<Rightarrow> nat \<Rightarrow> nat \<Rightarrow> nat \<Rightarrow> bool" where
  "counts_within g j u p n \<longleftrightarrow>
     fb_uses (feedback_of j g) \<le> u \<and> fb_positive (feedback_of j g) \<le> p \<and> fb_negative (feedback_of j g) \<le> n"

lemma counts_within_mono:
  "feedback_of j h = feedback_of j g \<or> feedback_of j h = no_feedback \<Longrightarrow> counts_within g j u p n \<Longrightarrow> counts_within h j u p n"
  by (elim disjE) (simp_all add: counts_within_def no_feedback_def)

lemma sadd_le: "sadd a b \<le> a + b"
  by (simp add: sadd_def)

lemma record_use_ok:
  assumes "engine_inv g"
  obtains h where "record_use a g = Some h" "engine_inv h" "ae_policy h = ae_policy g" "ae_retention h = ae_retention g"
    "\<And>j u p n. counts_within g j u p n \<Longrightarrow> counts_within h j (u + (if pa_id a = j then 1 else 0)) p n"
proof -
  let ?i = "pa_id a" and ?grp = "use_group a" and ?f = "\<lambda>f. f\<lparr>fb_uses := sadd (fb_uses f) 1\<rparr>"
  obtain g1 where g1: "ensure_feedback_asset ?i g = Some g1" "engine_inv g1" "bm_get (ae_feedback g1) ?i \<noteq> None"
    "ae_policy g1 = ae_policy g" "ae_retention g1 = ae_retention g"
    "\<And>j. feedback_of j g1 = feedback_of j g \<or> feedback_of j g1 = no_feedback"
    by (rule ensure_feedback_ok [OF assms, of ?i]) (rule that)
  obtain g2 where g2: "update_feedback ?i ?f g1 = Some g2" "engine_inv g2" "ae_policy g2 = ae_policy g1"
    "ae_retention g2 = ae_retention g1" "\<And>j. feedback_of j g2 = (if j = ?i then ?f (feedback_of ?i g1) else feedback_of j g1)"
    "bm_get (ae_feedback g2) ?i \<noteq> None"
    by (rule update_feedback_ok [OF g1(2,3), of ?f]) (rule that)
  obtain g3 where g3: "ensure_recent_group ?grp g2 = Some g3" "engine_inv g3" "bm_get (ae_recent g3) ?grp \<noteq> None"
    "ae_policy g3 = ae_policy g2" "ae_retention g3 = ae_retention g2" "ae_feedback g3 = ae_feedback g2"
    by (rule ensure_group_ok [OF g2(2), of ?grp]) (rule that)
  obtain h where h: "push_recent ?grp ?i g3 = Some h" "engine_inv h" "ae_policy h = ae_policy g3"
    "ae_retention h = ae_retention g3" "ae_feedback h = ae_feedback g3"
    by (rule push_recent_ok [OF g3(2,3), of ?i]) (use g2(6) g3(6) in simp, rule that)
  have cnt: "counts_within h j (u + (if ?i = j then 1 else 0)) p n" if c: "counts_within g j u p n" for j u p n
  proof -
    have hj: "feedback_of j h = (if j = ?i then ?f (feedback_of ?i g1) else feedback_of j g1)"
      using g2(5) [of j] by (simp add: feedback_of_def h(5) g3(6))
    have "counts_within g1 j u p n" by (rule counts_within_mono [OF g1(6) c])
    then show ?thesis using sadd_le [of "fb_uses (feedback_of j g1)" 1] by (auto simp: counts_within_def hj)
  qed
  have "record_use a g = Some h" using g1(1) g2(1) g3(1) h(1) by (simp add: record_use_def)
  moreover have "ae_policy h = ae_policy g" "ae_retention h = ae_retention g" using h(3,4) g3(4,5) g2(3,4) g1(4,5) by simp_all
  ultimately show thesis using h(2) by (intro that [of h] cnt) simp_all
qed

lemma record_quality_ok:
  assumes "engine_inv g"
  obtains h where "record_quality i b g = Some h" "engine_inv h" "ae_policy h = ae_policy g" "ae_retention h = ae_retention g"
    "\<And>j u p n. counts_within g j u p n \<Longrightarrow>
       counts_within h j u (p + (if i = j \<and> b then 1 else 0)) (n + (if i = j \<and> \<not> b then 1 else 0))"
proof -
  let ?f = "\<lambda>f. if b then f\<lparr>fb_positive := sadd (fb_positive f) 1\<rparr> else f\<lparr>fb_negative := sadd (fb_negative f) 1\<rparr>"
  obtain g1 where g1: "ensure_feedback_asset i g = Some g1" "engine_inv g1" "bm_get (ae_feedback g1) i \<noteq> None"
    "ae_policy g1 = ae_policy g" "ae_retention g1 = ae_retention g"
    "\<And>j. feedback_of j g1 = feedback_of j g \<or> feedback_of j g1 = no_feedback"
    by (rule ensure_feedback_ok [OF assms, of i]) (rule that)
  obtain h where h: "update_feedback i ?f g1 = Some h" "engine_inv h" "ae_policy h = ae_policy g1"
    "ae_retention h = ae_retention g1" "\<And>j. feedback_of j h = (if j = i then ?f (feedback_of i g1) else feedback_of j g1)"
    by (rule update_feedback_ok [OF g1(2,3), of ?f]) (rule that)
  have cnt: "counts_within h j u (p + (if i = j \<and> b then 1 else 0)) (n + (if i = j \<and> \<not> b then 1 else 0))"
    if c: "counts_within g j u p n" for j u p n
  proof -
    have "counts_within g1 j u p n" by (rule counts_within_mono [OF g1(6) c])
    then show ?thesis
      using sadd_le [of "fb_positive (feedback_of j g1)" 1] sadd_le [of "fb_negative (feedback_of j g1)" 1]
      by (auto simp: counts_within_def h(5))
  qed
  have "record_quality i b g = Some h" using g1(1) h(1) by (simp add: record_quality_def)
  moreover have "ae_policy h = ae_policy g" "ae_retention h = ae_retention g" using h(3,4) g1(4,5) by simp_all
  ultimately show thesis using h(2) by (intro that [of h] cnt) simp_all
qed

section \<open>Evaluation\<close>

lemma evaluate_cases:
  obtains (refused) e where "ensure_promotable lib a = Inl e" "evaluate lib a g = (Inl e, g)"
  | (decided) r h where "ensure_promotable lib a = Inr ()" "evaluate lib a g = (Inr r, h)" "h = push_decision r (g\<lparr>ae_sequence := sadd (ae_sequence g) 1\<rparr>)"
      "dr_decision r = fst (decide (ae_policy g) (feedback_of (pa_id a) g))" "dr_feedback r = feedback_of (pa_id a) g"
      "dr_asset_id r = pa_id a"
  by (cases "ensure_promotable lib a"; cases "decide (ae_policy g) (feedback_of (pa_id a) g)")
    (auto simp: evaluate_def Let_def intro: that)

lemma evaluate_ok:
  assumes "engine_inv g" "evaluate lib a g = (r, h)"
  shows "engine_inv h \<and> ae_policy h = ae_policy g \<and> ae_retention h = ae_retention g \<and> (\<forall>j. feedback_of j h = feedback_of j g)"
proof (cases rule: evaluate_cases [of lib a g])
  case (refused e)
  with assms show ?thesis by simp
next
  case (decided r' h')
  have "engine_inv (g\<lparr>ae_sequence := sadd (ae_sequence g) 1\<rparr>)"
    using assms(1) by (simp add: engine_inv_def recent_ok_def retention_ok_def)
  with decided(2,3) assms(2) show ?thesis by (auto simp: engine_inv_push feedback_of_def)
qed

section \<open>Application\<close>

type_synonym 'v adaptation_state = "adaptation_engine \<times> disk \<times> 'v asset_store"

definition state_inv :: "'v asset_lib \<Rightarrow> 'v adaptation_state \<Rightarrow> bool" where
  "state_inv lib x \<longleftrightarrow> engine_inv (fst x) \<and> store_inv lib (snd (snd x))"

lemma counts_within_drop: "drops_asset v g h \<Longrightarrow> counts_within g j u p n \<Longrightarrow> counts_within h j u p n"
  using drops_asset_feedback [of v g h j] by (auto simp: counts_within_def no_feedback_def)

text \<open>The outcomes of an application, each with the state it leaves.\<close>

lemma apply_cases:
  assumes "apply_adaptation lib i (g, d, s) = (res, g', d', s')"
  obtains (unchanged) "g' = g" "d' = d" "s' = snd (hot_get i s)" "isl res"
  | (kept) a r where "hot_get i s = (Some a, s')" "evaluate lib a g = (Inr r, g')" "d' = d" "res = Inr AA_KeptHot"
      "dr_decision r = AD_KeepHot"
  | (promoted) a r q where "hot_get i s = (Some a, snd (hot_get i s))" "evaluate lib a g = (Inr r, g')" "dr_decision r = AD_Promote"
      "persist_generated_descriptor lib i d (snd (hot_get i s)) = (q, d', s')" "res = map_sum AE_AssetStore AA_Promoted q"
  | (invalidated) a r q h where "hot_get i s = (Some a, snd (hot_get i s))" "evaluate lib a g = (Inr r, h)" "dr_decision r = AD_Invalidate"
      "invalidate_generated_asset lib i d (snd (hot_get i s)) = (q, d', s')" "res = map_sum AE_AssetStore (\<lambda>_. AA_Invalidated) q"
      "g' = (if isl q then h else forget_asset i h)"
proof -
  obtain found s1 where h: "hot_get i s = (found, s1)" by (cases "hot_get i s")
  show thesis
  proof (cases found)
    case None
    with assms h show thesis by (intro unchanged) (auto simp: apply_adaptation_def)
  next
    case (Some a)
    show thesis
    proof (cases rule: evaluate_cases [of lib a g])
      case (refused e)
      with Some assms h show thesis by (intro unchanged) (auto simp: apply_adaptation_def)
    next
      case (decided r g1)
      show thesis
      proof (cases "dr_decision r")
        case AD_KeepHot
        with Some decided(2) assms h show thesis by (intro kept [of a r]) (auto simp: apply_adaptation_def)
      next
        case AD_Promote
        obtain q d2 s2 where q: "persist_generated_descriptor lib i d s1 = (q, d2, s2)" by (metis prod_cases3)
        with Some decided(2) AD_Promote assms h show thesis
          by (intro promoted [of a r q]) (cases q; auto simp: apply_adaptation_def)+
      next
        case AD_Invalidate
        obtain q d2 s2 where q: "invalidate_generated_asset lib i d s1 = (q, d2, s2)" by (metis prod_cases3)
        with Some decided(2) AD_Invalidate assms h show thesis
          by (intro invalidated [of a r g1 q]) (cases q; auto simp: apply_adaptation_def)+
      qed
    qed
  qed
qed

lemma apply_ok:
  assumes "engine_inv g" "store_inv lib s" "apply_adaptation lib i (g, d, s) = (res, g', d', s')"
  shows "engine_inv g' \<and> store_inv lib s' \<and> ae_policy g' = ae_policy g \<and> ae_retention g' = ae_retention g \<and>
    (\<forall>j u p n. counts_within g j u p n \<longrightarrow> counts_within g' j u p n)"
  using assms(3)
proof (cases rule: apply_cases)
  case unchanged
  with assms(1,2) show ?thesis by (simp add: store_inv_hot_get)
next
  case (kept a r)
  with evaluate_ok [OF assms(1) kept(2)] store_inv_hot_get [OF assms(2), of i] show ?thesis
    by (auto simp: counts_within_def)
next
  case (promoted a r q)
  with evaluate_ok [OF assms(1) promoted(2)] store_inv_persist [OF store_inv_hot_get [OF assms(2)] promoted(4)] show ?thesis
    by (auto simp: counts_within_def)
next
  case (invalidated a r q h)
  note ev = evaluate_ok [OF assms(1) invalidated(2)]
  have s': "store_inv lib s'" by (rule store_inv_invalidate [OF store_inv_hot_get [OF assms(2)] invalidated(4)])
  have c: "counts_within g j u p n \<Longrightarrow> counts_within h j u p n" for j u p n using ev by (simp add: counts_within_def)
  show ?thesis
  proof (cases "isl q")
    case True
    with ev s' c invalidated(6) show ?thesis by simp
  next
    case False
    then have g': "drops_asset i h g'" using forget_asset_drops [of i h] invalidated(6) by simp
    moreover from this have "ae_policy g' = ae_policy h" "ae_retention g' = ae_retention h" by (simp_all add: drops_asset_def)
    ultimately show ?thesis using ev s' c engine_inv_drop [OF _ g'] counts_within_drop [OF g'] by auto
  qed
qed

end
