(* ===== verification/Feedback_Claims.thy ===== *)
theory Feedback_Claims
  imports Feedback_Sys Asset_Claims
begin

text \<open>
  The properties of the promotion scoring (\<open>crates/adaptation/src/lib.rs\<close>) over runs of the engine and
  the asset store, with a small run on which their hypotheses hold.
\<close>

section \<open>Runs\<close>

datatype 'v feedback_op =
  FO_Use "'v performance_asset"
| FO_Quality string bool
| FO_Evaluate "'v performance_asset"
| FO_Apply string
| FO_Store "'v asset_op"

fun feedback_exec :: "'v asset_lib \<Rightarrow> 'v feedback_op \<Rightarrow> 'v adaptation_state \<Rightarrow> 'v adaptation_state option" where
  "feedback_exec lib (FO_Use a) (g, x) = map_option (\<lambda>h. (h, x)) (record_use a g)"
| "feedback_exec lib (FO_Quality i b) (g, x) = map_option (\<lambda>h. (h, x)) (record_quality i b g)"
| "feedback_exec lib (FO_Evaluate a) (g, x) = Some (snd (evaluate lib a g), x)"
| "feedback_exec lib (FO_Apply i) (g, x) = Some (snd (apply_adaptation lib i (g, x)))"
| "feedback_exec lib (FO_Store op) (g, x) = Some (g, asset_exec lib op x)"

fun feedback_run :: "'v asset_lib \<Rightarrow> 'v feedback_op list \<Rightarrow> 'v adaptation_state \<Rightarrow> 'v adaptation_state option" where
  "feedback_run lib [] x = Some x"
| "feedback_run lib (op # ops) x = Option.bind (feedback_exec lib op x) (feedback_run lib ops)"

inductive feedback_step :: "'v asset_lib \<Rightarrow> 'v adaptation_state \<Rightarrow> 'v adaptation_state \<Rightarrow> bool" for lib where
  exec: "feedback_exec lib op x = Some y \<Longrightarrow> feedback_step lib x y"

definition feedback_init :: "'v adaptation_state \<Rightarrow> bool" where
  "feedback_init x \<longleftrightarrow> (\<exists>p v seed r base rt. engine_with_retention p v seed r = Inr (fst x) \<and> snd (snd x) = asset_store_new base rt)"

text \<open>How often a run records a use, a positive and a negative label of an asset.\<close>

definition uses_in :: "string \<Rightarrow> 'v feedback_op list \<Rightarrow> nat" where
  "uses_in j ops = length (filter (\<lambda>op. case op of FO_Use a \<Rightarrow> pa_id a = j | _ \<Rightarrow> False) ops)"

definition labels_in :: "string \<Rightarrow> bool \<Rightarrow> 'v feedback_op list \<Rightarrow> nat" where
  "labels_in j b ops = length (filter (\<lambda>op. case op of FO_Quality i c \<Rightarrow> i = j \<and> c = b | _ \<Rightarrow> False) ops)"

lemma counted_here:
  "uses_in j [FO_Use a] = (if pa_id a = j then 1 else 0)" "labels_in j b [FO_Use a] = 0"
  "uses_in j [FO_Quality i c] = 0" "labels_in j b [FO_Quality i c] = (if i = j \<and> c = b then 1 else 0)"
  by (simp_all add: uses_in_def labels_in_def)

lemma feedback_exec_ok:
  assumes "state_inv lib x"
  shows "\<exists>y. feedback_exec lib op x = Some y \<and> state_inv lib y \<and> ae_policy (fst y) = ae_policy (fst x) \<and>
    ae_retention (fst y) = ae_retention (fst x) \<and>
    (\<forall>j u p n. counts_within (fst x) j u p n \<longrightarrow>
       counts_within (fst y) j (u + uses_in j [op]) (p + labels_in j True [op]) (n + labels_in j False [op]))"
proof -
  obtain g d s where x: "x = (g, d, s)" by (cases x) auto
  then have i: "engine_inv g" "store_inv lib s" using assms by (simp_all add: state_inv_def)
  show ?thesis
  proof (cases op)
    case (FO_Use a)
    show ?thesis
      by (rule record_use_ok [OF i(1), of a]) (simp add: FO_Use x i(2) state_inv_def counted_here split del: if_split)
  next
    case (FO_Quality k b)
    show ?thesis
      by (rule record_quality_ok [OF i(1), of k b]) (cases b; simp add: FO_Quality x i(2) state_inv_def counted_here split del: if_split)
  next
    case (FO_Evaluate a)
    obtain r h where r: "evaluate lib a g = (r, h)" by (cases "evaluate lib a g")
    have e: "feedback_exec lib op x = Some (h, d, s)" by (simp add: FO_Evaluate x r)
    have "uses_in j [op] = 0" "labels_in j b [op] = 0" for j b by (simp_all add: FO_Evaluate uses_in_def labels_in_def)
    with evaluate_ok [OF i(1) r] i(2) e show ?thesis
      by (intro exI [of _ "(h, d, s)"]) (simp add: x state_inv_def counts_within_def)
  next
    case (FO_Apply k)
    obtain res g' d' s' where r: "apply_adaptation lib k (g, d, s) = (res, g', d', s')" by (cases "apply_adaptation lib k (g, d, s)") auto
    have e: "feedback_exec lib op x = Some (g', d', s')" by (simp add: FO_Apply x r)
    have "uses_in j [op] = 0" "labels_in j b [op] = 0" for j b by (simp_all add: FO_Apply uses_in_def labels_in_def)
    with apply_ok [OF i r] e show ?thesis by (intro exI [of _ "(g', d', s')"]) (simp add: x state_inv_def)
  next
    case (FO_Store so)
    with x i asset_exec_inv [of lib "(d, s)" so] show ?thesis by (simp add: state_inv_def uses_in_def labels_in_def)
  qed
qed

interpretation feedback_sys: step_invariant feedback_init "feedback_step lib" "state_inv lib" for lib
proof
  fix x y :: "'a adaptation_state" and lib :: "'a asset_lib"
  show "feedback_init x \<Longrightarrow> state_inv lib x"
    by (auto simp: feedback_init_def state_inv_def intro: engine_inv_new) (simp add: store_inv_new)
  show "state_inv lib x \<Longrightarrow> feedback_step lib x y \<Longrightarrow> state_inv lib y"
    by (elim feedback_step.cases) (metis feedback_exec_ok option.inject)
qed

lemma uses_in_Cons: "uses_in j (op # ops) = uses_in j [op] + uses_in j ops"
  by (simp add: uses_in_def)

lemma labels_in_Cons: "labels_in j b (op # ops) = labels_in j b [op] + labels_in j b ops"
  by (simp add: labels_in_def)

lemma feedback_run_ok:
  "state_inv lib x \<Longrightarrow> \<exists>y. feedback_run lib ops x = Some y \<and> state_inv lib y \<and> ae_policy (fst y) = ae_policy (fst x) \<and>
    ae_retention (fst y) = ae_retention (fst x) \<and>
    (\<forall>j u p n. counts_within (fst x) j u p n \<longrightarrow>
       counts_within (fst y) j (u + uses_in j ops) (p + labels_in j True ops) (n + labels_in j False ops))"
proof (induction ops arbitrary: x)
  case Nil
  then show ?case by (simp add: uses_in_def labels_in_def)
next
  case (Cons op ops)
  obtain z where z: "feedback_exec lib op x = Some z" "state_inv lib z" "ae_policy (fst z) = ae_policy (fst x)"
    "ae_retention (fst z) = ae_retention (fst x)"
    "\<And>j u p n. counts_within (fst x) j u p n \<Longrightarrow>
       counts_within (fst z) j (u + uses_in j [op]) (p + labels_in j True [op]) (n + labels_in j False [op])"
    using feedback_exec_ok [OF Cons(2), of op] by blast
  obtain y where y: "feedback_run lib ops z = Some y" "state_inv lib y" "ae_policy (fst y) = ae_policy (fst z)"
    "ae_retention (fst y) = ae_retention (fst z)"
    "\<And>j u p n. counts_within (fst z) j u p n \<Longrightarrow>
       counts_within (fst y) j (u + uses_in j ops) (p + labels_in j True ops) (n + labels_in j False ops)"
    using Cons(1) [OF z(2)] by blast
  have "counts_within (fst y) j (u + uses_in j (op # ops)) (p + labels_in j True (op # ops)) (n + labels_in j False (op # ops))"
    if "counts_within (fst x) j u p n" for j u p n
    using y(5) [OF z(5) [OF that]] by (simp only: uses_in_Cons [of j op ops] labels_in_Cons [of j _ op ops] add.assoc)
  then show ?case using z(1,3,4) y(1-4) by simp
qed

section \<open>Retention\<close>

lemma table_ok_keys: "table_ok cap m t \<Longrightarrow> bm_keys t = bm_keys m"
  by (auto simp: table_ok_def bm_ok_def bm_keys_def intro: strict_sorted_equal)

text \<open>
  Whatever sequence of uses, labels, evaluations, applications and store operations runs on a fresh
  engine and store, no \<open>expect\<close> fails, and every table of the engine respects its configured bound and has a
  touch record for exactly its keys, so has every high-water mark; the recent ids of a group fit the
  window and are ids with feedback.
\<close>

theorem scoring_never_panics:
  assumes "engine_with_retention p v seed r = Inr g"
  shows "\<exists>g' d' s'. feedback_run lib ops (g, d, asset_store_new base rt) = Some (g', d', s') \<and>
    length (ae_feedback g') \<le> arc_max_feedback_assets r \<and> length (ae_recent g') \<le> arc_max_recent_groups r \<and>
    length (ae_decisions g') \<le> arc_max_decisions r \<and>
    ae_feedback_high_water g' \<le> arc_max_feedback_assets r \<and> ae_recent_high_water g' \<le> arc_max_recent_groups r \<and>
    ae_decisions_high_water g' \<le> arc_max_decisions r \<and>
    bm_keys (ae_feedback_touch g') = bm_keys (ae_feedback g') \<and> bm_keys (ae_recent_touch g') = bm_keys (ae_recent g') \<and>
    (\<forall>(grp, ids)\<in>set (ae_recent g'). length ids \<le> py_recent_variant_window p \<and> set ids \<subseteq> set (bm_keys (ae_feedback g')))"
proof -
  have g: "engine_inv g" "ae_retention g = r" "ae_policy g = p"
    using engine_inv_new [OF assms] assms
    by (auto simp: engine_with_retention_def rbind_def promotion_policy_validate_def split: sum.splits if_splits)
  have x: "state_inv lib (g, d, asset_store_new base rt)" using g(1) by (simp add: state_inv_def store_inv_new)
  from feedback_run_ok [OF x, of ops] obtain g' d' s' where y:
    "feedback_run lib ops (g, d, asset_store_new base rt) = Some (g', d', s')" "engine_inv g'" "ae_policy g' = p" "ae_retention g' = r"
    using g(2,3) by (auto simp: state_inv_def)
  then have "bm_keys (ae_feedback_touch g') = bm_keys (ae_feedback g')" "bm_keys (ae_recent_touch g') = bm_keys (ae_recent g')"
    by (auto simp: engine_inv_def dest: table_ok_keys)
  moreover have "retention_ok g'" "recent_ok g'" using y(2) by (simp_all add: engine_inv_def)
  moreover have "set (bm_keys (ae_feedback g')) = fst ` set (ae_feedback g')" by (simp add: bm_keys_def)
  ultimately show ?thesis using y(1,3,4)
    by (intro exI [of _ g'] exI [of _ d'] exI [of _ s'])
      (simp only: recent_ok_def retention_ok_def simp_thms, linarith)
qed

definition demo_promotion_policy :: promotion_policy where
  "demo_promotion_policy =
     \<lparr>py_min_uses = 1, py_min_quality_labels = 1, py_min_quality_ratio = Fin 1, py_invalidate_after_negative_labels = 1,
      py_recent_variant_window = 1\<rparr>"

definition demo_engine_retention :: adaptation_retention_config where
  "demo_engine_retention = \<lparr>arc_max_feedback_assets = 1, arc_max_recent_groups = 1, arc_max_decisions = 1\<rparr>"

definition demo_engine :: adaptation_engine where
  "demo_engine =
     \<lparr>ae_policy = demo_promotion_policy, ae_policy_version = ''v1'', ae_seed = 3, ae_sequence = 0,
      ae_retention = demo_engine_retention, ae_feedback = [], ae_feedback_touch = [], ae_recent = [], ae_recent_touch = [],
      ae_decisions = [], ae_next_touch = 0, ae_feedback_high_water = 0, ae_feedback_evicted = 0, ae_recent_high_water = 0,
      ae_recent_evicted = 0, ae_decisions_high_water = 0, ae_decisions_evicted = 0\<rparr>"

lemma demo_engine_new: "engine_with_retention demo_promotion_policy ''v1'' 3 demo_engine_retention = Inr demo_engine"
proof -
  have "\<not> trim_is_empty ''v1''" by code_simp
  then show ?thesis
    by (simp add: engine_with_retention_def rbind_def promotion_policy_validate_def demo_promotion_policy_def
        demo_engine_retention_def demo_engine_def)
qed

text \<open>The second use of another asset evicts the feedback of the first.\<close>

definition demo_feedback_ops :: "nat feedback_op list" where
  "demo_feedback_ops =
     [FO_Store (AO_Insert demo_generated), FO_Quality ''zz'' False, FO_Use demo_generated, FO_Quality ''ab0'' True]"

theorem scoring_never_panics_witness:
  "\<exists>g' d' s'. feedback_run demo_asset_lib demo_feedback_ops (demo_engine, [], demo_store0) = Some (g', d', s') \<and>
     length (ae_feedback g') \<le> 1"
  using scoring_never_panics [OF demo_engine_new, of demo_asset_lib demo_feedback_ops "[]" "''assets''" demo_runtime]
  by (auto simp: demo_engine_retention_def demo_store0_def)

section \<open>Promotion\<close>

text \<open>
  C36. A promotion is earned: when an application writes a file, then the run before it recorded at least
  the policy's number of uses of that asset and of quality labels, the feedback it decided on claims no
  more uses or labels than the run recorded, has fewer negative labels than invalidate it and a quality
  ratio above the threshold, and what is written to the new file is the serialized resident, which is
  valid, generated and compatible with the runtime.
\<close>

theorem promotion_is_earned:
  assumes "engine_with_retention p v seed r = Inr g0"
    and "feedback_run lib ops (g0, d0, asset_store_new base rt) = Some (g, d, s)"
    and "apply_adaptation lib i (g, d, s) = (Inr (AA_Promoted path), g', d', s')"
  shows "\<exists>f a bytes q. fb_uses f \<le> uses_in i ops \<and> fb_positive f \<le> labels_in i True ops \<and> fb_negative f \<le> labels_in i False ops \<and>
    py_min_uses p \<le> fb_uses f \<and> py_min_quality_labels p \<le> fb_positive f + fb_negative f \<and>
    fb_negative f < py_invalidate_after_negative_labels p \<and>
    quality_ratio f = Some q \<and> f64_le (py_min_quality_ratio p) q \<and>
    bm_get (as_hot s) i = Some a \<and> pa_id a = i \<and> validate_asset a = Inr () \<and> is_generated a \<and>
    check_compatibility (pa_compatibility a) (as_runtime s) = CS_Usable \<and>
    path = destination_path i s \<and> alb_pretty lib a = Inr bytes \<and> bm_get d path = None \<and> bm_get d' path = Some bytes"
proof -
  have g0: "engine_inv g0" "ae_policy g0 = p" "counts_within g0 i 0 0 0"
    using engine_inv_new [OF assms(1)] assms(1)
    by (auto simp: engine_with_retention_def rbind_def promotion_policy_validate_def counts_within_def feedback_of_def
        no_feedback_def split: sum.splits if_splits)
  have x: "state_inv lib (g0, d0, asset_store_new base rt)" using g0(1) by (simp add: state_inv_def store_inv_new)
  have g: "engine_inv g" "store_inv lib s" "ae_policy g = p"
    and c: "counts_within g i (uses_in i ops) (labels_in i True ops) (labels_in i False ops)"
    using feedback_run_ok [OF x, of ops] assms(2) g0(2,3) by (force simp: state_inv_def)+
  let ?f = "feedback_of i g"
  from assms(3) show ?thesis
  proof (cases rule: apply_cases)
    case (promoted a rc q)
    then obtain w where w: "persist_generated_descriptor lib i d (snd (hot_get i s)) = (Inr w, d', s')" "path = w" by (cases q) auto
    have a: "pa_id a = i" "playable (as_runtime s) a" using hot_get_own_id [OF g(2) promoted(1)] by auto
    have hot: "bm_get (as_hot s) i = Some a" using hot_get_result [of i s] promoted(1) by (metis fst_conv)
    have dec: "fst (decide p ?f) = AD_Promote"
      using promoted(2,3) g(3) by (cases rule: evaluate_cases [of lib a g]) (auto simp: a(1))
    have same: "destination_path i (snd (hot_get i s)) = destination_path i s" "as_hot (snd (hot_get i s)) = as_hot s"
      using hot_get_same [of s i] by (simp_all add: same_content_def destination_path_def)
    show ?thesis
    proof (cases rule: persist_cases [of lib i d "snd (hot_get i s)"])
      case (failed e d2)
      with w show ?thesis by simp
    next
      case (written b bytes d2)
      have "b = a" "path = destination_path i s" "d' = d2" using written(1,2) w hot same by simp_all
      moreover have "bm_get d2 (destination_path i (snd (hot_get i s))) = Some bytes"
        using write_descriptor_effect [OF written(7) temporary_not_destination] by simp
      moreover have "py_min_quality_labels p \<le> fb_positive ?f + fb_negative ?f \<and> py_min_uses p \<le> fb_uses ?f \<and>
          fb_negative ?f < py_invalidate_after_negative_labels p \<and> (\<exists>q. quality_ratio ?f = Some q \<and> f64_le (py_min_quality_ratio p) q)"
        using dec sadd_le [of "fb_positive ?f" "fb_negative ?f"] by (auto simp: decide_def split: if_splits option.splits)
      ultimately show ?thesis
        using c a hot same written(3,5,6) by (auto simp: counts_within_def playable_def validate_asset_def)
    qed
  next
    case (invalidated a rc q h)
    then show ?thesis by (cases q) simp_all
  qed auto
qed

text \<open>One use and one positive label of the resident reach the thresholds of the example.\<close>

definition demo_feedback :: asset_feedback where
  "demo_feedback = \<lparr>fb_uses = 1, fb_positive = 1, fb_negative = 0\<rparr>"

definition demo_scored_ops :: "nat feedback_op list" where
  "demo_scored_ops = [FO_Store (AO_Insert demo_generated), FO_Use demo_generated, FO_Quality ''ab0'' True]"

lemma demo_ratio: "quality_ratio demo_feedback = Some (Fin 1)"
proof -
  have "f64_of_nat 1 = Fin 1" using f64_round_exact [OF representable_nat [of 1]] by (simp add: f64_of_nat_def)
  moreover have "f64_round 1 = Fin 1" using f64_round_exact [OF representable_nat [of 1]] by simp
  moreover have "sadd 1 0 = 1" by code_simp
  ultimately show ?thesis by (simp add: quality_ratio_def demo_feedback_def)
qed

definition demo_scored_engine :: adaptation_engine where
  "demo_scored_engine = demo_engine\<lparr>ae_feedback := [(''ab0'', demo_feedback)], ae_feedback_touch := [(''ab0'', 2)],
     ae_recent := [(''g'', [''ab0''])], ae_recent_touch := [(''g'', 1)], ae_next_touch := 3, ae_feedback_high_water := 1,
     ae_recent_high_water := 1\<rparr>"

lemma demo_scored:
  "feedback_run demo_asset_lib demo_scored_ops (demo_engine, [], demo_store0) = Some (demo_scored_engine, [], demo_store1)"
  "feedback_of ''ab0'' demo_scored_engine = demo_feedback" "ae_policy demo_scored_engine = demo_promotion_policy"
proof -
  have v: "pa_id demo_generated = ''ab0''" "use_group demo_generated = ''g''" by code_simp+
  have n: "sadd 0 (Suc 0) = 1" "sadd (Suc 0) (Suc 0) = 2" "sadd 2 (Suc 0) = 3" by code_simp+
  show "feedback_run demo_asset_lib demo_scored_ops (demo_engine, [], demo_store0) = Some (demo_scored_engine, [], demo_store1)"
    by (simp add: demo_scored_ops_def demo_store1_def record_use_def record_quality_def ensure_feedback_asset_def
        ensure_recent_group_def next_touch_tick_def update_feedback_def push_recent_def demo_engine_def demo_engine_retention_def
        demo_feedback_def no_feedback_def demo_scored_engine_def demo_promotion_policy_def keep_last_def bm_get_def v n)
qed (simp_all add: demo_scored_engine_def feedback_of_def bm_get_def demo_engine_def)

theorem promotion_is_earned_witness:
  "\<exists>g x. feedback_run demo_asset_lib demo_scored_ops (demo_engine, [], demo_store0) = Some (g, [], demo_store1) \<and>
     apply_adaptation demo_asset_lib ''ab0'' (g, [], demo_store1) = (Inr (AA_Promoted ''assets/ab0.json''), x) \<and>
     py_min_uses demo_promotion_policy \<le> uses_in ''ab0'' demo_scored_ops"
proof -
  let ?g = demo_scored_engine
  note g = demo_scored
  have v: "fst (hot_get ''ab0'' demo_store1) = Some demo_generated" "pa_id demo_generated = ''ab0''"
    "ensure_promotable demo_asset_lib demo_generated = Inr ()"
    "fst (persist_generated_descriptor demo_asset_lib ''ab0'' [] (snd (hot_get ''ab0'' demo_store1))) = Inr ''assets/ab0.json''"
    by code_simp+
  have "fst (decide demo_promotion_policy demo_feedback) = AD_Promote"
    using demo_ratio by (simp add: decide_def demo_promotion_policy_def) (simp add: demo_feedback_def sadd_def u64_max_def)
  then obtain r h where r: "evaluate demo_asset_lib demo_generated ?g = (Inr r, h)" "dr_decision r = AD_Promote"
    using v(2,3) g(2,3) by (cases rule: evaluate_cases [of demo_asset_lib demo_generated ?g]) auto
  obtain x where x: "apply_adaptation demo_asset_lib ''ab0'' (?g, [], demo_store1) = (Inr (AA_Promoted ''assets/ab0.json''), x)"
    using v(1,4) r by (simp add: apply_adaptation_def split_beta)
  obtain g' d' s' where "x = (g', d', s')" by (cases x) auto
  with promotion_is_earned [OF demo_engine_new, of demo_asset_lib demo_scored_ops "[]" "''assets''" demo_runtime ?g "[]" demo_store1 "''ab0''"]
    g(1) x show ?thesis by (auto simp: demo_store0_def)
qed

section \<open>Selection\<close>

interpretation id_order: comparator "\<lambda>l r. pa_id l < pa_id (r :: 'v performance_asset)"
  by unfold_locales auto

lemma sorted_by_id_unique:
  fixes xs ys :: "'v performance_asset list"
  assumes "mset xs = mset ys" "distinct (map pa_id xs)"
  shows "sort_by (\<lambda>l r. pa_id l < pa_id r) xs = sort_by (\<lambda>l r. pa_id l < pa_id r) ys" (is "?x = ?y")
proof -
  have m: "mset (map pa_id ?x) = mset (map pa_id xs)" "mset (map pa_id ?y) = mset (map pa_id xs)" using assms(1) by simp_all
  have d: "distinct (map pa_id ?x)" "distinct (map pa_id ?y)"
    using mset_eq_imp_distinct_iff [OF m(1)] mset_eq_imp_distinct_iff [OF m(2)] assms(2) by simp_all
  have o: "sorted (map pa_id ?x)" "sorted (map pa_id ?y)"
    using id_order.sorted_sort [of xs] id_order.sorted_sort [of ys] by (simp_all add: sorted_wrt_map linorder_not_less)
  have s: "set ?x = set xs" "set ?y = set xs" using mset_eq_setD [OF assms(1)] by simp_all
  have "map pa_id ?x = map pa_id ?y" by (rule sorted_distinct_set_unique [OF o(1) d(1) o(2) d(2)]) (simp add: s del: set_sort_by)
  moreover have "inj_on pa_id (set ?x \<union> set ?y)" using assms(2) by (simp add: distinct_map s del: set_sort_by)
  ultimately show ?thesis by (simp only: inj_on_map_eq_map)
qed

text \<open>The candidates the choice is made from.\<close>

definition picks :: "string \<Rightarrow> 'v performance_asset list \<Rightarrow> adaptation_engine \<Rightarrow> 'v performance_asset list" where
  "picks grp cs g =
     (let fresh = filter (\<lambda>a. pa_variant_group a = Some grp \<and>
                    (case bm_get (ae_recent g) grp of None \<Rightarrow> True | Some r \<Rightarrow> pa_id a \<notin> set r)) cs
      in if fresh = [] then filter (\<lambda>a. pa_variant_group a = Some grp) cs else fresh)"

lemma sort_by_empty: "sort_by lt xs = [] \<longleftrightarrow> xs = []"
  by (metis length_0_conv length_sort_by)

lemma select_candidate_picks:
  "select_candidate grp cs ev g =
     (if picks grp cs g = [] then None
      else Some (sort_by (\<lambda>l r. pa_id l < pa_id r) (picks grp cs g) !
                 stable_index ((ae_seed g + ev) mod 2 ^ 64) grp (length (picks grp cs g))))"
proof -
  have i: "stable_index n grp k < k" if "0 < k" for n k using that by (simp add: stable_index_def)
  show ?thesis
  proof (cases "cs = []")
    case False
    then have "select_candidate grp cs ev g =
        (let p = sort_by (\<lambda>l r. pa_id l < pa_id r) (picks grp cs g) in
         if p = [] then None
         else let i = stable_index ((ae_seed g + ev) mod 2 ^ 64) grp (length p) in if i < length p then Some (p ! i) else None)"
      unfolding select_candidate_def picks_def by (simp add: Let_def cong: option.case_cong)
    with i [of "length (picks grp cs g)"] show ?thesis by (simp add: Let_def sort_by_empty)
  qed (simp add: select_candidate_def picks_def)
qed

lemma picks_sub: "a \<in> set (picks grp cs g) \<Longrightarrow> a \<in> set cs \<and> pa_variant_group a = Some grp"
  by (auto simp: picks_def Let_def split: if_splits)

lemma picks_none: "picks grp cs g = [] \<longleftrightarrow> (\<forall>a\<in>set cs. pa_variant_group a \<noteq> Some grp)"
  by (auto simp: picks_def Let_def filter_empty_conv)

lemma picks_recent:
  "a \<in> set (picks grp cs g) \<Longrightarrow> bm_get (ae_recent g) grp = Some r \<Longrightarrow> pa_id a \<in> set r \<Longrightarrow> b \<in> set cs \<Longrightarrow>
     pa_variant_group b = Some grp \<Longrightarrow> pa_id b \<in> set r"
  by (auto simp: picks_def Let_def filter_empty_conv split: if_splits)

lemma picks_mset: "mset cs = mset cs' \<Longrightarrow> mset (picks grp cs g) = mset (picks grp cs' g)"
proof -
  assume "mset cs = mset cs'"
  then have f: "mset (filter P cs) = mset (filter P cs')" for P by simp
  then have "filter P cs = [] \<longleftrightarrow> filter P cs' = []" for P by (metis mset_zero_iff)
  with f show ?thesis by (simp only: picks_def Let_def split: if_split) blast
qed

text \<open>
  Selection is a function of the set of candidates: for candidates with distinct ids the order in which
  they are listed does not matter; a candidate is selected exactly when one belongs to the group, the
  selected one belongs to it, and it was used recently only when every candidate of the group was.
\<close>

theorem selection_ignores_order:
  assumes "distinct (map pa_id cs)" "mset cs = mset cs'"
  shows "select_candidate grp cs ev g = select_candidate grp cs' ev g \<and>
    (select_candidate grp cs ev g = None \<longleftrightarrow> (\<forall>a\<in>set cs. pa_variant_group a \<noteq> Some grp)) \<and>
    (\<forall>a r. select_candidate grp cs ev g = Some a \<longrightarrow> a \<in> set cs \<and> pa_variant_group a = Some grp \<and>
       (bm_get (ae_recent g) grp = Some r \<and> pa_id a \<in> set r \<longrightarrow>
          (\<forall>b\<in>set cs. pa_variant_group b = Some grp \<longrightarrow> pa_id b \<in> set r)))"
proof -
  note m = picks_mset [OF assms(2), of grp g]
  have "distinct (map pa_id (picks grp cs g))" using assms(1) by (auto simp: picks_def Let_def distinct_map_filter)
  then have "sort_by (\<lambda>l r. pa_id l < pa_id r) (picks grp cs g) = sort_by (\<lambda>l r. pa_id l < pa_id r) (picks grp cs' g)"
    by (rule sorted_by_id_unique [OF m])
  moreover have "length (picks grp cs g) = length (picks grp cs' g)" "picks grp cs g = [] \<longleftrightarrow> picks grp cs' g = []"
    using m by (metis size_mset, metis mset_zero_iff)
  ultimately have same: "select_candidate grp cs ev g = select_candidate grp cs' ev g"
    unfolding select_candidate_picks by presburger
  have mem: "a \<in> set (picks grp cs g)" if "select_candidate grp cs ev g = Some a" for a
  proof -
    from that have "picks grp cs g \<noteq> []" "a = sort_by (\<lambda>l r. pa_id l < pa_id r) (picks grp cs g) !
        stable_index ((ae_seed g + ev) mod 2 ^ 64) grp (length (picks grp cs g))"
      unfolding select_candidate_picks by (auto split: if_splits)
    then have "a \<in> set (sort_by (\<lambda>l r. pa_id l < pa_id r) (picks grp cs g))" by (simp add: stable_index_def del: set_sort_by)
    then show ?thesis by simp
  qed
  have "select_candidate grp cs ev g = None \<longleftrightarrow> picks grp cs g = []" unfolding select_candidate_picks by simp
  with same picks_none [of grp cs g] picks_sub [OF mem] picks_recent [OF mem] show ?thesis by blast
qed

theorem selection_ignores_order_witness:
  "select_candidate ''g'' [demo_asset ''ab2'' None, demo_asset ''ab1'' None] 4 demo_engine =
   select_candidate ''g'' [demo_asset ''ab1'' None, demo_asset ''ab2'' None] 4 demo_engine"
  using selection_ignores_order [of "[demo_asset ''ab2'' None, demo_asset ''ab1'' None]" "[demo_asset ''ab1'' None, demo_asset ''ab2'' None]"
    "''g''" 4 demo_engine] by (simp add: demo_asset_def add_mset_commute)

end
