(* ===== verification/Domain_Context.thy ===== *)
theory Domain_Context
  imports Memory_Model
begin

text \<open>
  The bounded requests of the deciding and the thinking side (\<open>crates/domain/src/context.rs\<close>), the reflex
  decision (\<open>crates/domain/src/reflex.rs\<close>) and the interaction deadline (\<open>crates/domain/src/deadline.rs\<close>,
  \<open>crates/app/src/deadline.rs\<close>), with their validation.
\<close>

section \<open>Labels and ranges\<close>

definition REFLEX_REQUEST_SCHEMA_VERSION :: string where
  "REFLEX_REQUEST_SCHEMA_VERSION = ''0.1.0''"
definition REFLEX_CONTEXT_SCHEMA_VERSION :: string where
  "REFLEX_CONTEXT_SCHEMA_VERSION = ''0.1.0''"
definition THINKING_REQUEST_SCHEMA_VERSION :: string where
  "THINKING_REQUEST_SCHEMA_VERSION = ''0.1.0''"
definition MAX_SNAPSHOT_STRING_BYTES :: nat where
  "MAX_SNAPSHOT_STRING_BYTES = 256"
definition MAX_RECENT_ITEMS :: nat where
  "MAX_RECENT_ITEMS = 8"
definition MAX_RETRIEVAL_CANDIDATES :: nat where
  "MAX_RETRIEVAL_CANDIDATES = 8"
definition MAX_THINKING_CONTEXT_ITEMS :: nat where
  "MAX_THINKING_CONTEXT_ITEMS = 12"
definition MAX_THINKING_TEXT_BYTES :: nat where
  "MAX_THINKING_TEXT_BYTES = 4 * 1024"
definition MAX_THINKING_CONTEXT_BYTES :: nat where
  "MAX_THINKING_CONTEXT_BYTES = 8 * 1024"

definition validate_label :: "string \<Rightarrow> string \<Rightarrow> domain_error + unit" where
  "validate_label field v =
     (if v = [] \<or> MAX_SNAPSHOT_STRING_BYTES < length v
      then Inl (domain_error_new field (''must contain 1..='' @ show_nat MAX_SNAPSHOT_STRING_BYTES @ '' UTF-8 bytes''))
      else Inr ())"

definition validate_optional_label :: "string \<Rightarrow> string option \<Rightarrow> domain_error + unit" where
  "validate_optional_label field v = (case v of None \<Rightarrow> Inr () | Some s \<Rightarrow> validate_label field s)"

text \<open>The bounds are whole numbers, so \<open>Display\<close> prints them as integers.\<close>

definition show_int :: "int \<Rightarrow> string" where
  "show_int n = (if n < 0 then ''-'' @ show_nat (nat (- n)) else show_nat (nat n))"

definition validate_range :: "string \<Rightarrow> f64 \<Rightarrow> int \<Rightarrow> int \<Rightarrow> domain_error + unit" where
  "validate_range field v lo hi =
     (if f64_is_finite v \<and> f64_le (Fin (of_int lo)) v \<and> f64_le v (Fin (of_int hi)) then Inr ()
      else Inl (domain_error_new field (''must be finite and in '' @ show_int lo @ ''..='' @ show_int hi)))"

fun unique_labels :: "string \<Rightarrow> string set \<Rightarrow> string list \<Rightarrow> domain_error + unit" where
  "unique_labels field seen [] = Inr ()"
| "unique_labels field seen (v # vs) =
     rbind (validate_label field v) (\<lambda>_.
     if v \<in> seen then Inl (domain_error_new field ''items must be unique'')
     else unique_labels field (insert v seen) vs)"

definition validate_bounded_labels :: "string \<Rightarrow> string list \<Rightarrow> nat \<Rightarrow> domain_error + unit" where
  "validate_bounded_labels field vs max_items =
     (if max_items < length vs
      then Inl (domain_error_new field (''must contain at most '' @ show_nat max_items @ '' items''))
      else unique_labels field {} vs)"

section \<open>The context\<close>

record performer_snapshot =
  ps_currently_speaking :: bool
  ps_current_asset_id :: "string option"
  ps_current_interruptible :: bool
  ps_mood_valence :: "f64 option"
  ps_arousal :: "f64 option"

definition performer_validate :: "performer_snapshot \<Rightarrow> domain_error + unit" where
  "performer_validate p =
     rbind (validate_optional_label ''performer.current_asset_id'' (ps_current_asset_id p)) (\<lambda>_.
     rbind (case ps_mood_valence p of None \<Rightarrow> Inr () | Some v \<Rightarrow> validate_range ''performer.mood_valence'' v (- 1) 1) (\<lambda>_.
     case ps_arousal p of None \<Rightarrow> Inr () | Some v \<Rightarrow> validate_range ''performer.arousal'' v 0 1))"

record stream_snapshot =
  ss_mode :: "string option"
  ss_topic :: "string option"

definition stream_validate :: "stream_snapshot \<Rightarrow> domain_error + unit" where
  "stream_validate s =
     rbind (validate_optional_label ''stream.mode'' (ss_mode s)) (\<lambda>_. validate_optional_label ''stream.topic'' (ss_topic s))"

record recent_interaction_snapshot =
  ri_reaction_families :: "string list"
  ri_asset_ids :: "string list"
  ri_seconds_since_direct_reply :: "f64 option"

definition recent_validate :: "recent_interaction_snapshot \<Rightarrow> domain_error + unit" where
  "recent_validate r =
     rbind (validate_bounded_labels ''recent.reaction_families'' (ri_reaction_families r) MAX_RECENT_ITEMS) (\<lambda>_.
     rbind (validate_bounded_labels ''recent.asset_ids'' (ri_asset_ids r) MAX_RECENT_ITEMS) (\<lambda>_.
     case ri_seconds_since_direct_reply r of
       None \<Rightarrow> Inr ()
     | Some v \<Rightarrow>
         if \<not> f64_is_finite v \<or> f64_lt v (Fin 0)
         then Inl (domain_error_new ''recent.seconds_since_direct_reply'' ''must be finite and non-negative'')
         else Inr ()))"

record retrieval_candidate_context =
  rcc_asset_id :: string
  rcc_rank :: nat
  rcc_similarity :: f64

definition candidate_validate :: "retrieval_candidate_context \<Rightarrow> domain_error + unit" where
  "candidate_validate c =
     rbind (validate_label ''retrieval.candidates.asset_id'' (rcc_asset_id c)) (\<lambda>_.
     if rcc_rank c = 0 then Inl (domain_error_new ''retrieval.candidates.rank'' ''must be greater than zero'')
     else validate_range ''retrieval.candidates.similarity'' (rcc_similarity c) (- 1) 1)"

text \<open>The snapshot is the list of its candidates.\<close>

record retrieval_snapshot =
  rs_candidates :: "retrieval_candidate_context list"

fun candidates_validate :: "nat \<Rightarrow> string set \<Rightarrow> retrieval_candidate_context list \<Rightarrow> domain_error + unit" where
  "candidates_validate i ids [] = Inr ()"
| "candidates_validate i ids (c # cs) =
     rbind (candidate_validate c) (\<lambda>_.
     if rcc_asset_id c \<in> ids then Inl (domain_error_new ''retrieval.candidates'' ''asset ids must be unique'')
     else if rcc_rank c \<noteq> i + 1
     then Inl (domain_error_new ''retrieval.candidates.rank''
            (''must be contiguous and ordered from 1; expected '' @ show_nat (i + 1)))
     else candidates_validate (i + 1) (insert (rcc_asset_id c) ids) cs)"

definition retrieval_validate :: "retrieval_snapshot \<Rightarrow> domain_error + unit" where
  "retrieval_validate r =
     (if MAX_RETRIEVAL_CANDIDATES < length (rs_candidates r)
      then Inl (domain_error_new ''retrieval.candidates''
             (''must contain at most '' @ show_nat MAX_RETRIEVAL_CANDIDATES @ '' candidates''))
      else candidates_validate 0 {} (rs_candidates r))"

definition candidate_asset_ids :: "retrieval_snapshot \<Rightarrow> string list" where
  "candidate_asset_ids r = map rcc_asset_id (rs_candidates r)"

record reflex_context =
  rx_schema_version :: string
  rx_performer :: performer_snapshot
  rx_stream :: stream_snapshot
  rx_recent :: recent_interaction_snapshot
  rx_now_ms :: "u64 option"

definition reflex_context_validate :: "reflex_context \<Rightarrow> domain_error + unit" where
  "reflex_context_validate c =
     (if rx_schema_version c \<noteq> REFLEX_CONTEXT_SCHEMA_VERSION
      then Inl (domain_error_new ''context.schema_version'' (''expected '' @ REFLEX_CONTEXT_SCHEMA_VERSION))
      else rbind (performer_validate (rx_performer c)) (\<lambda>_.
           rbind (stream_validate (rx_stream c)) (\<lambda>_.
           recent_validate (rx_recent c))))"

definition default_reflex_context :: reflex_context where
  "default_reflex_context =
     \<lparr>rx_schema_version = REFLEX_CONTEXT_SCHEMA_VERSION,
      rx_performer = \<lparr>ps_currently_speaking = False, ps_current_asset_id = None, ps_current_interruptible = False,
        ps_mood_valence = None, ps_arousal = None\<rparr>,
      rx_stream = \<lparr>ss_mode = None, ss_topic = None\<rparr>,
      rx_recent = \<lparr>ri_reaction_families = [], ri_asset_ids = [], ri_seconds_since_direct_reply = None\<rparr>,
      rx_now_ms = None\<rparr>"

section \<open>Requests\<close>

record 'v reflex_request =
  rq_schema_version :: string
  rq_event :: "'v event_envelope"
  rq_context :: reflex_context
  rq_retrieval :: retrieval_snapshot

definition reflex_request_new :: "'v event_envelope \<Rightarrow> reflex_context \<Rightarrow> 'v reflex_request" where
  "reflex_request_new e c =
     \<lparr>rq_schema_version = REFLEX_REQUEST_SCHEMA_VERSION, rq_event = e, rq_context = c, rq_retrieval = \<lparr>rs_candidates = []\<rparr>\<rparr>"

definition reflex_request_validate :: "'v reflex_request \<Rightarrow> domain_error + unit" where
  "reflex_request_validate r =
     (if rq_schema_version r \<noteq> REFLEX_REQUEST_SCHEMA_VERSION
      then Inl (domain_error_new ''reflex_request.schema_version'' (''expected '' @ REFLEX_REQUEST_SCHEMA_VERSION))
      else rbind (validate_event (rq_event r)) (\<lambda>_.
           rbind (reflex_context_validate (rq_context r)) (\<lambda>_.
           retrieval_validate (rq_retrieval r))))"

datatype privacy_class = PC_Public | PC_Pseudonymous | PC_Private

datatype thinking_context_source = TS_CurrentEvent | TS_RecentInteraction | TS_Memory | TS_StreamState | TS_OperatorCurated

record thinking_content =
  tn_source :: thinking_context_source
  tn_event_id :: "string option"
  tn_event_kind :: "event_kind option"
  tn_source_class :: "source_class option"
  tn_trust_level :: trust_level
  tn_privacy :: privacy_class
  tn_epistemic_class :: "epistemic_class option"
  tn_text :: string

definition thinking_content_from_event :: "'v event_envelope \<Rightarrow> string \<Rightarrow> privacy_class \<Rightarrow> thinking_content" where
  "thinking_content_from_event e t privacy =
     \<lparr>tn_source = TS_CurrentEvent, tn_event_id = Some (ev_event_id e), tn_event_kind = Some (ev_kind e),
      tn_source_class = Some (ev_source_class e), tn_trust_level = ev_trust_level e, tn_privacy = privacy,
      tn_epistemic_class = None, tn_text = t\<rparr>"

definition thinking_content_validate :: "string \<Rightarrow> thinking_content \<Rightarrow> domain_error + unit" where
  "thinking_content_validate field c =
     (if tn_text c = [] \<or> MAX_THINKING_TEXT_BYTES < length (tn_text c)
      then Inl (domain_error_new field (''text must contain 1..='' @ show_nat MAX_THINKING_TEXT_BYTES @ '' UTF-8 bytes''))
      else rbind (validate_optional_label field (tn_event_id c)) (\<lambda>_.
        if tn_source c = TS_CurrentEvent \<and> (tn_event_id c = None \<or> tn_event_kind c = None \<or> tn_source_class c = None)
        then Inl (domain_error_new field ''current_event content requires event_id, event_kind, and source_class'')
        else case tn_epistemic_class c of
            None \<Rightarrow>
              if tn_source c = TS_Memory
              then Inl (domain_error_new field ''memory content must name the epistemic class it was retained under'')
              else Inr ()
          | Some _ \<Rightarrow>
              if tn_source c = TS_Memory then Inr ()
              else Inl (domain_error_new field ''only memory content carries an epistemic class'')))"

record thinking_request =
  tq_schema_version :: string
  tq_input :: thinking_content
  tq_context :: reflex_context
  tq_retrieval :: retrieval_snapshot
  tq_curated_context :: "thinking_content list"

definition thinking_request_from_event ::
  "'v event_envelope \<Rightarrow> string \<Rightarrow> privacy_class \<Rightarrow> reflex_context \<Rightarrow> retrieval_snapshot \<Rightarrow> thinking_content list \<Rightarrow> thinking_request" where
  "thinking_request_from_event e t privacy c r curated =
     \<lparr>tq_schema_version = THINKING_REQUEST_SCHEMA_VERSION, tq_input = thinking_content_from_event e t privacy,
      tq_context = c, tq_retrieval = r, tq_curated_context = curated\<rparr>"

fun curated_bytes :: "nat \<Rightarrow> thinking_content list \<Rightarrow> domain_error + nat" where
  "curated_bytes acc [] = Inr acc"
| "curated_bytes acc (c # cs) =
     rbind (thinking_content_validate ''thinking_request.curated_context'' c) (\<lambda>_.
     if tn_source c = TS_CurrentEvent
     then Inl (domain_error_new ''thinking_request.curated_context'' ''current_event belongs only in input'')
     else curated_bytes (sadd acc (length (tn_text c))) cs)"

definition thinking_request_validate :: "thinking_request \<Rightarrow> domain_error + unit" where
  "thinking_request_validate r =
     (if tq_schema_version r \<noteq> THINKING_REQUEST_SCHEMA_VERSION
      then Inl (domain_error_new ''thinking_request.schema_version'' (''expected '' @ THINKING_REQUEST_SCHEMA_VERSION))
      else if tn_source (tq_input r) \<noteq> TS_CurrentEvent
      then Inl (domain_error_new ''thinking_request.input.source'' ''must be current_event'')
      else rbind (thinking_content_validate ''thinking_request.input'' (tq_input r)) (\<lambda>_.
        rbind (reflex_context_validate (tq_context r)) (\<lambda>_.
        rbind (retrieval_validate (tq_retrieval r)) (\<lambda>_.
        if MAX_THINKING_CONTEXT_ITEMS < length (tq_curated_context r)
        then Inl (domain_error_new ''thinking_request.curated_context''
               (''must contain at most '' @ show_nat MAX_THINKING_CONTEXT_ITEMS @ '' items''))
        else rbind (curated_bytes (length (tn_text (tq_input r))) (tq_curated_context r)) (\<lambda>acc.
          if MAX_THINKING_CONTEXT_BYTES < acc
          then Inl (domain_error_new ''thinking_request''
                 (''curated text must contain at most '' @ show_nat MAX_THINKING_CONTEXT_BYTES @ '' UTF-8 bytes''))
          else Inr ())))))"

section \<open>The reflex decision\<close>

definition REFLEX_SCHEMA_VERSION :: string where
  "REFLEX_SCHEMA_VERSION = ''0.1.0''"

datatype response_route = RR_Silent | RR_Reaction | RR_Cached | RR_Template | RR_Llm

record route_decision =
  rd_value :: response_route
  rd_confidence :: "f64 option"

datatype attention_target = AT_Camera | AT_Chat | AT_Game | AT_Speaker | AT_Away

datatype reflex_fallback_reason =
  FR_None | FR_Timeout | FR_Unavailable | FR_RateLimited | FR_Overloaded | FR_Authentication | FR_InvalidRequest
| FR_LowConfidence | FR_PolicyOverride | FR_OperatorOverride | FR_BudgetExhausted

record backend_identity =
  bi_name :: string
  bi_model_alias :: "string option"
  bi_model_version :: "string option"

record reflex_decision =
  rf_schema_version :: string
  rf_route :: route_decision
  rf_reaction_family :: "string option"
  rf_gesture_family :: "string option"
  rf_attention_target :: attention_target
  rf_interrupt_probability :: f64
  rf_cache_reuse_probability :: f64
  rf_importance :: f64
  rf_emotion_intensity :: f64
  rf_backend :: backend_identity
  rf_latency_ms :: f64
  rf_fallback_reason :: reflex_fallback_reason

definition reflex_decision_validate :: "reflex_decision \<Rightarrow> domain_error + unit" where
  "reflex_decision_validate d =
     (if rf_schema_version d \<noteq> REFLEX_SCHEMA_VERSION
      then Inl (domain_error_new ''schema_version'' (''expected '' @ REFLEX_SCHEMA_VERSION))
      else if bi_name (rf_backend d) = [] then Inl (domain_error_new ''backend.name'' ''must not be empty'')
      else rbind (case rd_confidence (rf_route d) of None \<Rightarrow> Inr () | Some c \<Rightarrow> validate_unit_interval ''route.confidence'' c) (\<lambda>_.
        rbind (validate_unit_interval ''interrupt_probability'' (rf_interrupt_probability d)) (\<lambda>_.
        rbind (validate_unit_interval ''cache_reuse_probability'' (rf_cache_reuse_probability d)) (\<lambda>_.
        rbind (validate_unit_interval ''importance'' (rf_importance d)) (\<lambda>_.
        rbind (validate_unit_interval ''emotion_intensity'' (rf_emotion_intensity d)) (\<lambda>_.
        if \<not> f64_is_finite (rf_latency_ms d) \<or> f64_lt (rf_latency_ms d) (Fin 0)
        then Inl (domain_error_new ''latency_ms'' ''must be finite and non-negative'')
        else Inr ()))))))"

section \<open>The interaction deadline\<close>

datatype interaction_deadline_class = IDC_HighPriority | IDC_StrongReaction | IDC_Conversation | IDC_Commentary | IDC_Background

datatype deadline_stage =
  DS_NormalizationSecurity | DS_Retrieval | DS_Reflex | DS_Template | DS_GenerationQueue | DS_Thinking | DS_Tts
| DS_Commit | DS_SchedulerDispatch

datatype deadline_exhaustion_reason =
  DX_Expired | DX_InsufficientBudget | DX_ProviderTimeout | DX_Cancelled | DX_StaleCompletion

record interaction_deadline =
  id_class :: interaction_deadline_class
  id_started_at_ms :: u64
  id_expires_at_ms :: u64

definition deadline_new :: "interaction_deadline_class \<Rightarrow> u64 \<Rightarrow> u64 \<Rightarrow> domain_error + interaction_deadline" where
  "deadline_new cls started budget =
     (if budget = 0 then Inl (domain_error_new ''total_budget_ms'' ''must be greater than zero'')
      else Inr \<lparr>id_class = cls, id_started_at_ms = started, id_expires_at_ms = sadd started budget\<rparr>)"

definition deadline_total_budget_ms :: "interaction_deadline \<Rightarrow> u64" where
  "deadline_total_budget_ms d = id_expires_at_ms d - id_started_at_ms d"

definition deadline_remaining_ms :: "u64 \<Rightarrow> interaction_deadline \<Rightarrow> u64" where
  "deadline_remaining_ms now d = id_expires_at_ms d - now"

definition deadline_is_expired :: "u64 \<Rightarrow> interaction_deadline \<Rightarrow> bool" where
  "deadline_is_expired now d \<longleftrightarrow> deadline_remaining_ms now d = 0"

definition deadline_admits :: "u64 \<Rightarrow> u64 \<Rightarrow> interaction_deadline \<Rightarrow> bool" where
  "deadline_admits now min_useful d \<longleftrightarrow> max min_useful 1 \<le> deadline_remaining_ms now d"

text \<open>A \<open>Duration\<close> is its nanoseconds.\<close>

definition deadline_effective_timeout :: "u64 \<Rightarrow> nat \<Rightarrow> interaction_deadline \<Rightarrow> nat option" where
  "deadline_effective_timeout now provider_max d =
     (let remaining = deadline_remaining_ms now d * 1000000
      in if remaining \<noteq> 0 then Some (min remaining provider_max) else None)"

record interaction_deadline_policy =
  dp_high_priority_ms :: u64
  dp_strong_reaction_ms :: u64
  dp_conversation_ms :: u64
  dp_commentary_ms :: u64
  dp_background_ms :: u64
  dp_min_generation_start_ms :: u64

definition default_deadline_policy :: interaction_deadline_policy where
  "default_deadline_policy =
     \<lparr>dp_high_priority_ms = 30000, dp_strong_reaction_ms = 30000, dp_conversation_ms = 30000, dp_commentary_ms = 30000,
      dp_background_ms = 30000, dp_min_generation_start_ms = 1\<rparr>"

text \<open>The application error that the deadline policy uses is its routing case.\<close>

definition deadline_policy_validate :: "interaction_deadline_policy \<Rightarrow> string + interaction_deadline_policy" where
  "deadline_policy_validate p =
     (if list_ex (\<lambda>v. v = 0) [dp_high_priority_ms p, dp_strong_reaction_ms p, dp_conversation_ms p, dp_commentary_ms p,
           dp_background_ms p, dp_min_generation_start_ms p]
      then Inl ''interaction deadline budgets must be greater than zero'' else Inr p)"

fun class_for :: "event_kind \<Rightarrow> interaction_deadline_class option" where
  "class_for OperatorCommand = None"
| "class_for ChatDonation = Some IDC_HighPriority"
| "class_for GameEvent = Some IDC_StrongReaction"
| "class_for ChatMessage = Some IDC_Conversation"
| "class_for SpeechInput = Some IDC_Conversation"
| "class_for StreamEvent = Some IDC_Commentary"
| "class_for TimerTick = Some IDC_Background"
| "class_for SystemHealth = Some IDC_Background"

fun policy_budget_ms :: "interaction_deadline_policy \<Rightarrow> interaction_deadline_class \<Rightarrow> u64" where
  "policy_budget_ms p IDC_HighPriority = dp_high_priority_ms p"
| "policy_budget_ms p IDC_StrongReaction = dp_strong_reaction_ms p"
| "policy_budget_ms p IDC_Conversation = dp_conversation_ms p"
| "policy_budget_ms p IDC_Commentary = dp_commentary_ms p"
| "policy_budget_ms p IDC_Background = dp_background_ms p"

definition deadline_for :: "event_kind \<Rightarrow> u64 \<Rightarrow> interaction_deadline_policy \<Rightarrow> string + interaction_deadline option" where
  "deadline_for kind started p =
     (case class_for kind of
        None \<Rightarrow> Inr None
      | Some cls \<Rightarrow> map_sum domain_error_display Some (deadline_new cls started (policy_budget_ms p cls)))"

end
