(* ===== verification/Retrieval.thy ===== *)
theory Retrieval
  imports Domain_Context Std_Lib Float64
begin

text \<open>
  The semantic retriever of \<open>crates/reflex/src/retrieval.rs\<close>: an index of asset embeddings and the
  cosine search over it, in \<open>f64\<close> arithmetic. Embedding components are \<open>f32\<close>; every \<open>f32\<close> is an
  \<open>f64\<close>, so the widening \<open>f64::from\<close> is the identity here.
\<close>

section \<open>Division and square root\<close>

text \<open>IEEE division; the sign of a zero divisor is not represented (it never is zero below).\<close>

fun f64_div :: "f64 \<Rightarrow> f64 \<Rightarrow> f64" where
  "f64_div (Fin a) (Fin b) =
     (if b \<noteq> 0 then f64_round (a / b) else if a = 0 then NaN else if 0 < a then PosInf else NegInf)"
| "f64_div NaN _ = NaN"
| "f64_div _ NaN = NaN"
| "f64_div (Fin a) PosInf = Fin 0"
| "f64_div (Fin a) NegInf = Fin 0"
| "f64_div PosInf (Fin b) = (if 0 \<le> b then PosInf else NegInf)"
| "f64_div NegInf (Fin b) = (if 0 \<le> b then NegInf else PosInf)"
| "f64_div PosInf PosInf = NaN"
| "f64_div PosInf NegInf = NaN"
| "f64_div NegInf PosInf = NaN"
| "f64_div NegInf NegInf = NaN"

text \<open>The integer square root, one bit at a time: \<open>r\<close> is right but for its last \<open>k\<close> bits.\<close>

fun isqrt_bits :: "nat \<Rightarrow> int \<Rightarrow> int \<Rightarrow> int" where
  "isqrt_bits 0 r n = r"
| "isqrt_bits (Suc k) r n = isqrt_bits k (if (r + 2 ^ k) * (r + 2 ^ k) \<le> n then r + 2 ^ k else r) n"

text \<open>
  \<open>f64::sqrt\<close> rounds correctly: the root in units of its last place lies between \<open>2^52\<close> and \<open>2^53\<close>, and
  the square of the midpoint decides where it rounds to. The root of an \<open>f64\<close> is never subnormal.
\<close>

fun f64_sqrt :: "f64 \<Rightarrow> f64" where
  "f64_sqrt (Fin q) =
     (if q < 0 then NaN
      else if q = 0 then Fin 0
      else
        let e = flog2 q div 2 - 52; x = q / pow2 (2 * e); m = isqrt_bits 53 0 \<lfloor>x\<rfloor>; h = of_int (m * m + m) + 1/4
        in Fin (pow2 e * of_int (if x < h then m else if h < x then m + 1 else if even m then m else m + 1)))"
| "f64_sqrt PosInf = PosInf"
| "f64_sqrt NegInf = NaN"
| "f64_sqrt NaN = NaN"

section \<open>The index\<close>

datatype similarity_metric = Cosine

record retrieval_metadata =
  rmd_retriever_version :: string
  rmd_embedding_model :: string
  rmd_index_version :: string
  rmd_asset_compiler_version :: string
  rmd_similarity_metric :: similarity_metric
  rmd_tie_break_rule :: string

record retrieval_candidate =
  rc_asset_id :: string
  rc_asset_identity :: "string option"
  rc_rank :: nat
  rc_similarity :: f64

record retrieval_result =
  rr_metadata :: retrieval_metadata
  rr_candidates :: "retrieval_candidate list"

record indexed_asset =
  ia_asset_id :: string
  ia_asset_identity :: "string option"
  ia_embedding :: "f64 list"

datatype retrieval_error =
  RE_EmptyIndex | RE_EmptyAssetId | RE_ZeroDimension | RE_DimensionMismatch nat nat | RE_NonFiniteVector | RE_ZeroNormVector

fun retrieval_error_display :: "retrieval_error \<Rightarrow> string" where
  "retrieval_error_display RE_EmptyIndex = ''semantic index must contain at least one asset''"
| "retrieval_error_display RE_EmptyAssetId = ''semantic index asset id must not be empty''"
| "retrieval_error_display RE_ZeroDimension = ''semantic embedding dimension must be positive''"
| "retrieval_error_display (RE_DimensionMismatch expected actual) =
     ''embedding dimension mismatch: expected '' @ show_nat expected @ '', got '' @ show_nat actual"
| "retrieval_error_display RE_NonFiniteVector = ''embedding vector contains a non-finite value''"
| "retrieval_error_display RE_ZeroNormVector = ''embedding vector must have non-zero norm''"

definition vec_dot :: "f64 list \<Rightarrow> f64 list \<Rightarrow> f64" where
  "vec_dot left right = fold (\<lambda>(a, b) acc. f64_add acc (f64_mul a b)) (zip left right) (Fin 0)"

definition vec_norm :: "f64 list \<Rightarrow> f64" where
  "vec_norm v = f64_sqrt (vec_dot v v)"

definition validate_vector :: "f64 list \<Rightarrow> nat \<Rightarrow> retrieval_error + unit" where
  "validate_vector v expected =
     (if length v \<noteq> expected then Inl (RE_DimensionMismatch expected (length v))
      else if list_ex (\<lambda>x. \<not> f64_is_finite x) v then Inl RE_NonFiniteVector
      else if vec_norm v = Fin 0 then Inl RE_ZeroNormVector
      else Inr ())"

record semantic_index =
  si_metadata :: retrieval_metadata
  si_dimension :: nat
  si_assets :: "indexed_asset list"

fun validate_assets :: "nat \<Rightarrow> indexed_asset list \<Rightarrow> retrieval_error + unit" where
  "validate_assets d [] = Inr ()"
| "validate_assets d (a # rest) =
     (if trim_is_empty (ia_asset_id a) then Inl RE_EmptyAssetId
      else rbind (validate_vector (ia_embedding a) d) (\<lambda>_. validate_assets d rest))"

text \<open>\<open>dedup_by\<close> on equal ids keeps the first of a run.\<close>

fun dedup_assets :: "indexed_asset list \<Rightarrow> indexed_asset list" where
  "dedup_assets [] = []"
| "dedup_assets [a] = [a]"
| "dedup_assets (a # b # rest) =
     (if ia_asset_id a = ia_asset_id b then dedup_assets (a # rest) else a # dedup_assets (b # rest))"

definition semantic_index_new :: "retrieval_metadata \<Rightarrow> indexed_asset list \<Rightarrow> retrieval_error + semantic_index" where
  "semantic_index_new md assets =
     (case assets of
        [] \<Rightarrow> Inl RE_EmptyIndex
      | a # _ \<Rightarrow>
          let d = length (ia_embedding a)
          in if d = 0 then Inl RE_ZeroDimension
             else rbind (validate_assets d assets) (\<lambda>_.
               Inr \<lparr>si_metadata = md, si_dimension = d,
                    si_assets = dedup_assets (sort_by (\<lambda>l r. ia_asset_id l < ia_asset_id r) assets)\<rparr>))"

section \<open>The search\<close>

definition score_asset :: "f64 list \<Rightarrow> f64 \<Rightarrow> indexed_asset \<Rightarrow> string \<times> string option \<times> f64" where
  "score_asset q query_norm a =
     (ia_asset_id a, ia_asset_identity a, f64_div (vec_dot q (ia_embedding a)) (f64_mul query_norm (vec_norm (ia_embedding a))))"

text \<open>\<open>partial_cmp\<close> of the scores, best first, an undefined comparison counting as equal; then the ids.\<close>

definition scored_before :: "string \<times> string option \<times> f64 \<Rightarrow> string \<times> string option \<times> f64 \<Rightarrow> bool" where
  "scored_before l r \<longleftrightarrow>
     f64_lt (snd (snd r)) (snd (snd l)) \<or>
     (\<not> f64_lt (snd (snd l)) (snd (snd r)) \<and> fst l < fst r)"

definition ranked_candidate :: "nat \<Rightarrow> string \<times> string option \<times> f64 \<Rightarrow> retrieval_candidate" where
  "ranked_candidate i s =
     \<lparr>rc_asset_id = fst s, rc_asset_identity = fst (snd s), rc_rank = (i + 1) mod 2 ^ 32, rc_similarity = snd (snd s)\<rparr>"

definition index_search :: "f64 list \<Rightarrow> nat \<Rightarrow> semantic_index \<Rightarrow> retrieval_error + retrieval_result" where
  "index_search q top_k ix =
     rbind (validate_vector q (si_dimension ix)) (\<lambda>_.
     if top_k = 0 then Inr \<lparr>rr_metadata = si_metadata ix, rr_candidates = []\<rparr>
     else
       let scored = sort_by scored_before (map (score_asset q (vec_norm q)) (si_assets ix))
       in Inr \<lparr>rr_metadata = si_metadata ix,
               rr_candidates = map (\<lambda>(i, s). ranked_candidate i s) (enumerate 0 (take top_k scored))\<rparr>)"

end
