(* ===== verification/Jev_Wire.thy ===== *)
theory Jev_Wire
  imports Retrieval
begin

text \<open>
  The wire side of the System One adapter, \<open>crates/reflex/src/jev.rs\<close>: the adapter's configuration, the
  request body built from a validated reflex request, and the normalization of an untrusted response
  into a decision. \<open>serde_json\<close> and \<open>url\<close> are third-party code: their functions are the fields of
  \<open>wire_lib\<close>, and a JSON value is of the abstract type \<open>'v\<close>. The derived \<open>Serialize\<close> of the domain types
  is written out.
\<close>

section \<open>The library the adapter calls\<close>

record url =
  url_scheme :: string
  url_has_host :: bool
  url_username :: string
  url_password :: "string option"

record jev_usage =
  ju_input_tokens :: u64
  ju_output_tokens :: u64

record 'v system_one_response =
  so_model :: string
  so_answers :: "(string, 'v) bmap"
  so_usage :: jev_usage

text \<open>
  \<open>Value::as_object\<close> (the entries in the map's order), \<open>as_str\<close>, \<open>as_f64\<close>; the values \<open>json!\<close> builds (an
  object from its fields as written); \<open>to_vec\<close> of a value, \<open>to_vec\<close> of the \<open>SystemOneRequest\<close> with the given
  state, model and questions, \<open>from_slice\<close> into a \<open>SystemOneResponse\<close>; \<open>{:?}\<close> of a string; \<open>Url::parse\<close>.
\<close>

record 'v wire_lib =
  js_as_object :: "'v \<Rightarrow> (string \<times> 'v) list option"
  js_as_str :: "'v \<Rightarrow> string option"
  js_as_f64 :: "'v \<Rightarrow> f64 option"
  js_object :: "(string \<times> 'v) list \<Rightarrow> 'v"
  js_array :: "'v list \<Rightarrow> 'v"
  js_string :: "string \<Rightarrow> 'v"
  js_bool :: "bool \<Rightarrow> 'v"
  js_f64 :: "f64 \<Rightarrow> 'v"
  js_u64 :: "u64 \<Rightarrow> 'v"
  js_null :: 'v
  js_to_vec :: "'v \<Rightarrow> string + string"
  js_request_to_vec :: "'v \<Rightarrow> string \<Rightarrow> (string, 'v) bmap \<Rightarrow> string + string"
  js_from_slice :: "string \<Rightarrow> string + 'v system_one_response"
  js_debug :: "string \<Rightarrow> string"
  js_parse_url :: "string \<Rightarrow> url option"

section \<open>Configuration\<close>

definition MAX_JEV_RESPONSE_BYTES :: nat where
  "MAX_JEV_RESPONSE_BYTES = 1024 * 1024"

definition jev_api_key_new :: "string \<Rightarrow> engine_error + string" where
  "jev_api_key_new v =
     (if trim_is_empty v then Inl (engine_error_new EEK_Authentication ''Jev API key must not be empty'') else Inr v)"

text \<open>Durations are nanoseconds.\<close>

record jev_config =
  jc_endpoint :: string
  jc_model_alias :: string
  jc_deadline :: nat
  jc_max_attempts :: u32
  jc_initial_backoff :: nat
  jc_max_state_bytes :: nat
  jc_max_candidates :: nat

definition default_jev_config :: jev_config where
  "default_jev_config =
     \<lparr>jc_endpoint = ''https://api.typesafe.ai/v1/systemone'', jc_model_alias = ''jev-latest'', jc_deadline = 250 * 1000000,
      jc_max_attempts = 3, jc_initial_backoff = 20 * 1000000, jc_max_state_bytes = 16 * 1024, jc_max_candidates = 8\<rparr>"

definition is_secure_jev_endpoint :: "'v wire_lib \<Rightarrow> string \<Rightarrow> bool" where
  "is_secure_jev_endpoint lib endpoint =
     (case js_parse_url lib endpoint of
        None \<Rightarrow> False
      | Some u \<Rightarrow> url_scheme u = ''https'' \<and> url_has_host u \<and> url_username u = [] \<and> url_password u = None)"

definition jev_config_validate :: "'v wire_lib \<Rightarrow> jev_config \<Rightarrow> engine_error + unit" where
  "jev_config_validate lib c =
     (if \<not> is_secure_jev_endpoint lib (jc_endpoint c)
      then Inl (engine_error_new EEK_InvalidRequest ''Jev endpoint must be a valid HTTPS URL without embedded credentials'')
      else if trim_is_empty (jc_model_alias c) \<or> jc_deadline c = 0
      then Inl (engine_error_new EEK_InvalidRequest ''Jev model alias and deadline must be non-empty'')
      else if jc_max_attempts c = 0 \<or> jc_max_state_bytes c = 0 \<or> jc_max_candidates c = 0
      then Inl (engine_error_new EEK_InvalidRequest ''Jev limits must be positive'')
      else Inr ())"

section \<open>The request body\<close>

fun source_class_name :: "source_class \<Rightarrow> string" where
  "source_class_name SC_PublicChat = ''public_chat''"
| "source_class_name SC_Donation = ''donation''"
| "source_class_name SC_Speech = ''speech''"
| "source_class_name SC_Game = ''game''"
| "source_class_name SC_Stream = ''stream''"
| "source_class_name SC_Timer = ''timer''"
| "source_class_name SC_Operator = ''operator''"
| "source_class_name SC_System = ''system''"

fun trust_level_name :: "trust_level \<Rightarrow> string" where
  "trust_level_name Untrusted = ''untrusted''"
| "trust_level_name SemiTrusted = ''semi_trusted''"
| "trust_level_name Trusted = ''trusted''"

fun event_kind_name :: "event_kind \<Rightarrow> string" where
  "event_kind_name ChatMessage = ''chat.message''"
| "event_kind_name ChatDonation = ''chat.donation''"
| "event_kind_name SpeechInput = ''speech.input''"
| "event_kind_name GameEvent = ''game.event''"
| "event_kind_name StreamEvent = ''stream.event''"
| "event_kind_name TimerTick = ''timer.tick''"
| "event_kind_name OperatorCommand = ''operator.command''"
| "event_kind_name SystemHealth = ''system.health''"

definition js_option :: "'v wire_lib \<Rightarrow> ('a \<Rightarrow> 'v) \<Rightarrow> 'a option \<Rightarrow> 'v" where
  "js_option lib f v = (case v of None \<Rightarrow> js_null lib | Some x \<Rightarrow> f x)"

definition performer_json :: "'v wire_lib \<Rightarrow> performer_snapshot \<Rightarrow> 'v" where
  "performer_json lib p = js_object lib
     [(''currently_speaking'', js_bool lib (ps_currently_speaking p)),
      (''current_asset_id'', js_option lib (js_string lib) (ps_current_asset_id p)),
      (''current_interruptible'', js_bool lib (ps_current_interruptible p)),
      (''mood_valence'', js_option lib (js_f64 lib) (ps_mood_valence p)),
      (''arousal'', js_option lib (js_f64 lib) (ps_arousal p))]"

definition stream_json :: "'v wire_lib \<Rightarrow> stream_snapshot \<Rightarrow> 'v" where
  "stream_json lib s = js_object lib
     [(''mode'', js_option lib (js_string lib) (ss_mode s)), (''topic'', js_option lib (js_string lib) (ss_topic s))]"

definition recent_json :: "'v wire_lib \<Rightarrow> recent_interaction_snapshot \<Rightarrow> 'v" where
  "recent_json lib r = js_object lib
     [(''reaction_families'', js_array lib (map (js_string lib) (ri_reaction_families r))),
      (''asset_ids'', js_array lib (map (js_string lib) (ri_asset_ids r))),
      (''seconds_since_direct_reply'', js_option lib (js_f64 lib) (ri_seconds_since_direct_reply r))]"

definition candidate_json :: "'v wire_lib \<Rightarrow> retrieval_candidate_context \<Rightarrow> 'v" where
  "candidate_json lib c = js_object lib
     [(''asset_id'', js_string lib (rcc_asset_id c)), (''rank'', js_u64 lib (rcc_rank c)),
      (''similarity'', js_f64 lib (rcc_similarity c))]"

definition compact_state :: "'v wire_lib \<Rightarrow> 'v reflex_request \<Rightarrow> string list \<Rightarrow> 'v" where
  "compact_state lib r candidates =
     (let e = rq_event r; c = rq_context r in js_object lib
       [(''request_schema_version'', js_string lib (rq_schema_version r)),
        (''event'', js_object lib
          [(''kind'', js_string lib (event_kind_name (ev_kind e))),
           (''source_class'', js_string lib (source_class_name (ev_source_class e))),
           (''trust_level'', js_string lib (trust_level_name (ev_trust_level e))),
           (''actor_id'', js_option lib (js_string lib) (ev_actor_id e)),
           (''payload'', js_object lib (ev_payload e))]),
        (''runtime'', js_object lib
          [(''schema_version'', js_string lib (rx_schema_version c)),
           (''performer'', performer_json lib (rx_performer c)),
           (''stream'', stream_json lib (rx_stream c)),
           (''recent'', recent_json lib (rx_recent c)),
           (''now_ms'', js_option lib (js_u64 lib) (rx_now_ms c))]),
        (''retrieval'', js_object lib
          [(''candidates'', js_array lib
             (map (candidate_json lib) (take (length candidates) (rs_candidates (rq_retrieval r)))))])])"

definition string_criteria :: "'v wire_lib \<Rightarrow> (string \<times> string) list \<Rightarrow> 'v" where
  "string_criteria lib cs =
     js_object lib (fold (\<lambda>(n, d). bm_insert n (js_string lib d)) cs [])"

definition choice_question :: "'v wire_lib \<Rightarrow> string \<Rightarrow> (string \<times> string) list \<Rightarrow> 'v" where
  "choice_question lib instructions criteria = js_object lib
     [(''type'', js_string lib ''choice''), (''instructions'', js_string lib instructions),
      (''criteria'', string_criteria lib criteria)]"

definition noul_question :: "'v wire_lib \<Rightarrow> string \<Rightarrow> 'v" where
  "noul_question lib instructions = js_object lib
     [(''type'', js_string lib ''noul''), (''instructions'', js_string lib instructions)]"

definition score_question :: "'v wire_lib \<Rightarrow> string \<Rightarrow> string list \<Rightarrow> 'v" where
  "score_question lib instructions criteria = js_object lib
     [(''type'', js_string lib ''score''), (''instructions'', js_string lib instructions),
      (''criteria'', js_array lib (map (js_string lib) criteria))]"

definition fixed_questions :: "'v wire_lib \<Rightarrow> (string \<times> 'v) list" where
  "fixed_questions lib =
     [(''response_route'', choice_question lib ''Choose the response route for this event.''
         [(''silent'', ''No public response.''), (''reaction'', ''Non-verbal or short reaction.''),
          (''cached'', ''Reuse one retrieved performance asset.''), (''template'', ''Use a deterministic template.''),
          (''llm'', ''Generate a novel long-form response.'')]),
      (''reaction_family'', choice_question lib ''Choose a compact semantic reaction family.''
         [(''none'', ''No reaction.''), (''agree'', ''Agreement or affirmation.''),
          (''laugh'', ''Amused or playful laughter.''), (''surprise'', ''Surprised reaction.''),
          (''confused'', ''Confusion or uncertainty.''), (''empathy'', ''Supportive or empathetic reaction.'')]),
      (''gesture_family'', choice_question lib ''Choose an allowed gesture family.''
         [(''none'', ''No gesture.''), (''nod_small'', ''Small nod.''), (''head_shake_small'', ''Small head shake.''),
          (''wave_small'', ''Small wave.''), (''shrug_small'', ''Small shrug.'')]),
      (''attention_target'', choice_question lib ''Choose the attention target.''
         [(''camera'', ''Look toward the camera.''), (''chat'', ''Attend to chat.''), (''game'', ''Attend to the game.''),
          (''speaker'', ''Attend to the speaker.''), (''away'', ''No active target.'')]),
      (''interrupt'', noul_question lib ''Should the current performance be interrupted?''),
      (''cache_reuse'', noul_question lib ''Is a retrieved candidate contextually safe to reuse?''),
      (''importance'', score_question lib ''How important is this event?'' [''low importance'', ''high importance'']),
      (''emotion_intensity'', score_question lib ''How intense should the emotional expression be?''
         [''low intensity'', ''high intensity''])]"

definition candidate_question :: "'v wire_lib \<Rightarrow> string list \<Rightarrow> 'v" where
  "candidate_question lib candidates = js_object lib
     [(''type'', js_string lib ''choice''),
      (''instructions'', js_string lib ''Select the best reusable candidate, or none.''),
      (''criteria'', js_object lib
         (fold (\<lambda>c. bm_insert c (js_string lib (''Reuse retrieved asset '' @ c @ ''.''))) candidates
            [(''none'', js_string lib ''Do not reuse any retrieved candidate.'')]))]"

definition build_questions :: "'v wire_lib \<Rightarrow> string list \<Rightarrow> (string, 'v) bmap" where
  "build_questions lib candidates =
     (let qs = fold (\<lambda>(n, q). bm_insert n q) (fixed_questions lib) []
      in if candidates \<noteq> [] then bm_insert ''selected_candidate'' (candidate_question lib candidates) qs else qs)"

definition request_candidates :: "jev_config \<Rightarrow> 'v reflex_request \<Rightarrow> string list" where
  "request_candidates c r = take (jc_max_candidates c) (candidate_asset_ids (rq_retrieval r))"

definition build_request_body :: "'v wire_lib \<Rightarrow> jev_config \<Rightarrow> 'v reflex_request \<Rightarrow> engine_error + string" where
  "build_request_body lib c r =
     (case reflex_request_validate r of
        Inl e \<Rightarrow> Inl (engine_error_new EEK_InvalidRequest (''invalid reflex request: '' @ domain_error_display e))
      | Inr _ \<Rightarrow>
          let candidates = request_candidates c r; state = compact_state lib r candidates
          in case js_to_vec lib state of
               Inl e \<Rightarrow> Inl (engine_error_new EEK_InvalidRequest e)
             | Inr bytes \<Rightarrow>
                 if jc_max_state_bytes c < length bytes
                 then Inl (engine_error_new EEK_InvalidRequest
                        (''compact Jev state exceeds '' @ show_nat (jc_max_state_bytes c) @ '' bytes''))
                 else map_sum (engine_error_new EEK_InvalidRequest) id
                        (js_request_to_vec lib state (jc_model_alias c) (build_questions lib candidates)))"

section \<open>Responses\<close>

datatype normalized_answer =
  NA_Choice string f64 "(string, f64) bmap"
| NA_Noul f64
| NA_Score f64 f64 "(string, f64) bmap"

definition parse_jev_response_body :: "'v wire_lib \<Rightarrow> string \<Rightarrow> string + 'v system_one_response" where
  "parse_jev_response_body lib body =
     (if MAX_JEV_RESPONSE_BYTES < length body
      then Inl (''Jev response exceeded '' @ show_nat MAX_JEV_RESPONSE_BYTES @ '' byte limit'')
      else map_sum (\<lambda>e. ''invalid Jev response JSON: '' @ e) id (js_from_slice lib body))"

definition answer_object ::
  "'v wire_lib \<Rightarrow> (string, 'v) bmap \<Rightarrow> string \<Rightarrow> string \<Rightarrow> string + (string \<times> 'v) list" where
  "answer_object lib answers name expected_type =
     (case Option.bind (bm_get answers name) (js_as_object lib) of
        None \<Rightarrow> Inl (''answer '' @ js_debug lib name @ '' is missing or not an object'')
      | Some obj \<Rightarrow>
          case Option.bind (map_of obj ''type'') (js_as_str lib) of
            None \<Rightarrow> Inl (name @ ''.type is missing'')
          | Some ty \<Rightarrow>
              if ty \<noteq> expected_type
              then Inl (name @ ''.type expected '' @ js_debug lib expected_type @ '', got '' @ js_debug lib ty)
              else Inr obj)"

definition unit_number :: "'v wire_lib \<Rightarrow> 'v option \<Rightarrow> string \<Rightarrow> string + f64" where
  "unit_number lib v field =
     (case Option.bind v (js_as_f64 lib) of
        None \<Rightarrow> Inl (field @ '' is missing or not a number'')
      | Some n \<Rightarrow>
          if f64_is_finite n \<and> f64_unit_interval n then Inr n else Inl (field @ '' must be in 0..=1''))"

fun probability_entries ::
  "'v wire_lib \<Rightarrow> string \<Rightarrow> (string, f64) bmap \<Rightarrow> (string \<times> 'v) list \<Rightarrow> string + (string, f64) bmap" where
  "probability_entries lib field acc [] = Inr acc"
| "probability_entries lib field acc ((n, v) # rest) =
     rbind (unit_number lib (Some v) (field @ ''.probabilities.'' @ n)) (\<lambda>p.
     probability_entries lib field (bm_insert n p acc) rest)"

definition probability_map :: "'v wire_lib \<Rightarrow> 'v option \<Rightarrow> string \<Rightarrow> string + (string, f64) bmap" where
  "probability_map lib v field =
     (case Option.bind v (js_as_object lib) of
        None \<Rightarrow> Inl (field @ ''.probabilities is missing'')
      | Some obj \<Rightarrow>
          rbind (probability_entries lib field [] obj) (\<lambda>ps.
          if ps = [] then Inl (field @ ''.probabilities must not be empty'') else Inr ps))"

definition parse_choice ::
  "'v wire_lib \<Rightarrow> (string, 'v) bmap \<Rightarrow> string \<Rightarrow> string + string \<times> f64 \<times> normalized_answer" where
  "parse_choice lib answers name =
     rbind (answer_object lib answers name ''choice'') (\<lambda>obj.
     case Option.bind (map_of obj ''choice'') (js_as_str lib) of
       None \<Rightarrow> Inl (name @ ''.choice is missing'')
     | Some choice \<Rightarrow>
         rbind (unit_number lib (map_of obj ''confidence'') (name @ ''.confidence'')) (\<lambda>confidence.
         rbind (probability_map lib (map_of obj ''probabilities'') name) (\<lambda>ps.
         Inr (choice, confidence, NA_Choice choice confidence ps))))"

definition parse_noul :: "'v wire_lib \<Rightarrow> (string, 'v) bmap \<Rightarrow> string \<Rightarrow> string + f64 \<times> normalized_answer" where
  "parse_noul lib answers name =
     rbind (answer_object lib answers name ''noul'') (\<lambda>obj.
     rbind (unit_number lib (map_of obj ''noul'') (name @ ''.noul'')) (\<lambda>p.
     Inr (p, NA_Noul p)))"

definition parse_score :: "'v wire_lib \<Rightarrow> (string, 'v) bmap \<Rightarrow> string \<Rightarrow> string + f64 \<times> normalized_answer" where
  "parse_score lib answers name =
     rbind (answer_object lib answers name ''score'') (\<lambda>obj.
     rbind (unit_number lib (map_of obj ''score'') (name @ ''.score'')) (\<lambda>score.
     rbind (unit_number lib (map_of obj ''confidence'') (name @ ''.confidence'')) (\<lambda>confidence.
     rbind (probability_map lib (map_of obj ''probabilities'') name) (\<lambda>ps.
     if Option.bind (map_of obj ''legend'') (js_as_object lib) = None then Inl (name @ ''.legend is missing'')
     else Inr (score, NA_Score score confidence ps)))))"

definition route_of_choice :: "'v wire_lib \<Rightarrow> string \<Rightarrow> string + response_route" where
  "route_of_choice lib s =
     (if s = ''silent'' then Inr RR_Silent
      else if s = ''reaction'' then Inr RR_Reaction
      else if s = ''cached'' then Inr RR_Cached
      else if s = ''template'' then Inr RR_Template
      else if s = ''llm'' then Inr RR_Llm
      else Inl (''unknown response_route choice '' @ js_debug lib s))"

definition attention_of_choice :: "'v wire_lib \<Rightarrow> string \<Rightarrow> string + attention_target" where
  "attention_of_choice lib s =
     (if s = ''camera'' then Inr AT_Camera
      else if s = ''chat'' then Inr AT_Chat
      else if s = ''game'' then Inr AT_Game
      else if s = ''speaker'' then Inr AT_Speaker
      else if s = ''away'' then Inr AT_Away
      else Inl (''unknown attention_target choice '' @ js_debug lib s))"

record normalized_response =
  nr_decision :: reflex_decision
  nr_selected_candidate_id :: "string option"
  nr_answers :: "(string, normalized_answer) bmap"

text \<open>The choice of a candidate, asked for only when there are candidates.\<close>

definition select_answer ::
  "'v wire_lib \<Rightarrow> (string, 'v) bmap \<Rightarrow> string list \<Rightarrow> (string, normalized_answer) bmap \<Rightarrow>
     string + string option \<times> (string, normalized_answer) bmap" where
  "select_answer lib answers candidates acc =
     (if candidates = [] then Inr (None, acc)
      else rbind (parse_choice lib answers ''selected_candidate'') (\<lambda>(selected, _, answer).
        let acc = bm_insert ''selected_candidate'' answer acc
        in if selected = ''none'' then Inr (None, acc)
           else if selected \<in> set candidates then Inr (Some selected, acc)
           else Inl (''Jev selected candidate '' @ js_debug lib selected @ '' that was not in Top-K'')))"

text \<open>The map of the answers, inserted one by one.\<close>

definition answer_map :: "(string \<times> normalized_answer) list \<Rightarrow> (string, normalized_answer) bmap" where
  "answer_map answers = fold (\<lambda>(n, a). bm_insert n a) answers []"

definition some_unless_none :: "string \<Rightarrow> string option" where
  "some_unless_none s = (if s \<noteq> ''none'' then Some s else None)"

definition normalize_answers ::
  "'v wire_lib \<Rightarrow> (string, 'v) bmap \<Rightarrow> string list \<Rightarrow> string \<Rightarrow> string \<Rightarrow> f64 \<Rightarrow> string + normalized_response" where
  "normalize_answers lib answers candidates requested_model returned_model latency_ms =
     rbind (parse_choice lib answers ''response_route'') (\<lambda>(route, route_confidence, route_answer).
     rbind (route_of_choice lib route) (\<lambda>route.
     rbind (parse_choice lib answers ''reaction_family'') (\<lambda>(reaction, _, reaction_answer).
     rbind (parse_choice lib answers ''gesture_family'') (\<lambda>(gesture, _, gesture_answer).
     rbind (parse_choice lib answers ''attention_target'') (\<lambda>(attention, _, attention_answer).
     rbind (attention_of_choice lib attention) (\<lambda>attention.
     rbind (parse_noul lib answers ''interrupt'') (\<lambda>(interrupt_probability, interrupt_answer).
     rbind (parse_noul lib answers ''cache_reuse'') (\<lambda>(cache_reuse_probability, cache_answer).
     rbind (parse_score lib answers ''importance'') (\<lambda>(importance, importance_answer).
     rbind (parse_score lib answers ''emotion_intensity'') (\<lambda>(emotion_intensity, emotion_answer).
     rbind (select_answer lib answers candidates
         (answer_map
            [(''response_route'', route_answer), (''reaction_family'', reaction_answer), (''gesture_family'', gesture_answer),
             (''attention_target'', attention_answer), (''interrupt'', interrupt_answer), (''cache_reuse'', cache_answer),
             (''importance'', importance_answer), (''emotion_intensity'', emotion_answer)])) (\<lambda>(selected, normalized).
     let decision =
       \<lparr>rf_schema_version = REFLEX_SCHEMA_VERSION,
        rf_route = \<lparr>rd_value = route, rd_confidence = Some route_confidence\<rparr>,
        rf_reaction_family = some_unless_none reaction, rf_gesture_family = some_unless_none gesture,
        rf_attention_target = attention, rf_interrupt_probability = interrupt_probability,
        rf_cache_reuse_probability = cache_reuse_probability, rf_importance = importance,
        rf_emotion_intensity = emotion_intensity,
        rf_backend = \<lparr>bi_name = ''jev'', bi_model_alias = Some requested_model, bi_model_version = Some returned_model\<rparr>,
        rf_latency_ms = latency_ms, rf_fallback_reason = FR_None\<rparr>
     in case reflex_decision_validate decision of
          Inl e \<Rightarrow> Inl (''normalized Jev decision is invalid: '' @ domain_error_display e)
        | Inr _ \<Rightarrow> Inr \<lparr>nr_decision = decision, nr_selected_candidate_id = selected, nr_answers = normalized\<rparr>)))))))))))"

end
