(* ===== verification/Generative.thy ===== *)
theory Generative
  imports Jev_Wire Asset_Store Scheduler_Model
begin

text \<open>
  The generative fallback, \<open>crates/generative/src/lib.rs\<close>, with the speech types of
  \<open>crates/domain/src/interfaces.rs\<close>: the compiler of generated replies into performance assets, the
  incremental compilation session, the collector of streaming speech, the pipeline and the cancellation
  registry. The engines, the output gate, the clock and the cancellation token are an environment.
\<close>

section \<open>Engine data\<close>

record generated_reply =
  gy_text :: string

record speech_request =
  sq_text :: string
  sq_style :: "string option"

record speech_artifact =
  sa_audio_ref :: string
  sa_duration_ms :: u64
  sa_viseme_ref :: "string option"

record speech_progress =
  pg_sequence :: u64
  pg_audio_ref :: string
  pg_duration_ms :: u64
  pg_viseme_ref :: "string option"
  pg_final_chunk :: bool

record tts_backend_identity =
  tb_backend :: backend_identity
  tb_voice_model :: "string option"
  tb_viseme_mapping :: "string option"

section \<open>Requests and results\<close>

datatype generation_routing_reason =
  GR_ExplicitLlmRoute | GR_NoCachedMatch | GR_LowSemanticConfidence | GR_NovelResponseRequested | GR_CachedRouteFailed

fun routing_reason_str :: "generation_routing_reason \<Rightarrow> string" where
  "routing_reason_str GR_ExplicitLlmRoute = ''explicit_llm_route''"
| "routing_reason_str GR_NoCachedMatch = ''no_cached_match''"
| "routing_reason_str GR_LowSemanticConfidence = ''low_semantic_confidence''"
| "routing_reason_str GR_NovelResponseRequested = ''novel_response_requested''"
| "routing_reason_str GR_CachedRouteFailed = ''cached_route_failed''"

record llm_call_record =
  lc_event_id :: string
  lc_routing_reason :: generation_routing_reason
  lc_backend :: backend_identity

datatype cancellation_stage = CG_BeforeThinking | CG_AfterThinking | CG_AfterTts | CG_BeforePublish

datatype fallback_directive = FD_CachedReaction string string | FD_NonVerbalReaction string

record generation_trace =
  gt_llm_calls :: "llm_call_record list"
  gt_tts_attempted :: bool
  gt_tts_streaming :: bool
  gt_tts_progress_chunks :: usize
  gt_tts_backend :: "tts_backend_identity option"
  gt_thinking_timeout_ms :: "u64 option"
  gt_tts_timeout_ms :: "u64 option"
  gt_fallback_reason :: reflex_fallback_reason
  gt_cancelled_stage :: "cancellation_stage option"
  gt_budget_denial_reason :: "string option"

definition default_generation_trace :: generation_trace where
  "default_generation_trace =
     \<lparr>gt_llm_calls = [], gt_tts_attempted = False, gt_tts_streaming = False, gt_tts_progress_chunks = 0,
      gt_tts_backend = None, gt_thinking_timeout_ms = None, gt_tts_timeout_ms = None, gt_fallback_reason = FR_None,
      gt_cancelled_stage = None, gt_budget_denial_reason = None\<rparr>"

datatype 'v generation_disposition =
  GD_Generated "'v performance_asset" | GD_Fallback fallback_directive | GD_Cancelled cancellation_stage

record 'v generation_result =
  gs_trace :: generation_trace
  gs_disposition :: "'v generation_disposition"

datatype text_gate_decision = Gate_Publish string | Gate_Reject

record 'v generation_request =
  gq_source_event :: "'v event_envelope"
  gq_thinking :: thinking_request
  gq_routing_reason :: generation_routing_reason
  gq_intent :: string
  gq_style :: "string option"
  gq_fallback_variant_group :: "string option"
  gq_seed :: u64

section \<open>The compiler\<close>

record compiler_config =
  cc_compiler_version :: string
  cc_avatar_profile :: "string option"
  cc_motion_library :: "string option"
  cc_expression_preset :: "string option"
  cc_expression_intensity :: f64

text \<open>\<open>0.4\<close> is the nearest \<open>f64\<close>.\<close>

definition default_compiler_config :: compiler_config where
  "default_compiler_config =
     \<lparr>cc_compiler_version = PERFORMANCE_ASSET_SCHEMA_VERSION, cc_avatar_profile = None, cc_motion_library = None,
      cc_expression_preset = Some ''speaking.neutral'', cc_expression_intensity = f64_round (2 / 5)\<rparr>"

text \<open>A \<open>GenerationError\<close> is its message, a \<open>PerformanceCompiler\<close> its configuration.\<close>

definition compiler_new :: "compiler_config \<Rightarrow> string + compiler_config" where
  "compiler_new c =
     (if trim_is_empty (cc_compiler_version c) then Inl ''compiler_version must not be empty''
      else if \<not> f64_is_finite (cc_expression_intensity c) \<or>
              \<not> (f64_le (Fin 0) (cc_expression_intensity c) \<and> f64_le (cc_expression_intensity c) (Fin 1))
      then Inl ''expression_intensity must be a finite value in 0..=1''
      else Inr c)"

definition opt_bytes :: "string option \<Rightarrow> string" where
  "opt_bytes s = (case s of None \<Rightarrow> [] | Some s \<Rightarrow> s)"

text \<open>\<open>{hash:016x}\<close> is the hexadecimal of the eight bytes.\<close>

definition generated_asset_id :: "'v event_envelope \<Rightarrow> string \<Rightarrow> backend_identity \<Rightarrow> tts_backend_identity \<Rightarrow> string" where
  "generated_asset_id e reply th tts =
     (let h = foldl fnv_step (0xcbf29ce484222325 :: 64 word) (ev_event_id e);
          h = foldl fnv_step h (le_bytes (ev_sequence e));
          h = foldl fnv_step h reply;
          h = foldl fnv_step h (bi_name th);
          h = foldl fnv_step h (opt_bytes (bi_model_alias th));
          h = foldl fnv_step h (opt_bytes (bi_model_version th));
          h = foldl fnv_step h (bi_name (tb_backend tts));
          h = foldl fnv_step h (opt_bytes (bi_model_alias (tb_backend tts)));
          h = foldl fnv_step h (opt_bytes (bi_model_version (tb_backend tts)))
      in ''dynamic.generated.'' @ hex_encode (be_bytes (unat h)))"

text \<open>The asset that \<open>compile\<close> builds from accepted inputs.\<close>

definition compiled_expression :: "compiler_config \<Rightarrow> expression_track option" where
  "compiled_expression c =
     map_option (\<lambda>p. \<lparr>ex_preset = p, ex_intensity = cc_expression_intensity c\<rparr>) (cc_expression_preset c)"

definition compiled_timeline :: "'v wire_lib \<Rightarrow> expression_track option \<Rightarrow> u64 \<Rightarrow> 'v timeline_event list" where
  "compiled_timeline lib ex duration =
     (case ex of None \<Rightarrow> []
      | Some e \<Rightarrow> [\<lparr>te_at_ms = 0, te_event = ''expression.start'',
                     te_payload = Some (js_object lib [(''preset'', js_string lib (ex_preset e))])\<rparr>]) @
     [\<lparr>te_at_ms = 0, te_event = ''speech.start'', te_payload = None\<rparr>,
      \<lparr>te_at_ms = duration, te_event = ''speech.end'', te_payload = None\<rparr>]"

definition compiled_asset ::
  "'v wire_lib \<Rightarrow> compiler_config \<Rightarrow> 'v generation_request \<Rightarrow> string \<Rightarrow> speech_artifact \<Rightarrow> backend_identity \<Rightarrow>
     tts_backend_identity \<Rightarrow> 'v performance_asset" where
  "compiled_asset lib c r reply sp th tts =
     \<lparr>pa_schema_version = PERFORMANCE_ASSET_SCHEMA_VERSION,
      pa_id = generated_asset_id (gq_source_event r) reply th tts,
      pa_intent = gq_intent r, pa_class = ACl_Dynamic, pa_variant_group = None,
      pa_speech = Some \<lparr>sp_text = Some reply, sp_audio_ref = Some (sa_audio_ref sp),
        sp_duration_ms = Some (sa_duration_ms sp), sp_viseme_ref = sa_viseme_ref sp\<rparr>,
      pa_expression = compiled_expression c, pa_gesture = None, pa_gaze = Some GT_Camera,
      pa_timeline = compiled_timeline lib (compiled_expression c) (sa_duration_ms sp),
      pa_interrupt_points_ms = [sa_duration_ms sp], pa_variation = None,
      pa_compatibility = \<lparr>cm_compiler_version = cc_compiler_version c, cm_voice_model = tb_voice_model tts,
        cm_avatar_profile = cc_avatar_profile c, cm_viseme_mapping = tb_viseme_mapping tts,
        cm_motion_library = cc_motion_library c\<rparr>,
      pa_semantic_embedding = None,
      pa_provenance = Some \<lparr>pv_generated = Some True, pv_generator = Some ''aivtuber-generative'',
        pv_created_at = Some (ev_observed_at (gq_source_event r)),
        pv_thinking_backend = Some (bi_name th), pv_thinking_model_alias = bi_model_alias th,
        pv_thinking_model_version = bi_model_version th, pv_tts_backend = Some (bi_name (tb_backend tts)),
        pv_tts_model_alias = bi_model_alias (tb_backend tts), pv_tts_model_version = bi_model_version (tb_backend tts),
        pv_routing_reason = Some (routing_reason_str (gq_routing_reason r))\<rparr>\<rparr>"

definition compile_asset ::
  "'v wire_lib \<Rightarrow> compiler_config \<Rightarrow> 'v generation_request \<Rightarrow> string \<Rightarrow> speech_artifact \<Rightarrow> backend_identity \<Rightarrow>
     tts_backend_identity \<Rightarrow> string + 'v performance_asset" where
  "compile_asset lib c r reply sp th tts =
     (if trim_is_empty (gq_intent r) then Inl ''generation intent must not be empty''
      else if trim_is_empty reply then Inl ''generated reply must not be empty''
      else if trim_is_empty (sa_audio_ref sp) \<or> sa_duration_ms sp = 0
      then Inl ''speech artifact requires audio_ref and positive duration_ms''
      else let asset = compiled_asset lib c r reply sp th tts
        in case validate_asset asset of
             Inl issues \<Rightarrow> Inl (''compiled asset is invalid: '' @ issues_display issues)
           | Inr _ \<Rightarrow> Inr asset)"

section \<open>The incremental session\<close>

record streaming_speech_update =
  su_audio_ref :: string
  su_duration_ms :: u64
  su_viseme_ref :: "string option"
  su_final_chunk :: bool

record 'v streaming_session =
  sx_request :: "'v generation_request"
  sx_thinking :: backend_identity
  sx_tts :: tts_backend_identity
  sx_reply_text :: string
  sx_speech :: "speech_artifact option"
  sx_speech_final :: bool
  sx_cancelled :: bool

definition session_new :: "'v generation_request \<Rightarrow> backend_identity \<Rightarrow> tts_backend_identity \<Rightarrow> 'v streaming_session" where
  "session_new r th tts =
     \<lparr>sx_request = r, sx_thinking = th, sx_tts = tts, sx_reply_text = [], sx_speech = None, sx_speech_final = False,
      sx_cancelled = False\<rparr>"

definition ensure_active :: "'v streaming_session \<Rightarrow> string + unit" where
  "ensure_active s =
     (if sx_cancelled s then Inl ''streaming compilation is already cancelled''
      else if sx_speech_final s then Inl ''streaming compilation already received its final speech chunk''
      else Inr ())"

definition push_text_chunk :: "string \<Rightarrow> 'v streaming_session \<Rightarrow> (string + unit) \<times> 'v streaming_session" where
  "push_text_chunk chunk s =
     (case ensure_active s of
        Inl e \<Rightarrow> (Inl e, s)
      | Inr _ \<Rightarrow> (Inr (), s\<lparr>sx_reply_text := sx_reply_text s @ chunk\<rparr>))"

definition push_speech_update ::
  "streaming_speech_update \<Rightarrow> 'v streaming_session \<Rightarrow> (string + unit) \<times> 'v streaming_session" where
  "push_speech_update u s =
     (case ensure_active s of
        Inl e \<Rightarrow> (Inl e, s)
      | Inr _ \<Rightarrow>
          if trim_is_empty (su_audio_ref u) \<or> su_duration_ms u = 0
          then (Inl ''streaming speech update requires audio_ref and positive duration_ms'', s)
          else if (case sx_speech s of None \<Rightarrow> False | Some x \<Rightarrow> sa_audio_ref x \<noteq> su_audio_ref u)
          then (Inl ''streaming speech updates must use one stable audio_ref'', s)
          else if (case sx_speech s of None \<Rightarrow> False | Some x \<Rightarrow> su_duration_ms u < sa_duration_ms x)
          then (Inl ''streaming speech duration must be monotonic'', s)
          else (Inr (), s\<lparr>sx_speech := Some \<lparr>sa_audio_ref = su_audio_ref u, sa_duration_ms = su_duration_ms u,
                              sa_viseme_ref = su_viseme_ref u\<rparr>,
                          sx_speech_final := sx_speech_final s \<or> su_final_chunk u\<rparr>))"

definition session_cancel :: "'v streaming_session \<Rightarrow> 'v streaming_session" where
  "session_cancel s = s\<lparr>sx_cancelled := True\<rparr>"

definition session_finalize ::
  "'v wire_lib \<Rightarrow> compiler_config \<Rightarrow> 'v streaming_session \<Rightarrow> string + 'v performance_asset" where
  "session_finalize lib c s =
     (if sx_cancelled s then Inl ''streaming compilation was cancelled before publish''
      else if \<not> sx_speech_final s then Inl ''streaming speech is incomplete; final chunk was not received''
      else case sx_speech s of
        None \<Rightarrow> Inl ''streaming speech produced no artifact''
      | Some sp \<Rightarrow> compile_asset lib c (sx_request s) (sx_reply_text s) sp (sx_thinking s) (sx_tts s))"

section \<open>Streaming speech\<close>

text \<open>The collector is the list of the progress it accepted, in order.\<close>

type_synonym speech_collector = "speech_progress list"

definition collector_push :: "speech_progress \<Rightarrow> speech_collector \<Rightarrow> (engine_error + unit) \<times> speech_collector" where
  "collector_push p ps =
     (if trim_is_empty (pg_audio_ref p) \<or> pg_duration_ms p = 0
      then (Inl (engine_error_new EEK_InvalidRequest ''streaming TTS progress requires audio_ref and positive duration_ms''), ps)
      else if ps \<noteq> [] \<and> pg_sequence p \<le> pg_sequence (last ps)
      then (Inl (engine_error_new EEK_InvalidRequest ''streaming TTS sequence must be strictly increasing''), ps)
      else if ps \<noteq> [] \<and> pg_audio_ref p \<noteq> pg_audio_ref (last ps)
      then (Inl (engine_error_new EEK_InvalidRequest ''streaming TTS must keep one stable audio_ref''), ps)
      else if ps \<noteq> [] \<and> pg_duration_ms p < pg_duration_ms (last ps)
      then (Inl (engine_error_new EEK_InvalidRequest ''streaming TTS duration must be monotonic''), ps)
      else if ps \<noteq> [] \<and> pg_final_chunk (last ps)
      then (Inl (engine_error_new EEK_InvalidRequest ''streaming TTS emitted data after final_chunk''), ps)
      else (Inr (), ps @ [p]))"

definition validate_final :: "speech_artifact \<Rightarrow> speech_collector \<Rightarrow> engine_error + unit" where
  "validate_final sp ps =
     (if ps = [] then Inl (engine_error_new EEK_Backend ''streaming TTS returned no progress chunks'')
      else if \<not> pg_final_chunk (last ps)
      then Inl (engine_error_new EEK_Backend ''streaming TTS completed without final_chunk'')
      else if pg_audio_ref (last ps) \<noteq> sa_audio_ref sp \<or> pg_duration_ms (last ps) \<noteq> sa_duration_ms sp
      then Inl (engine_error_new EEK_Backend ''streaming TTS final progress does not match final artifact'')
      else Inr ())"

text \<open>
  A streaming engine sees of the sink the result of each push: a run of its future is a script that pushes
  and goes on with the result, or returns, leaving the world in the given state.
\<close>

datatype 'w tts_script =
  Tts_Return "engine_error + speech_artifact" 'w
| Tts_Push speech_progress "engine_error + unit \<Rightarrow> 'w tts_script"

primrec run_tts_script :: "'w tts_script \<Rightarrow> speech_collector \<Rightarrow> (engine_error + speech_artifact) \<times> speech_collector \<times> 'w" where
  "run_tts_script (Tts_Return r w) ps = (r, ps, w)"
| "run_tts_script (Tts_Push p k) ps = run_tts_script (k (fst (collector_push p ps))) (snd (collector_push p ps))"

section \<open>The environment\<close>

text \<open>
  Every operation takes the world and returns it; instants and durations are nanoseconds. An engine call
  is the future it returns and \<open>block_on\<close> of it, which comes back. \<open>ge_stream\<close> and \<open>ge_stream_within\<close>
  give \<open>None\<close> when the backend does not stream.
\<close>

record 'w gen_env =
  ge_now :: "'w \<Rightarrow> nat \<times> 'w"
  ge_cancelled :: "'w \<Rightarrow> bool \<times> 'w"
  ge_gate :: "string \<Rightarrow> 'w \<Rightarrow> text_gate_decision \<times> 'w"
  ge_thinking_identity :: "'w \<Rightarrow> backend_identity \<times> 'w"
  ge_generate :: "thinking_request \<Rightarrow> 'w \<Rightarrow> (engine_error + generated_reply) \<times> 'w"
  ge_generate_within :: "thinking_request \<Rightarrow> nat \<Rightarrow> 'w \<Rightarrow> (engine_error + generated_reply) \<times> 'w"
  ge_tts_identity :: "'w \<Rightarrow> tts_backend_identity \<times> 'w"
  ge_stream :: "speech_request \<Rightarrow> 'w \<Rightarrow> 'w tts_script option \<times> 'w"
  ge_stream_within :: "speech_request \<Rightarrow> nat \<Rightarrow> 'w \<Rightarrow> 'w tts_script option \<times> 'w"
  ge_synthesize :: "speech_request \<Rightarrow> 'w \<Rightarrow> (engine_error + speech_artifact) \<times> 'w"
  ge_synthesize_within :: "speech_request \<Rightarrow> nat \<Rightarrow> 'w \<Rightarrow> (engine_error + speech_artifact) \<times> 'w"

definition remaining_provider_timeout :: "'w gen_env \<Rightarrow> nat option \<Rightarrow> 'w \<Rightarrow> (unit + nat option) \<times> 'w" where
  "remaining_provider_timeout env deadline w =
     (case deadline of
        None \<Rightarrow> (Inr None, w)
      | Some d \<Rightarrow> (case ge_now env w of (now, w) \<Rightarrow> (if now < d then Inr (Some (d - now)) else Inl (), w)))"

text \<open>A \<open>u128\<close> saturating sum.\<close>

definition duration_ms_ceil :: "nat \<Rightarrow> u64" where
  "duration_ms_ceil ns = min (min (ns + 999999) (2 ^ 128 - 1) div 1000000) u64_max"

definition run_streaming_tts ::
  "'w gen_env \<Rightarrow> speech_request \<Rightarrow> nat option \<Rightarrow> 'w \<Rightarrow>
     ((engine_error + speech_artifact) \<times> speech_collector) option \<times> 'w" where
  "run_streaming_tts env sr timeout w =
     (case (case timeout of Some d \<Rightarrow> ge_stream_within env sr d w | None \<Rightarrow> ge_stream env sr w) of
        (None, w) \<Rightarrow> (None, w)
      | (Some script, _) \<Rightarrow> (case run_tts_script script [] of (r, ps, w) \<Rightarrow> (Some (r, ps), w)))"

section \<open>The pipeline\<close>

definition cancelled_result :: "generation_trace \<Rightarrow> cancellation_stage \<Rightarrow> 'v generation_result" where
  "cancelled_result t stage = \<lparr>gs_trace = t\<lparr>gt_cancelled_stage := Some stage\<rparr>, gs_disposition = GD_Cancelled stage\<rparr>"

definition fallback_result :: "generation_trace \<Rightarrow> fallback_directive \<Rightarrow> 'v generation_result" where
  "fallback_result t d = \<lparr>gs_trace = t, gs_disposition = GD_Fallback d\<rparr>"

fun fallback_reason_from_error :: "engine_error_kind \<Rightarrow> reflex_fallback_reason" where
  "fallback_reason_from_error EEK_Timeout = FR_Timeout"
| "fallback_reason_from_error EEK_Unavailable = FR_Unavailable"
| "fallback_reason_from_error EEK_RateLimited = FR_RateLimited"
| "fallback_reason_from_error EEK_Overloaded = FR_Overloaded"
| "fallback_reason_from_error EEK_Authentication = FR_Authentication"
| "fallback_reason_from_error EEK_InvalidRequest = FR_InvalidRequest"
| "fallback_reason_from_error EEK_Unauthorized = FR_Unavailable"
| "fallback_reason_from_error EEK_Backend = FR_Unavailable"

definition select_fallback_directive :: "'v generation_request \<Rightarrow> 'v asset_store option \<Rightarrow> fallback_directive" where
  "select_fallback_directive r assets =
     (let family = (case gq_fallback_variant_group r of Some g \<Rightarrow> g | None \<Rightarrow> ''reaction.neutral'')
      in case Option.bind assets (select_variant_id family (gq_seed r) []) of
           Some i \<Rightarrow> FD_CachedReaction family i
         | None \<Rightarrow> FD_NonVerbalReaction family)"

definition generation_request_check :: "'v generation_request \<Rightarrow> string + unit" where
  "generation_request_check r =
     (let e = gq_source_event r; i = tq_input (gq_thinking r) in
      rbind (map_sum (\<lambda>x. ''invalid generation event: '' @ domain_error_display x) id (validate_event e)) (\<lambda>_.
      rbind (map_sum (\<lambda>x. ''invalid thinking request: '' @ domain_error_display x) id
               (thinking_request_validate (gq_thinking r))) (\<lambda>_.
      if tn_event_id i \<noteq> Some (ev_event_id e) \<or> tn_event_kind i \<noteq> Some (ev_kind e) \<or>
         tn_source_class i \<noteq> Some (ev_source_class e) \<or> tn_trust_level i \<noteq> ev_trust_level e
      then Inl ''thinking request input provenance must match source_event''
      else if trim_is_empty (gq_intent r) then Inl ''generation intent must not be empty''
      else Inr ())))"

text \<open>What the run carries past its validation: everything but the trace and the world.\<close>

record ('v, 'w) gen_run =
  gx_lib :: "'v wire_lib"
  gx_env :: "'w gen_env"
  gx_compiler :: compiler_config
  gx_request :: "'v generation_request"
  gx_fallback :: fallback_directive
  gx_deadline :: "nat option"

definition gen_fallback :: "('v, 'w) gen_run \<Rightarrow> reflex_fallback_reason \<Rightarrow> generation_trace \<Rightarrow> 'v generation_result" where
  "gen_fallback g reason t = fallback_result (t\<lparr>gt_fallback_reason := reason\<rparr>) (gx_fallback g)"

text \<open>From the speech on: compile and publish, unless cancelled.\<close>

definition gen_publish ::
  "('v, 'w) gen_run \<Rightarrow> backend_identity \<Rightarrow> tts_backend_identity \<Rightarrow> string \<Rightarrow> engine_error + speech_artifact \<Rightarrow>
     generation_trace \<Rightarrow> 'w \<Rightarrow> 'v generation_result \<times> 'w" where
  "gen_publish g th tts reply result t w =
     (case result of
        Inl e \<Rightarrow> (gen_fallback g (fallback_reason_from_error (ee_kind e)) t, w)
      | Inr sp \<Rightarrow>
          case ge_cancelled (gx_env g) w of (c, w) \<Rightarrow>
          if c then (cancelled_result t CG_AfterTts, w)
          else case compile_asset (gx_lib g) (gx_compiler g) (gx_request g) reply sp th tts of
            Inl _ \<Rightarrow> (gen_fallback g FR_InvalidRequest t, w)
          | Inr asset \<Rightarrow>
              case ge_cancelled (gx_env g) w of (c, w) \<Rightarrow>
              if c then (cancelled_result t CG_BeforePublish, w)
              else (\<lparr>gs_trace = t, gs_disposition = GD_Generated asset\<rparr>, w))"

text \<open>The speech of an accepted text.\<close>

definition gen_speech ::
  "'w gen_env \<Rightarrow> speech_request \<Rightarrow> nat option \<Rightarrow> generation_trace \<Rightarrow> 'w \<Rightarrow>
     (engine_error + speech_artifact) \<times> generation_trace \<times> 'w" where
  "gen_speech env sr timeout t w =
     (case run_streaming_tts env sr timeout w of
        (Some (result, progress), w) \<Rightarrow>
          (case result of
             Inr sp \<Rightarrow> map_sum id (\<lambda>_. sp) (validate_final sp progress)
           | Inl e \<Rightarrow> Inl e,
           t\<lparr>gt_tts_streaming := True, gt_tts_progress_chunks := length progress\<rparr>, w)
      | (None, w) \<Rightarrow>
          case (case timeout of Some d \<Rightarrow> ge_synthesize_within env sr d w | None \<Rightarrow> ge_synthesize env sr w) of
            (result, w) \<Rightarrow> (result, t, w))"

definition gen_speak ::
  "('v, 'w) gen_run \<Rightarrow> backend_identity \<Rightarrow> string \<Rightarrow> generation_trace \<Rightarrow> 'w \<Rightarrow> 'v generation_result \<times> 'w" where
  "gen_speak g th reply t w =
     (case remaining_provider_timeout (gx_env g) (gx_deadline g) w of
        (Inl _, w) \<Rightarrow> (gen_fallback g FR_Timeout t, w)
      | (Inr timeout, w) \<Rightarrow>
          case ge_tts_identity (gx_env g) w of (tts, w) \<Rightarrow>
          case gen_speech (gx_env g) \<lparr>sq_text = reply, sq_style = gq_style (gx_request g)\<rparr> timeout
                 (t\<lparr>gt_tts_timeout_ms := map_option duration_ms_ceil timeout, gt_tts_attempted := True,
                    gt_tts_backend := Some tts\<rparr>) w of
            (result, t, w) \<Rightarrow> gen_publish g th tts reply result t w)"

text \<open>From the reply on: the cancellation check and the output gate.\<close>

definition gen_gate ::
  "('v, 'w) gen_run \<Rightarrow> backend_identity \<Rightarrow> generated_reply \<Rightarrow> generation_trace \<Rightarrow> 'w \<Rightarrow> 'v generation_result \<times> 'w" where
  "gen_gate g th reply t w =
     (case ge_cancelled (gx_env g) w of (c, w) \<Rightarrow>
      if c then (cancelled_result t CG_AfterThinking, w)
      else case ge_gate (gx_env g) (gy_text reply) w of
        (Gate_Publish s, w) \<Rightarrow> if \<not> trim_is_empty s then gen_speak g th s t w else (gen_fallback g FR_PolicyOverride t, w)
      | (Gate_Reject, w) \<Rightarrow> (gen_fallback g FR_PolicyOverride t, w))"

text \<open>The thinking call of a validated request.\<close>

definition gen_think :: "('v, 'w) gen_run \<Rightarrow> 'w \<Rightarrow> 'v generation_result \<times> 'w" where
  "gen_think g w =
     (let t = default_generation_trace; env = gx_env g; r = gx_request g in
      case ge_cancelled env w of (c, w) \<Rightarrow>
      if c then (cancelled_result t CG_BeforeThinking, w)
      else case remaining_provider_timeout env (gx_deadline g) w of
        (Inl _, w) \<Rightarrow> (gen_fallback g FR_Timeout t, w)
      | (Inr timeout, w) \<Rightarrow>
          case ge_thinking_identity env w of (th, w) \<Rightarrow>
          let t = t\<lparr>gt_thinking_timeout_ms := map_option duration_ms_ceil timeout,
                    gt_llm_calls := [\<lparr>lc_event_id = ev_event_id (gq_source_event r),
                      lc_routing_reason = gq_routing_reason r, lc_backend = th\<rparr>]\<rparr>
          in case (case timeout of
                     Some d \<Rightarrow> ge_generate_within env (gq_thinking r) d w
                   | None \<Rightarrow> ge_generate env (gq_thinking r) w) of
               (Inl e, w) \<Rightarrow> (gen_fallback g (fallback_reason_from_error (ee_kind e)) t, w)
             | (Inr reply, w) \<Rightarrow> gen_gate g th reply t w)"

text \<open>\<open>run_with_output_gate_and_fallback_deadline\<close>\<close>

definition run_generation :: "('v, 'w) gen_run \<Rightarrow> 'w \<Rightarrow> (string + 'v generation_result) \<times> 'w" where
  "run_generation g w =
     (case generation_request_check (gx_request g) of
        Inl e \<Rightarrow> (Inl e, w)
      | Inr _ \<Rightarrow> apfst Inr (gen_think g w))"

definition run_with_output_gate ::
  "'v wire_lib \<Rightarrow> 'w gen_env \<Rightarrow> compiler_config \<Rightarrow> 'v generation_request \<Rightarrow> 'v asset_store option \<Rightarrow> 'w \<Rightarrow>
     (string + 'v generation_result) \<times> 'w" where
  "run_with_output_gate lib env c r assets w =
     run_generation \<lparr>gx_lib = lib, gx_env = env, gx_compiler = c, gx_request = r,
       gx_fallback = select_fallback_directive r assets, gx_deadline = None\<rparr> w"

text \<open>The gate of \<open>run\<close> publishes what it is given.\<close>

definition run_ungated ::
  "'v wire_lib \<Rightarrow> 'w gen_env \<Rightarrow> compiler_config \<Rightarrow> 'v generation_request \<Rightarrow> 'v asset_store option \<Rightarrow> 'w \<Rightarrow>
     (string + 'v generation_result) \<times> 'w" where
  "run_ungated lib env c r assets w =
     run_with_output_gate lib (env\<lparr>ge_gate := \<lambda>s w. (Gate_Publish s, w)\<rparr>) c r assets w"

section \<open>The cancellation registry\<close>

text \<open>
  A token is a shared flag: its address in the list of all flags. Each registry operation runs under its
  mutex.
\<close>

record active_generation =
  ag_event_id :: string
  ag_priority :: priority
  ag_token :: nat

record gen_registry =
  gc_flags :: "bool list"
  gc_active :: "active_generation option"

definition token_new :: "gen_registry \<Rightarrow> nat \<times> gen_registry" where
  "token_new s = (length (gc_flags s), s\<lparr>gc_flags := gc_flags s @ [False]\<rparr>)"

definition token_cancel :: "nat \<Rightarrow> gen_registry \<Rightarrow> gen_registry" where
  "token_cancel k s = s\<lparr>gc_flags := (gc_flags s)[k := True]\<rparr>"

definition token_is_cancelled :: "nat \<Rightarrow> gen_registry \<Rightarrow> bool" where
  "token_is_cancelled k s \<longleftrightarrow> gc_flags s ! k"

definition registry_new :: gen_registry where
  "registry_new = \<lparr>gc_flags = [], gc_active = None\<rparr>"

definition registry_activate :: "'v event_envelope \<Rightarrow> nat \<Rightarrow> gen_registry \<Rightarrow> gen_registry" where
  "registry_activate e k s =
     (let s' = s\<lparr>gc_active := Some \<lparr>ag_event_id = ev_event_id e, ag_priority = priority_for_event (ev_kind e), ag_token = k\<rparr>\<rparr>
      in case gc_active s of None \<Rightarrow> s' | Some previous \<Rightarrow> token_cancel (ag_token previous) s')"

definition registry_begin :: "'v event_envelope \<Rightarrow> gen_registry \<Rightarrow> nat \<times> gen_registry" where
  "registry_begin e s = (case token_new s of (k, s) \<Rightarrow> (k, registry_activate e k s))"

definition cancel_for_event :: "'v event_envelope \<Rightarrow> gen_registry \<Rightarrow> bool \<times> gen_registry" where
  "cancel_for_event e s =
     (case gc_active s of
        None \<Rightarrow> (False, s)
      | Some a \<Rightarrow>
          if priority_rank (priority_for_event (ev_kind e)) < priority_rank (ag_priority a)
          then (True, token_cancel (ag_token a) s) else (False, s))"

definition cancel_active :: "gen_registry \<Rightarrow> bool \<times> gen_registry" where
  "cancel_active s =
     (case gc_active s of None \<Rightarrow> (False, s) | Some a \<Rightarrow> (True, token_cancel (ag_token a) s))"

definition registry_finish :: "string \<Rightarrow> gen_registry \<Rightarrow> gen_registry" where
  "registry_finish i s =
     (if (case gc_active s of None \<Rightarrow> False | Some a \<Rightarrow> ag_event_id a = i) then s\<lparr>gc_active := None\<rparr> else s)"

definition active_event_id :: "gen_registry \<Rightarrow> string option" where
  "active_event_id s = map_option ag_event_id (gc_active s)"

end
