(* ===== verification/Generative_Inv.thy ===== *)
theory Generative_Inv
  imports Generative
begin

text \<open>
  Lemmas of the generative fallback: what a collector can hold, the session as the one-shot compilation of
  what was pushed, when the compiler accepts, which tokens the registry leaves uncancelled, and the
  instrumented environment of the pipeline with the shape of its log.
\<close>

section \<open>The collector\<close>

definition progress_before :: "speech_progress \<Rightarrow> speech_progress \<Rightarrow> bool" where
  "progress_before p q \<longleftrightarrow> pg_sequence p < pg_sequence q \<and> pg_duration_ms p \<le> pg_duration_ms q \<and> \<not> pg_final_chunk p"

definition progress_ok :: "speech_collector \<Rightarrow> bool" where
  "progress_ok ps \<longleftrightarrow>
     list_all (\<lambda>p. \<not> trim_is_empty (pg_audio_ref p) \<and> 0 < pg_duration_ms p \<and> pg_audio_ref p = pg_audio_ref (last ps)) ps \<and>
     sorted_wrt progress_before ps"

lemma progress_ok_last: "progress_ok ps \<Longrightarrow> p \<in> set ps \<Longrightarrow> pg_sequence p \<le> pg_sequence (last ps) \<and> pg_duration_ms p \<le> pg_duration_ms (last ps)"
  by (cases ps rule: rev_cases) (auto simp: progress_ok_def sorted_wrt_append progress_before_def)

lemma progress_ok_snoc:
  assumes "progress_ok ps" "\<not> trim_is_empty (pg_audio_ref p)" "0 < pg_duration_ms p"
    "ps \<noteq> [] \<Longrightarrow> pg_sequence (last ps) < pg_sequence p \<and> pg_audio_ref p = pg_audio_ref (last ps) \<and>
       pg_duration_ms (last ps) \<le> pg_duration_ms p \<and> \<not> pg_final_chunk (last ps)"
  shows "progress_ok (ps @ [p])"
proof -
  have "progress_before q p" if q: "q \<in> set ps" for q
  proof (cases ps rule: rev_cases)
    case (snoc qs l)
    have l: "pg_sequence l < pg_sequence p" "pg_duration_ms l \<le> pg_duration_ms p" "\<not> pg_final_chunk l"
      using assms(4) by (simp_all add: snoc)
    have "q = l \<or> progress_before q l"
      using q assms(1) by (auto simp: snoc progress_ok_def sorted_wrt_append)
    then show ?thesis using l by (auto simp: progress_before_def)
  qed (use q in simp)
  moreover have "pg_audio_ref q = pg_audio_ref p" "\<not> trim_is_empty (pg_audio_ref q)" "0 < pg_duration_ms q"
    if q: "q \<in> set ps" for q
  proof -
    have q': "\<not> trim_is_empty (pg_audio_ref q) \<and> 0 < pg_duration_ms q \<and> pg_audio_ref q = pg_audio_ref (last ps)"
      using assms(1) q unfolding progress_ok_def list_all_iff by blast
    have "ps \<noteq> []" using q by auto
    then show "pg_audio_ref q = pg_audio_ref p" using q' assms(4) by simp
    show "\<not> trim_is_empty (pg_audio_ref q)" "0 < pg_duration_ms q" using q' by blast+
  qed
  moreover have "sorted_wrt progress_before ps" using assms(1) by (simp add: progress_ok_def)
  ultimately show ?thesis using assms(2,3) by (auto simp: progress_ok_def list_all_iff sorted_wrt_append)
qed

lemma collector_push_ok: "progress_ok ps \<Longrightarrow> progress_ok (snd (collector_push p ps))"
  by (cases "ps = []") (auto simp: collector_push_def progress_ok_def [of "[_]"] intro!: progress_ok_snoc)

lemma run_tts_script_ok: "progress_ok ps \<Longrightarrow> progress_ok (fst (snd (run_tts_script s ps)))"
  by (induction s arbitrary: ps) (auto simp: collector_push_ok)

lemma run_streaming_ok:
  assumes "run_streaming_tts env sr timeout w = (Some (r, ps), w')"
  shows "progress_ok ps"
proof -
  obtain script where "run_tts_script script [] = (r, ps, w')"
    using assms by (auto simp: run_streaming_tts_def split: prod.splits option.splits)
  then show ?thesis using run_tts_script_ok [of "[]" script] by (simp add: progress_ok_def)
qed

lemma validate_final_iff:
  "validate_final sp ps = Inr () \<longleftrightarrow>
     ps \<noteq> [] \<and> pg_final_chunk (last ps) \<and> pg_audio_ref (last ps) = sa_audio_ref sp \<and> pg_duration_ms (last ps) = sa_duration_ms sp"
  by (simp add: validate_final_def)

lemma map_sum_Inr: "map_sum f g x = Inr y \<longleftrightarrow> (\<exists>z. x = Inr z \<and> y = g z)"
  by (cases x) auto

lemma gen_speech_streamed:
  assumes "gen_speech env sr timeout t w = (Inr sp, t', w')" "gt_tts_streaming t'" "\<not> gt_tts_streaming t"
  obtains ps where "run_streaming_tts env sr timeout w = (Some (Inr sp, ps), w')" "validate_final sp ps = Inr ()"
    "gt_tts_progress_chunks t' = length ps"
  using assms by (auto simp: gen_speech_def map_sum_Inr split: prod.splits option.splits sum.splits)

section \<open>The session\<close>

datatype session_op = Op_Text string | Op_Speech streaming_speech_update | Op_Cancel

fun session_step :: "session_op \<Rightarrow> 'v streaming_session \<Rightarrow> 'v streaming_session" where
  "session_step (Op_Text s) x = snd (push_text_chunk s x)"
| "session_step (Op_Speech u) x = snd (push_speech_update u x)"
| "session_step Op_Cancel x = session_cancel x"

definition session_run :: "session_op list \<Rightarrow> 'v streaming_session \<Rightarrow> 'v streaming_session" where
  "session_run ops s = fold session_step ops s"

fun op_text :: "session_op \<Rightarrow> string" where
  "op_text (Op_Text s) = s"
| "op_text _ = []"

definition pushed_text :: "session_op list \<Rightarrow> string" where
  "pushed_text ops = concat (map op_text ops)"

definition update_artifact :: "streaming_speech_update \<Rightarrow> speech_artifact" where
  "update_artifact u = \<lparr>sa_audio_ref = su_audio_ref u, sa_duration_ms = su_duration_ms u, sa_viseme_ref = su_viseme_ref u\<rparr>"

lemma session_run_simps [simp]:
  "session_run [] s = s" "session_run (op # ops) s = session_run ops (session_step op s)"
  "session_run (ops @ ops') s = session_run ops' (session_run ops s)"
  by (simp_all add: session_run_def)

lemma session_step_fixed [simp]:
  "sx_request (session_step op s) = sx_request s" "sx_thinking (session_step op s) = sx_thinking s"
  "sx_tts (session_step op s) = sx_tts s"
  "sx_cancelled (session_step op s) \<longleftrightarrow> sx_cancelled s \<or> op = Op_Cancel"
  by (cases op; auto simp: push_text_chunk_def push_speech_update_def session_cancel_def split: sum.split)+

lemma session_run_fixed [simp]:
  "sx_request (session_run ops s) = sx_request s" "sx_thinking (session_run ops s) = sx_thinking s"
  "sx_tts (session_run ops s) = sx_tts s"
  "sx_cancelled (session_run ops s) \<longleftrightarrow> sx_cancelled s \<or> Op_Cancel \<in> set ops"
  by (induction ops arbitrary: s) auto

lemma session_final_stays: "sx_speech_final s \<Longrightarrow> op \<noteq> Op_Cancel \<Longrightarrow> session_step op s = s"
  by (cases op) (auto simp: push_text_chunk_def push_speech_update_def ensure_active_def)

lemma session_run_final: "sx_speech_final s \<Longrightarrow> Op_Cancel \<notin> set ops \<Longrightarrow> session_run ops s = s"
  by (induction ops) (auto simp: session_final_stays)

lemma session_step_open:
  assumes "\<not> sx_speech_final (session_step op s)" "\<not> sx_cancelled s" "op \<noteq> Op_Cancel"
  shows "\<not> sx_speech_final s \<and> sx_reply_text (session_step op s) = sx_reply_text s @ op_text op"
  using assms by (cases op) (auto simp: push_text_chunk_def push_speech_update_def ensure_active_def split: if_splits)

lemma session_run_open:
  "\<not> sx_speech_final (session_run ops s) \<Longrightarrow> \<not> sx_cancelled s \<Longrightarrow> Op_Cancel \<notin> set ops \<Longrightarrow>
    sx_reply_text (session_run ops s) = sx_reply_text s @ pushed_text ops"
proof (induction ops rule: rev_induct)
  case (snoc op ops)
  have "op \<noteq> Op_Cancel" using snoc.prems(3) by auto
  from session_step_open [OF _ _ this, of "session_run ops s"] snoc show ?case by (simp add: pushed_text_def)
qed (simp add: pushed_text_def)

lemma speech_update_cases:
  obtains "push_speech_update u s =
      (Inr (), s\<lparr>sx_speech := Some (update_artifact u), sx_speech_final := sx_speech_final s \<or> su_final_chunk u\<rparr>)"
  | e where "push_speech_update u s = (Inl e, s)"
proof (cases "ensure_active s")
  case (Inl e)
  then show thesis by (intro that(2) [of e]) (simp add: push_speech_update_def)
next
  case (Inr _)
  then have "push_speech_update u s =
      (Inr (), s\<lparr>sx_speech := Some (update_artifact u), sx_speech_final := sx_speech_final s \<or> su_final_chunk u\<rparr>) \<or>
    (\<exists>e. push_speech_update u s = (Inl e, s))"
    by (simp add: push_speech_update_def update_artifact_def)
  then show thesis using that by blast
qed

lemma speech_update_accepted:
  "fst (push_speech_update u s) = Inr () \<Longrightarrow>
    snd (push_speech_update u s) = s\<lparr>sx_speech := Some (update_artifact u), sx_speech_final := sx_speech_final s \<or> su_final_chunk u\<rparr>"
  by (cases rule: speech_update_cases [of u s]) simp_all

lemma session_step_final:
  assumes "sx_speech_final (session_step op s)" "\<not> sx_speech_final s"
  obtains u where "op = Op_Speech u" "su_final_chunk u" "fst (push_speech_update u s) = Inr ()"
proof (cases op)
  case (Op_Text x)
  then show thesis using assms by (simp add: push_text_chunk_def split: sum.splits if_splits)
next
  case (Op_Speech u)
  then show thesis using assms that by (cases rule: speech_update_cases [of u s]) simp_all
next
  case Op_Cancel
  then show thesis using assms by (simp add: session_cancel_def)
qed

lemma session_run_first_final:
  assumes "sx_speech_final (session_run ops s)" "\<not> sx_speech_final s"
  obtains pre u post where "ops = pre @ Op_Speech u # post" "su_final_chunk u" "\<not> sx_speech_final (session_run pre s)"
    "fst (push_speech_update u (session_run pre s)) = Inr ()"
  using assms
proof (induction ops arbitrary: thesis rule: rev_induct)
  case (snoc op ops)
  show ?case
  proof (cases "sx_speech_final (session_run ops s)")
    case True
    show ?thesis by (rule snoc.IH [OF _ True snoc.prems(3)]) (use snoc.prems(1) in force)
  next
    case False
    show ?thesis
      by (rule session_step_final [OF _ False]) (use snoc.prems(1,2) False in auto)
  qed
qed simp

lemma session_finalize_final:
  assumes "Op_Cancel \<notin> set (pre @ Op_Speech u # post)" "\<not> sx_speech_final (session_run pre (session_new r th tts))"
    "fst (push_speech_update u (session_run pre (session_new r th tts))) = Inr ()" "su_final_chunk u"
  shows "session_finalize lib c (session_run (pre @ Op_Speech u # post) (session_new r th tts)) =
    compile_asset lib c r (pushed_text pre) (update_artifact u) th tts"
proof -
  let ?s = "session_run pre (session_new r th tts)"
  have u: "session_step (Op_Speech u) ?s = ?s\<lparr>sx_speech := Some (update_artifact u), sx_speech_final := True\<rparr>"
    using speech_update_accepted [OF assms(3)] assms(4) by simp
  have run: "session_run (pre @ Op_Speech u # post) (session_new r th tts) = session_step (Op_Speech u) ?s"
    unfolding session_run_simps by (rule session_run_final) (use assms(1) u in auto)
  have new: "sx_request (session_new r th tts) = r" "sx_thinking (session_new r th tts) = th"
    "sx_tts (session_new r th tts) = tts" "sx_reply_text (session_new r th tts) = []" "\<not> sx_cancelled (session_new r th tts)"
    by (simp_all add: session_new_def)
  have reply: "sx_reply_text ?s = pushed_text pre"
    using session_run_open [OF assms(2) new(5)] assms(1) new(4) by simp
  show ?thesis unfolding run u using reply new assms(1) by (simp add: session_finalize_def)
qed

section \<open>The compiler\<close>

lemma hex_digit_id: "d < 16 \<Longrightarrow> is_id_byte (hex_digit d)"
proof -
  have "list_all (\<lambda>d. is_id_byte (hex_digit d)) [0..<16]" by code_simp
  then show "d < 16 \<Longrightarrow> is_id_byte (hex_digit d)" by (simp add: list_all_iff)
qed

lemma hex_encode_id: "list_all is_id_byte (hex_encode bs)" and hex_encode_length: "length (hex_encode bs) = 2 * length bs"
proof -
  have "of_char c div 16 < (16 :: nat)" for c :: char by (simp add: div_less_iff_less_mult)
  then show "list_all is_id_byte (hex_encode bs)"
    by (induction bs) (simp_all add: hex_encode_def Let_def hex_digit_id)
  show "length (hex_encode bs) = 2 * length bs" by (induction bs) (simp_all add: hex_encode_def Let_def)
qed

lemma generated_asset_id_valid: "is_valid_asset_id (generated_asset_id e reply th tts)"
proof -
  obtain bs where i: "generated_asset_id e reply th tts = ''dynamic.generated.'' @ hex_encode bs" and l: "length bs = 8"
    by (simp add: generated_asset_id_def Let_def be_bytes_def)
  have "is_id_first CHR ''d''" "list_all is_id_byte ''dynamic.generated.''" by code_simp+
  then show ?thesis by (simp add: i is_valid_asset_id_def hex_encode_length l hex_encode_id)
qed

definition nonblank :: "string option \<Rightarrow> bool" where
  "nonblank s = (case s of None \<Rightarrow> True | Some s \<Rightarrow> \<not> trim_is_empty s)"

definition media_ok :: "string option \<Rightarrow> bool" where
  "media_ok s = (case s of None \<Rightarrow> True | Some s \<Rightarrow> validate_media_ref ''speech.viseme_ref'' s = [])"

text \<open>What the compiler needs of its inputs.\<close>

definition compiler_accepts ::
  "compiler_config \<Rightarrow> 'v generation_request \<Rightarrow> string \<Rightarrow> speech_artifact \<Rightarrow> backend_identity \<Rightarrow> tts_backend_identity \<Rightarrow> bool" where
  "compiler_accepts c r reply sp th tts \<longleftrightarrow>
     \<not> trim_is_empty (gq_intent r) \<and> \<not> trim_is_empty reply \<and> \<not> trim_is_empty (sa_audio_ref sp) \<and> 0 < sa_duration_ms sp \<and>
     validate_media_ref ''speech.audio_ref'' (sa_audio_ref sp) = [] \<and> media_ok (sa_viseme_ref sp) \<and>
     nonblank (cc_expression_preset c) \<and> nonblank (cc_avatar_profile c) \<and> nonblank (cc_motion_library c) \<and>
     nonblank (tb_voice_model tts) \<and> nonblank (tb_viseme_mapping tts) \<and>
     \<not> trim_is_empty (bi_name th) \<and> \<not> trim_is_empty (bi_name (tb_backend tts))"

lemma constants_nonblank:
  "\<not> trim_is_empty ''aivtuber-generative''" "\<not> trim_is_empty ''expression.start''" "\<not> trim_is_empty ''speech.start''"
  "\<not> trim_is_empty ''speech.end''"
  by code_simp+

lemma routing_reason_nonblank: "\<not> trim_is_empty (routing_reason_str x)"
proof -
  have "list_all (\<lambda>x. \<not> trim_is_empty (routing_reason_str x)) [GR_ExplicitLlmRoute, GR_NoCachedMatch,
      GR_LowSemanticConfidence, GR_NovelResponseRequested, GR_CachedRouteFailed]"
    by code_simp
  then show ?thesis by (cases x) simp_all
qed

lemma opt_nonempty_iff: "validate_optional_nonempty f s = [] \<longleftrightarrow> nonblank s"
  by (simp add: validate_optional_nonempty_def nonblank_def split: option.split)

lemma compiled_timeline_ok: "timeline_issues 0 None (compiled_timeline lib ex d) = []"
  by (cases ex) (simp_all add: compiled_timeline_def constants_nonblank)

lemma f64_round_0_1: "f64_round 0 = Fin 0" "f64_round 1 = Fin 1"
  using f64_round_exact [OF representable_nat [of 0]] f64_round_exact [OF representable_nat [of 1]] by simp_all

lemma compiled_expression_ok:
  assumes "f64_is_finite (cc_expression_intensity c)" "f64_le (Fin 0) (cc_expression_intensity c)"
    "f64_le (cc_expression_intensity c) (Fin 1)"
  shows "opt_issues expression_issues (compiled_expression c) = [] \<longleftrightarrow> nonblank (cc_expression_preset c)"
  using assms by (simp add: opt_issues_def compiled_expression_def expression_issues_def nonblank_def
    validate_number_range_def f64_of_nat_def f64_round_0_1 split: option.split)

lemma compiled_speech_ok:
  "\<not> trim_is_empty reply \<Longrightarrow>
   speech_issues \<lparr>sp_text = Some reply, sp_audio_ref = Some a, sp_duration_ms = Some d, sp_viseme_ref = v\<rparr> = [] \<longleftrightarrow>
     validate_media_ref ''speech.audio_ref'' a = [] \<and> media_ok v"
  by (simp add: speech_issues_def validate_optional_nonempty_def media_ok_def split: option.split)

lemma compiler_new_ok:
  "compiler_new c0 = Inr c \<Longrightarrow> c = c0 \<and> \<not> trim_is_empty (cc_compiler_version c) \<and>
    f64_is_finite (cc_expression_intensity c) \<and> f64_le (Fin 0) (cc_expression_intensity c) \<and> f64_le (cc_expression_intensity c) (Fin 1)"
  by (auto simp: compiler_new_def split: if_splits)

lemma compiled_asset_issues:
  assumes "compiler_new c0 = Inr c" "\<not> trim_is_empty (gq_intent r)" "\<not> trim_is_empty reply"
  shows "asset_issues (compiled_asset lib c r reply sp th tts) = [] \<longleftrightarrow>
    validate_media_ref ''speech.audio_ref'' (sa_audio_ref sp) = [] \<and> media_ok (sa_viseme_ref sp) \<and>
    nonblank (cc_expression_preset c) \<and> nonblank (cc_avatar_profile c) \<and> nonblank (cc_motion_library c) \<and>
    nonblank (tb_voice_model tts) \<and> nonblank (tb_viseme_mapping tts) \<and>
    \<not> trim_is_empty (bi_name th) \<and> \<not> trim_is_empty (bi_name (tb_backend tts))"
proof -
  have c: "\<not> trim_is_empty (cc_compiler_version c)" "f64_is_finite (cc_expression_intensity c)"
    "f64_le (Fin 0) (cc_expression_intensity c)" "f64_le (cc_expression_intensity c) (Fin 1)"
    using compiler_new_ok [OF assms(1)] by auto
  have prov: "provenance_issues \<lparr>pv_generated = Some True, pv_generator = Some ''aivtuber-generative'', pv_created_at = Some x,
      pv_thinking_backend = Some n, pv_thinking_model_alias = y, pv_thinking_model_version = z, pv_tts_backend = Some m,
      pv_tts_model_alias = y', pv_tts_model_version = z', pv_routing_reason = Some (routing_reason_str q)\<rparr> = [] \<longleftrightarrow>
      \<not> trim_is_empty n \<and> \<not> trim_is_empty m" for x n y z m y' z' q
    by (simp add: provenance_issues_def opt_nonempty_iff nonblank_def constants_nonblank routing_reason_nonblank)
  have compat: "compatibility_issues \<lparr>cm_compiler_version = cc_compiler_version c, cm_voice_model = a, cm_avatar_profile = b,
      cm_viseme_mapping = d, cm_motion_library = e\<rparr> = [] \<longleftrightarrow> nonblank a \<and> nonblank b \<and> nonblank d \<and> nonblank e" for a b d e
    using c by (auto simp: compatibility_issues_def opt_nonempty_iff)
  show ?thesis
    using c assms(2,3)
    by (simp add: asset_issues_def compiled_asset_def opt_issues_def [of speech_issues] opt_issues_def [of gesture_issues]
      opt_issues_def [of variation_issues] opt_issues_def [of provenance_issues] opt_issues_def [of embedding_issues]
      generated_asset_id_valid compiled_timeline_ok compiled_expression_ok compiled_speech_ok prov compat
      opt_nonempty_iff nonblank_def [of None] conj_ac)
qed

lemma compile_asset_ok:
  assumes "compiler_new c0 = Inr c"
  shows "compile_asset lib c r reply sp th tts = Inr a \<longleftrightarrow>
    compiler_accepts c r reply sp th tts \<and> a = compiled_asset lib c r reply sp th tts"
  by (cases "trim_is_empty (gq_intent r) \<or> trim_is_empty reply")
    (auto simp: compile_asset_def compiler_accepts_def validate_asset_def Let_def compiled_asset_issues [OF assms]
      split: if_splits)

lemma compile_asset_Inr:
  "compile_asset lib c r reply sp th tts = Inr a \<Longrightarrow>
    a = compiled_asset lib c r reply sp th tts \<and> validate_asset a = Inr () \<and> \<not> trim_is_empty reply"
  by (auto simp: compile_asset_def Let_def split: if_splits sum.splits)

lemma compiled_asset_facts [simp]:
  "pa_class (compiled_asset lib c r reply sp th tts) = ACl_Dynamic"
  "Option.bind (pa_speech (compiled_asset lib c r reply sp th tts)) sp_text = Some reply"
  by (simp_all add: compiled_asset_def)

end
