(* ===== verification/Generative_Sys.thy ===== *)
theory Generative_Sys
  imports Generative_Inv
begin

text \<open>
  The generative fallback as a system: the registry with the tokens handed out, any sequence of its
  operations, and the pipeline over an instrumented environment, whose log records every use of the clock,
  the token, the gate and the engines.
\<close>

section \<open>The registry\<close>

text \<open>Ghost state: the tokens that were activated, and those whose generation finished while active.\<close>

record registry_sys =
  ry_state :: gen_registry
  ry_activated :: "nat set"
  ry_finished :: "nat set"

definition sys_activate :: "'v event_envelope \<Rightarrow> nat \<Rightarrow> registry_sys \<Rightarrow> registry_sys" where
  "sys_activate e k x =
     \<lparr>ry_state = registry_activate e k (ry_state x), ry_activated = insert k (ry_activated x), ry_finished = ry_finished x - {k}\<rparr>"

definition sys_finish :: "string \<Rightarrow> registry_sys \<Rightarrow> registry_sys" where
  "sys_finish i x = x\<lparr>ry_state := registry_finish i (ry_state x),
     ry_finished := ry_finished x \<union> {k. active_event_id (ry_state x) = Some i \<and> map_option ag_token (gc_active (ry_state x)) = Some k}\<rparr>"

text \<open>The holders of tokens may cancel them; an activation needs a token that exists.\<close>

datatype 'v registry_op =
  RO_Begin "'v event_envelope" | RO_Token | RO_Activate "'v event_envelope" nat | RO_Preempt "'v event_envelope"
| RO_CancelActive | RO_Hold nat | RO_Finish string

fun registry_do :: "'v registry_op \<Rightarrow> registry_sys \<Rightarrow> registry_sys" where
  "registry_do (RO_Begin e) x =
     x\<lparr>ry_state := snd (registry_begin e (ry_state x)),
       ry_activated := insert (fst (registry_begin e (ry_state x))) (ry_activated x),
       ry_finished := ry_finished x - {fst (registry_begin e (ry_state x))}\<rparr>"
| "registry_do RO_Token x = x\<lparr>ry_state := snd (token_new (ry_state x))\<rparr>"
| "registry_do (RO_Activate e k) x = (if k < length (gc_flags (ry_state x)) then sys_activate e k x else x)"
| "registry_do (RO_Preempt e) x = x\<lparr>ry_state := snd (cancel_for_event e (ry_state x))\<rparr>"
| "registry_do RO_CancelActive x = x\<lparr>ry_state := snd (cancel_active (ry_state x))\<rparr>"
| "registry_do (RO_Hold k) x = x\<lparr>ry_state := token_cancel k (ry_state x)\<rparr>"
| "registry_do (RO_Finish i) x = sys_finish i x"

definition registry_run :: "'v registry_op list \<Rightarrow> registry_sys" where
  "registry_run ops = fold registry_do ops \<lparr>ry_state = registry_new, ry_activated = {}, ry_finished = {}\<rparr>"

definition active_token :: "gen_registry \<Rightarrow> nat option" where
  "active_token s = map_option ag_token (gc_active s)"

definition registry_inv :: "registry_sys \<Rightarrow> bool" where
  "registry_inv x \<longleftrightarrow>
     (\<forall>k \<in> ry_activated x. k < length (gc_flags (ry_state x))) \<and> set_option (active_token (ry_state x)) \<subseteq> ry_activated x \<and>
     (\<forall>k \<in> ry_activated x - ry_finished x. active_token (ry_state x) = Some k \<or> token_is_cancelled k (ry_state x))"

text \<open>No flag is ever cleared, and none is set but those an operation names.\<close>

definition flags_grow :: "gen_registry \<Rightarrow> gen_registry \<Rightarrow> bool" where
  "flags_grow s s' \<longleftrightarrow> length (gc_flags s) \<le> length (gc_flags s') \<and>
     (\<forall>k < length (gc_flags s). token_is_cancelled k s \<longrightarrow> token_is_cancelled k s')"

lemma flags_grow_refl [simp]: "flags_grow s s"
  by (simp add: flags_grow_def)

lemma nth_set_True: "xs ! k \<Longrightarrow> xs[j := True] ! k"
  by (cases "j < length xs"; cases "j = k") (simp_all add: list_update_beyond)

lemma token_cancel_simps [simp]:
  "gc_active (token_cancel k s) = gc_active s" "length (gc_flags (token_cancel k s)) = length (gc_flags s)"
  "flags_grow s (token_cancel k s)" "active_token (token_cancel k s) = active_token s"
  "k < length (gc_flags s) \<Longrightarrow> token_is_cancelled j (token_cancel k s) \<longleftrightarrow> j = k \<or> token_is_cancelled j s"
  by (auto simp: token_cancel_def flags_grow_def token_is_cancelled_def active_token_def nth_list_update nth_set_True)

lemma registry_inv_grow:
  assumes "registry_inv x" "flags_grow (ry_state x) s" "active_token s = active_token (ry_state x)"
  shows "registry_inv (x\<lparr>ry_state := s\<rparr>)"
  using assms by (fastforce simp: registry_inv_def flags_grow_def)

lemma token_new_grow: "flags_grow s (snd (token_new s))" "active_token (snd (token_new s)) = active_token s"
  "fst (token_new s) < length (gc_flags (snd (token_new s)))"
  by (auto simp: token_new_def flags_grow_def token_is_cancelled_def active_token_def nth_append)

lemma registry_activate_flags:
  "flags_grow s (registry_activate e k s)" "active_token (registry_activate e k s) = Some k"
  "length (gc_flags (registry_activate e k s)) = length (gc_flags s)"
  "active_token s = Some j \<Longrightarrow> j < length (gc_flags s) \<Longrightarrow> token_is_cancelled j (registry_activate e k s)"
  by (auto simp: registry_activate_def Let_def active_token_def token_cancel_def flags_grow_def token_is_cancelled_def
    nth_set_True split: option.splits)

lemma sys_activate_inv:
  assumes "registry_inv x" "k < length (gc_flags (ry_state x))"
  shows "registry_inv (sys_activate e k x)"
proof -
  note f = registry_activate_flags [where s = "ry_state x" and e = e and k = k]
  have "token_is_cancelled j (registry_activate e k (ry_state x))" if "j \<in> ry_activated x - ry_finished x" for j
  proof (cases "active_token (ry_state x) = Some j")
    case True
    then show ?thesis using that assms(1) by (intro registry_activate_flags(4)) (auto simp: registry_inv_def)
  next
    case False
    then show ?thesis using that assms(1) f(1) by (auto simp: registry_inv_def flags_grow_def)
  qed
  then show ?thesis using assms f by (auto simp: registry_inv_def sys_activate_def)
qed

lemma registry_do_inv:
  assumes "registry_inv x"
  shows "registry_inv (registry_do op x)"
proof (cases op)
  case (RO_Begin e)
  have "registry_inv (x\<lparr>ry_state := snd (token_new (ry_state x))\<rparr>)"
    by (rule registry_inv_grow [OF assms]) (simp_all add: token_new_grow)
  from sys_activate_inv [OF this, of "fst (token_new (ry_state x))" e] show ?thesis
    by (cases x) (simp add: RO_Begin token_new_grow registry_begin_def sys_activate_def case_prod_unfold)
next
  case (RO_Finish i)
  show ?thesis
  proof (cases "active_event_id (ry_state x) = Some i")
    case True
    then obtain a where a: "gc_active (ry_state x) = Some a" "ag_event_id a = i" by (auto simp: active_event_id_def)
    have "sys_finish i x = x\<lparr>ry_state := (ry_state x)\<lparr>gc_active := None\<rparr>, ry_finished := insert (ag_token a) (ry_finished x)\<rparr>"
      using a by (cases x) (auto simp: sys_finish_def registry_finish_def active_event_id_def)
    moreover have "token_is_cancelled k (ry_state x)" if "k \<in> ry_activated x - insert (ag_token a) (ry_finished x)" for k
    proof -
      have "active_token (ry_state x) = Some k \<or> token_is_cancelled k (ry_state x)"
        using assms that unfolding registry_inv_def by blast
      then show ?thesis using a(1) that by (auto simp: active_token_def)
    qed
    ultimately show ?thesis using assms
      by (simp add: RO_Finish registry_inv_def active_token_def token_is_cancelled_def)
  next
    case False
    then have "sys_finish i x = x" by (cases x) (auto simp: sys_finish_def registry_finish_def active_event_id_def split: option.split)
    then show ?thesis using assms by (simp add: RO_Finish)
  qed
next
  case (RO_Preempt e)
  show ?thesis unfolding RO_Preempt registry_do.simps
    by (rule registry_inv_grow [OF assms]) (simp_all add: cancel_for_event_def split: option.split)
next
  case RO_CancelActive
  show ?thesis unfolding RO_CancelActive registry_do.simps
    by (rule registry_inv_grow [OF assms]) (simp_all add: cancel_active_def split: option.split)
qed (simp_all add: assms registry_inv_grow token_new_grow sys_activate_inv)

lemma registry_run_inv: "registry_inv (registry_run ops)"
proof -
  have "registry_inv (fold registry_do ops x)" if "registry_inv x" for x
    using that by (induction ops arbitrary: x) (simp_all add: registry_do_inv)
  then show ?thesis by (simp add: registry_run_def registry_inv_def registry_new_def active_token_def)
qed

lemma registry_do_grow: "flags_grow (ry_state x) (ry_state (registry_do op x))"
proof (cases op)
  case (RO_Begin e)
  have "flags_grow (ry_state x) (snd (token_new (ry_state x)))" by (rule token_new_grow)
  with registry_activate_flags(1) [of "snd (token_new (ry_state x))" e "fst (token_new (ry_state x))"]
  show ?thesis by (auto simp: RO_Begin registry_begin_def case_prod_unfold flags_grow_def)
next
  case (RO_Finish i)
  then show ?thesis by (simp add: sys_finish_def registry_finish_def flags_grow_def token_is_cancelled_def)
qed (simp_all add: token_new_grow sys_activate_def registry_activate_flags cancel_for_event_def cancel_active_def
      split: option.split)

lemma registry_fold_grow: "flags_grow (ry_state x) (ry_state (fold registry_do ops x))"
proof (induction ops arbitrary: x)
  case (Cons op ops)
  from registry_do_grow [of x op] Cons [of "registry_do op x"] show ?case by (auto simp: flags_grow_def)
qed simp

section \<open>The instrumented pipeline\<close>

datatype gen_io =
  GI_Now nat | GI_Cancelled bool | GI_Gate string text_gate_decision
| GI_Think thinking_request "nat option" "engine_error + generated_reply"
| GI_Stream speech_request "nat option" bool
| GI_Synth speech_request "nat option" "engine_error + speech_artifact"

text \<open>
  Around any environment, with the log newest first. A streaming script carries the log to its end; the
  identities of the engines are not logged.
\<close>

definition logged :: "gen_io list \<Rightarrow> ('a \<Rightarrow> gen_io) \<Rightarrow> 'a \<times> 'w \<Rightarrow> 'a \<times> 'w \<times> gen_io list" where
  "logged t f r = (fst r, snd r, f (fst r) # t)"

definition script_with :: "gen_io list \<Rightarrow> 'w tts_script option \<times> 'w \<Rightarrow> ('w \<times> gen_io list) tts_script option \<times> 'w \<times> gen_io list" where
  "script_with t r = (map_option (map_tts_script (\<lambda>w. (w, t))) (fst r), snd r, t)"

definition logging :: "'w gen_env \<Rightarrow> ('w \<times> gen_io list) gen_env" where
  "logging env =
     \<lparr>ge_now = (\<lambda>(w, t). logged t GI_Now (ge_now env w)),
      ge_cancelled = (\<lambda>(w, t). logged t GI_Cancelled (ge_cancelled env w)),
      ge_gate = (\<lambda>s (w, t). logged t (GI_Gate s) (ge_gate env s w)),
      ge_thinking_identity = (\<lambda>(w, t). case ge_thinking_identity env w of (i, w) \<Rightarrow> (i, w, t)),
      ge_generate = (\<lambda>q (w, t). logged t (GI_Think q None) (ge_generate env q w)),
      ge_generate_within = (\<lambda>q d (w, t). logged t (GI_Think q (Some d)) (ge_generate_within env q d w)),
      ge_tts_identity = (\<lambda>(w, t). case ge_tts_identity env w of (i, w) \<Rightarrow> (i, w, t)),
      ge_stream = (\<lambda>q (w, t). let r = ge_stream env q w in script_with (GI_Stream q None (fst r \<noteq> None) # t) r),
      ge_stream_within = (\<lambda>q d (w, t). let r = ge_stream_within env q d w in script_with (GI_Stream q (Some d) (fst r \<noteq> None) # t) r),
      ge_synthesize = (\<lambda>q (w, t). logged t (GI_Synth q None) (ge_synthesize env q w)),
      ge_synthesize_within = (\<lambda>q d (w, t). logged t (GI_Synth q (Some d)) (ge_synthesize_within env q d w))\<rparr>"

text \<open>
  What a log of a run of \<open>g\<close> may hold. Time limits are what the deadline leaves at the newest clock reading.
\<close>

definition limit_ok :: "nat option \<Rightarrow> nat option \<Rightarrow> gen_io list \<Rightarrow> bool" where
  "limit_ok deadline limit t \<longleftrightarrow>
     (case deadline of
        None \<Rightarrow> limit = None
      | Some d \<Rightarrow> \<exists>n rest. t = GI_Now n # rest \<and> n < d \<and> limit = Some (d - n))"

definition published :: "gen_io list \<Rightarrow> string set" where
  "published t = {s. \<not> trim_is_empty s \<and> (\<exists>x. GI_Gate x (Gate_Publish s) \<in> set t)}"

fun gen_log_ok :: "thinking_request \<Rightarrow> nat option \<Rightarrow> gen_io list \<Rightarrow> bool" where
  "gen_log_ok q dl [] \<longleftrightarrow> True"
| "gen_log_ok q dl (GI_Think q' limit r # t) \<longleftrightarrow>
     q' = q \<and> limit_ok dl limit t \<and> (\<forall>q limit r. GI_Think q limit r \<notin> set t) \<and> GI_Cancelled False \<in> set t \<and>
     GI_Cancelled True \<notin> set t \<and> gen_log_ok q dl t"
| "gen_log_ok q dl (GI_Gate x _ # t) \<longleftrightarrow>
     (\<exists>limit y rest. t = GI_Cancelled False # GI_Think q limit (Inr y) # rest \<and> gy_text y = x) \<and>
     GI_Cancelled True \<notin> set t \<and> gen_log_ok q dl t"
| "gen_log_ok q dl (GI_Stream s limit _ # t) \<longleftrightarrow>
     sq_text s \<in> published t \<and> limit_ok dl limit t \<and> GI_Cancelled True \<notin> set t \<and> gen_log_ok q dl t"
| "gen_log_ok q dl (GI_Synth s limit _ # t) \<longleftrightarrow>
     (\<exists>rest. t = GI_Stream s limit False # rest) \<and> gen_log_ok q dl t"
| "gen_log_ok q dl (_ # t) \<longleftrightarrow> GI_Cancelled True \<notin> set t \<and> gen_log_ok q dl t"

section \<open>The shape of the log\<close>

lemma logging_simps:
  "ge_now (logging env) x = logged (snd x) GI_Now (ge_now env (fst x))"
  "ge_cancelled (logging env) x = logged (snd x) GI_Cancelled (ge_cancelled env (fst x))"
  "ge_gate (logging env) s x = logged (snd x) (GI_Gate s) (ge_gate env s (fst x))"
  "ge_thinking_identity (logging env) x = (fst (ge_thinking_identity env (fst x)), snd (ge_thinking_identity env (fst x)), snd x)"
  "ge_generate (logging env) q x = logged (snd x) (GI_Think q None) (ge_generate env q (fst x))"
  "ge_generate_within (logging env) q d x = logged (snd x) (GI_Think q (Some d)) (ge_generate_within env q d (fst x))"
  "ge_tts_identity (logging env) x = (fst (ge_tts_identity env (fst x)), snd (ge_tts_identity env (fst x)), snd x)"
  "ge_stream (logging env) sr x = script_with (GI_Stream sr None (fst (ge_stream env sr (fst x)) \<noteq> None) # snd x) (ge_stream env sr (fst x))"
  "ge_stream_within (logging env) sr d x =
     script_with (GI_Stream sr (Some d) (fst (ge_stream_within env sr d (fst x)) \<noteq> None) # snd x) (ge_stream_within env sr d (fst x))"
  "ge_synthesize (logging env) sr x = logged (snd x) (GI_Synth sr None) (ge_synthesize env sr (fst x))"
  "ge_synthesize_within (logging env) sr d x = logged (snd x) (GI_Synth sr (Some d)) (ge_synthesize_within env sr d (fst x))"
  by (cases x; simp add: logging_def case_prod_unfold Let_def)+

lemma run_script_with:
  "run_tts_script (map_tts_script (\<lambda>w. (w, t)) s) ps =
     (fst (run_tts_script s ps), fst (snd (run_tts_script s ps)), snd (snd (run_tts_script s ps)), t)"
  by (induction s arbitrary: ps) auto

lemma remaining_logged:
  assumes "remaining_provider_timeout (logging env) dl x = (r, x')" "gen_log_ok q dl (snd x)" "GI_Cancelled True \<notin> set (snd x)"
  shows "gen_log_ok q dl (snd x') \<and> GI_Cancelled True \<notin> set (snd x') \<and> (\<forall>limit. r = Inr limit \<longrightarrow> limit_ok dl limit (snd x')) \<and>
    (\<exists>ns. snd x' = map GI_Now ns @ snd x)"
proof (cases dl)
  case None
  then show ?thesis using assms by (auto simp: remaining_provider_timeout_def limit_ok_def intro: exI [of _ "[]"])
next
  case (Some d)
  let ?n = "fst (ge_now env (fst x))"
  have "snd x' = map GI_Now [?n] @ snd x" "r = (if ?n < d then Inr (Some (d - ?n)) else Inl ())"
    using assms(1) by (auto simp: Some remaining_provider_timeout_def logging_simps logged_def split: prod.splits)
  then show ?thesis using assms(2,3) by (auto simp: Some limit_ok_def intro: exI [of _ "[?n]"])
qed

text \<open>Speech is asked for with the published text, and buffered synthesis only after streaming was declined.\<close>

lemma gen_speech_logged:
  assumes "gen_speech (logging env) sr limit tr x = (res, tr', x')"
    "gen_log_ok q dl (snd x)" "GI_Cancelled True \<notin> set (snd x)" "sq_text sr \<in> published (snd x)" "limit_ok dl limit (snd x)"
  shows "gen_log_ok q dl (snd x') \<and> GI_Cancelled True \<notin> set (snd x') \<and> (\<exists>t. snd x' = t @ snd x \<and> length t \<le> 2) \<and>
    gt_llm_calls tr' = gt_llm_calls tr \<and> gt_fallback_reason tr' = gt_fallback_reason tr \<and>
    gt_cancelled_stage tr' = gt_cancelled_stage tr \<and> gt_tts_attempted tr' = gt_tts_attempted tr"
proof -
  let ?started = "\<lambda>s. GI_Stream sr limit s # snd x"
  have ok: "gen_log_ok q dl (?started s)" for s using assms(2-5) by simp
  have ok2: "gen_log_ok q dl (GI_Synth sr limit y # ?started False)" for y using ok by simp
  obtain r ps w where "run_streaming_tts (logging env) sr limit x = (Some (r, ps), w, ?started True) \<or>
      run_streaming_tts (logging env) sr limit x = (None, w, ?started False)"
    by (cases limit; cases "case limit of Some d \<Rightarrow> ge_stream_within env sr d (fst x) | None \<Rightarrow> ge_stream env sr (fst x)";
        cases "fst (case limit of Some d \<Rightarrow> ge_stream_within env sr d (fst x) | None \<Rightarrow> ge_stream env sr (fst x))")
      (auto simp: run_streaming_tts_def logging_simps script_with_def run_script_with)
  then show ?thesis
  proof
    assume "run_streaming_tts (logging env) sr limit x = (Some (r, ps), w, ?started True)"
    then have "snd x' = ?started True" "tr' = tr\<lparr>gt_tts_streaming := True, gt_tts_progress_chunks := length ps\<rparr>"
      using assms(1) by (auto simp: gen_speech_def)
    then show ?thesis using ok [of True] assms(3) by (auto intro!: exI [of _ "[_]"])
  next
    assume "run_streaming_tts (logging env) sr limit x = (None, w, ?started False)"
    then obtain y where "snd x' = GI_Synth sr limit y # ?started False" "tr' = tr"
      using assms(1) by (cases limit) (auto simp: gen_speech_def logging_simps logged_def)
    then show ?thesis using ok2 [of y] assms(3) by (auto intro!: exI [of _ "[_, _]"])
  qed
qed

text \<open>
  What the outcome of a run says of its log: a generated asset is the compilation of a published text, and
  its token was never seen cancelled; a cancelled outcome is the answer to the newest reading of the token.
\<close>

definition outcome_ok :: "('v, 'w) gen_run \<Rightarrow> 'v generation_result \<Rightarrow> gen_io list \<Rightarrow> bool" where
  "outcome_ok g res t \<longleftrightarrow>
     (case gs_disposition res of
        GD_Generated a \<Rightarrow>
          gt_fallback_reason (gs_trace res) = FR_None \<and> gt_cancelled_stage (gs_trace res) = None \<and>
          hd t = GI_Cancelled False \<and> GI_Cancelled True \<notin> set t \<and>
          (\<exists>s \<in> published t. \<exists>sp th tts. compile_asset (gx_lib g) (gx_compiler g) (gx_request g) s sp th tts = Inr a)
      | GD_Fallback d \<Rightarrow>
          d = gx_fallback g \<and> gt_fallback_reason (gs_trace res) \<noteq> FR_None \<and> gt_cancelled_stage (gs_trace res) = None \<and>
          GI_Cancelled True \<notin> set t
      | GD_Cancelled stage \<Rightarrow>
          gt_fallback_reason (gs_trace res) = FR_None \<and> gt_cancelled_stage (gs_trace res) = Some stage \<and>
          hd t = GI_Cancelled True)"

definition think_calls :: "gen_io list \<Rightarrow> nat" where
  "think_calls t = length (filter (\<lambda>e. case e of GI_Think _ _ _ \<Rightarrow> True | _ \<Rightarrow> False) t)"

lemma think_calls_simps [simp]:
  "think_calls [] = 0" "think_calls (GI_Now n # t) = think_calls t" "think_calls (GI_Cancelled b # t) = think_calls t"
  "think_calls (GI_Gate s d # t) = think_calls t" "think_calls (GI_Think q l r # t) = Suc (think_calls t)"
  "think_calls (GI_Stream sr l b # t) = think_calls t" "think_calls (GI_Synth sr l r' # t) = think_calls t"
  "think_calls (map GI_Now ns @ t) = think_calls t"
  by (simp_all add: think_calls_def filter_empty_conv)

lemma gen_speech_calls:
  assumes "gen_speech (logging env) sr limit tr x = (res, tr', x')"
  shows "think_calls (snd x') = think_calls (snd x)"
  using assms
  by (cases limit; cases "case limit of Some d \<Rightarrow> ge_stream_within env sr d (fst x) | None \<Rightarrow> ge_stream env sr (fst x)";
      cases "fst (case limit of Some d \<Rightarrow> ge_stream_within env sr d (fst x) | None \<Rightarrow> ge_stream env sr (fst x))")
    (auto simp: gen_speech_def run_streaming_tts_def logging_simps script_with_def run_script_with logged_def)

definition run_ok :: "('v, 'w) gen_run \<Rightarrow> 'v generation_result \<Rightarrow> gen_io list \<Rightarrow> bool" where
  "run_ok g res t \<longleftrightarrow>
     gen_log_ok (gq_thinking (gx_request g)) (gx_deadline g) t \<and> outcome_ok g res t \<and>
     think_calls t = length (gt_llm_calls (gs_trace res)) \<and> think_calls t \<le> 1"

lemma fallback_reason_not_none: "fallback_reason_from_error k \<noteq> FR_None"
  by (cases k) simp_all

lemma gen_publish_logged:
  assumes "gen_publish g th tts reply res tr x = (out, x')" "gx_env g = logging env" "gen_log_ok q dl (snd x)"
    "GI_Cancelled True \<notin> set (snd x)" "reply \<in> published (snd x)" "gt_fallback_reason tr = FR_None" "gt_cancelled_stage tr = None"
  shows "gen_log_ok q dl (snd x') \<and> outcome_ok g out (snd x') \<and> gt_llm_calls (gs_trace out) = gt_llm_calls tr \<and> think_calls (snd x') = think_calls (snd x)"
proof (cases res)
  case (Inl e)
  then show ?thesis using assms
    by (auto simp: gen_publish_def gen_fallback_def fallback_result_def outcome_ok_def fallback_reason_not_none)
next
  case (Inr sp)
  obtain c1 w1 where c1: "ge_cancelled env (fst x) = (c1, w1)" by fastforce
  show ?thesis
  proof (cases "c1 \<or> (\<exists>e. compile_asset (gx_lib g) (gx_compiler g) (gx_request g) reply sp th tts = Inl e)")
    case True
    then show ?thesis using assms c1
      by (cases c1) (auto simp: Inr gen_publish_def logging_simps logged_def cancelled_result_def gen_fallback_def
        fallback_result_def outcome_ok_def)
  next
    case False
    then obtain a where a: "compile_asset (gx_lib g) (gx_compiler g) (gx_request g) reply sp th tts = Inr a"
      by (cases "compile_asset (gx_lib g) (gx_compiler g) (gx_request g) reply sp th tts") auto
    obtain c2 w2 where c2: "ge_cancelled env w1 = (c2, w2)" by fastforce
    have pub: "\<exists>s \<in> published (GI_Cancelled False # GI_Cancelled False # snd x). \<exists>sp th tts.
        compile_asset (gx_lib g) (gx_compiler g) (gx_request g) s sp th tts = Inr a"
      using assms(5) a by (intro bexI [of _ reply]) (auto simp: published_def)
    show ?thesis
    proof (cases c2)
      case True
      then show ?thesis using assms False c1 c2 a
        by (auto simp: Inr gen_publish_def logging_simps logged_def cancelled_result_def outcome_ok_def)
    next
      case c2': False
      have "out = \<lparr>gs_trace = tr, gs_disposition = GD_Generated a\<rparr>"
        "snd x' = GI_Cancelled False # GI_Cancelled False # snd x"
        using assms(1,2) False c1 c2 a c2' by (auto simp: Inr gen_publish_def logging_simps logged_def)
      then show ?thesis using assms(3,4,6,7) pub by (simp add: outcome_ok_def)
    qed
  qed
qed

lemma gen_speak_logged:
  assumes "gen_speak g th reply tr x = (out, x')" "gx_env g = logging env" "gen_log_ok q (gx_deadline g) (snd x)"
    "GI_Cancelled True \<notin> set (snd x)" "reply \<in> published (snd x)" "gt_fallback_reason tr = FR_None" "gt_cancelled_stage tr = None"
  shows "gen_log_ok q (gx_deadline g) (snd x') \<and> outcome_ok g out (snd x') \<and> gt_llm_calls (gs_trace out) = gt_llm_calls tr \<and>
    think_calls (snd x') = think_calls (snd x)"
proof -
  obtain r1 x1 where r1: "remaining_provider_timeout (logging env) (gx_deadline g) x = (r1, x1)" by (rule prod.exhaust)
  note ok1 = remaining_logged [OF r1 assms(3,4)]
  obtain ns where ns: "snd x1 = map GI_Now ns @ snd x" using ok1 by blast
  show ?thesis
  proof (cases r1)
    case (Inl e)
    then show ?thesis using assms(1,2,6,7) r1 ok1 ns
      by (auto simp: gen_speak_def gen_fallback_def fallback_result_def outcome_ok_def)
  next
    case (Inr limit)
    obtain tts x2 where tts: "ge_tts_identity (logging env) x1 = (tts, x2)" by (rule prod.exhaust)
    have x2: "snd x2 = snd x1" using tts by (auto simp: logging_simps)
    define tr2 where "tr2 = tr\<lparr>gt_tts_timeout_ms := map_option duration_ms_ceil limit, gt_tts_attempted := True, gt_tts_backend := Some tts\<rparr>"
    define sr where "sr = \<lparr>sq_text = reply, sq_style = gq_style (gx_request g)\<rparr>"
    obtain res tr3 x3 where sp: "gen_speech (logging env) sr limit tr2 x2 = (res, tr3, x3)" by (rule prod_cases3)
    have pub: "sq_text sr \<in> published (snd x2)" using assms(5) ns by (auto simp: x2 published_def sr_def)
    have "gen_log_ok q (gx_deadline g) (snd x2)" "GI_Cancelled True \<notin> set (snd x2)" "limit_ok (gx_deadline g) limit (snd x2)"
      using ok1 Inr by (simp_all add: x2)
    note ok3 = gen_speech_logged [OF sp this(1,2) pub this(3)]
    have pub3: "reply \<in> published (snd x3)"
      using pub ok3 by (auto simp: published_def sr_def)
    have out: "gen_publish g th tts reply res tr3 x3 = (out, x')"
      using assms(1) r1 tts sp by (simp add: Inr gen_speak_def assms(2) tr2_def sr_def)
    have calls: "think_calls (snd x3) = think_calls (snd x)"
      using gen_speech_calls [OF sp] ns by (simp add: x2)
    have tr: "gt_fallback_reason tr3 = FR_None" "gt_cancelled_stage tr3 = None"
      using ok3 assms(6,7) by (simp_all add: tr2_def)
    show ?thesis
      using gen_publish_logged [OF out assms(2) _ _ pub3 tr, of q "gx_deadline g"] ok3 calls by (simp add: tr2_def)
  qed
qed

lemma gen_gate_logged:
  assumes "gen_gate g th reply tr x = (out, x')" "gx_env g = logging env" "gen_log_ok q (gx_deadline g) (snd x)"
    "GI_Cancelled True \<notin> set (snd x)" "snd x = GI_Think q limit (Inr reply) # rest"
    "gt_fallback_reason tr = FR_None" "gt_cancelled_stage tr = None"
  shows "gen_log_ok q (gx_deadline g) (snd x') \<and> outcome_ok g out (snd x') \<and> gt_llm_calls (gs_trace out) = gt_llm_calls tr \<and>
    think_calls (snd x') = think_calls (snd x)"
proof -
  obtain c w1 where c: "ge_cancelled env (fst x) = (c, w1)" by (rule prod.exhaust)
  obtain d w2 where d: "ge_gate env (gy_text reply) w1 = (d, w2)" by (rule prod.exhaust)
  let ?gated = "GI_Gate (gy_text reply) d # GI_Cancelled False # snd x"
  have ok: "gen_log_ok q (gx_deadline g) ?gated" "GI_Cancelled True \<notin> set ?gated" "think_calls ?gated = think_calls (snd x)"
    using assms(3-5) by auto
  show ?thesis
  proof (cases "\<not> c \<and> (\<exists>s. d = Gate_Publish s \<and> \<not> trim_is_empty s)")
    case True
    then obtain s where s: "d = Gate_Publish s" "\<not> trim_is_empty s" "\<not> c" by blast
    have "gen_speak g th s tr (w2, ?gated) = (out, x')"
      using assms(1,2) c d s by (simp add: gen_gate_def logging_simps logged_def)
    moreover have "s \<in> published ?gated" using s by (auto simp: published_def)
    ultimately show ?thesis
      using gen_speak_logged [of g th s tr "(w2, ?gated)" out x' env q] assms(2,6,7) ok by simp
  next
    case False
    show ?thesis
    proof (cases c)
      case True
      then show ?thesis using assms c
        by (auto simp: gen_gate_def logging_simps logged_def cancelled_result_def outcome_ok_def)
    next
      case c': False
      then have "out = gen_fallback g FR_PolicyOverride tr" "snd x' = ?gated"
        using assms(1,2) c d False by (auto simp: gen_gate_def logging_simps logged_def split: text_gate_decision.splits if_splits)
      then show ?thesis using ok assms(6,7) by (simp add: outcome_ok_def gen_fallback_def fallback_result_def)
    qed
  qed
qed

lemma gen_think_logged:
  assumes "gen_think g (w, []) = (out, x')" "gx_env g = logging env"
  shows "run_ok g out (snd x')"
proof -
  let ?q = "gq_thinking (gx_request g)"
  obtain c w1 where c: "ge_cancelled env w = (c, w1)" by (rule prod.exhaust)
  show ?thesis
  proof (cases c)
    case True
    then show ?thesis using assms c
      by (auto simp: gen_think_def logging_simps logged_def run_ok_def cancelled_result_def outcome_ok_def
        default_generation_trace_def)
  next
    case False
    obtain r1 x1 where r1: "remaining_provider_timeout (logging env) (gx_deadline g) (w1, [GI_Cancelled False]) = (r1, x1)"
      by (rule prod.exhaust)
    have ok1: "gen_log_ok ?q (gx_deadline g) (snd x1)" "GI_Cancelled True \<notin> set (snd x1)"
      "\<And>limit. r1 = Inr limit \<Longrightarrow> limit_ok (gx_deadline g) limit (snd x1)"
      using remaining_logged [OF r1, of ?q] by simp_all
    obtain ns where ns: "snd x1 = map GI_Now ns @ [GI_Cancelled False]"
      using remaining_logged [OF r1, of ?q] by auto
    show ?thesis
    proof (cases r1)
      case (Inl e)
      then have "out = gen_fallback g FR_Timeout default_generation_trace" "x' = x1"
        using assms c False r1 by (simp_all add: gen_think_def logging_simps logged_def)
      then show ?thesis using ok1 ns
        by (simp add: run_ok_def outcome_ok_def gen_fallback_def fallback_result_def default_generation_trace_def)
    next
      case (Inr limit)
      obtain th w2 where th: "ge_thinking_identity env (fst x1) = (th, w2)" by (rule prod.exhaust)
      obtain y w3 where y: "(case limit of Some d \<Rightarrow> ge_generate_within env ?q d w2 | None \<Rightarrow> ge_generate env ?q w2) = (y, w3)"
        by (rule prod.exhaust)
      let ?t = "GI_Think ?q limit y # snd x1"
      let ?call = "\<lparr>lc_event_id = ev_event_id (gq_source_event (gx_request g)),
        lc_routing_reason = gq_routing_reason (gx_request g), lc_backend = th\<rparr>"
      let ?tr = "default_generation_trace\<lparr>gt_thinking_timeout_ms := map_option duration_ms_ceil limit, gt_llm_calls := [?call]\<rparr>"
      have tr: "gt_fallback_reason ?tr = FR_None" "gt_cancelled_stage ?tr = None" "gt_llm_calls ?tr = [?call]"
        by (simp_all add: default_generation_trace_def)
      have ok: "gen_log_ok ?q (gx_deadline g) ?t" "GI_Cancelled True \<notin> set ?t" "think_calls ?t = 1"
        using ok1 [unfolded ns] Inr ns by auto
      have run: "(out, x') = (case y of Inl e \<Rightarrow> (gen_fallback g (fallback_reason_from_error (ee_kind e)) ?tr, (w3, ?t))
          | Inr reply \<Rightarrow> gen_gate g th reply ?tr (w3, ?t))"
        using assms c False r1 Inr th y
        by (cases limit) (auto simp: gen_think_def logging_simps logged_def Let_def split: sum.splits)
      show ?thesis
      proof (cases y)
        case (Inl e)
        then show ?thesis using run ok tr
          by (simp add: run_ok_def outcome_ok_def gen_fallback_def fallback_result_def fallback_reason_not_none)
      next
        case (Inr reply)
        then have "gen_gate g th reply ?tr (w3, ?t) = (out, x')" using run by simp
        from gen_gate_logged [OF this assms(2), of ?q limit "snd x1"] show ?thesis
          using ok tr by (simp add: run_ok_def Inr)
      qed
    qed
  qed
qed

lemma run_generation_logged:
  "run_generation g (w, []) = (Inr out, x') \<Longrightarrow> gx_env g = logging env \<Longrightarrow> run_ok g out (snd x')"
  using gen_think_logged [of g w out x' env]
  by (cases "gen_think g (w, [])") (auto simp: run_generation_def split: sum.splits)

end
