(* ===== verification/Jev_Call.thy ===== *)
theory Jev_Call
  imports Jev_Wire
begin

text \<open>
  The call of the System One adapter, \<open>crates/reflex/src/jev.rs\<close>: the retry loop with its deadline,
  cancellation and backoff, over an environment that supplies the clock, the cancellation token, the HTTP
  transport and \<open>thread::sleep\<close>; and the future that carries the call on a worker thread.
\<close>

section \<open>The environment\<close>

record http_response =
  hr_status :: nat
  hr_body :: string

datatype transport_error = TE_Timeout | TE_Unavailable string

text \<open>
  Every operation takes the world and returns it. Instants and durations are nanoseconds; the platform's
  largest instant is not modelled. \<open>je_post\<close> is \<open>HttpTransport::post_json\<close>: endpoint, bearer token, body
  and timeout.
\<close>

record 'w jev_env =
  je_now :: "'w \<Rightarrow> nat \<times> 'w"
  je_cancelled :: "'w \<Rightarrow> bool \<times> 'w"
  je_post :: "string \<Rightarrow> string \<Rightarrow> string \<Rightarrow> nat \<Rightarrow> 'w \<Rightarrow> (transport_error + http_response) \<times> 'w"
  je_sleep :: "nat \<Rightarrow> 'w \<Rightarrow> 'w"

text \<open>\<open>Duration::as_secs_f64\<close> times 1000\<close>

definition as_millis_f64 :: "nat \<Rightarrow> f64" where
  "as_millis_f64 ns =
     f64_mul (f64_add (f64_of_nat (ns div 1000000000)) (f64_div_fin (f64_of_nat (ns mod 1000000000)) 1000000000)) (Fin 1000)"

definition remaining_until :: "'w jev_env \<Rightarrow> nat \<Rightarrow> 'w \<Rightarrow> nat option \<times> 'w" where
  "remaining_until env deadline w =
     (case je_now env w of (now, w) \<Rightarrow> (if now < deadline then Some (deadline - now) else None, w))"

section \<open>Backoff\<close>

definition DURATION_MAX :: nat where
  "DURATION_MAX = 2 ^ 64 * 1000000000 - 1"

definition backoff_for :: "jev_config \<Rightarrow> u32 \<Rightarrow> nat" where
  "backoff_for c attempt = min DURATION_MAX (jc_initial_backoff c * 2 ^ min (attempt - 1) 16)"

definition sleep_slice :: nat where
  "sleep_slice = 5 * 1000000"

text \<open>The \<open>while\<close> loop may not end: it depends on the clock. \<open>None\<close> is a loop that never returns.\<close>

partial_function (option) sleep_loop :: "'w jev_env \<Rightarrow> nat \<Rightarrow> nat \<Rightarrow> 'w \<Rightarrow> (bool \<times> 'w) option" where
  "sleep_loop env sleep_until deadline w =
     (case je_now env w of (now, w) \<Rightarrow>
      if sleep_until \<le> now then Some (True, w)
      else case je_cancelled env w of (c, w) \<Rightarrow>
        if c then Some (False, w)
        else case remaining_until env deadline w of (r, w) \<Rightarrow>
          if r = None then Some (False, w)
          else case je_now env w of (now, w) \<Rightarrow>
            sleep_loop env sleep_until deadline (je_sleep env (min (sleep_until - now) sleep_slice) w))"

definition sleep_with_cancellation :: "'w jev_env \<Rightarrow> nat \<Rightarrow> nat \<Rightarrow> 'w \<Rightarrow> (bool \<times> 'w) option" where
  "sleep_with_cancellation env duration deadline w =
     (if duration = 0
      then case je_cancelled env w of (c, w) \<Rightarrow>
        if c then Some (False, w)
        else (case remaining_until env deadline w of (r, w) \<Rightarrow> Some (r \<noteq> None, w))
      else case remaining_until env deadline w of (r, w) \<Rightarrow>
        case r of
          None \<Rightarrow> Some (False, w)
        | Some remaining \<Rightarrow>
            if remaining \<le> duration then Some (False, w)
            else case je_now env w of (now, w) \<Rightarrow> sleep_loop env (now + duration) deadline w)"

section \<open>The adapter\<close>

record jev_adapter =
  jad_config :: jev_config
  jad_api_key :: string

definition jev_adapter_new :: "'v wire_lib \<Rightarrow> jev_config \<Rightarrow> string \<Rightarrow> engine_error + jev_adapter" where
  "jev_adapter_new lib c key = rbind (jev_config_validate lib c) (\<lambda>_. Inr \<lparr>jad_config = c, jad_api_key = key\<rparr>)"

record jev_call_evidence =
  ce_decision :: reflex_decision
  ce_selected_candidate_id :: "string option"
  ce_requested_model :: string
  ce_returned_model :: string
  ce_usage :: jev_usage
  ce_attempts :: u32
  ce_latency_ms :: f64
  ce_answers :: "(string, normalized_answer) bmap"

record jev_call_failure =
  cf_kind :: engine_error_kind
  cf_message :: string
  cf_requested_model :: string
  cf_attempts :: u32
  cf_latency_ms :: f64

definition as_engine_error :: "jev_call_failure \<Rightarrow> engine_error" where
  "as_engine_error f = engine_error_new (cf_kind f) (cf_message f)"

type_synonym jev_result = "jev_call_failure + jev_call_evidence"

definition jev_call_failure_new ::
  "'w jev_env \<Rightarrow> engine_error_kind \<Rightarrow> string \<Rightarrow> string \<Rightarrow> u32 \<Rightarrow> nat \<Rightarrow> 'w \<Rightarrow> jev_result \<times> 'w" where
  "jev_call_failure_new env kind message model attempts started w =
     (case je_now env w of (now, w) \<Rightarrow>
        (Inl \<lparr>cf_kind = kind, cf_message = message, cf_requested_model = model, cf_attempts = attempts,
              cf_latency_ms = as_millis_f64 (now - started)\<rparr>, w))"

text \<open>What one call carries through its loop.\<close>

record 'v jev_call =
  jl_request :: "'v reflex_request"
  jl_body :: string
  jl_started :: nat
  jl_deadline :: nat

definition normalize_response ::
  "'v wire_lib \<Rightarrow> 'w jev_env \<Rightarrow> jev_adapter \<Rightarrow> 'v jev_call \<Rightarrow> string \<Rightarrow> u32 \<Rightarrow> 'w \<Rightarrow> jev_result \<times> 'w" where
  "normalize_response lib env a call body attempts w =
     (let model = jc_model_alias (jad_config a); started = jl_started call
      in case parse_jev_response_body lib body of
           Inl message \<Rightarrow> jev_call_failure_new env EEK_InvalidRequest message model attempts started w
         | Inr response \<Rightarrow>
             case remaining_until env (jl_deadline call) w of (r, w) \<Rightarrow>
             if r = None
             then jev_call_failure_new env EEK_Timeout ''Jev reflex deadline exceeded during response parsing''
                    model attempts started w
             else case je_now env w of (now, w) \<Rightarrow>
               case normalize_answers lib (so_answers response) (request_candidates (jad_config a) (jl_request call))
                      model (so_model response) (as_millis_f64 (now - started)) of
                 Inl message \<Rightarrow> jev_call_failure_new env EEK_InvalidRequest message model attempts started w
               | Inr n \<Rightarrow>
                   case je_now env w of (now, w) \<Rightarrow>
                     (Inr \<lparr>ce_decision = nr_decision n, ce_selected_candidate_id = nr_selected_candidate_id n,
                           ce_requested_model = model, ce_returned_model = so_model response,
                           ce_usage = so_usage response, ce_attempts = attempts,
                           ce_latency_ms = as_millis_f64 (now - started), ce_answers = nr_answers n\<rparr>, w))"

text \<open>What a status other than 200 means: a failure at once (\<open>Inl\<close>) or one worth a retry (\<open>Inr\<close>).\<close>

definition status_kind :: "nat \<Rightarrow> engine_error_kind + engine_error_kind" where
  "status_kind s =
     (if s = 401 \<or> s = 403 then Inl EEK_Authentication
      else if s = 400 \<or> s = 422 then Inl EEK_InvalidRequest
      else if s = 429 then Inr EEK_RateLimited
      else if s = 529 then Inr EEK_Overloaded
      else Inl EEK_Unavailable)"

partial_function (option) jev_loop ::
  "'v wire_lib \<Rightarrow> 'w jev_env \<Rightarrow> jev_adapter \<Rightarrow> 'v jev_call \<Rightarrow> u32 \<Rightarrow> 'w \<Rightarrow> (jev_result \<times> 'w) option" where
  "jev_loop lib env a call attempts w =
     (case je_cancelled env w of (c, w) \<Rightarrow>
      if c then Some (jev_call_failure_new env EEK_Timeout ''Jev request cancelled''
                        (jc_model_alias (jad_config a)) attempts (jl_started call) w)
      else case remaining_until env (jl_deadline call) w of (r, w) \<Rightarrow>
      case r of
        None \<Rightarrow> Some (jev_call_failure_new env EEK_Timeout ''Jev reflex deadline exceeded''
                        (jc_model_alias (jad_config a)) attempts (jl_started call) w)
      | Some remaining \<Rightarrow>
          case je_post env (jc_endpoint (jad_config a)) (jad_api_key a) (jl_body call) remaining w of (result, w) \<Rightarrow>
          case result of
            Inl TE_Timeout \<Rightarrow>
              Some (jev_call_failure_new env EEK_Timeout ''Jev transport deadline exceeded''
                      (jc_model_alias (jad_config a)) (attempts + 1) (jl_started call) w)
          | Inl (TE_Unavailable message) \<Rightarrow>
              Some (jev_call_failure_new env EEK_Unavailable message
                      (jc_model_alias (jad_config a)) (attempts + 1) (jl_started call) w)
          | Inr response \<Rightarrow>
              if hr_status response = 200 then
                case remaining_until env (jl_deadline call) w of (r, w) \<Rightarrow>
                if r = None
                then Some (jev_call_failure_new env EEK_Timeout ''Jev reflex deadline exceeded before normalization''
                             (jc_model_alias (jad_config a)) (attempts + 1) (jl_started call) w)
                else Some (normalize_response lib env a call (hr_body response) (attempts + 1) w)
              else
                case status_kind (hr_status response) of
                  Inl kind \<Rightarrow>
                    Some (jev_call_failure_new env kind (''Jev HTTP '' @ show_nat (hr_status response))
                            (jc_model_alias (jad_config a)) (attempts + 1) (jl_started call) w)
                | Inr kind \<Rightarrow>
                    if jc_max_attempts (jad_config a) \<le> attempts + 1
                    then Some (jev_call_failure_new env kind
                                 (''Jev HTTP '' @ show_nat (hr_status response) @ '' after '' @ show_nat (attempts + 1) @ '' attempts'')
                                 (jc_model_alias (jad_config a)) (attempts + 1) (jl_started call) w)
                    else Option.bind (sleep_with_cancellation env (backoff_for (jad_config a) (attempts + 1)) (jl_deadline call) w)
                      (\<lambda>(slept, w).
                        if \<not> slept
                        then Some (jev_call_failure_new env EEK_Timeout ''Jev reflex deadline exhausted during retry backoff''
                                     (jc_model_alias (jad_config a)) (attempts + 1) (jl_started call) w)
                        else jev_loop lib env a call (attempts + 1) w))"

text \<open>\<open>evaluate_with_cancellation_and_budget\<close>\<close>

definition jev_evaluate ::
  "'v wire_lib \<Rightarrow> 'w jev_env \<Rightarrow> jev_adapter \<Rightarrow> 'v reflex_request \<Rightarrow> nat \<Rightarrow> 'w \<Rightarrow> (jev_result \<times> 'w) option" where
  "jev_evaluate lib env a request remaining_budget w =
     (case je_now env w of (started, w) \<Rightarrow>
      let budget = min (jc_deadline (jad_config a)) remaining_budget; model = jc_model_alias (jad_config a)
      in if budget = 0
         then Some (jev_call_failure_new env EEK_Timeout ''Jev has no remaining interaction budget'' model 0 started w)
         else case build_request_body lib (jad_config a) request of
             Inl e \<Rightarrow> Some (jev_call_failure_new env (ee_kind e) (ee_message e) model 0 started w)
           | Inr body \<Rightarrow>
               jev_loop lib env a
                 \<lparr>jl_request = request, jl_body = body, jl_started = started, jl_deadline = started + budget\<rparr> 0 w)"

definition evaluate_evidence ::
  "'v wire_lib \<Rightarrow> 'w jev_env \<Rightarrow> jev_adapter \<Rightarrow> 'v reflex_request \<Rightarrow> 'w \<Rightarrow> (jev_result \<times> 'w) option" where
  "evaluate_evidence lib env a request w = jev_evaluate lib env a request (jc_deadline (jad_config a)) w"

section \<open>The future of a worker thread\<close>

text \<open>
  \<open>WorkerState\<close> is only touched under its mutex, so each critical section is one step. \<open>wk_waking\<close> is the
  waker the thread took and has yet to wake, outside the lock.
\<close>

record ('a, 'k) worker =
  wk_result :: "'a option"
  wk_waker :: "'k option"
  wk_cancelled :: bool
  wk_finished :: bool
  wk_waking :: "'k option"

definition worker_spawn :: "('a, 'k) worker" where
  "worker_spawn = \<lparr>wk_result = None, wk_waker = None, wk_cancelled = False, wk_finished = False, wk_waking = None\<rparr>"

definition worker_store :: "'a \<Rightarrow> ('a, 'k) worker \<Rightarrow> ('a, 'k) worker" where
  "worker_store r s = s\<lparr>wk_result := Some r, wk_waker := None, wk_finished := True, wk_waking := wk_waker s\<rparr>"

definition worker_wake :: "('a, 'k) worker \<Rightarrow> 'k option \<times> ('a, 'k) worker" where
  "worker_wake s = (wk_waking s, s\<lparr>wk_waking := None\<rparr>)"

definition worker_poll :: "'k \<Rightarrow> ('a, 'k) worker \<Rightarrow> 'a option \<times> ('a, 'k) worker" where
  "worker_poll k s =
     (case wk_result s of
        Some r \<Rightarrow> (Some r, s\<lparr>wk_result := None\<rparr>)
      | None \<Rightarrow> (None, s\<lparr>wk_waker := Some k\<rparr>))"

definition worker_drop :: "('a, 'k) worker \<Rightarrow> ('a, 'k) worker" where
  "worker_drop s = s\<lparr>wk_cancelled := True\<rparr>"

end
