(* ===== verification/Reflex_Policy.thy ===== *)
theory Reflex_Policy
  imports Jev_Call
begin

text \<open>
  The event-driven reflex pipeline of \<open>crates/reflex/src/pipeline.rs\<close>: retrieval, the model call within
  the remaining budget, the deterministic policy over its evidence, and the executed decision.
\<close>

record model_evidence =
  me_requested_model :: string
  me_returned_model :: "string option"
  me_usage :: "jev_usage option"
  me_attempts :: u32
  me_latency_ms :: f64
  me_answers :: "(string, normalized_answer) bmap"

record decision_evidence =
  dv_retrieval :: retrieval_result
  dv_normalized :: reflex_decision
  dv_selected_candidate_id :: "string option"
  dv_model :: model_evidence

record policy_decision =
  pd_route :: response_route
  pd_selected_candidate_id :: "string option"
  pd_selected_candidate_identity :: "string option"
  pd_fallback_reason :: reflex_fallback_reason
  pd_reason :: string

datatype executed_action = EA_Silent | EA_Reaction | EA_Cached | EA_Template | EA_Llm | EA_Fallback

record executed_decision =
  xd_action :: executed_action
  xd_asset_id :: "string option"
  xd_asset_identity :: "string option"

record decision_replay_record =
  dr_event_id :: string
  dr_request_schema_version :: string
  dr_context_schema_version :: string
  dr_evidence :: decision_evidence
  dr_policy :: policy_decision
  dr_executed :: executed_decision

text \<open>\<open>deterministic_bytes\<close> up to its serialization: the record with the measured latencies blanked.\<close>

definition deterministic_record :: "decision_replay_record \<Rightarrow> decision_replay_record" where
  "deterministic_record r =
     (let e = dr_evidence r
      in r\<lparr>dr_evidence := e\<lparr>dv_normalized := (dv_normalized e)\<lparr>rf_latency_ms := Fin 0\<rparr>,
                             dv_model := (dv_model e)\<lparr>me_latency_ms := Fin 0\<rparr>\<rparr>\<rparr>)"

record policy_config =
  pc_reuse_threshold :: f64
  pc_min_route_confidence :: f64

text \<open>The decimal literals of the source are the nearest \<open>f64\<close> values.\<close>

definition default_policy_config :: policy_config where
  "default_policy_config = \<lparr>pc_reuse_threshold = f64_round (85 / 100), pc_min_route_confidence = f64_round (5 / 10)\<rparr>"

section \<open>Policy\<close>

definition apply_policy :: "decision_evidence \<Rightarrow> policy_config \<Rightarrow> policy_decision" where
  "apply_policy ev c =
     (let d = dv_normalized ev
      in if rf_fallback_reason d \<noteq> FR_None
         then \<lparr>pd_route = RR_Silent, pd_selected_candidate_id = None, pd_selected_candidate_identity = None,
               pd_fallback_reason = rf_fallback_reason d, pd_reason = ''model_or_transport_fallback''\<rparr>
         else if (case rd_confidence (rf_route d) of None \<Rightarrow> False | Some p \<Rightarrow> f64_lt p (pc_min_route_confidence c))
         then \<lparr>pd_route = RR_Silent, pd_selected_candidate_id = None, pd_selected_candidate_identity = None,
               pd_fallback_reason = FR_LowConfidence, pd_reason = ''route_confidence_below_threshold''\<rparr>
         else if rd_value (rf_route d) = RR_Cached
         then
           (if f64_le (pc_reuse_threshold c) (rf_cache_reuse_probability d) \<and> dv_selected_candidate_id ev \<noteq> None
            then \<lparr>pd_route = RR_Cached, pd_selected_candidate_id = dv_selected_candidate_id ev,
                  pd_selected_candidate_identity =
                    Option.bind (dv_selected_candidate_id ev) (\<lambda>i.
                      Option.bind (find (\<lambda>k. rc_asset_id k = i) (rr_candidates (dv_retrieval ev))) rc_asset_identity),
                  pd_fallback_reason = FR_None, pd_reason = ''explicit_candidate_passed_reuse_gate''\<rparr>
            else \<lparr>pd_route = RR_Silent, pd_selected_candidate_id = None, pd_selected_candidate_identity = None,
                  pd_fallback_reason = FR_PolicyOverride, pd_reason = ''cached_route_failed_explicit_reuse_gate''\<rparr>)
         else \<lparr>pd_route = rd_value (rf_route d), pd_selected_candidate_id = None, pd_selected_candidate_identity = None,
               pd_fallback_reason = FR_None, pd_reason = ''route_accepted''\<rparr>)"

fun action_of_route :: "response_route \<Rightarrow> executed_action" where
  "action_of_route RR_Silent = EA_Silent"
| "action_of_route RR_Reaction = EA_Reaction"
| "action_of_route RR_Cached = EA_Cached"
| "action_of_route RR_Template = EA_Template"
| "action_of_route RR_Llm = EA_Llm"

definition execute_policy :: "policy_decision \<Rightarrow> executed_decision" where
  "execute_policy p =
     (let action = if pd_fallback_reason p \<noteq> FR_None then EA_Fallback else action_of_route (pd_route p)
      in \<lparr>xd_action = action,
          xd_asset_id = (if action = EA_Cached then pd_selected_candidate_id p else None),
          xd_asset_identity = (if action = EA_Cached then pd_selected_candidate_identity p else None)\<rparr>)"

fun fallback_reason_of :: "engine_error_kind \<Rightarrow> reflex_fallback_reason" where
  "fallback_reason_of EEK_Timeout = FR_Timeout"
| "fallback_reason_of EEK_Unavailable = FR_Unavailable"
| "fallback_reason_of EEK_Backend = FR_Unavailable"
| "fallback_reason_of EEK_RateLimited = FR_RateLimited"
| "fallback_reason_of EEK_Overloaded = FR_Overloaded"
| "fallback_reason_of EEK_Authentication = FR_Authentication"
| "fallback_reason_of EEK_Unauthorized = FR_Authentication"
| "fallback_reason_of EEK_InvalidRequest = FR_InvalidRequest"

definition deterministic_fallback :: "reflex_fallback_reason \<Rightarrow> f64 \<Rightarrow> reflex_decision" where
  "deterministic_fallback reason latency_ms =
     \<lparr>rf_schema_version = REFLEX_SCHEMA_VERSION, rf_route = \<lparr>rd_value = RR_Silent, rd_confidence = None\<rparr>,
      rf_reaction_family = None, rf_gesture_family = None, rf_attention_target = AT_Away,
      rf_interrupt_probability = Fin 0, rf_cache_reuse_probability = Fin 0, rf_importance = f64_round (1 / 10),
      rf_emotion_intensity = Fin 0,
      rf_backend = \<lparr>bi_name = ''deterministic'', bi_model_alias = None, bi_model_version = None\<rparr>,
      rf_latency_ms = latency_ms, rf_fallback_reason = reason\<rparr>"

section \<open>The pipeline\<close>

record reflex_pipeline =
  rp_index :: semantic_index
  rp_adapter :: jev_adapter
  rp_policy :: policy_config
  rp_top_k :: nat

definition reflex_pipeline_new ::
  "semantic_index \<Rightarrow> jev_adapter \<Rightarrow> policy_config \<Rightarrow> nat \<Rightarrow> engine_error + reflex_pipeline" where
  "reflex_pipeline_new ix a policy top_k =
     (if top_k = 0 \<or> MAX_RETRIEVAL_CANDIDATES < top_k
      then Inl (engine_error_new EEK_InvalidRequest (''reflex Top-K must be in 1..='' @ show_nat MAX_RETRIEVAL_CANDIDATES))
      else if \<not> f64_unit_interval (pc_reuse_threshold policy) \<or> \<not> f64_unit_interval (pc_min_route_confidence policy)
      then Inl (engine_error_new EEK_InvalidRequest ''reflex policy thresholds must be in 0..=1'')
      else Inr \<lparr>rp_index = ix, rp_adapter = a, rp_policy = policy, rp_top_k = top_k\<rparr>)"

definition candidate_context :: "retrieval_candidate \<Rightarrow> retrieval_candidate_context" where
  "candidate_context c = \<lparr>rcc_asset_id = rc_asset_id c, rcc_rank = rc_rank c, rcc_similarity = rc_similarity c\<rparr>"

definition evidence_of :: "retrieval_result \<Rightarrow> jev_result \<Rightarrow> decision_evidence" where
  "evidence_of retrieval result =
     (case result of
        Inr m \<Rightarrow>
          \<lparr>dv_retrieval = retrieval, dv_normalized = ce_decision m, dv_selected_candidate_id = ce_selected_candidate_id m,
           dv_model = \<lparr>me_requested_model = ce_requested_model m, me_returned_model = Some (ce_returned_model m),
             me_usage = Some (ce_usage m), me_attempts = ce_attempts m, me_latency_ms = ce_latency_ms m,
             me_answers = ce_answers m\<rparr>\<rparr>
      | Inl f \<Rightarrow>
          \<lparr>dv_retrieval = retrieval,
           dv_normalized = deterministic_fallback (fallback_reason_of (cf_kind f)) (cf_latency_ms f),
           dv_selected_candidate_id = None,
           dv_model = \<lparr>me_requested_model = cf_requested_model f, me_returned_model = None, me_usage = None,
             me_attempts = cf_attempts f, me_latency_ms = cf_latency_ms f, me_answers = []\<rparr>\<rparr>)"

definition run_with_budget ::
  "'v wire_lib \<Rightarrow> 'w jev_env \<Rightarrow> reflex_pipeline \<Rightarrow> 'v reflex_request \<Rightarrow> f64 list \<Rightarrow> nat option \<Rightarrow> 'w \<Rightarrow>
     ((retrieval_error + decision_replay_record) \<times> 'w) option" where
  "run_with_budget lib env p request query remaining_budget w =
     (case je_now env w of (budget_started, w) \<Rightarrow>
      case index_search query (rp_top_k p) (rp_index p) of
        Inl e \<Rightarrow> Some (Inl e, w)
      | Inr retrieval \<Rightarrow>
          let request = request\<lparr>rq_retrieval := \<lparr>rs_candidates = map candidate_context (rr_candidates retrieval)\<rparr>\<rparr>
          in map_option (\<lambda>(result, w).
               let ev = evidence_of retrieval result; policy = apply_policy ev (rp_policy p)
               in (Inr \<lparr>dr_event_id = ev_event_id (rq_event request),
                        dr_request_schema_version = rq_schema_version request,
                        dr_context_schema_version = rx_schema_version (rq_context request),
                        dr_evidence = ev, dr_policy = policy, dr_executed = execute_policy policy\<rparr>, w))
             (case remaining_budget of
                Some budget \<Rightarrow>
                  (case je_now env w of (now, w) \<Rightarrow>
                     jev_evaluate lib env (rp_adapter p) request (budget - (now - budget_started)) w)
              | None \<Rightarrow> evaluate_evidence lib env (rp_adapter p) request w))"

end
