(* ===== verification/Jev_Inv.thy ===== *)
theory Jev_Inv
  imports Reflex_Policy
begin

text \<open>
  What the adapter does with its environment. The environment is instrumented: \<open>traced\<close> logs every use of
  the clock, the token, the transport and \<open>sleep\<close>, the newest first, around any environment. The lemmas
  say how each routine of the call extends the log, and that the call returns under a clock that moves.
\<close>

section \<open>The instrumented environment\<close>

datatype jev_io =
  IO_Now nat | IO_Cancelled bool | IO_Sleep nat
| IO_Post string string string nat "transport_error + http_response"

definition traced :: "'w jev_env \<Rightarrow> ('w \<times> jev_io list) jev_env" where
  "traced env =
     \<lparr>je_now = (\<lambda>(w, t). case je_now env w of (n, w) \<Rightarrow> (n, w, IO_Now n # t)),
      je_cancelled = (\<lambda>(w, t). case je_cancelled env w of (c, w) \<Rightarrow> (c, w, IO_Cancelled c # t)),
      je_post = (\<lambda>endpoint key body timeout (w, t). case je_post env endpoint key body timeout w of
        (r, w) \<Rightarrow> (r, w, IO_Post endpoint key body timeout r # t)),
      je_sleep = (\<lambda>d (w, t). (je_sleep env d w, IO_Sleep d # t))\<rparr>"

lemma traced_simps [simp]:
  "je_now (traced env) w = (fst (je_now env (fst w)), snd (je_now env (fst w)), IO_Now (fst (je_now env (fst w))) # snd w)"
  "je_cancelled (traced env) w = (fst (je_cancelled env (fst w)), snd (je_cancelled env (fst w)),
     IO_Cancelled (fst (je_cancelled env (fst w))) # snd w)"
  "je_post (traced env) ep key body d w = (fst (je_post env ep key body d (fst w)), snd (je_post env ep key body d (fst w)),
     IO_Post ep key body d (fst (je_post env ep key body d (fst w))) # snd w)"
  "je_sleep (traced env) d w = (je_sleep env d (fst w), IO_Sleep d # snd w)"
  by (cases w; simp add: traced_def case_prod_unfold)+

lemma remaining_traced:
  "remaining_until (traced env) deadline w =
     (let n = fst (je_now env (fst w))
      in (if n < deadline then Some (deadline - n) else None, snd (je_now env (fst w)), IO_Now n # snd w))"
  by (simp add: remaining_until_def Let_def)

fun post_results :: "jev_io list \<Rightarrow> (transport_error + http_response) list" where
  "post_results [] = []"
| "post_results (IO_Post e k b d r # t) = r # post_results t"
| "post_results (_ # t) = post_results t"

text \<open>The only result that is worth another request.\<close>

definition retryable :: "transport_error + http_response \<Rightarrow> bool" where
  "retryable r \<longleftrightarrow> (\<exists>h. r = Inr h \<and> hr_status h \<in> {429, 529})"

text \<open>
  A well-behaved log: each request goes to the given endpoint with the given key and body, right after the
  token was read as not cancelled and the clock as before the deadline, with all the time that is left as
  its timeout, and only if all requests before it were worth a retry; no sleep is longer than a slice.
\<close>

fun io_ok :: "string \<Rightarrow> string \<Rightarrow> string \<Rightarrow> nat \<Rightarrow> jev_io list \<Rightarrow> bool" where
  "io_ok endpoint key body deadline [] \<longleftrightarrow> True"
| "io_ok endpoint key body deadline (IO_Post e k b d r # t) \<longleftrightarrow>
     e = endpoint \<and> k = key \<and> b = body \<and> 0 < d \<and>
     (\<exists>n rest. t = IO_Now n # IO_Cancelled False # rest \<and> n + d = deadline) \<and> list_all retryable (post_results t) \<and>
     io_ok endpoint key body deadline t"
| "io_ok endpoint key body deadline (IO_Sleep d # t) \<longleftrightarrow> d \<le> sleep_slice \<and> io_ok endpoint key body deadline t"
| "io_ok endpoint key body deadline (_ # t) \<longleftrightarrow> io_ok endpoint key body deadline t"

section \<open>Sleeping\<close>

text \<open>A log extended without a request.\<close>

definition quiet :: "string \<Rightarrow> string \<Rightarrow> string \<Rightarrow> nat \<Rightarrow> jev_io list \<Rightarrow> jev_io list \<Rightarrow> bool" where
  "quiet ep key body deadline t t' \<longleftrightarrow>
     post_results t' = post_results t \<and> (io_ok ep key body deadline t \<longrightarrow> io_ok ep key body deadline t')"

lemmas sleep_loop_induct = sleep_loop.raw_induct [rotated 1, consumes 1, case_names step]
lemmas jev_loop_induct = jev_loop.raw_induct [rotated 1, consumes 1, case_names step]

lemma sleep_loop_quiet:
  assumes "sleep_loop (traced env) until dl w = Some (r, w')"
  shows "quiet ep key body deadline (snd w) (snd w')"
  using assms
proof (induction "traced env" until dl w "(r, w')" arbitrary: r w' rule: sleep_loop_induct)
  case (step f until dl w)
  from step(2) show ?case
    by (auto simp: remaining_traced Let_def split: if_splits dest!: step(1)) (auto simp: quiet_def sleep_slice_def)
qed

lemma sleep_quiet:
  "sleep_with_cancellation (traced env) d dl w = Some (r, w') \<Longrightarrow> quiet ep key body deadline (snd w) (snd w')"
  by (auto simp: sleep_with_cancellation_def remaining_traced Let_def quiet_def split: if_splits
    dest: sleep_loop_quiet [where ep = ep and key = key and body = body and deadline = deadline])


section \<open>The loop\<close>

fun attempts_of :: "jev_result \<Rightarrow> nat" where
  "attempts_of (Inl f) = cf_attempts f"
| "attempts_of (Inr e) = ce_attempts e"

text \<open>
  Where accepted evidence comes from: the newest request answered 200, the clock was before the deadline
  after it and again after its body was parsed, and the evidence is the normalization of that body.
\<close>

definition evidence_from ::
  "'v wire_lib \<Rightarrow> jev_adapter \<Rightarrow> 'v jev_call \<Rightarrow> jev_io list \<Rightarrow> jev_call_evidence \<Rightarrow> bool" where
  "evidence_from lib a call t ev \<longleftrightarrow>
     (\<exists>n1 n2 n3 n4 e k b d h rest response n.
        t = IO_Now n4 # IO_Now n3 # IO_Now n2 # IO_Now n1 # IO_Post e k b d (Inr h) # rest \<and>
        hr_status h = 200 \<and> n1 < jl_deadline call \<and> n2 < jl_deadline call \<and>
        parse_jev_response_body lib (hr_body h) = Inr response \<and>
        normalize_answers lib (so_answers response) (request_candidates (jad_config a) (jl_request call))
          (jc_model_alias (jad_config a)) (so_model response) (as_millis_f64 (n3 - jl_started call)) = Inr n \<and>
        ce_decision ev = nr_decision n \<and> ce_selected_candidate_id ev = nr_selected_candidate_id n \<and>
        ce_answers ev = nr_answers n \<and> ce_returned_model ev = so_model response)"

lemma failure_traced:
  "jev_call_failure_new (traced env) kind message model attempts started w = (r, w') \<Longrightarrow>
    (\<exists>f. r = Inl f \<and> cf_attempts f = attempts \<and> cf_kind f = kind) \<and> (\<exists>n. snd w' = IO_Now n # snd w)"
  by (auto simp: jev_call_failure_new_def)

definition loop_post ::
  "'v wire_lib \<Rightarrow> jev_adapter \<Rightarrow> 'v jev_call \<Rightarrow> nat \<Rightarrow> jev_io list \<Rightarrow> jev_result \<Rightarrow> jev_io list \<Rightarrow> bool" where
  "loop_post lib a call attempts t r t' \<longleftrightarrow>
     length (post_results t') + attempts = length (post_results t) + attempts_of r \<and>
     attempts_of r \<le> jc_max_attempts (jad_config a) \<and>
     io_ok (jc_endpoint (jad_config a)) (jad_api_key a) (jl_body call) (jl_deadline call) t' \<and>
     (\<forall>ev. r = Inr ev \<longrightarrow> evidence_from lib a call t' ev)"

lemma normalize_traced:
  assumes "normalize_response lib (traced env) a call (hr_body h) n w = (r, w')"
    "snd w = IO_Now n1 # IO_Post e k b d (Inr h) # rest" "hr_status h = 200" "n1 < jl_deadline call"
  shows "attempts_of r = n \<and> post_results (snd w') = post_results (snd w) \<and>
    (io_ok ep key body dl (snd w) \<longrightarrow> io_ok ep key body dl (snd w')) \<and>
    (\<forall>ev. r = Inr ev \<longrightarrow> evidence_from lib a call (snd w') ev)"
  using assms
  by (auto simp: normalize_response_def remaining_traced Let_def evidence_from_def split: sum.splits if_splits
      dest!: failure_traced)

lemma status_kind_retry: "status_kind s = Inr k \<Longrightarrow> s \<in> {429, 529}"
  by (auto simp: status_kind_def split: if_splits)

lemma jev_loop_traced:
  assumes "jev_loop lib (traced env) a call attempts w = Some (r, w')"
    and "attempts < jc_max_attempts (jad_config a)" "list_all retryable (post_results (snd w))"
    and "io_ok (jc_endpoint (jad_config a)) (jad_api_key a) (jl_body call) (jl_deadline call) (snd w)"
  shows "loop_post lib a call attempts (snd w) r (snd w')"
  using assms
proof (induction lib "traced env" a call attempts w "(r, w')" arbitrary: r w' rule: jev_loop_induct)
  case (step f lib a call attempts w)
  let ?w1 = "snd (je_cancelled env (fst w))" and ?n = "fst (je_now env (snd (je_cancelled env (fst w))))"
  let ?w2 = "snd (je_now env ?w1)"
  let ?a = "jad_config a"
  obtain res w3 where post: "je_post env (jc_endpoint ?a) (jad_api_key a) (jl_body call) (jl_deadline call - ?n) ?w2 = (res, w3)"
    by fastforce
  let ?t = "IO_Post (jc_endpoint ?a) (jad_api_key a) (jl_body call) (jl_deadline call - ?n) res # IO_Now ?n # IO_Cancelled False # snd w"
  show ?case
  proof (cases "fst (je_cancelled env (fst w)) \<or> jl_deadline call \<le> ?n")
    case True
    with step(2-5) show ?thesis
      by (auto simp: remaining_traced Let_def loop_post_def split: if_splits dest!: failure_traced)
  next
    case False
    have t: "io_ok (jc_endpoint ?a) (jad_api_key a) (jl_body call) (jl_deadline call) ?t" using False step(4,5) by auto
    have pr: "post_results ?t = res # post_results (snd w)" by simp
    note body = step(2) [unfolded remaining_traced Let_def]
    show ?thesis
    proof (cases "retryable res \<and> attempts + 1 < jc_max_attempts ?a")
      case True
      then obtain h k where h: "res = Inr h" "hr_status h \<noteq> 200" "status_kind (hr_status h) = Inr k"
        by (auto simp: retryable_def status_kind_def)
      from body False True post h obtain slept w4 where
        sl: "sleep_with_cancellation (traced env) (backoff_for ?a (attempts + 1)) (jl_deadline call) (w3, ?t) = Some (slept, w4)"
        and nx: "(if slept then f lib (traced env) a call (attempts + 1) w4
            else Some (jev_call_failure_new (traced env) EEK_Timeout ''Jev reflex deadline exhausted during retry backoff''
                     (jc_model_alias ?a) (attempts + 1) (jl_started call) w4)) = Some (r, w')"
        by (auto split: Option.bind_splits if_splits)
      have q: "quiet (jc_endpoint ?a) (jad_api_key a) (jl_body call) (jl_deadline call) ?t (snd w4)"
        using sleep_quiet [OF sl] by simp
      show ?thesis
      proof (cases slept)
        case s: True
        have "loop_post lib a call (attempts + 1) (snd w4) r (snd w')"
          using step(1) [of lib a call "attempts + 1" w4 r w'] nx s q t True step(4) by (simp add: quiet_def)
        with q show ?thesis by (simp add: loop_post_def quiet_def)
      next
        case s: False
        with nx q t True show ?thesis by (auto simp: loop_post_def quiet_def dest!: failure_traced)
      qed
    next
      case stop: False
      show ?thesis
      proof (cases "\<exists>h. res = Inr h \<and> hr_status h = 200")
        case True
        then obtain h where h: "res = Inr h" "hr_status h = 200" by blast
        let ?n1 = "fst (je_now env w3)"
        show ?thesis
        proof (cases "?n1 < jl_deadline call")
          case n1: True
          with body False post h have
            "normalize_response lib (traced env) a call (hr_body h) (attempts + 1) (snd (je_now env w3), IO_Now ?n1 # ?t) = (r, w')"
            by simp
          from normalize_traced [OF this] h n1 t step(3) show ?thesis by (simp add: loop_post_def)
        next
          case False
          with body \<open>\<not> (_ \<or> _)\<close> post h t step(3) show ?thesis by (auto simp: loop_post_def dest!: failure_traced)
        qed
      next
        case False
        with body \<open>\<not> (_ \<or> _)\<close> post stop t step(3) show ?thesis
          by (auto simp: loop_post_def retryable_def split: sum.splits transport_error.splits if_splits
              dest!: failure_traced status_kind_retry)
      qed
    qed
  qed
qed

text \<open>The whole call, from an empty log.\<close>

definition call_of :: "jev_adapter \<Rightarrow> 'v reflex_request \<Rightarrow> string \<Rightarrow> nat \<Rightarrow> nat \<Rightarrow> 'v jev_call" where
  "call_of a request body started budget =
     \<lparr>jl_request = request, jl_body = body, jl_started = started,
      jl_deadline = started + min (jc_deadline (jad_config a)) budget\<rparr>"

lemma jev_evaluate_traced:
  assumes "jev_evaluate lib (traced env) a request budget (w, []) = Some (r, w', t)" "0 < jc_max_attempts (jad_config a)"
  obtains (unsent) f where "r = Inl f" "post_results t = []" "cf_attempts f = 0"
  | (sent) body where "build_request_body lib (jad_config a) request = Inr body"
      "loop_post lib a (call_of a request body (fst (je_now env w)) budget) 0 [IO_Now (fst (je_now env w))] r t"
proof (cases "\<exists>body. build_request_body lib (jad_config a) request = Inr body \<and>
    min (jc_deadline (jad_config a)) budget \<noteq> 0")
  case True
  then obtain body where b: "build_request_body lib (jad_config a) request = Inr body"
    "min (jc_deadline (jad_config a)) budget \<noteq> 0" by blast
  from assms(1) b(2) have "jev_loop lib (traced env) a (call_of a request body (fst (je_now env w)) budget) 0
      (snd (je_now env w), [IO_Now (fst (je_now env w))]) = Some (r, w', t)"
    by (simp add: jev_evaluate_def Let_def call_of_def b(1) min_def split: if_splits)
  from jev_loop_traced [OF this] assms(2) show thesis by (intro sent [OF b(1)]) simp
next
  case False
  with assms(1) have "\<exists>kind message. jev_call_failure_new (traced env) kind message
      (jc_model_alias (jad_config a)) 0 (fst (je_now env w)) (snd (je_now env w), [IO_Now (fst (je_now env w))]) = (r, w', t)"
    by (simp add: jev_evaluate_def Let_def split: sum.splits if_splits) blast+
  then show thesis by (auto intro!: unsent dest!: failure_traced)
qed

section \<open>Termination\<close>

text \<open>
  A clock that moves: it is the reading of a time that no operation of the environment turns back and
  \<open>thread::sleep\<close> advances by at least the duration it was given.
\<close>

definition clock_moves :: "('w \<Rightarrow> nat) \<Rightarrow> 'w jev_env \<Rightarrow> bool" where
  "clock_moves T env \<longleftrightarrow>
     (\<forall>w. fst (je_now env w) = T w \<and> T w \<le> T (snd (je_now env w)) \<and> T w \<le> T (snd (je_cancelled env w))) \<and>
     (\<forall>d w. T w + d \<le> T (je_sleep env d w))"

lemma sleep_loop_returns:
  assumes T: "clock_moves T env"
  shows "\<exists>y. sleep_loop env until deadline w = Some y"
proof (induction "until - T w" arbitrary: w rule: less_induct)
  case less
  have T': "fst (je_now env w) = T w" "T w \<le> T (snd (je_now env w))" "T w \<le> T (snd (je_cancelled env w))"
    "T w + d \<le> T (je_sleep env d w)" for w d using T by (auto simp: clock_moves_def)
  define w1 where "w1 = snd (je_now env w)"
  define w2 where "w2 = snd (je_cancelled env w1)"
  define w3 where "w3 = snd (je_now env w2)"
  define w4 where "w4 = snd (je_now env w3)"
  define d where "d = min (until - T w3) sleep_slice"
  have le: "T w \<le> T w3" "T w3 \<le> T w4"
    using T'(2) [of w] T'(3) [of w1] T'(2) [of w2] T'(2) [of w3] by (simp_all add: w1_def w2_def w3_def w4_def)
  have "T w4 + d \<le> T (je_sleep env d w4)" by (rule T'(4))
  then have "T w < T (je_sleep env d w4)" if "T w < until"
    using that le by (cases "T w3 < until") (auto simp: d_def sleep_slice_def)
  then have "\<exists>y. sleep_loop env until deadline (je_sleep env d w4) = Some y" if "T w < until"
    using that by (intro less) auto
  then show ?case
    by (subst sleep_loop.simps)
      (auto simp: case_prod_unfold remaining_until_def T'(1) d_def w1_def w2_def w3_def w4_def not_le)
qed

lemma sleep_returns: "clock_moves T env \<Longrightarrow> \<exists>y. sleep_with_cancellation env d deadline w = Some y"
  using sleep_loop_returns [of T env]
  by (simp add: sleep_with_cancellation_def case_prod_unfold del: split_paired_Ex split: option.splits)

lemma jev_loop_returns:
  assumes T: "clock_moves T env"
  shows "\<exists>y. jev_loop lib env a call attempts w = Some y"
proof (induction "jc_max_attempts (jad_config a) - attempts" arbitrary: attempts w rule: less_induct)
  case less
  have s: "\<exists>y. Option.bind (sleep_with_cancellation env d dl w) g = Some y" if "\<And>x. \<exists>y. g x = Some y" for d dl w g
    using that sleep_returns [OF T, of d dl w] by auto
  show ?case
    by (subst jev_loop.simps)
      (simp add: case_prod_unfold less s del: split_paired_Ex split: option.splits sum.splits transport_error.splits)
qed

section \<open>Normalized answers\<close>

text \<open>Every number a normalized answer carries is a probability.\<close>

fun answer_ok :: "normalized_answer \<Rightarrow> bool" where
  "answer_ok (NA_Choice c p ps) \<longleftrightarrow> f64_unit_interval p \<and> ps \<noteq> [] \<and> (\<forall>x\<in>set ps. f64_unit_interval (snd x))"
| "answer_ok (NA_Noul p) \<longleftrightarrow> f64_unit_interval p"
| "answer_ok (NA_Score s p ps) \<longleftrightarrow>
     f64_unit_interval s \<and> f64_unit_interval p \<and> ps \<noteq> [] \<and> (\<forall>x\<in>set ps. f64_unit_interval (snd x))"

lemma unit_number_ok: "unit_number lib v field = Inr n \<Longrightarrow> f64_unit_interval n"
  by (auto simp: unit_number_def split: option.splits if_splits)

lemma probability_entries_ok:
  "probability_entries lib field acc obj = Inr ps \<Longrightarrow> \<forall>x\<in>set acc. f64_unit_interval (snd x) \<Longrightarrow>
    \<forall>x\<in>set ps. f64_unit_interval (snd x)"
proof (induction obj arbitrary: acc)
  case (Cons e obj)
  obtain n v where e: "e = (n, v)" by (cases e)
  from Cons(2) obtain p where p: "unit_number lib (Some v) (field @ ''.probabilities.'' @ n) = Inr p"
    "probability_entries lib field (bm_insert n p acc) obj = Inr ps" by (auto simp: e rust_simps)
  have "\<forall>x\<in>set (bm_insert n p acc). f64_unit_interval (snd x)"
    using Cons(3) unit_number_ok [OF p(1)] set_bm_insert [of n p acc] by auto
  then show ?case by (rule Cons(1) [OF p(2)])
qed simp

lemma probability_map_ok:
  "probability_map lib v field = Inr ps \<Longrightarrow> ps \<noteq> [] \<and> (\<forall>x\<in>set ps. f64_unit_interval (snd x))"
  by (auto simp: probability_map_def rust_simps split: option.splits if_splits dest: probability_entries_ok)

lemma parse_choice_ok:
  "parse_choice lib answers name = Inr (c, p, a) \<Longrightarrow> f64_unit_interval p \<and> answer_ok a \<and> (\<exists>ps. a = NA_Choice c p ps)"
  by (auto simp: parse_choice_def rust_simps split: option.splits dest!: unit_number_ok probability_map_ok)

lemma parse_noul_ok: "parse_noul lib answers name = Inr (p, a) \<Longrightarrow> f64_unit_interval p \<and> answer_ok a \<and> a = NA_Noul p"
  by (auto simp: parse_noul_def rust_simps dest!: unit_number_ok)

lemma parse_score_ok:
  "parse_score lib answers name = Inr (s, a) \<Longrightarrow> f64_unit_interval s \<and> answer_ok a \<and> (\<exists>p ps. a = NA_Score s p ps)"
  by (auto simp: parse_score_def rust_simps split: if_splits dest!: unit_number_ok probability_map_ok)

end
