(* ===== verification/Retrieval_Inv.thy ===== *)
theory Retrieval_Inv
  imports Retrieval
begin

text \<open>
  The numbers of the search: rounding keeps a value between the representable numbers around it, the
  square root of a positive number is a positive number of half its exponent, and so every similarity of
  \<open>f32\<close> vectors is a finite number.
\<close>

lemma pow2_nonneg [simp]: "0 \<le> pow2 e"
  by (rule less_imp_le) simp

section \<open>Rounding is monotone\<close>

text \<open>Between a number and a representable one lies a multiple of the number's unit.\<close>

lemma grid_between:
  assumes q: "q \<noteq> 0" and b: "representable b"
  obtains n :: int where
    "q \<le> b \<Longrightarrow> q \<le> of_int n * pow2 (ulp_exp q) \<and> of_int n * pow2 (ulp_exp q) \<le> b"
    "b \<le> q \<Longrightarrow> of_int n * pow2 (ulp_exp q) \<le> q \<and> b \<le> of_int n * pow2 (ulp_exp q)"
proof -
  define k where "k = ulp_exp q"
  from b obtain m e where m: "b = of_int m * pow2 e" "\<bar>m\<bar> < 2 ^ 53" "-1074 \<le> e"
    by (auto simp: representable_def)
  show thesis
  proof (cases "k \<le> e")
    case True
    have "b = of_int (m * 2 ^ nat (e - k)) * pow2 k"
      unfolding m(1) pow2_diff_int [OF True] by simp
    then show thesis using that [of "m * 2 ^ nat (e - k)"] unfolding k_def by simp
  next
    case False
    with m(3) have k: "k = flog2 q - 52" by (auto simp: k_def ulp_exp_def max_def split: if_splits)
    have "\<bar>b\<bar> = of_int \<bar>m\<bar> * pow2 e" by (simp add: m(1) abs_mult abs_of_pos)
    also have "\<dots> < pow2 53 * pow2 e" using m(2) pow2_of_bits(2) [of 53 "\<bar>m\<bar>"] by simp
    also have "\<dots> = pow2 (53 + e)" by (simp add: pow2_add)
    also have "\<dots> \<le> pow2 (flog2 q)" using False k by simp
    finally have small: "\<bar>b\<bar> < pow2 (flog2 q)" .
    have large: "pow2 (flog2 q) \<le> \<bar>q\<bar>" by (rule flog2_bounds [OF q])
    have u: "pow2 (flog2 q) = 2 ^ 52 * pow2 k"
      unfolding k using pow2_add [of 52 "flog2 q - 52"] pow2_of_nat [of 52] by simp
    let ?s = "if q < 0 then - (2 ^ 52) else 2 ^ 52 :: int"
    have s: "of_int ?s * pow2 k = (if q < 0 then - pow2 (flog2 q) else pow2 (flog2 q))" by (simp add: u)
    show thesis
      by (rule that [of ?s]; unfold k_def [symmetric] s) (use small large in \<open>auto simp: abs_if split: if_splits\<close>)
  qed
qed

lemma f64_round_between:
  assumes "representable a" "representable b" "a \<le> q" "q \<le> b"
  obtains r where "f64_round q = Fin r" "a \<le> r" "r \<le> b" "representable r"
proof (cases "q = 0")
  case True
  then have "f64_round q = Fin 0" by (simp add: f64_round_def)
  with True assms show thesis by (intro that [of 0]) simp_all
next
  case False
  let ?u = "pow2 (ulp_exp q)"
  let ?r = "?u * of_int (round_half_even (q / ?u))"
  obtain n where n: "q \<le> of_int n * ?u" "of_int n * ?u \<le> b" using grid_between [OF False assms(2)] assms(4) by metis
  obtain n' where n': "of_int n' * ?u \<le> q" "a \<le> of_int n' * ?u" using grid_between [OF False assms(1)] assms(3) by metis
  have "round_half_even (q / ?u) \<le> n" using n(1) by (intro round_half_even_le) (simp add: pos_divide_le_eq)
  then have "?r \<le> of_int n * ?u" by (simp add: mult.commute)
  then have "?r \<le> b" using n(2) by (rule order_trans)
  moreover have "n' \<le> round_half_even (q / ?u)" using n'(1) by (intro round_half_even_ge) (simp add: pos_le_divide_eq)
  then have "of_int n' * ?u \<le> ?r" by (simp add: mult.commute)
  with n'(2) have "a \<le> ?r" by (rule order_trans)
  moreover have "\<bar>a\<bar> < pow2 1024" "\<bar>b\<bar> < pow2 1024" using assms by (auto simp: representable_def)
  ultimately have r: "f64_round q = Fin ?r" using False by (simp add: f64_round_def Let_def abs_less_iff)
  show thesis by (rule that [OF r]) (use \<open>?r \<le> b\<close> \<open>a \<le> ?r\<close> r in \<open>auto intro: representable_round\<close>)
qed

lemma f64_round_within:
  assumes "f64_round q = Fin r" "representable a" "representable b" "a \<le> q" "q \<le> b"
  shows "a \<le> r \<and> r \<le> b"
  by (rule f64_round_between [OF assms(2-5)]) (use assms(1) in simp)

lemma representable_pow2: "-1074 \<le> e \<Longrightarrow> e < 1024 \<Longrightarrow> representable (pow2 e)"
  by (rule representableI [of _ 1 e]) (simp_all add: abs_of_pos)

lemma representable_minus: "representable q \<Longrightarrow> representable (- q)"
proof -
  assume "representable q"
  then obtain m e where "q = of_int m * pow2 e" "\<bar>m\<bar> < 2 ^ 53" "-1074 \<le> e" "\<bar>q\<bar> < pow2 1024"
    by (auto simp: representable_def)
  then show ?thesis by (intro representableI [of _ "- m" e]) simp_all
qed

lemma representable_multiple: "n < 2 ^ 53 \<Longrightarrow> -1074 \<le> e \<Longrightarrow> e < 971 \<Longrightarrow> representable (of_nat n * pow2 e)"
proof (rule representableI [of _ "int n" e])
  assume n: "n < 2 ^ 53" and e: "-1074 \<le> e" "e < 971"
  have "of_nat n * pow2 e < pow2 53 * pow2 e" using n pow2_of_bits(2) [of 53 "int n"] by simp
  also have "\<dots> < pow2 1024" using e by (simp add: pow2_add [symmetric])
  finally show "\<bar>of_nat n * pow2 e\<bar> < pow2 1024" by (simp add: abs_of_pos abs_mult)
qed simp_all

section \<open>The square root\<close>

lemma isqrt_bits_root:
  assumes "0 \<le> r" "r * r \<le> n" "n < (r + 2 ^ k) * (r + 2 ^ k)"
  shows "0 \<le> isqrt_bits k r n \<and> isqrt_bits k r n * isqrt_bits k r n \<le> n \<and>
    n < (isqrt_bits k r n + 1) * (isqrt_bits k r n + 1)"
  using assms
proof (induction k arbitrary: r)
  case (Suc k)
  show ?case
  proof (cases "(r + 2 ^ k) * (r + 2 ^ k) \<le> n")
    case True
    have "n < (r + 2 ^ k + 2 ^ k) * (r + 2 ^ k + 2 ^ k)" using Suc(4) by (simp add: algebra_simps)
    with Suc(1) [of "r + 2 ^ k"] Suc(2) True show ?thesis by simp
  next
    case False
    with Suc(1) [of r] Suc(2,3) show ?thesis by simp
  qed
qed simp

lemma square_le_iff: "0 \<le> a \<Longrightarrow> 0 \<le> b \<Longrightarrow> a * a < b * b \<longleftrightarrow> a < (b :: int)"
  by (metis abs_of_nonneg abs_mult_self_eq mult_strict_mono' not_less mult_mono)

lemma f64_sqrt_bounds:
  assumes q: "0 < q"
  obtains r where "f64_sqrt (Fin q) = Fin r" "pow2 (flog2 q div 2) \<le> r" "r \<le> pow2 (flog2 q div 2 + 1)"
proof -
  define h where "h = flog2 q div 2"
  define e where "e = h - 52"
  define x where "x = q / pow2 (2 * e)"
  define m where "m = isqrt_bits 53 0 \<lfloor>x\<rfloor>"
  have fl: "pow2 (flog2 q) \<le> q" "q < pow2 (flog2 q + 1)" using flog2_bounds [of q] q by simp_all
  have "pow2 104 * pow2 (2 * e) = pow2 (2 * h)" by (simp add: pow2_add [symmetric] e_def)
  also have "\<dots> \<le> pow2 (flog2 q)" by (simp add: h_def)
  finally have "pow2 104 \<le> x" using fl(1) by (simp add: x_def pos_le_divide_eq)
  then have lo: "2 ^ 104 \<le> \<lfloor>x\<rfloor>" using pow2_of_nat [of 104] by (simp add: le_floor_iff)
  have "pow2 (flog2 q + 1) \<le> pow2 (2 * h + 2)" by (simp add: h_def)
  also have "\<dots> = pow2 106 * pow2 (2 * e)" by (simp add: pow2_add [symmetric] e_def add.commute)
  finally have "x < pow2 106" using fl(2) by (simp add: x_def pos_divide_less_eq)
  then have hi: "\<lfloor>x\<rfloor> < 2 ^ 106" using pow2_of_nat [of 106] by (simp add: floor_less_iff)
  have "0 \<le> m \<and> m * m \<le> \<lfloor>x\<rfloor> \<and> \<lfloor>x\<rfloor> < (m + 1) * (m + 1)"
    unfolding m_def using lo hi by (intro isqrt_bits_root) simp_all
  then have m: "0 \<le> m" "m * m \<le> \<lfloor>x\<rfloor>" "\<lfloor>x\<rfloor> < (m + 1) * (m + 1)" by blast+
  have "m * m < 2 ^ 53 * 2 ^ 53" "2 ^ 52 * 2 ^ 52 < (m + 1) * (m + 1)"
    using order.strict_trans1 [OF m(2) hi] order.strict_trans1 [OF lo m(3)] by simp_all
  with m(1) have b: "2 ^ 52 \<le> m" "m + 1 \<le> 2 ^ 53"
    using square_le_iff [of m "2 ^ 53"] square_le_iff [of "2 ^ 52" "m + 1"] by simp_all
  define n where "n = (if x < of_int (m * m + m) + 1/4 then m
    else if of_int (m * m + m) + 1/4 < x then m + 1 else if even m then m else m + 1)"
  have n: "2 ^ 52 \<le> n" "n \<le> 2 ^ 53" using b by (auto simp: n_def)
  have s: "f64_sqrt (Fin q) = Fin (pow2 e * of_int n)"
    using q by (simp add: n_def m_def x_def e_def h_def Let_def)
  have "pow2 h = pow2 e * of_int (2 ^ 52)" "pow2 (h + 1) = pow2 e * of_int (2 ^ 53)"
    using pow2_add [of e 52] pow2_add [of e 53] pow2_of_nat [of 52] pow2_of_nat [of 53] by (simp_all add: e_def add.commute)
  then have "pow2 h \<le> pow2 e * of_int n \<and> pow2 e * of_int n \<le> pow2 (h + 1)"
    using n by (simp del: of_int_power of_int_numeral)
  then show thesis using that [OF s] by (simp add: h_def)
qed

section \<open>Dot products and norms\<close>

text \<open>The values of an \<open>f32\<close> are among these.\<close>

fun f32_range :: "f64 \<Rightarrow> bool" where
  "f32_range (Fin q) \<longleftrightarrow> q = 0 \<or> (pow2 (- 149) \<le> \<bar>q\<bar> \<and> \<bar>q\<bar> \<le> pow2 128)"
| "f32_range _ \<longleftrightarrow> True"

definition bounded_by :: "rat \<Rightarrow> f64 \<Rightarrow> bool" where
  "bounded_by b v \<longleftrightarrow> (\<exists>q. v = Fin q \<and> \<bar>q\<bar> \<le> b)"

lemma mul_bounded:
  assumes "\<bar>a\<bar> \<le> pow2 128" "\<bar>b\<bar> \<le> pow2 128"
  obtains r where "f64_mul (Fin a) (Fin b) = Fin r" "\<bar>r\<bar> \<le> pow2 256" "representable r"
proof -
  have "\<bar>a * b\<bar> \<le> pow2 128 * pow2 128" unfolding abs_mult using assms by (intro mult_mono) simp_all
  also have "\<dots> = pow2 256" by (simp add: pow2_add [symmetric])
  finally have ab: "- pow2 256 \<le> a * b" "a * b \<le> pow2 256" by (simp_all add: abs_le_iff)
  have R: "representable (pow2 256)" by (rule representable_pow2) simp_all
  show thesis
    by (rule f64_round_between [OF representable_minus [OF R] R ab]) (use that in \<open>simp add: abs_le_iff\<close>)
qed

lemma add_bounded:
  assumes s: "\<bar>s\<bar> \<le> of_nat k * pow2 256" and r: "\<bar>r\<bar> \<le> pow2 256" and k: "k + 1 < 2 ^ 53"
  obtains t where "f64_add (Fin s) (Fin r) = Fin t" "\<bar>t\<bar> \<le> of_nat (k + 1) * pow2 256"
proof -
  let ?b = "of_nat (k + 1) * pow2 256"
  have "\<bar>s + r\<bar> \<le> ?b" using s r abs_triangle_ineq [of s r] by (simp add: distrib_right)
  then have sr: "- ?b \<le> s + r" "s + r \<le> ?b" by (simp_all add: abs_le_iff)
  have R: "representable ?b" using k by (intro representable_multiple) simp_all
  show thesis
    by (rule f64_round_between [OF representable_minus [OF R] R sr]) (use that in \<open>simp add: abs_le_iff\<close>)
qed

definition component :: "f64 \<Rightarrow> bool" where
  "component v \<longleftrightarrow> f64_is_finite v \<and> f32_range v"

lemma componentD: "component v \<Longrightarrow> \<exists>q. v = Fin q \<and> \<bar>q\<bar> \<le> pow2 128 \<and> (q = 0 \<or> pow2 (- 149) \<le> \<bar>q\<bar>)"
  by (cases v) (auto simp: component_def)

definition dot_step :: "f64 \<times> f64 \<Rightarrow> f64 \<Rightarrow> f64" where
  "dot_step p acc = f64_add acc (f64_mul (fst p) (snd p))"

lemma vec_dot_fold: "vec_dot left right = fold dot_step (zip left right) (Fin 0)"
proof -
  have "dot_step = (\<lambda>(a, b) acc. f64_add acc (f64_mul a b))" by (intro ext) (simp add: dot_step_def case_prod_unfold)
  then show ?thesis by (simp add: vec_dot_def)
qed

lemma dot_bounded:
  assumes "\<forall>p\<in>set ps. component (fst p) \<and> component (snd p)" "\<bar>s\<bar> \<le> of_nat k * pow2 256" "k + length ps < 2 ^ 53"
  shows "\<exists>t. fold dot_step ps (Fin s) = Fin t \<and> \<bar>t\<bar> \<le> of_nat (k + length ps) * pow2 256"
  using assms
proof (induction ps arbitrary: s k)
  case (Cons p ps)
  then obtain a b where ab: "fst p = Fin a" "snd p = Fin b" "\<bar>a\<bar> \<le> pow2 128" "\<bar>b\<bar> \<le> pow2 128"
    using componentD [of "fst p"] componentD [of "snd p"] by auto
  obtain r where r: "f64_mul (Fin a) (Fin b) = Fin r" "\<bar>r\<bar> \<le> pow2 256" by (rule mul_bounded [OF ab(3,4)])
  have "k + 1 < 2 ^ 53" using Cons(4) by simp
  then obtain t where t: "f64_add (Fin s) (Fin r) = Fin t" "\<bar>t\<bar> \<le> of_nat (k + 1) * pow2 256"
    by (rule add_bounded [OF Cons(3) r(2)])
  have "dot_step p (Fin s) = Fin t" by (simp only: dot_step_def ab r t)
  moreover have "k + 1 + length ps < 2 ^ 53" using Cons(4) by simp
  ultimately show ?case using Cons(1) [of t "k + 1"] Cons(2) t(2) by simp
qed simp

text \<open>The square of a component adds nothing or at least \<open>2 ^ -298\<close>.\<close>

lemma self_dot_grows:
  assumes "\<forall>v\<in>set vs. component v" "0 \<le> s" "\<bar>s\<bar> \<le> of_nat k * pow2 256" "k + length vs < 2 ^ 53" "representable s"
  shows "\<exists>t. fold dot_step (zip vs vs) (Fin s) = Fin t \<and> s \<le> t \<and> (pow2 (- 298) \<le> t \<or> t = s)"
  using assms
proof (induction vs arbitrary: s k)
  case (Cons v vs)
  from Cons(2) obtain a where a: "v = Fin a" "\<bar>a\<bar> \<le> pow2 128" "a = 0 \<or> pow2 (- 149) \<le> \<bar>a\<bar>"
    using componentD [of v] by auto
  obtain r where r: "f64_mul (Fin a) (Fin a) = Fin r" "\<bar>r\<bar> \<le> pow2 256" "representable r" by (rule mul_bounded [OF a(2,2)])
  have k: "k + 1 < 2 ^ 53" using Cons(5) by simp
  obtain t where t: "f64_add (Fin s) (Fin r) = Fin t" "\<bar>t\<bar> \<le> of_nat (k + 1) * pow2 256"
    by (rule add_bounded [OF Cons(4) r(2) k])
  have rt: "representable t" using t(1) by (auto intro: representable_round)
  have step: "dot_step (v, v) (Fin s) = Fin t" by (simp only: dot_step_def a(1) fst_conv snd_conv r t)
  have t0: "s \<le> t \<and> (pow2 (- 298) \<le> t \<or> t = s)"
  proof (cases "a = 0")
    case True
    then have "r = 0" using r(1) by (simp add: f64_round_def)
    then show ?thesis using t(1) f64_round_exact [OF Cons(6)] by simp
  next
    case False
    have "pow2 (- 149) * pow2 (- 149) \<le> \<bar>a\<bar> * \<bar>a\<bar>" using a(3) False by (intro mult_mono) simp_all
    then have "pow2 (- 298) \<le> a * a" unfolding pow2_add [symmetric] abs_mult_self_eq by simp
    moreover have "\<bar>a\<bar> * \<bar>a\<bar> \<le> pow2 128 * pow2 128" using a(2) by (intro mult_mono) simp_all
    then have "a * a \<le> pow2 256" unfolding pow2_add [symmetric] abs_mult_self_eq by simp
    moreover have "f64_round (a * a) = Fin r" using r(1) by simp
    ultimately have "pow2 (- 298) \<le> r"
      using f64_round_within [of "a * a" r "pow2 (- 298)" "pow2 256"] by (simp add: representable_pow2)
    moreover have "s \<le> t \<and> r \<le> t"
    proof -
      have bt: "s + r \<le> of_nat (k + 1) * pow2 256" using Cons(4) r(2) by (simp add: distrib_right)
      have R: "representable (of_nat (k + 1) * pow2 256)" using k by (intro representable_multiple) simp_all
      have p: "0 \<le> r" by (rule order_trans [OF pow2_nonneg \<open>pow2 (- 298) \<le> r\<close>])
      have "s \<le> s + r" "r \<le> s + r" using p Cons(3) by simp_all
      moreover have "f64_round (s + r) = Fin t" using t(1) by simp
      ultimately show ?thesis
        using f64_round_within [OF _ Cons(6) R _ bt] f64_round_within [OF _ r(3) R _ bt] by blast
    qed
    ultimately show ?thesis by auto
  qed
  have "\<exists>u. fold dot_step (zip vs vs) (Fin t) = Fin u \<and> t \<le> u \<and> (pow2 (- 298) \<le> u \<or> u = t)"
    using Cons(2,3,5) t0 t(2) rt by (intro Cons(1) [of t "k + 1"]) auto
  with t0 show ?case by (auto simp: step)
qed simp

text \<open>A vector of \<open>f32\<close> values, short enough for a \<open>usize\<close> of bytes in memory.\<close>

definition f32_vector :: "f64 list \<Rightarrow> bool" where
  "f32_vector v \<longleftrightarrow> list_all f32_range v \<and> length v < 2 ^ 53"

lemma flog2_between:
  assumes "pow2 a \<le> q" "q < pow2 b"
  shows "a \<le> flog2 q \<and> flog2 q < b"
proof -
  have q: "0 < q" using pow2_pos [of a] assms(1) by (rule order.strict_trans2)
  then have "pow2 (flog2 q) \<le> q" "q < pow2 (flog2 q + 1)" using flog2_bounds [of q] by simp_all
  with assms have "pow2 a < pow2 (flog2 q + 1)" "pow2 (flog2 q) < pow2 b" by (meson order.strict_trans1)+
  then show ?thesis by simp
qed

lemma vec_norm_bounds:
  assumes v: "f32_vector v" "\<forall>x\<in>set v. f64_is_finite x" and nz: "vec_norm v \<noteq> Fin 0"
  obtains r where "vec_norm v = Fin r" "pow2 (- 149) \<le> r" "r \<le> pow2 155"
proof -
  have c: "\<forall>x\<in>set v. component x" using v by (simp add: f32_vector_def component_def list_all_iff)
  have len: "length v < 2 ^ 53" using v(1) by (simp add: f32_vector_def)
  have pairs: "\<forall>p\<in>set (zip v v). component (fst p) \<and> component (snd p)"
    using c by (auto dest: set_zip_leftD set_zip_rightD)
  obtain t where t: "vec_dot v v = Fin t" "\<bar>t\<bar> \<le> of_nat (length v) * pow2 256" "pow2 (- 298) \<le> t \<or> t = 0"
    using dot_bounded [OF pairs, of 0 0] self_dot_grows [OF c, of 0 0] len by (auto simp: vec_dot_fold)
  then have "t \<noteq> 0" using nz by (auto simp: vec_norm_def)
  with t(3) have lo: "pow2 (- 298) \<le> t" by simp
  then have pos: "0 < t" by (rule order.strict_trans2 [OF pow2_pos])
  have "of_nat (length v) * pow2 256 < pow2 53 * pow2 256"
    using len pow2_of_bits(2) [of 53 "int (length v)"] by simp
  then have "t < pow2 309" using t(2) pos by (simp add: pow2_add [symmetric])
  with lo have fl: "- 298 \<le> flog2 t \<and> flog2 t < 309" by (rule flog2_between)
  obtain r where r: "f64_sqrt (Fin t) = Fin r" "pow2 (flog2 t div 2) \<le> r" "r \<le> pow2 (flog2 t div 2 + 1)"
    by (rule f64_sqrt_bounds [OF pos])
  have "- 149 \<le> flog2 t div 2" "flog2 t div 2 + 1 \<le> 155" using fl by presburger+
  note fl = this
  have "pow2 (- 149) \<le> r" by (rule order_trans [OF _ r(2)]) (use fl in simp)
  moreover have "r \<le> pow2 155" by (rule order_trans [OF r(3)]) (use fl in simp)
  ultimately show thesis using r(1) t(1) by (intro that) (simp_all add: vec_norm_def)
qed

lemma f64_div_bounded:
  assumes "\<bar>d\<bar> \<le> pow2 309" "pow2 (- 298) \<le> n"
  obtains r where "f64_div (Fin d) (Fin n) = Fin r"
proof -
  have n: "0 < n" using pow2_pos assms(2) by (rule order.strict_trans2)
  have "\<bar>d\<bar> / n \<le> pow2 309 / pow2 (- 298)" using assms by (intro frac_le) simp_all
  also have "\<dots> = pow2 607" using pow2_add [of 607 "- 298"] by (simp add: field_simps)
  finally have "\<bar>d / n\<bar> \<le> pow2 607" using n by simp
  then have b: "- pow2 607 \<le> d / n" "d / n \<le> pow2 607" by (simp_all only: abs_le_iff) linarith+
  have R: "representable (pow2 607)" by (rule representable_pow2) simp_all
  show thesis by (rule f64_round_between [OF representable_minus [OF R] R b]) (use n that in simp)
qed

text \<open>Both vectors valid, the similarity is a number.\<close>

lemma similarity_finite:
  assumes "f32_vector q" "\<forall>x\<in>set q. f64_is_finite x" "vec_norm q \<noteq> Fin 0"
    and "f32_vector v" "\<forall>x\<in>set v. f64_is_finite x" "vec_norm v \<noteq> Fin 0"
  shows "f64_is_finite (f64_div (vec_dot q v) (f64_mul (vec_norm q) (vec_norm v)))"
proof -
  obtain a where a: "vec_norm q = Fin a" "pow2 (- 149) \<le> a" "a \<le> pow2 155" by (rule vec_norm_bounds [OF assms(1-3)])
  obtain b where b: "vec_norm v = Fin b" "pow2 (- 149) \<le> b" "b \<le> pow2 155" by (rule vec_norm_bounds [OF assms(4-6)])
  have pos: "0 \<le> a" "0 \<le> b" using order_trans [OF pow2_nonneg a(2)] order_trans [OF pow2_nonneg b(2)] .
  have "pow2 (- 149) * pow2 (- 149) \<le> a * b" "a * b \<le> pow2 155 * pow2 155"
    using a(2,3) b(2,3) pos by (intro mult_mono; simp)+
  then have ab: "pow2 (- 298) \<le> a * b" "a * b \<le> pow2 310" unfolding pow2_add [symmetric] by simp_all
  obtain n where n: "f64_round (a * b) = Fin n" "pow2 (- 298) \<le> n"
    by (rule f64_round_between [OF representable_pow2 representable_pow2 ab]) simp_all
  have pairs: "\<forall>p\<in>set (zip q v). component (fst p) \<and> component (snd p)"
    using assms by (auto simp: f32_vector_def component_def list_all_iff dest: set_zip_leftD set_zip_rightD)
  have len: "length (zip q v) < 2 ^ 53" using assms(1) by (simp add: f32_vector_def min_def)
  obtain d where d: "vec_dot q v = Fin d" "\<bar>d\<bar> \<le> of_nat (length (zip q v)) * pow2 256"
    using dot_bounded [OF pairs, of 0 0] len by (auto simp: vec_dot_fold)
  have "of_nat (length (zip q v)) * pow2 256 \<le> pow2 53 * pow2 256"
    using len pow2_of_bits(2) [of 53 "int (length (zip q v))"] by (intro mult_right_mono) simp_all
  then have "of_nat (length (zip q v)) * pow2 256 \<le> pow2 309" unfolding pow2_add [symmetric] by simp
  with d(2) have "\<bar>d\<bar> \<le> pow2 309" by (rule order_trans)
  then obtain r where "f64_div (Fin d) (Fin n) = Fin r" by (rule f64_div_bounded [OF _ n(2)])
  then show ?thesis by (simp add: a(1) b(1) d(1) n(1) del: f64_div.simps)
qed

section \<open>The order of the search\<close>

text \<open>Among finite scores the comparison is the descending order of the scores, then the order of the ids.\<close>

definition score_of :: "f64 \<Rightarrow> rat" where
  "score_of v = (case v of Fin q \<Rightarrow> q | _ \<Rightarrow> 0)"

definition score_order :: "string \<times> string option \<times> f64 \<Rightarrow> string \<times> string option \<times> f64 \<Rightarrow> bool" where
  "score_order l r \<longleftrightarrow>
     score_of (snd (snd r)) < score_of (snd (snd l)) \<or>
     (score_of (snd (snd l)) = score_of (snd (snd r)) \<and> fst l < fst r)"

interpretation search_order: comparator score_order
  by unfold_locales (auto simp: score_order_def not_less)

interpretation asset_id_order: comparator "\<lambda>l r. ia_asset_id l < ia_asset_id r"
  by unfold_locales auto

lemma scored_before_finite:
  "f64_is_finite (snd (snd l)) \<Longrightarrow> f64_is_finite (snd (snd r)) \<Longrightarrow> scored_before l r = score_order l r"
  by (cases "snd (snd l)"; cases "snd (snd r)") (auto simp: scored_before_def score_order_def score_of_def)

lemma insert_by_cong:
  "(\<And>y. y \<in> set ys \<Longrightarrow> lt y x = lt' y x) \<Longrightarrow> insert_by lt x ys = insert_by lt' x ys"
  by (induction ys) auto

lemma sort_by_cong:
  assumes "\<And>x y. x \<in> set xs \<Longrightarrow> y \<in> set xs \<Longrightarrow> lt x y = lt' x y"
  shows "sort_by lt xs = sort_by lt' xs"
  using assms
proof (induction xs)
  case (Cons x xs)
  then have "sort_by lt xs = sort_by lt' xs" by simp
  then show ?case
    using insert_by_cong [of "sort_by lt' xs" lt x lt'] Cons(2) by (simp add: sort_by_def [of _ "x # xs"] sort_by_def [symmetric])
qed simp

section \<open>The index\<close>

lemma dedup_assets_head: "as \<noteq> [] \<Longrightarrow> \<exists>r. dedup_assets as = hd as # r"
  by (induction as rule: dedup_assets.induct) auto

lemma set_dedup_assets: "set (dedup_assets as) \<subseteq> set as \<and> ia_asset_id ` set (dedup_assets as) = ia_asset_id ` set as"
  by (induction as rule: dedup_assets.induct) auto

lemma dedup_assets_increasing:
  "sorted_wrt (\<lambda>a b. \<not> ia_asset_id b < ia_asset_id a) as \<Longrightarrow>
    sorted_wrt (\<lambda>a b. ia_asset_id a < ia_asset_id b) (dedup_assets as)"
proof (induction as rule: dedup_assets.induct)
  case (3 a b rest)
  show ?case
  proof (cases "ia_asset_id a = ia_asset_id b")
    case True
    with 3 show ?thesis by simp
  next
    case False
    have "ia_asset_id a < ia_asset_id c" if "c \<in> set (dedup_assets (b # rest))" for c
    proof -
      from that have "c \<in> set (b # rest)" using set_dedup_assets by blast
      with 3(3) have "ia_asset_id b \<le> ia_asset_id c" by (auto simp: not_less)
      moreover have "ia_asset_id a < ia_asset_id b" using 3(3) False by (simp add: not_less le_neq_trans)
      ultimately show ?thesis by simp
    qed
    with 3 False show ?thesis by simp
  qed
qed simp_all

text \<open>Of several assets with one id the first survives.\<close>

lemma dedup_assets_first:
  "sorted_wrt (\<lambda>a b. \<not> ia_asset_id b < ia_asset_id a) as \<Longrightarrow>
    find (\<lambda>a. ia_asset_id a = i) (dedup_assets as) = find (\<lambda>a. ia_asset_id a = i) as"
  by (induction as rule: dedup_assets.induct) auto

lemma find_filter: "find P xs = (case filter P xs of [] \<Rightarrow> None | x # _ \<Rightarrow> Some x)"
  by (induction xs) auto

lemma filter_same_sort:
  assumes "\<forall>x\<in>set xs. \<forall>y\<in>set xs. \<not> lt x y"
  shows "sort_by lt xs = xs"
  using assms
proof (induction xs)
  case (Cons x xs)
  then show ?case by (cases xs) (auto simp: sort_by_def)
qed simp

lemma find_sorted_asset:
  "find (\<lambda>a. ia_asset_id a = i) (sort_by (\<lambda>l r. ia_asset_id l < ia_asset_id r) as) = find (\<lambda>a. ia_asset_id a = i) as"
  unfolding find_filter asset_id_order.filter_sort by (subst filter_same_sort) auto

lemma validate_assets_ok:
  "validate_assets d as = Inr () \<longleftrightarrow>
    (\<forall>a\<in>set as. \<not> trim_is_empty (ia_asset_id a) \<and> validate_vector (ia_embedding a) d = Inr ())"
  by (induction as) (auto simp: rust_simps)

lemma validate_vector_ok:
  "validate_vector v d = Inr () \<longleftrightarrow> length v = d \<and> (\<forall>x\<in>set v. f64_is_finite x) \<and> vec_norm v \<noteq> Fin 0"
  by (auto simp: validate_vector_def list_ex_iff)

lemma semantic_index_new_ok:
  assumes "semantic_index_new md assets = Inr ix"
  shows "si_metadata ix = md" "set (si_assets ix) \<subseteq> set assets"
    "sorted_wrt (\<lambda>a b. ia_asset_id a < ia_asset_id b) (si_assets ix)"
    "find (\<lambda>a. ia_asset_id a = i) (si_assets ix) = find (\<lambda>a. ia_asset_id a = i) assets"
    "0 < si_dimension ix" "a \<in> set (si_assets ix) \<Longrightarrow> validate_vector (ia_embedding a) (si_dimension ix) = Inr ()"
proof -
  let ?s = "sort_by (\<lambda>l r. ia_asset_id l < ia_asset_id r) assets"
  from assms have ix: "si_metadata ix = md" "si_assets ix = dedup_assets ?s" "0 < si_dimension ix"
    "validate_assets (si_dimension ix) assets = Inr ()"
    by (auto simp: semantic_index_new_def Let_def rust_simps split: list.splits if_splits)
  show "si_metadata ix = md" "0 < si_dimension ix" by (rule ix)+
  show sub: "set (si_assets ix) \<subseteq> set assets" using set_dedup_assets [of ?s] by (simp add: ix)
  show "sorted_wrt (\<lambda>a b. ia_asset_id a < ia_asset_id b) (si_assets ix)"
    unfolding ix by (rule dedup_assets_increasing [OF asset_id_order.sorted_sort])
  show "find (\<lambda>a. ia_asset_id a = i) (si_assets ix) = find (\<lambda>a. ia_asset_id a = i) assets"
    unfolding ix dedup_assets_first [OF asset_id_order.sorted_sort] by (rule find_sorted_asset)
  show "a \<in> set (si_assets ix) \<Longrightarrow> validate_vector (ia_embedding a) (si_dimension ix) = Inr ()"
    using sub ix(4) by (auto simp: validate_assets_ok)
qed

section \<open>Search results\<close>

text \<open>
  The abstract result: each of the index's assets with its score, the best \<open>k\<close> of them in order, ranked
  from 1.
\<close>

definition asset_scores :: "f64 list \<Rightarrow> semantic_index \<Rightarrow> (string \<times> string option \<times> f64) list" where
  "asset_scores q ix = map (score_asset q (vec_norm q)) (si_assets ix)"

lemma asset_scores_finite:
  assumes "semantic_index_new md assets = Inr ix" "\<forall>a\<in>set assets. f32_vector (ia_embedding a)" "f32_vector q"
    and "validate_vector q (si_dimension ix) = Inr ()" "s \<in> set (asset_scores q ix)"
  shows "f64_is_finite (snd (snd s))"
proof -
  from assms(5) obtain a where a: "a \<in> set (si_assets ix)" "s = score_asset q (vec_norm q) a"
    by (auto simp: asset_scores_def)
  have "validate_vector (ia_embedding a) (si_dimension ix) = Inr ()" "f32_vector (ia_embedding a)"
    using semantic_index_new_ok(2,6) [OF assms(1)] a(1) assms(2) by auto
  with assms(3,4) have "f64_is_finite (f64_div (vec_dot q (ia_embedding a)) (f64_mul (vec_norm q) (vec_norm (ia_embedding a))))"
    unfolding validate_vector_ok by (intro similarity_finite) auto
  then show ?thesis by (simp add: a(2) score_asset_def)
qed

lemma index_search_order:
  assumes "semantic_index_new md assets = Inr ix" "\<forall>a\<in>set assets. f32_vector (ia_embedding a)" "f32_vector q"
    and "index_search q k ix = Inr res"
  obtains out where "best_first score_order k (asset_scores q ix) out" "rr_metadata res = md"
    "rr_candidates res = map (\<lambda>(i, s). ranked_candidate i s) (enumerate 0 out)"
proof -
  from assms(4) have v: "validate_vector q (si_dimension ix) = Inr ()" by (auto simp: index_search_def rust_simps)
  let ?s = "sort_by score_order (asset_scores q ix)"
  have "sort_by scored_before (asset_scores q ix) = ?s"
    using asset_scores_finite [OF assms(1-3) v] by (intro sort_by_cong scored_before_finite) simp_all
  moreover have "best_first score_order k (asset_scores q ix) (take k ?s)"
    using search_order.best_first_sort [of id id k "asset_scores q ix"] by simp
  ultimately show thesis
    using assms(4) v semantic_index_new_ok(1) [OF assms(1)]
    by (intro that [of "take k ?s"]) (auto simp: index_search_def asset_scores_def Let_def split: if_splits)
qed

end
