(* ===== verification/Reflex_Claims.thy ===== *)
theory Reflex_Claims
  imports Jev_Inv Retrieval_Inv
begin

text \<open>
  What the reflex pipeline guarantees: the search, the normalization of an untrusted answer, the bounded
  and terminating call, the explicit gate in front of a cached performance, and the fallback.
\<close>

section \<open>An exact match\<close>

lemma f64_round_at:
  assumes "pow2 k \<le> q" "q < pow2 (k + 1)" "- 1022 \<le> k" "k < 1023"
  shows "f64_round q = Fin (pow2 (k - 52) * of_int (round_half_even (q / pow2 (k - 52))))"
proof -
  have q: "0 < q" using pow2_pos assms(1) by (rule order.strict_trans2)
  have "flog2 q = k" using flog2_between [OF assms(1,2)] by simp
  then have u: "ulp_exp q = k - 52" using assms(3) by (simp add: ulp_exp_def)
  have R: "representable (pow2 k)" "representable (pow2 (k + 1))" using assms by (intro representable_pow2; simp)+
  obtain r where r: "f64_round q = Fin r"
    by (rule f64_round_between [OF R assms(1) less_imp_le [OF assms(2)]])
  then show ?thesis using q by (auto simp: f64_round_def Let_def u split: if_splits)
qed

definition ones3 :: "f64 list" where
  "ones3 = [Fin 1, Fin 1, Fin 1]"

lemma pow2_num: "pow2 0 = 1" "pow2 1 = 2" "pow2 2 = 4" "pow2 (- 52) = 1 / 2 ^ 52" "pow2 (- 51) = 1 / 2 ^ 51" "pow2 (- 104) = 1 / 2 ^ 104"
  by (simp_all add: pow2_def power_int_def inverse_eq_divide power_divide)

lemma round_half_even_near:
  assumes "of_int n - 1/2 < q" "q < of_int n + 1/2"
  shows "round_half_even q = n"
proof (cases "of_int n \<le> q")
  case True
  then have "\<lfloor>q\<rfloor> = n" using assms by (simp add: floor_eq_iff)
  then show ?thesis using assms by (simp add: round_half_even_def Let_def)
next
  case False
  then have "\<lfloor>q\<rfloor> = n - 1" using assms by (simp add: floor_eq_iff)
  then show ?thesis using assms by (simp add: round_half_even_def Let_def)
qed

lemma dot_ones3: "vec_dot ones3 ones3 = Fin 3"
  using f64_round_exact [OF representable_nat, of 1] f64_round_exact [OF representable_nat, of 2]
    f64_round_exact [OF representable_nat, of 3]
  by (simp add: vec_dot_def ones3_def)

lemma flog2_3: "flog2 3 = 1"
  using flog2_between [of 1 3 2] by (simp add: pow2_num)

lemma norm_ones3: "vec_norm ones3 = Fin (7800463371553962 / 2 ^ 52)"
proof -
  have "isqrt_bits 53 0 (3 * 2 ^ 104) = 7800463371553962"
    by (simp add: eval_nat_numeral)
  then show ?thesis
    by (simp add: vec_norm_def dot_ones3 flog2_3 pow2_num Let_def)
qed

lemma similarity_ones3:
  "f64_div (vec_dot ones3 ones3) (f64_mul (vec_norm ones3) (vec_norm ones3)) = Fin (1 + 1 / 2 ^ 52)"
proof -
  have "f64_round (7800463371553962 / 2 ^ 52 * (7800463371553962 / 2 ^ 52)) = Fin (6755399441055743 / 2 ^ 51)"
    by (subst f64_round_at [of 1]) (simp_all add: pow2_num round_half_even_near [of 6755399441055743])
  moreover have "f64_round (3 / (6755399441055743 / 2 ^ 51)) = Fin (4503599627370497 / 2 ^ 52)"
    by (subst f64_round_at [of 0]) (simp_all add: pow2_num round_half_even_near [of 4503599627370497])
  ultimately show ?thesis by (simp add: dot_ones3 norm_ones3)
qed

definition demo_metadata :: retrieval_metadata where
  "demo_metadata = \<lparr>rmd_retriever_version = ''semantic-v1'', rmd_embedding_model = ''embed-v1'', rmd_index_version = ''v7'',
     rmd_asset_compiler_version = ''0.1.0'', rmd_similarity_metric = Cosine, rmd_tie_break_rule = ''similarity_desc_then_asset_id_asc''\<rparr>"

definition demo_assets :: "indexed_asset list" where
  "demo_assets = [\<lparr>ia_asset_id = ''b'', ia_asset_identity = Some ''B1'', ia_embedding = ones3\<rparr>,
     \<lparr>ia_asset_id = ''a'', ia_asset_identity = Some ''A1'', ia_embedding = ones3\<rparr>,
     \<lparr>ia_asset_id = ''b'', ia_asset_identity = Some ''B2'', ia_embedding = ones3\<rparr>]"

definition demo_index :: semantic_index where
  "demo_index = \<lparr>si_metadata = demo_metadata, si_dimension = 3,
     si_assets = [\<lparr>ia_asset_id = ''a'', ia_asset_identity = Some ''A1'', ia_embedding = ones3\<rparr>,
       \<lparr>ia_asset_id = ''b'', ia_asset_identity = Some ''B1'', ia_embedding = ones3\<rparr>]\<rparr>"

lemma validate_ones3: "validate_vector ones3 3 = Inr ()"
  by (simp add: validate_vector_ok norm_ones3) (simp add: ones3_def)

lemma demo_index_new: "semantic_index_new demo_metadata demo_assets = Inr demo_index"
proof -
  have "validate_assets 3 demo_assets = Inr ()"
    by (simp add: validate_assets_ok demo_assets_def validate_ones3) code_simp
  moreover have "length ones3 = 3" by (simp add: ones3_def)
  moreover have "dedup_assets (sort_by (\<lambda>l r. ia_asset_id l < ia_asset_id r) demo_assets) = si_assets demo_index"
    by (simp add: demo_assets_def demo_index_def sort_by_def)
  ultimately show ?thesis by (simp add: semantic_index_new_def demo_assets_def demo_index_def Let_def)
qed

lemma demo_search:
  "index_search ones3 1 demo_index = Inr \<lparr>rr_metadata = demo_metadata,
     rr_candidates = [\<lparr>rc_asset_id = ''a'', rc_asset_identity = Some ''A1'', rc_rank = 1, rc_similarity = Fin (1 + 1 / 2 ^ 52)\<rparr>]\<rparr>"
  by (simp add: index_search_def demo_index_def validate_ones3 score_asset_def similarity_ones3 sort_by_def
      scored_before_def ranked_candidate_def)

text \<open>
  C32. A perfect match is refused. The similarity of the vector \<open>[1, 1, 1]\<close> to itself is \<open>1 + 2^-52\<close> in
  \<open>f64\<close> arithmetic, which the adapter's own request validation rejects, so whatever the model would have
  said, the decision is the fallback after no request at all.
\<close>

theorem perfect_match_is_refused:
  "\<exists>retrieval. index_search ones3 1 demo_index = Inr retrieval \<and>
     map rc_similarity (rr_candidates retrieval) = [Fin (1 + 1 / 2 ^ 52)] \<and>
     (\<exists>rec w'. run_with_budget lib env \<lparr>rp_index = demo_index, rp_adapter = a, rp_policy = policy, rp_top_k = 1\<rparr>
          request ones3 None w = Some (Inr rec, w') \<and>
        xd_action (dr_executed rec) = EA_Fallback \<and> xd_asset_id (dr_executed rec) = None \<and>
        me_attempts (dv_model (dr_evidence rec)) = 0)"
proof -
  let ?r = "request\<lparr>rq_retrieval := \<lparr>rs_candidates = [\<lparr>rcc_asset_id = ''a'', rcc_rank = 1, rcc_similarity = Fin (1 + 1 / 2 ^ 52)\<rparr>]\<rparr>\<rparr>"
  have "retrieval_validate (rq_retrieval ?r) \<noteq> Inr ()"
    by (simp add: retrieval_validate_def candidate_validate_def validate_label_def validate_range_def
        MAX_RETRIEVAL_CANDIDATES_def MAX_SNAPSHOT_STRING_BYTES_def)
  then have "reflex_request_validate ?r \<noteq> Inr ()" by (auto simp: reflex_request_validate_def rust_simps)
  then obtain e0 where "reflex_request_validate ?r = Inl e0" by (cases "reflex_request_validate ?r") auto
  then obtain e where e: "build_request_body lib (jad_config a) ?r = Inl e"
    unfolding build_request_body_def by simp
  then have "\<exists>f w'. evaluate_evidence lib env a ?r v = Some (Inl f, w') \<and> cf_attempts f = 0" for v
    by (simp add: evaluate_evidence_def jev_evaluate_def jev_call_failure_new_def case_prod_unfold Let_def)
  then obtain f w' where f: "evaluate_evidence lib env a ?r (snd (je_now env w)) = Some (Inl f, w')" "cf_attempts f = 0"
    by blast
  have "fallback_reason_of k \<noteq> FR_None" for k by (cases k) simp_all
  with f show ?thesis
    by (simp add: demo_search [simplified] run_with_budget_def case_prod_unfold candidate_context_def evidence_of_def apply_policy_def
        deterministic_fallback_def execute_policy_def Let_def)
qed

section \<open>The search\<close>

lemma nth_ranked:
  "i < length out \<Longrightarrow> map (\<lambda>(i, s). ranked_candidate i s) (enumerate 0 out) ! i = ranked_candidate i (out ! i)"
  by (simp add: nth_enumerate_eq)

definition cosine :: "f64 list \<Rightarrow> indexed_asset \<Rightarrow> f64" where
  "cosine q a = snd (snd (score_asset q (vec_norm q) a))"

lemma find_self: "distinct (map f xs) \<Longrightarrow> a \<in> set xs \<longleftrightarrow> find (\<lambda>b. f b = f a) xs = Some a"
  by (induction xs) (auto simp: image_iff)

lemma asset_scores_ids:
  assumes "semantic_index_new md assets = Inr ix"
  shows "distinct (map fst (asset_scores q ix))" "set (map fst (asset_scores q ix)) = ia_asset_id ` set assets"
    "s \<in> set (asset_scores q ix) \<longleftrightarrow>
      (\<exists>a. find (\<lambda>a. ia_asset_id a = fst s) assets = Some a \<and> s = score_asset q (vec_norm q) a)"
proof -
  have ids: "map fst (asset_scores q ix) = map ia_asset_id (si_assets ix)"
    by (simp add: asset_scores_def score_asset_def o_def)
  have inc: "sorted_wrt (\<lambda>a b. ia_asset_id a < ia_asset_id b) (si_assets ix)" by (rule semantic_index_new_ok(3) [OF assms])
  then have "sorted_wrt (<) (map ia_asset_id (si_assets ix))" by (simp add: sorted_wrt_map)
  then show d: "distinct (map fst (asset_scores q ix))" unfolding ids by (simp add: strict_sorted_iff)
  have f: "find (\<lambda>a. ia_asset_id a = i) (si_assets ix) = find (\<lambda>a. ia_asset_id a = i) assets" for i
    by (rule semantic_index_new_ok(4) [OF assms])
  have in_ids: "i \<in> ia_asset_id ` set as \<longleftrightarrow> find (\<lambda>a. ia_asset_id a = i) as \<noteq> None" for i and as :: "indexed_asset list"
    by (auto simp: find_None_iff)
  show "set (map fst (asset_scores q ix)) = ia_asset_id ` set assets"
    unfolding ids set_map by (rule set_eqI) (simp only: in_ids f)
  have "a \<in> set (si_assets ix) \<longleftrightarrow> find (\<lambda>b. ia_asset_id b = ia_asset_id a) (si_assets ix) = Some a" for a
    by (rule find_self [OF d [unfolded ids]])
  then show "s \<in> set (asset_scores q ix) \<longleftrightarrow>
      (\<exists>a. find (\<lambda>a. ia_asset_id a = fst s) assets = Some a \<and> s = score_asset q (vec_norm q) a)"
    by (auto simp: asset_scores_def score_asset_def f dest: find_SomeD)
qed

lemma ranked_fields:
  "map rc_asset_id (map (\<lambda>(i, s). ranked_candidate i s) (enumerate n out)) = map fst out"
  "map (\<lambda>c. (rc_asset_id c, rc_asset_identity c, rc_similarity c)) (map (\<lambda>(i, s). ranked_candidate i s) (enumerate n out)) = out"
  by (induction out arbitrary: n) (auto simp: ranked_candidate_def)

lemma ranked_ranks:
  "n + length out < 2 ^ 32 \<Longrightarrow> map rc_rank (map (\<lambda>(i, s). ranked_candidate i s) (enumerate n out)) = [n + 1..<n + length out + 1]"
proof (induction out arbitrary: n)
  case (Cons s out)
  have "[n + 1..<n + length (s # out) + 1] = (n + 1) # [Suc n + 1..<Suc n + length out + 1]"
    by (subst upt_rec) (simp del: upt_Suc)
  moreover have "rc_rank (ranked_candidate n s) = n + 1" using Cons(2) by (simp add: ranked_candidate_def)
  ultimately show ?case using Cons(1) [of "Suc n"] Cons(2) by (simp del: upt_Suc)
qed simp

text \<open>Of two finite scores of different assets one comes before the other.\<close>

lemma score_order_total:
  "f64_is_finite (snd (snd l)) \<Longrightarrow> f64_is_finite (snd (snd r)) \<Longrightarrow> fst l \<noteq> fst r \<Longrightarrow> \<not> score_order r l \<Longrightarrow>
    f64_lt (snd (snd r)) (snd (snd l)) \<or> (snd (snd l) = snd (snd r) \<and> fst l < fst r)"
  by (cases "snd (snd l)"; cases "snd (snd r)") (auto simp: score_order_def score_of_def)

text \<open>
  C30. Semantic search is exact. On an index of \<open>f32\<close> vectors a search returns as many candidates as it
  may, with contiguous ranks from 1 and distinct ids; each carries the identity and the finite cosine of
  the first asset that was indexed under its id; they are in descending order of similarity, ties in the
  order of the ids; and no asset left out would come before a candidate.
\<close>

theorem semantic_search_is_exact:
  assumes "semantic_index_new md assets = Inr ix" "\<forall>a\<in>set assets. f32_vector (ia_embedding a)" "f32_vector q"
    and "k < 2 ^ 32" "index_search q k ix = Inr res"
  shows "length (rr_candidates res) = min k (card (ia_asset_id ` set assets)) \<and>
    map rc_rank (rr_candidates res) = [1..<length (rr_candidates res) + 1] \<and>
    distinct (map rc_asset_id (rr_candidates res)) \<and>
    (\<forall>c\<in>set (rr_candidates res). \<exists>a. find (\<lambda>a. ia_asset_id a = rc_asset_id c) assets = Some a \<and>
       rc_asset_identity c = ia_asset_identity a \<and> rc_similarity c = cosine q a \<and> f64_is_finite (rc_similarity c)) \<and>
    sorted_wrt (\<lambda>c d. f64_lt (rc_similarity d) (rc_similarity c) \<or>
       (rc_similarity c = rc_similarity d \<and> rc_asset_id c < rc_asset_id d)) (rr_candidates res) \<and>
    (\<forall>i a. find (\<lambda>a. ia_asset_id a = i) assets = Some a \<and> i \<notin> rc_asset_id ` set (rr_candidates res) \<longrightarrow>
       (\<forall>c\<in>set (rr_candidates res). f64_lt (cosine q a) (rc_similarity c) \<or>
          (rc_similarity c = cosine q a \<and> rc_asset_id c < i)))"
proof -
  let ?c = "rr_candidates res" and ?s = "asset_scores q ix"
  let ?f = "\<lambda>c. (rc_asset_id c, rc_asset_identity c, rc_similarity c)"
  obtain out where out: "best_first score_order k ?s out" "?c = map (\<lambda>(i, s). ranked_candidate i s) (enumerate 0 out)"
    by (rule index_search_order [OF assms(1-3,5)])
  then obtain rest where len: "length out = min k (length ?s)" and m: "mset (out @ rest) = mset ?s"
    and sorted: "sorted_wrt (\<lambda>a b. \<not> score_order b a) (out @ rest)" by (auto simp: best_first_def)
  have v: "validate_vector q (si_dimension ix) = Inr ()" using assms(5) by (auto simp: index_search_def rust_simps)
  note ids = asset_scores_ids [OF assms(1), where q = q]
  have set: "set (out @ rest) = set ?s" using m by (metis set_mset_mset)
  have fin: "f64_is_finite (snd (snd s))" if "s \<in> set (out @ rest)" for s
    using that asset_scores_finite [OF assms(1-3) v] by (simp only: set)
  have "mset (map fst (out @ rest)) = mset (map fst ?s)" using m by (metis mset_map)
  then have dist: "distinct (map fst (out @ rest))" using ids(1) by (metis mset_eq_imp_distinct_iff)
  have ordered: "f64_lt (snd (snd r)) (snd (snd l)) \<or> (snd (snd l) = snd (snd r) \<and> fst l < fst r)"
    if "l \<in> set (out @ rest)" "r \<in> set (out @ rest)" "fst l \<noteq> fst r" "\<not> score_order r l" for l r
    using that fin by (intro score_order_total) auto
  have cs: "map ?f ?c = out" "map rc_asset_id ?c = map fst out" by (simp_all only: out(2) ranked_fields)
  have card: "length ?s = card (ia_asset_id ` set assets)"
    using distinct_card [OF ids(1)] ids(2) by simp
  have 1: "length ?c = min k (card (ia_asset_id ` set assets))" using len card by (simp add: out(2))
  have 2: "map rc_rank ?c = [1..<length ?c + 1]"
    using ranked_ranks [of 0 out] len assms(4) by (simp add: out(2))
  have 3: "distinct (map rc_asset_id ?c)" unfolding cs using dist by simp
  have 4: "\<exists>a. find (\<lambda>a. ia_asset_id a = rc_asset_id c) assets = Some a \<and> rc_asset_identity c = ia_asset_identity a \<and>
      rc_similarity c = cosine q a \<and> f64_is_finite (rc_similarity c)" if "c \<in> set ?c" for c
  proof -
    have "?f c \<in> set (out @ rest)" using that unfolding cs(1) [symmetric] by simp
    with set fin [OF this] ids(3) [of "?f c"] show ?thesis by (auto simp: score_asset_def cosine_def)
  qed
  have "sorted_wrt (\<lambda>l r. f64_lt (snd (snd r)) (snd (snd l)) \<or> (snd (snd l) = snd (snd r) \<and> fst l < fst r)) out"
    unfolding sorted_wrt_iff_nth_less
  proof (intro allI impI ordered)
    fix i j assume ij: "i < j" "j < length out"
    show "out ! i \<in> set (out @ rest)" "out ! j \<in> set (out @ rest)" using ij by simp_all
    have "sorted_wrt (\<lambda>a b. \<not> score_order b a) out" using sorted by (simp add: sorted_wrt_append)
    from sorted_wrt_nth_less [OF this ij] show "\<not> score_order (out ! j) (out ! i)" .
    have "distinct (map fst out)" using dist by simp
    then show "fst (out ! i) \<noteq> fst (out ! j)" using ij by (simp add: distinct_conv_nth)
  qed
  then have 5: "sorted_wrt (\<lambda>c d. f64_lt (rc_similarity d) (rc_similarity c) \<or>
       (rc_similarity c = rc_similarity d \<and> rc_asset_id c < rc_asset_id d)) ?c"
    unfolding cs(1) [symmetric] sorted_wrt_map by simp
  have 6: "f64_lt (cosine q a) (rc_similarity c) \<or> (rc_similarity c = cosine q a \<and> rc_asset_id c < i)"
    if a: "find (\<lambda>a. ia_asset_id a = i) assets = Some a" and i: "i \<notin> rc_asset_id ` set ?c" and c: "c \<in> set ?c" for i a c
  proof -
    let ?r = "score_asset q (vec_norm q) a"
    have fst: "fst ?r = i" using find_SomeD [OF a] by (simp add: score_asset_def)
    with a have "?r \<in> set (out @ rest)" unfolding set ids(3) by blast
    moreover have "rc_asset_id ` set ?c = fst ` set out" by (metis cs(2) set_map)
    then have "?r \<notin> set out" using i fst by (metis imageI)
    ultimately have r: "?r \<in> set rest" by simp
    have l: "?f c \<in> set out" using c unfolding cs(1) [symmetric] by simp
    have "\<not> score_order ?r (?f c)" using sorted l r by (simp add: sorted_wrt_append)
    moreover have "rc_asset_id c \<in> rc_asset_id ` set ?c" using c by (rule imageI)
    then have "fst (?f c) \<noteq> fst ?r" using i fst by auto
    ultimately show ?thesis using ordered [of "?f c" ?r] l r fst by (auto simp: cosine_def)
  qed
  from 1 2 3 4 5 6 show ?thesis by blast
qed

theorem semantic_search_is_exact_witness:
  "\<exists>res. index_search ones3 1 demo_index = Inr res \<and> map rc_rank (rr_candidates res) = [1..<length (rr_candidates res) + 1] \<and>
    length (rr_candidates res) = 1 \<and> card (ia_asset_id ` set demo_assets) = 2"
proof -
  have f: "f32_vector ones3" using pow2_of_nat [of 128] by (simp add: f32_vector_def ones3_def pow2_def power_int_def power_le_one)
  then have "\<forall>a\<in>set demo_assets. f32_vector (ia_embedding a)" by (simp add: demo_assets_def)
  note exact = semantic_search_is_exact [OF demo_index_new this f _ demo_search]
  have "card (ia_asset_id ` set demo_assets) = 2" by (simp add: demo_assets_def insert_commute)
  with demo_search exact [THEN conjunct1] exact [THEN conjunct2, THEN conjunct1] show ?thesis
    by (simp del: upt_Suc)
qed

section \<open>Answers\<close>

lemma select_answer_ok:
  assumes "select_answer lib answers cands acc = Inr (sel, acc')" "\<forall>x\<in>set acc. answer_ok (snd x)"
  shows "(\<forall>x\<in>set acc'. answer_ok (snd x)) \<and> (\<forall>n. n \<noteq> ''selected_candidate'' \<longrightarrow> bm_get acc' n = bm_get acc n) \<and>
    (\<forall>i. sel = Some i \<longrightarrow> i \<in> set cands \<and> (\<exists>p ps. bm_get acc' ''selected_candidate'' = Some (NA_Choice i p ps)))"
proof (cases "cands = []")
  case True
  with assms show ?thesis by (simp add: select_answer_def)
next
  case False
  with assms(1) obtain c p a where a: "parse_choice lib answers ''selected_candidate'' = Inr (c, p, a)"
    "acc' = bm_insert ''selected_candidate'' a acc" "sel = (if c = ''none'' then None else Some c)" "sel = None \<or> c \<in> set cands"
    by (auto simp: select_answer_def rust_simps Let_def split: if_splits)
  from parse_choice_ok [OF a(1)] set_bm_insert [of "''selected_candidate''" a acc] assms(2) show ?thesis
    by (auto simp: a(2,3) split: if_splits) (use a(3,4) in auto)
qed

lemma answer_map_ok:
  assumes "\<forall>x\<in>set answers. answer_ok (snd x)"
  shows "\<forall>x\<in>set (answer_map answers). answer_ok (snd x)"
proof -
  have "\<forall>x\<in>set (fold (\<lambda>(n, a). bm_insert n a) answers acc). answer_ok (snd x)" if "\<forall>x\<in>set acc. answer_ok (snd x)" for acc
    using assms that
  proof (induction answers arbitrary: acc)
    case (Cons x answers)
    have "\<forall>y\<in>set (bm_insert (fst x) (snd x) acc). answer_ok (snd y)"
      using Cons(2,3) set_bm_insert [of "fst x" "snd x" acc] by auto
    with Cons(1) [of "bm_insert (fst x) (snd x) acc"] Cons(2) show ?case by (simp add: case_prod_unfold)
  qed simp
  from this [of "[]"] show ?thesis by (simp add: answer_map_def)
qed

lemma normalized_answers_ok:
  assumes "normalize_answers lib answers cands requested returned latency = Inr n"
  shows "reflex_decision_validate (nr_decision n) = Inr () \<and> rf_fallback_reason (nr_decision n) = FR_None \<and>
    (\<forall>x\<in>set (nr_answers n). answer_ok (snd x)) \<and>
    (\<forall>p. rd_confidence (rf_route (nr_decision n)) = Some p \<longrightarrow> f64_unit_interval p) \<and>
    (\<exists>c p ps. bm_get (nr_answers n) ''response_route'' = Some (NA_Choice c p ps) \<and>
       route_of_choice lib c = Inr (rd_value (rf_route (nr_decision n))) \<and> rd_confidence (rf_route (nr_decision n)) = Some p) \<and>
    bm_get (nr_answers n) ''interrupt'' = Some (NA_Noul (rf_interrupt_probability (nr_decision n))) \<and>
    bm_get (nr_answers n) ''cache_reuse'' = Some (NA_Noul (rf_cache_reuse_probability (nr_decision n))) \<and>
    (\<exists>p ps. bm_get (nr_answers n) ''importance'' = Some (NA_Score (rf_importance (nr_decision n)) p ps)) \<and>
    (\<exists>p ps. bm_get (nr_answers n) ''emotion_intensity'' = Some (NA_Score (rf_emotion_intensity (nr_decision n)) p ps)) \<and>
    (\<forall>i. nr_selected_candidate_id n = Some i \<longrightarrow>
       i \<in> set cands \<and> (\<exists>p ps. bm_get (nr_answers n) ''selected_candidate'' = Some (NA_Choice i p ps)))"
proof -
  have last: "(case v of Inl e \<Rightarrow> Inl (g e) | Inr (_ :: unit) \<Rightarrow> Inr x) = Inr n \<longleftrightarrow> v = Inr () \<and> x = n"
    for v and g :: "domain_error \<Rightarrow> string" and x by (auto split: sum.splits)
  obtain route rc ra rv reaction x1 a1 gesture x2 a2 attention x3 a3 tg ip ia cp ca im ima em ema sel acc where
    c: "parse_choice lib answers ''response_route'' = Inr (route, rc, ra)" "route_of_choice lib route = Inr rv"
      "parse_choice lib answers ''reaction_family'' = Inr (reaction, x1, a1)"
      "parse_choice lib answers ''gesture_family'' = Inr (gesture, x2, a2)"
      "parse_choice lib answers ''attention_target'' = Inr (attention, x3, a3)" "attention_of_choice lib attention = Inr tg"
    and p: "parse_noul lib answers ''interrupt'' = Inr (ip, ia)" "parse_noul lib answers ''cache_reuse'' = Inr (cp, ca)"
      "parse_score lib answers ''importance'' = Inr (im, ima)" "parse_score lib answers ''emotion_intensity'' = Inr (em, ema)"
    and s: "select_answer lib answers cands (answer_map
            [(''response_route'', ra), (''reaction_family'', a1), (''gesture_family'', a2), (''attention_target'', a3),
             (''interrupt'', ia), (''cache_reuse'', ca), (''importance'', ima), (''emotion_intensity'', ema)]) = Inr (sel, acc)"
    and v: "reflex_decision_validate
       \<lparr>rf_schema_version = REFLEX_SCHEMA_VERSION, rf_route = \<lparr>rd_value = rv, rd_confidence = Some rc\<rparr>,
        rf_reaction_family = some_unless_none reaction, rf_gesture_family = some_unless_none gesture, rf_attention_target = tg,
        rf_interrupt_probability = ip, rf_cache_reuse_probability = cp, rf_importance = im, rf_emotion_intensity = em,
        rf_backend = \<lparr>bi_name = ''jev'', bi_model_alias = Some requested, bi_model_version = Some returned\<rparr>,
        rf_latency_ms = latency, rf_fallback_reason = FR_None\<rparr> = Inr ()"
    and n: "\<lparr>nr_decision =
       \<lparr>rf_schema_version = REFLEX_SCHEMA_VERSION, rf_route = \<lparr>rd_value = rv, rd_confidence = Some rc\<rparr>,
        rf_reaction_family = some_unless_none reaction, rf_gesture_family = some_unless_none gesture, rf_attention_target = tg,
        rf_interrupt_probability = ip, rf_cache_reuse_probability = cp, rf_importance = im, rf_emotion_intensity = em,
        rf_backend = \<lparr>bi_name = ''jev'', bi_model_alias = Some requested, bi_model_version = Some returned\<rparr>,
        rf_latency_ms = latency, rf_fallback_reason = FR_None\<rparr>, nr_selected_candidate_id = sel, nr_answers = acc\<rparr> = n"
    using assms unfolding normalize_answers_def rbind_eq_Inr split_paired_Ex prod.case Let_def last
    by (elim exE conjE) (rule that; assumption)
  note ok = parse_choice_ok [OF c(1)] parse_choice_ok [OF c(3)] parse_choice_ok [OF c(4)] parse_choice_ok [OF c(5)]
    parse_noul_ok [OF p(1)] parse_noul_ok [OF p(2)] parse_score_ok [OF p(3)] parse_score_ok [OF p(4)]
  have "\<forall>x\<in>set [(''response_route'', ra), (''reaction_family'', a1), (''gesture_family'', a2), (''attention_target'', a3),
       (''interrupt'', ia), (''cache_reuse'', ca), (''importance'', ima), (''emotion_intensity'', ema)]. answer_ok (snd x)"
    using ok by simp
  note sel = select_answer_ok [OF s answer_map_ok [OF this]]
  have keep: "m \<noteq> ''selected_candidate'' \<Longrightarrow> bm_get acc m = bm_get (answer_map
            [(''response_route'', ra), (''reaction_family'', a1), (''gesture_family'', a2), (''attention_target'', a3),
             (''interrupt'', ia), (''cache_reuse'', ca), (''importance'', ima), (''emotion_intensity'', ema)]) m" for m
    using sel by blast
  have get: "bm_get acc ''response_route'' = Some ra" "bm_get acc ''interrupt'' = Some ia"
    "bm_get acc ''cache_reuse'' = Some ca" "bm_get acc ''importance'' = Some ima"
    "bm_get acc ''emotion_intensity'' = Some ema"
    by (simp_all add: keep answer_map_def) (simp_all add: bm_get_def)
  obtain ps1 where ra: "ra = NA_Choice route rc ps1" using ok(1) by blast
  have ic: "ia = NA_Noul ip" "ca = NA_Noul cp" using ok by blast+
  obtain p3 ps3 p4 ps4 where sc: "ima = NA_Score im p3 ps3" "ema = NA_Score em p4 ps4" using ok(7,8) by blast
  show ?thesis
    unfolding n [symmetric] using sel v c(2) ok(1) by (simp add: get ra ic sc)
qed

text \<open>
  C31. An untrusted answer becomes a valid decision or an error. If normalization succeeds, the decision
  passes its own validation, is no fallback, and its route with its confidence, its probabilities and its
  scores are those of the recorded answers, each of them a number in the unit interval; the selected
  candidate is one of those that were offered, and the recorded choice.
\<close>

theorem normalized_decisions_are_valid:
  assumes "normalize_answers lib answers cands requested returned latency = Inr n"
  shows "reflex_decision_validate (nr_decision n) = Inr () \<and> rf_fallback_reason (nr_decision n) = FR_None \<and>
    (\<forall>x\<in>set (nr_answers n). answer_ok (snd x)) \<and>
    (\<exists>c p ps. bm_get (nr_answers n) ''response_route'' = Some (NA_Choice c p ps) \<and>
       route_of_choice lib c = Inr (rd_value (rf_route (nr_decision n))) \<and> rd_confidence (rf_route (nr_decision n)) = Some p) \<and>
    bm_get (nr_answers n) ''interrupt'' = Some (NA_Noul (rf_interrupt_probability (nr_decision n))) \<and>
    bm_get (nr_answers n) ''cache_reuse'' = Some (NA_Noul (rf_cache_reuse_probability (nr_decision n))) \<and>
    (\<exists>p ps. bm_get (nr_answers n) ''importance'' = Some (NA_Score (rf_importance (nr_decision n)) p ps)) \<and>
    (\<exists>p ps. bm_get (nr_answers n) ''emotion_intensity'' = Some (NA_Score (rf_emotion_intensity (nr_decision n)) p ps)) \<and>
    (\<forall>i. nr_selected_candidate_id n = Some i \<longrightarrow>
       i \<in> set cands \<and> (\<exists>p ps. bm_get (nr_answers n) ''selected_candidate'' = Some (NA_Choice i p ps)))"
  using normalized_answers_ok [OF assms] by blast

text \<open>Answers as a provider would give them, in a JSON of objects, strings and numbers.\<close>

datatype demo_value = DJ_Object "(string \<times> demo_value) list" | DJ_String string | DJ_Number f64 | DJ_Other

definition demo_choice :: "string \<Rightarrow> string \<times> demo_value" where
  "demo_choice c = (''choice'', DJ_String c)"

definition demo_probabilities :: "(string \<times> demo_value) list" where
  "demo_probabilities = [(''confidence'', DJ_Number (Fin 1)), (''probabilities'', DJ_Object [(''x'', DJ_Number (Fin 1))]),
     (''legend'', DJ_Object [])]"

definition demo_answers :: "(string, demo_value) bmap" where
  "demo_answers = map (\<lambda>(n, fs). (n, DJ_Object fs))
     [(''response_route'', (''type'', DJ_String ''choice'') # demo_choice ''cached'' # demo_probabilities),
      (''reaction_family'', (''type'', DJ_String ''choice'') # demo_choice ''none'' # demo_probabilities),
      (''gesture_family'', (''type'', DJ_String ''choice'') # demo_choice ''nod_small'' # demo_probabilities),
      (''attention_target'', (''type'', DJ_String ''choice'') # demo_choice ''chat'' # demo_probabilities),
      (''interrupt'', [(''type'', DJ_String ''noul''), (''noul'', DJ_Number (Fin 0))]),
      (''cache_reuse'', [(''type'', DJ_String ''noul''), (''noul'', DJ_Number (Fin 1))]),
      (''importance'', (''type'', DJ_String ''score'') # (''score'', DJ_Number (Fin 1)) # demo_probabilities),
      (''emotion_intensity'', (''type'', DJ_String ''score'') # (''score'', DJ_Number (Fin 0)) # demo_probabilities),
      (''selected_candidate'', (''type'', DJ_String ''choice'') # demo_choice ''a'' # demo_probabilities)]"

definition demo_wire :: "demo_value wire_lib" where
  "demo_wire =
     \<lparr>js_as_object = (\<lambda>v. case v of DJ_Object fs \<Rightarrow> Some fs | _ \<Rightarrow> None),
      js_as_str = (\<lambda>v. case v of DJ_String s \<Rightarrow> Some s | _ \<Rightarrow> None),
      js_as_f64 = (\<lambda>v. case v of DJ_Number n \<Rightarrow> Some n | _ \<Rightarrow> None),
      js_object = DJ_Object, js_array = (\<lambda>_. DJ_Other), js_string = DJ_String, js_bool = (\<lambda>_. DJ_Other), js_f64 = DJ_Number,
      js_u64 = (\<lambda>n. DJ_Number (Fin (of_nat n))), js_null = DJ_Other, js_to_vec = (\<lambda>_. Inr ''state''),
      js_request_to_vec = (\<lambda>_ model _. Inr (''request for '' @ model)),
      js_from_slice = (\<lambda>body. Inr \<lparr>so_model = ''jev-2'', so_answers = demo_answers, so_usage = \<lparr>ju_input_tokens = 1, ju_output_tokens = 1\<rparr>\<rparr>),
      js_debug = (\<lambda>s. s),
      js_parse_url = (\<lambda>u. Some \<lparr>url_scheme = ''https'', url_has_host = True, url_username = [], url_password = None\<rparr>)\<rparr>"

definition demo_decision :: reflex_decision where
  "demo_decision =
     \<lparr>rf_schema_version = REFLEX_SCHEMA_VERSION, rf_route = \<lparr>rd_value = RR_Cached, rd_confidence = Some (Fin 1)\<rparr>,
      rf_reaction_family = None, rf_gesture_family = Some ''nod_small'', rf_attention_target = AT_Chat,
      rf_interrupt_probability = Fin 0, rf_cache_reuse_probability = Fin 1, rf_importance = Fin 1, rf_emotion_intensity = Fin 0,
      rf_backend = \<lparr>bi_name = ''jev'', bi_model_alias = Some ''jev-latest'', bi_model_version = Some ''jev-2''\<rparr>,
      rf_latency_ms = Fin 0, rf_fallback_reason = FR_None\<rparr>"

lemma demo_normalized:
  "\<exists>n. normalize_answers demo_wire demo_answers [''a'', ''b''] ''jev-latest'' ''jev-2'' (Fin 0) = Inr n \<and>
    nr_decision n = demo_decision \<and> nr_selected_candidate_id n = Some ''a''"
  by (simp add: normalize_answers_def parse_choice_def parse_noul_def parse_score_def answer_object_def demo_answers_def
      demo_wire_def bm_get_def demo_choice_def demo_probabilities_def unit_number_def probability_map_def f64_unit_interval_def
      route_of_choice_def attention_of_choice_def select_answer_def some_unless_none_def reflex_decision_validate_def
      validate_unit_interval_def demo_decision_def Let_def)

theorem normalized_decisions_are_valid_witness:
  "\<exists>n. normalize_answers demo_wire demo_answers [''a'', ''b''] ''jev-latest'' ''jev-2'' (Fin 0) = Inr n \<and>
    bm_get (nr_answers n) ''cache_reuse'' = Some (NA_Noul (Fin 1)) \<and>
    (\<exists>p ps. bm_get (nr_answers n) ''selected_candidate'' = Some (NA_Choice ''a'' p ps))"
proof -
  obtain n where n: "normalize_answers demo_wire demo_answers [''a'', ''b''] ''jev-latest'' ''jev-2'' (Fin 0) = Inr n"
    "nr_decision n = demo_decision" "nr_selected_candidate_id n = Some ''a''" using demo_normalized by blast
  from normalized_decisions_are_valid [OF n(1)] n show ?thesis by (simp add: demo_decision_def)
qed

end
