(* ===== verification/Jev_Claims.thy ===== *)
theory Jev_Claims
  imports Reflex_Claims
begin

text \<open>
  What the adapter does with the world, and what the pipeline lets through: requests are bounded, fenced
  by the deadline and never repeated after a final answer; calls return; a cached performance needs an
  explicit candidate; a failed call plays nothing; and the worker's future loses no wake-up.
\<close>

section \<open>Calls\<close>

lemma jev_adapter_new_ok:
  "jev_adapter_new lib cfg key = Inr a \<Longrightarrow>
    jad_config a = cfg \<and> jad_api_key a = key \<and> is_secure_jev_endpoint lib (jc_endpoint cfg) \<and> 0 < jc_max_attempts cfg"
  by (auto simp: jev_adapter_new_def jev_config_validate_def rust_simps split: if_splits)

text \<open>
  C28. Provider calls are bounded. Whatever clock, token and transport the adapter runs with, it makes as
  many requests as it reports and at most \<open>max_attempts\<close>; each goes to the validated secure endpoint with
  the one body it built, right after a negative cancellation check and a clock reading before the deadline,
  with exactly the remaining time as its timeout, and only when every earlier response was a 429 or 529;
  evidence is accepted only from a 200 that was received and parsed before the deadline.
\<close>

theorem provider_calls_are_bounded:
  assumes "jev_adapter_new lib cfg key = Inr a" "jev_evaluate lib (traced env) a request budget (w, []) = Some (r, w', t)"
  shows "length (post_results t) = attempts_of r \<and> attempts_of r \<le> jc_max_attempts cfg \<and>
    (post_results t = [] \<or>
      (\<exists>body. build_request_body lib cfg request = Inr body \<and> is_secure_jev_endpoint lib (jc_endpoint cfg) \<and>
         io_ok (jc_endpoint cfg) key body (fst (je_now env w) + min (jc_deadline cfg) budget) t)) \<and>
    (case r of Inl _ \<Rightarrow> True
     | Inr ev \<Rightarrow> \<exists>body. evidence_from lib a (call_of a request body (fst (je_now env w)) budget) t ev)"
proof -
  note a = jev_adapter_new_ok [OF assms(1)]
  show ?thesis
  proof (rule jev_evaluate_traced [OF assms(2)])
    show "0 < jc_max_attempts (jad_config a)" using a by simp
  next
    fix f assume "r = Inl f" "post_results t = []" "cf_attempts f = 0"
    then show ?thesis by simp
  next
    fix body assume b: "build_request_body lib (jad_config a) request = Inr body"
      and "loop_post lib a (call_of a request body (fst (je_now env w)) budget) 0 [IO_Now (fst (je_now env w))] r t"
    then show ?thesis using a by (auto simp: loop_post_def call_of_def split: sum.splits)
  qed
qed

definition jev_event :: "demo_value event_envelope" where
  "jev_event =
     \<lparr>ev_schema_version = ''0.2.0'', ev_event_id = ''e1'', ev_correlation_id = ''c1'', ev_sequence = 1,
      ev_observed_at = ''2026-01-01T00:00:00Z'', ev_source = ''chat'', ev_source_class = SC_PublicChat,
      ev_plane = Plane_Content, ev_trust_level = Untrusted, ev_kind = ChatMessage, ev_actor_id = None,
      ev_priority_hint = None, ev_authorization = None, ev_payload = []\<rparr>"

definition jev_request :: "demo_value reflex_request" where
  "jev_request = (reflex_request_new jev_event default_reflex_context)
     \<lparr>rq_retrieval := \<lparr>rs_candidates = [\<lparr>rcc_asset_id = ''a'', rcc_rank = 1, rcc_similarity = Fin 1\<rparr>,
        \<lparr>rcc_asset_id = ''b'', rcc_rank = 2, rcc_similarity = Fin 1\<rparr>]\<rparr>\<rparr>"

definition demo_jev_config :: jev_config where
  "demo_jev_config = default_jev_config\<lparr>jc_initial_backoff := 0\<rparr>"

definition demo_adapter :: jev_adapter where
  "demo_adapter = \<lparr>jad_config = demo_jev_config, jad_api_key = ''key''\<rparr>"

text \<open>A world that answers from a script and does not age.\<close>

definition script_env :: "(transport_error + http_response) list jev_env" where
  "script_env =
     \<lparr>je_now = (\<lambda>w. (0, w)), je_cancelled = (\<lambda>w. (False, w)),
      je_post = (\<lambda>_ _ _ _ w. case w of [] \<Rightarrow> (Inl TE_Timeout, []) | r # rs \<Rightarrow> (r, rs)),
      je_sleep = (\<lambda>_ w. w)\<rparr>"

definition demo_script :: "(transport_error + http_response) list" where
  "demo_script = [Inr \<lparr>hr_status = 429, hr_body = []\<rparr>, Inr \<lparr>hr_status = 200, hr_body = ''{}''\<rparr>]"

lemma demo_adapter_new: "jev_adapter_new demo_wire demo_jev_config ''key'' = Inr demo_adapter"
  by (simp add: jev_adapter_new_def jev_config_validate_def is_secure_jev_endpoint_def demo_wire_def demo_jev_config_def
      default_jev_config_def demo_adapter_def) code_simp

lemma demo_event_valid: "validate_event jev_event = Inr ()"
  by code_simp

lemma demo_body:
  "build_request_body demo_wire demo_jev_config jev_request = Inr ''request for jev-latest''"
  by (simp add: build_request_body_def reflex_request_validate_def jev_request_def reflex_request_new_def demo_event_valid
      reflex_context_validate_def default_reflex_context_def performer_validate_def stream_validate_def recent_validate_def
      validate_optional_label_def validate_bounded_labels_def retrieval_validate_def MAX_RETRIEVAL_CANDIDATES_def
      candidate_validate_def validate_label_def validate_range_def MAX_SNAPSHOT_STRING_BYTES_def
      demo_wire_def demo_jev_config_def default_jev_config_def Let_def)

lemma millis_0: "as_millis_f64 0 = Fin 0"
  by (simp add: as_millis_f64_def f64_of_nat_def f64_round_def)

lemma demo_call:
  "\<exists>ev t. jev_evaluate demo_wire (traced script_env) demo_adapter jev_request 1000000 (demo_script, []) = Some (Inr ev, [], t) \<and>
    ce_decision ev = demo_decision \<and> ce_selected_candidate_id ev = Some ''a'' \<and> ce_attempts ev = 2"
proof -
  obtain n where n: "normalize_answers demo_wire demo_answers [''a'', ''b''] ''jev-latest'' ''jev-2'' (Fin 0) = Inr n"
    "nr_decision n = demo_decision" "nr_selected_candidate_id n = Some ''a''" using demo_normalized by blast
  have c: "request_candidates demo_jev_config jev_request = [''a'', ''b'']"
    by (simp add: request_candidates_def jev_request_def demo_jev_config_def default_jev_config_def candidate_asset_ids_def)
  have p: "parse_jev_response_body demo_wire ''{}'' = Inr \<lparr>so_model = ''jev-2'', so_answers = demo_answers,
      so_usage = \<lparr>ju_input_tokens = 1, ju_output_tokens = 1\<rparr>\<rparr>"
    by (simp add: parse_jev_response_body_def MAX_JEV_RESPONSE_BYTES_def demo_wire_def)
  have a: "jc_model_alias demo_jev_config = ''jev-latest''" "jc_deadline demo_jev_config = 250000000"
    "jc_max_attempts demo_jev_config = 3" "jc_initial_backoff demo_jev_config = 0"
    by (simp_all add: demo_jev_config_def default_jev_config_def)
  show ?thesis
    by (simp add: jev_evaluate_def demo_adapter_def demo_body jev_loop.simps remaining_traced script_env_def demo_script_def
        status_kind_def sleep_with_cancellation_def backoff_for_def normalize_response_def p c n a millis_0 Let_def)
qed

theorem provider_calls_are_bounded_witness:
  "\<exists>ev t. jev_evaluate demo_wire (traced script_env) demo_adapter jev_request 1000000 (demo_script, []) = Some (Inr ev, [], t) \<and>
    length (post_results t) = 2"
proof -
  obtain ev t where c: "jev_evaluate demo_wire (traced script_env) demo_adapter jev_request 1000000 (demo_script, []) = Some (Inr ev, [], t)"
    "ce_attempts ev = 2" using demo_call by blast
  from provider_calls_are_bounded [OF demo_adapter_new c(1)] c show ?thesis by simp
qed

text \<open>
  C29. Decisions return. Under a clock that no operation turns back and that \<open>sleep\<close> advances by what it is
  asked for, every run of the pipeline ends, whatever the token and the transport answer.
\<close>

theorem pipeline_runs_return:
  assumes "clock_moves T env"
  shows "run_with_budget lib env p request query remaining_budget w \<noteq> None"
proof -
  have call: "jev_evaluate lib env a r budget v \<noteq> None" for a r budget v
  proof -
    have "jev_loop lib env a c n u \<noteq> None" for c n u using jev_loop_returns [OF assms, of lib a c n u] by auto
    then show ?thesis
      by (simp add: jev_evaluate_def case_prod_unfold Let_def del: not_None_eq split: sum.splits)
  qed
  show ?thesis
    using call
    by (simp add: run_with_budget_def case_prod_unfold Let_def evaluate_evidence_def del: not_None_eq
        split: sum.splits option.split)
qed

text \<open>A world that is a clock, read with a cost of one, and a provider that is always overloaded.\<close>

definition clock_env :: "nat jev_env" where
  "clock_env =
     \<lparr>je_now = (\<lambda>w. (w, w + 1)), je_cancelled = (\<lambda>w. (False, w + 1)),
      je_post = (\<lambda>_ _ _ _ w. (Inr \<lparr>hr_status = 529, hr_body = []\<rparr>, w)), je_sleep = (\<lambda>d w. w + d)\<rparr>"

definition demo_pipeline :: reflex_pipeline where
  "demo_pipeline =
     \<lparr>rp_index = demo_index, rp_adapter = demo_adapter, rp_policy = \<lparr>pc_reuse_threshold = Fin (1/2), pc_min_route_confidence = Fin (1/2)\<rparr>,
      rp_top_k = 1\<rparr>"

theorem pipeline_runs_return_witness:
  "run_with_budget demo_wire clock_env demo_pipeline jev_request ones3 None 5 \<noteq> None"
  by (rule pipeline_runs_return [where T = "\<lambda>w. w"]) (simp add: clock_moves_def clock_env_def)

section \<open>Playing and falling back\<close>

text \<open>Accepted evidence, without the log.\<close>

lemma jev_loop_evidence:
  assumes "jev_loop lib env a call attempts w = Some (Inr ev, w')"
  shows "\<exists>answers returned latency n.
    normalize_answers lib answers (request_candidates (jad_config a) (jl_request call)) (jc_model_alias (jad_config a))
      returned latency = Inr n \<and>
    ce_decision ev = nr_decision n \<and> ce_selected_candidate_id ev = nr_selected_candidate_id n \<and> ce_answers ev = nr_answers n"
  using assms
proof (induction lib env a call attempts w "(Inr ev :: jev_result, w')" arbitrary: ev w' rule: jev_loop_induct)
  case (step f lib env a call attempts w)
  have norm: "\<exists>answers returned latency n.
      normalize_answers lib answers (request_candidates (jad_config a) (jl_request call)) (jc_model_alias (jad_config a))
        returned latency = Inr n \<and>
      ce_decision ev = nr_decision n \<and> ce_selected_candidate_id ev = nr_selected_candidate_id n \<and> ce_answers ev = nr_answers n"
    if "normalize_response lib env a call body k v = (Inr ev, w')" for body k v
    using that
    by (auto simp: normalize_response_def jev_call_failure_new_def Let_def case_prod_unfold split: sum.splits if_splits)
      (rule exI, rule exI, rule exI, rule exI, rule conjI, assumption, simp)
  from step(2) show ?case
    by (auto simp: jev_call_failure_new_def case_prod_unfold Let_def
        split: if_splits option.splits sum.splits transport_error.splits Option.bind_splits
        dest!: step(1) norm)
qed

lemma jev_evaluate_evidence:
  assumes "jev_evaluate lib env a request budget w = Some (Inr ev, w')"
  obtains answers returned latency n where
    "normalize_answers lib answers (request_candidates (jad_config a) request) (jc_model_alias (jad_config a))
       returned latency = Inr n"
    "ce_decision ev = nr_decision n" "ce_selected_candidate_id ev = nr_selected_candidate_id n" "ce_answers ev = nr_answers n"
proof -
  from assms have "\<exists>call v. jl_request call = request \<and> jev_loop lib env a call 0 v = Some (Inr ev, w')"
    by (auto simp: jev_evaluate_def jev_call_failure_new_def case_prod_unfold Let_def split: sum.splits if_splits)
       (metis jev_call.select_convs(1))
  then obtain call v where c: "jl_request call = request" "jev_loop lib env a call 0 v = Some (Inr ev, w')" by blast
  from jev_loop_evidence [OF c(2)] c(1) that show thesis by auto
qed

text \<open>What a run returns, by what the adapter returned.\<close>

lemma run_with_budget_Inr:
  assumes "run_with_budget lib env p request query remaining_budget w = Some (Inr rec, w')"
  obtains retrieval result request' v budget where
    "index_search query (rp_top_k p) (rp_index p) = Inr retrieval" "dr_evidence rec = evidence_of retrieval result"
    "dr_policy rec = apply_policy (evidence_of retrieval result) (rp_policy p)" "dr_executed rec = execute_policy (dr_policy rec)"
    "jev_evaluate lib env (rp_adapter p) request' budget v = Some (result, w')"
    "rs_candidates (rq_retrieval request') = map candidate_context (rr_candidates retrieval)"
proof -
  let ?request' = "\<lambda>retrieval. request\<lparr>rq_retrieval := \<lparr>rs_candidates = map candidate_context (rr_candidates retrieval)\<rparr>\<rparr>"
  from assms obtain retrieval where r: "index_search query (rp_top_k p) (rp_index p) = Inr retrieval"
    by (auto simp: run_with_budget_def case_prod_unfold split: sum.splits)
  with assms have "\<exists>result v budget.
    jev_evaluate lib env (rp_adapter p) (?request' retrieval) budget v = Some (result, w') \<and>
    rec = \<lparr>dr_event_id = ev_event_id (rq_event request), dr_request_schema_version = rq_schema_version request,
       dr_context_schema_version = rx_schema_version (rq_context request), dr_evidence = evidence_of retrieval result,
       dr_policy = apply_policy (evidence_of retrieval result) (rp_policy p),
       dr_executed = execute_policy (apply_policy (evidence_of retrieval result) (rp_policy p))\<rparr>"
    by (cases remaining_budget) (auto simp: run_with_budget_def case_prod_unfold Let_def evaluate_evidence_def)
  then obtain result v budget where
    "jev_evaluate lib env (rp_adapter p) (?request' retrieval) budget v = Some (result, w')"
    "rec = \<lparr>dr_event_id = ev_event_id (rq_event request), dr_request_schema_version = rq_schema_version request,
       dr_context_schema_version = rx_schema_version (rq_context request), dr_evidence = evidence_of retrieval result,
       dr_policy = apply_policy (evidence_of retrieval result) (rp_policy p),
       dr_executed = execute_policy (apply_policy (evidence_of retrieval result) (rp_policy p))\<rparr>" by blast
  with r show thesis by (intro that [of retrieval result "?request' retrieval" budget v]) simp_all
qed

lemma set_request_candidates:
  "set (request_candidates c r) \<subseteq> rcc_asset_id ` set (rs_candidates (rq_retrieval r))"
  unfolding request_candidates_def candidate_asset_ids_def by (metis set_map set_take_subset)

text \<open>The candidates of any search are assets of the index, first of their id.\<close>

lemma index_search_candidates:
  assumes "semantic_index_new md assets = Inr ix" "index_search q k ix = Inr res" "c \<in> set (rr_candidates res)"
  shows "\<exists>a. find (\<lambda>a. ia_asset_id a = rc_asset_id c) assets = Some a \<and> rc_asset_identity c = ia_asset_identity a"
proof -
  have "\<exists>s\<in>set (asset_scores q ix). fst s = rc_asset_id c \<and> fst (snd s) = rc_asset_identity c"
    using assms(2,3)
    by (auto simp: index_search_def rust_simps Let_def asset_scores_def ranked_candidate_def enumerate_eq_zip
        dest!: set_zip_rightD in_set_takeD split: if_splits) (metis fst_conv snd_conv imageI)
  then obtain s where s: "s \<in> set (asset_scores q ix)" "fst s = rc_asset_id c" "fst (snd s) = rc_asset_identity c" by blast
  then obtain a where "find (\<lambda>a. ia_asset_id a = fst s) assets = Some a" "s = score_asset q (vec_norm q) a"
    using asset_scores_ids(3) [OF assms(1), where q = q] by blast
  then show ?thesis using s by (auto simp: score_asset_def)
qed

lemma cached_policy:
  assumes "xd_action (execute_policy (apply_policy ev c)) = EA_Cached"
  shows "rf_fallback_reason (dv_normalized ev) = FR_None \<and> rd_value (rf_route (dv_normalized ev)) = RR_Cached \<and>
    (\<forall>p. rd_confidence (rf_route (dv_normalized ev)) = Some p \<longrightarrow> \<not> f64_lt p (pc_min_route_confidence c)) \<and>
    f64_le (pc_reuse_threshold c) (rf_cache_reuse_probability (dv_normalized ev)) \<and>
    (\<exists>i. dv_selected_candidate_id ev = Some i \<and> xd_asset_id (execute_policy (apply_policy ev c)) = Some i \<and>
      xd_asset_identity (execute_policy (apply_policy ev c)) =
        Option.bind (find (\<lambda>k. rc_asset_id k = i) (rr_candidates (dv_retrieval ev))) rc_asset_identity)"
proof -
  have route: "action_of_route r = EA_Cached \<longleftrightarrow> r = RR_Cached" for r by (cases r) simp_all
  show ?thesis
    using assms unfolding execute_policy_def apply_policy_def Let_def
    by (auto simp: route split: if_splits option.splits)
qed

lemma only_cached_plays: "xd_asset_id (execute_policy p) \<noteq> None \<Longrightarrow> xd_action (execute_policy p) = EA_Cached"
  by (auto simp: execute_policy_def Let_def split: if_splits)

text \<open>
  C27. A cached performance is explicit. The pipeline plays an asset only as the cached action, only when
  the model answered with the cached route at a confidence and a reuse probability that reach the
  configured thresholds, and only the candidate that the model named among the Top-K of this search, with
  the identity under which the first asset of that id was indexed.
\<close>

theorem cached_playback_is_explicit:
  assumes "semantic_index_new md assets = Inr ix" "reflex_pipeline_new ix a policy top_k = Inr p"
    and "run_with_budget lib env p request query remaining_budget w = Some (Inr rec, w')"
    and "xd_action (dr_executed rec) = EA_Cached \<or> xd_asset_id (dr_executed rec) \<noteq> None"
  shows "\<exists>retrieval i asset conf prob ps. xd_action (dr_executed rec) = EA_Cached \<and> xd_asset_id (dr_executed rec) = Some i \<and>
    index_search query top_k ix = Inr retrieval \<and> i \<in> rc_asset_id ` set (rr_candidates retrieval) \<and>
    find (\<lambda>a. ia_asset_id a = i) assets = Some asset \<and> xd_asset_identity (dr_executed rec) = ia_asset_identity asset \<and>
    (let d = dv_normalized (dr_evidence rec) in
       rf_fallback_reason d = FR_None \<and> rd_value (rf_route d) = RR_Cached \<and> rd_confidence (rf_route d) = Some conf \<and>
       f64_le (pc_min_route_confidence policy) conf \<and> f64_le (pc_reuse_threshold policy) (rf_cache_reuse_probability d)) \<and>
    bm_get (me_answers (dv_model (dr_evidence rec))) ''selected_candidate'' = Some (NA_Choice i prob ps)"
proof -
  from assms(2) have p: "rp_index p = ix" "rp_policy p = policy" "rp_top_k p = top_k"
    "f64_unit_interval (pc_min_route_confidence policy)"
    by (auto simp: reflex_pipeline_new_def split: if_splits)
  obtain retrieval result request' v budget where
    r: "index_search query top_k ix = Inr retrieval" "dr_evidence rec = evidence_of retrieval result"
      "dr_policy rec = apply_policy (evidence_of retrieval result) policy" "dr_executed rec = execute_policy (dr_policy rec)"
      "jev_evaluate lib env (rp_adapter p) request' budget v = Some (result, w')"
      "rs_candidates (rq_retrieval request') = map candidate_context (rr_candidates retrieval)"
    by (rule run_with_budget_Inr [OF assms(3), unfolded p])
  let ?ev = "evidence_of retrieval result" and ?d = "dv_normalized (evidence_of retrieval result)"
  have cached: "xd_action (execute_policy (apply_policy ?ev policy)) = EA_Cached"
    using assms(4) only_cached_plays unfolding r(3,4) by blast
  from cached_policy [OF this] obtain i where c: "rf_fallback_reason ?d = FR_None" "rd_value (rf_route ?d) = RR_Cached"
    "\<forall>q. rd_confidence (rf_route ?d) = Some q \<longrightarrow> \<not> f64_lt q (pc_min_route_confidence policy)"
    "f64_le (pc_reuse_threshold policy) (rf_cache_reuse_probability ?d)" "dv_selected_candidate_id ?ev = Some i"
    "xd_asset_id (dr_executed rec) = Some i"
    "xd_asset_identity (dr_executed rec) = Option.bind (find (\<lambda>k. rc_asset_id k = i) (rr_candidates retrieval)) rc_asset_identity"
    unfolding r(3,4) by (auto simp: evidence_of_def split: sum.splits)
  then obtain m where m: "result = Inr m" "ce_selected_candidate_id m = Some i" "?d = ce_decision m"
    by (auto simp: evidence_of_def split: sum.splits)
  from r(5) obtain answers returned latency n where
    n: "normalize_answers lib answers (request_candidates (jad_config (rp_adapter p)) request') (jc_model_alias (jad_config (rp_adapter p)))
        returned latency = Inr n" "ce_decision m = nr_decision n" "ce_selected_candidate_id m = nr_selected_candidate_id n"
      "ce_answers m = nr_answers n"
    unfolding m(1) by (rule jev_evaluate_evidence)
  note ok = normalized_answers_ok [OF n(1)]
  from ok m n obtain conf ps0 x where conf: "rd_confidence (rf_route ?d) = Some conf" "f64_unit_interval conf"
    by auto
  from ok m(2) n(3) obtain prob ps where
    sel: "i \<in> set (request_candidates (jad_config (rp_adapter p)) request')"
      "bm_get (ce_answers m) ''selected_candidate'' = Some (NA_Choice i prob ps)"
    unfolding n(4) by auto
  then have "i \<in> rc_asset_id ` set (rr_candidates retrieval)"
    using set_request_candidates [of "jad_config (rp_adapter p)" request'] r(6) by (auto simp: candidate_context_def)
  moreover from this obtain k where k: "find (\<lambda>k. rc_asset_id k = i) (rr_candidates retrieval) = Some k"
    by (cases "find (\<lambda>k. rc_asset_id k = i) (rr_candidates retrieval)") (auto simp: find_None_iff)
  then have "k \<in> set (rr_candidates retrieval)" "rc_asset_id k = i" using find_SomeD [OF k] by auto
  with index_search_candidates [OF assms(1) r(1), of k] obtain asset where
    "find (\<lambda>a. ia_asset_id a = i) assets = Some asset" "rc_asset_identity k = ia_asset_identity asset" by auto
  moreover have "f64_le (pc_min_route_confidence policy) conf"
    using c(3) conf p(4) by (auto simp: f64_unit_interval_iff)
  moreover have "me_answers (dv_model ?ev) = ce_answers m" by (simp add: m(1) evidence_of_def)
  ultimately show ?thesis
    using c(1,2,4,6,7) conf(1) sel(2) cached k r(1) unfolding r(2) r(3,4) Let_def by auto
qed

text \<open>An index with a vector whose similarity to itself is exactly one, asked for its best asset.\<close>

definition axis2 :: "f64 list" where
  "axis2 = [Fin 1, Fin 0]"

definition axis_assets :: "indexed_asset list" where
  "axis_assets = [\<lparr>ia_asset_id = ''a'', ia_asset_identity = Some ''A1'', ia_embedding = axis2\<rparr>,
     \<lparr>ia_asset_id = ''b'', ia_asset_identity = Some ''B1'', ia_embedding = axis2\<rparr>]"

definition axis_index :: semantic_index where
  "axis_index = \<lparr>si_metadata = demo_metadata, si_dimension = 2, si_assets = axis_assets\<rparr>"

definition axis_policy :: policy_config where
  "axis_policy = \<lparr>pc_reuse_threshold = Fin (1/2), pc_min_route_confidence = Fin (1/2)\<rparr>"

definition axis_pipeline :: reflex_pipeline where
  "axis_pipeline = \<lparr>rp_index = axis_index, rp_adapter = demo_adapter, rp_policy = axis_policy, rp_top_k = 2\<rparr>"

lemma round_1: "f64_round 1 = Fin 1"
  using f64_round_exact [OF representable_nat, of 1] by simp

lemma dot_axis2: "vec_dot axis2 axis2 = Fin 1"
  using f64_round_exact [OF representable_0] by (simp add: vec_dot_def axis2_def round_1)

lemma norm_axis2: "vec_norm axis2 = Fin 1"
proof -
  have "flog2 1 = 0" using flog2_between [of 0 1 1] by (simp add: pow2_num)
  moreover have "isqrt_bits 53 0 (2 ^ 104) = 2 ^ 52" by (simp add: eval_nat_numeral)
  ultimately show ?thesis by (simp add: vec_norm_def dot_axis2 pow2_num Let_def)
qed

lemma validate_axis2: "validate_vector axis2 2 = Inr ()"
  by (simp add: validate_vector_ok norm_axis2) (simp add: axis2_def)

lemma axis_index_new: "semantic_index_new demo_metadata axis_assets = Inr axis_index"
proof -
  have "validate_assets 2 axis_assets = Inr ()"
    by (simp add: validate_assets_ok axis_assets_def validate_axis2) code_simp
  moreover have "length axis2 = 2" by (simp add: axis2_def)
  moreover have "dedup_assets (sort_by (\<lambda>l r. ia_asset_id l < ia_asset_id r) axis_assets) = axis_assets"
    by (simp add: axis_assets_def sort_by_def)
  ultimately show ?thesis by (simp add: semantic_index_new_def axis_assets_def axis_index_def Let_def)
qed

lemma axis_pipeline_new: "reflex_pipeline_new axis_index demo_adapter axis_policy 2 = Inr axis_pipeline"
  by (simp add: reflex_pipeline_new_def MAX_RETRIEVAL_CANDIDATES_def axis_policy_def f64_unit_interval_def axis_pipeline_def)

lemma axis_search:
  "index_search axis2 2 axis_index = Inr \<lparr>rr_metadata = demo_metadata,
     rr_candidates = [\<lparr>rc_asset_id = ''a'', rc_asset_identity = Some ''A1'', rc_rank = 1, rc_similarity = Fin 1\<rparr>,
       \<lparr>rc_asset_id = ''b'', rc_asset_identity = Some ''B1'', rc_rank = 2, rc_similarity = Fin 1\<rparr>]\<rparr>"
  by (simp add: index_search_def axis_index_def axis_assets_def validate_axis2 score_asset_def dot_axis2 norm_axis2 round_1
      sort_by_def scored_before_def ranked_candidate_def)

lemma axis_run:
  "\<exists>rec. run_with_budget demo_wire script_env axis_pipeline jev_request axis2 None demo_script = Some (Inr rec, []) \<and>
    xd_action (dr_executed rec) = EA_Cached"
proof -
  obtain n where n: "normalize_answers demo_wire demo_answers [''a'', ''b''] ''jev-latest'' ''jev-2'' (Fin 0) = Inr n"
    "nr_decision n = demo_decision" "nr_selected_candidate_id n = Some ''a''" using demo_normalized by blast
  have c: "request_candidates demo_jev_config jev_request = [''a'', ''b'']"
    by (simp add: request_candidates_def jev_request_def demo_jev_config_def default_jev_config_def candidate_asset_ids_def)
  have p: "parse_jev_response_body demo_wire ''{}'' = Inr \<lparr>so_model = ''jev-2'', so_answers = demo_answers,
      so_usage = \<lparr>ju_input_tokens = 1, ju_output_tokens = 1\<rparr>\<rparr>"
    by (simp add: parse_jev_response_body_def MAX_JEV_RESPONSE_BYTES_def demo_wire_def)
  have a: "jc_model_alias demo_jev_config = ''jev-latest''" "jc_deadline demo_jev_config = 250000000"
    "jc_max_attempts demo_jev_config = 3" "jc_initial_backoff demo_jev_config = 0"
    by (simp_all add: demo_jev_config_def default_jev_config_def)
  have r: "jev_request\<lparr>rq_retrieval := \<lparr>rs_candidates = [\<lparr>rcc_asset_id = ''a'', rcc_rank = 1, rcc_similarity = Fin 1\<rparr>,
      \<lparr>rcc_asset_id = ''b'', rcc_rank = 2, rcc_similarity = Fin 1\<rparr>]\<rparr>\<rparr> = jev_request"
    by (simp add: jev_request_def)
  have "evaluate_evidence demo_wire script_env demo_adapter jev_request demo_script = Some (Inr
      \<lparr>ce_decision = demo_decision, ce_selected_candidate_id = Some ''a'', ce_requested_model = ''jev-latest'',
       ce_returned_model = ''jev-2'', ce_usage = \<lparr>ju_input_tokens = 1, ju_output_tokens = 1\<rparr>, ce_attempts = 2,
       ce_latency_ms = Fin 0, ce_answers = nr_answers n\<rparr>, [])"
    by (simp add: evaluate_evidence_def jev_evaluate_def demo_adapter_def demo_body jev_loop.simps remaining_until_def
        script_env_def demo_script_def status_kind_def sleep_with_cancellation_def backoff_for_def normalize_response_def
        p c n a millis_0 Let_def)
  moreover have "je_now script_env demo_script = (0, demo_script)" by (simp add: script_env_def)
  ultimately show ?thesis
    by (simp add: run_with_budget_def axis_pipeline_def axis_search candidate_context_def r [simplified] evidence_of_def
        apply_policy_def demo_decision_def axis_policy_def execute_policy_def Let_def)
qed

theorem cached_playback_is_explicit_witness:
  "\<exists>rec. run_with_budget demo_wire script_env axis_pipeline jev_request axis2 None demo_script = Some (Inr rec, []) \<and>
    xd_action (dr_executed rec) = EA_Cached \<and> xd_asset_identity (dr_executed rec) \<noteq> None"
proof -
  obtain rec where r: "run_with_budget demo_wire script_env axis_pipeline jev_request axis2 None demo_script = Some (Inr rec, [])"
    "xd_action (dr_executed rec) = EA_Cached" using axis_run by blast
  from cached_playback_is_explicit [OF axis_index_new axis_pipeline_new r(1) disjI1 [OF r(2)]] r show ?thesis
    by (auto simp: axis_assets_def split: if_splits)
qed

section \<open>The future of a worker thread\<close>

text \<open>
  The thread and the task that awaits it, interleaved step by step: \<open>ws_pending\<close> is the waker of the last
  poll if it had to wait, \<open>ws_woken\<close> the wakers woken since, \<open>ws_delivered\<close> says that a poll got the result.
  A future is not polled again after that.
\<close>

record ('a, 'k) worker_system =
  ws_worker :: "('a, 'k) worker"
  ws_pending :: "'k option"
  ws_woken :: "'k list"
  ws_delivered :: bool

inductive worker_step :: "('a, 'k) worker_system \<Rightarrow> ('a, 'k) worker_system \<Rightarrow> bool" where
  store: "\<not> wk_finished (ws_worker s) \<Longrightarrow> worker_step s (s\<lparr>ws_worker := worker_store r (ws_worker s)\<rparr>)"
| wake: "worker_wake (ws_worker s) = (Some k, w) \<Longrightarrow> worker_step s (s\<lparr>ws_worker := w, ws_woken := k # ws_woken s\<rparr>)"
| ready: "\<not> ws_delivered s \<Longrightarrow> worker_poll k (ws_worker s) = (Some r, w) \<Longrightarrow>
    worker_step s (s\<lparr>ws_worker := w, ws_pending := None, ws_woken := [], ws_delivered := True\<rparr>)"
| pending: "\<not> ws_delivered s \<Longrightarrow> worker_poll k (ws_worker s) = (None, w) \<Longrightarrow>
    worker_step s (s\<lparr>ws_worker := w, ws_pending := Some k, ws_woken := []\<rparr>)"
| drop_future: "worker_step s (s\<lparr>ws_worker := worker_drop (ws_worker s)\<rparr>)"

inductive worker_reach :: "('a, 'k) worker_system \<Rightarrow> bool" where
  spawn: "worker_reach \<lparr>ws_worker = worker_spawn, ws_pending = None, ws_woken = [], ws_delivered = False\<rparr>"
| step: "worker_reach s \<Longrightarrow> worker_step s s' \<Longrightarrow> worker_reach s'"

definition worker_inv :: "('a, 'k) worker_system \<Rightarrow> bool" where
  "worker_inv s \<longleftrightarrow>
     (if wk_finished (ws_worker s)
      then (ws_delivered s \<or> wk_result (ws_worker s) \<noteq> None) \<and>
        (\<forall>k. ws_pending s = Some k \<longrightarrow> wk_waking (ws_worker s) = Some k \<or> k \<in> set (ws_woken s))
      else wk_result (ws_worker s) = None \<and> wk_waking (ws_worker s) = None \<and>
        \<not> ws_delivered s \<and> (\<forall>k. ws_pending s = Some k \<longrightarrow> wk_waker (ws_worker s) = Some k))"

lemma worker_reach_inv: "worker_reach s \<Longrightarrow> worker_inv s"
proof (induction rule: worker_reach.induct)
  case (step s s')
  from step(2,3) show ?case
    by (cases rule: worker_step.cases)
      (auto simp: worker_inv_def worker_store_def worker_wake_def worker_poll_def worker_drop_def split: option.splits if_splits)
qed (simp add: worker_inv_def worker_spawn_def)

text \<open>
  C33. No wake-up is lost. However the thread and the polls of the task interleave: once the thread is
  done, a result that has not been delivered is there for the next poll, and a task whose last poll had to
  wait has been woken after it.
\<close>

theorem no_wakeup_is_lost:
  assumes "worker_reach s" "wk_finished (ws_worker s)" "wk_waking (ws_worker s) = None" "\<not> ws_delivered s"
  shows "(\<exists>r. fst (worker_poll k (ws_worker s)) = Some r) \<and>
    (case ws_pending s of None \<Rightarrow> True | Some k \<Rightarrow> k \<in> set (ws_woken s))"
  using worker_reach_inv [OF assms(1)] assms(2-4)
  by (auto simp: worker_inv_def worker_poll_def split: option.splits)

definition demo_worker :: "(nat, nat) worker_system" where
  "demo_worker =
     \<lparr>ws_worker = \<lparr>wk_result = Some 5, wk_waker = None, wk_cancelled = False, wk_finished = True, wk_waking = None\<rparr>,
      ws_pending = Some 1, ws_woken = [1], ws_delivered = False\<rparr>"

lemma demo_worker_reach: "worker_reach demo_worker"
proof -
  let ?s0 = "\<lparr>ws_worker = worker_spawn, ws_pending = None, ws_woken = [], ws_delivered = False\<rparr> :: (nat, nat) worker_system"
  let ?s1 = "?s0\<lparr>ws_worker := worker_spawn\<lparr>wk_waker := Some 1\<rparr>, ws_pending := Some 1, ws_woken := []\<rparr>"
  let ?s2 = "?s1\<lparr>ws_worker := worker_store 5 (ws_worker ?s1)\<rparr>"
  have "worker_step ?s0 ?s1" by (rule worker_step.pending) (simp_all add: worker_poll_def worker_spawn_def)
  moreover have "worker_step ?s1 ?s2" by (rule worker_step.store) (simp add: worker_spawn_def)
  moreover have "worker_step ?s2 (?s2\<lparr>ws_worker := (ws_worker ?s2)\<lparr>wk_waking := None\<rparr>, ws_woken := 1 # ws_woken ?s2\<rparr>)"
    by (rule worker_step.wake) (simp add: worker_wake_def worker_store_def)
  ultimately have "worker_reach (?s2\<lparr>ws_worker := (ws_worker ?s2)\<lparr>wk_waking := None\<rparr>, ws_woken := 1 # ws_woken ?s2\<rparr>)"
    using worker_reach.spawn worker_reach.step by meson
  then show ?thesis by (simp add: demo_worker_def worker_store_def worker_spawn_def)
qed

theorem no_wakeup_is_lost_witness:
  "fst (worker_poll 2 (ws_worker demo_worker)) \<noteq> None \<and> 1 \<in> set (ws_woken demo_worker)"
  using no_wakeup_is_lost [OF demo_worker_reach, of 2] by (simp add: demo_worker_def)

end
