(* ===== verification/Generative_Claims.thy ===== *)
theory Generative_Claims
  imports Generative_Sys Jev_Claims
begin

text \<open>
  What the generative fallback guarantees: only gated text is spoken and published, at most one thinking
  call is made, the incremental session compiles what the one-shot compiler compiles, streamed speech is
  consistent, and a superseded generation is cancelled.
\<close>

section \<open>The pipeline\<close>

text \<open>
  C22. Only gated text is spoken. Whatever the engines, the gate, the clock and the token do, a run makes at
  most one thinking call, the one it reports, and asks for speech only for a text the gate published for the
  reply, within what the deadline leaves; buffered synthesis follows only a declined streaming one; nothing
  but the end follows a cancellation that was seen. A generated asset is valid, dynamic, says exactly a
  published text and was last checked uncancelled; every other outcome is the chosen fallback with its
  reason, or the cancelled stage.
\<close>

theorem only_gated_text_is_spoken:
  assumes "run_generation g (w, []) = (Inr out, w', t)" "gx_env g = logging env"
  shows "gen_log_ok (gq_thinking (gx_request g)) (gx_deadline g) t \<and>
    think_calls t = length (gt_llm_calls (gs_trace out)) \<and> think_calls t \<le> 1 \<and>
    (case gs_disposition out of
       GD_Generated a \<Rightarrow>
         hd t = GI_Cancelled False \<and> GI_Cancelled True \<notin> set t \<and> gt_fallback_reason (gs_trace out) = FR_None \<and>
         validate_asset a = Inr () \<and> pa_class a = ACl_Dynamic \<and>
         (\<exists>s \<in> published t. Option.bind (pa_speech a) sp_text = Some s)
     | GD_Fallback d \<Rightarrow>
         d = gx_fallback g \<and> gt_fallback_reason (gs_trace out) \<noteq> FR_None \<and> GI_Cancelled True \<notin> set t
     | GD_Cancelled stage \<Rightarrow> gt_cancelled_stage (gs_trace out) = Some stage \<and> hd t = GI_Cancelled True)"
proof -
  have ok: "run_ok g out t" using run_generation_logged [OF assms(1,2)] by simp
  have gen: "validate_asset a = Inr () \<and> pa_class a = ACl_Dynamic \<and> Option.bind (pa_speech a) sp_text = Some s"
    if "compile_asset (gx_lib g) (gx_compiler g) (gx_request g) s sp th tts = Inr a" for s sp th tts a
    using compile_asset_Inr [OF that] by auto
  show ?thesis
    using ok unfolding run_ok_def outcome_ok_def by (cases "gs_disposition out") (auto dest!: gen)
qed

definition gen_thinking :: thinking_request where
  "gen_thinking = thinking_request_from_event jev_event ''hi'' PC_Public default_reflex_context \<lparr>rs_candidates = []\<rparr> []"

definition gen_demo_request :: "demo_value generation_request" where
  "gen_demo_request =
     \<lparr>gq_source_event = jev_event, gq_thinking = gen_thinking, gq_routing_reason = GR_NoCachedMatch, gq_intent = ''chat'',
      gq_style = None, gq_fallback_variant_group = None, gq_seed = 0\<rparr>"

definition gen_demo_speech :: speech_artifact where
  "gen_demo_speech = \<lparr>sa_audio_ref = ''a.wav'', sa_duration_ms = 20, sa_viseme_ref = None\<rparr>"

definition gen_backend :: backend_identity where
  "gen_backend = \<lparr>bi_name = ''m'', bi_model_alias = None, bi_model_version = None\<rparr>"

definition gen_tts :: tts_backend_identity where
  "gen_tts = \<lparr>tb_backend = gen_backend, tb_voice_model = None, tb_viseme_mapping = None\<rparr>"

text \<open>The clock stands still, the gate replaces the reply, and speech streams in two chunks.\<close>

definition gen_chunk :: "nat \<Rightarrow> bool \<Rightarrow> speech_progress" where
  "gen_chunk n final =
     \<lparr>pg_sequence = n, pg_audio_ref = ''a.wav'', pg_duration_ms = 10 * n, pg_viseme_ref = None, pg_final_chunk = final\<rparr>"

definition gen_chunks :: speech_collector where
  "gen_chunks = [gen_chunk 1 False, gen_chunk 2 True]"

definition gen_script :: "nat tts_script" where
  "gen_script = Tts_Push (gen_chunk 1 False) (\<lambda>_. Tts_Push (gen_chunk 2 True) (\<lambda>_. Tts_Return (Inr gen_demo_speech) 0))"

definition gen_demo_env :: "nat gen_env" where
  "gen_demo_env =
     \<lparr>ge_now = (\<lambda>w. (3, w)), ge_cancelled = (\<lambda>w. (False, w)), ge_gate = (\<lambda>_ w. (Gate_Publish ''safe'', w)),
      ge_thinking_identity = (\<lambda>w. (gen_backend, w)), ge_generate = (\<lambda>_ w. (Inr \<lparr>gy_text = ''raw''\<rparr>, w)),
      ge_generate_within = (\<lambda>_ _ w. (Inr \<lparr>gy_text = ''raw''\<rparr>, w)), ge_tts_identity = (\<lambda>w. (gen_tts, w)),
      ge_stream = (\<lambda>_ w. (Some gen_script, w)), ge_stream_within = (\<lambda>_ _ w. (Some gen_script, w)),
      ge_synthesize = (\<lambda>_ w. (Inr gen_demo_speech, w)), ge_synthesize_within = (\<lambda>_ _ w. (Inr gen_demo_speech, w))\<rparr>"

definition gen_demo_config :: compiler_config where
  "gen_demo_config =
     \<lparr>cc_compiler_version = ''1'', cc_avatar_profile = None, cc_motion_library = None, cc_expression_preset = None,
      cc_expression_intensity = Fin 0\<rparr>"

definition gen_demo_run :: "(demo_value, nat \<times> gen_io list) gen_run" where
  "gen_demo_run =
     \<lparr>gx_lib = demo_wire, gx_env = logging gen_demo_env, gx_compiler = gen_demo_config, gx_request = gen_demo_request,
      gx_fallback = FD_NonVerbalReaction ''n'', gx_deadline = Some 9\<rparr>"

lemma gen_demo_check: "generation_request_check gen_demo_request = Inr ()"
proof -
  have "map_sum (\<lambda>_. ()) id (generation_request_check gen_demo_request) = Inr ()" by code_simp
  then show ?thesis by (cases "generation_request_check gen_demo_request") auto
qed

lemma gen_demo_config_ok: "compiler_new gen_demo_config = Inr gen_demo_config"
proof -
  have "\<not> trim_is_empty ''1''" by code_simp
  then show ?thesis by (simp add: compiler_new_def gen_demo_config_def)
qed

lemma gen_demo_accepts: "compiler_accepts gen_demo_config gen_demo_request ''safe'' gen_demo_speech gen_backend gen_tts"
  unfolding compiler_accepts_def by (intro conjI; code_simp)

lemma gen_demo_compiled:
  "compile_asset lib gen_demo_config gen_demo_request ''safe'' gen_demo_speech gen_backend gen_tts =
    Inr (compiled_asset lib gen_demo_config gen_demo_request ''safe'' gen_demo_speech gen_backend gen_tts)"
  using compile_asset_ok [OF gen_demo_config_ok] gen_demo_accepts by blast

lemma gen_demo_final: "validate_final gen_demo_speech gen_chunks = Inr ()" and length_gen_chunks: "length gen_chunks = 2"
  by (simp_all add: validate_final_def gen_chunk_def gen_demo_speech_def gen_chunks_def)

lemma gen_demo_stream:
  "run_tts_script gen_script [] = (Inr gen_demo_speech, gen_chunks, 0)"
proof -
  have "\<not> trim_is_empty ''a.wav''" by code_simp
  then show ?thesis by (simp add: gen_script_def collector_push_def gen_chunk_def gen_chunks_def)
qed

text \<open>The reply is \<open>raw\<close>; what is said is what the gate published.\<close>

lemma gen_demo_result:
  "\<exists>out t. run_generation gen_demo_run (0, []) = (Inr out, 0, t) \<and>
    gs_disposition out = GD_Generated (compiled_asset demo_wire gen_demo_config gen_demo_request ''safe'' gen_demo_speech gen_backend gen_tts)"
proof -
  have nonblank: "\<not> trim_is_empty ''safe''" by code_simp
  show ?thesis
    by (simp add: run_generation_def gen_demo_run_def gen_demo_check gen_think_def Let_def logging_simps logged_def
      gen_demo_env_def remaining_provider_timeout_def gen_gate_def nonblank gen_speak_def gen_speech_def run_streaming_tts_def
      script_with_def run_script_with gen_demo_stream gen_demo_final gen_publish_def gen_demo_compiled)
qed

theorem only_gated_text_is_spoken_witness:
  "\<exists>out t s a. run_generation gen_demo_run (0, []) = (Inr out, 0, t) \<and> gs_disposition out = GD_Generated a \<and>
    gen_log_ok gen_thinking (Some 9) t \<and> think_calls t \<le> 1 \<and> s \<in> published t \<and> Option.bind (pa_speech a) sp_text = Some s \<and> s = ''safe''"
proof -
  obtain out t where run: "run_generation gen_demo_run (0, []) = (Inr out, 0, t)"
    and a: "gs_disposition out = GD_Generated (compiled_asset demo_wire gen_demo_config gen_demo_request ''safe'' gen_demo_speech gen_backend gen_tts)"
    using gen_demo_result by blast
  have g: "gx_env gen_demo_run = logging gen_demo_env" "gq_thinking (gx_request gen_demo_run) = gen_thinking"
    "gx_deadline gen_demo_run = Some 9"
    by (simp_all add: gen_demo_run_def gen_demo_request_def)
  from only_gated_text_is_spoken [OF run g(1)] show ?thesis using run a g by auto
qed

section \<open>The compiler\<close>

text \<open>
  C26. The compiler's contract. A constructed compiler accepts exactly the inputs with an intent, a reply, a
  positive duration, media references that stay external and inside the asset root, and no blank label, and
  then gives the one asset built from them, which is valid: the generated id, the timeline, the interrupt
  point and the provenance never make it fail.
\<close>

theorem compiler_contract:
  assumes "compiler_new c0 = Inr c"
  shows "(compile_asset lib c r reply sp th tts = Inr a \<longleftrightarrow>
      compiler_accepts c r reply sp th tts \<and> a = compiled_asset lib c r reply sp th tts) \<and>
    (compiler_accepts c r reply sp th tts \<longrightarrow>
      validate_asset (compiled_asset lib c r reply sp th tts) = Inr ())"
  using compile_asset_ok [OF assms] compile_asset_Inr by metis

theorem compiler_contract_witness:
  "compile_asset demo_wire gen_demo_config gen_demo_request ''safe'' gen_demo_speech gen_backend gen_tts =
    Inr (compiled_asset demo_wire gen_demo_config gen_demo_request ''safe'' gen_demo_speech gen_backend gen_tts)"
  using compiler_contract [OF gen_demo_config_ok] gen_demo_accepts by blast

section \<open>The session\<close>

text \<open>
  C24. Streaming compiles what one shot compiles. Whatever sequence of text chunks, speech updates and
  cancellations a session is given, it publishes an asset exactly when it was never cancelled and some
  accepted update was final; the asset is then the one-shot compilation of the text pushed before that
  update, with that update as its speech, whatever was pushed after.
\<close>

theorem streaming_is_one_shot:
  "session_finalize lib c (session_run ops (session_new r th tts)) = Inr a \<longleftrightarrow>
    Op_Cancel \<notin> set ops \<and>
    (\<exists>pre u post. ops = pre @ Op_Speech u # post \<and> su_final_chunk u \<and>
       \<not> sx_speech_final (session_run pre (session_new r th tts)) \<and>
       fst (push_speech_update u (session_run pre (session_new r th tts))) = Inr () \<and>
       compile_asset lib c r (pushed_text pre) (update_artifact u) th tts = Inr a)"
    (is "?fin \<longleftrightarrow> ?spec")
proof
  assume ?fin
  then have final: "sx_speech_final (session_run ops (session_new r th tts))" "Op_Cancel \<notin> set ops"
    by (auto simp: session_finalize_def split: if_splits)
  have "\<not> sx_speech_final (session_new r th tts)" by (simp add: session_new_def)
  from session_run_first_final [OF final(1) this] obtain pre u post where
    d: "ops = pre @ Op_Speech u # post" "su_final_chunk u" "\<not> sx_speech_final (session_run pre (session_new r th tts))"
      "fst (push_speech_update u (session_run pre (session_new r th tts))) = Inr ()" .
  from session_finalize_final [OF _ d(3,4,2), of post lib c] \<open>?fin\<close> final(2) d show ?spec by auto
next
  assume s: ?spec
  then obtain pre u post where
    d: "ops = pre @ Op_Speech u # post" "su_final_chunk u" "\<not> sx_speech_final (session_run pre (session_new r th tts))"
      "fst (push_speech_update u (session_run pre (session_new r th tts))) = Inr ()"
      "compile_asset lib c r (pushed_text pre) (update_artifact u) th tts = Inr a" by blast
  from session_finalize_final [OF _ d(3,4,2), of post lib c] s d(1,5) show ?fin by simp
qed

section \<open>Streaming speech\<close>

text \<open>
  C25. Streamed speech is consistent. Speech that is accepted from a streaming engine, whatever the engine
  pushes and however it answers refusals, ends a run of progress records with strictly increasing sequence
  numbers, one non-blank media reference, positive non-decreasing durations and exactly the last one final;
  the artifact has that reference and the last duration, and the trace counts the records.
\<close>

theorem streamed_speech_is_consistent:
  assumes "gen_speech env sr timeout tr w = (Inr sp, tr', w')" "gt_tts_streaming tr'" "\<not> gt_tts_streaming tr"
  shows "\<exists>ps. run_streaming_tts env sr timeout w = (Some (Inr sp, ps), w') \<and> gt_tts_progress_chunks tr' = length ps \<and>
    ps \<noteq> [] \<and> pg_final_chunk (last ps) \<and> sorted_wrt progress_before ps \<and> pg_duration_ms (last ps) = sa_duration_ms sp \<and>
    0 < sa_duration_ms sp \<and> \<not> trim_is_empty (sa_audio_ref sp) \<and>
    list_all (\<lambda>p. pg_audio_ref p = sa_audio_ref sp \<and> pg_duration_ms p \<le> sa_duration_ms sp) ps"
proof -
  obtain ps where ps: "run_streaming_tts env sr timeout w = (Some (Inr sp, ps), w')" "validate_final sp ps = Inr ()"
    "gt_tts_progress_chunks tr' = length ps"
    by (rule gen_speech_streamed [OF assms])
  note ok = run_streaming_ok [OF ps(1)]
  have v: "ps \<noteq> []" "pg_final_chunk (last ps)" "pg_audio_ref (last ps) = sa_audio_ref sp" "pg_duration_ms (last ps) = sa_duration_ms sp"
    using ps(2) by (auto simp: validate_final_iff)
  have "last ps \<in> set ps" using v(1) by simp
  then have pos: "0 < pg_duration_ms (last ps)" "\<not> trim_is_empty (pg_audio_ref (last ps))"
    using ok unfolding progress_ok_def list_all_iff by blast+
  have each: "pg_audio_ref p = sa_audio_ref sp \<and> pg_duration_ms p \<le> sa_duration_ms sp" if p: "p \<in> set ps" for p
  proof
    have "pg_audio_ref p = pg_audio_ref (last ps)" using ok p unfolding progress_ok_def list_all_iff by blast
    then show "pg_audio_ref p = sa_audio_ref sp" using v(3) by simp
    show "pg_duration_ms p \<le> sa_duration_ms sp" using progress_ok_last [OF ok p] v(4) by simp
  qed
  have "sorted_wrt progress_before ps" using ok by (simp add: progress_ok_def)
  with ps v pos each show ?thesis by (intro exI [of _ ps]) (simp add: list_all_iff)
qed

theorem streamed_speech_is_consistent_witness:
  "\<exists>ps. run_streaming_tts gen_demo_env \<lparr>sq_text = ''safe'', sq_style = None\<rparr> None 0 = (Some (Inr gen_demo_speech, ps), 0) \<and>
    ps \<noteq> [] \<and> pg_final_chunk (last ps) \<and> sorted_wrt progress_before ps"
proof -
  have "gen_speech gen_demo_env \<lparr>sq_text = ''safe'', sq_style = None\<rparr> None default_generation_trace 0 =
    (Inr gen_demo_speech, default_generation_trace\<lparr>gt_tts_streaming := True, gt_tts_progress_chunks := 2\<rparr>, 0)"
    by (simp add: gen_speech_def run_streaming_tts_def gen_demo_env_def gen_demo_stream gen_demo_final length_gen_chunks)
  from streamed_speech_is_consistent [OF this] show ?thesis by (auto simp: default_generation_trace_def)
qed

section \<open>The registry\<close>

text \<open>
  C23. Superseded generations are cancelled. After any sequence of registry operations and cancellations by
  the holders of tokens, of the generations that were activated and did not finish while active, every one
  but the active one is cancelled; and no later operation revokes a cancellation. An event preempts exactly
  when its priority is strictly higher than the active generation's: then the answer is true and precisely
  the active token is cancelled in addition, otherwise it is false and no flag changes. Cancelling the
  active generation cancels precisely its token, and neither changes which generation is active.
\<close>

theorem superseded_generations_are_cancelled:
  assumes "k \<in> ry_activated (registry_run ops) - ry_finished (registry_run ops)" "s = ry_state (registry_run ops)"
    and "higher = (\<exists>a. gc_active s = Some a \<and> priority_rank (priority_for_event (ev_kind e)) < priority_rank (ag_priority a))"
  shows "(active_token s = Some k \<or> token_is_cancelled k s) \<and>
    (token_is_cancelled k s \<longrightarrow> token_is_cancelled k (ry_state (registry_run (ops @ ops')))) \<and>
    fst (cancel_for_event e s) = higher \<and> gc_active (snd (cancel_for_event e s)) = gc_active s \<and>
    (\<forall>j. token_is_cancelled j (snd (cancel_for_event e s)) \<longleftrightarrow> token_is_cancelled j s \<or> higher \<and> active_token s = Some j) \<and>
    (fst (cancel_active s) \<longleftrightarrow> gc_active s \<noteq> None) \<and> gc_active (snd (cancel_active s)) = gc_active s \<and>
    (\<forall>j. token_is_cancelled j (snd (cancel_active s)) \<longleftrightarrow> token_is_cancelled j s \<or> active_token s = Some j)"
proof -
  have inv: "registry_inv (registry_run ops)" by (rule registry_run_inv)
  then have k: "k < length (gc_flags s)" "active_token s = Some k \<or> token_is_cancelled k s"
    using assms(1,2) unfolding registry_inv_def by blast+
  have active: "ag_token a < length (gc_flags s)" if "gc_active s = Some a" for a
    using inv that assms(2) by (auto simp: registry_inv_def active_token_def)
  have "flags_grow s (ry_state (registry_run (ops @ ops')))"
    unfolding registry_run_def fold_append comp_def assms(2) by (rule registry_fold_grow)
  with k have "token_is_cancelled k s \<longrightarrow> token_is_cancelled k (ry_state (registry_run (ops @ ops')))"
    by (auto simp: flags_grow_def)
  moreover have "fst (cancel_for_event e s) = higher \<and> gc_active (snd (cancel_for_event e s)) = gc_active s \<and>
      (\<forall>j. token_is_cancelled j (snd (cancel_for_event e s)) \<longleftrightarrow> token_is_cancelled j s \<or> higher \<and> active_token s = Some j)"
    using active assms(3) by (auto simp: cancel_for_event_def active_token_def split: option.split)
  moreover have "(fst (cancel_active s) \<longleftrightarrow> gc_active s \<noteq> None) \<and> gc_active (snd (cancel_active s)) = gc_active s \<and>
      (\<forall>j. token_is_cancelled j (snd (cancel_active s)) \<longleftrightarrow> token_is_cancelled j s \<or> active_token s = Some j)"
    using active by (auto simp: cancel_active_def active_token_def split: option.split)
  ultimately show ?thesis using k by blast
qed

text \<open>
  Two chat messages: the first generation is superseded. An operator command preempts the second, a third
  chat message would not.
\<close>

theorem superseded_generations_are_cancelled_witness:
  "token_is_cancelled 0 (ry_state (registry_run [RO_Begin jev_event, RO_Begin jev_event])) \<and>
   token_is_cancelled 1 (snd (cancel_for_event (jev_event\<lparr>ev_kind := OperatorCommand\<rparr>)
     (ry_state (registry_run [RO_Begin jev_event, RO_Begin jev_event])))) \<and>
   \<not> token_is_cancelled 1 (snd (cancel_for_event jev_event (ry_state (registry_run [RO_Begin jev_event, RO_Begin jev_event]))))"
proof -
  let ?ops = "[RO_Begin jev_event, RO_Begin jev_event]" and ?s = "ry_state (registry_run [RO_Begin jev_event, RO_Begin jev_event])"
  have x: "0 \<in> ry_activated (registry_run ?ops) - ry_finished (registry_run ?ops)" "active_token ?s = Some 1"
    and s: "gc_active ?s = Some \<lparr>ag_event_id = ev_event_id jev_event, ag_priority = priority_for_event (ev_kind jev_event), ag_token = 1\<rparr>"
      "\<not> token_is_cancelled 1 ?s"
    by (simp_all add: registry_run_def registry_begin_def token_new_def registry_activate_def registry_new_def
      token_cancel_def active_token_def token_is_cancelled_def Let_def)
  have "priority_rank (priority_for_event OperatorCommand) < priority_rank (priority_for_event (ev_kind jev_event))" by code_simp
  then show ?thesis
    using superseded_generations_are_cancelled [OF x(1) refl refl, where e = "jev_event\<lparr>ev_kind := OperatorCommand\<rparr>"]
      superseded_generations_are_cancelled [OF x(1) refl refl, where e = jev_event] x(2) s
    by simp
qed

end
