(* ===== verification/Tool_Execution.thy ===== *)
theory Tool_Execution
  imports Domain_Control Task_Plane_Claims
begin

text \<open>
  Verified tool execution, \<open>crates/app/src/tool_execution.rs\<close>: the capability gate, the adapter, the
  state of the task read again after the adapter has returned, and the verdict; and the audit record of
  the evidence. The adapter and the closure that reads the state act on a world of any type; the property
  takes the task plane for it, which other callers may change while the tool runs.
\<close>

section \<open>Execution\<close>

definition execute_verified_tool ::
  "('v \<Rightarrow> string \<Rightarrow> 'v option) \<Rightarrow>
     ('v tool_action authorized \<Rightarrow> 'w \<Rightarrow> (engine_error + 'v tool_execution_result) \<times> 'w) \<Rightarrow>
     authenticated_control \<Rightarrow> 'v tool_action \<Rightarrow> u64 \<Rightarrow> ('w \<Rightarrow> commit_state_snapshot \<times> 'w) \<Rightarrow>
     'v tool_verification_rule \<Rightarrow> 'w \<Rightarrow> (engine_error + 'v tool_evidence) \<times> 'w" where
  "execute_verified_tool pointer_of adapter authority action expected post_execution_state rule w0 =
     (case authorize_tool_action authority action of
        Inl e \<Rightarrow> (Inl e, w0)
      | Inr authorized \<Rightarrow>
          (case adapter authorized w0 of
             (Inl e, w) \<Rightarrow> (Inl e, w)
           | (Inr result, w) \<Rightarrow>
               (case post_execution_state w of
                  (current, w) \<Rightarrow>
                    let fence = \<lparr>tcf_expected_generation = expected,
                                 tcf_observed_generation = css_observed_generation current,
                                 tcf_cancelled = css_cancelled current\<rparr>
                    in (Inr \<lparr>tev_result = result,
                             tev_verification =
                               verify_tool_result pointer_of result (ta_tool action) (ta_operation action) fence rule\<rparr>,
                        w))))"

section \<open>Audit\<close>

record tool_execution_audit_record =
  tar_server :: string
  tar_tool :: string
  tar_operation :: string
  tar_result_class :: tool_result_class
  tar_schema_fingerprint :: "string option"
  tar_latency_ms :: u64
  tar_verification :: tool_verification_outcome

definition evidence_is_completed :: "'v tool_evidence \<Rightarrow> bool" where
  "evidence_is_completed ev \<longleftrightarrow> tev_verification ev = TVO_Verified"

definition evidence_audit_record :: "'v tool_evidence \<Rightarrow> tool_execution_audit_record" where
  "evidence_audit_record ev =
     (let r = tev_result ev
      in \<lparr>tar_server = ter_server r, tar_tool = ter_tool r, tar_operation = ter_operation r, tar_result_class = ter_class r,
          tar_schema_fingerprint = ter_schema_fingerprint r, tar_latency_ms = ter_latency_ms r,
          tar_verification = tev_verification ev\<rparr>)"

section \<open>Results and the task plane\<close>

lemma verify_tool_result_fenced:
  "tcf_cancelled fence \<Longrightarrow> verify_tool_result ptr r t op fence rule = TVO_Cancelled"
  "\<not> tcf_cancelled fence \<Longrightarrow> tcf_expected_generation fence \<noteq> tcf_observed_generation fence \<Longrightarrow>
     verify_tool_result ptr r t op fence rule = TVO_Stale"
  by (simp_all add: verify_tool_result_def)

text \<open>Evidence for a generation that is not the task's own is refused, and the plane stays as it is.\<close>

lemma late_evidence_refused:
  assumes "plane_inv p" "execution_snapshot i p = Inr c" "css_observed_generation c \<noteq> g"
  shows "\<exists>e. plane_record_tool_evidence i g ev p = (Inl e, p)"
proof (cases "bm_get (tp_active p) i")
  case None
  then show ?thesis
    by (simp add: plane_record_tool_evidence_def plane_update_def active_mut_def split: option.split)
next
  case (Some t)
  then have run: "running_task i t" using assms(1) by (simp add: plane_inv_def)
  have "at_generation t \<noteq> g" using assms(2,3) Some by (auto simp: execution_snapshot_def plane_task_def)
  then obtain e where e: "record_observation g (tev_result ev) (tev_verification ev) t = (Inl e, t)"
    using run by (cases "at_state t") (auto simp: record_observation_def running_task_def task_inv_def)
  have ok: "bm_ok (tp_active p)" using assms(1) by (simp add: plane_inv_def)
  have "put_task i t p = p" using bm_insert_same [OF ok Some] by (simp add: put_task_def)
  then show ?thesis
    by (simp add: plane_record_tool_evidence_def plane_update_def active_mut_def Some e)
qed

text \<open>
  C40. Verified tool results are earned. A caller without the tool capability gets an unauthorized error
  and the adapter is never run. Otherwise the adapter gets exactly the authorized action, and the state of
  the task is read from the plane as it is after the adapter has returned, whatever the plane did
  meanwhile: the evidence is verified exactly if then the task was not cancelled and still had the
  generation it was started with, and the result is a success of the requested tool and operation whose
  content has the expected value at the pointer. If the task was cancelled or moved on while the tool ran,
  the evidence says so, and evidence of a generation the task has left is refused by the plane, which stays
  as it is. An error of the adapter is returned as it is.
\<close>

theorem verified_tool_results_are_earned:
  assumes "plane_reach p" "bm_get (tp_active p) i = Some t"
    and "adapter \<lparr>au_action = action, au_principal = auc_principal authority, au_capability = ToolGrant\<rparr> p = (r, p1)"
    and "plane_step\<^sup>*\<^sup>* p p1" "execution_snapshot i p1 = Inr c" "post p1 = (c, p1)"
    and "run = execute_verified_tool pointer_of adapter authority action (at_generation t) post (JsonEquals ptr v)"
  shows "if \<not> has_capability authority ToolGrant
    then \<exists>e. run p = (Inl e, p) \<and> ee_kind e = EEK_Unauthorized
    else case r of
      Inl e \<Rightarrow> run p = (Inl e, p1)
    | Inr result \<Rightarrow> \<exists>ev. run p = (Inr ev, p1) \<and> tev_result ev = result \<and>
        (evidence_is_completed ev \<longleftrightarrow>
           \<not> css_cancelled c \<and> css_observed_generation c = at_generation t \<and>
           ter_tool result = ta_tool action \<and> ter_operation result = ta_operation action \<and> ter_class result = TRC_Success \<and>
           (\<exists>content. ter_content result = Some content \<and> pointer_of content ptr = Some v)) \<and>
        (css_cancelled c \<longrightarrow> tev_verification ev = TVO_Cancelled) \<and>
        (\<not> css_cancelled c \<longrightarrow> css_observed_generation c \<noteq> at_generation t \<longrightarrow> tev_verification ev = TVO_Stale) \<and>
        (css_observed_generation c \<noteq> at_generation t \<longrightarrow>
           (\<exists>e. plane_record_tool_evidence i (at_generation t) ev p1 = (Inl e, p1)))"
proof (cases "has_capability authority ToolGrant")
  case False
  then show ?thesis
    by (simp add: assms(7) execute_verified_tool_def authorize_tool_action_def authorize_def engine_error_new_def)
next
  case True
  have auth: "authorize_tool_action authority action =
      Inr \<lparr>au_action = action, au_principal = auc_principal authority, au_capability = ToolGrant\<rparr>"
    using True by (simp add: authorize_tool_action_def authorize_def)
  have inv: "plane_inv p1" using plane_sys.rtranclp_inv [OF assms(4) reach_plane_inv [OF assms(1)]] .
  show ?thesis
  proof (cases r)
    case (Inl e)
    then show ?thesis using True by (simp add: assms(3,7) execute_verified_tool_def auth)
  next
    case (Inr result)
    let ?fence = "\<lparr>tcf_expected_generation = at_generation t, tcf_observed_generation = css_observed_generation c,
      tcf_cancelled = css_cancelled c\<rparr>"
    let ?ev = "\<lparr>tev_result = result, tev_verification =
      verify_tool_result pointer_of result (ta_tool action) (ta_operation action) ?fence (JsonEquals ptr v)\<rparr>"
    have "run p = (Inr ?ev, p1)"
      by (simp add: assms(3,6,7) execute_verified_tool_def auth Inr Let_def)
    moreover have "evidence_is_completed ?ev \<longleftrightarrow>
        \<not> css_cancelled c \<and> css_observed_generation c = at_generation t \<and>
        ter_tool result = ta_tool action \<and> ter_operation result = ta_operation action \<and> ter_class result = TRC_Success \<and>
        (\<exists>content. ter_content result = Some content \<and> pointer_of content ptr = Some v)"
      by (auto simp: evidence_is_completed_def verify_tool_result_verified)
    moreover note late_evidence_refused [OF inv assms(5), of "at_generation t" ?ev]
    ultimately show ?thesis using True
      by (simp add: Inr verify_tool_result_fenced)
  qed
qed

section \<open>A run\<close>

definition demo_result :: "nat tool_execution_result" where
  "demo_result = \<lparr>ter_server = ''fixture'', ter_tool = ''fixture'', ter_operation = ''read'', ter_class = TRC_Success,
     ter_content = Some 42, ter_schema_fingerprint = None, ter_latency_ms = 1\<rparr>"

text \<open>A plane whose task is executing its step.\<close>

definition tool_plane :: "nat task_plane" where
  "tool_plane = plane_run
     [PO_CreateTask tA ''verified local work'' 10 default_task_limits, PO_BeginPlanning tA 11,
      PO_AddStep tA ''read'', PO_MarkReady tA 12, PO_BeginExecution tA 0 13] empty_plane"

definition demo_authority :: authenticated_control where
  "demo_authority = \<lparr>auc_principal = ''op'', auc_method = OperatorHotkey, auc_capabilities = {ToolGrant}\<rparr>"

definition demo_action :: "nat tool_action" where
  "demo_action = \<lparr>ta_tool = ''fixture'', ta_operation = ''read'', ta_arguments = []\<rparr>"

definition read_task :: "nat task_plane \<Rightarrow> commit_state_snapshot \<times> nat task_plane" where
  "read_task p = (case execution_snapshot tA p of Inr c \<Rightarrow> (c, p) | Inl _ \<Rightarrow> (\<lparr>css_observed_generation = 0, css_cancelled = True\<rparr>, p))"

text \<open>The task is left alone while the tool runs; and it is retried meanwhile.\<close>

definition quiet_adapter :: "nat tool_action authorized \<Rightarrow> nat task_plane \<Rightarrow> (engine_error + nat tool_execution_result) \<times> nat task_plane" where
  "quiet_adapter a p = (Inr demo_result, p)"

definition busy_adapter :: "nat tool_action authorized \<Rightarrow> nat task_plane \<Rightarrow> (engine_error + nat tool_execution_result) \<times> nat task_plane" where
  "busy_adapter a p = (Inr demo_result, plane_run [PO_RetryCurrentStep tA 20] p)"

theorem verified_tool_results_are_earned_witness:
  "(\<exists>ev. execute_verified_tool (\<lambda>x _. Some x) quiet_adapter demo_authority demo_action 1 read_task
      (JsonEquals ''/value'' 42) tool_plane = (Inr ev, tool_plane) \<and> evidence_is_completed ev) \<and>
   (\<exists>ev p1 e. execute_verified_tool (\<lambda>x _. Some x) busy_adapter
      demo_authority demo_action 1 read_task (JsonEquals ''/value'' 42) tool_plane = (Inr ev, p1) \<and>
      tev_verification ev = TVO_Stale \<and> plane_record_tool_evidence tA 1 ev p1 = (Inl e, p1))"
proof
  have reach: "plane_reach tool_plane"
    unfolding tool_plane_def by (intro plane_reach_run, rule reach.reach_init, rule plane_init_empty)
  have cap: "has_capability demo_authority ToolGrant" by (simp add: demo_authority_def has_capability_def)
  obtain t where t: "bm_get (tp_active tool_plane) tA = Some t" "at_generation t = 1"
  proof -
    have "map_option at_generation (bm_get (tp_active tool_plane) tA) = Some 1" by code_simp
    then show thesis using that by auto
  qed
  let ?c = "\<lparr>css_observed_generation = 1, css_cancelled = False\<rparr>"
  have c: "execution_snapshot tA tool_plane = Inr ?c" by code_simp
  then have post: "read_task tool_plane = (?c, tool_plane)" by (simp add: read_task_def)
  have r: "ter_tool demo_result = ta_tool demo_action" "ter_operation demo_result = ta_operation demo_action"
    "ter_class demo_result = TRC_Success" "ter_content demo_result = Some 42"
    by (simp_all add: demo_result_def demo_action_def)
  show "\<exists>ev. execute_verified_tool (\<lambda>x _. Some x) quiet_adapter demo_authority demo_action 1 read_task
      (JsonEquals ''/value'' 42) tool_plane = (Inr ev, tool_plane) \<and> evidence_is_completed ev"
    using verified_tool_results_are_earned [where adapter = quiet_adapter and post = read_task and authority = demo_authority
        and action = demo_action and pointer_of = "\<lambda>x _. Some x" and ptr = "''/value''" and v = 42,
      OF reach t(1) quiet_adapter_def rtranclp.rtrancl_refl c post refl] cap r t(2) by auto
  let ?p1 = "plane_run [PO_RetryCurrentStep tA 20] tool_plane" and ?c1 = "\<lparr>css_observed_generation = 2, css_cancelled = False\<rparr>"
  obtain res where "plane_exec (PO_RetryCurrentStep tA 20) tool_plane = Some (res, ?p1)"
    using plane_exec_good [OF reach_plane_inv [OF reach], of "PO_RetryCurrentStep tA 20"] by fastforce
  then have step: "plane_step\<^sup>*\<^sup>* tool_plane ?p1" by (intro r_into_rtranclp plane_step_op)
  have c1: "execution_snapshot tA ?p1 = Inr ?c1" by code_simp
  then have post1: "read_task ?p1 = (?c1, ?p1)" by (simp add: read_task_def)
  show "\<exists>ev p1 e. execute_verified_tool (\<lambda>x _. Some x) busy_adapter
      demo_authority demo_action 1 read_task (JsonEquals ''/value'' 42) tool_plane = (Inr ev, p1) \<and>
      tev_verification ev = TVO_Stale \<and> plane_record_tool_evidence tA 1 ev p1 = (Inl e, p1)"
    using verified_tool_results_are_earned [where adapter = busy_adapter and post = read_task and authority = demo_authority
        and action = demo_action and pointer_of = "\<lambda>x _. Some x" and ptr = "''/value''" and v = 42,
      OF reach t(1) busy_adapter_def step c1 post1 refl] cap t(2) by auto
qed

end
