(* ===== verification/Scheduler_Variation.thy ===== *)
theory Scheduler_Variation
  imports Scheduler_Model Retrieval
begin

text \<open>
  The seeded variation of \<open>crates/scheduler/src/lib.rs\<close>: the mulberry32 generator on 32-bit words and the
  variation it draws, in IEEE arithmetic.
\<close>

unbundle bit_operations_syntax

section \<open>Rounding to integers\<close>

text \<open>\<open>f64::round\<close>: half away from zero. The result is an integer, so it is exact.\<close>

fun f64_round_away :: "f64 \<Rightarrow> f64" where
  "f64_round_away (Fin q) = Fin (of_int (if 0 \<le> q then \<lfloor>q + 1/2\<rfloor> else \<lceil>q - 1/2\<rceil>))"
| "f64_round_away v = v"

text \<open>\<open>as u64\<close>: truncates, saturates at both ends and sends \<open>NaN\<close> to zero.\<close>

fun f64_to_u64 :: "f64 \<Rightarrow> u64" where
  "f64_to_u64 (Fin q) = (if q \<le> 0 then 0 else min u64_max (nat \<lfloor>q\<rfloor>))"
| "f64_to_u64 PosInf = u64_max"
| "f64_to_u64 NegInf = 0"
| "f64_to_u64 NaN = 0"

definition f64_clamp :: "f64 \<Rightarrow> f64 \<Rightarrow> f64 \<Rightarrow> f64" where
  "f64_clamp lo hi v = (if f64_lt v lo then lo else if f64_lt hi v then hi else v)"

section \<open>The generator\<close>

text \<open>\<open>SeededRng\<close> is its state; \<open>seed as u32\<close> keeps the low bits.\<close>

type_synonym seeded_rng = "32 word"

definition rng_new :: "u64 \<Rightarrow> seeded_rng" where
  "rng_new seed = of_nat seed"

definition rng_bits :: "seeded_rng \<Rightarrow> 32 word" where
  "rng_bits a =
     (let t1 = (a XOR drop_bit 15 a) * (1 OR a);
          t2 = (t1 + (t1 XOR drop_bit 7 t1) * (61 OR t1)) XOR t1
      in t2 XOR drop_bit 14 t2)"

definition next_f64 :: "seeded_rng \<Rightarrow> f64 \<times> seeded_rng" where
  "next_f64 st =
     (let a = st + 0x6d2b79f5
      in (f64_div (f64_of_nat (unat (rng_bits a))) (f64_add (f64_of_nat u32_max) (Fin 1)), a))"

section \<open>The variation\<close>

record sched_variation_spec =
  vp_speed_pct :: f64
  vp_amplitude_pct :: f64
  vp_start_delay_ms :: u64

record applied_variation =
  av_speed_factor :: f64
  av_amplitude_factor :: f64
  av_start_delay_ms :: u64

definition varied_factor :: "f64 \<Rightarrow> f64 \<Rightarrow> f64" where
  "varied_factor r pct = f64_add (Fin 1) (f64_mul (f64_sub_fin (f64_mul r (Fin 2)) 1) (f64_div pct (Fin 100)))"

definition apply_variation :: "sched_variation_spec \<Rightarrow> seeded_rng \<Rightarrow> applied_variation \<times> seeded_rng" where
  "apply_variation spec st =
     (case next_f64 st of (r1, st) \<Rightarrow>
      case next_f64 st of (r2, st) \<Rightarrow>
      case next_f64 st of (r3, st) \<Rightarrow>
        (\<lparr>av_speed_factor = varied_factor r1 (vp_speed_pct spec),
          av_amplitude_factor = varied_factor r2 (vp_amplitude_pct spec),
          av_start_delay_ms = f64_to_u64 (f64_round_away (f64_mul r3 (f64_of_nat (vp_start_delay_ms spec))))\<rparr>, st))"

end
