(* ===== verification/Cached_Playback.thy ===== *)
theory Cached_Playback
  imports Scheduler_Variation Asset_Feedback Jev_Wire
begin

text \<open>
  The fast path, \<open>crates/runtime/src/cached_playback.rs\<close>: selecting an asset of the store for an event,
  planning it with a seeded variation on the scheduler, and dispatching its audio and avatar commands.
  Sinks record what they are given. \<open>None\<close> is a panic or a call that does not return.
\<close>

section \<open>Errors\<close>

datatype playback_error =
  PE_AssetStore asset_store_error | PE_InvalidEvent string | PE_MissingIntent | PE_NoPlayableTracks string
| PE_StaleAssetIdentity string string string | PE_Scheduler rejection | PE_InvalidVisemeReference string
| PE_InvalidVisemeTrack string | PE_VisemeDurationMismatch string u64 u64 | PE_Io path string | PE_Json path string

fun rejection_debug :: "rejection \<Rightarrow> string" where
  "rejection_debug Rej_Cooldown = ''Cooldown''"
| "rejection_debug Rej_Priority = ''Priority''"
| "rejection_debug Rej_DuplicateEvent = ''DuplicateEvent''"

fun playback_error_display :: "'v asset_lib \<Rightarrow> playback_error \<Rightarrow> string" where
  "playback_error_display lib (PE_AssetStore source) = asset_store_error_display lib source"
| "playback_error_display lib (PE_InvalidEvent message) = ''invalid event: '' @ message"
| "playback_error_display lib PE_MissingIntent = ''cached playback requires payload.intent''"
| "playback_error_display lib (PE_NoPlayableTracks i) = ''asset '' @ alb_debug lib i @ '' has no playable tracks''"
| "playback_error_display lib (PE_StaleAssetIdentity i expected actual) =
     ''asset '' @ alb_debug lib i @ '' identity changed after retrieval: expected '' @ alb_debug lib expected @
     '', got '' @ alb_debug lib actual"
| "playback_error_display lib (PE_Scheduler reason) = ''scheduler rejected cached playback: '' @ rejection_debug reason"
| "playback_error_display lib (PE_InvalidVisemeReference r) = ''invalid local viseme reference: '' @ alb_debug lib r"
| "playback_error_display lib (PE_InvalidVisemeTrack message) = ''invalid viseme track: '' @ message"
| "playback_error_display lib (PE_VisemeDurationMismatch i speech viseme) =
     ''asset '' @ alb_debug lib i @ '' speech/viseme duration mismatch: '' @ show_nat speech @ ''ms vs '' @
     show_nat viseme @ ''ms''"
| "playback_error_display lib (PE_Io p source) = ''I/O error at '' @ p @ '': '' @ source"
| "playback_error_display lib (PE_Json p message) = ''invalid JSON at '' @ p @ '': '' @ message"

section \<open>Viseme tracks\<close>

definition VISEME_TRACK_SCHEMA_VERSION :: string where
  "VISEME_TRACK_SCHEMA_VERSION = ''0.1.0''"

record viseme_cue =
  vc_at_ms :: u64
  vc_viseme :: string
  vc_weight :: f64

record viseme_track =
  vt_schema_version :: string
  vt_duration_ms :: u64
  vt_cues :: "viseme_cue list"

fun cues_validate :: "nat \<Rightarrow> u64 option \<Rightarrow> u64 \<Rightarrow> viseme_cue list \<Rightarrow> playback_error + unit" where
  "cues_validate i previous duration [] = Inr ()"
| "cues_validate i previous duration (c # cs) =
     (if trim_is_empty (vc_viseme c)
      then Inl (PE_InvalidVisemeTrack (''cues['' @ show_nat i @ ''].viseme must not be empty''))
      else if \<not> f64_is_finite (vc_weight c) \<or> \<not> (f64_le (Fin 0) (vc_weight c) \<and> f64_le (vc_weight c) (Fin 1))
      then Inl (PE_InvalidVisemeTrack (''cues['' @ show_nat i @ ''].weight must be in 0..=1''))
      else if (case previous of None \<Rightarrow> False | Some p \<Rightarrow> vc_at_ms c < p)
      then Inl (PE_InvalidVisemeTrack ''viseme cues must be monotonic non-decreasing'')
      else if duration < vc_at_ms c
      then Inl (PE_InvalidVisemeTrack (''cues['' @ show_nat i @ ''].at_ms exceeds duration_ms''))
      else cues_validate (i + 1) (Some (vc_at_ms c)) duration cs)"

definition viseme_track_validate :: "viseme_track \<Rightarrow> playback_error + unit" where
  "viseme_track_validate t =
     (if vt_schema_version t \<noteq> VISEME_TRACK_SCHEMA_VERSION
      then Inl (PE_InvalidVisemeTrack (''expected schema_version '' @ VISEME_TRACK_SCHEMA_VERSION @ '', got '' @ vt_schema_version t))
      else cues_validate 0 None (vt_duration_ms t) (vt_cues t))"

text \<open>A \<open>VisemeResolver\<close>, and the one that reads files: \<open>parse\<close> is \<open>serde_json::from_str\<close>.\<close>

type_synonym viseme_resolver = "string \<Rightarrow> playback_error + viseme_track"

definition local_viseme_resolve ::
  "'v asset_lib \<Rightarrow> (string \<Rightarrow> string + viseme_track) \<Rightarrow> path \<Rightarrow> disk \<Rightarrow> viseme_resolver" where
  "local_viseme_resolve lib parse base d reference0 =
     (let reference = str_trim reference0 in
      if reference = [] \<or> str_contains reference ''://'' then Inl (PE_InvalidVisemeReference reference)
      else if starts_with ''/'' reference \<or> (2 \<le> length reference \<and> reference ! 1 = CHR '':'') \<or>
              List.member (split_slash reference) ''..''
      then Inl (PE_InvalidVisemeReference reference)
      else
        let p = path_join base reference in
        case read_to_string lib p d of
          Inl e \<Rightarrow> Inl (PE_Io p e)
        | Inr t \<Rightarrow>
            (case parse t of
               Inl e \<Rightarrow> Inl (PE_Json p e)
             | Inr track \<Rightarrow> rbind (viseme_track_validate track) (\<lambda>_. Inr track)))"

section \<open>Commands\<close>

record audio_command =
  ac_generation :: u64
  ac_event_id :: string
  ac_asset_id :: string
  ac_at_ms :: u64
  ac_audio_ref :: string
  ac_duration_ms :: u64
  ac_speed_factor :: f64

text \<open>The generation and the instant come first in every avatar command.\<close>

datatype avatar_command =
  AvC_Expression u64 u64 string f64 | AvC_Gesture u64 u64 string f64 | AvC_Gaze u64 u64 string | AvC_Viseme u64 u64 string f64

fun avatar_at_ms :: "avatar_command \<Rightarrow> u64" where
  "avatar_at_ms (AvC_Expression g t _ _) = t"
| "avatar_at_ms (AvC_Gesture g t _ _) = t"
| "avatar_at_ms (AvC_Gaze g t _) = t"
| "avatar_at_ms (AvC_Viseme g t _ _) = t"

record playback_sinks =
  ks_audio :: "audio_command list"
  ks_avatar :: "avatar_command list"

definition schedule_audio :: "audio_command \<Rightarrow> playback_sinks \<Rightarrow> playback_sinks" where
  "schedule_audio c k = k\<lparr>ks_audio := ks_audio k @ [c]\<rparr>"

definition schedule_avatar :: "avatar_command \<Rightarrow> playback_sinks \<Rightarrow> playback_sinks" where
  "schedule_avatar c k = k\<lparr>ks_avatar := ks_avatar k @ [c]\<rparr>"

section \<open>The performer\<close>

record fast_path_preload_report =
  fp_indexed :: index_report
  fp_preloaded :: usize

record playback_config =
  pb_recent_variant_window :: usize
  pb_max_recent_variant_groups :: usize

definition default_playback_config :: playback_config where
  "default_playback_config = \<lparr>pb_recent_variant_window = 1, pb_max_recent_variant_groups = 256\<rparr>"

record playback_retention_metrics =
  pr_recent_variant_groups :: usize
  pr_recent_variant_groups_high_water :: usize
  pr_recent_variant_groups_evicted :: u64

record playback_timing =
  pt_at_ms :: u64
  pt_seed :: u64

record fast_path_metrics =
  fm_event_to_first_audio_ms :: "u64 option"
  fm_event_to_first_visible_reaction_ms :: "u64 option"

record playback_outcome =
  po_asset_id :: string
  po_cache_tier :: cache_tier
  po_plan :: planned_performance
  po_variation :: applied_variation
  po_metrics :: fast_path_metrics

record 'v performer =
  pf_assets :: "'v asset_store"
  pf_scheduler :: scheduler
  pf_config :: playback_config
  pf_recent :: "(string, string list) bmap"
  pf_touch :: "(string, u64) bmap"
  pf_next_touch :: u64
  pf_high_water :: usize
  pf_evicted :: u64

definition performer_new :: "'v asset_store \<Rightarrow> scheduler \<Rightarrow> playback_config \<Rightarrow> 'v performer" where
  "performer_new assets sch c =
     \<lparr>pf_assets = assets, pf_scheduler = sch, pf_config = c, pf_recent = [], pf_touch = [], pf_next_touch = 0,
      pf_high_water = 0, pf_evicted = 0\<rparr>"

definition playback_metrics_of :: "'v performer \<Rightarrow> playback_retention_metrics" where
  "playback_metrics_of p =
     \<lparr>pr_recent_variant_groups = length (pf_recent p), pr_recent_variant_groups_high_water = pf_high_water p,
      pr_recent_variant_groups_evicted = pf_evicted p\<rparr>"

definition index_and_preload_fast_path ::
  "'v asset_lib \<Rightarrow> disk \<Rightarrow> 'v performer \<Rightarrow> (playback_error + fast_path_preload_report) \<times> 'v performer" where
  "index_and_preload_fast_path lib d p =
     (case index_local lib d (pf_assets p) of
        (Inl e, a) \<Rightarrow> (Inl (PE_AssetStore e), p\<lparr>pf_assets := a\<rparr>)
      | (Inr rep, a) \<Rightarrow>
          (case preload_classes lib [ACl_Filler, ACl_Reaction] d a of
             (Inl e, a) \<Rightarrow> (Inl (PE_AssetStore e), p\<lparr>pf_assets := a\<rparr>)
           | (Inr n, a) \<Rightarrow> (Inr \<lparr>fp_indexed = rep, fp_preloaded = n\<rparr>, p\<lparr>pf_assets := a\<rparr>)))"

section \<open>Recent variants\<close>

text \<open>\<open>None\<close> is the failure of the \<open>expect\<close>.\<close>

definition evict_recent_group :: "'v performer \<Rightarrow> 'v performer option" where
  "evict_recent_group p =
     (case least_touched (pf_touch p) of
        None \<Rightarrow> None
      | Some v \<Rightarrow>
          Some (p\<lparr>pf_recent := bm_remove v (pf_recent p), pf_touch := bm_remove v (pf_touch p),
                  pf_evicted := sadd (pf_evicted p) 1\<rparr>))"

definition record_recent :: "string \<Rightarrow> string \<Rightarrow> 'v performer \<Rightarrow> 'v performer option" where
  "record_recent grp i p0 =
     (let window = pb_recent_variant_window (pf_config p0); cap = pb_max_recent_variant_groups (pf_config p0) in
      if window = 0 \<or> cap = 0 then Some p0
      else
        let tick = pf_next_touch p0; p1 = p0\<lparr>pf_next_touch := sadd tick 1\<rparr> in
        Option.bind
          (if bm_get (pf_recent p1) grp = None \<and> cap \<le> length (pf_recent p1) then evict_recent_group p1 else Some p1)
          (\<lambda>p. let recent = (case bm_get (pf_recent p) grp of None \<Rightarrow> [] | Some r \<Rightarrow> r) @ [i];
                   m = bm_insert grp (keep_last window recent) (pf_recent p)
               in Some (p\<lparr>pf_recent := m, pf_touch := bm_insert grp tick (pf_touch p),
                          pf_high_water := max (pf_high_water p) (length m)\<rparr>)))"

section \<open>Planning\<close>

definition scale_offset :: "u64 \<Rightarrow> f64 \<Rightarrow> u64" where
  "scale_offset offset factor =
     (if \<not> f64_is_finite factor \<or> f64_le factor (Fin 0) then offset
      else f64_to_u64 (f64_round_away (f64_mul (f64_of_nat offset) factor)))"

definition marker_offset :: "string \<Rightarrow> 'v performance_asset \<Rightarrow> u64" where
  "marker_offset marker a =
     (case find (\<lambda>e. te_event e = marker) (pa_timeline a) of None \<Rightarrow> 0 | Some e \<Rightarrow> te_at_ms e)"

definition list_max :: "u64 list \<Rightarrow> u64" where
  "list_max xs = fold max xs 0"

definition asset_base_duration_ms :: "'v performance_asset \<Rightarrow> viseme_track option \<Rightarrow> u64" where
  "asset_base_duration_ms a visemes =
     (let timeline_end = list_max (map te_at_ms (pa_timeline a));
          interrupt_end = list_max (pa_interrupt_points_ms a);
          speech_end = (case Option.bind (pa_speech a) sp_duration_ms of None \<Rightarrow> 0
                        | Some d \<Rightarrow> sadd (marker_offset ''speech.start'' a) d);
          viseme_end = (case visemes of None \<Rightarrow> 0 | Some t \<Rightarrow> sadd (marker_offset ''speech.start'' a) (vt_duration_ms t))
      in max (max (max timeline_end interrupt_end) speech_end) viseme_end)"

definition playback_channels :: "'v performance_asset \<Rightarrow> viseme_track option \<Rightarrow> blend_channel set" where
  "playback_channels a visemes =
     (if Option.bind (pa_speech a) sp_audio_ref \<noteq> None then {Ch_Audio} else {}) \<union>
     (if pa_expression a \<noteq> None \<or> visemes \<noteq> None then {Ch_Face} else {}) \<union>
     (if pa_gesture a \<noteq> None then {Ch_Body} else {}) \<union>
     (if pa_gaze a \<noteq> None then {Ch_Gaze} else {})"

definition resolve_asset_visemes :: "'v performance_asset \<Rightarrow> viseme_resolver \<Rightarrow> playback_error + viseme_track option" where
  "resolve_asset_visemes a resolver =
     (case pa_speech a of
        None \<Rightarrow> Inr None
      | Some speech \<Rightarrow>
          (case sp_viseme_ref speech of
             None \<Rightarrow> Inr None
           | Some reference \<Rightarrow>
               rbind (resolver reference) (\<lambda>track.
                 case sp_duration_ms speech of
                   None \<Rightarrow> Inr (Some track)
                 | Some d \<Rightarrow>
                     if vt_duration_ms track \<noteq> d then Inl (PE_VisemeDurationMismatch (pa_id a) d (vt_duration_ms track))
                     else Inr (Some track))))"

fun gaze_name :: "gaze_target \<Rightarrow> string" where
  "gaze_name GT_Camera = ''camera''"
| "gaze_name GT_Chat = ''chat''"
| "gaze_name GT_Game = ''game''"
| "gaze_name GT_Speaker = ''speaker''"
| "gaze_name GT_Away = ''away''"

section \<open>Dispatch\<close>

text \<open>The instant of a marker in a plan.\<close>

definition marker_at :: "string \<Rightarrow> 'v performance_asset \<Rightarrow> planned_performance \<Rightarrow> applied_variation \<Rightarrow> u64" where
  "marker_at marker a plan v = sadd (pp_start_at_ms plan) (scale_offset (marker_offset marker a) (av_speed_factor v))"

definition audio_command_of ::
  "'v performance_asset \<Rightarrow> planned_performance \<Rightarrow> applied_variation \<Rightarrow> audio_command option" where
  "audio_command_of a plan v =
     (case pa_speech a of
        None \<Rightarrow> None
      | Some speech \<Rightarrow>
          (case (sp_audio_ref speech, sp_duration_ms speech) of
             (Some r, Some d) \<Rightarrow>
               Some \<lparr>ac_generation = pp_generation plan, ac_event_id = pp_event_id plan, ac_asset_id = pp_asset_id plan,
                     ac_at_ms = marker_at ''speech.start'' a plan v, ac_audio_ref = r,
                     ac_duration_ms = scale_offset d (av_speed_factor v), ac_speed_factor = av_speed_factor v\<rparr>
           | _ \<Rightarrow> None))"

definition avatar_commands_of ::
  "'v performance_asset \<Rightarrow> viseme_track option \<Rightarrow> planned_performance \<Rightarrow> applied_variation \<Rightarrow> avatar_command list" where
  "avatar_commands_of a visemes plan v =
     (let g = pp_generation plan in
      (case (audio_command_of a plan v, visemes) of
         (Some c, Some track) \<Rightarrow>
           map (\<lambda>q. AvC_Viseme g (sadd (ac_at_ms c) (scale_offset (vc_at_ms q) (av_speed_factor v))) (vc_viseme q) (vc_weight q))
             (vt_cues track)
       | _ \<Rightarrow> []) @
      (case pa_expression a of None \<Rightarrow> []
       | Some e \<Rightarrow> [AvC_Expression g (marker_at ''expression.start'' a plan v) (ex_preset e) (ex_intensity e)]) @
      (case pa_gesture a of None \<Rightarrow> []
       | Some e \<Rightarrow> [AvC_Gesture g (marker_at ''gesture.start'' a plan v) (gs_preset e)
                     (f64_clamp (Fin 0) (Fin 2)
                        (f64_mul (case gs_amplitude e of None \<Rightarrow> Fin 1 | Some x \<Rightarrow> x) (av_amplitude_factor v)))]) @
      (case pa_gaze a of None \<Rightarrow> []
       | Some t \<Rightarrow> [AvC_Gaze g (marker_at ''gaze.start'' a plan v) (gaze_name t)]))"

definition dispatch_asset ::
  "'v performance_asset \<Rightarrow> viseme_track option \<Rightarrow> planned_performance \<Rightarrow> applied_variation \<Rightarrow> u64 \<Rightarrow> playback_sinks \<Rightarrow>
     fast_path_metrics \<times> playback_sinks" where
  "dispatch_asset a visemes plan v event_at_ms k =
     (let audio = audio_command_of a plan v;
          k = (case audio of None \<Rightarrow> k | Some c \<Rightarrow> schedule_audio c k);
          cs = sort_key avatar_at_ms (avatar_commands_of a visemes plan v);
          first_visible = (case cs of [] \<Rightarrow> None | c # _ \<Rightarrow> Some (avatar_at_ms c));
          k = fold schedule_avatar cs k
      in (\<lparr>fm_event_to_first_audio_ms = map_option (\<lambda>c. ac_at_ms c - event_at_ms) audio,
           fm_event_to_first_visible_reaction_ms = map_option (\<lambda>t. t - event_at_ms) first_visible\<rparr>, k))"

section \<open>Scheduling an asset\<close>

definition wrapping_add :: "u64 \<Rightarrow> u64 \<Rightarrow> u64" where
  "wrapping_add a b = (a + b) mod 2 ^ 64"

definition asset_variation :: "'v performance_asset \<Rightarrow> u64 \<Rightarrow> applied_variation" where
  "asset_variation a seed =
     (let spec = (case pa_variation a of
                    None \<Rightarrow> \<lparr>vs_speed_pct = None, vs_amplitude_pct = None, vs_start_delay_ms = None\<rparr>
                  | Some x \<Rightarrow> x)
      in fst (apply_variation
           \<lparr>vp_speed_pct = (case vs_speed_pct spec of None \<Rightarrow> Fin 0 | Some x \<Rightarrow> x),
            vp_amplitude_pct = (case vs_amplitude_pct spec of None \<Rightarrow> Fin 0 | Some x \<Rightarrow> x),
            vp_start_delay_ms = (case vs_start_delay_ms spec of None \<Rightarrow> 0 | Some x \<Rightarrow> x)\<rparr>
           (rng_new seed)))"

definition asset_plan ::
  "'v event_envelope \<Rightarrow> u64 \<Rightarrow> 'v performance_asset \<Rightarrow> viseme_track option \<Rightarrow> applied_variation \<Rightarrow> planned_performance" where
  "asset_plan e at_ms a visemes v =
     (let points = map (\<lambda>x. scale_offset x (av_speed_factor v)) (pa_interrupt_points_ms a)
      in \<lparr>pp_event_id = ev_event_id e, pp_asset_id = pa_id a, pp_priority = priority_for_event (ev_kind e),
          pp_interruptible = (points \<noteq> []), pp_interrupt_points_ms = points,
          pp_start_at_ms = sadd at_ms (av_start_delay_ms v),
          pp_duration_ms = max (scale_offset (max (asset_base_duration_ms a visemes) 1) (av_speed_factor v)) 1,
          pp_generation = 0, pp_exclusive = False, pp_channels = playback_channels a visemes\<rparr>)"

type_synonym 'v playback = "((playback_error + playback_outcome) \<times> 'v performer \<times> playback_sinks) option"

definition schedule_asset ::
  "viseme_resolver \<Rightarrow> 'v event_envelope \<Rightarrow> playback_timing \<Rightarrow> 'v performance_asset \<Rightarrow> cache_tier \<Rightarrow> 'v performer \<Rightarrow>
     playback_sinks \<Rightarrow> 'v playback" where
  "schedule_asset resolver e timing a tier p k =
     (case resolve_asset_visemes a resolver of
        Inl x \<Rightarrow> Some (Inl x, p, k)
      | Inr visemes \<Rightarrow>
          let v = asset_variation a (wrapping_add (pt_seed timing) (ev_sequence e)) in
          if playback_channels a visemes = {} then Some (Inl (PE_NoPlayableTracks (pa_id a)), p, k)
          else
            (case schedule_at (pt_at_ms timing) (asset_plan e (pt_at_ms timing) a visemes v) (pf_scheduler p) of
               None \<Rightarrow> None
             | Some (Inl reason, s) \<Rightarrow> Some (Inl (PE_Scheduler reason), p\<lparr>pf_scheduler := s\<rparr>, k)
             | Some (Inr plan, s) \<Rightarrow>
                 (case dispatch_asset a visemes plan v (pt_at_ms timing) k of
                    (metrics, k) \<Rightarrow>
                      Some (Inr \<lparr>po_asset_id = pa_id a, po_cache_tier = tier, po_plan = plan, po_variation = v,
                                 po_metrics = metrics\<rparr>, p\<lparr>pf_scheduler := s\<rparr>, k))))"

section \<open>The handlers\<close>

definition playable_event :: "'v event_envelope \<Rightarrow> playback_error + unit" where
  "playable_event e =
     (case validate_event e of
        Inl x \<Rightarrow> Inl (PE_InvalidEvent (domain_error_display x))
      | Inr _ \<Rightarrow>
          if ev_kind e = OperatorCommand
          then Inl (PE_InvalidEvent ''operator commands use the authenticated control path'') else Inr ())"

text \<open>After a success the asset is recorded under its group.\<close>

definition play_and_record ::
  "viseme_resolver \<Rightarrow> 'v event_envelope \<Rightarrow> playback_timing \<Rightarrow> 'v performance_asset \<Rightarrow> cache_tier \<Rightarrow> string \<Rightarrow>
     'v performer \<Rightarrow> playback_sinks \<Rightarrow> 'v playback" where
  "play_and_record resolver e timing a tier grp p k =
     (case schedule_asset resolver e timing a tier p k of
        None \<Rightarrow> None
      | Some (Inl x, p, k) \<Rightarrow> Some (Inl x, p, k)
      | Some (Inr out, p, k) \<Rightarrow> map_option (\<lambda>p. (Inr out, p, k)) (record_recent grp (pa_id a) p))"

definition handle_event ::
  "'v asset_lib \<Rightarrow> 'v wire_lib \<Rightarrow> viseme_resolver \<Rightarrow> disk \<Rightarrow> 'v event_envelope \<Rightarrow> u64 \<Rightarrow> u64 \<Rightarrow> 'v performer \<Rightarrow>
     playback_sinks \<Rightarrow> 'v playback" where
  "handle_event lib js resolver d e at_ms seed p k =
     (case playable_event e of
        Inl x \<Rightarrow> Some (Inl x, p, k)
      | Inr _ \<Rightarrow>
          (case Option.bind (bm_get (ev_payload e) ''intent'') (js_as_str js) of
             None \<Rightarrow> Some (Inl PE_MissingIntent, p, k)
           | Some intent \<Rightarrow>
               if trim_is_empty intent then Some (Inl PE_MissingIntent, p, k)
               else
                 let recent = (case bm_get (pf_recent p) intent of None \<Rightarrow> [] | Some r \<Rightarrow> r) in
                 (case select_variant_with_tier lib intent (wrapping_add seed (ev_sequence e)) recent d (pf_assets p) of
                    (Inl x, s) \<Rightarrow> Some (Inl (PE_AssetStore x), p\<lparr>pf_assets := s\<rparr>, k)
                  | (Inr (a, tier), s) \<Rightarrow>
                      play_and_record resolver e \<lparr>pt_at_ms = at_ms, pt_seed = seed\<rparr> a tier intent (p\<lparr>pf_assets := s\<rparr>) k)))"

definition recent_group_of :: "'v performance_asset \<Rightarrow> string" where
  "recent_group_of a = (case pa_variant_group a of None \<Rightarrow> pa_intent a | Some g \<Rightarrow> g)"

definition handle_asset_id ::
  "'v asset_lib \<Rightarrow> viseme_resolver \<Rightarrow> disk \<Rightarrow> 'v event_envelope \<Rightarrow> string \<Rightarrow> playback_timing \<Rightarrow> 'v performer \<Rightarrow>
     playback_sinks \<Rightarrow> 'v playback" where
  "handle_asset_id lib resolver d e i timing p k =
     (case playable_event e of
        Inl x \<Rightarrow> Some (Inl x, p, k)
      | Inr _ \<Rightarrow>
          if trim_is_empty i then Some (Inl (PE_InvalidEvent ''selected asset id must not be empty''), p, k)
          else
            (case resolve_with_tier lib i d (pf_assets p) of
               (Inl x, s) \<Rightarrow> Some (Inl (PE_AssetStore x), p\<lparr>pf_assets := s\<rparr>, k)
             | (Inr (a, tier), s) \<Rightarrow>
                 play_and_record resolver e timing a tier (recent_group_of a) (p\<lparr>pf_assets := s\<rparr>) k))"

definition handle_asset_identity ::
  "'v asset_lib \<Rightarrow> viseme_resolver \<Rightarrow> disk \<Rightarrow> 'v event_envelope \<Rightarrow> string \<Rightarrow> string \<Rightarrow> playback_timing \<Rightarrow> 'v performer \<Rightarrow>
     playback_sinks \<Rightarrow> 'v playback" where
  "handle_asset_identity lib resolver d e i expected timing p k =
     (case playable_event e of
        Inl x \<Rightarrow> Some (Inl x, p, k)
      | Inr _ \<Rightarrow>
          if trim_is_empty i \<or> trim_is_empty expected
          then Some (Inl (PE_InvalidEvent ''selected asset id and identity must not be empty''), p, k)
          else
            (case resolve_with_tier lib i d (pf_assets p) of
               (Inl x, s) \<Rightarrow> Some (Inl (PE_AssetStore x), p\<lparr>pf_assets := s\<rparr>, k)
             | (Inr (a, tier), s) \<Rightarrow>
                 let actual = stable_key (identity_of a) in
                 if actual \<noteq> expected
                 then Some (Inl (PE_StaleAssetIdentity i expected actual), p\<lparr>pf_assets := s\<rparr>, k)
                 else play_and_record resolver e timing a tier (recent_group_of a) (p\<lparr>pf_assets := s\<rparr>) k))"

end
