(* ===== verification/Playback_Inv.thy ===== *)
theory Playback_Inv
  imports Cached_Playback Retrieval_Inv Feedback_Inv Scheduler_Claims Asset_Sys
begin

text \<open>
  Lemmas of the fast path: rounding is monotone, the variation of a valid asset stays within a quarter,
  scaled offsets keep their order and their sums within a millisecond, commands lie in their reservation,
  and the table of recent variants is bounded.
\<close>

section \<open>Rounding is monotone\<close>

lemma round_half_even_half: "\<bar>of_int (round_half_even q) - q\<bar> \<le> 1/2"
  unfolding round_half_even_def Let_def by (auto simp: abs_if) linarith+

lemma round_half_even_mono:
  assumes "p \<le> q"
  shows "round_half_even p \<le> round_half_even q"
proof (rule ccontr)
  assume neg: "\<not> ?thesis"
  then have "round_half_even q + 1 \<le> round_half_even p" by simp
  then have "of_int (round_half_even q) + 1 \<le> (of_int (round_half_even p) :: rat)" by (metis of_int_1 of_int_add of_int_le_iff)
  moreover have "of_int (round_half_even p) - p \<le> 1/2" "q - of_int (round_half_even q) \<le> 1/2"
    using round_half_even_half [of p] round_half_even_half [of q] by (simp_all add: abs_if split: if_splits)
  ultimately have "p = q" using assms by linarith
  then show False using neg by simp
qed

lemma flog2_mono: "0 < p \<Longrightarrow> p \<le> q \<Longrightarrow> flog2 p \<le> flog2 q"
proof (rule ccontr)
  assume p: "0 < p" "p \<le> q" "\<not> flog2 p \<le> flog2 q"
  have "q < pow2 (flog2 q + 1)" using flog2_bounds(2) [of q] p by simp
  also have "\<dots> \<le> pow2 (flog2 p)" using p(3) by simp
  also have "\<dots> \<le> p" using flog2_bounds(1) [of p] p(1) by simp
  finally show False using p(2) by simp
qed

text \<open>The value a positive number rounds to, before overflow.\<close>

definition rounded :: "rat \<Rightarrow> rat" where
  "rounded q = pow2 (ulp_exp q) * of_int (round_half_even (q / pow2 (ulp_exp q)))"

lemma f64_round_rounded: "0 < q \<Longrightarrow> f64_round q = (if pow2 1024 \<le> rounded q then PosInf else Fin (rounded q))" and
  rounded_nonneg: "0 < q \<Longrightarrow> 0 \<le> rounded q"
proof -
  assume q: "0 < q"
  have "0 \<le> round_half_even (q / pow2 (ulp_exp q))" by (rule round_half_even_nonneg) (use q in simp)
  then show p: "0 \<le> rounded q" by (simp add: rounded_def)
  have "\<not> rounded q \<le> - pow2 1024" using p pow2_pos [of 1024] by linarith
  then show "f64_round q = (if pow2 1024 \<le> rounded q then PosInf else Fin (rounded q))"
    using q by (simp add: f64_round_def Let_def rounded_def [symmetric])
qed

lemma rounded_mono:
  assumes "0 < p" "p \<le> q"
  shows "rounded p \<le> rounded q"
proof (cases "ulp_exp p = ulp_exp q")
  case True
  have "p / pow2 (ulp_exp q) \<le> q / pow2 (ulp_exp q)" using assms(2) by (simp add: divide_right_mono)
  then have "of_int (round_half_even (p / pow2 (ulp_exp q))) \<le> (of_int (round_half_even (q / pow2 (ulp_exp q))) :: rat)"
    using round_half_even_mono by simp
  then show ?thesis by (simp add: rounded_def True mult_left_mono)
next
  case False
  have le: "flog2 p \<le> flog2 q" by (rule flog2_mono [OF assms])
  then have u: "ulp_exp p < ulp_exp q" "ulp_exp q = flog2 q - 52" "flog2 p < flog2 q"
    using False by (auto simp: ulp_exp_def)
  let ?B = "pow2 (flog2 q)"
  have B: "p \<le> ?B" "?B \<le> q"
    using flog2_bounds(2) [of p] flog2_bounds(1) [of q] assms u(3) pow2_le_iff [of "flog2 p + 1" "flog2 q"]
    by (simp_all, linarith)
  have ulp: "ulp_exp p \<le> flog2 q" using u by simp
  have "?B = of_int (2 ^ nat (flog2 q - ulp_exp p)) * pow2 (ulp_exp p)" by (rule pow2_diff_int [OF ulp])
  then have "p / pow2 (ulp_exp p) \<le> of_int (2 ^ nat (flog2 q - ulp_exp p))"
    using B(1) by (simp add: pos_divide_le_eq)
  from round_half_even_le [OF this] have "rounded p \<le> pow2 (ulp_exp p) * of_int (2 ^ nat (flog2 q - ulp_exp p))"
    unfolding rounded_def by (intro mult_left_mono) (simp_all only: of_int_le_iff pow2_pos less_imp_le)
  also have "\<dots> = ?B" using pow2_diff_int [OF ulp] by simp
  finally have low: "rounded p \<le> ?B" .
  have ulq: "ulp_exp q \<le> flog2 q" using u by simp
  have "of_int (2 ^ nat (flog2 q - ulp_exp q)) \<le> q / pow2 (ulp_exp q)"
    using B(2) pow2_diff_int [OF ulq] by (simp add: pos_le_divide_eq)
  from round_half_even_ge [OF this] have "pow2 (ulp_exp q) * of_int (2 ^ nat (flog2 q - ulp_exp q)) \<le> rounded q"
    unfolding rounded_def by (intro mult_left_mono) (simp_all only: of_int_le_iff pow2_pos less_imp_le)
  then have "?B \<le> rounded q" using pow2_diff_int [OF ulq] by (simp add: mult.commute)
  with low show ?thesis by simp
qed

lemma f64_round_0' [simp]: "f64_round 0 = Fin 0"
  by (simp add: f64_round_def)

lemma f64_round_mono:
  assumes "0 \<le> p" "p \<le> q"
  shows "f64_le (f64_round p) (f64_round q)"
proof (cases "p = 0")
  case True
  then show ?thesis using f64_round_nonneg [of q] assms by auto
next
  case False
  then have p: "0 < p" "0 < q" using assms by auto
  show ?thesis using rounded_mono [OF p(1) assms(2)]
    by (auto simp: f64_round_rounded [OF p(1)] f64_round_rounded [OF p(2)])
qed

section \<open>The variation\<close>

definition round_away :: "rat \<Rightarrow> int" where
  "round_away q = (if 0 \<le> q then \<lfloor>q + 1/2\<rfloor> else \<lceil>q - 1/2\<rceil>)"

lemma f64_to_u64_round [simp]: "f64_to_u64 (f64_round_away (Fin q)) = min u64_max (nat (round_away q))"
  by (simp add: round_away_def)

lemma round_away_mono: "p \<le> q \<Longrightarrow> round_away p \<le> round_away q"
proof -
  assume le: "p \<le> q"
  have neg: "\<lceil>x - 1/2\<rceil> \<le> 0" if "x < 0" for x :: rat using that by (simp add: ceiling_le_iff)
  have pos: "0 \<le> \<lfloor>x + 1/2\<rfloor>" if "0 \<le> x" for x :: rat using that by simp
  show "round_away p \<le> round_away q" unfolding round_away_def
    using le by (auto intro: floor_mono ceiling_mono order_trans [OF neg pos])
qed

lemma word32_less: "unat (w :: 32 word) < 2 ^ 32"
  using unsigned_less [of w, where 'a = nat] by simp

text \<open>A draw is an exact multiple of \<open>2^-32\<close> below one.\<close>

lemma next_f64_exact:
  obtains k where "fst (next_f64 st) = Fin (of_nat k * pow2 (-32))" "k < 2 ^ 32"
proof -
  let ?k = "unat (rng_bits (st + 0x6d2b79f5))"
  have k: "?k < 2 ^ 32" by (rule word32_less)
  have p32: "pow2 (-32) = 1 / 4294967296" by (simp add: pow2_def power_int_minus)
  have "f64_of_nat ?k = Fin (of_nat ?k)"
    unfolding f64_of_nat_def by (rule f64_round_exact, rule representable_nat) (use k in simp)
  moreover have "f64_of_nat u32_max = Fin 4294967295"
    using f64_round_exact [OF representable_nat [of 4294967295]] by (simp add: f64_of_nat_def u32_max_def)
  moreover have "f64_round 4294967296 = Fin 4294967296"
    using f64_round_exact [OF representable_nat [of 4294967296]] by simp
  moreover have "f64_round (of_nat ?k * pow2 (-32)) = Fin (of_nat ?k * pow2 (-32))"
    by (rule f64_round_exact, rule representable_multiple) (use k in simp_all)
  ultimately have "fst (next_f64 st) = Fin (of_nat ?k * pow2 (-32))"
    by (simp add: next_f64_def Let_def p32)
  with k show thesis by (rule that [rotated])
qed

lemma representable_quarters: "representable (1/4)" "representable (3/4)" "representable (5/4)" "representable (-1/4)"
proof -
  have p: "pow2 (-2) = 1/4" "pow2 1024 > 2" by (simp add: pow2_def power_int_minus)
      (use pow2_le_iff [of 2 1024] in \<open>simp add: pow2_def\<close>)
  show "representable (1/4)" "representable (3/4)" "representable (5/4)"
    using representable_multiple [of 1 "-2"] representable_multiple [of 3 "-2"] representable_multiple [of 5 "-2"]
    by (simp_all add: p)
  then show "representable (-1/4)" using representable_minus [of "1/4"] by simp
qed

lemma varied_factor_bounds:
  assumes "0 \<le> c" "c \<le> 25"
  obtains x where "varied_factor (fst (next_f64 st)) (Fin c) = Fin x" "3/4 \<le> x" "x \<le> 5/4"
proof -
  obtain k where k: "fst (next_f64 st) = Fin (of_nat k * pow2 (-32))" "k < 2 ^ 32" by (rule next_f64_exact)
  have p31: "pow2 (-32) * 2 = pow2 (-31)" "pow2 (-31) = 1 / 2147483648" by (simp_all add: pow2_def power_int_minus)
  have dbl: "f64_mul (fst (next_f64 st)) (Fin 2) = Fin (of_nat k * pow2 (-31))"
    using representable_multiple [of k "-31"] k(2) by (simp add: k(1) mult.assoc p31(1) f64_round_exact)
  let ?x = "of_int (int k - 2 ^ 31) * pow2 (-31)"
  have x: "of_nat k * pow2 (-31) - 1 = ?x" "-1 \<le> ?x" "?x \<le> 1" using k(2) by (simp_all add: p31(2) field_simps)
  have "representable ?x"
  proof (rule representableI [of _ "int k - 2 ^ 31" "-31"])
    have "(1 :: rat) < pow2 1024" using pow2_less_iff [of 0 1024] by simp
    then show "\<bar>?x\<bar> < pow2 1024" using x(2,3) by linarith
  qed (use k(2) in simp_all)
  then have sub: "f64_sub_fin (Fin (of_nat k * pow2 (-31))) 1 = Fin ?x" by (simp only: f64_sub_fin.simps x(1) f64_round_exact)
  obtain y where y: "f64_round (c / 100) = Fin y" "0 \<le> y" "y \<le> 1/4"
    by (rule f64_round_between [OF representable_0 representable_quarters(1), of "c / 100"]) (use assms in simp_all)
  have "\<bar>?x * y\<bar> \<le> 1 * (1/4)" unfolding abs_mult using x y by (intro mult_mono) (simp_all add: abs_le_iff)
  then have "-1/4 \<le> ?x * y" "?x * y \<le> 1/4" unfolding abs_le_iff by linarith+
  then obtain z where z: "f64_round (?x * y) = Fin z" "-1/4 \<le> z" "z \<le> 1/4"
    by (rule f64_round_between [OF representable_quarters(4,1)])
  obtain v where v: "f64_round (1 + z) = Fin v" "3/4 \<le> v" "v \<le> 5/4"
    by (rule f64_round_between [OF representable_quarters(2,3), of "1 + z"]) (use z in simp_all)
  have "varied_factor (fst (next_f64 st)) (Fin c) = Fin v"
    unfolding varied_factor_def dbl sub using y z v by simp
  then show thesis using v(2,3) by (rule that)
qed

text \<open>The delay never exceeds the one asked for.\<close>

lemma varied_delay_bounds:
  assumes "d < 2 ^ 53"
  shows "f64_to_u64 (f64_round_away (f64_mul (fst (next_f64 st)) (f64_of_nat d))) \<le> d"
proof -
  obtain k where k: "fst (next_f64 st) = Fin (of_nat k * pow2 (-32))" "k < 2 ^ 32" by (rule next_f64_exact)
  have p32: "pow2 (-32) = 1 / 4294967296" by (simp add: pow2_def power_int_minus)
  have d: "f64_of_nat d = Fin (of_nat d)" using assms by (simp add: f64_of_nat_def f64_round_exact representable_nat)
  have q: "0 \<le> of_nat k * pow2 (-32) * (of_nat d :: rat)" by simp
  have "of_nat k * pow2 (-32) \<le> 1" using k(2) by (simp add: p32)
  then have "of_nat k * pow2 (-32) * of_nat d \<le> 1 * (of_nat d :: rat)" by (rule mult_right_mono) simp
  then have "of_nat k * pow2 (-32) * of_nat d \<le> (of_nat d :: rat)" by simp
  then obtain r where r: "f64_round (of_nat k * pow2 (-32) * of_nat d) = Fin r" "0 \<le> r" "r \<le> of_nat d"
    using f64_round_between [OF representable_0 representable_nat [OF assms] q] by auto
  have "r + 1/2 < of_int (int d + 1)" using r(3) by simp
  then have "\<lfloor>r + 1/2\<rfloor> \<le> int d" by (simp add: floor_less_iff [symmetric] del: of_int_add)
  then have "nat (round_away r) \<le> d" using r(2) by (simp add: round_away_def nat_le_iff)
  then show ?thesis using r(1) by (simp add: k(1) d del: f64_round_away.simps f64_to_u64.simps)
qed

section \<open>Scaled offsets\<close>

lemma f64_of_nat_mono: "s \<le> t \<Longrightarrow> f64_le (f64_of_nat s) (f64_of_nat t)"
  unfolding f64_of_nat_def by (rule f64_round_mono) simp_all

lemma f64_of_nat_nonneg: "f64_le (Fin 0) (f64_of_nat s)"
  using f64_of_nat_mono [of 0 s] by (simp add: f64_of_nat_def)

lemma f64_round_le_PosInf: "0 \<le> q \<Longrightarrow> f64_le (f64_round q) PosInf"
  using f64_round_nonneg [of q] by auto

lemma f64_mul_mono:
  assumes "f64_le (Fin 0) a" "f64_le a b" "0 < x"
  shows "f64_le (f64_mul a (Fin x)) (f64_mul b (Fin x))"
  using assms by (cases a; cases b) (auto intro!: f64_round_mono mult_right_mono f64_round_le_PosInf)

lemma f64_to_u64_mono: "f64_le a b \<Longrightarrow> f64_to_u64 (f64_round_away a) \<le> f64_to_u64 (f64_round_away b)"
proof (cases a; cases b)
  fix p q assume ab: "a = Fin p" "b = Fin q" and "f64_le a b"
  then have le: "p \<le> q" by simp
  show ?thesis unfolding ab f64_to_u64_round by (rule min.mono [OF order_refl nat_mono [OF round_away_mono [OF le]]])
qed (auto simp: u64_max_def)

lemma scale_offset_mono: "s \<le> t \<Longrightarrow> scale_offset s f \<le> scale_offset t f"
proof -
  assume st: "s \<le> t"
  show ?thesis
  proof (cases "\<not> f64_is_finite f \<or> f64_le f (Fin 0)")
    case False
    then obtain x where "f = Fin x" "0 < x" by (cases f) auto
    then show ?thesis
      using f64_to_u64_mono [OF f64_mul_mono [OF f64_of_nat_nonneg f64_of_nat_mono [OF st]]] by (simp add: scale_offset_def)
  qed (use st in \<open>simp add: scale_offset_def\<close>)
qed

text \<open>Below \<open>2^47\<close> the product is within a thirty-second of the exact one.\<close>

lemma rounded_near:
  assumes "0 < q" "q < pow2 49"
  shows "f64_round q = Fin (rounded q)" "\<bar>rounded q - q\<bar> \<le> 1/32"
proof -
  let ?u = "pow2 (ulp_exp q)"
  have "pow2 (flog2 q) \<le> q" using flog2_bounds(1) [of q] assms(1) by simp
  then have "pow2 (flog2 q) < pow2 49" using assms(2) by (rule order.strict_trans1)
  then have "ulp_exp q \<le> -4" by (simp add: ulp_exp_def)
  then have u: "?u \<le> 1/16" using pow2_le_iff [of "ulp_exp q" "-4"] by (simp add: pow2_def power_int_minus)
  have "\<bar>of_int (round_half_even (q / ?u)) - q / ?u\<bar> * ?u \<le> 1/2 * ?u"
    by (rule mult_right_mono [OF round_half_even_half]) (simp add: less_imp_le)
  moreover have "\<bar>of_int (round_half_even (q / ?u)) - q / ?u\<bar> * ?u = \<bar>rounded q - q\<bar>"
    by (simp add: rounded_def abs_mult_pos' less_imp_le algebra_simps)
  ultimately show d: "\<bar>rounded q - q\<bar> \<le> 1/32" using u by simp
  have "(2 :: rat) < pow2 49" "pow2 50 \<le> pow2 1024" using pow2_less_iff [of 1 49] by (simp_all add: pow2_def [of 1])
  moreover have "pow2 50 = 2 * pow2 49" using pow2_add [of 1 49] by (simp add: pow2_def [of 1])
  ultimately have "rounded q < pow2 1024" using d assms(2) by linarith
  then show "f64_round q = Fin (rounded q)" using f64_round_rounded [OF assms(1)] by simp
qed

lemma scale_offset_near:
  assumes "t < 2 ^ 48" "3/4 \<le> x" "x \<le> 5/4"
  obtains z where "scale_offset t (Fin x) = nat \<lfloor>z + 1/2\<rfloor>" "0 \<le> z" "\<bar>z - of_nat t * x\<bar> \<le> 1/32"
proof (cases "t = 0")
  case True
  then show thesis using that [of 0] assms(2) by (simp add: scale_offset_def f64_of_nat_def)
next
  case False
  have t: "f64_of_nat t = Fin (of_nat t)"
    unfolding f64_of_nat_def by (rule f64_round_exact, rule representable_nat) (use assms(1) in simp)
  have q: "0 < of_nat t * x" using False assms(2) by simp
  have "of_nat t * x \<le> of_nat t * (5/4)" using assms(3) by (intro mult_left_mono) simp_all
  also have "\<dots> < pow2 49"
    using assms(1) of_nat_less_iff [of t "2 ^ 48", where 'a = rat] by (simp add: pow2_def)
  finally have "of_nat t * x < pow2 49" .
  note near = rounded_near [OF q this]
  have "\<lfloor>rounded (of_nat t * x) + 1/2\<rfloor> \<le> int u64_max"
  proof -
    have "rounded (of_nat t * x) - of_nat t * x \<le> 1/32" using near(2) unfolding abs_le_iff by simp
    then have "rounded (of_nat t * x) + 1/2 < pow2 50"
      using \<open>of_nat t * x < pow2 49\<close> by (simp add: pow2_def)
    also have "\<dots> < of_int (int u64_max)" by (simp add: pow2_def u64_max_def)
    finally show ?thesis by linarith
  qed
  moreover have "0 \<le> rounded (of_nat t * x)" by (rule rounded_nonneg [OF q])
  ultimately have "scale_offset t (Fin x) = nat \<lfloor>rounded (of_nat t * x) + 1/2\<rfloor>"
    using assms(2) by (simp add: scale_offset_def t near(1)) 
  then show thesis using that near(2) \<open>0 \<le> rounded (of_nat t * x)\<close> by blast
qed

lemma scale_offset_sum:
  assumes "s + t < 2 ^ 48" "3/4 \<le> x" "x \<le> 5/4"
  shows "scale_offset s (Fin x) + scale_offset t (Fin x) \<le> scale_offset (s + t) (Fin x) + 1"
proof -
  obtain a where a: "scale_offset s (Fin x) = nat \<lfloor>a + 1/2\<rfloor>" "0 \<le> a" "\<bar>a - of_nat s * x\<bar> \<le> 1/32"
    using scale_offset_near [of s x] assms by auto
  obtain b where b: "scale_offset t (Fin x) = nat \<lfloor>b + 1/2\<rfloor>" "0 \<le> b" "\<bar>b - of_nat t * x\<bar> \<le> 1/32"
    using scale_offset_near [of t x] assms by auto
  obtain c where c: "scale_offset (s + t) (Fin x) = nat \<lfloor>c + 1/2\<rfloor>" "0 \<le> c" "\<bar>c - of_nat (s + t) * x\<bar> \<le> 1/32"
    using scale_offset_near [of "s + t" x] assms by auto
  have "a + b \<le> c + 3/32" using a(3) b(3) c(3) unfolding abs_le_iff by (simp add: distrib_right)
  moreover have "of_int \<lfloor>a + 1/2\<rfloor> \<le> a + 1/2" "of_int \<lfloor>b + 1/2\<rfloor> \<le> b + 1/2" by (rule of_int_floor_le)+
  ultimately have "of_int (\<lfloor>a + 1/2\<rfloor> + \<lfloor>b + 1/2\<rfloor> - 1) \<le> c + 1/2" unfolding of_int_add of_int_diff of_int_1 by linarith
  then have "\<lfloor>a + 1/2\<rfloor> + \<lfloor>b + 1/2\<rfloor> - 1 \<le> \<lfloor>c + 1/2\<rfloor>" by (simp only: le_floor_iff)
  moreover have "0 \<le> \<lfloor>a + 1/2\<rfloor>" "0 \<le> \<lfloor>b + 1/2\<rfloor>" "0 \<le> \<lfloor>c + 1/2\<rfloor>" using a(2) b(2) c(2) by simp_all
  ultimately show ?thesis unfolding a(1) b(1) c(1) by linarith
qed

section \<open>Durations and instants\<close>

lemma list_max_ge: "x \<in> set xs \<Longrightarrow> x \<le> list_max xs"
proof -
  have "a \<le> fold max xs a \<and> (\<forall>x\<in>set xs. x \<le> fold max xs a)" for a
  proof (induction xs arbitrary: a)
    case (Cons y ys)
    from Cons [of "max y a"] show ?case by auto
  qed simp
  then show "x \<in> set xs \<Longrightarrow> x \<le> list_max xs" by (simp add: list_max_def)
qed

lemma marker_le_base: "marker_offset marker a \<le> asset_base_duration_ms a visemes"
proof -
  have "marker_offset marker a \<le> list_max (map te_at_ms (pa_timeline a))"
    by (auto simp: marker_offset_def split: option.split dest!: find_SomeD intro!: list_max_ge)
  then show ?thesis by (simp add: asset_base_duration_ms_def Let_def)
qed

lemma speech_le_base:
  "Option.bind (pa_speech a) sp_duration_ms = Some d \<Longrightarrow>
    sadd (marker_offset ''speech.start'' a) d \<le> asset_base_duration_ms a visemes"
  "visemes = Some t \<Longrightarrow> sadd (marker_offset ''speech.start'' a) (vt_duration_ms t) \<le> asset_base_duration_ms a visemes"
  by (simp_all add: asset_base_duration_ms_def Let_def)

lemma interrupt_le_base: "x \<in> set (pa_interrupt_points_ms a) \<Longrightarrow> x \<le> asset_base_duration_ms a visemes"
  using list_max_ge [of x "pa_interrupt_points_ms a"] by (simp add: asset_base_duration_ms_def Let_def)

lemma scaled_le_plan:
  "s \<le> asset_base_duration_ms a visemes \<Longrightarrow> scale_offset s (av_speed_factor v) \<le> pp_duration_ms (asset_plan e at_ms a visemes v)"
proof -
  assume "s \<le> asset_base_duration_ms a visemes"
  then have "s \<le> max (asset_base_duration_ms a visemes) 1" by simp
  from scale_offset_mono [OF this, of "av_speed_factor v"] show ?thesis by (simp add: asset_plan_def Let_def le_max_iff_disj)
qed

text \<open>No interrupt point is lost when the scheduler normalizes the plan.\<close>

lemma asset_plan_interrupts:
  "set (pp_interrupt_points_ms (normalize_interrupt_points (asset_plan e at_ms a visemes v))) =
     (\<lambda>x. scale_offset x (av_speed_factor v)) ` set (pa_interrupt_points_ms a)"
proof -
  have "scale_offset x (av_speed_factor v) \<le> pp_duration_ms (asset_plan e at_ms a visemes v)"
    if "x \<in> set (pa_interrupt_points_ms a)" for x
    using that by (intro scaled_le_plan interrupt_le_base)
  moreover have "pp_interrupt_points_ms (asset_plan e at_ms a visemes v) =
      map (\<lambda>x. scale_offset x (av_speed_factor v)) (pa_interrupt_points_ms a)"
    by (simp add: asset_plan_def Let_def)
  ultimately show ?thesis by (auto simp: normalize_interrupt_points_def)
qed

lemma sadd_mono_right: "a \<le> b \<Longrightarrow> sadd c a \<le> sadd c b"
  by (rule sadd_mono [OF order_refl])

text \<open>A plan that keeps the duration of the asset's plan holds every marker.\<close>

lemma marker_within:
  "pp_duration_ms plan = pp_duration_ms (asset_plan e at_ms a visemes v) \<Longrightarrow> pp_start_at_ms plan \<le> u64_max \<Longrightarrow>
    pp_start_at_ms plan \<le> marker_at marker a plan v \<and> marker_at marker a plan v \<le> end_at_ms plan"
  using sadd_mono_right [OF scaled_le_plan [OF marker_le_base], of "pp_start_at_ms plan" marker a v e at_ms visemes]
  by (simp add: marker_at_def end_at_ms_def sadd_def)

section \<open>The variation of a valid asset\<close>

lemma number_range_nil: "validate_number_range field v 0 25 = [] \<Longrightarrow> \<exists>c. v = Fin c \<and> 0 \<le> c \<and> c \<le> 25"
  using f64_round_exact [OF representable_nat [of 25]]
  by (cases v) (simp_all add: validate_number_range_def f64_of_nat_def split: if_splits)

definition delay_of :: "'v performance_asset \<Rightarrow> u64" where
  "delay_of a = (case Option.bind (pa_variation a) vs_start_delay_ms of None \<Rightarrow> 0 | Some x \<Rightarrow> x)"

lemma asset_variation_bounds:
  assumes "asset_issues a = []"
  obtains x y where "av_speed_factor (asset_variation a seed) = Fin x" "3/4 \<le> x" "x \<le> 5/4"
    "av_amplitude_factor (asset_variation a seed) = Fin y" "3/4 \<le> y" "y \<le> 5/4"
    "av_start_delay_ms (asset_variation a seed) \<le> delay_of a" "delay_of a \<le> 500"
proof -
  let ?spec = "case pa_variation a of None \<Rightarrow> \<lparr>vs_speed_pct = None, vs_amplitude_pct = None, vs_start_delay_ms = None\<rparr> | Some x \<Rightarrow> x"
  have issues: "variation_issues ?spec = []"
    using assms by (cases "pa_variation a") (simp_all add: asset_issues_def opt_issues_def variation_issues_def)
  have pct: "\<exists>c. (case q of None \<Rightarrow> Fin 0 | Some x \<Rightarrow> x) = Fin c \<and> 0 \<le> c \<and> c \<le> 25"
    if "q = vs_speed_pct ?spec \<or> q = vs_amplitude_pct ?spec" for q
    using issues that number_range_nil by (cases q) (auto simp: variation_issues_def split: option.splits)
  obtain c where c: "(case vs_speed_pct ?spec of None \<Rightarrow> Fin 0 | Some x \<Rightarrow> x) = Fin c" "0 \<le> c" "c \<le> 25" using pct by blast
  obtain b where b: "(case vs_amplitude_pct ?spec of None \<Rightarrow> Fin 0 | Some x \<Rightarrow> x) = Fin b" "0 \<le> b" "b \<le> 25" using pct by blast
  have d: "(case vs_start_delay_ms ?spec of None \<Rightarrow> 0 | Some x \<Rightarrow> x) = delay_of a"
    by (cases "pa_variation a") (simp_all add: delay_of_def)
  have d500: "delay_of a \<le> 500"
    using issues unfolding d [symmetric] by (auto simp: variation_issues_def split: option.splits if_splits)
  define st where "st = rng_new seed"
  obtain x where x: "varied_factor (fst (next_f64 st)) (Fin c) = Fin x" "3/4 \<le> x" "x \<le> 5/4"
    by (rule varied_factor_bounds [OF c(2,3)])
  obtain y where y: "varied_factor (fst (next_f64 (snd (next_f64 st)))) (Fin b) = Fin y" "3/4 \<le> y" "y \<le> 5/4"
    by (rule varied_factor_bounds [OF b(2,3)])
  have z: "f64_to_u64 (f64_round_away (f64_mul (fst (next_f64 (snd (next_f64 (snd (next_f64 st)))))) (f64_of_nat (delay_of a)))) \<le> delay_of a"
    by (rule varied_delay_bounds) (use d500 in simp)
  show thesis
    by (rule that [of x y])
      (use x y z d500 in \<open>simp_all add: asset_variation_def Let_def c(1) b(1) d apply_variation_def case_prod_unfold st_def\<close>)
qed

section \<open>Commands lie in their reservation\<close>

text \<open>The speech of a plan, from its marker on, within a millisecond of the plan's end.\<close>

lemma speech_within:
  assumes "sadd (marker_offset ''speech.start'' a) d \<le> asset_base_duration_ms a visemes" "asset_base_duration_ms a visemes < 2 ^ 47"
    "av_speed_factor v = Fin x" "3/4 \<le> x" "x \<le> 5/4" "pp_duration_ms plan = pp_duration_ms (asset_plan e at_ms a visemes v)"
  shows "marker_at ''speech.start'' a plan v + scale_offset d (av_speed_factor v) \<le> pp_start_at_ms plan + pp_duration_ms plan + 1"
proof -
  let ?m = "marker_offset ''speech.start'' a"
  have sum: "?m + d \<le> asset_base_duration_ms a visemes" using assms(1,2) by (simp add: sadd_def u64_max_def min_def split: if_splits)
  have "scale_offset ?m (Fin x) + scale_offset d (Fin x) \<le> scale_offset (?m + d) (Fin x) + 1"
    by (rule scale_offset_sum) (use sum assms(2,4,5) in simp_all)
  also have "\<dots> \<le> pp_duration_ms plan + 1"
    using scaled_le_plan [OF sum, of v e at_ms] assms(3,6) by simp
  finally have "scale_offset ?m (Fin x) + scale_offset d (Fin x) \<le> pp_duration_ms plan + 1" .
  moreover have "marker_at ''speech.start'' a plan v \<le> pp_start_at_ms plan + scale_offset ?m (Fin x)"
    by (simp add: marker_at_def sadd_def assms(3))
  ultimately show ?thesis by (simp add: assms(3))
qed

definition audio_ok :: "planned_performance \<Rightarrow> audio_command \<Rightarrow> bool" where
  "audio_ok plan c \<longleftrightarrow>
     ac_generation c = pp_generation plan \<and> ac_event_id c = pp_event_id plan \<and> ac_asset_id c = pp_asset_id plan \<and>
     pp_start_at_ms plan \<le> ac_at_ms c \<and> ac_at_ms c + ac_duration_ms c \<le> pp_start_at_ms plan + pp_duration_ms plan + 1"

fun avatar_generation :: "avatar_command \<Rightarrow> u64" where
  "avatar_generation (AvC_Expression g t _ _) = g"
| "avatar_generation (AvC_Gesture g t _ _) = g"
| "avatar_generation (AvC_Gaze g t _) = g"
| "avatar_generation (AvC_Viseme g t _ _) = g"

definition avatar_ok :: "planned_performance \<Rightarrow> avatar_command \<Rightarrow> bool" where
  "avatar_ok plan c \<longleftrightarrow>
     avatar_generation c = pp_generation plan \<and> pp_start_at_ms plan \<le> avatar_at_ms c \<and>
     avatar_at_ms c \<le> pp_start_at_ms plan + pp_duration_ms plan + 1"

lemma cues_bounded: "cues_validate i prev d cs = Inr () \<Longrightarrow> c \<in> set cs \<Longrightarrow> vc_at_ms c \<le> d"
  by (induction i prev d cs rule: cues_validate.induct) (auto split: if_splits)

lemma audio_within:
  assumes "audio_command_of a plan v = Some c" "asset_base_duration_ms a visemes < 2 ^ 47" "av_speed_factor v = Fin x"
    "3/4 \<le> x" "x \<le> 5/4" "pp_duration_ms plan = pp_duration_ms (asset_plan e at_ms a visemes v)" "pp_start_at_ms plan \<le> u64_max"
  shows "audio_ok plan c"
proof -
  obtain speech ref d where s: "pa_speech a = Some speech" "sp_duration_ms speech = Some d"
    and c: "ac_generation c = pp_generation plan" "ac_event_id c = pp_event_id plan" "ac_asset_id c = pp_asset_id plan"
      "ac_at_ms c = marker_at ''speech.start'' a plan v" "ac_duration_ms c = scale_offset d (av_speed_factor v)"
    using assms(1) by (auto simp: audio_command_of_def split: option.splits)
  have b: "sadd (marker_offset ''speech.start'' a) d \<le> asset_base_duration_ms a visemes"
    by (rule speech_le_base(1)) (simp add: s)
  show ?thesis
    using c speech_within [OF b assms(2-6)] marker_within [OF assms(6,7)] by (simp add: audio_ok_def)
qed

lemma avatar_within:
  assumes "c \<in> set (avatar_commands_of a visemes plan v)" "asset_base_duration_ms a visemes < 2 ^ 47" "av_speed_factor v = Fin x"
    "3/4 \<le> x" "x \<le> 5/4" "pp_duration_ms plan = pp_duration_ms (asset_plan e at_ms a visemes v)" "pp_start_at_ms plan \<le> u64_max"
    and track: "\<And>t. visemes = Some t \<Longrightarrow> viseme_track_validate t = Inr ()"
  shows "avatar_ok plan c"
proof -
  have end_le: "end_at_ms plan \<le> pp_start_at_ms plan + pp_duration_ms plan" by (simp add: end_at_ms_def sadd_def)
  note mark = marker_within [OF assms(6,7)]
  have marked: "avatar_ok plan (AvC_Expression (pp_generation plan) (marker_at m a plan v) y z)"
    "avatar_ok plan (AvC_Gesture (pp_generation plan) (marker_at m a plan v) y z)"
    "avatar_ok plan (AvC_Gaze (pp_generation plan) (marker_at m a plan v) y)" for m y z
    using mark [of m] end_le by (simp_all add: avatar_ok_def)
  show ?thesis
  proof (cases "\<exists>t q w. c = AvC_Viseme (pp_generation plan) t q w")
    case False
    then show ?thesis using assms(1) by (auto simp: avatar_commands_of_def Let_def marked split: option.splits)
  next
    case True
    then obtain t u where t: "visemes = Some t" "audio_command_of a plan v = Some u"
      using assms(1) by (cases visemes; cases "audio_command_of a plan v")
        (auto simp: avatar_commands_of_def Let_def split: option.splits)
    then obtain q where q: "q \<in> set (vt_cues t)"
      "c = AvC_Viseme (pp_generation plan) (sadd (ac_at_ms u) (scale_offset (vc_at_ms q) (av_speed_factor v))) (vc_viseme q) (vc_weight q)"
      using assms(1) True by (auto simp: avatar_commands_of_def Let_def split: option.splits)
    have at: "ac_at_ms u = marker_at ''speech.start'' a plan v" using t(2) by (auto simp: audio_command_of_def split: option.splits)
    have "vc_at_ms q \<le> vt_duration_ms t"
      using track [OF t(1)] q(1) by (auto simp: viseme_track_validate_def intro: cues_bounded split: if_splits)
    then have "scale_offset (vc_at_ms q) (av_speed_factor v) \<le> scale_offset (vt_duration_ms t) (av_speed_factor v)"
      by (rule scale_offset_mono)
    moreover note speech_within [OF speech_le_base(2) [OF t(1)] assms(2-6)] mark [of "''speech.start''"]
    moreover have "ac_at_ms u \<le> u64_max" by (simp add: at marker_at_def sadd_def)
    ultimately show ?thesis by (simp add: q(2) avatar_ok_def at sadd_def)
  qed
qed

section \<open>Scheduling an asset\<close>

text \<open>What the scheduler does with a plan: accepted, it keeps all but the start and the generation.\<close>

lemma accepted_plan:
  assumes "sched_inv s0" "request \<le> u64_max" "pp_start_at_ms plan \<le> u64_max" "schedule_at request plan s0 = Some (Inr q, s')"
  shows "sched_inv s' \<and> pp_duration_ms q = pp_duration_ms plan \<and> pp_event_id q = pp_event_id plan \<and>
    pp_asset_id q = pp_asset_id plan \<and> pp_channels q = pp_channels plan \<and> pp_priority q = pp_priority plan \<and>
    pp_interruptible q = pp_interruptible plan \<and> pp_exclusive q = pp_exclusive plan \<and>
    pp_interrupt_points_ms q = pp_interrupt_points_ms (normalize_interrupt_points plan) \<and>
    pp_start_at_ms plan \<le> pp_start_at_ms q \<and> request \<le> pp_start_at_ms q \<and> pp_start_at_ms q \<le> u64_max \<and>
    pp_generation q = sch_generation s' \<and> q \<in> si_plan ` set (sch_items s') \<and>
    map_option si_plan (live_item_by_event (pp_event_id plan) s') = Some q"
proof -
  let ?s = "request_state request s0"
  obtain plan2 s2 where c: "commit_plan plan2 s2 = (Inr q, s')"
    "plan2 = (clamped_plan request plan ?s)\<lparr>pp_start_at_ms := pp_start_at_ms plan2\<rparr>"
    "pp_start_at_ms (clamped_plan request plan ?s) \<le> pp_start_at_ms plan2" "sched_inv s'"
    by (rule schedule_at_accepted [OF assms(1-3) refl assms(4)])
  have q: "q = plan2\<lparr>pp_generation := sch_generation s'\<rparr>" and items: "q \<in> si_plan ` set (sch_items s')"
    using c(1) by (auto simp: commit_plan_def Let_def)
  have "pp_start_at_ms q \<le> u64_max" using items c(4) by (auto simp: sched_inv_def item_ok_def)
  moreover have same: "pp_duration_ms plan2 = pp_duration_ms plan" "pp_event_id plan2 = pp_event_id plan"
    "pp_asset_id plan2 = pp_asset_id plan" "pp_channels plan2 = pp_channels plan" "pp_priority plan2 = pp_priority plan"
    "pp_interruptible plan2 = pp_interruptible plan" "pp_exclusive plan2 = pp_exclusive plan"
    "pp_interrupt_points_ms plan2 = pp_interrupt_points_ms (normalize_interrupt_points plan)"
    by (subst c(2), simp add: clamped_plan_def normalize_interrupt_points_def)+
  moreover have "map_option si_plan (live_item_by_event (pp_event_id plan) s') = Some q"
    using c(1) same(2) q by (auto simp: commit_plan_def Let_def live_item_by_event_def vec_get_def)
  moreover have "pp_start_at_ms plan \<le> pp_start_at_ms plan2" "request \<le> pp_start_at_ms plan2" using c(3) by auto
  ultimately show ?thesis using c(4) q items by simp
qed

lemma refused_plan:
  "schedule_at request plan s0 = Some (Inl e, s') \<Longrightarrow> s' = (request_state request s0)\<lparr>sch_last_rejection := Some e\<rparr>"
  by (auto simp: schedule_at_eq Let_def reject_def commit_plan_def split: if_splits option.splits prod.splits)

text \<open>Either all of a playback happens or none: a refusal leaves at most the reason with the scheduler.\<close>

definition same_recents :: "'v performer \<Rightarrow> 'v performer \<Rightarrow> bool" where
  "same_recents p p' \<longleftrightarrow> p' = p\<lparr>pf_assets := pf_assets p', pf_scheduler := pf_scheduler p'\<rparr>"

definition refusal :: "u64 \<Rightarrow> 'v performer \<Rightarrow> 'v performer \<Rightarrow> bool" where
  "refusal at_ms p p' \<longleftrightarrow> same_recents p p' \<and>
     (pf_scheduler p' = pf_scheduler p \<or>
      (\<exists>e. pf_scheduler p' = (request_state at_ms (pf_scheduler p))\<lparr>sch_last_rejection := Some e\<rparr>))"

text \<open>What a playback of an asset is.\<close>

definition played ::
  "'v event_envelope \<Rightarrow> playback_timing \<Rightarrow> 'v performance_asset \<Rightarrow> viseme_track option \<Rightarrow> playback_outcome \<Rightarrow> scheduler \<Rightarrow> bool" where
  "played e timing a visemes out s' \<longleftrightarrow>
     po_asset_id out = pa_id a \<and> po_variation out = asset_variation a (wrapping_add (pt_seed timing) (ev_sequence e)) \<and>
     pp_event_id (po_plan out) = ev_event_id e \<and> pp_asset_id (po_plan out) = pa_id a \<and>
     pp_channels (po_plan out) = playback_channels a visemes \<and> pp_channels (po_plan out) \<noteq> {} \<and>
     pp_priority (po_plan out) = priority_for_event (ev_kind e) \<and> \<not> pp_exclusive (po_plan out) \<and>
     (pp_interruptible (po_plan out) \<longleftrightarrow> pa_interrupt_points_ms a \<noteq> []) \<and>
     pp_duration_ms (po_plan out) = pp_duration_ms (asset_plan e (pt_at_ms timing) a visemes (po_variation out)) \<and>
     set (pp_interrupt_points_ms (po_plan out)) =
       (\<lambda>x. scale_offset x (av_speed_factor (po_variation out))) ` set (pa_interrupt_points_ms a) \<and>
     sadd (pt_at_ms timing) (av_start_delay_ms (po_variation out)) \<le> pp_start_at_ms (po_plan out) \<and>
     pp_start_at_ms (po_plan out) \<le> u64_max \<and> pp_generation (po_plan out) = sch_generation s' \<and>
     map_option si_plan (live_item_by_event (ev_event_id e) s') = Some (po_plan out)"

lemma fold_schedule_avatar: "fold schedule_avatar cs k = k\<lparr>ks_avatar := ks_avatar k @ cs\<rparr>"
  by (induction cs arbitrary: k) (simp_all add: schedule_avatar_def)

lemma dispatch_asset_sinks:
  "snd (dispatch_asset a visemes plan v t k) =
     \<lparr>ks_audio = ks_audio k @ (case audio_command_of a plan v of None \<Rightarrow> [] | Some c \<Rightarrow> [c]),
      ks_avatar = ks_avatar k @ sort_key avatar_at_ms (avatar_commands_of a visemes plan v)\<rparr>"
  by (cases k) (simp add: dispatch_asset_def Let_def fold_schedule_avatar schedule_audio_def split: option.split)

text \<open>The latencies are those of the commands the sinks get.\<close>

definition latencies :: "u64 \<Rightarrow> audio_command option \<Rightarrow> avatar_command list \<Rightarrow> fast_path_metrics \<Rightarrow> bool" where
  "latencies t audio cs m \<longleftrightarrow>
     fm_event_to_first_audio_ms m = map_option (\<lambda>c. ac_at_ms c - t) audio \<and>
     fm_event_to_first_visible_reaction_ms m = (if cs = [] then None else Some (Min (avatar_at_ms ` set cs) - t))"

lemma sort_key_first_is_least:
  assumes "sort_key f cs = c # rest"
  shows "f c = Min (f ` set cs)"
proof -
  have "sorted (map f (c # rest))" using sorted_sort_key [of f cs] assms by simp
  moreover have "set cs = set (c # rest)" using set_sort [of f cs] assms by simp
  ultimately show ?thesis by (intro Min_eqI [symmetric]) auto
qed

lemma dispatch_asset_latencies:
  "latencies t (audio_command_of a plan v) (avatar_commands_of a visemes plan v) (fst (dispatch_asset a visemes plan v t k))"
  (is "latencies t ?au ?cs _")
proof (cases "sort_key avatar_at_ms ?cs")
  case Nil
  then have "?cs = []" by (metis set_empty set_sort)
  then show ?thesis by (simp add: latencies_def dispatch_asset_def Let_def)
next
  case (Cons c rest)
  then have "?cs \<noteq> []" by auto
  with Cons sort_key_first_is_least [OF Cons] show ?thesis by (simp add: latencies_def dispatch_asset_def Let_def)
qed

lemma schedule_asset_outcome:
  assumes "sched_inv (pf_scheduler p)" "pt_at_ms timing \<le> u64_max"
  obtains (refused) x p' where "schedule_asset resolver e timing a tier p k = Some (Inl x, p', k)" "refusal (pt_at_ms timing) p p'"
      "sched_inv (pf_scheduler p')" "pf_assets p' = pf_assets p"
  | (played) out s' visemes where
      "schedule_asset resolver e timing a tier p k =
         Some (Inr out, p\<lparr>pf_scheduler := s'\<rparr>, snd (dispatch_asset a visemes (po_plan out) (po_variation out) (pt_at_ms timing) k))"
      "resolve_asset_visemes a resolver = Inr visemes" "played e timing a visemes out s'" "sched_inv s'" "po_cache_tier out = tier"
      "latencies (pt_at_ms timing) (audio_command_of a (po_plan out) (po_variation out))
         (avatar_commands_of a visemes (po_plan out) (po_variation out)) (po_metrics out)"
proof -
  have inv_rej: "sched_inv (s\<lparr>sch_last_rejection := x\<rparr>)" if "sched_inv s" for s x
    using that by (simp add: sched_inv_def books_ok_def generations_ok_def)
  have keep: "refusal (pt_at_ms timing) p p" by (simp add: refusal_def same_recents_def)
  show thesis
  proof (cases "resolve_asset_visemes a resolver")
    case (Inl x)
    then show thesis using keep assms(1) by (intro refused [of x p]) (simp_all add: schedule_asset_def)
  next
    case (Inr visemes)
    define v where "v = asset_variation a (wrapping_add (pt_seed timing) (ev_sequence e))"
    define plan where "plan = asset_plan e (pt_at_ms timing) a visemes v"
    show thesis
    proof (cases "playback_channels a visemes = {}")
      case True
      then show thesis using keep assms(1) Inr
        by (intro refused [of "PE_NoPlayableTracks (pa_id a)" p]) (simp_all add: schedule_asset_def Let_def)
    next
      case False
      have start: "pp_start_at_ms plan = sadd (pt_at_ms timing) (av_start_delay_ms v)" "pp_event_id plan = ev_event_id e"
        "pp_asset_id plan = pa_id a" "pp_channels plan = playback_channels a visemes"
        "pp_priority plan = priority_for_event (ev_kind e)" "\<not> pp_exclusive plan" "pp_interruptible plan \<longleftrightarrow> pa_interrupt_points_ms a \<noteq> []"
        by (simp_all add: plan_def asset_plan_def Let_def)
      then have le: "pp_start_at_ms plan \<le> u64_max" by (simp add: sadd_def)
      obtain r s' where r: "schedule_at (pt_at_ms timing) plan (pf_scheduler p) = Some (r, s')" "sched_inv s'"
        using schedule_at_total [OF assms le] by blast
      show thesis
      proof (cases r)
        case (Inl reason)
        have "refusal (pt_at_ms timing) p (p\<lparr>pf_scheduler := s'\<rparr>)"
          using refused_plan [of "pt_at_ms timing" plan "pf_scheduler p" reason s'] r(1) Inl
          by (auto simp: refusal_def same_recents_def)
        then show thesis using Inr False r Inl
          by (intro refused [of "PE_Scheduler reason" "p\<lparr>pf_scheduler := s'\<rparr>"])
            (simp_all add: schedule_asset_def Let_def plan_def v_def)
      next
        case acc: (Inr q)
        let ?out = "\<lparr>po_asset_id = pa_id a, po_cache_tier = tier, po_plan = q, po_variation = v,
          po_metrics = fst (dispatch_asset a visemes q v (pt_at_ms timing) k)\<rparr>"
        note q = accepted_plan [OF assms le r(1) [unfolded acc]]
        have "played e timing a visemes ?out s'"
          using q start False asset_plan_interrupts [of e "pt_at_ms timing" a visemes v]
          by (simp add: played_def v_def [symmetric] plan_def [symmetric])
        then show thesis using Inr False r acc
          by (intro played [of ?out s' visemes])
            (simp_all add: schedule_asset_def Let_def plan_def v_def case_prod_unfold dispatch_asset_latencies)
      qed
    qed
  qed
qed

end
