(* ===== verification/Playback_Sys.thy ===== *)
theory Playback_Sys
  imports Playback_Inv
begin

text \<open>
  The fast path as a system: the performer with its disk, its three handlers, preloading, and every
  operation of the asset store and the scheduler it owns; its invariant, and what a call does.
\<close>

section \<open>Calls\<close>

datatype 'v playback_call =
  PC_Intent "'v event_envelope" u64 u64
| PC_Id "'v event_envelope" string playback_timing
| PC_Identity "'v event_envelope" string string playback_timing

fun call_event :: "'v playback_call \<Rightarrow> 'v event_envelope" where
  "call_event (PC_Intent e t s) = e"
| "call_event (PC_Id e i tm) = e"
| "call_event (PC_Identity e i x tm) = e"

fun call_timing :: "'v playback_call \<Rightarrow> playback_timing" where
  "call_timing (PC_Intent e t s) = \<lparr>pt_at_ms = t, pt_seed = s\<rparr>"
| "call_timing (PC_Id e i tm) = tm"
| "call_timing (PC_Identity e i x tm) = tm"

fun perform ::
  "'v asset_lib \<Rightarrow> 'v wire_lib \<Rightarrow> viseme_resolver \<Rightarrow> disk \<Rightarrow> 'v playback_call \<Rightarrow> 'v performer \<Rightarrow> playback_sinks \<Rightarrow> 'v playback" where
  "perform lib js resolver d (PC_Intent e t s) p k = handle_event lib js resolver d e t s p k"
| "perform lib js resolver d (PC_Id e i tm) p k = handle_asset_id lib resolver d e i tm p k"
| "perform lib js resolver d (PC_Identity e i x tm) p k = handle_asset_identity lib resolver d e i x tm p k"

section \<open>The invariant\<close>

definition recents_ok :: "'v performer \<Rightarrow> bool" where
  "recents_ok p \<longleftrightarrow>
     table_ok (pb_max_recent_variant_groups (pf_config p)) (pf_recent p) (pf_touch p) \<and>
     list_all (\<lambda>(g, r). length r \<le> pb_recent_variant_window (pf_config p)) (pf_recent p) \<and>
     length (pf_recent p) \<le> pf_high_water p"

definition performer_inv :: "'v asset_lib \<Rightarrow> 'v performer \<Rightarrow> bool" where
  "performer_inv lib p \<longleftrightarrow> store_inv lib (pf_assets p) \<and> sched_inv (pf_scheduler p) \<and> recents_ok p"

lemma performer_inv_parts [simp]:
  "recents_ok (p\<lparr>pf_assets := a\<rparr>) \<longleftrightarrow> recents_ok p"
  "recents_ok (p\<lparr>pf_scheduler := s\<rparr>) \<longleftrightarrow> recents_ok p"
  "performer_inv lib (p\<lparr>pf_assets := a\<rparr>) \<longleftrightarrow> store_inv lib a \<and> sched_inv (pf_scheduler p) \<and> recents_ok p"
  "performer_inv lib (p\<lparr>pf_scheduler := s\<rparr>) \<longleftrightarrow> store_inv lib (pf_assets p) \<and> sched_inv s \<and> recents_ok p"
  by (simp_all add: performer_inv_def recents_ok_def)

lemma recents_keep: "recents_ok p \<Longrightarrow> same_recents p p' \<Longrightarrow> recents_ok p'"
  unfolding same_recents_def by (erule ssubst) (simp add: recents_ok_def)

text \<open>Recording a variant never fails and keeps the bounds.\<close>

lemma evict_recent_ok:
  assumes "recents_ok p" "0 < pb_max_recent_variant_groups (pf_config p)" "pb_max_recent_variant_groups (pf_config p) \<le> length (pf_recent p)"
  obtains q where "evict_recent_group p = Some q" "recents_ok q" "length (pf_recent q) < pb_max_recent_variant_groups (pf_config p)"
    "q = p\<lparr>pf_recent := pf_recent q, pf_touch := pf_touch q, pf_evicted := pf_evicted q\<rparr>"
    "\<And>g. bm_get (pf_recent p) g = None \<Longrightarrow> bm_get (pf_recent q) g = None"
proof -
  have t: "table_ok (pb_max_recent_variant_groups (pf_config p)) (pf_recent p) (pf_touch p)" using assms(1) by (simp add: recents_ok_def)
  obtain v where v: "least_touched (pf_touch p) = Some v" "length (bm_remove v (pf_recent p)) < pb_max_recent_variant_groups (pf_config p)"
    by (rule table_ok_least [OF t assms(3,2)])
  let ?q = "p\<lparr>pf_recent := bm_remove v (pf_recent p), pf_touch := bm_remove v (pf_touch p), pf_evicted := sadd (pf_evicted p) 1\<rparr>"
  have "set (bm_remove v (pf_recent p)) \<subseteq> set (pf_recent p)" by (auto simp: bm_remove_def)
  moreover have "length (bm_remove v (pf_recent p)) \<le> pf_high_water p"
    using bm_remove_length_le [of v "pf_recent p"] assms(1) by (simp add: recents_ok_def)
  ultimately have "recents_ok ?q"
    using assms(1) table_ok_remove [OF t, of v] by (auto simp: recents_ok_def list_all_iff)
  then show thesis using v by (intro that [of ?q]) (auto simp: evict_recent_group_def)
qed

lemma record_recent_ok:
  assumes "recents_ok p"
  obtains q where "record_recent grp i p = Some q" "recents_ok q" "pf_assets q = pf_assets p" "pf_scheduler q = pf_scheduler p"
    "pf_config q = pf_config p"
    "bm_get (pf_recent q) grp =
      (if pb_recent_variant_window (pf_config p) = 0 \<or> pb_max_recent_variant_groups (pf_config p) = 0 then bm_get (pf_recent p) grp
       else Some (keep_last (pb_recent_variant_window (pf_config p))
              ((case bm_get (pf_recent p) grp of None \<Rightarrow> [] | Some r \<Rightarrow> r) @ [i])))"
proof (cases "pb_recent_variant_window (pf_config p) = 0 \<or> pb_max_recent_variant_groups (pf_config p) = 0")
  case True
  then show thesis using assms by (intro that [of p]) (simp_all add: record_recent_def Let_def)
next
  case False
  let ?w = "pb_recent_variant_window (pf_config p)" and ?cap = "pb_max_recent_variant_groups (pf_config p)"
  let ?p1 = "p\<lparr>pf_next_touch := sadd (pf_next_touch p) 1\<rparr>"
  have p1: "recents_ok ?p1" using assms by (simp add: recents_ok_def)
  obtain p2 where p2: "(if bm_get (pf_recent ?p1) grp = None \<and> ?cap \<le> length (pf_recent ?p1) then evict_recent_group ?p1 else Some ?p1) = Some p2"
    "recents_ok p2" "bm_get (pf_recent p2) grp = None \<longrightarrow> length (pf_recent p2) < ?cap"
    "pf_assets p2 = pf_assets p" "pf_scheduler p2 = pf_scheduler p" "pf_config p2 = pf_config p"
    "bm_get (pf_recent p2) grp = bm_get (pf_recent p) grp"
  proof (cases "bm_get (pf_recent ?p1) grp = None \<and> ?cap \<le> length (pf_recent ?p1)")
    case True
    obtain q where q: "evict_recent_group ?p1 = Some q" "recents_ok q" "length (pf_recent q) < ?cap"
      "q = ?p1\<lparr>pf_recent := pf_recent q, pf_touch := pf_touch q, pf_evicted := pf_evicted q\<rparr>"
      "\<And>g. bm_get (pf_recent ?p1) g = None \<Longrightarrow> bm_get (pf_recent q) g = None"
      by (rule evict_recent_ok [OF p1]) (use True False in simp_all)
    have same: "pf_assets q = pf_assets p" "pf_scheduler q = pf_scheduler p" "pf_config q = pf_config p" by (subst q(4), simp)+
    show thesis using q True same by (intro that [of q]) simp_all
  next
    case no: False
    then show thesis using p1 by (intro that [of ?p1]) auto
  qed
  let ?r = "keep_last ?w ((case bm_get (pf_recent p2) grp of None \<Rightarrow> [] | Some r \<Rightarrow> r) @ [i])"
  let ?m = "bm_insert grp ?r (pf_recent p2)"
  let ?q = "p2\<lparr>pf_recent := ?m, pf_touch := bm_insert grp (pf_next_touch p) (pf_touch p2),
    pf_high_water := max (pf_high_water p2) (length ?m)\<rparr>"
  have t: "table_ok ?cap (pf_recent p2) (pf_touch p2)" and w: "list_all (\<lambda>(g, r). length r \<le> ?w) (pf_recent p2)"
    using p2(2,6) by (simp_all add: recents_ok_def)
  have t': "table_ok ?cap ?m (bm_insert grp (pf_next_touch p) (pf_touch p2))"
  proof (cases "bm_get (pf_recent p2) grp")
    case None
    then show ?thesis using table_ok_insert [OF t] p2(3) by simp
  next
    case (Some x)
    from table_ok_update [OF t Some] have "table_ok ?cap ?m (pf_touch p2)" .
    from table_ok_touch [OF this] show ?thesis by simp
  qed
  have w': "list_all (\<lambda>(g, r). length r \<le> ?w) ?m"
    using w set_bm_insert [of grp ?r "pf_recent p2"] by (fastforce simp: list_all_iff)
  have q: "recents_ok ?q" using t' w' p2(6) by (simp add: recents_ok_def)
  have rec: "record_recent grp i p = Some ?q"
    unfolding record_recent_def Let_def p2(1) bind.bind_lunit p2(6) if_not_P [OF False] by (rule refl)
  show thesis by (rule that [OF rec q]) (use p2 False in simp_all)
qed

section \<open>What a call does\<close>

lemma select_variant_source:
  assumes "store_inv lib s" "select_variant_with_tier lib grp seed recent d s = (Inr (a, tier), s')"
  shows "select_variant_id grp seed recent s = Some (pa_id a)"
proof (cases "select_variant_id grp seed recent s")
  case (Some i)
  with resolve_ok [OF assms(1), of i d] assms(2) show ?thesis by (auto simp: select_variant_with_tier_def)
qed (use assms(2) in \<open>simp add: select_variant_with_tier_def\<close>)

text \<open>
  Of which asset a successful call is, and under which group it records it: what the call asked for,
  resolved by the store.
\<close>

fun asked_for :: "'v wire_lib \<Rightarrow> 'v performer \<Rightarrow> 'v playback_call \<Rightarrow> 'v performance_asset \<Rightarrow> string \<Rightarrow> bool" where
  "asked_for js p (PC_Intent e t s) a grp \<longleftrightarrow>
     Option.bind (bm_get (ev_payload e) ''intent'') (js_as_str js) = Some grp \<and>
     select_variant_id grp (wrapping_add s (ev_sequence e)) (case bm_get (pf_recent p) grp of None \<Rightarrow> [] | Some r \<Rightarrow> r)
       (pf_assets p) = Some (pa_id a)"
| "asked_for js p (PC_Id e i tm) a grp \<longleftrightarrow> pa_id a = i \<and> grp = recent_group_of a"
| "asked_for js p (PC_Identity e i x tm) a grp \<longleftrightarrow> pa_id a = i \<and> grp = recent_group_of a \<and> stable_key (identity_of a) = x"

text \<open>Every call is a refusal without effects on sinks and recents, or the playback of such an asset.\<close>

lemma perform_cases:
  assumes "perform lib js resolver d call p k = z" "performer_inv lib p"
  obtains (refused) x s where "z = Some (Inl x, p\<lparr>pf_assets := s\<rparr>, k)" "store_inv lib s"
  | (played) a tier grp s where
      "z = play_and_record resolver (call_event call) (call_timing call) a tier grp (p\<lparr>pf_assets := s\<rparr>) k"
      "store_inv lib s" "asked_for js p call a grp" "playable (as_runtime (pf_assets p)) a" "playable_event (call_event call) = Inr ()"
proof -
  have inv: "store_inv lib (pf_assets p)" using assms(2) by (simp add: performer_inv_def)
  have keep: "thesis" if "z = Some (Inl x, p, k)" for x
    by (rule refused [of x "pf_assets p"]) (simp_all add: that inv)
  show thesis
  proof (cases "playable_event (call_event call)")
    case (Inl x)
    then show thesis using assms(1) by (intro keep [of x]; cases call) (simp_all add: handle_event_def handle_asset_id_def handle_asset_identity_def)
  next
    case ok: (Inr u)
    show thesis
    proof (cases call)
      case (PC_Intent e t sd)
      show thesis
      proof (cases "Option.bind (bm_get (ev_payload e) ''intent'') (js_as_str js)")
        case None
        then show thesis using assms(1) PC_Intent ok by (intro keep [of PE_MissingIntent]) (simp add: handle_event_def)
      next
        case (Some intent)
        let ?recent = "case bm_get (pf_recent p) intent of None \<Rightarrow> [] | Some r \<Rightarrow> r"
        obtain r s where sel: "select_variant_with_tier lib intent (wrapping_add sd (ev_sequence e)) ?recent d (pf_assets p) = (r, s)"
          by (rule prod.exhaust)
        note s = select_variant_ok [OF inv sel]
        show thesis
        proof (cases "trim_is_empty intent")
          case True
          then show thesis using assms(1) PC_Intent ok Some by (intro keep [of PE_MissingIntent]) (simp add: handle_event_def)
        next
          case False
          show thesis
          proof (cases r)
            case (Inl x)
            then show thesis using assms(1) PC_Intent ok Some False sel s
              by (intro refused [of "PE_AssetStore x" s]) (simp_all add: handle_event_def Let_def)
          next
            case (Inr res)
            obtain a tier where "res = (a, tier)" by (rule prod.exhaust)
            with Inr have src: "r = Inr (a, tier)" by simp
            from select_variant_source [OF inv sel [unfolded src]] show thesis
              using assms(1) PC_Intent ok Some False sel s src
              by (intro played [of a tier intent s]) (simp_all add: handle_event_def Let_def)
          qed
        qed
      qed
    next
      case (PC_Id e i tm)
      obtain r s where sel: "resolve_with_tier lib i d (pf_assets p) = (r, s)" by (rule prod.exhaust)
      note s = resolve_ok [OF inv sel]
      show thesis
      proof (cases "trim_is_empty i")
        case True
        then show thesis using assms(1) PC_Id ok
          by (intro keep [of "PE_InvalidEvent ''selected asset id must not be empty''"]) (simp add: handle_asset_id_def)
      next
        case False
        show thesis
        proof (cases r)
          case (Inl x)
          then show thesis using assms(1) PC_Id ok False sel s
            by (intro refused [of "PE_AssetStore x" s]) (simp_all add: handle_asset_id_def)
        next
          case (Inr res)
          obtain a tier where "res = (a, tier)" by (rule prod.exhaust)
          with Inr have "r = Inr (a, tier)" by simp
          then show thesis using assms(1) PC_Id ok False sel s
            by (intro played [of a tier "recent_group_of a" s]) (simp_all add: handle_asset_id_def)
        qed
      qed
    next
      case (PC_Identity e i expected tm)
      obtain r s where sel: "resolve_with_tier lib i d (pf_assets p) = (r, s)" by (rule prod.exhaust)
      note s = resolve_ok [OF inv sel]
      show thesis
      proof (cases "trim_is_empty i \<or> trim_is_empty expected")
        case True
        then show thesis using assms(1) PC_Identity ok
          by (intro keep [of "PE_InvalidEvent ''selected asset id and identity must not be empty''"]) (simp add: handle_asset_identity_def)
      next
        case False
        show thesis
        proof (cases r)
          case (Inl x)
          then show thesis using assms(1) PC_Identity ok False sel s
            by (intro refused [of "PE_AssetStore x" s]) (simp_all add: handle_asset_identity_def)
        next
          case (Inr res)
          obtain a tier where "res = (a, tier)" by (rule prod.exhaust)
          with Inr have src: "r = Inr (a, tier)" by simp
          show thesis
          proof (cases "stable_key (identity_of a) = expected")
            case True
            then show thesis using assms(1) PC_Identity ok False sel s src
              by (intro played [of a tier "recent_group_of a" s]) (simp_all add: handle_asset_identity_def Let_def)
          next
            case stale: False
            then show thesis using assms(1) PC_Identity ok False sel s src
              by (intro refused [of "PE_StaleAssetIdentity i expected (stable_key (identity_of a))" s])
                (simp_all add: handle_asset_identity_def Let_def)
          qed
        qed
      qed
    qed
  qed
qed

text \<open>What a playback leaves: the plan, its commands in the sinks, and the asset in its group.\<close>

definition played_to ::
  "viseme_resolver \<Rightarrow> 'v playback_call \<Rightarrow> 'v performance_asset \<Rightarrow> string \<Rightarrow> 'v performer \<Rightarrow> playback_sinks \<Rightarrow>
     playback_outcome \<Rightarrow> 'v performer \<Rightarrow> playback_sinks \<Rightarrow> bool" where
  "played_to resolver call a grp p k out p' k' \<longleftrightarrow>
     (\<exists>visemes. resolve_asset_visemes a resolver = Inr visemes \<and>
        played (call_event call) (call_timing call) a visemes out (pf_scheduler p') \<and>
        latencies (pt_at_ms (call_timing call)) (audio_command_of a (po_plan out) (po_variation out))
          (avatar_commands_of a visemes (po_plan out) (po_variation out)) (po_metrics out) \<and>
        k' = \<lparr>ks_audio = ks_audio k @ (case audio_command_of a (po_plan out) (po_variation out) of None \<Rightarrow> [] | Some c \<Rightarrow> [c]),
              ks_avatar = ks_avatar k @
                sort_key avatar_at_ms (avatar_commands_of a visemes (po_plan out) (po_variation out))\<rparr>) \<and>
     bm_get (pf_recent p') grp =
       (if pb_recent_variant_window (pf_config p) = 0 \<or> pb_max_recent_variant_groups (pf_config p) = 0 then bm_get (pf_recent p) grp
        else Some (keep_last (pb_recent_variant_window (pf_config p))
               ((case bm_get (pf_recent p) grp of None \<Rightarrow> [] | Some r \<Rightarrow> r) @ [pa_id a])))"

lemma play_and_record_outcome:
  assumes "performer_inv lib p" "pt_at_ms (call_timing call) \<le> u64_max"
  obtains (refused) x p' where
      "play_and_record resolver (call_event call) (call_timing call) a tier grp p k = Some (Inl x, p', k)"
      "refusal (pt_at_ms (call_timing call)) p p'" "performer_inv lib p'"
  | (played) out p' k' where
      "play_and_record resolver (call_event call) (call_timing call) a tier grp p k = Some (Inr out, p', k')"
      "played_to resolver call a grp p k out p' k'" "performer_inv lib p'" "pf_config p' = pf_config p"
proof -
  let ?e = "call_event call" and ?tm = "call_timing call"
  have inv: "store_inv lib (pf_assets p)" "sched_inv (pf_scheduler p)" "recents_ok p"
    using assms(1) by (simp_all add: performer_inv_def)
  show thesis
  proof (cases rule: schedule_asset_outcome [OF inv(2) assms(2), of resolver ?e a tier k])
    case (1 x p')
    have "recents_ok p'" using recents_keep [OF inv(3)] 1(2) by (simp add: refusal_def)
    with 1 inv show thesis by (intro refused [of x p']) (simp_all add: play_and_record_def performer_inv_def)
  next
    case (2 out s' visemes)
    let ?p = "p\<lparr>pf_scheduler := s'\<rparr>"
    have "recents_ok ?p" using inv(3) by (simp add: recents_ok_def)
    then obtain q where q: "record_recent grp (pa_id a) ?p = Some q" "recents_ok q" "pf_assets q = pf_assets ?p"
      "pf_scheduler q = pf_scheduler ?p" "pf_config q = pf_config ?p"
      "bm_get (pf_recent q) grp =
        (if pb_recent_variant_window (pf_config ?p) = 0 \<or> pb_max_recent_variant_groups (pf_config ?p) = 0
         then bm_get (pf_recent ?p) grp
         else Some (keep_last (pb_recent_variant_window (pf_config ?p))
                ((case bm_get (pf_recent ?p) grp of None \<Rightarrow> [] | Some r \<Rightarrow> r) @ [pa_id a])))"
      by (rule record_recent_ok)
    have "played_to resolver call a grp p k out q (snd (dispatch_asset a visemes (po_plan out) (po_variation out) (pt_at_ms ?tm) k))"
      unfolding played_to_def using 2(2,3,6) q(4,6) by (auto simp: dispatch_asset_sinks)
    then show thesis
      by (rule played [rotated]) (use 2 q inv in \<open>simp_all add: play_and_record_def performer_inv_def\<close>)
  qed
qed

section \<open>The system\<close>

text \<open>\<open>assets_mut\<close> and \<open>scheduler_mut\<close> give every operation of the two.\<close>

datatype 'v playback_op =
  PO_Play "'v playback_call"
| PO_Preload
| PO_Assets "'v asset_op"
| PO_Scheduler sched_op

fun playback_in_range :: "'v playback_op \<Rightarrow> bool" where
  "playback_in_range (PO_Play call) \<longleftrightarrow> pt_at_ms (call_timing call) \<le> u64_max"
| "playback_in_range (PO_Scheduler op) \<longleftrightarrow> op_in_range op"
| "playback_in_range _ \<longleftrightarrow> True"

type_synonym 'v playback_world = "disk \<times> 'v performer \<times> playback_sinks"

fun playback_exec ::
  "'v asset_lib \<Rightarrow> 'v wire_lib \<Rightarrow> (disk \<Rightarrow> viseme_resolver) \<Rightarrow> 'v playback_op \<Rightarrow> 'v playback_world \<Rightarrow> 'v playback_world option" where
  "playback_exec lib js resolver (PO_Play call) (d, p, k) = map_option (\<lambda>(_, p, k). (d, p, k)) (perform lib js (resolver d) d call p k)"
| "playback_exec lib js resolver PO_Preload (d, p, k) = Some (d, snd (index_and_preload_fast_path lib d p), k)"
| "playback_exec lib js resolver (PO_Assets op) (d, p, k) =
     (case asset_exec lib op (d, pf_assets p) of (d, a) \<Rightarrow> Some (d, p\<lparr>pf_assets := a\<rparr>, k))"
| "playback_exec lib js resolver (PO_Scheduler op) (d, p, k) =
     map_option (\<lambda>s. (d, p\<lparr>pf_scheduler := s\<rparr>, k)) (sched_exec op (pf_scheduler p))"

definition playback_init :: "'v playback_world \<Rightarrow> bool" where
  "playback_init w \<longleftrightarrow>
     (\<exists>d base rt cfg c. w = (d, performer_new (asset_store_new base rt) (scheduler_new cfg) c, \<lparr>ks_audio = [], ks_avatar = []\<rparr>))"

inductive playback_step ::
  "'v asset_lib \<Rightarrow> 'v wire_lib \<Rightarrow> (disk \<Rightarrow> viseme_resolver) \<Rightarrow> 'v playback_world \<Rightarrow> 'v playback_world \<Rightarrow> bool"
  for lib js resolver where
  "playback_in_range op \<Longrightarrow> playback_exec lib js resolver op w = Some w' \<Longrightarrow> playback_step lib js resolver w w'"

definition playback_inv :: "'v asset_lib \<Rightarrow> 'v playback_world \<Rightarrow> bool" where
  "playback_inv lib w \<longleftrightarrow> performer_inv lib (fst (snd w))"

text \<open>A call always returns, and its outcome is one of the two.\<close>

lemma perform_outcome:
  assumes "performer_inv lib p" "pt_at_ms (call_timing call) \<le> u64_max"
  obtains (refused) x p' where "perform lib js resolver d call p k = Some (Inl x, p', k)"
      "refusal (pt_at_ms (call_timing call)) p p'" "performer_inv lib p'"
  | (played) out p' k' a grp where "perform lib js resolver d call p k = Some (Inr out, p', k')"
      "played_to resolver call a grp p k out p' k'" "asked_for js p call a grp" "playable (as_runtime (pf_assets p)) a"
      "playable_event (call_event call) = Inr ()" "performer_inv lib p'"
proof (cases rule: perform_cases [OF refl assms(1), of js resolver d call k])
  case (1 x s)
  have "refusal (pt_at_ms (call_timing call)) p (p\<lparr>pf_assets := s\<rparr>)" by (simp add: refusal_def same_recents_def)
  moreover have "performer_inv lib (p\<lparr>pf_assets := s\<rparr>)" using 1(2) assms(1) by (simp add: performer_inv_parts performer_inv_def)
  ultimately show ?thesis by (rule refused [OF 1(1)])
next
  case (2 a tier grp s)
  let ?p = "p\<lparr>pf_assets := s\<rparr>"
  have inv: "performer_inv lib ?p" using 2(2) assms(1) by (simp add: performer_inv_parts performer_inv_def)
  show ?thesis
  proof (cases rule: play_and_record_outcome [OF inv assms(2), of resolver a tier grp k])
    case (1 x p')
    have "refusal (pt_at_ms (call_timing call)) p p'" using 1(2) by (simp add: refusal_def same_recents_def)
    with 1 2(1) show ?thesis by (intro refused [of x p']) simp_all
  next
    case (2 out p' k')
    have "played_to resolver call a grp p k out p' k'" using 2(2) by (simp add: played_to_def)
    with 2 \<open>perform lib js resolver d call p k = _\<close> \<open>asked_for js p call a grp\<close> \<open>playable _ a\<close> \<open>playable_event _ = _\<close>
    show ?thesis by (intro played [of out p' k' a grp]) simp_all
  qed
qed

lemma playback_exec_ok:
  assumes "playback_inv lib w" "playback_in_range op"
  obtains w' where "playback_exec lib js resolver op w = Some w'" "playback_inv lib w'"
proof -
  obtain d p k where w: "w = (d, p, k)" by (rule prod_cases3)
  have inv: "performer_inv lib p" "store_inv lib (pf_assets p)" "sched_inv (pf_scheduler p)" "recents_ok p"
    using assms(1) by (simp_all add: playback_inv_def performer_inv_def w)
  show thesis
  proof (cases op)
    case (PO_Play call)
    then have range: "pt_at_ms (call_timing call) \<le> u64_max" using assms(2) by simp
    show thesis
    proof (cases rule: perform_outcome [OF inv(1) range, of js "resolver d" d k])
      case (1 x p')
      then show thesis by (intro that [of "(d, p', k)"]) (simp_all add: w PO_Play playback_inv_def)
    next
      case (2 out p' k')
      then show thesis by (intro that [of "(d, p', k')"]) (simp_all add: w PO_Play playback_inv_def)
    qed
  next
    case PO_Preload
    obtain r a where i: "index_local lib d (pf_assets p) = (r, a)" by (rule prod.exhaust)
    have a: "store_inv lib a" using store_inv_index [OF inv(2), of d] i by simp
    obtain r2 a2 where c: "preload_classes lib [ACl_Filler, ACl_Reaction] d a = (r2, a2)" by (rule prod.exhaust)
    have "store_inv lib a2" using preload_ok [OF a] c by (auto simp: preload_classes_def)
    then have "performer_inv lib (snd (index_and_preload_fast_path lib d p))"
      using a inv by (simp add: index_and_preload_fast_path_def i c performer_inv_parts split: sum.split)
    then show thesis by (intro that [of "(d, snd (index_and_preload_fast_path lib d p), k)"]) (simp_all add: w PO_Preload playback_inv_def)
  next
    case (PO_Assets aop)
    obtain d' a where x: "asset_exec lib aop (d, pf_assets p) = (d', a)" by (rule prod.exhaust)
    have "store_inv lib a" using asset_exec_inv [of lib "(d, pf_assets p)" aop] inv(2) by (simp add: x)
    then show thesis using inv
      by (intro that [of "(d', p\<lparr>pf_assets := a\<rparr>, k)"]) (simp_all add: w PO_Assets x playback_inv_def performer_inv_parts)
  next
    case (PO_Scheduler sop)
    then have range: "op_in_range sop" using assms(2) by simp
    then obtain s where s: "sched_exec sop (pf_scheduler p) = Some s" using sched_exec_total [OF inv(3)] by blast
    then show thesis using inv sched_exec_inv [OF inv(3) range s]
      by (intro that [of "(d, p\<lparr>pf_scheduler := s\<rparr>, k)"]) (simp_all add: w PO_Scheduler playback_inv_def performer_inv_parts)
  qed
qed

lemma performer_inv_new:
  "performer_inv lib (performer_new (asset_store_new base rt) (scheduler_new cfg) c)"
  by (simp add: performer_inv_def performer_new_def recents_ok_def store_inv_new table_ok_def bm_ok_def
    reach_sched_inv [OF sched_reach_new])

interpretation playback_sys: step_invariant playback_init "playback_step lib js resolver" "playback_inv lib" for lib js resolver
proof
  fix w w' :: "'a playback_world" and lib js resolver
  show "playback_init w \<Longrightarrow> playback_inv lib w" by (auto simp: playback_init_def playback_inv_def performer_inv_new)
  show "playback_inv lib w \<Longrightarrow> playback_step lib js resolver w w' \<Longrightarrow> playback_inv lib w'"
    by (elim playback_step.cases) (metis playback_exec_ok option.inject)
qed

abbreviation playback_reach ::
  "'v asset_lib \<Rightarrow> 'v wire_lib \<Rightarrow> (disk \<Rightarrow> viseme_resolver) \<Rightarrow> 'v playback_world \<Rightarrow> bool" where
  "playback_reach lib js resolver \<equiv> reach playback_init (playback_step lib js resolver)"

lemmas reach_playback_inv = playback_sys.reach_inv

end
