(* ===== verification/Playback_Claims.thy ===== *)
theory Playback_Claims
  imports Playback_Sys Asset_Claims Asset_Identity
begin

text \<open>
  The properties of the fast path (\<open>crates/runtime/src/cached_playback.rs\<close>), with a performer on which
  their hypotheses hold.
\<close>

section \<open>A concrete performer\<close>

text \<open>Two variants of one group that speak and look, in memory; events of that intent.\<close>

definition demo_variant :: "string \<Rightarrow> nat performance_asset" where
  "demo_variant i = (demo_asset i None)\<lparr>pa_gaze := Some GT_Camera,
     pa_speech := Some \<lparr>sp_text = None, sp_audio_ref = Some ''hi.wav'', sp_duration_ms = Some 800, sp_viseme_ref = None\<rparr>\<rparr>"

definition demo_performer :: "nat performer" where
  "demo_performer =
     performer_new
       (snd (insert_hot demo_asset_lib (demo_variant ''va2'')
         (snd (insert_hot demo_asset_lib (demo_variant ''va1'') demo_store0))))
       (scheduler_new default_config) default_playback_config"

definition demo_sinks :: playback_sinks where
  "demo_sinks = \<lparr>ks_audio = [], ks_avatar = []\<rparr>"

definition demo_chat :: "nat event_envelope" where
  "demo_chat =
     \<lparr>ev_schema_version = EVENT_SCHEMA_VERSION, ev_event_id = ''evt-1'', ev_correlation_id = ''corr-1'', ev_sequence = 7,
      ev_observed_at = ''2026-09-24T00:00:00Z'', ev_source = ''twitch'', ev_source_class = SC_PublicChat,
      ev_plane = Plane_Content, ev_trust_level = Untrusted, ev_kind = ChatMessage, ev_actor_id = None,
      ev_priority_hint = None, ev_authorization = None, ev_payload = [(''intent'', 5)]\<rparr>"

definition demo_intents :: "nat wire_lib" where
  "demo_intents =
     \<lparr>js_as_object = (\<lambda>_. None), js_as_str = (\<lambda>v. if v = 5 then Some ''g'' else None), js_as_f64 = (\<lambda>_. None),
      js_object = length, js_array = sum_list, js_string = length, js_bool = of_bool, js_f64 = (\<lambda>_. 0), js_u64 = (\<lambda>n. n),
      js_null = 0, js_to_vec = (\<lambda>_. Inr ''{}''), js_request_to_vec = (\<lambda>_ _ _. Inr ''{}''),
      js_from_slice = (\<lambda>_. Inl ''EOF''), js_debug = (\<lambda>s. s), js_parse_url = (\<lambda>_. None)\<rparr>"

definition demo_timing :: playback_timing where
  "demo_timing = \<lparr>pt_at_ms = 1000, pt_seed = 3\<rparr>"

lemma playback_reach_exec:
  "playback_reach lib js resolver w \<Longrightarrow> playback_in_range op \<Longrightarrow> playback_exec lib js resolver op w = Some w' \<Longrightarrow>
    playback_reach lib js resolver w'"
  by (erule reach.reach_step) (rule playback_step.intros)

lemma demo_performer_reach: "playback_reach demo_asset_lib js resolver (d, demo_performer, demo_sinks)"
proof -
  let ?p = "performer_new demo_store0 (scheduler_new default_config) default_playback_config"
  have "playback_reach demo_asset_lib js resolver (d, ?p, demo_sinks)"
    by (rule reach.reach_init) (auto simp: playback_init_def demo_store0_def demo_sinks_def)
  from playback_reach_exec [OF playback_reach_exec [OF this, of "PO_Assets (AO_Insert (demo_variant ''va1''))"],
      of _ "PO_Assets (AO_Insert (demo_variant ''va2''))"]
  show ?thesis by (simp add: demo_performer_def performer_new_def)
qed

text \<open>An idle scheduler accepts every plan, so the playback of an asset with a track succeeds.\<close>

lemma idle_accepts:
  assumes "request \<le> u64_max" "pp_start_at_ms plan \<le> u64_max"
  obtains q s' where "schedule_at request plan (scheduler_new cfg) = Some (Inr q, s')"
proof -
  let ?s = "request_state request (scheduler_new cfg)"
  have "sch_items ?s = []" "sch_cooldowns ?s = []"
    by (simp_all add: request_state_def advance_to_def Let_def scheduler_new_def expire_cooldowns_def bm_retain_def advance_loop.simps)
  then have "\<not> is_live_event (pp_event_id plan) ?s" "cooldown_of plan ?s \<le> pp_start_at_ms (clamped_plan request plan ?s)"
    "\<not> outranked (clamped_plan request plan ?s) ?s"
    by (simp_all add: is_live_event_def cooldown_of_def outranked_def)
  then obtain plan2 s2 where "schedule_at request plan (scheduler_new cfg) = Some (commit_plan plan2 s2)"
    by (rule schedule_at_accept [OF reach_sched_inv [OF sched_reach_new] assms refl refl])
  then show thesis using that by (auto simp: commit_plan_def Let_def)
qed

lemma idle_plays:
  assumes "resolve_asset_visemes a resolver = Inr visemes" "playback_channels a visemes \<noteq> {}" "pt_at_ms timing \<le> u64_max"
    "pf_scheduler p = scheduler_new cfg" "recents_ok p"
  obtains out p' k' where "play_and_record resolver e timing a tier grp p k = Some (Inr out, p', k')"
proof -
  let ?plan = "asset_plan e (pt_at_ms timing) a visemes (asset_variation a (wrapping_add (pt_seed timing) (ev_sequence e)))"
  have "pp_start_at_ms ?plan \<le> u64_max" by (simp add: asset_plan_def Let_def sadd_def)
  then obtain q s' where s: "schedule_at (pt_at_ms timing) ?plan (pf_scheduler p) = Some (Inr q, s')"
    using idle_accepts [OF assms(3)] assms(4) by metis
  have "recents_ok (p\<lparr>pf_scheduler := s'\<rparr>)" using assms(5) by simp
  then obtain p' where "record_recent grp (pa_id a) (p\<lparr>pf_scheduler := s'\<rparr>) = Some p'" by (rule record_recent_ok)
  then show thesis using assms(1,2) s
    by (intro that) (simp add: play_and_record_def schedule_asset_def Let_def case_prod_unfold)
qed

lemma demo_variant_tracks:
  "resolve_asset_visemes (demo_variant i) resolver = Inr None" "playback_channels (demo_variant i) None = {Ch_Audio, Ch_Gaze}"
  by (auto simp: resolve_asset_visemes_def playback_channels_def demo_variant_def demo_asset_def)

lemma demo_performer_recents:
  "recents_ok (demo_performer\<lparr>pf_assets := s\<rparr>)" "pf_scheduler (demo_performer\<lparr>pf_assets := s\<rparr>) = scheduler_new default_config"
  by (simp_all add: demo_performer_def performer_new_def recents_ok_def table_ok_def bm_ok_def)

text \<open>What the call by intent is of: one of the two variants.\<close>

lemma demo_intent_call:
  obtains i s where "i = ''va1'' \<or> i = ''va2''" "store_inv demo_asset_lib s"
    "perform demo_asset_lib demo_intents resolver [] (PC_Intent demo_chat 1000 3) demo_performer demo_sinks =
     play_and_record resolver demo_chat \<lparr>pt_at_ms = 1000, pt_seed = 3\<rparr> (demo_variant i) CT_Memory ''g''
       (demo_performer\<lparr>pf_assets := s\<rparr>) demo_sinks"
proof -
  have f: "playable_event demo_chat = Inr ()" by code_simp
  have g: "Option.bind (bm_get (ev_payload demo_chat) ''intent'') (js_as_str demo_intents) = Some ''g''" "\<not> trim_is_empty ''g''"
    "bm_get (pf_recent demo_performer) ''g'' = None"
    by code_simp+
  have "\<exists>i\<in>{''va1'', ''va2''}. fst (select_variant_with_tier demo_asset_lib ''g'' (wrapping_add 3 (ev_sequence demo_chat)) [] []
      (pf_assets demo_performer)) = Inr (demo_variant i, CT_Memory)"
    by code_simp
  then obtain i s where s: "i = ''va1'' \<or> i = ''va2''" "select_variant_with_tier demo_asset_lib ''g'' (wrapping_add 3 (ev_sequence demo_chat)) [] []
      (pf_assets demo_performer) = (Inr (demo_variant i, CT_Memory), s)"
    by (metis insertE prod.collapse singletonD)
  have "store_inv demo_asset_lib (pf_assets demo_performer)"
    using reach_playback_inv [OF demo_performer_reach [of undefined undefined]] by (simp add: playback_inv_def performer_inv_def)
  with s show thesis
    using select_variant_ok [OF _ s(2)] by (intro that [of i s]) (auto simp: handle_event_def f g Let_def)
qed

lemma demo_intent_time: "pt_at_ms \<lparr>pt_at_ms = 1000, pt_seed = 3\<rparr> \<le> u64_max"
  by (simp add: u64_max_def)

lemma demo_intent_plays:
  obtains out p' k' where
    "perform demo_asset_lib demo_intents resolver [] (PC_Intent demo_chat 1000 3) demo_performer demo_sinks = Some (Inr out, p', k')"
proof -
  obtain i s where s: "perform demo_asset_lib demo_intents resolver [] (PC_Intent demo_chat 1000 3) demo_performer demo_sinks =
     play_and_record resolver demo_chat \<lparr>pt_at_ms = 1000, pt_seed = 3\<rparr> (demo_variant i) CT_Memory ''g''
       (demo_performer\<lparr>pf_assets := s\<rparr>) demo_sinks"
    by (rule demo_intent_call)
  obtain out p' k' where "play_and_record resolver demo_chat \<lparr>pt_at_ms = 1000, pt_seed = 3\<rparr> (demo_variant i) CT_Memory ''g''
      (demo_performer\<lparr>pf_assets := s\<rparr>) demo_sinks = Some (Inr out, p', k')"
    by (rule idle_plays [OF demo_variant_tracks(1) _ demo_intent_time demo_performer_recents(2,1)]) (simp add: demo_variant_tracks(2))
  then show thesis using s by (intro that [of out p' k']) simp
qed

lemma demo_identity_plays:
  obtains out p' k' where
    "perform demo_asset_lib demo_intents resolver []
       (PC_Identity demo_chat ''va1'' (stable_key (identity_of (demo_variant ''va1''))) demo_timing) demo_performer demo_sinks =
     Some (Inr out, p', k')"
proof -
  have f: "playable_event demo_chat = Inr ()" "\<not> trim_is_empty ''va1''"
    "\<not> trim_is_empty (stable_key (identity_of (demo_variant ''va1'')))"
    by code_simp+
  have "fst (resolve_with_tier demo_asset_lib ''va1'' [] (pf_assets demo_performer)) = Inr (demo_variant ''va1'', CT_Memory)"
    by code_simp
  then obtain s where s: "resolve_with_tier demo_asset_lib ''va1'' [] (pf_assets demo_performer) = (Inr (demo_variant ''va1'', CT_Memory), s)"
    by (metis prod.collapse)
  have t: "pt_at_ms demo_timing \<le> u64_max" by (simp add: u64_max_def demo_timing_def)
  obtain out p' k' where "play_and_record resolver demo_chat demo_timing (demo_variant ''va1'') CT_Memory (recent_group_of (demo_variant ''va1''))
      (demo_performer\<lparr>pf_assets := s\<rparr>) demo_sinks = Some (Inr out, p', k')"
    by (rule idle_plays [OF demo_variant_tracks(1) _ t demo_performer_recents(2,1)]) (simp add: demo_variant_tracks(2))
  then show thesis by (intro that [of out p' k']) (simp add: handle_asset_identity_def f s Let_def)
qed

section \<open>Calls\<close>

text \<open>
  In every reachable performer every playback call returns: no index, map lookup or loop of the path
  fails, whatever the event, the disk and the viseme resolver are. The record of recent variants keeps its
  bounds: at most the configured number of groups, each with at most the window's ids, a touch record for
  exactly the groups kept, and never more groups than the high-water mark says.
\<close>

theorem playback_calls_return:
  assumes "playback_reach lib js resolver (d, p, k)" "pt_at_ms (call_timing call) \<le> u64_max"
  shows "perform lib js (resolver d) d call p k \<noteq> None \<and>
    length (pf_recent p) \<le> pb_max_recent_variant_groups (pf_config p) \<and>
    list_all (\<lambda>(g, r). length r \<le> pb_recent_variant_window (pf_config p)) (pf_recent p) \<and>
    fst ` set (pf_touch p) = fst ` set (pf_recent p) \<and> length (pf_recent p) \<le> pf_high_water p"
proof -
  have inv: "performer_inv lib p" using reach_playback_inv [OF assms(1)] by (simp add: playback_inv_def)
  have "perform lib js (resolver d) d call p k \<noteq> None"
    by (cases rule: perform_outcome [OF inv assms(2), of js "resolver d" d k]) simp_all
  then show ?thesis
    using inv by (simp add: performer_inv_def recents_ok_def table_ok_def)
qed

theorem playback_calls_return_witness:
  "perform demo_asset_lib demo_intents (\<lambda>_. Inl PE_MissingIntent) [] (PC_Id demo_chat ''va1'' demo_timing) demo_performer demo_sinks \<noteq> None \<and>
   length (pf_recent demo_performer) \<le> 256"
proof -
  have t: "pt_at_ms (call_timing (PC_Id demo_chat ''va1'' demo_timing)) \<le> u64_max" by (simp add: demo_timing_def u64_max_def)
  have "pb_max_recent_variant_groups (pf_config demo_performer) = 256"
    by (simp add: demo_performer_def performer_new_def default_playback_config_def)
  with playback_calls_return [OF demo_performer_reach [of demo_intents "\<lambda>_ _. Inl PE_MissingIntent" "[]"] t] show ?thesis by simp
qed

text \<open>
  C34. A playback happens completely or not at all. A call that fails leaves the sinks and the recent
  variants alone: at most the asset cache has been touched and the scheduler has advanced to the request
  and noted why it refused. A call that succeeds is for a valid event outside the control plane and a
  valid, compatible asset: the variant its intent and seed select among those not played recently, or the
  asset with the id and identity asked for. The plan of that asset, with the seeded variation of event and
  seed, is live in the scheduler under the event: the event's priority, the channels of the asset's
  tracks, the scaled duration, no interrupt point lost, a start no earlier than the delayed request. The
  sinks got exactly the commands of that plan, the avatar's in the order of time; the latencies reported
  are those of the first ones; and the asset is the latest of its group, unless the configuration keeps none.
\<close>

theorem playback_is_all_or_nothing:
  assumes "playback_reach lib js resolver (d, p, k)" "pt_at_ms (call_timing call) \<le> u64_max"
  shows "(\<exists>x p'. perform lib js (resolver d) d call p k = Some (Inl x, p', k) \<and> refusal (pt_at_ms (call_timing call)) p p') \<or>
    (\<exists>out p' k' a grp. perform lib js (resolver d) d call p k = Some (Inr out, p', k') \<and>
       played_to (resolver d) call a grp p k out p' k' \<and> asked_for js p call a grp \<and>
       asset_issues a = [] \<and> check_compatibility (pa_compatibility a) (as_runtime (pf_assets p)) = CS_Usable \<and>
       validate_event (call_event call) = Inr () \<and> ev_kind (call_event call) \<noteq> OperatorCommand)"
proof -
  have inv: "performer_inv lib p" using reach_playback_inv [OF assms(1)] by (simp add: playback_inv_def)
  have ev: "validate_event e = Inr () \<and> ev_kind e \<noteq> OperatorCommand" if "playable_event e = Inr ()" for e :: "'a event_envelope"
    using that by (auto simp: playable_event_def split: sum.splits if_splits)
  show ?thesis
    by (cases rule: perform_outcome [OF inv assms(2), of js "resolver d" d k]) (blast, use ev in \<open>auto simp: playable_def\<close>)
qed

theorem playback_is_all_or_nothing_witness:
  "\<exists>out p' k' (a :: nat performance_asset). perform demo_asset_lib demo_intents (\<lambda>_. Inl PE_MissingIntent) [] (PC_Intent demo_chat 1000 3) demo_performer demo_sinks =
     Some (Inr out, p', k') \<and> asset_issues a = [] \<and> po_asset_id out = pa_id a \<and> sch_generation (pf_scheduler p') = pp_generation (po_plan out)"
proof -
  have t: "pt_at_ms (call_timing (PC_Intent demo_chat 1000 3)) \<le> u64_max" by (simp add: u64_max_def)
  obtain out p' k' where r: "perform demo_asset_lib demo_intents (\<lambda>_. Inl PE_MissingIntent) [] (PC_Intent demo_chat 1000 3)
      demo_performer demo_sinks = Some (Inr out, p', k')" by (rule demo_intent_plays)
  have out: "po_asset_id out = pa_id a \<and> sch_generation (pf_scheduler p') = pp_generation (po_plan out)"
    if "played_to res call a grp p k out p' k'" for res call a grp p k out p' k'
    using that by (auto simp: played_to_def played_def)
  obtain a grp where "played_to (\<lambda>_. Inl PE_MissingIntent) (PC_Intent demo_chat 1000 3) a grp demo_performer demo_sinks out p' k'"
    "asset_issues a = []"
    using playback_is_all_or_nothing [OF demo_performer_reach [of demo_intents "\<lambda>_ _. Inl PE_MissingIntent" "[]"] t, unfolded r]
    by (auto simp del: asked_for.simps)
  with out r show ?thesis by blast
qed

text \<open>
  Variants rotate. The asset a successful call by intent plays is a variant of the intent's group; it
  is one of those played last, within the window, only when the group has no more variants than the
  window holds; and it is then recorded as the latest of the group, the oldest beyond the window
  forgotten.
\<close>

theorem variants_rotate:
  assumes "playback_reach lib js resolver (d, p, k)" "t \<le> u64_max" "0 < pb_max_recent_variant_groups (pf_config p)"
    and "perform lib js (resolver d) d (PC_Intent e t seed) p k = Some (Inr out, p', k')"
  shows "\<exists>grp. Option.bind (bm_get (ev_payload e) ''intent'') (js_as_str js) = Some grp \<and>
    (let recent = (case bm_get (pf_recent p) grp of None \<Rightarrow> [] | Some r \<Rightarrow> r) in
       po_asset_id out \<in> set (variant_ids grp (pf_assets p)) \<and>
       (po_asset_id out \<in> set recent \<longrightarrow> card (set (variant_ids grp (pf_assets p))) \<le> pb_recent_variant_window (pf_config p)) \<and>
       (0 < pb_recent_variant_window (pf_config p) \<longrightarrow>
          bm_get (pf_recent p') grp = Some (keep_last (pb_recent_variant_window (pf_config p)) (recent @ [po_asset_id out]))))"
proof -
  have inv: "performer_inv lib p" using reach_playback_inv [OF assms(1)] by (simp add: playback_inv_def)
  have t: "pt_at_ms (call_timing (PC_Intent e t seed)) \<le> u64_max" using assms(2) by simp
  obtain a grp where a: "played_to (resolver d) (PC_Intent e t seed) a grp p k out p' k'" "asked_for js p (PC_Intent e t seed) a grp"
    using assms(4) by (cases rule: perform_outcome [OF inv t, of js "resolver d" d k]) simp_all
  let ?recent = "case bm_get (pf_recent p) grp of None \<Rightarrow> [] | Some r \<Rightarrow> r"
  have id: "po_asset_id out = pa_id a" using a(1) by (auto simp: played_to_def played_def)
  have sel: "select_variant_id grp (wrapping_add seed (ev_sequence e)) ?recent (pf_assets p) = Some (po_asset_id out)"
    using a(2) by (simp add: id)
  note v = select_variant_id_fresh [OF sel]
  obtain recent where recent: "recent = ?recent" by simp
  have "length recent \<le> pb_recent_variant_window (pf_config p)" unfolding recent
    using inv by (auto simp: performer_inv_def recents_ok_def table_ok_def list_all_iff bm_get_eq_Some split: option.split)
  then have card: "card (set (variant_ids grp (pf_assets p))) \<le> pb_recent_variant_window (pf_config p)" if "po_asset_id out \<in> set recent"
    using v(2) [folded recent] that card_mono [of "set recent" "set (variant_ids grp (pf_assets p))"] card_length [of recent] by simp
  have rec: "bm_get (pf_recent p') grp = Some (keep_last (pb_recent_variant_window (pf_config p)) (recent @ [po_asset_id out]))"
    if "0 < pb_recent_variant_window (pf_config p)"
    using a(1) that assms(3) unfolding played_to_def recent id by simp
  have intent: "Option.bind (bm_get (ev_payload e) ''intent'') (js_as_str js) = Some grp" using a(2) by simp
  show ?thesis unfolding Let_def
  proof (intro exI [of _ grp] conjI impI)
  qed (use intent v(1) card rec in \<open>simp_all only: recent\<close>)
qed

theorem variants_rotate_witness:
  "\<exists>out p' k'. perform demo_asset_lib demo_intents (\<lambda>_. Inl PE_MissingIntent) [] (PC_Intent demo_chat 1000 3) demo_performer demo_sinks =
     Some (Inr out, p', k') \<and> bm_get (pf_recent p') ''g'' = Some [po_asset_id out]"
proof -
  obtain out p' k' where r: "perform demo_asset_lib demo_intents (\<lambda>_. Inl PE_MissingIntent) [] (PC_Intent demo_chat 1000 3)
      demo_performer demo_sinks = Some (Inr out, p', k')" by (rule demo_intent_plays)
  have g: "Option.bind (bm_get (ev_payload demo_chat) ''intent'') (js_as_str demo_intents) = Some ''g''"
    "bm_get (pf_recent demo_performer) ''g'' = None" "pb_recent_variant_window (pf_config demo_performer) = 1"
    by code_simp+
  have h: "0 < pb_max_recent_variant_groups (pf_config demo_performer)" "(1000 :: nat) \<le> u64_max"
    by (simp_all add: demo_performer_def performer_new_def default_playback_config_def u64_max_def)
  from variants_rotate [OF demo_performer_reach [of demo_intents "\<lambda>_ _. Inl PE_MissingIntent" "[]"] h(2,1) r] r show ?thesis
    by (auto simp: g Let_def keep_last_def)
qed

text \<open>
  A selection that has become stale never plays: when a call by id and identity key succeeds, the asset
  played has that id and exactly the identity the key was made of (schema, compiler, voice, avatar,
  viseme and motion versions), and the plan in the scheduler is that asset's.
\<close>

theorem stale_selection_never_plays:
  assumes "playback_reach lib js resolver (d, p, k)" "pt_at_ms timing \<le> u64_max"
    and "perform lib js (resolver d) d (PC_Identity e i (stable_key identity) timing) p k = Some (Inr out, p', k')"
  shows "\<exists>a. pa_id a = i \<and> identity_of a = identity \<and> asset_issues a = [] \<and>
    po_asset_id out = i \<and> pp_asset_id (po_plan out) = i \<and>
    played_to (resolver d) (PC_Identity e i (stable_key identity) timing) a (recent_group_of a) p k out p' k'"
proof -
  let ?call = "PC_Identity e i (stable_key identity) timing"
  have inv: "performer_inv lib p" using reach_playback_inv [OF assms(1)] by (simp add: playback_inv_def)
  have t: "pt_at_ms (call_timing ?call) \<le> u64_max" using assms(2) by simp
  obtain a grp where a: "played_to (resolver d) ?call a grp p k out p' k'" "asked_for js p ?call a grp" "playable (as_runtime (pf_assets p)) a"
    using assms(3) by (cases rule: perform_outcome [OF inv t, of js "resolver d" d k]) simp_all
  then have "identity_of a = identity" by (simp add: stable_key_is_injective)
  moreover have "po_asset_id out = pa_id a" "pp_asset_id (po_plan out) = pa_id a" using a(1) by (auto simp: played_to_def played_def)
  ultimately show ?thesis using a by (intro exI [of _ a]) (simp add: playable_def)
qed

theorem stale_selection_never_plays_witness:
  "\<exists>out p' k'. perform demo_asset_lib demo_intents (\<lambda>_. Inl PE_MissingIntent) []
     (PC_Identity demo_chat ''va1'' (stable_key (identity_of (demo_variant ''va1''))) demo_timing) demo_performer demo_sinks = Some (Inr out, p', k') \<and>
     po_asset_id out = ''va1''"
proof -
  obtain out p' k' where r: "perform demo_asset_lib demo_intents (\<lambda>_. Inl PE_MissingIntent) []
      (PC_Identity demo_chat ''va1'' (stable_key (identity_of (demo_variant ''va1''))) demo_timing) demo_performer demo_sinks = Some (Inr out, p', k')"
    by (rule demo_identity_plays)
  have "pt_at_ms demo_timing \<le> u64_max" by (simp add: demo_timing_def u64_max_def)
  from stale_selection_never_plays [OF demo_performer_reach [of demo_intents "\<lambda>_ _. Inl PE_MissingIntent" "[]"] this r] r show ?thesis by auto
qed

section \<open>The variation and the reservation\<close>

text \<open>
  The seeded variation of a valid asset is bounded whatever the seed is: in IEEE arithmetic, with the
  mulberry32 generator as written, the speed and the amplitude factor are finite numbers between
  three quarters and five quarters, and the delay exceeds neither the one the asset asks for nor half a
  second. So the amplitude of a gesture the avatar is sent is always a number, and a scaled offset is
  never left unscaled.
\<close>

theorem variation_is_bounded:
  assumes "validate_asset a = Inr ()"
  shows "\<exists>x y. av_speed_factor (asset_variation a seed) = Fin x \<and> 3/4 \<le> x \<and> x \<le> 5/4 \<and>
    av_amplitude_factor (asset_variation a seed) = Fin y \<and> 3/4 \<le> y \<and> y \<le> 5/4 \<and>
    av_start_delay_ms (asset_variation a seed) \<le> delay_of a \<and> delay_of a \<le> 500 \<and>
    scale_offset n (av_speed_factor (asset_variation a seed)) = f64_to_u64 (f64_round_away (f64_mul (f64_of_nat n) (Fin x)))"
proof -
  have issues: "asset_issues a = []" using assms by (simp add: validate_asset_def split: if_splits)
  obtain x y where "av_speed_factor (asset_variation a seed) = Fin x" "3/4 \<le> x" "x \<le> 5/4"
    "av_amplitude_factor (asset_variation a seed) = Fin y" "3/4 \<le> y" "y \<le> 5/4"
    "av_start_delay_ms (asset_variation a seed) \<le> delay_of a" "delay_of a \<le> 500"
    by (rule asset_variation_bounds [OF issues])
  then show ?thesis by (intro exI [of _ x] exI [of _ y]) (simp add: scale_offset_def)
qed

theorem variation_is_bounded_witness:
  "\<exists>x. av_speed_factor (asset_variation (demo_variant ''va1'') 42) = Fin x \<and> 3/4 \<le> x \<and> x \<le> 5/4"
proof -
  have "validate_asset (demo_variant ''va1'') = Inr ()" by code_simp
  from variation_is_bounded [OF this, of 42] show ?thesis by blast
qed








text \<open>
  The millisecond is needed: at a speed factor of \<open>9/8\<close> a speech of four milliseconds that starts four
  milliseconds into the asset ends after the plan, because \<open>4.5\<close> is rounded up twice.
\<close>

definition demo_late_speech :: "nat performance_asset" where
  "demo_late_speech = (demo_asset ''ab0'' None)\<lparr>pa_timeline := [\<lparr>te_at_ms = 4, te_event = ''speech.start'', te_payload = None\<rparr>],
     pa_speech := Some \<lparr>sp_text = None, sp_audio_ref = Some ''hi.wav'', sp_duration_ms = Some 4, sp_viseme_ref = None\<rparr>\<rparr>"

lemma scale_offset_nine_eighths:
  "scale_offset 4 (Fin (9/8)) = 5" "scale_offset 8 (Fin (9/8)) = 9"
proof -
  have half: "f64_round (9/2) = Fin (9/2)"
    using representable_multiple [of 9 "-1"] f64_round_exact [of "9/2"] by (simp add: pow2_def power_int_minus)
  have fl: "\<lfloor>19 / 2 :: rat\<rfloor> = 9" by (simp add: floor_eq_iff)
  show "scale_offset 4 (Fin (9/8)) = 5" "scale_offset 8 (Fin (9/8)) = 9"
    using f64_round_exact [OF representable_nat [of 4]] f64_round_exact [OF representable_nat [of 8]]
      f64_round_exact [OF representable_nat [of 9]] half
    by (simp_all add: scale_offset_def f64_of_nat_def u64_max_def fl)
qed

theorem speech_may_outlast_its_reservation:
  "\<exists>v plan c. asset_issues demo_late_speech = [] \<and> v = \<lparr>av_speed_factor = Fin (9/8), av_amplitude_factor = Fin 1, av_start_delay_ms = 0\<rparr> \<and>
     plan = asset_plan demo_chat 1000 demo_late_speech None v \<and> audio_command_of demo_late_speech plan v = Some c \<and>
     end_at_ms plan < ac_at_ms c + ac_duration_ms c"
proof -
  let ?v = "\<lparr>av_speed_factor = Fin (9/8), av_amplitude_factor = Fin 1, av_start_delay_ms = 0\<rparr>"
  let ?plan = "asset_plan demo_chat 1000 demo_late_speech None ?v"
  have "asset_issues demo_late_speech = []" by code_simp
  moreover have mo: "marker_offset ''speech.start'' demo_late_speech = 4" "asset_base_duration_ms demo_late_speech None = 8"
    by (simp_all add: marker_offset_def asset_base_duration_ms_def Let_def demo_late_speech_def demo_asset_def list_max_def sadd_def u64_max_def)
  have sp: "pa_speech demo_late_speech = Some \<lparr>sp_text = None, sp_audio_ref = Some ''hi.wav'', sp_duration_ms = Some 4, sp_viseme_ref = None\<rparr>"
    by (simp add: demo_late_speech_def)
  have plan: "pp_start_at_ms ?plan = 1000" "pp_duration_ms ?plan = 9"
    by (simp_all add: asset_plan_def Let_def mo scale_offset_nine_eighths sadd_def u64_max_def)
  then have "marker_at ''speech.start'' demo_late_speech ?plan ?v = 1005"
    by (simp add: marker_at_def mo scale_offset_nine_eighths sadd_def u64_max_def)
  then obtain c where "audio_command_of demo_late_speech ?plan ?v = Some c" "ac_at_ms c = 1005" "ac_duration_ms c = 5"
    by (simp add: audio_command_of_def sp scale_offset_nine_eighths)
  moreover have "end_at_ms ?plan = 1009" using plan by (simp add: end_at_ms_def sadd_def u64_max_def)
  ultimately show ?thesis by (intro exI [of _ ?v] exI [of _ ?plan] exI [of _ c]) simp
qed

end
