(* ===== verification/Spec2Isabelle.thy ===== *)
theory Spec2Isabelle
  imports Scheduler_Claims Task_Claims Task_Plane_Claims Domain_Control Budget_Claims Runtime_Claims Memory_Claims
    Asset_Claims Asset_Identity Feedback_Claims Generative_Claims Jev_Claims Tool_Execution Playback_Claims
begin

text \<open>
  A verification development for the Rust workspace under \<open>src/crates\<close>: an autonomous performer that
  reads untrusted public content, decides on reactions, schedules them on one timeline, and obeys an
  authenticated operator. The theories model the deterministic core, component by component.

  Parts and interaction. Content reaches the security runtime (\<open>runtime/src/lib.rs\<close>) as bytes; it
  parses and validates an event envelope (\<open>domain/src/event.rs\<close>), limits the rate of each source and
  queues it. Operator commands take another way: the local ingress (\<open>domain/src/control.rs\<close>)
  authenticates them and mints an authority, and the runtime acts on the scheduler
  (\<open>scheduler/src/lib.rs\<close>), which owns the timeline of planned performances. Agent tasks
  (\<open>domain/src/task.rs\<close>) are state machines fenced by a generation; the task plane
  (\<open>app/src/task_plane.rs\<close>) keeps them, records their transitions
  (\<open>telemetry/src/task_transition.rs\<close>) and commits verified tool results
  (\<open>app/src/tool_execution.rs\<close>). The budget governor (\<open>app/src/budget.rs\<close>) admits generative calls.
  The runtime's memory gate mints write permits, which the working memory
  (\<open>adaptation/src/lib.rs\<close>) needs to store a claim for long; the thinking side reads the memory back
  through scoped, time-indexed views. Performance assets live in the asset store
  (\<open>asset-store/src/lib.rs\<close>): a bounded cache over an index of descriptor files, into which generated
  assets are promoted when the promotion scoring (also \<open>adaptation/src/lib.rs\<close>) has seen enough uses and
  good labels of them. The fast path (\<open>runtime/src/cached_playback.rs\<close>) owns a store and a scheduler: it
  selects an asset for an event, plans it with a seeded variation, and sends its commands to the audio and
  avatar sinks.

  Theories.
  \<^item> Prelude: \<open>u64\<close> arithmetic, \<open>f64\<close> comparison, UTF-8 trimming, \<open>BTreeMap\<close> as a key-ordered list,
    \<open>swap_remove\<close>, results, and the three interfaces of the development as locales: a transition
    system with an invariant, one with a clock, and a bounded log.
  \<^item> Float64: binary64 rounding and the operations the token buckets use, executable, with the lemmas
    on when they are exact.
  \<^item> Redaction: \<open>str::contains\<close>, \<open>str::replace\<close>, lower-casing, the secret redactor and audit records of
    \<open>telemetry/src/lib.rs\<close>; replacement by a separable marker creates no new occurrence.
  \<^item> Std-Lib: what several components use of the Rust library (words and boundaries of UTF-8 strings,
    paths, byte orders, stable sorting, FNV), and the interface of a comparator as a locale.
  \<^item> Domain-Event: the envelope, its date-time grammar and validation, and the declarative contract.
  \<^item> Scheduler-Model (state and every operation), Scheduler-Inv (invariant), Scheduler-Schedule
    (arbitration, reservations and their termination), Scheduler-Props (transition system, ledger),
    Scheduler-Claims (properties).
  \<^item> Domain-Tool (tool results and verification), Domain-Task (task state machine), Task-Inv (call
    contract and invariant), Task-Claims.
  \<^item> Task-Plane (state, methods, sweep), Task-Plane-Inv, Task-Plane-Claims.
  \<^item> Domain-Control: secret comparison on bytes, authentication and the capability gate.
  \<^item> Tool-Execution: the verified execution of a tool (\<open>app/src/tool_execution.rs\<close>): the adapter and the
    closure that reads the task again act on a world in the order of the calls; the property runs it on the
    task plane.
  \<^item> Budget, Budget-Claims: admission, settlement, release, drop and clone of a reservation, windows,
    and four defects stated as theorems.
  \<^item> Security-Runtime (state and every operation of the runtime), Runtime-Inv (invariant, the outcome of
    an admission), Runtime-Claims.
  \<^item> Memory-Model (working memory: text, claims, links, compaction, the durable write), Memory-Query (the
    retrieval views), Memory-Inv (invariant, compaction and insertion), Memory-Links (the link store and
    its bound), Memory-Write (evidence, outcomes, transition system), Memory-View, Memory-Claims.
  \<^item> Asset-Model (descriptor, validation, compatibility, identity), Asset-Identity (validation is exact,
    the key is injective), Asset-Store (cache, eviction, index, promotion, resolution, variants, with the
    disk as an explicit map and every system call able to fail), Asset-Inv (the eviction loop against a
    one-pass reference), Asset-Sys (invariant and transition system), Asset-Claims.

  \<^item> Asset-Feedback (promotion scoring of \<open>adaptation/src/lib.rs\<close>), Feedback-Inv (its two tables with touch
    records), Feedback-Sys (every operation, and the application to the asset store), Feedback-Claims
    (runs of the engine and the store together).
  \<^item> Domain-Context: snapshots, reflex and thinking requests, the reflex decision, interaction deadlines
    (\<open>domain/src/context.rs\<close>, \<open>reflex.rs\<close>, \<open>deadline.rs\<close>, \<open>app/src/deadline.rs\<close>), with their validation.
  \<^item> Retrieval (\<open>reflex/src/retrieval.rs\<close>: the index and the cosine search, with IEEE division and square
    root), Retrieval-Inv (rounding is monotone, similarities of \<open>f32\<close> vectors are finite, the order).
  \<^item> Jev-Wire (\<open>reflex/src/jev.rs\<close>: configuration, request body, normalization of a response), Jev-Call (its
    retry loop over an environment of clock, token, transport and sleep; the worker's future), Jev-Inv
    (the same loop over an environment that logs; termination), Reflex-Policy (\<open>reflex/src/pipeline.rs\<close>),
    Reflex-Claims (search, normalization), Jev-Claims (calls, playback, wake-ups).
  \<^item> Generative (\<open>generative/src/lib.rs\<close>: the compiler of generated replies into assets, the
    incremental compilation session, the collector of streaming speech, the pipeline and the cancellation
    registry, and the speech types of \<open>domain/src/interfaces.rs\<close>),
    Generative-Inv, Generative-Sys, Generative-Claims.
  \<^item> Scheduler-Variation (the seeded generator on 32-bit words and the variation it draws), Cached-Playback
    (viseme tracks, the performer, planning, dispatch, the three handlers), Playback-Inv (rounding of scaled
    offsets, bounds of the variation, the outcome of scheduling an asset), Playback-Sys (invariant, transition
    system, the outcome of a call), Playback-Claims.

  Reading of the sources. A struct is a record with a prefix for its fields, an enum a datatype, a
  \<open>Result\<close> a sum with the error on the left, a panic (index out of range, failing \<open>expect\<close>) the value
  \<open>None\<close> of an option, a mutating method a function that returns the new state. Loops are recursive
  functions with a termination proof, or \<open>partial_function (option)\<close> where they wait for a clock; no fuel
  is used. \<open>u64\<close> values are naturals, saturating where the
  code saturates and checked where it checks; the properties that depend on the range say so.

  Interfaces. Every component's reachable states form a \<open>step_invariant\<close> or \<open>clocked_system\<close>, interpreted
  on its own step relation (\<open>sched_sys\<close>, \<open>task_sys\<close>, \<open>plane_sys\<close>, \<open>budget_clocked\<close>, \<open>rt_sys\<close>, \<open>mem_sys\<close>, \<open>asset_sys\<close>, \<open>feedback_sys\<close>,
  \<open>playback_sys\<close>); the retention
  rings are interpretations of \<open>bounded_log\<close> (\<open>transition_log\<close>, \<open>audit_log\<close>, \<open>compaction_log\<close>, \<open>decision_log\<close>). The sort orders of
  the memory views, of the eviction and of the selection interpret \<open>comparator\<close> (\<open>context_order\<close>, \<open>rank_order\<close>, \<open>recency\<close>,
  \<open>id_order\<close>), and so do those of the semantic search (\<open>search_order\<close>, \<open>asset_id_order\<close>).

  Parameters. \<open>serde_json\<close> (parsing an envelope, the byte count of a payload, reading a string, a JSON
  pointer), the HMAC, the Unicode lower-casing table, the tool adapter, and for the asset store the JSON reader
  and writer, the failures of the file system and what a failed write leaves behind, are arguments of
  the definitions that use them. So are, for the model adapter, the JSON values, \<open>Url::parse\<close>, the clock, the
  cancellation token, the HTTP transport and \<open>sleep\<close>, and for the generative fallback its engines, the safety gate, the clock and
  \<open>json!\<close>; a future driven by \<open>block_on\<close> is a call that returns. The largest instant of the platform is not modelled.
  A disk holds regular files only, and a failed \<open>rename\<close> changes nothing.

  Not modelled: serde derives, threads, channels and I/O (the composition root \<open>app/src/lib.rs\<close>, the
  adapters), the language-model and embedding clients, reports and benchmarks; they are listed in the manifest with their reasons. In the runtime
  the redacting \<open>Debug\<close> instance of a permit is left out.
\<close>

end
